(* ===== verification/Zipc_Prelude.thy ===== *)
theory Zipc_Prelude
  imports "HOL-Library.Word"
begin

text \<open>
  Shared vocabulary of the zIPC development: the fixed-width integer types of the C code,
  packing and unpacking lemmas for words, arithmetic of unsigned words through \<^const>\<open>unat\<close>,
  and list-update lemmas. \<open>size_t\<close> and \<open>uintptr_t\<close> are 64 bits wide (LP64, as on the
  Linux targets).
\<close>

unbundle bit_operations_syntax

type_synonym u8 = "8 word"
type_synonym u16 = "16 word"
type_synonym u32 = "32 word"
type_synonym u64 = "64 word"

named_theorems zipc_pack \<open>extraction of packed fields\<close>

definition UINT32_MAX :: u32 where
  "UINT32_MAX = 0xFFFFFFFF"

definition UINT64_MAX :: u64 where
  "UINT64_MAX = 0xFFFFFFFFFFFFFFFF"

definition SIZE_MAX :: u64 where
  "SIZE_MAX = 0xFFFFFFFFFFFFFFFF"

lemma UINT32_MAX_eq: "UINT32_MAX = - 1"
  by (simp add: UINT32_MAX_def)

lemma UINT64_MAX_eq: "UINT64_MAX = - 1"
  by (simp add: UINT64_MAX_def)

lemma SIZE_MAX_eq: "SIZE_MAX = - 1"
  by (simp add: SIZE_MAX_def)

lemma unat_UINT32_MAX: "unat UINT32_MAX = 2 ^ 32 - 1"
  by (simp add: UINT32_MAX_def)

lemma unat_SIZE_MAX: "unat SIZE_MAX = 2 ^ 64 - 1"
  by (simp add: SIZE_MAX_def)

subsection \<open>Two 32-bit halves of a 64-bit word\<close>

lemma bit_u32_ge [simp]: "32 \<le> n \<Longrightarrow> \<not> bit (w :: u32) n"
  using bit_imp_le_length [of w n] by auto

lemma bit_u16_ge [simp]: "16 \<le> n \<Longrightarrow> \<not> bit (w :: u16) n"
  using bit_imp_le_length [of w n] by auto

lemma bit_u8_ge [simp]: "8 \<le> n \<Longrightarrow> \<not> bit (w :: u8) n"
  using bit_imp_le_length [of w n] by auto

lemma hi32_pack [zipc_pack]:
  "ucast (drop_bit 32 (push_bit 32 (ucast (h :: u32)) OR ucast (l :: u32) :: u64)) = h"
  by (rule bit_word_eqI) (auto simp: bit_simps)

lemma lo32_pack [zipc_pack]:
  "ucast (push_bit 32 (ucast (h :: u32)) OR ucast (l :: u32) :: u64) = l"
  by (rule bit_word_eqI) (auto simp: bit_simps)

lemma pack_hi32_lo32 [zipc_pack]:
  "push_bit 32 (ucast (ucast (drop_bit 32 w) :: u32)) OR ucast (ucast w :: u32) = (w :: u64)"
  by (rule bit_word_eqI) (auto simp: bit_simps)

subsection \<open>Unsigned arithmetic\<close>

lemma unat_u32_lt: "unat (x :: u32) < 4294967296"
proof -
  have "unat x < 2 ^ LENGTH(32)"
    by (rule unsigned_less)
  then show ?thesis
    by simp
qed

lemma unat_u64_lt: "unat (x :: u64) < 18446744073709551616"
proof -
  have "unat x < 2 ^ LENGTH(64)"
    by (rule unsigned_less)
  then show ?thesis
    by simp
qed

lemma unat_u16_lt: "unat (x :: u16) < 65536"
proof -
  have "unat x < 2 ^ LENGTH(16)"
    by (rule unsigned_less)
  then show ?thesis
    by simp
qed

lemmas unat_bounds = unat_u16_lt [THEN less_trans] unat_u32_lt [THEN less_trans]

lemma unat_ucast_32_64 [simp]: "unat (ucast (x :: u32) :: u64) = unat x"
  by (simp add: unsigned_ucast_eq take_bit_nat_eq_self_iff unat_bounds)

lemma unat_ucast_16_64 [simp]: "unat (ucast (x :: u16) :: u64) = unat x"
  by (simp add: unsigned_ucast_eq take_bit_nat_eq_self_iff unat_bounds)

lemma unat_ucast_16_32 [simp]: "unat (ucast (x :: u16) :: u32) = unat x"
  by (simp add: unsigned_ucast_eq take_bit_nat_eq_self_iff unat_bounds)

lemma unat_add_nowrap:
  fixes a b :: "'a::len word"
  assumes "unat a + unat b < 2 ^ LENGTH('a)"
  shows "unat (a + b) = unat a + unat b"
  using assms by (simp add: unat_word_ariths)

lemma unat_sub_nowrap:
  fixes a b :: "'a::len word"
  assumes "b \<le> a"
  shows "unat (a - b) = unat a - unat b"
  using assms by (simp add: unat_sub)

lemma unat_mult_32_32: "unat (ucast (a :: u32) * ucast (b :: u32) :: u64) = unat a * unat b"
proof -
  have "unat a * unat b \<le> 4294967295 * 4294967295"
    using unat_u32_lt [of a] unat_u32_lt [of b] by (intro mult_le_mono) auto
  then show ?thesis
    by (simp add: unat_word_ariths)
qed

lemma word_less_eq_region:
  fixes off len cap :: u32
  assumes "off \<le> cap" and "len \<le> cap - off"
  shows "unat off + unat len \<le> unat cap"
  using assms by (simp add: word_le_nat_alt unat_sub)

lemma region_word_iff:
  fixes off len cap :: u32
  shows "(off \<le> cap \<and> len \<le> cap - off) \<longleftrightarrow> unat off + unat len \<le> unat cap"
proof
  assume "off \<le> cap \<and> len \<le> cap - off"
  then show "unat off + unat len \<le> unat cap"
    by (auto intro: word_less_eq_region)
next
  assume a: "unat off + unat len \<le> unat cap"
  then have "off \<le> cap"
    by (simp add: word_le_nat_alt)
  with a show "off \<le> cap \<and> len \<le> cap - off"
    by (simp add: word_le_nat_alt unat_sub)
qed

lemma unat_minus_one_u32: "(x :: u32) \<noteq> 0 \<Longrightarrow> unat (x - 1) = unat x - 1"
  by (simp add: unat_minus_one)

lemma unat_plus_one_u32: "(x :: u32) \<noteq> UINT32_MAX \<Longrightarrow> unat (x + 1) = unat x + 1"
proof -
  assume "x \<noteq> UINT32_MAX"
  then have "unat x \<noteq> unat UINT32_MAX"
    by (simp add: unsigned_word_eqI word_unat_eq_iff)
  with unat_u32_lt [of x] have "unat x + 1 < 4294967296"
    by (simp add: unat_UINT32_MAX)
  then show ?thesis
    by (simp add: unat_word_ariths)
qed

text \<open>Distances between free-running 32-bit counters.\<close>

text \<open>Incrementing a loop index that is below a bound.\<close>

lemma unat_succ_below: "(x :: u32) < y \<Longrightarrow> unat (x + 1) = unat x + 1"
  using unat_u32_lt [of y] by (simp add: word_less_nat_alt unat_word_ariths)

lemma less_succ_below: "(x :: u32) < y \<Longrightarrow> j < x + 1 \<longleftrightarrow> j \<le> x"
  using unat_succ_below [of x y] by (simp add: word_less_nat_alt word_le_nat_alt less_Suc_eq_le)

lemma le_succ_below: "(x :: u32) < y \<Longrightarrow> x + 1 \<le> j \<longleftrightarrow> x < j"
  using unat_succ_below [of x y] by (simp add: word_less_nat_alt word_le_nat_alt Suc_le_eq)

lemma unat_distance_zero: "unat ((a :: u32) - b) = 0 \<longleftrightarrow> b = a"
  by (metis unat_eq_zero right_minus_eq)

lemma unat_distance_step:
  assumes "b \<noteq> (a :: u32)"
  shows "unat (a - b) = Suc (unat (a - (b + 1)))"
proof -
  have ne: "a - b \<noteq> 0"
    using assms by auto
  have "a - (b + 1) = a - b - 1"
    by (simp only: diff_diff_add)
  moreover have "0 < unat (a - b)"
    using ne by (simp add: unat_gt_0 del: right_minus_eq)
  ultimately show ?thesis
    using unat_minus_one_u32 [OF ne] by (simp only: Suc_diff_1)
qed

lemma unat_distance_grow:
  assumes "unat ((a :: u32) - b) + 1 < 4294967296"
  shows "unat (a + 1 - b) = Suc (unat (a - b))"
proof -
  have "a + 1 - b = (a - b) + 1"
    by (simp only: diff_add_eq)
  moreover have "unat (a - b + 1) = unat (a - b) + unat (1 :: u32)"
    using assms by (intro unat_add_nowrap) simp
  ultimately show ?thesis
    by (simp only: unat_1)
qed

subsection \<open>Lists updated by index\<close>

lemma nth_list_update_if:
  "i < length xs \<Longrightarrow> (xs[i := x]) ! j = (if i = j then x else xs ! j)"
  by (simp add: nth_list_update)

lemma update_id_nth: "xs[i := xs ! i] = xs"
  by (rule list_update_id)

end
