(* ===== verification/Zipc_Types.thy ===== *)
theory Zipc_Types
  imports Zipc_Prelude
begin

text \<open>
  The public data of \<^verbatim>\<open>include/zipc/zipc.h\<close>: status codes, slot states, the packed 64-bit
  words (handles, buffer identities, component lifecycles, claim tokens) with the extraction
  functions of the header and of \<^verbatim>\<open>src/core/zipc.c\<close>, and the records that live in shared memory.
  An enumeration that is only ever stored as an enumerator is a datatype; one that is packed
  into a word (component state, claim kind) is the word itself.
\<close>

subsection \<open>Enumerations and constants\<close>

datatype zipc_status =
    ZIPC_OK
  | ZIPC_ERR_INVALID_ARGUMENT
  | ZIPC_ERR_INVALID_POOL
  | ZIPC_ERR_NO_BUFFER
  | ZIPC_ERR_INVALID_HANDLE
  | ZIPC_ERR_STALE_HANDLE
  | ZIPC_ERR_INVALID_STATE
  | ZIPC_ERR_NOT_OWNER
  | ZIPC_ERR_INVALID_RECEIVER
  | ZIPC_ERR_SEQUENCE_MISMATCH
  | ZIPC_ERR_REGION_OVERFLOW
  | ZIPC_ERR_UNSUPPORTED_MEMORY
  | ZIPC_ERR_TRANSPORT
  | ZIPC_ERR_PLATFORM
  | ZIPC_ERR_TIMEOUT
  | ZIPC_ERR_HOP_LIMIT
  | ZIPC_ERR_DEADLINE
  | ZIPC_ERR_COMPONENT_STALE
  | ZIPC_ERR_RECOVERY_REQUIRED
  | ZIPC_ERR_INVALID_BUFFER
  | ZIPC_ERR_BUFFER_TOO_SMALL
  | ZIPC_ERR_ENTROPY_UNAVAILABLE
  | ZIPC_ERR_TRANSPORT_PUBLISHED
  | ZIPC_ERR_RECOVERY_UNSUPPORTED

datatype zipc_slot_state =
    ZIPC_SLOT_FREE
  | ZIPC_SLOT_CLAIMING
  | ZIPC_SLOT_OWNED
  | ZIPC_SLOT_TRANSFER
  | ZIPC_SLOT_ERROR

datatype zipc_trace_event =
    ZIPC_TRACE_ALLOCATE
  | ZIPC_TRACE_SEND
  | ZIPC_TRACE_RECEIVE
  | ZIPC_TRACE_RELEASE
  | ZIPC_TRACE_RECOVER
  | ZIPC_TRACE_ERROR

type_synonym zipc_handle = u64
type_synonym zipc_slot_id = u32
type_synonym zipc_generation = u32
type_synonym zipc_component_id = u16
type_synonym zipc_buffer_id = u64

definition ZIPC_TRACE_DEPTH :: u32 where
  "ZIPC_TRACE_DEPTH = 8"

definition ZIPC_HOP_LIMIT_UNLIMITED :: u32 where
  "ZIPC_HOP_LIMIT_UNLIMITED = UINT32_MAX"

definition ZIPC_DEADLINE_NONE :: u64 where
  "ZIPC_DEADLINE_NONE = UINT64_MAX"

definition ZIPC_COMPONENT_ID_MIN :: zipc_component_id where
  "ZIPC_COMPONENT_ID_MIN = 1"

definition ZIPC_COMPONENT_ID_MAX :: zipc_component_id where
  "ZIPC_COMPONENT_ID_MAX = 254"

definition ZIPC_INVALID_COMPONENT_ID :: zipc_component_id where
  "ZIPC_INVALID_COMPONENT_ID = 0xFFFF"

definition ZIPC_INVALID_HANDLE :: zipc_handle where
  "ZIPC_INVALID_HANDLE = UINT64_MAX"

definition ZIPC_PHYS_ADDR_INVALID :: u64 where
  "ZIPC_PHYS_ADDR_INVALID = UINT64_MAX"

definition ZIPC_POOL_MAGIC :: u32 where
  "ZIPC_POOL_MAGIC = 0x5A495043"

definition ZIPC_POOL_ABI_VERSION :: u16 where
  "ZIPC_POOL_ABI_VERSION = 3"

text \<open>\<open>zipc_component_state_t\<close> and \<open>zipc_claim_kind_t\<close>, as the integers packed into words.\<close>

definition ZIPC_COMPONENT_INACTIVE :: u32 where
  "ZIPC_COMPONENT_INACTIVE = 0"

definition ZIPC_COMPONENT_RECOVERING :: u32 where
  "ZIPC_COMPONENT_RECOVERING = 1"

definition ZIPC_COMPONENT_ACTIVE :: u32 where
  "ZIPC_COMPONENT_ACTIVE = 2"

definition ZIPC_CLAIM_NONE :: u32 where
  "ZIPC_CLAIM_NONE = 0"

definition ZIPC_CLAIM_ALLOCATE :: u32 where
  "ZIPC_CLAIM_ALLOCATE = 1"

definition ZIPC_CLAIM_SEND :: u32 where
  "ZIPC_CLAIM_SEND = 2"

definition ZIPC_CLAIM_RECEIVE :: u32 where
  "ZIPC_CLAIM_RECEIVE = 3"

definition ZIPC_CLAIM_RELEASE :: u32 where
  "ZIPC_CLAIM_RELEASE = 4"

definition ZIPC_CLAIM_ROLLBACK :: u32 where
  "ZIPC_CLAIM_ROLLBACK = 5"

lemmas zipc_component_state_defs =
  ZIPC_COMPONENT_INACTIVE_def ZIPC_COMPONENT_RECOVERING_def ZIPC_COMPONENT_ACTIVE_def

lemmas zipc_claim_kind_defs =
  ZIPC_CLAIM_NONE_def ZIPC_CLAIM_ALLOCATE_def ZIPC_CLAIM_SEND_def ZIPC_CLAIM_RECEIVE_def
  ZIPC_CLAIM_RELEASE_def ZIPC_CLAIM_ROLLBACK_def

definition zipc_version_string :: string where
  "zipc_version_string = ''0.3.0''"

definition zipc_component_id_valid :: "zipc_component_id \<Rightarrow> bool" where
  "zipc_component_id_valid component \<longleftrightarrow>
     ZIPC_COMPONENT_ID_MIN \<le> component \<and> component \<le> ZIPC_COMPONENT_ID_MAX"

lemma zipc_component_id_valid_iff:
  "zipc_component_id_valid c \<longleftrightarrow> 1 \<le> unat c \<and> unat c \<le> 254"
  by (simp add: zipc_component_id_valid_def ZIPC_COMPONENT_ID_MIN_def ZIPC_COMPONENT_ID_MAX_def
      word_le_nat_alt)

lemma zipc_component_id_valid_lt: "zipc_component_id_valid c \<Longrightarrow> unat c < 256"
  by (simp add: zipc_component_id_valid_iff)

lemma invalid_component_not_valid [simp]: "\<not> zipc_component_id_valid ZIPC_INVALID_COMPONENT_ID"
  by (simp add: zipc_component_id_valid_iff ZIPC_INVALID_COMPONENT_ID_def)

subsection \<open>Handles\<close>

definition zipc_handle_make :: "zipc_slot_id \<Rightarrow> zipc_generation \<Rightarrow> zipc_handle" where
  "zipc_handle_make slot_id generation = push_bit 32 (ucast generation) OR ucast slot_id"

definition zipc_handle_slot_id :: "zipc_handle \<Rightarrow> zipc_slot_id" where
  "zipc_handle_slot_id handle = ucast (handle AND 0xFFFFFFFF)"

definition zipc_handle_generation :: "zipc_handle \<Rightarrow> zipc_generation" where
  "zipc_handle_generation handle = ucast (drop_bit 32 handle)"

lemma mask_numerals:
  "(0xFF :: u16) = mask 8" "(0xFF :: u64) = mask 8" "(0xFFFF :: u64) = mask 16"
  "(0x00FFFFFF :: u32) = mask 24" "(0x00FFFFFF :: u64) = mask 24" "(0xFFFFFFFF :: u64) = mask 32"
  by (simp_all add: mask_eq_exp_minus_1)

lemma ucast_mask32: "(ucast (w AND 0xFFFFFFFF :: u64) :: u32) = ucast w"
  unfolding mask_numerals by (rule bit_word_eqI) (auto simp: bit_simps)

lemma zipc_handle_slot_id_make [simp]: "zipc_handle_slot_id (zipc_handle_make i g) = i"
  by (simp add: zipc_handle_slot_id_def zipc_handle_make_def ucast_mask32 zipc_pack)

lemma zipc_handle_generation_make [simp]: "zipc_handle_generation (zipc_handle_make i g) = g"
  unfolding zipc_handle_generation_def zipc_handle_make_def by (rule hi32_pack)

lemma zipc_handle_make_unpack:
  "zipc_handle_make (zipc_handle_slot_id h) (zipc_handle_generation h) = h"
  by (simp add: zipc_handle_slot_id_def zipc_handle_generation_def zipc_handle_make_def
      ucast_mask32 zipc_pack)

lemma zipc_handle_make_inject [simp]:
  "zipc_handle_make i g = zipc_handle_make j k \<longleftrightarrow> i = j \<and> g = k"
  by (metis zipc_handle_slot_id_make zipc_handle_generation_make)

subsection \<open>Buffer identities\<close>

definition zipc_buffer_id_make :: "zipc_component_id \<Rightarrow> u32 \<Rightarrow> u32 \<Rightarrow> zipc_buffer_id" where
  "zipc_buffer_id_make allocator session sequence =
     push_bit 56 (ucast (allocator AND 0xFF)) OR
     push_bit 32 (ucast (session AND 0x00FFFFFF)) OR
     ucast sequence"

definition zipc_buffer_id_component :: "zipc_buffer_id \<Rightarrow> zipc_component_id" where
  "zipc_buffer_id_component bid = ucast (drop_bit 56 bid)"

definition zipc_buffer_id_session :: "zipc_buffer_id \<Rightarrow> u32" where
  "zipc_buffer_id_session bid = ucast (drop_bit 32 bid AND 0x00FFFFFF)"

definition zipc_buffer_id_sequence :: "zipc_buffer_id \<Rightarrow> u32" where
  "zipc_buffer_id_sequence bid = ucast bid"

definition zipc_buffer_id_valid :: "zipc_buffer_id \<Rightarrow> bool" where
  "zipc_buffer_id_valid bid \<longleftrightarrow>
     (let component = zipc_buffer_id_component bid in
      ZIPC_COMPONENT_ID_MIN \<le> component \<and> component \<le> ZIPC_COMPONENT_ID_MAX \<and>
      zipc_buffer_id_session bid \<noteq> 0 \<and> zipc_buffer_id_sequence bid \<noteq> UINT32_MAX)"

lemma zipc_buffer_id_component_make [zipc_pack]:
  "zipc_buffer_id_component (zipc_buffer_id_make c se sq) = c AND 0xFF"
  unfolding zipc_buffer_id_component_def zipc_buffer_id_make_def mask_numerals
  by (rule bit_word_eqI) (auto simp: bit_simps)

lemma zipc_buffer_id_session_make [zipc_pack]:
  "zipc_buffer_id_session (zipc_buffer_id_make c se sq) = se AND 0x00FFFFFF"
  unfolding zipc_buffer_id_session_def zipc_buffer_id_make_def mask_numerals
  by (rule bit_word_eqI) (auto simp: bit_simps)

lemma zipc_buffer_id_sequence_make [zipc_pack]:
  "zipc_buffer_id_sequence (zipc_buffer_id_make c se sq) = sq"
  unfolding zipc_buffer_id_sequence_def zipc_buffer_id_make_def mask_numerals
  by (rule bit_word_eqI) (auto simp: bit_simps)

lemma component_low_byte: "zipc_component_id_valid c \<Longrightarrow> c AND 0xFF = c"
proof -
  assume "zipc_component_id_valid c"
  then have "unat c < 2 ^ 8"
    by (simp add: zipc_component_id_valid_iff)
  then have "take_bit 8 c = c"
    by (metis take_bit_nat_eq_self unsigned_take_bit_eq word_eq_iff_unsigned)
  then show ?thesis
    by (simp add: mask_numerals take_bit_eq_mask)
qed

lemma zipc_buffer_id_valid_make:
  assumes "zipc_component_id_valid c" "se AND 0x00FFFFFF \<noteq> 0" "sq \<noteq> UINT32_MAX"
  shows "zipc_buffer_id_valid (zipc_buffer_id_make c se sq)"
  using assms component_low_byte [OF assms(1)]
  by (simp add: zipc_buffer_id_valid_def zipc_pack zipc_component_id_valid_def Let_def)

subsection \<open>Component lifecycle words\<close>

definition component_lifecycle_make :: "u32 \<Rightarrow> u32 \<Rightarrow> u64" where
  "component_lifecycle_make epoch state = push_bit 32 (ucast epoch) OR ucast state"

definition component_lifecycle_epoch :: "u64 \<Rightarrow> u32" where
  "component_lifecycle_epoch lifecycle = ucast (drop_bit 32 lifecycle)"

definition component_lifecycle_state :: "u64 \<Rightarrow> u32" where
  "component_lifecycle_state lifecycle = ucast lifecycle"

lemma component_lifecycle_epoch_make [simp]:
  "component_lifecycle_epoch (component_lifecycle_make e st) = e"
  unfolding component_lifecycle_epoch_def component_lifecycle_make_def by (rule hi32_pack)

lemma component_lifecycle_state_make [simp]:
  "component_lifecycle_state (component_lifecycle_make e st) = st"
  unfolding component_lifecycle_state_def component_lifecycle_make_def by (rule lo32_pack)

lemma component_lifecycle_make_unpack [simp]:
  "component_lifecycle_make (component_lifecycle_epoch w) (component_lifecycle_state w) = w"
  unfolding component_lifecycle_epoch_def component_lifecycle_state_def component_lifecycle_make_def
  by (rule pack_hi32_lo32)

lemma component_lifecycle_eq_iff:
  "w = component_lifecycle_make e st \<longleftrightarrow>
     component_lifecycle_epoch w = e \<and> component_lifecycle_state w = st"
  by (metis component_lifecycle_epoch_make component_lifecycle_state_make
      component_lifecycle_make_unpack)

subsection \<open>Claim tokens\<close>

definition claim_token_make :: "u32 \<Rightarrow> zipc_component_id \<Rightarrow> u32 \<Rightarrow> u64" where
  "claim_token_make kind component epoch =
     push_bit 32 (ucast epoch) OR push_bit 8 (ucast component) OR ucast kind"

definition claim_token_kind :: "u64 \<Rightarrow> u32" where
  "claim_token_kind token = ucast (ucast token :: u8)"

definition claim_token_component :: "u64 \<Rightarrow> zipc_component_id" where
  "claim_token_component token = ucast (drop_bit 8 token AND 0xFFFF)"

definition claim_token_epoch :: "u64 \<Rightarrow> u32" where
  "claim_token_epoch token = ucast (drop_bit 32 token)"

definition claim_kind :: "u32 \<Rightarrow> bool" where
  "claim_kind k \<longleftrightarrow> k \<in> {ZIPC_CLAIM_ALLOCATE, ZIPC_CLAIM_SEND, ZIPC_CLAIM_RECEIVE,
     ZIPC_CLAIM_RELEASE, ZIPC_CLAIM_ROLLBACK}"

lemma claim_kind_simps [simp]:
  "claim_kind ZIPC_CLAIM_ALLOCATE" "claim_kind ZIPC_CLAIM_SEND" "claim_kind ZIPC_CLAIM_RECEIVE"
  "claim_kind ZIPC_CLAIM_RELEASE" "claim_kind ZIPC_CLAIM_ROLLBACK"
  by (simp_all add: claim_kind_def)

lemma claim_kind_bits:
  assumes "claim_kind k" and "8 \<le> n"
  shows "\<not> bit k n"
proof -
  from assms(1) have "unat k < 2 ^ 8"
    by (auto simp: claim_kind_def zipc_claim_kind_defs)
  then have "take_bit 8 k = k"
    by (metis take_bit_nat_eq_self unsigned_take_bit_eq word_eq_iff_unsigned)
  with assms(2) show ?thesis
    by (metis bit_take_bit_iff leD)
qed

lemma claim_token_epoch_make [simp]:
  "claim_kind k \<Longrightarrow> claim_token_epoch (claim_token_make k c e) = e"
  unfolding claim_token_epoch_def claim_token_make_def
  by (rule bit_word_eqI) (auto simp: bit_simps claim_kind_bits)

lemma claim_token_component_make [simp]:
  "claim_kind k \<Longrightarrow> claim_token_component (claim_token_make k c e) = c"
  unfolding claim_token_component_def claim_token_make_def mask_numerals
  by (rule bit_word_eqI) (auto simp: bit_simps claim_kind_bits)

lemma claim_token_kind_make [simp]:
  "claim_kind k \<Longrightarrow> claim_token_kind (claim_token_make k c e) = k"
  unfolding claim_token_kind_def claim_token_make_def
  by (rule bit_word_eqI) (auto simp: bit_simps, meson claim_kind_bits not_le)

lemma claim_token_zero [simp]:
  "claim_token_kind 0 = 0" "claim_token_component 0 = 0" "claim_token_epoch 0 = 0"
  by (simp_all add: claim_token_kind_def claim_token_component_def claim_token_epoch_def)

lemma claim_kind_nonzero: "claim_kind k \<Longrightarrow> k \<noteq> 0"
  by (auto simp: claim_kind_def zipc_claim_kind_defs)

lemma claim_token_make_nonzero [simp]: "claim_kind k \<Longrightarrow> claim_token_make k c e \<noteq> 0"
  by (metis claim_token_kind_make claim_token_zero(1) claim_kind_nonzero)

lemma claim_token_make_inject:
  assumes "claim_kind k" "claim_kind k'"
  shows "claim_token_make k c e = claim_token_make k' c' e' \<longleftrightarrow> k = k' \<and> c = c' \<and> e = e'"
  using assms by (metis claim_token_kind_make claim_token_component_make claim_token_epoch_make)

subsection \<open>Shared-memory records\<close>

record zipc_buffer_identity =
  bi_id :: zipc_buffer_id
  bi_parent_id :: zipc_buffer_id

type_synonym zipc_visited_set = "u32 list"

record zipc_buffer_region =
  rg_offset :: u32
  rg_length :: u32

record zipc_trace_entry =
  te_timestamp_ns :: u64
  te_sequence :: u32
  te_component_id :: u16
  te_event :: "zipc_trace_event option"

record zipc_trace_record =
  tr_timestamp_ns :: u64
  tr_buffer_id :: zipc_buffer_id
  tr_parent_id :: zipc_buffer_id
  tr_handle :: zipc_handle
  tr_pool_id :: u32
  tr_transfer_sequence :: u32
  tr_component_id :: zipc_component_id
  tr_event :: zipc_trace_event

record zipc_message =
  msg_handle :: zipc_handle
  msg_pool_id :: u32
  msg_source_component :: zipc_component_id
  msg_destination_component :: zipc_component_id
  msg_transfer_sequence :: u32
  msg_flags :: u32

end
