(* ===== verification/Spsc_Ring.thy ===== *)
theory Spsc_Ring
  imports Zipc_Types
begin

text \<open>
  The shared single-producer/single-consumer descriptor ring: \<open>zipc_transport_spsc_ring_t\<close>
  with its initialisation (\<^verbatim>\<open>src/core/zipc.c\<close>) and the push, peek, commit and pop helpers of
  \<^verbatim>\<open>platform/linux/common/platform-linux-common.c\<close>. Producer and consumer are free-running 32-bit
  counters reduced modulo the depth. The ring is related to the list of pending descriptors;
  the relation needs the depth to divide \<open>2\<^sup>3\<^sup>2\<close>, since the counters wrap there. A pointer
  argument that the code compares with \<open>NULL\<close> is an option, and the pointed-to ring is returned.
\<close>

subsection \<open>Operations\<close>

record zipc_transport_spsc_ring =
  ring_producer :: u32
  ring_consumer :: u32
  ring_depth :: u32
  ring_reserved :: u32
  ring_entries :: "zipc_message list"

definition sizeof_spsc_ring :: u64 where
  "sizeof_spsc_ring = 16"

definition sizeof_message :: u64 where
  "sizeof_message = 24"

definition zipc_transport_spsc_ring_size :: "u32 \<Rightarrow> u64" where
  "zipc_transport_spsc_ring_size depth =
     (if depth < 2 then 0 else sizeof_spsc_ring + ucast depth * sizeof_message)"

definition zipc_transport_spsc_ring_initialize ::
  "zipc_transport_spsc_ring option \<Rightarrow> u32 \<Rightarrow> zipc_status \<times> zipc_transport_spsc_ring option" where
  "zipc_transport_spsc_ring_initialize ring depth =
     (case ring of
        None \<Rightarrow> (ZIPC_ERR_INVALID_ARGUMENT, None)
      | Some r \<Rightarrow>
          if depth < 2 then (ZIPC_ERR_INVALID_ARGUMENT, Some r)
          else (ZIPC_OK, Some (r\<lparr>ring_producer := 0, ring_consumer := 0, ring_depth := depth,
                                 ring_reserved := 0\<rparr>)))"

definition ring_index :: "zipc_transport_spsc_ring \<Rightarrow> u32 \<Rightarrow> nat" where
  "ring_index r position = unat (position mod ring_depth r)"

definition same_descriptor :: "zipc_message \<Rightarrow> zipc_message \<Rightarrow> bool" where
  "same_descriptor queued message \<longleftrightarrow>
     msg_handle queued = msg_handle message \<and>
     msg_pool_id queued = msg_pool_id message \<and>
     msg_source_component queued = msg_source_component message \<and>
     msg_destination_component queued = msg_destination_component message \<and>
     msg_transfer_sequence queued = msg_transfer_sequence message"

function ring_queued :: "zipc_transport_spsc_ring \<Rightarrow> zipc_message \<Rightarrow> u32 \<Rightarrow> u32 \<Rightarrow> bool" where
  "ring_queued r message producer position =
     (if position \<noteq> producer
      then if same_descriptor (ring_entries r ! ring_index r position) message then True
           else ring_queued r message producer (position + 1)
      else False)"
  by pat_completeness auto

termination ring_queued
  by (relation "measure (\<lambda>(r, m, producer, position). unat (producer - position))")
    (simp_all add: unat_distance_step)

declare ring_queued.simps [simp del]

definition zipc_linux_common_ring_push ::
  "zipc_transport_spsc_ring option \<Rightarrow> zipc_message option \<Rightarrow>
   zipc_status \<times> zipc_transport_spsc_ring option" where
  "zipc_linux_common_ring_push ring message =
     (case (ring, message) of
        (Some r, Some m) \<Rightarrow>
          if ring_depth r < 2 then (ZIPC_ERR_INVALID_ARGUMENT, ring)
          else
            let producer = ring_producer r; consumer = ring_consumer r in
            if producer - consumer \<ge> ring_depth r then (ZIPC_ERR_TRANSPORT, ring)
            else if ring_queued r m producer consumer then (ZIPC_OK, ring)
            else (ZIPC_OK, Some (r\<lparr>ring_entries := (ring_entries r)[ring_index r producer := m],
                                   ring_producer := producer + 1\<rparr>))
      | _ \<Rightarrow> (ZIPC_ERR_INVALID_ARGUMENT, ring))"

text \<open>Peek returns the descriptor and its position through its out-parameters; the two flags say
  whether the caller passed non-\<open>NULL\<close> locations.\<close>

definition zipc_linux_common_ring_peek ::
  "zipc_transport_spsc_ring option \<Rightarrow> bool \<Rightarrow> bool \<Rightarrow> zipc_status \<times> (zipc_message \<times> u32) option" where
  "zipc_linux_common_ring_peek ring message_out position_out =
     (case ring of
        None \<Rightarrow> (ZIPC_ERR_INVALID_ARGUMENT, None)
      | Some r \<Rightarrow>
          if \<not> message_out \<or> \<not> position_out \<or> ring_depth r < 2 then (ZIPC_ERR_INVALID_ARGUMENT, None)
          else
            let consumer = ring_consumer r; producer = ring_producer r in
            if consumer = producer then (ZIPC_ERR_NO_BUFFER, None)
            else (ZIPC_OK, Some (ring_entries r ! ring_index r consumer, consumer)))"

definition zipc_linux_common_ring_commit ::
  "zipc_transport_spsc_ring option \<Rightarrow> u32 \<Rightarrow> zipc_status \<times> zipc_transport_spsc_ring option" where
  "zipc_linux_common_ring_commit ring position =
     (case ring of
        None \<Rightarrow> (ZIPC_ERR_INVALID_ARGUMENT, None)
      | Some r \<Rightarrow>
          if ring_depth r < 2 then (ZIPC_ERR_INVALID_ARGUMENT, ring)
          else
            let consumer = ring_consumer r in
            if consumer \<noteq> position then (ZIPC_ERR_RECOVERY_REQUIRED, ring)
            else (ZIPC_OK, Some (r\<lparr>ring_consumer := consumer + 1\<rparr>)))"

definition zipc_linux_common_ring_pop ::
  "zipc_transport_spsc_ring option \<Rightarrow> bool \<Rightarrow>
   zipc_status \<times> zipc_message option \<times> zipc_transport_spsc_ring option" where
  "zipc_linux_common_ring_pop ring message_out =
     (case ring of
        None \<Rightarrow> (ZIPC_ERR_INVALID_ARGUMENT, None, None)
      | Some r \<Rightarrow>
          if \<not> message_out \<or> ring_depth r < 2 then (ZIPC_ERR_INVALID_ARGUMENT, None, ring)
          else
            let consumer = ring_consumer r; producer = ring_producer r in
            if consumer = producer then (ZIPC_ERR_NO_BUFFER, None, ring)
            else (ZIPC_OK, Some (ring_entries r ! ring_index r consumer),
                  Some (r\<lparr>ring_consumer := consumer + 1\<rparr>)))"

subsection \<open>The pending descriptors\<close>

definition ring_wf :: "zipc_transport_spsc_ring \<Rightarrow> bool" where
  "ring_wf r \<longleftrightarrow> 2 \<le> ring_depth r \<and> length (ring_entries r) = unat (ring_depth r) \<and>
     ring_producer r - ring_consumer r \<le> ring_depth r"

definition ring_aligned :: "zipc_transport_spsc_ring \<Rightarrow> bool" where
  "ring_aligned r \<longleftrightarrow> unat (ring_depth r) dvd 2 ^ 32"

definition ring_used :: "zipc_transport_spsc_ring \<Rightarrow> nat" where
  "ring_used r = unat (ring_producer r - ring_consumer r)"

definition ring_list :: "zipc_transport_spsc_ring \<Rightarrow> zipc_message list" where
  "ring_list r = map (\<lambda>k. ring_entries r ! ring_index r (ring_consumer r + of_nat k)) [0..<ring_used r]"

lemma length_ring_list [simp]: "length (ring_list r) = ring_used r"
  by (simp add: ring_list_def)

lemma ring_used_le_depth: "ring_wf r \<Longrightarrow> ring_used r \<le> unat (ring_depth r)"
  by (simp add: ring_wf_def ring_used_def word_le_nat_alt)

lemma ring_wf_depth: "ring_wf r \<Longrightarrow> 2 \<le> unat (ring_depth r)"
  by (simp add: ring_wf_def word_le_nat_alt)

lemma ring_index_offset:
  assumes "unat (ring_depth r) dvd 2 ^ 32"
  shows "ring_index r (p + of_nat k) = (unat p + k) mod unat (ring_depth r)"
proof -
  have "unat (p + of_nat k) = (unat p + k) mod 2 ^ 32"
    by (simp add: unat_word_ariths unat_of_nat mod_simps)
  then show ?thesis
    using assms by (simp add: ring_index_def unat_mod_distrib mod_mod_cancel)
qed

lemma ring_index_lt: "ring_wf r \<Longrightarrow> ring_index r p < unat (ring_depth r)"
  using ring_wf_depth [of r] by (simp add: ring_index_def unat_mod_distrib)

lemma ring_producer_eq: "ring_producer r = ring_consumer r + of_nat (ring_used r)"
  by (simp add: ring_used_def)

lemma mod_add_left_inj:
  fixes a i j d :: nat
  assumes "i < d" "j < d" "(a + i) mod d = (a + j) mod d"
  shows "i = j"
proof -
  have le: "i' = j'" if "i' \<le> j'" "j' < d" "(a + i') mod d = (a + j') mod d" for i' j'
  proof -
    from that have "d dvd (a + j') - (a + i')"
      by (metis add_le_mono le_refl mod_eq_dvd_iff_nat)
    with that(2) have "j' - i' = 0"
      by (metis add_diff_cancel_left dvd_imp_le gr0I le_less_trans diff_le_self not_le)
    with that(1) show ?thesis by simp
  qed
  show ?thesis
    using le [of i j] le [of j i] assms by (cases "i \<le> j") auto
qed

lemma ring_queued_iff:
  "ring_queued r m producer position \<longleftrightarrow>
     (\<exists>k < unat (producer - position). same_descriptor (ring_entries r ! ring_index r (position + of_nat k)) m)"
proof (induction r m producer position rule: ring_queued.induct)
  case (1 r m producer position)
  let ?P = "\<lambda>q k. same_descriptor (ring_entries r ! ring_index r (q + of_nat k)) m"
  show ?case
  proof (cases "position = producer")
    case True
    then show ?thesis
      by (subst ring_queued.simps) simp
  next
    case False
    then have d: "unat (producer - position) = Suc (unat (producer - (position + 1)))"
      by (rule unat_distance_step)
    have split: "(\<exists>k < unat (producer - position). ?P position k) \<longleftrightarrow>
        ?P position 0 \<or> (\<exists>k < unat (producer - (position + 1)). ?P (position + 1) k)"
      unfolding d Ex_less_Suc2 by (simp add: add.assoc)
    show ?thesis
      using False 1 by (subst ring_queued.simps, subst split) auto
  qed
qed

lemma ring_queued_list:
  "ring_queued r m (ring_producer r) (ring_consumer r) \<longleftrightarrow> (\<exists>q \<in> set (ring_list r). same_descriptor q m)"
  by (auto simp: ring_queued_iff ring_list_def ring_used_def)

subsection \<open>Push appends, peek reads the head, commit and pop remove it\<close>

definition ring_invar :: "zipc_transport_spsc_ring \<Rightarrow> bool" where
  "ring_invar r \<longleftrightarrow> ring_wf r \<and> ring_aligned r"

lemma ring_push_used:
  assumes "ring_used r < unat (ring_depth r)"
  shows "unat (ring_producer r + 1 - ring_consumer r) = Suc (ring_used r)"
  unfolding ring_used_def
  using assms unat_u32_lt [of "ring_depth r"]
  by (intro unat_distance_grow) (simp add: ring_used_def)

lemma ring_append_list:
  fixes r :: zipc_transport_spsc_ring and m :: zipc_message
  assumes inv: "ring_invar r" and room: "ring_used r < unat (ring_depth r)"
  defines "r' \<equiv> r\<lparr>ring_entries := (ring_entries r)[ring_index r (ring_producer r) := m],
                   ring_producer := ring_producer r + 1\<rparr>"
  shows "ring_list r' = ring_list r @ [m]" and "ring_invar r'"
proof -
  let ?d = "unat (ring_depth r)" and ?c = "unat (ring_consumer r)"
  from inv have wf: "ring_wf r" and al: "unat (ring_depth r) dvd 2 ^ 32"
    by (simp_all add: ring_invar_def ring_aligned_def)
  have len: "length (ring_entries r) = ?d"
    using wf by (simp add: ring_wf_def)
  have used': "ring_used r' = Suc (ring_used r)"
    using ring_push_used [OF room] by (simp add: ring_used_def r'_def)
  have idx: "ring_index r (ring_consumer r + of_nat k) = (?c + k) mod ?d" for k
    by (rule ring_index_offset [OF al])
  have pidx: "ring_index r (ring_producer r) = (?c + ring_used r) mod ?d"
    using idx [of "ring_used r"] by (simp only: ring_producer_eq [symmetric])
  have at: "ring_entries r' ! ((?c + k) mod ?d) =
      (if k = ring_used r then m else ring_entries r ! ((?c + k) mod ?d))" if "k \<le> ring_used r" for k
  proof -
    have "(?c + ring_used r) mod ?d < length (ring_entries r)"
      using len ring_wf_depth [OF wf] by simp
    moreover have "(?c + ring_used r) mod ?d = (?c + k) mod ?d \<longleftrightarrow> k = ring_used r"
      using mod_add_left_inj [of "ring_used r" ?d k ?c] room that by auto
    ultimately show ?thesis
      by (simp add: r'_def pidx nth_list_update)
  qed
  have idx': "ring_index r' (ring_consumer r' + of_nat k) = (?c + k) mod ?d" for k
    using idx by (simp add: r'_def ring_index_def)
  show "ring_list r' = ring_list r @ [m]"
    unfolding ring_list_def used' idx' idx
    by (rule nth_equalityI) (auto simp: nth_append at less_Suc_eq)
  have "Suc (ring_used r) \<le> ?d"
    using room by simp
  then have "ring_producer r' - ring_consumer r' \<le> ring_depth r'"
    using used' by (simp add: word_le_nat_alt ring_used_def r'_def)
  then show "ring_invar r'"
    using inv by (simp add: ring_invar_def ring_wf_def ring_aligned_def r'_def)
qed

lemma ring_advance_list:
  assumes inv: "ring_invar r" and ne: "ring_consumer r \<noteq> ring_producer r"
  shows "ring_list (r\<lparr>ring_consumer := ring_consumer r + 1\<rparr>) = tl (ring_list r)"
    and "ring_invar (r\<lparr>ring_consumer := ring_consumer r + 1\<rparr>)"
proof -
  let ?r' = "r\<lparr>ring_consumer := ring_consumer r + 1\<rparr>"
  have used: "ring_used r = Suc (ring_used ?r')"
    using unat_distance_step [OF ne] by (simp add: ring_used_def)
  show "ring_list ?r' = tl (ring_list r)"
    unfolding ring_list_def used
    by (rule nth_equalityI) (simp_all add: nth_tl ring_index_def add.assoc del: upt_Suc)
  have "ring_used ?r' \<le> unat (ring_depth r)"
    using used ring_used_le_depth [of r] inv by (simp add: ring_invar_def)
  then show "ring_invar ?r'"
    using inv by (simp add: ring_invar_def ring_wf_def ring_aligned_def ring_used_def word_le_nat_alt)
qed

lemma ring_list_hd:
  assumes "ring_consumer r \<noteq> ring_producer r"
  shows "ring_list r \<noteq> []" and "ring_entries r ! ring_index r (ring_consumer r) = hd (ring_list r)"
proof -
  have "0 < ring_used r"
    using unat_distance_step [OF assms] by (simp add: ring_used_def)
  then show "ring_list r \<noteq> []" "ring_entries r ! ring_index r (ring_consumer r) = hd (ring_list r)"
    by (auto simp: ring_list_def hd_map upt_rec)
qed

lemma ring_list_empty_iff: "ring_list r = [] \<longleftrightarrow> ring_consumer r = ring_producer r"
  by (simp add: ring_list_def ring_used_def unat_distance_zero)

lemma ring_push_cases:
  assumes "ring_invar r"
  shows "zipc_linux_common_ring_push (Some r) (Some m) =
    (if ring_used r = unat (ring_depth r) then (ZIPC_ERR_TRANSPORT, Some r)
     else if \<exists>q \<in> set (ring_list r). same_descriptor q m then (ZIPC_OK, Some r)
     else (ZIPC_OK, Some (r\<lparr>ring_entries := (ring_entries r)[ring_index r (ring_producer r) := m],
                             ring_producer := ring_producer r + 1\<rparr>)))"
proof -
  from assms have wf: "ring_wf r"
    by (simp add: ring_invar_def)
  then have "\<not> ring_depth r < 2"
    by (simp add: ring_wf_def not_less)
  moreover have "ring_producer r - ring_consumer r \<ge> ring_depth r \<longleftrightarrow> ring_used r = unat (ring_depth r)"
    using ring_used_le_depth [OF wf] by (auto simp: word_le_nat_alt ring_used_def)
  ultimately show ?thesis
    by (simp add: zipc_linux_common_ring_push_def ring_queued_list Let_def)
qed

lemma ring_peek_cases:
  assumes "ring_invar r"
  shows "zipc_linux_common_ring_peek (Some r) True True =
    (if ring_list r = [] then (ZIPC_ERR_NO_BUFFER, None)
     else (ZIPC_OK, Some (hd (ring_list r), ring_consumer r)))"
  using assms ring_list_hd [of r]
  by (auto simp: zipc_linux_common_ring_peek_def ring_list_empty_iff ring_invar_def ring_wf_def
      not_less Let_def)

lemma ring_commit_cases:
  assumes "ring_invar r"
  shows "zipc_linux_common_ring_commit (Some r) position =
    (if ring_consumer r = position then (ZIPC_OK, Some (r\<lparr>ring_consumer := ring_consumer r + 1\<rparr>))
     else (ZIPC_ERR_RECOVERY_REQUIRED, Some r))"
  using assms
  by (auto simp: zipc_linux_common_ring_commit_def ring_invar_def ring_wf_def not_less Let_def)

lemma ring_pop_cases:
  assumes "ring_invar r"
  shows "zipc_linux_common_ring_pop (Some r) True =
    (if ring_list r = [] then (ZIPC_ERR_NO_BUFFER, None, Some r)
     else (ZIPC_OK, Some (hd (ring_list r)), Some (r\<lparr>ring_consumer := ring_consumer r + 1\<rparr>)))"
  using assms ring_list_hd [of r]
  by (auto simp: zipc_linux_common_ring_pop_def ring_list_empty_iff ring_invar_def ring_wf_def
      not_less Let_def)

lemma ring_initialize_list:
  assumes "2 \<le> depth" "unat depth dvd 2 ^ 32" "length (ring_entries r) = unat depth"
  shows "\<exists>r'. zipc_transport_spsc_ring_initialize (Some r) depth = (ZIPC_OK, Some r') \<and>
    ring_list r' = [] \<and> ring_invar r' \<and> ring_depth r' = depth"
  using assms
  by (simp add: zipc_transport_spsc_ring_initialize_def ring_list_def ring_used_def ring_invar_def
      ring_wf_def ring_aligned_def not_less)

subsection \<open>The descriptor-queue interface\<close>

text \<open>
  What the link layer relies on: a bounded queue of descriptors with push (suppressing a
  descriptor that is still pending), peek and commit. \<open>push\<close>, \<open>peek\<close> and \<open>commit\<close>
  are the provider's functions on its own state; \<open>pending\<close> is the abstraction.
\<close>

locale descriptor_queue =
  fixes pending :: "'q \<Rightarrow> zipc_message list"
    and invar :: "'q \<Rightarrow> bool"
    and capacity :: "'q \<Rightarrow> nat"
    and push :: "'q \<Rightarrow> zipc_message \<Rightarrow> zipc_status \<times> 'q"
    and peek :: "'q \<Rightarrow> zipc_status \<times> (zipc_message \<times> u32) option"
    and commit :: "'q \<Rightarrow> u32 \<Rightarrow> zipc_status \<times> 'q"
  assumes pending_bound: "invar q \<Longrightarrow> length (pending q) \<le> capacity q"
    and push_full: "invar q \<Longrightarrow> length (pending q) = capacity q \<Longrightarrow> push q m = (ZIPC_ERR_TRANSPORT, q)"
    and push_duplicate: "invar q \<Longrightarrow> length (pending q) < capacity q \<Longrightarrow>
        \<exists>d \<in> set (pending q). same_descriptor d m \<Longrightarrow> push q m = (ZIPC_OK, q)"
    and push_new: "invar q \<Longrightarrow> length (pending q) < capacity q \<Longrightarrow>
        \<not> (\<exists>d \<in> set (pending q). same_descriptor d m) \<Longrightarrow>
        \<exists>q'. push q m = (ZIPC_OK, q') \<and> invar q' \<and> capacity q' = capacity q \<and> pending q' = pending q @ [m]"
    and peek_empty: "invar q \<Longrightarrow> pending q = [] \<Longrightarrow> peek q = (ZIPC_ERR_NO_BUFFER, None)"
    and peek_commit: "invar q \<Longrightarrow> pending q \<noteq> [] \<Longrightarrow>
        \<exists>pos q'. peek q = (ZIPC_OK, Some (hd (pending q), pos)) \<and> commit q pos = (ZIPC_OK, q') \<and>
          invar q' \<and> capacity q' = capacity q \<and> pending q' = tl (pending q)"
begin

text \<open>Pushing a batch of pairwise different descriptors, and draining by peek and commit.\<close>

fun push_all :: "'q \<Rightarrow> zipc_message list \<Rightarrow> 'q" where
  "push_all q [] = q"
| "push_all q (m # ms) = push_all (snd (push q m)) ms"

fun drain :: "nat \<Rightarrow> 'q \<Rightarrow> zipc_message list \<times> 'q" where
  "drain 0 q = ([], q)"
| "drain (Suc n) q =
     (case peek q of
        (ZIPC_OK, Some (m, pos)) \<Rightarrow>
          (let (ms, q') = drain n (snd (commit q pos)) in (m # ms, q'))
      | _ \<Rightarrow> ([], q))"

definition fresh_batch :: "'q \<Rightarrow> zipc_message list \<Rightarrow> bool" where
  "fresh_batch q ms \<longleftrightarrow> sorted_wrt (\<lambda>a b. \<not> same_descriptor a b) (pending q @ ms)"

lemma push_all_pending:
  assumes "invar q" "fresh_batch q ms" "length (pending q) + length ms \<le> capacity q"
  shows "invar (push_all q ms) \<and> pending (push_all q ms) = pending q @ ms \<and>
    capacity (push_all q ms) = capacity q"
  using assms
proof (induction ms arbitrary: q)
  case Nil
  then show ?case by simp
next
  case (Cons m ms)
  have "\<not> (\<exists>d \<in> set (pending q). same_descriptor d m)"
    using Cons.prems(2) by (auto simp: fresh_batch_def sorted_wrt_append)
  moreover have "length (pending q) < capacity q"
    using Cons.prems(3) by simp
  ultimately obtain q' where q': "push q m = (ZIPC_OK, q')" "invar q'" "capacity q' = capacity q"
    "pending q' = pending q @ [m]"
    using push_new Cons.prems(1) by blast
  then have "fresh_batch q' ms" "length (pending q') + length ms \<le> capacity q'"
    using Cons.prems by (simp_all add: fresh_batch_def)
  with Cons.IH [OF q'(2)] q' show ?case
    by simp
qed

lemma drain_pending:
  assumes "invar q"
  shows "fst (drain (length (pending q)) q) = pending q \<and>
    pending (snd (drain (length (pending q)) q)) = []"
  using assms
proof (induction "length (pending q)" arbitrary: q)
  case 0
  then show ?case by simp
next
  case (Suc n)
  then have "pending q \<noteq> []" by auto
  then obtain pos q' where q': "peek q = (ZIPC_OK, Some (hd (pending q), pos))"
    "commit q pos = (ZIPC_OK, q')" "invar q'" "pending q' = tl (pending q)"
    using peek_commit [OF Suc.prems] by blast
  have len: "length (pending q') = n"
    using q'(4) Suc.hyps(2) by simp
  with Suc.hyps(1) [of q'] q'(3)
  have IH: "fst (drain n q') = pending q'" "pending (snd (drain n q')) = []"
    by simp_all
  have "drain (Suc n) q = (hd (pending q) # fst (drain n q'), snd (drain n q'))"
    using q' by (simp add: split_beta)
  then show ?case
    using IH q'(4) \<open>pending q \<noteq> []\<close> Suc.hyps(2) by simp
qed

lemma push_drain_fifo:
  assumes "invar q" "pending q = []" "fresh_batch q ms" "length ms \<le> capacity q"
  shows "fst (drain (length ms) (push_all q ms)) = ms"
  using push_all_pending [OF assms(1,3)] drain_pending [of "push_all q ms"] assms by simp

end

definition ring_push :: "zipc_transport_spsc_ring \<Rightarrow> zipc_message \<Rightarrow> zipc_status \<times> zipc_transport_spsc_ring" where
  "ring_push r m = (let (st, r') = zipc_linux_common_ring_push (Some r) (Some m) in (st, the r'))"

definition ring_peek :: "zipc_transport_spsc_ring \<Rightarrow> zipc_status \<times> (zipc_message \<times> u32) option" where
  "ring_peek r = zipc_linux_common_ring_peek (Some r) True True"

definition ring_commit :: "zipc_transport_spsc_ring \<Rightarrow> u32 \<Rightarrow> zipc_status \<times> zipc_transport_spsc_ring" where
  "ring_commit r pos = (let (st, r') = zipc_linux_common_ring_commit (Some r) pos in (st, the r'))"

lemmas ring_op_defs = ring_push_def ring_peek_def ring_commit_def

interpretation rq: descriptor_queue ring_list ring_invar "\<lambda>r. unat (ring_depth r)"
  ring_push ring_peek ring_commit
proof unfold_locales
  fix q m
  assume inv: "ring_invar q"
  then have le: "ring_used q \<le> unat (ring_depth q)"
    by (simp add: ring_invar_def ring_used_le_depth)
  then show "length (ring_list q) \<le> unat (ring_depth q)"
    by simp
  show "length (ring_list q) = unat (ring_depth q) \<Longrightarrow> ring_push q m = (ZIPC_ERR_TRANSPORT, q)"
    by (simp add: ring_op_defs ring_push_cases [OF inv])
  show "length (ring_list q) < unat (ring_depth q) \<Longrightarrow> \<exists>d\<in>set (ring_list q). same_descriptor d m \<Longrightarrow>
      ring_push q m = (ZIPC_OK, q)"
    by (simp add: ring_op_defs ring_push_cases [OF inv])
  show "length (ring_list q) < unat (ring_depth q) \<Longrightarrow> \<not> (\<exists>d\<in>set (ring_list q). same_descriptor d m) \<Longrightarrow>
      \<exists>q'. ring_push q m = (ZIPC_OK, q') \<and> ring_invar q' \<and> unat (ring_depth q') = unat (ring_depth q) \<and>
        ring_list q' = ring_list q @ [m]"
    using ring_append_list [OF inv, of m] by (auto simp: ring_op_defs ring_push_cases [OF inv])
  show "ring_list q = [] \<Longrightarrow> ring_peek q = (ZIPC_ERR_NO_BUFFER, None)"
    by (simp add: ring_op_defs ring_peek_cases [OF inv])
  show "ring_list q \<noteq> [] \<Longrightarrow> \<exists>pos q'. ring_peek q = (ZIPC_OK, Some (hd (ring_list q), pos)) \<and>
      ring_commit q pos = (ZIPC_OK, q') \<and> ring_invar q' \<and> unat (ring_depth q') = unat (ring_depth q) \<and>
      ring_list q' = tl (ring_list q)"
    using ring_advance_list [OF inv]
    by (simp add: ring_op_defs ring_peek_cases [OF inv] ring_commit_cases [OF inv] ring_list_empty_iff)
qed

subsection \<open>Properties of the ring\<close>

definition sample_message :: "u32 \<Rightarrow> zipc_message" where
  "sample_message n = \<lparr>msg_handle = ucast n, msg_pool_id = 1, msg_source_component = 1,
     msg_destination_component = 2, msg_transfer_sequence = n, msg_flags = 0\<rparr>"

definition sample_ring :: "u32 \<Rightarrow> u32 \<Rightarrow> zipc_transport_spsc_ring" where
  "sample_ring depth start = \<lparr>ring_producer = start, ring_consumer = start, ring_depth = depth,
     ring_reserved = 0, ring_entries = replicate (unat depth) (sample_message 0)\<rparr>"

lemma dvd_word_size: "k \<le> 32 \<Longrightarrow> (2 :: nat) ^ k dvd 2 ^ 32"
  by (rule le_imp_power_dvd)

lemma sample_ring_invar: "ring_invar (sample_ring 4 n)" "ring_list (sample_ring 4 n) = []"
  using dvd_word_size [of 2]
  by (simp_all add: sample_ring_def ring_invar_def ring_wf_def ring_aligned_def ring_list_def ring_used_def)

text \<open>C33: Push against the abstract queue. On a well-formed ring whose depth divides the counter
  range, a push on a full ring fails without effect, a descriptor already pending is accepted
  without being queued twice, and any other is appended at the end; peek then commit removes the
  oldest one.\<close>

theorem ring_refines_queue:
  assumes "ring_invar r"
  shows "(if length (ring_list r) = unat (ring_depth r)
          then zipc_linux_common_ring_push (Some r) (Some m) = (ZIPC_ERR_TRANSPORT, Some r)
          else if \<exists>d \<in> set (ring_list r). same_descriptor d m
          then zipc_linux_common_ring_push (Some r) (Some m) = (ZIPC_OK, Some r)
          else \<exists>r'. zipc_linux_common_ring_push (Some r) (Some m) = (ZIPC_OK, Some r') \<and>
                 ring_list r' = ring_list r @ [m] \<and> ring_invar r') \<and>
    (case ring_list r of
       [] \<Rightarrow> zipc_linux_common_ring_peek (Some r) True True = (ZIPC_ERR_NO_BUFFER, None) \<and>
             zipc_linux_common_ring_pop (Some r) True = (ZIPC_ERR_NO_BUFFER, None, Some r)
     | d # ds \<Rightarrow> \<exists>pos r'. zipc_linux_common_ring_peek (Some r) True True = (ZIPC_OK, Some (d, pos)) \<and>
             zipc_linux_common_ring_commit (Some r) pos = (ZIPC_OK, Some r') \<and>
             zipc_linux_common_ring_pop (Some r) True = (ZIPC_OK, Some d, Some r') \<and>
             ring_list r' = ds \<and> ring_invar r')"
proof (intro conjI)
  show "if length (ring_list r) = unat (ring_depth r)
          then zipc_linux_common_ring_push (Some r) (Some m) = (ZIPC_ERR_TRANSPORT, Some r)
          else if \<exists>d \<in> set (ring_list r). same_descriptor d m
          then zipc_linux_common_ring_push (Some r) (Some m) = (ZIPC_OK, Some r)
          else \<exists>r'. zipc_linux_common_ring_push (Some r) (Some m) = (ZIPC_OK, Some r') \<and>
                 ring_list r' = ring_list r @ [m] \<and> ring_invar r'"
    using ring_append_list [OF assms, of m] ring_used_le_depth [of r] assms
    by (auto simp: ring_push_cases [OF assms] ring_invar_def)
  show "case ring_list r of
       [] \<Rightarrow> zipc_linux_common_ring_peek (Some r) True True = (ZIPC_ERR_NO_BUFFER, None) \<and>
             zipc_linux_common_ring_pop (Some r) True = (ZIPC_ERR_NO_BUFFER, None, Some r)
     | d # ds \<Rightarrow> \<exists>pos r'. zipc_linux_common_ring_peek (Some r) True True = (ZIPC_OK, Some (d, pos)) \<and>
             zipc_linux_common_ring_commit (Some r) pos = (ZIPC_OK, Some r') \<and>
             zipc_linux_common_ring_pop (Some r) True = (ZIPC_OK, Some d, Some r') \<and>
             ring_list r' = ds \<and> ring_invar r'"
    using ring_advance_list [OF assms] ring_list_empty_iff [of r]
    by (auto simp: ring_peek_cases [OF assms] ring_commit_cases [OF assms] ring_pop_cases [OF assms]
        split: list.split)
qed

theorem ring_refines_queue_witness:
  "ring_invar (sample_ring 4 UINT32_MAX) \<and>
   (\<exists>r'. zipc_linux_common_ring_push (Some (sample_ring 4 UINT32_MAX)) (Some (sample_message 1)) = (ZIPC_OK, Some r') \<and>
      ring_list r' = [sample_message 1])"
proof -
  have "unat (ring_depth (sample_ring 4 UINT32_MAX)) = 4"
    by (simp add: sample_ring_def)
  then show ?thesis
    using ring_refines_queue [OF sample_ring_invar(1), of UINT32_MAX "sample_message 1"]
      sample_ring_invar [of UINT32_MAX] by (auto simp del: length_ring_list)
qed

text \<open>First in, first out. A batch of descriptors no two of which are the same transfer, pushed
  into an empty ring that can hold it, comes out of repeated peek and commit in the order it went
  in, wherever the free-running counters stand, across their wrap-around.\<close>

theorem ring_push_drain_fifo:
  assumes "ring_invar r" "ring_list r = []" "sorted_wrt (\<lambda>a b. \<not> same_descriptor a b) ms"
    and "length ms \<le> unat (ring_depth r)"
  shows "fst (rq.drain (length ms) (rq.push_all r ms)) = ms"
  using assms by (intro rq.push_drain_fifo) (simp_all add: rq.fresh_batch_def)

theorem ring_push_drain_fifo_witness:
  "fst (rq.drain 3 (rq.push_all (sample_ring 4 (UINT32_MAX - 1)) (map sample_message [1, 2, 3]))) =
     map sample_message [1, 2, 3]"
proof -
  let ?ms = "map sample_message [1, 2, 3]"
  have "sorted_wrt (\<lambda>a b. \<not> same_descriptor a b) ?ms"
    by (simp add: same_descriptor_def sample_message_def)
  moreover have "length ?ms \<le> unat (ring_depth (sample_ring 4 (UINT32_MAX - 1)))" and len: "length ?ms = 3"
    by (simp_all add: sample_ring_def)
  ultimately have "fst (rq.drain (length ?ms) (rq.push_all (sample_ring 4 (UINT32_MAX - 1)) ?ms)) = ?ms"
    by (intro ring_push_drain_fifo sample_ring_invar)
  then show ?thesis
    unfolding len .
qed

text \<open>The depth must divide the counter range. \<open>zipc_transport_spsc_ring_initialize\<close> accepts any
  depth of at least two, but with depth three the entry index jumps when the 32-bit producer wraps:
  on an empty ring whose counters stand at the last value, the second of two pushes overwrites the
  first, both report success, and the first descriptor popped is the second one pushed.\<close>

theorem ring_depth_three_loses_descriptor:
  "\<exists>r1 r2 r3.
     zipc_transport_spsc_ring_initialize (Some (sample_ring 3 UINT32_MAX)) 3 =
       (ZIPC_OK, Some (sample_ring 3 0)) \<and>
     ring_wf (sample_ring 3 UINT32_MAX) \<and>
     zipc_linux_common_ring_push (Some (sample_ring 3 UINT32_MAX)) (Some (sample_message 1)) = (ZIPC_OK, Some r1) \<and>
     zipc_linux_common_ring_push (Some r1) (Some (sample_message 2)) = (ZIPC_OK, Some r2) \<and>
     zipc_linux_common_ring_pop (Some r2) True = (ZIPC_OK, Some (sample_message 2), Some r3) \<and>
     sample_message 1 \<notin> set (ring_entries r3)"
proof -
  let ?m = sample_message
  have start: "sample_ring 3 n = \<lparr>ring_producer = n, ring_consumer = n, ring_depth = 3,
      ring_reserved = 0, ring_entries = [?m 0, ?m 0, ?m 0]\<rparr>" for n
    by (simp add: sample_ring_def) (simp add: numeral_3_eq_3)
  have diff: "?m 1 \<noteq> ?m 2" "?m 1 \<noteq> ?m 0" "\<not> same_descriptor (?m 1) (?m 2)"
    by (simp_all add: sample_message_def same_descriptor_def)
  have idx: "UINT32_MAX mod 3 = 0" "UINT32_MAX + 1 = 0" "UINT32_MAX \<noteq> 0" "UINT32_MAX \<noteq> 1"
    by (simp_all add: UINT32_MAX_def)
  have "- UINT32_MAX = 1" "1 - UINT32_MAX = 2" "\<not> (3 :: u32) \<le> 1"
    by (simp_all add: UINT32_MAX_def word_le_nat_alt)
  then show ?thesis
    using diff idx
    by (simp add: start zipc_transport_spsc_ring_initialize_def zipc_linux_common_ring_push_def
        zipc_linux_common_ring_pop_def ring_queued.simps ring_wf_def ring_index_def Let_def)
qed

end
