(* ===== verification/Visited_Set.thy ===== *)
theory Visited_Set
  imports Zipc_Types
begin

text \<open>
  The exact visited-component set of \<^verbatim>\<open>src/core/zipc.c\<close>: eight 32-bit words holding one bit per
  component of the 256-entry namespace. The operations are related to the set of usable
  component identifiers they represent; the population count loop clears the lowest set bit of
  each word until the word is zero.
\<close>

subsection \<open>Operations\<close>

definition zipc_visited_set_test :: "zipc_visited_set option \<Rightarrow> zipc_component_id \<Rightarrow> bool" where
  "zipc_visited_set_test visited component =
     (case visited of
        None \<Rightarrow> False
      | Some words \<Rightarrow>
          if \<not> zipc_component_id_valid component then False
          else (words ! unat (component div 32)) AND (push_bit (unat (component mod 32)) 1) \<noteq> 0)"

definition visited_set_add :: "zipc_visited_set \<Rightarrow> zipc_component_id \<Rightarrow> zipc_visited_set" where
  "visited_set_add words component =
     (if zipc_component_id_valid component
      then words[unat (component div 32) :=
                   (words ! unat (component div 32)) OR push_bit (unat (component mod 32)) 1]
      else words)"

lemma word_and_pred_less: "(w :: u32) \<noteq> 0 \<Longrightarrow> unat (w AND (w - 1)) < unat w"
proof -
  assume "w \<noteq> 0"
  then have "unat (w - 1) < unat w"
    by (metis diff_less gr0I unat_minus_one_u32 unat_eq_zero zero_less_one)
  moreover have "w AND (w - 1) \<le> w - 1"
    by (rule word_and_le1)
  ultimately show ?thesis
    by (simp add: word_le_nat_alt)
qed

function count_word_bits :: "u32 \<Rightarrow> u32 \<Rightarrow> u32" where
  "count_word_bits word count =
     (if word \<noteq> 0 then count_word_bits (word AND (word - 1)) (count + 1) else count)"
  by pat_completeness auto
termination
  by (relation "measure (\<lambda>(w, c). unat w)") (auto simp: word_and_pred_less)

declare count_word_bits.simps [simp del]

definition zipc_visited_set_count :: "zipc_visited_set option \<Rightarrow> u32" where
  "zipc_visited_set_count visited =
     (case visited of
        None \<Rightarrow> 0
      | Some words \<Rightarrow>
          let count = fold (\<lambda>i count. count_word_bits (words ! i) count) [0..<8] 0;
              count = count - (if (words ! 0) AND 1 \<noteq> 0 then 1 else 0);
              count = count - (if (words ! 7) AND push_bit 31 1 \<noteq> 0 then 1 else 0)
          in count)"

definition visited_empty :: zipc_visited_set where
  "visited_empty = replicate 8 0"

subsection \<open>The set of components a visited set stands for\<close>

definition visited_wf :: "zipc_visited_set \<Rightarrow> bool" where
  "visited_wf words \<longleftrightarrow> length words = 8"

definition visited_components :: "zipc_visited_set \<Rightarrow> zipc_component_id set" where
  "visited_components words = {c. zipc_visited_set_test (Some words) c}"

lemma and_exp_iff: "(w :: u32) AND 2 ^ k = 0 \<longleftrightarrow> \<not> bit w k"
  using bit_iff_and_push_bit_not_eq_0 [of w k] by simp

lemma component_index:
  "unat ((c :: u16) div 32) = unat c div 32" "unat (c mod 32) = unat c mod 32"
  by (simp_all add: unat_div_distrib unat_mod_distrib)

lemma zipc_visited_set_test_iff:
  "zipc_visited_set_test (Some words) c \<longleftrightarrow>
     zipc_component_id_valid c \<and> bit (words ! (unat c div 32)) (unat c mod 32)"
  by (simp add: zipc_visited_set_test_def and_exp_iff component_index)

lemma visited_set_add_wf [simp]: "visited_wf words \<Longrightarrow> visited_wf (visited_set_add words c)"
  by (simp add: visited_wf_def visited_set_add_def)

lemma visited_empty_wf [simp]: "visited_wf visited_empty"
  by (simp add: visited_wf_def visited_empty_def)

lemma visited_components_empty [simp]: "visited_components visited_empty = {}"
  by (auto simp: visited_components_def zipc_visited_set_test_iff visited_empty_def
      zipc_component_id_valid_iff)

lemma visited_components_add:
  assumes "visited_wf words" and "zipc_component_id_valid c"
  shows "visited_components (visited_set_add words c) = insert c (visited_components words)"
proof -
  have test: "zipc_visited_set_test (Some (visited_set_add words c)) d \<longleftrightarrow>
      d = c \<or> zipc_visited_set_test (Some words) d" for d
  proof (cases "zipc_component_id_valid d")
    case True
    have lt: "unat c div 32 < length words"
      using assms div_le_mono [of "unat c" 254 32]
      by (simp add: visited_wf_def zipc_component_id_valid_iff)
    have "d = c \<longleftrightarrow> unat d div 32 = unat c div 32 \<and> unat d mod 32 = unat c mod 32"
      by (metis div_mult_mod_eq unsigned_word_eqI)
    moreover have "bit (push_bit (unat c mod 32) (1 :: u32)) (unat d mod 32)
        \<longleftrightarrow> unat d mod 32 = unat c mod 32"
      by (auto simp: bit_simps)
    ultimately show ?thesis
      using True assms(2) lt
      by (auto simp: zipc_visited_set_test_iff visited_set_add_def component_index
          nth_list_update bit_or_iff)
  next
    case False
    with assms(2) show ?thesis
      by (auto simp: zipc_visited_set_test_iff)
  qed
  then show ?thesis
    by (auto simp: visited_components_def)
qed

lemma visited_components_valid: "c \<in> visited_components words \<Longrightarrow> zipc_component_id_valid c"
  by (simp add: visited_components_def zipc_visited_set_test_iff)

lemma visited_set_add_invalid:
  "\<not> zipc_component_id_valid c \<Longrightarrow> visited_set_add words c = words"
  by (simp add: visited_set_add_def)

subsection \<open>The population count\<close>

definition nat_bits :: "nat \<Rightarrow> nat set" where
  "nat_bits n = {i. bit n i}"

lemma nat_bits_split: "nat_bits n = (if odd n then {0} else {}) \<union> Suc ` nat_bits (n div 2)"
proof (rule set_eqI)
  fix i
  show "i \<in> nat_bits n \<longleftrightarrow> i \<in> (if odd n then {0} else {}) \<union> Suc ` nat_bits (n div 2)"
    by (cases i) (auto simp: nat_bits_def bit_0 bit_Suc)
qed

lemma nat_bits_zero [simp]: "nat_bits 0 = {}"
  by (simp add: nat_bits_def)

lemma finite_nat_bits [simp]: "finite (nat_bits n)"
proof (induction n rule: less_induct)
  case (less n)
  show ?case
  proof (cases "n = 0")
    case False
    with less have "finite (nat_bits (n div 2))"
      by simp
    then show ?thesis
      by (subst nat_bits_split) simp
  qed simp
qed

lemma card_nat_bits_split: "card (nat_bits n) = n mod 2 + card (nat_bits (n div 2))"
proof -
  have "card (Suc ` nat_bits (n div 2)) = card (nat_bits (n div 2))"
    by (rule card_image) simp
  then show ?thesis
    by (subst nat_bits_split) (auto simp: card_insert_if odd_iff_mod_2_eq_one)
qed

lemma and_pred_div2:
  fixes n :: nat
  shows "odd n \<Longrightarrow> (n AND (n - 1)) div 2 = n div 2"
    and "even n \<Longrightarrow> (n AND (n - 1)) div 2 = (n div 2) AND (n div 2 - 1)"
    and "even (n AND (n - 1))"
proof -
  have div: "(n AND (n - 1)) div 2 = (n div 2) AND ((n - 1) div 2)"
    by (rule bit_eqI) (simp add: bit_and_iff flip: bit_Suc)
  then show "odd n \<Longrightarrow> (n AND (n - 1)) div 2 = n div 2"
    by (auto elim!: oddE)
  show "even n \<Longrightarrow> (n AND (n - 1)) div 2 = (n div 2) AND (n div 2 - 1)"
  proof -
    assume "even n"
    then have "(n - 1) div 2 = n div 2 - 1"
      by (auto elim!: evenE)
    with div show ?thesis by simp
  qed
  show "even (n AND (n - 1))"
    by (cases "even n") (auto simp: even_and_iff)
qed

lemma card_nat_bits_and_pred:
  "0 < n \<Longrightarrow> Suc (card (nat_bits (n AND (n - 1)))) = card (nat_bits n)"
proof (induction n rule: less_induct)
  case (less n)
  have split: "card (nat_bits (n AND (n - 1))) = card (nat_bits ((n AND (n - 1)) div 2))"
    using card_nat_bits_split [of "n AND (n - 1)"] and_pred_div2(3) [of n]
    by (simp add: even_iff_mod_2_eq_zero)
  show ?case
  proof (cases "even n")
    case True
    with less.prems have "0 < n div 2" "n div 2 < n"
      by (auto elim!: evenE)
    then have "Suc (card (nat_bits ((n div 2) AND (n div 2 - 1)))) = card (nat_bits (n div 2))"
      by (rule less.IH [rotated])
    moreover have "card (nat_bits n) = card (nat_bits (n div 2))"
      using True card_nat_bits_split [of n] by (simp add: even_iff_mod_2_eq_zero)
    ultimately show ?thesis
      using split by (simp only: and_pred_div2(2) [OF True])
  next
    case False
    then have "card (nat_bits n) = Suc (card (nat_bits (n div 2)))"
      using card_nat_bits_split [of n] by (simp add: odd_iff_mod_2_eq_one)
    then show ?thesis
      using split by (simp only: and_pred_div2(1) [OF False])
  qed
qed

lemma count_word_bits_eq: "count_word_bits w c = c + of_nat (card {i. bit w i})"
proof (induction w c rule: count_word_bits.induct)
  case (1 w c)
  have bits: "{i. bit v i} = nat_bits (unat v)" for v :: u32
    by (simp add: nat_bits_def bit_unsigned_iff)
  show ?case
  proof (cases "w = 0")
    case True
    moreover have "{i. bit (0 :: u32) i} = {}"
      by auto
    ultimately show ?thesis
      by (subst count_word_bits.simps) (simp only: card.empty, simp)
  next
    case False
    then have "unat (w AND (w - 1)) = unat w AND (unat w - 1)"
      by (simp add: unsigned_and_eq unat_minus_one_u32)
    with False have "card {i. bit w i} = Suc (card {i. bit (w AND (w - 1)) i})"
      using card_nat_bits_and_pred [of "unat w"] by (simp add: bits unat_gt_0)
    with False 1 show ?thesis
      by (simp add: count_word_bits.simps [of w c])
  qed
qed

definition visited_positions :: "zipc_visited_set \<Rightarrow> nat set" where
  "visited_positions words = {n. n < 256 \<and> bit (words ! (n div 32)) (n mod 32)}"

lemma visited_positions_union:
  "visited_positions words = (\<Union>i<8. (\<lambda>k. 32 * i + k) ` {k. bit (words ! i) k})"
proof (rule set_eqI)
  fix n
  have "n \<in> (\<Union>i<8. (\<lambda>k. 32 * i + k) ` {k. bit (words ! i) k}) \<longleftrightarrow>
      (\<exists>i<8. \<exists>k<32. n = 32 * i + k \<and> bit (words ! i) k)"
    by (auto simp: image_iff) (metis bit_u32_ge not_le)
  also have "\<dots> \<longleftrightarrow> n < 256 \<and> bit (words ! (n div 32)) (n mod 32)"
  proof
    assume "n < 256 \<and> bit (words ! (n div 32)) (n mod 32)"
    then have "n div 32 < 8 \<and> n mod 32 < 32 \<and> n = 32 * (n div 32) + n mod 32 \<and>
        bit (words ! (n div 32)) (n mod 32)"
      by auto
    then show "\<exists>i<8. \<exists>k<32. n = 32 * i + k \<and> bit (words ! i) k"
      by blast
  qed auto
  finally show "n \<in> visited_positions words \<longleftrightarrow>
      n \<in> (\<Union>i<8. (\<lambda>k. 32 * i + k) ` {k. bit (words ! i) k})"
    by (simp add: visited_positions_def)
qed

lemma finite_word_bits [simp]: "finite {k. bit (w :: u32) k}"
  by (rule finite_subset [of _ "{..<32}"]) (auto, metis bit_u32_ge not_le)

lemma card_visited_positions:
  "card (visited_positions words) = (\<Sum>i<8. card {k. bit (words ! i) k})"
proof -
  have "card (visited_positions words) =
      (\<Sum>i<8. card ((\<lambda>k. 32 * i + k) ` {k. bit (words ! i) k}))"
    unfolding visited_positions_union
  proof (rule card_UN_disjoint)
    show "\<forall>i\<in>{..<8}. \<forall>j\<in>{..<8}. i \<noteq> j \<longrightarrow>
        (\<lambda>k. 32 * i + k) ` {k. bit (words ! i) k} \<inter> (\<lambda>k. 32 * j + k) ` {k. bit (words ! j) k} = {}"
    proof (clarsimp simp: disjoint_iff)
      fix i j k l :: nat
      assume "i \<noteq> j" "bit (words ! i) k" "bit (words ! j) l" "32 * i + k = 32 * j + l"
      moreover from this have "k < 32" "l < 32"
        by (metis bit_u32_ge not_le)+
      ultimately show False
        by arith
    qed
  qed auto
  then show ?thesis
    by (simp add: card_image)
qed

lemma visited_components_positions:
  "visited_components words = of_nat ` (visited_positions words - {0, 255})"
proof (rule set_eqI)
  fix c :: zipc_component_id
  show "c \<in> visited_components words \<longleftrightarrow> c \<in> of_nat ` (visited_positions words - {0, 255})"
  proof
    assume "c \<in> visited_components words"
    then have "unat c \<in> visited_positions words - {0, 255}"
      by (auto simp: visited_components_def zipc_visited_set_test_iff visited_positions_def
          zipc_component_id_valid_iff)
    then show "c \<in> of_nat ` (visited_positions words - {0, 255})"
      by (intro image_eqI [of _ _ "unat c"]) simp_all
  next
    assume "c \<in> of_nat ` (visited_positions words - {0, 255})"
    then obtain n where n: "n \<in> visited_positions words" "n \<noteq> 0" "n \<noteq> 255" "c = of_nat n"
      by auto
    then have "unat c = n"
      by (simp add: visited_positions_def unat_of_nat)
    with n show "c \<in> visited_components words"
      by (auto simp: visited_components_def zipc_visited_set_test_iff visited_positions_def
          zipc_component_id_valid_iff)
  qed
qed

lemma card_visited_components:
  "card (visited_components words) = card (visited_positions words - {0, 255})"
  unfolding visited_components_positions
proof (rule card_image, rule inj_onI)
  fix m n :: nat
  assume "m \<in> visited_positions words - {0, 255}" "n \<in> visited_positions words - {0, 255}"
    and eq: "(of_nat m :: zipc_component_id) = of_nat n"
  then have "m < 256" "n < 256"
    by (auto simp: visited_positions_def)
  then have "unat (of_nat m :: zipc_component_id) = m" "unat (of_nat n :: zipc_component_id) = n"
    by (simp_all add: unat_of_nat)
  with eq show "m = n" by metis
qed

lemma zipc_visited_set_count_eq:
  "zipc_visited_set_count (Some words) = of_nat (card (visited_components words))"
proof -
  let ?N = "visited_positions words"
  have fin: "finite ?N"
    by (simp add: visited_positions_def)
  have zero: "0 \<in> ?N \<longleftrightarrow> bit (words ! 0) 0" and last: "255 \<in> ?N \<longleftrightarrow> bit (words ! 7) 31"
    by (simp_all add: visited_positions_def)
  have "fold (\<lambda>i count. count_word_bits (words ! i) count) [0..<8] 0 = (of_nat (card ?N) :: u32)"
    by (simp add: card_visited_positions count_word_bits_eq upt_rec lessThan_nat_numeral
        lessThan_Suc eval_nat_numeral add.assoc add.commute add.left_commute)
  moreover have "card ?N = card (?N - {0, 255}) + (if 0 \<in> ?N then 1 else 0) + (if 255 \<in> ?N then 1 else 0)"
    using card_Int_Diff [OF fin, of "{0, 255}"] by simp
  ultimately show ?thesis
    using and_exp_iff [of "words ! 0" 0] and_exp_iff [of "words ! 7" 31] zero last
    by (simp add: zipc_visited_set_count_def card_visited_components Let_def split: if_splits)
qed

subsection \<open>The bitmap as a set\<close>

text \<open>The visited bitmap represents a set of components. Adding a valid component inserts
  exactly that component, the membership test reads it back, and the bit-counting loop returns
  the cardinality of the set, whatever the reserved positions 0 and 255 hold.\<close>

theorem visited_set_represents:
  assumes "visited_wf words" and "zipc_component_id_valid c"
  shows "visited_components (visited_set_add words c) = insert c (visited_components words) \<and>
    (zipc_visited_set_test (Some words) d \<longleftrightarrow> d \<in> visited_components words) \<and>
    zipc_visited_set_count (Some (visited_set_add words c)) =
      of_nat (card (insert c (visited_components words)))"
  using visited_components_add [OF assms] zipc_visited_set_count_eq [of "visited_set_add words c"]
  by (simp add: visited_components_def)

theorem visited_set_represents_witness:
  "visited_components (visited_set_add visited_empty 5) = {5} \<and>
   zipc_visited_set_count (Some (visited_set_add visited_empty 5)) = 1"
proof -
  have "zipc_component_id_valid 5"
    by (simp add: zipc_component_id_valid_iff)
  then show ?thesis
    using visited_set_represents [OF visited_empty_wf, of 5 0] by simp
qed

end
