(* ===== verification/Pool_State.thy ===== *)
theory Pool_State
  imports Visited_Set
begin

text \<open>
  The state every pool operation works on. Shared memory is a store of formatted pools
  (header, slot controls, payload bytes), addressed by the reference a \<open>zipc_pool_t\<close> keeps in
  place of its \<open>header\<close> and \<open>controls\<close> pointers; the process side holds the platform memory
  objects, the buffer-identity generators and the trace hook. What the code reads from outside
  (the clock, the entropy source, the outcome of \<open>mprotect\<close>, the page size) are streams in the
  state, consumed in call order. Sequential reads and writes of one slot go through
  \<open>slot_of\<close> and \<open>upd_slot\<close>, the dereference and assignment of a \<open>zipc_slot_control_t\<close> pointer.
\<close>

subsection \<open>Shared memory\<close>

record zipc_slot_control =
  sc_state :: zipc_slot_state
  sc_generation :: zipc_generation
  sc_owner_id :: zipc_component_id
  sc_next_owner_id :: zipc_component_id
  sc_owner_epoch :: u32
  sc_hop_count :: u32
  sc_hop_limit :: u32
  sc_visited :: zipc_visited_set
  sc_identity :: zipc_buffer_identity
  sc_region :: zipc_buffer_region
  sc_transfer_sequence :: u32
  sc_payload_type :: u16
  sc_flags :: u16
  sc_error_flags :: u32
  sc_acquired_ns :: u64
  sc_deadline_ns :: u64
  sc_trace_count :: u32
  sc_recovery_count :: u32
  sc_claim_token :: u64
  sc_claim_previous_sequence :: u32
  sc_claim_previous_region :: zipc_buffer_region
  sc_claim_previous_owner :: zipc_component_id
  sc_reserved_claim :: u16
  sc_claim_previous_owner_epoch :: u32
  sc_transfer_link_id :: u64
  sc_transfer_source_id :: zipc_component_id
  sc_reserved_transfer :: u16
  sc_transfer_source_epoch :: u32
  sc_transfer_hop_count :: u32
  sc_transfer_acquired_ns :: u64
  sc_transfer_visited :: zipc_visited_set
  sc_trace :: "zipc_trace_entry list"

record zipc_component_status =
  cs_lifecycle :: u64
  cs_last_heartbeat_ns :: u64
  cs_recovered_slots :: u64

record zipc_pool_header =
  ph_magic :: u32
  ph_abi_version :: u16
  ph_header_size :: u16
  ph_slot_count :: u32
  ph_slot_capacity :: u32
  ph_slot_stride :: u32
  ph_controls_offset :: u32
  ph_payload_alignment :: u32
  ph_allocation_cursor :: u32
  ph_allocation_count :: u64
  ph_release_count :: u64
  ph_allocation_failure_count :: u64
  ph_protocol_error_count :: u64
  ph_recovery_count :: u64
  ph_components :: "zipc_component_status list"

record pool_shm =
  shm_header :: zipc_pool_header
  shm_controls :: "zipc_slot_control list"
  shm_payload :: "u8 list"

subsection \<open>Process-local objects\<close>

type_synonym slot_ptr = "nat \<times> zipc_slot_id"

record zipc_platform_memory =
  pm_base :: u64
  pm_size :: u64
  pm_physical_base :: u64
  pm_capabilities :: u32
  pm_access :: "nat \<Rightarrow> bool"

record zipc_buffer_id_generator =
  gen_session_state :: u32
  gen_sequence :: u32
  gen_active :: u32

record zipc_pool =
  pool_addr :: nat
  pool_control_memory :: "nat option"
  pool_payload_memory :: "nat option"
  pool_control_offset :: u64
  pool_payload_offset :: u64
  pool_shm_ref :: nat
  pool_payload_base :: u64
  pool_flags :: u32
  pool_pool_id :: u32

record sys =
  sys_shm :: "nat \<Rightarrow> pool_shm"
  sys_mem :: "nat \<Rightarrow> zipc_platform_memory"
  sys_gen :: "zipc_component_id \<Rightarrow> zipc_buffer_id_generator"
  sys_hook :: bool
  sys_trace :: "zipc_trace_record list"
  sys_clock :: "nat \<Rightarrow> u64"
  sys_ticks :: nat
  sys_entropy :: "nat \<Rightarrow> zipc_status \<times> u32"
  sys_draws :: nat
  sys_mprotect :: "nat \<Rightarrow> bool"
  sys_mprotects :: nat
  sys_page_size :: u64

definition ZIPC_POOL_F_GUARD_PAGES :: u32 where
  "ZIPC_POOL_F_GUARD_PAGES = 1"

definition ZIPC_POOL_F_STRICT_OWNERSHIP :: u32 where
  "ZIPC_POOL_F_STRICT_OWNERSHIP = 2"

definition ZIPC_MEM_CAP_CPU_READ :: u32 where "ZIPC_MEM_CAP_CPU_READ = 1"
definition ZIPC_MEM_CAP_CPU_WRITE :: u32 where "ZIPC_MEM_CAP_CPU_WRITE = 2"
definition ZIPC_MEM_CAP_ATOMIC32 :: u32 where "ZIPC_MEM_CAP_ATOMIC32 = 4"
definition ZIPC_MEM_CAP_ATOMIC64 :: u32 where "ZIPC_MEM_CAP_ATOMIC64 = 8"
definition ZIPC_MEM_CAP_PAGE_PROTECT :: u32 where "ZIPC_MEM_CAP_PAGE_PROTECT = 256"

subsection \<open>Dereferencing and updating\<close>

definition hdr :: "sys \<Rightarrow> zipc_pool \<Rightarrow> zipc_pool_header" where
  "hdr s p = shm_header (sys_shm s (pool_shm_ref p))"

definition upd_hdr :: "zipc_pool \<Rightarrow> (zipc_pool_header \<Rightarrow> zipc_pool_header) \<Rightarrow> sys \<Rightarrow> sys" where
  "upd_hdr p f s =
     (let r = pool_shm_ref p; m = sys_shm s r
      in s\<lparr>sys_shm := (sys_shm s)(r := m\<lparr>shm_header := f (shm_header m)\<rparr>)\<rparr>)"

definition slot_ptr_ok :: "sys \<Rightarrow> slot_ptr \<Rightarrow> bool" where
  "slot_ptr_ok s c \<longleftrightarrow> unat (snd c) < length (shm_controls (sys_shm s (fst c)))"

definition slot_of :: "sys \<Rightarrow> slot_ptr \<Rightarrow> zipc_slot_control" where
  "slot_of s c = shm_controls (sys_shm s (fst c)) ! unat (snd c)"

definition upd_slot :: "slot_ptr \<Rightarrow> (zipc_slot_control \<Rightarrow> zipc_slot_control) \<Rightarrow> sys \<Rightarrow> sys" where
  "upd_slot c f s =
     (let m = sys_shm s (fst c)
      in s\<lparr>sys_shm := (sys_shm s)(fst c :=
             m\<lparr>shm_controls := (shm_controls m)[unat (snd c) := f (shm_controls m ! unat (snd c))]\<rparr>)\<rparr>)"

definition slot_ptr :: "zipc_pool \<Rightarrow> zipc_slot_id \<Rightarrow> slot_ptr" where
  "slot_ptr p i = (pool_shm_ref p, i)"

definition component_of :: "sys \<Rightarrow> zipc_pool \<Rightarrow> zipc_component_id \<Rightarrow> zipc_component_status" where
  "component_of s p c = ph_components (hdr s p) ! unat c"

definition upd_component ::
  "zipc_pool \<Rightarrow> zipc_component_id \<Rightarrow> (zipc_component_status \<Rightarrow> zipc_component_status) \<Rightarrow> sys \<Rightarrow> sys" where
  "upd_component p c f =
     upd_hdr p (\<lambda>h. h\<lparr>ph_components := (ph_components h)[unat c := f (ph_components h ! unat c)]\<rparr>)"

definition payload_of :: "sys \<Rightarrow> zipc_pool \<Rightarrow> u8 list" where
  "payload_of s p = shm_payload (sys_shm s (pool_shm_ref p))"

subsection \<open>The clock\<close>

definition zipc_now_ns :: "sys \<Rightarrow> u64 \<times> sys" where
  "zipc_now_ns s = (sys_clock s (sys_ticks s), s\<lparr>sys_ticks := Suc (sys_ticks s)\<rparr>)"

subsection \<open>Algebra of reads and writes\<close>

lemma slot_ptr_simps [simp]: "fst (slot_ptr p i) = pool_shm_ref p" "snd (slot_ptr p i) = i"
  by (simp_all add: slot_ptr_def)

lemma slot_ptr_eq_iff [simp]: "slot_ptr p i = slot_ptr p j \<longleftrightarrow> i = j"
  by (simp add: slot_ptr_def)

lemma slot_of_upd_slot [simp]: "slot_ptr_ok s c \<Longrightarrow> slot_of (upd_slot c f s) c = f (slot_of s c)"
  by (simp add: slot_of_def upd_slot_def slot_ptr_ok_def Let_def)

lemma slot_of_upd_slot_other [simp]: "c \<noteq> c' \<Longrightarrow> slot_of (upd_slot c f s) c' = slot_of s c'"
  by (cases c; cases c') (auto simp: slot_of_def upd_slot_def Let_def word_unat_eq_iff)

lemma upd_slot_upd_slot [simp]: "upd_slot c f (upd_slot c g s) = upd_slot c (\<lambda>x. f (g x)) s"
proof (cases "slot_ptr_ok s c")
  case True
  then show ?thesis
    by (simp add: upd_slot_def slot_ptr_ok_def Let_def)
next
  case False
  then show ?thesis
    by (simp add: upd_slot_def slot_ptr_ok_def Let_def list_update_beyond)
qed

lemma slot_ptr_ok_upd_slot [simp]: "slot_ptr_ok (upd_slot c f s) c' \<longleftrightarrow> slot_ptr_ok s c'"
  by (auto simp: slot_ptr_ok_def upd_slot_def Let_def)

lemma slot_ptr_ok_upd_hdr [simp]: "slot_ptr_ok (upd_hdr p f s) c \<longleftrightarrow> slot_ptr_ok s c"
  by (auto simp: slot_ptr_ok_def upd_hdr_def Let_def)

lemma slot_of_upd_hdr [simp]: "slot_of (upd_hdr p f s) c = slot_of s c"
  by (auto simp: slot_of_def upd_hdr_def Let_def)

lemma hdr_upd_slot [simp]: "hdr (upd_slot c f s) p = hdr s p"
  by (auto simp: hdr_def upd_slot_def Let_def)

lemma hdr_upd_hdr [simp]: "hdr (upd_hdr p f s) p = f (hdr s p)"
  by (simp add: hdr_def upd_hdr_def Let_def)

lemma payload_of_upd [simp]:
  "payload_of (upd_slot c f s) p = payload_of s p" "payload_of (upd_hdr q g s) p = payload_of s p"
  by (auto simp: payload_of_def upd_slot_def upd_hdr_def Let_def)

lemma sys_upd_slot [simp]:
  "sys_mem (upd_slot c f s) = sys_mem s" "sys_gen (upd_slot c f s) = sys_gen s"
  "sys_hook (upd_slot c f s) = sys_hook s" "sys_trace (upd_slot c f s) = sys_trace s"
  "sys_clock (upd_slot c f s) = sys_clock s" "sys_ticks (upd_slot c f s) = sys_ticks s"
  "sys_entropy (upd_slot c f s) = sys_entropy s" "sys_draws (upd_slot c f s) = sys_draws s"
  "sys_mprotect (upd_slot c f s) = sys_mprotect s" "sys_mprotects (upd_slot c f s) = sys_mprotects s"
  "sys_page_size (upd_slot c f s) = sys_page_size s"
  by (simp_all add: upd_slot_def Let_def)

lemma sys_upd_hdr [simp]:
  "sys_mem (upd_hdr p f s) = sys_mem s" "sys_gen (upd_hdr p f s) = sys_gen s"
  "sys_hook (upd_hdr p f s) = sys_hook s" "sys_trace (upd_hdr p f s) = sys_trace s"
  "sys_clock (upd_hdr p f s) = sys_clock s" "sys_ticks (upd_hdr p f s) = sys_ticks s"
  "sys_entropy (upd_hdr p f s) = sys_entropy s" "sys_draws (upd_hdr p f s) = sys_draws s"
  "sys_mprotect (upd_hdr p f s) = sys_mprotect s" "sys_mprotects (upd_hdr p f s) = sys_mprotects s"
  "sys_page_size (upd_hdr p f s) = sys_page_size s"
  by (simp_all add: upd_hdr_def Let_def)

text \<open>Two states agree on shared memory when only process-local parts differ.\<close>

lemma reads_cong:
  assumes "sys_shm s = sys_shm t"
  shows "slot_of s = slot_of t" "hdr s = hdr t" "slot_ptr_ok s = slot_ptr_ok t"
    "payload_of s = payload_of t" "component_of s = component_of t"
  using assms by (auto simp: slot_of_def hdr_def slot_ptr_ok_def payload_of_def component_of_def
      fun_eq_iff)

lemma reads_local_update [simp]:
  "slot_of (s\<lparr>sys_ticks := n\<rparr>) = slot_of s" "hdr (s\<lparr>sys_ticks := n\<rparr>) = hdr s"
  "slot_ptr_ok (s\<lparr>sys_ticks := n\<rparr>) = slot_ptr_ok s" "payload_of (s\<lparr>sys_ticks := n\<rparr>) = payload_of s"
  "slot_of (s\<lparr>sys_trace := tr\<rparr>) = slot_of s" "hdr (s\<lparr>sys_trace := tr\<rparr>) = hdr s"
  "slot_ptr_ok (s\<lparr>sys_trace := tr\<rparr>) = slot_ptr_ok s" "payload_of (s\<lparr>sys_trace := tr\<rparr>) = payload_of s"
  "slot_of (s\<lparr>sys_gen := g\<rparr>) = slot_of s" "hdr (s\<lparr>sys_gen := g\<rparr>) = hdr s"
  "slot_ptr_ok (s\<lparr>sys_gen := g\<rparr>) = slot_ptr_ok s" "payload_of (s\<lparr>sys_gen := g\<rparr>) = payload_of s"
  "slot_of (s\<lparr>sys_draws := n\<rparr>) = slot_of s" "hdr (s\<lparr>sys_draws := n\<rparr>) = hdr s"
  "slot_ptr_ok (s\<lparr>sys_draws := n\<rparr>) = slot_ptr_ok s" "payload_of (s\<lparr>sys_draws := n\<rparr>) = payload_of s"
  "slot_of (s\<lparr>sys_mem := ms\<rparr>) = slot_of s" "hdr (s\<lparr>sys_mem := ms\<rparr>) = hdr s"
  "slot_ptr_ok (s\<lparr>sys_mem := ms\<rparr>) = slot_ptr_ok s" "payload_of (s\<lparr>sys_mem := ms\<rparr>) = payload_of s"
  "slot_of (s\<lparr>sys_mprotects := n\<rparr>) = slot_of s" "hdr (s\<lparr>sys_mprotects := n\<rparr>) = hdr s"
  "slot_ptr_ok (s\<lparr>sys_mprotects := n\<rparr>) = slot_ptr_ok s"
  "payload_of (s\<lparr>sys_mprotects := n\<rparr>) = payload_of s"
  by (auto simp: slot_of_def hdr_def slot_ptr_ok_def payload_of_def fun_eq_iff)

subsection \<open>A small concrete system\<close>

text \<open>One pool of two free slots of 64 bytes, no component registered, a clock that ticks once per
  read and an entropy source that always yields 7. Used to evaluate the operations.\<close>

definition sample_slot :: zipc_slot_control where
  "sample_slot = \<lparr>sc_state = ZIPC_SLOT_FREE, sc_generation = 0,
     sc_owner_id = ZIPC_INVALID_COMPONENT_ID, sc_next_owner_id = ZIPC_INVALID_COMPONENT_ID,
     sc_owner_epoch = 0, sc_hop_count = 0, sc_hop_limit = 0, sc_visited = visited_empty,
     sc_identity = \<lparr>bi_id = 0, bi_parent_id = 0\<rparr>, sc_region = \<lparr>rg_offset = 0, rg_length = 0\<rparr>,
     sc_transfer_sequence = 0, sc_payload_type = 0, sc_flags = 0, sc_error_flags = 0,
     sc_acquired_ns = 0, sc_deadline_ns = 0, sc_trace_count = 0, sc_recovery_count = 0,
     sc_claim_token = 0, sc_claim_previous_sequence = 0,
     sc_claim_previous_region = \<lparr>rg_offset = 0, rg_length = 0\<rparr>,
     sc_claim_previous_owner = ZIPC_INVALID_COMPONENT_ID, sc_reserved_claim = 0,
     sc_claim_previous_owner_epoch = 0, sc_transfer_link_id = 0,
     sc_transfer_source_id = ZIPC_INVALID_COMPONENT_ID, sc_reserved_transfer = 0,
     sc_transfer_source_epoch = 0, sc_transfer_hop_count = 0, sc_transfer_acquired_ns = 0,
     sc_transfer_visited = visited_empty,
     sc_trace = replicate 8 \<lparr>te_timestamp_ns = 0, te_sequence = 0, te_component_id = 0, te_event = None\<rparr>\<rparr>"

definition sample_header :: zipc_pool_header where
  "sample_header = \<lparr>ph_magic = ZIPC_POOL_MAGIC, ph_abi_version = ZIPC_POOL_ABI_VERSION, ph_header_size = 0,
     ph_slot_count = 2, ph_slot_capacity = 64, ph_slot_stride = 64, ph_controls_offset = 0,
     ph_payload_alignment = 64, ph_allocation_cursor = 0, ph_allocation_count = 0, ph_release_count = 0,
     ph_allocation_failure_count = 0, ph_protocol_error_count = 0, ph_recovery_count = 0,
     ph_components = replicate 256 \<lparr>cs_lifecycle = 0, cs_last_heartbeat_ns = 0, cs_recovered_slots = 0\<rparr>\<rparr>"

definition sample_pool :: zipc_pool where
  "sample_pool = \<lparr>pool_addr = 0, pool_control_memory = Some 0, pool_payload_memory = Some 0,
     pool_control_offset = 0, pool_payload_offset = 0, pool_shm_ref = 0, pool_payload_base = 0x1000,
     pool_flags = 0, pool_pool_id = 9\<rparr>"

definition sample_sys :: sys where
  "sample_sys =
     \<lparr>sys_shm = (\<lambda>_. \<lparr>shm_header = sample_header, shm_controls = [sample_slot, sample_slot],
                     shm_payload = replicate 128 0\<rparr>),
      sys_mem = (\<lambda>_. \<lparr>pm_base = 0x1000, pm_size = 128, pm_physical_base = 0x1000,
                     pm_capabilities = 15, pm_access = (\<lambda>_. True)\<rparr>),
      sys_gen = (\<lambda>_. \<lparr>gen_session_state = 0, gen_sequence = 0, gen_active = 0\<rparr>),
      sys_hook = False, sys_trace = [], sys_clock = (\<lambda>n. of_nat n), sys_ticks = 0,
      sys_entropy = (\<lambda>_. (ZIPC_OK, 7)), sys_draws = 0, sys_mprotect = (\<lambda>_. True), sys_mprotects = 0,
      sys_page_size = 4096\<rparr>"

end
