(* ===== verification/Slot_Helpers.thy ===== *)
theory Slot_Helpers
  imports Pool_State
begin

text \<open>
  The static helpers of \<^verbatim>\<open>src/core/zipc.c\<close> on which the pool operations are built: tracing, protocol
  error accounting, component epochs, compare-and-swap on the two arbitration words of a slot
  (\<open>state\<close> and \<open>claim_token\<close>), page protection of a slot payload (with the Linux platform
  functions it calls), buffer views and their validity.
\<close>

subsection \<open>Compare-and-swap\<close>

definition cas_state ::
  "slot_ptr \<Rightarrow> zipc_slot_state \<Rightarrow> zipc_slot_state \<Rightarrow> sys \<Rightarrow> bool \<times> sys" where
  "cas_state c expected desired s =
     (if sc_state (slot_of s c) = expected then (True, upd_slot c (\<lambda>sl. sl\<lparr>sc_state := desired\<rparr>) s)
      else (False, s))"

definition cas_claim_token :: "slot_ptr \<Rightarrow> u64 \<Rightarrow> u64 \<Rightarrow> sys \<Rightarrow> bool \<times> u64 \<times> sys" where
  "cas_claim_token c expected desired s =
     (let observed = sc_claim_token (slot_of s c) in
      if observed = expected then (True, observed, upd_slot c (\<lambda>sl. sl\<lparr>sc_claim_token := desired\<rparr>) s)
      else (False, observed, s))"

definition store_state :: "slot_ptr \<Rightarrow> zipc_slot_state \<Rightarrow> sys \<Rightarrow> sys" where
  "store_state c st = upd_slot c (\<lambda>sl. sl\<lparr>sc_state := st\<rparr>)"

definition clear_claim_token :: "slot_ptr \<Rightarrow> u64 \<Rightarrow> sys \<Rightarrow> sys" where
  "clear_claim_token c token s = snd (snd (cas_claim_token c token 0 s))"

subsection \<open>Tracing\<close>

text \<open>Installing a hook; the hook itself is the caller's, the model keeps the records it gets.\<close>

definition zipc_trace_set_hook :: "bool \<Rightarrow> sys \<Rightarrow> sys" where
  "zipc_trace_set_hook hook s = s\<lparr>sys_hook := hook\<rparr>"

definition emit_trace :: "zipc_trace_record \<Rightarrow> sys \<Rightarrow> sys" where
  "emit_trace record s = (if sys_hook s then s\<lparr>sys_trace := sys_trace s @ [record]\<rparr> else s)"

definition trace_slot ::
  "zipc_pool option \<Rightarrow> zipc_slot_id \<Rightarrow> slot_ptr option \<Rightarrow> zipc_component_id \<Rightarrow> zipc_trace_event \<Rightarrow>
   sys \<Rightarrow> sys" where
  "trace_slot pool slot_id slot component event s =
     (case slot of
        None \<Rightarrow> s
      | Some c \<Rightarrow>
          let sl = slot_of s c;
              index = unat (sc_trace_count sl mod ZIPC_TRACE_DEPTH);
              (now, s) = zipc_now_ns s;
              entry = \<lparr>te_timestamp_ns = now, te_sequence = sc_transfer_sequence sl,
                       te_component_id = component, te_event = Some event\<rparr>;
              s = upd_slot c (\<lambda>x. x\<lparr>sc_trace := (sc_trace x)[index := entry],
                                    sc_trace_count := sc_trace_count x + 1\<rparr>) s
          in emit_trace
               \<lparr>tr_timestamp_ns = now, tr_buffer_id = bi_id (sc_identity sl),
                tr_parent_id = bi_parent_id (sc_identity sl),
                tr_handle = zipc_handle_make slot_id (sc_generation sl),
                tr_pool_id = (case pool of None \<Rightarrow> 0 | Some p \<Rightarrow> pool_pool_id p),
                tr_transfer_sequence = sc_transfer_sequence sl, tr_component_id = component,
                tr_event = event\<rparr> s)"

definition record_protocol_error ::
  "zipc_pool \<Rightarrow> slot_ptr option \<Rightarrow> zipc_component_id \<Rightarrow> sys \<Rightarrow> sys" where
  "record_protocol_error pool owned_slot component s =
     (let s = upd_hdr pool (\<lambda>h. h\<lparr>ph_protocol_error_count := ph_protocol_error_count h + 1\<rparr>) s in
      case owned_slot of
        Some c \<Rightarrow> trace_slot (Some pool) (snd c) (Some c) component ZIPC_TRACE_ERROR s
      | None \<Rightarrow>
          if sys_hook s then
            let (now, s) = zipc_now_ns s
            in emit_trace
                 \<lparr>tr_timestamp_ns = now, tr_buffer_id = 0, tr_parent_id = 0,
                  tr_handle = ZIPC_INVALID_HANDLE, tr_pool_id = pool_pool_id pool,
                  tr_transfer_sequence = 0, tr_component_id = component, tr_event = ZIPC_TRACE_ERROR\<rparr> s
          else s)"

definition trace_external_event ::
  "zipc_pool option \<Rightarrow> zipc_handle \<Rightarrow> u32 \<Rightarrow> zipc_component_id \<Rightarrow> zipc_trace_event \<Rightarrow> sys \<Rightarrow> sys" where
  "trace_external_event pool handle transfer_sequence component event s =
     (if sys_hook s then
        let (now, s) = zipc_now_ns s
        in emit_trace
             \<lparr>tr_timestamp_ns = now, tr_buffer_id = 0, tr_parent_id = 0, tr_handle = handle,
              tr_pool_id = (case pool of None \<Rightarrow> 0 | Some p \<Rightarrow> pool_pool_id p),
              tr_transfer_sequence = transfer_sequence, tr_component_id = component,
              tr_event = event\<rparr> s
      else s)"

subsection \<open>Component epochs\<close>

definition registered_epoch :: "sys \<Rightarrow> zipc_pool option \<Rightarrow> zipc_component_id \<Rightarrow> u32" where
  "registered_epoch s pool component =
     (case pool of
        None \<Rightarrow> 0
      | Some p \<Rightarrow>
          if \<not> zipc_component_id_valid component then 0
          else let lifecycle = cs_lifecycle (component_of s p component)
               in if component_lifecycle_state lifecycle = ZIPC_COMPONENT_INACTIVE then 0
                  else component_lifecycle_epoch lifecycle)"

definition component_epoch_current :: "sys \<Rightarrow> zipc_pool option \<Rightarrow> zipc_component_id \<Rightarrow> u32 \<Rightarrow> bool" where
  "component_epoch_current s pool component epoch =
     (case pool of
        None \<Rightarrow> False
      | Some p \<Rightarrow>
          if \<not> zipc_component_id_valid component \<or> epoch = 0 then False
          else let lifecycle = cs_lifecycle (component_of s p component)
               in component_lifecycle_epoch lifecycle = epoch \<and>
                  component_lifecycle_state lifecycle \<noteq> ZIPC_COMPONENT_INACTIVE)"

definition component_epoch_recovering ::
  "sys \<Rightarrow> zipc_pool option \<Rightarrow> zipc_component_id \<Rightarrow> u32 \<Rightarrow> bool" where
  "component_epoch_recovering s pool component epoch =
     (case pool of
        None \<Rightarrow> False
      | Some p \<Rightarrow>
          if \<not> zipc_component_id_valid component \<or> epoch = 0 then False
          else cs_lifecycle (component_of s p component) =
                 component_lifecycle_make epoch ZIPC_COMPONENT_RECOVERING)"

subsection \<open>Page protection (Linux platform)\<close>

definition zipc_platform_memory_page_size :: "sys \<Rightarrow> nat option \<Rightarrow> u64" where
  "zipc_platform_memory_page_size s memory =
     (case memory of
        None \<Rightarrow> 0
      | Some r \<Rightarrow>
          if pm_capabilities (sys_mem s r) AND ZIPC_MEM_CAP_PAGE_PROTECT = 0 then 0
          else sys_page_size s)"

definition mprotect :: "nat \<Rightarrow> u64 \<Rightarrow> u64 \<Rightarrow> bool \<Rightarrow> sys \<Rightarrow> bool \<times> sys" where
  "mprotect r offset len access s =
     (let ok = sys_mprotect s (sys_mprotects s);
          s = s\<lparr>sys_mprotects := Suc (sys_mprotects s)\<rparr>;
          m = sys_mem s r
      in if ok then
           (True, s\<lparr>sys_mem := (sys_mem s)(r := m\<lparr>pm_access := (\<lambda>a.
              if unat offset \<le> a \<and> a < unat offset + unat len then access else pm_access m a)\<rparr>)\<rparr>)
         else (False, s))"

definition platform_memory_protect ::
  "bool \<Rightarrow> nat option \<Rightarrow> u64 \<Rightarrow> u64 \<Rightarrow> sys \<Rightarrow> zipc_status \<times> sys" where
  "platform_memory_protect access memory offset len s =
     (case memory of
        None \<Rightarrow> (ZIPC_ERR_UNSUPPORTED_MEMORY, s)
      | Some r \<Rightarrow>
          if len = 0 \<or> pm_capabilities (sys_mem s r) AND ZIPC_MEM_CAP_PAGE_PROTECT = 0
          then (ZIPC_ERR_UNSUPPORTED_MEMORY, s)
          else
            let page_size = zipc_platform_memory_page_size s memory in
            if page_size = 0 \<or> offset mod page_size \<noteq> 0 \<or> len mod page_size \<noteq> 0 \<or>
               offset > pm_size (sys_mem s r) \<or> len > pm_size (sys_mem s r) - offset
            then (ZIPC_ERR_INVALID_ARGUMENT, s)
            else case mprotect r offset len access s of
                   (False, s) \<Rightarrow> (ZIPC_ERR_PLATFORM, s)
                 | (True, s) \<Rightarrow> (ZIPC_OK, s))"

definition zipc_platform_memory_protect_none :: "nat option \<Rightarrow> u64 \<Rightarrow> u64 \<Rightarrow> sys \<Rightarrow> zipc_status \<times> sys" where
  "zipc_platform_memory_protect_none = platform_memory_protect False"

definition zipc_platform_memory_protect_rw :: "nat option \<Rightarrow> u64 \<Rightarrow> u64 \<Rightarrow> sys \<Rightarrow> zipc_status \<times> sys" where
  "zipc_platform_memory_protect_rw = platform_memory_protect True"

definition protect_slot :: "zipc_pool option \<Rightarrow> zipc_slot_id \<Rightarrow> bool \<Rightarrow> sys \<Rightarrow> zipc_status \<times> sys" where
  "protect_slot pool slot_id read_write s =
     (case pool of
        None \<Rightarrow> (ZIPC_OK, s)
      | Some p \<Rightarrow>
          if pool_flags p AND ZIPC_POOL_F_STRICT_OWNERSHIP = 0 then (ZIPC_OK, s)
          else if slot_id \<ge> ph_slot_count (hdr s p) then (ZIPC_ERR_INVALID_HANDLE, s)
          else
            let offset = pool_payload_offset p + ucast slot_id * ucast (ph_slot_stride (hdr s p)) in
            if read_write
            then zipc_platform_memory_protect_rw (pool_payload_memory p) offset (ucast (ph_slot_capacity (hdr s p))) s
            else zipc_platform_memory_protect_none (pool_payload_memory p) offset (ucast (ph_slot_capacity (hdr s p))) s)"

subsection \<open>Buffer views\<close>

definition ZIPC_BUFFER_LOCAL_INVALID :: u16 where
  "ZIPC_BUFFER_LOCAL_INVALID = 0"

definition ZIPC_BUFFER_LOCAL_OWNED :: u16 where
  "ZIPC_BUFFER_LOCAL_OWNED = 1"

record zipc_buffer =
  buf_handle :: zipc_handle
  buf_slot_id :: zipc_slot_id
  buf_control :: "slot_ptr option"
  buf_slot_base :: u64
  buf_data :: u64
  buf_length :: u32
  buf_capacity :: u32
  buf_pool :: "zipc_pool option"
  buf_owner :: zipc_component_id
  buf_local_state :: u16
  buf_owner_epoch :: u32
  buf_pool_id :: u32

definition buffer_zero :: zipc_buffer where
  "buffer_zero = \<lparr>buf_handle = 0, buf_slot_id = 0, buf_control = None, buf_slot_base = 0, buf_data = 0,
     buf_length = 0, buf_capacity = 0, buf_pool = None, buf_owner = 0,
     buf_local_state = ZIPC_BUFFER_LOCAL_INVALID, buf_owner_epoch = 0, buf_pool_id = 0\<rparr>"

definition buffer_invalidate :: "zipc_buffer option \<Rightarrow> zipc_buffer option" where
  "buffer_invalidate buffer = map_option (\<lambda>_. buffer_zero) buffer"

definition buffer_valid :: "zipc_buffer option \<Rightarrow> bool" where
  "buffer_valid buffer \<longleftrightarrow>
     (case buffer of
        None \<Rightarrow> False
      | Some b \<Rightarrow> buf_local_state b = ZIPC_BUFFER_LOCAL_OWNED \<and> buf_control b \<noteq> None \<and> buf_pool b \<noteq> None)"

definition buffer_owned :: "sys \<Rightarrow> zipc_buffer option \<Rightarrow> bool" where
  "buffer_owned s buffer \<longleftrightarrow>
     buffer_valid buffer \<and>
     (let b = the buffer; sl = slot_of s (the (buf_control b)) in
      sc_generation sl = zipc_handle_generation (buf_handle b) \<and>
      sc_state sl = ZIPC_SLOT_OWNED \<and>
      sc_owner_id sl = buf_owner b \<and>
      sc_owner_epoch sl = buf_owner_epoch b \<and>
      registered_epoch s (buf_pool b) (buf_owner b) = buf_owner_epoch b)"

definition make_view ::
  "zipc_pool \<Rightarrow> zipc_slot_id \<Rightarrow> zipc_handle \<Rightarrow> zipc_buffer option \<Rightarrow> sys \<Rightarrow> zipc_status \<times> zipc_buffer option" where
  "make_view pool slot_id handle buffer s =
     (let c = slot_ptr pool slot_id; slot = slot_of s c;
          capacity = ph_slot_capacity (hdr s pool);
          base = pool_payload_base pool + ucast slot_id * ucast (ph_slot_stride (hdr s pool))
      in if rg_offset (sc_region slot) > capacity \<or>
            rg_length (sc_region slot) > capacity - rg_offset (sc_region slot)
         then (ZIPC_ERR_REGION_OVERFLOW, buffer)
         else (ZIPC_OK, Some
           \<lparr>buf_handle = handle, buf_slot_id = slot_id, buf_control = Some c, buf_slot_base = base,
            buf_data = base + ucast (rg_offset (sc_region slot)),
            buf_length = rg_length (sc_region slot), buf_capacity = capacity, buf_pool = Some pool,
            buf_owner = sc_owner_id slot, buf_local_state = ZIPC_BUFFER_LOCAL_OWNED,
            buf_owner_epoch = sc_owner_epoch slot, buf_pool_id = pool_pool_id pool\<rparr>))"

definition free_claiming_slot :: "slot_ptr \<Rightarrow> sys \<Rightarrow> sys" where
  "free_claiming_slot c s =
     (let token = sc_claim_token (slot_of s c);
          s = upd_slot c (\<lambda>sl. sl\<lparr>sc_owner_id := ZIPC_INVALID_COMPONENT_ID,
                                  sc_next_owner_id := ZIPC_INVALID_COMPONENT_ID,
                                  sc_region := \<lparr>rg_offset = 0, rg_length = 0\<rparr>\<rparr>) s;
          s = store_state c ZIPC_SLOT_FREE s
      in clear_claim_token c token s)"

subsection \<open>What the helpers do to a slot\<close>

definition add_trace ::
  "u64 \<Rightarrow> zipc_component_id \<Rightarrow> zipc_trace_event \<Rightarrow> zipc_slot_control \<Rightarrow> zipc_slot_control" where
  "add_trace now component event sl =
     sl\<lparr>sc_trace := (sc_trace sl)[unat (sc_trace_count sl mod ZIPC_TRACE_DEPTH) :=
                       \<lparr>te_timestamp_ns = now, te_sequence = sc_transfer_sequence sl,
                        te_component_id = component, te_event = Some event\<rparr>],
        sc_trace_count := sc_trace_count sl + 1\<rparr>"

lemma add_trace_simps [simp]:
  "sc_state (add_trace n c e sl) = sc_state sl"
  "sc_generation (add_trace n c e sl) = sc_generation sl"
  "sc_owner_id (add_trace n c e sl) = sc_owner_id sl"
  "sc_next_owner_id (add_trace n c e sl) = sc_next_owner_id sl"
  "sc_owner_epoch (add_trace n c e sl) = sc_owner_epoch sl"
  "sc_hop_count (add_trace n c e sl) = sc_hop_count sl"
  "sc_hop_limit (add_trace n c e sl) = sc_hop_limit sl"
  "sc_visited (add_trace n c e sl) = sc_visited sl"
  "sc_identity (add_trace n c e sl) = sc_identity sl"
  "sc_region (add_trace n c e sl) = sc_region sl"
  "sc_transfer_sequence (add_trace n c e sl) = sc_transfer_sequence sl"
  "sc_acquired_ns (add_trace n c e sl) = sc_acquired_ns sl"
  "sc_deadline_ns (add_trace n c e sl) = sc_deadline_ns sl"
  "sc_claim_token (add_trace n c e sl) = sc_claim_token sl"
  "sc_trace_count (add_trace n c e sl) = sc_trace_count sl + 1"
  "length (sc_trace (add_trace n c e sl)) = length (sc_trace sl)"
  "sc_recovery_count (add_trace n c e sl) = sc_recovery_count sl"
  "sc_error_flags (add_trace n c e sl) = sc_error_flags sl"
  "sc_claim_previous_sequence (add_trace n c e sl) = sc_claim_previous_sequence sl"
  "sc_claim_previous_region (add_trace n c e sl) = sc_claim_previous_region sl"
  "sc_claim_previous_owner (add_trace n c e sl) = sc_claim_previous_owner sl"
  "sc_claim_previous_owner_epoch (add_trace n c e sl) = sc_claim_previous_owner_epoch sl"
  "sc_transfer_link_id (add_trace n c e sl) = sc_transfer_link_id sl"
  "sc_transfer_source_id (add_trace n c e sl) = sc_transfer_source_id sl"
  "sc_transfer_source_epoch (add_trace n c e sl) = sc_transfer_source_epoch sl"
  "sc_transfer_hop_count (add_trace n c e sl) = sc_transfer_hop_count sl"
  "sc_transfer_acquired_ns (add_trace n c e sl) = sc_transfer_acquired_ns sl"
  "sc_transfer_visited (add_trace n c e sl) = sc_transfer_visited sl"
  by (simp_all add: add_trace_def)

lemma emit_trace_reads [simp]:
  "slot_of (emit_trace r s) = slot_of s" "hdr (emit_trace r s) = hdr s"
  "slot_ptr_ok (emit_trace r s) = slot_ptr_ok s" "payload_of (emit_trace r s) = payload_of s"
  "sys_mem (emit_trace r s) = sys_mem s" "sys_gen (emit_trace r s) = sys_gen s"
  "sys_hook (emit_trace r s) = sys_hook s" "sys_clock (emit_trace r s) = sys_clock s"
  "sys_ticks (emit_trace r s) = sys_ticks s" "sys_entropy (emit_trace r s) = sys_entropy s"
  "sys_draws (emit_trace r s) = sys_draws s" "sys_mprotect (emit_trace r s) = sys_mprotect s"
  "sys_mprotects (emit_trace r s) = sys_mprotects s" "sys_page_size (emit_trace r s) = sys_page_size s"
  by (simp_all add: emit_trace_def)

lemma trace_slot_None [simp]: "trace_slot po i None cm ev s = s"
  by (simp add: trace_slot_def)

lemma trace_slot_slot [simp]:
  "slot_ptr_ok s c \<Longrightarrow>
   slot_of (trace_slot po i (Some c) cm ev s) c =
     add_trace (sys_clock s (sys_ticks s)) cm ev (slot_of s c)"
  by (simp add: trace_slot_def zipc_now_ns_def add_trace_def Let_def)

lemma trace_slot_other [simp]:
  "c \<noteq> c' \<Longrightarrow> slot_of (trace_slot po i (Some c) cm ev s) c' = slot_of s c'"
  by (simp add: trace_slot_def zipc_now_ns_def Let_def)

lemma trace_slot_reads [simp]:
  "hdr (trace_slot po i co cm ev s) = hdr s"
  "slot_ptr_ok (trace_slot po i co cm ev s) = slot_ptr_ok s"
  "payload_of (trace_slot po i co cm ev s) = payload_of s"
  "sys_mem (trace_slot po i co cm ev s) = sys_mem s" "sys_gen (trace_slot po i co cm ev s) = sys_gen s"
  "sys_hook (trace_slot po i co cm ev s) = sys_hook s"
  "sys_clock (trace_slot po i co cm ev s) = sys_clock s"
  "sys_entropy (trace_slot po i co cm ev s) = sys_entropy s"
  "sys_draws (trace_slot po i co cm ev s) = sys_draws s"
  "sys_mprotect (trace_slot po i co cm ev s) = sys_mprotect s"
  "sys_mprotects (trace_slot po i co cm ev s) = sys_mprotects s"
  "sys_page_size (trace_slot po i co cm ev s) = sys_page_size s"
  by (cases co; simp add: trace_slot_def zipc_now_ns_def Let_def fun_eq_iff)+

lemma cas_state_simps:
  "sc_state (slot_of s c) = e \<Longrightarrow> cas_state c e d s = (True, store_state c d s)"
  "sc_state (slot_of s c) \<noteq> e \<Longrightarrow> cas_state c e d s = (False, s)"
  by (simp_all add: cas_state_def store_state_def)

lemma cas_claim_token_simps:
  "sc_claim_token (slot_of s c) = e \<Longrightarrow>
     cas_claim_token c e d s = (True, e, upd_slot c (\<lambda>sl. sl\<lparr>sc_claim_token := d\<rparr>) s)"
  "sc_claim_token (slot_of s c) \<noteq> e \<Longrightarrow>
     cas_claim_token c e d s = (False, sc_claim_token (slot_of s c), s)"
  by (simp_all add: cas_claim_token_def Let_def)

lemma clear_claim_token_simps:
  "sc_claim_token (slot_of s c) = t \<Longrightarrow>
     clear_claim_token c t s = upd_slot c (\<lambda>sl. sl\<lparr>sc_claim_token := 0\<rparr>) s"
  "sc_claim_token (slot_of s c) \<noteq> t \<Longrightarrow> clear_claim_token c t s = s"
  by (simp_all add: clear_claim_token_def cas_claim_token_simps)

text \<open>Footprint of an operation: the slots it may write, everything else in shared memory being
  kept but for the counters of the header and the component table.\<close>

definition hdr_static :: "zipc_pool_header \<Rightarrow> u32 \<times> u32 \<times> u32 \<times> nat" where
  "hdr_static h = (ph_slot_count h, ph_slot_capacity h, ph_slot_stride h, length (ph_components h))"

definition lifecycles :: "zipc_pool_header \<Rightarrow> u64 list" where
  "lifecycles h = map cs_lifecycle (ph_components h)"

definition frame :: "slot_ptr set \<Rightarrow> sys \<Rightarrow> sys \<Rightarrow> bool" where
  "frame C s t \<longleftrightarrow>
     (\<forall>c. c \<notin> C \<longrightarrow> slot_of t c = slot_of s c) \<and> slot_ptr_ok t = slot_ptr_ok s \<and>
     (\<forall>p. hdr_static (hdr t p) = hdr_static (hdr s p)) \<and>
     (\<forall>p. lifecycles (hdr t p) = lifecycles (hdr s p)) \<and> payload_of t = payload_of s"

lemma frame_refl [simp, intro]: "frame C s s"
  by (simp add: frame_def)

lemma frame_trans: "frame C s t \<Longrightarrow> frame C t u \<Longrightarrow> frame C s u"
  by (simp add: frame_def)

lemma frame_mono: "frame C s t \<Longrightarrow> C \<subseteq> D \<Longrightarrow> frame D s t"
  by (auto simp: frame_def)

end
