(* ===== verification/Buffer_Identity.thy ===== *)
theory Buffer_Identity
  imports Slot_Helpers
begin

text \<open>
  The buffer-identity generator of \<^verbatim>\<open>src/core/zipc.c\<close>: \<open>random_session\<close> and
  \<open>generate_buffer_id\<close>, run by one thread at a time. A loop iteration either continues,
  returns, or waits on the \<open>active\<close> counter; a wait that no other thread can end is a loop that
  does not return, and \<open>generate_buffer_id\<close> is then \<open>None\<close>. Threads that run the generator
  of one component at the same time are not modelled.
\<close>

definition ZIPC_SESSION_MASK :: u32 where
  "ZIPC_SESSION_MASK = 0x00FFFFFF"

definition ZIPC_SESSION_ROTATING :: u32 where
  "ZIPC_SESSION_ROTATING = 0x80000000"

definition zipc_platform_random :: "sys \<Rightarrow> zipc_status \<times> u32 \<times> sys" where
  "zipc_platform_random s =
     (let (status, value) = sys_entropy s (sys_draws s)
      in (status, value, s\<lparr>sys_draws := Suc (sys_draws s)\<rparr>))"

fun random_session_attempts :: "nat \<Rightarrow> u32 \<Rightarrow> sys \<Rightarrow> zipc_status \<times> u32 option \<times> sys" where
  "random_session_attempts 0 old_session s = (ZIPC_ERR_ENTROPY_UNAVAILABLE, None, s)"
| "random_session_attempts (Suc n) old_session s =
     (let (status, session, s) = zipc_platform_random s in
      if status \<noteq> ZIPC_OK then (ZIPC_ERR_ENTROPY_UNAVAILABLE, None, s)
      else
        let session = session AND ZIPC_SESSION_MASK in
        if session \<noteq> 0 \<and> session \<noteq> old_session then (ZIPC_OK, Some session, s)
        else random_session_attempts n old_session s)"

definition random_session :: "u32 \<Rightarrow> bool \<Rightarrow> sys \<Rightarrow> zipc_status \<times> u32 option \<times> sys" where
  "random_session old_session session_out s =
     (if \<not> session_out then (ZIPC_ERR_INVALID_ARGUMENT, None, s)
      else random_session_attempts 16 old_session s)"

definition upd_gen ::
  "zipc_component_id \<Rightarrow> (zipc_buffer_id_generator \<Rightarrow> zipc_buffer_id_generator) \<Rightarrow> sys \<Rightarrow> sys" where
  "upd_gen component f s = s\<lparr>sys_gen := (sys_gen s)(component := f (sys_gen s component))\<rparr>"

definition cas_session :: "zipc_component_id \<Rightarrow> u32 \<Rightarrow> u32 \<Rightarrow> sys \<Rightarrow> bool \<times> sys" where
  "cas_session component expected desired s =
     (if gen_session_state (sys_gen s component) = expected
      then (True, upd_gen component (\<lambda>g. g\<lparr>gen_session_state := desired\<rparr>) s) else (False, s))"

definition cas_active :: "zipc_component_id \<Rightarrow> u32 \<Rightarrow> u32 \<Rightarrow> sys \<Rightarrow> bool \<times> sys" where
  "cas_active component expected desired s =
     (if gen_active (sys_gen s component) = expected
      then (True, upd_gen component (\<lambda>g. g\<lparr>gen_active := desired\<rparr>) s) else (False, s))"

definition cas_sequence :: "zipc_component_id \<Rightarrow> u32 \<Rightarrow> u32 \<Rightarrow> sys \<Rightarrow> bool \<times> sys" where
  "cas_sequence component expected desired s =
     (if gen_sequence (sys_gen s component) = expected
      then (True, upd_gen component (\<lambda>g. g\<lparr>gen_sequence := desired\<rparr>) s) else (False, s))"

definition leave_active :: "zipc_component_id \<Rightarrow> sys \<Rightarrow> sys" where
  "leave_active component = upd_gen component (\<lambda>g. g\<lparr>gen_active := gen_active g - 1\<rparr>)"

datatype gen_outcome =
    Gen_Continue sys
  | Gen_Return zipc_status "zipc_buffer_id option" sys
  | Gen_Wait

text \<open>The tail shared by the two rotations: wait for the active issuers to drain, draw a session,
  publish it with sequence zero; on entropy failure restore \<open>previous\<close>.\<close>

definition rotate_session :: "zipc_component_id \<Rightarrow> u32 \<Rightarrow> u32 \<Rightarrow> sys \<Rightarrow> gen_outcome" where
  "rotate_session component old_session previous s =
     (if gen_active (sys_gen s component) \<noteq> 0 then Gen_Wait
      else case random_session old_session True s of
             (ZIPC_OK, Some session, s) \<Rightarrow>
               Gen_Continue (upd_gen component
                 (\<lambda>g. g\<lparr>gen_sequence := 0, gen_session_state := session\<rparr>) s)
           | (status, _, s) \<Rightarrow>
               Gen_Return status None (upd_gen component (\<lambda>g. g\<lparr>gen_session_state := previous\<rparr>) s))"

definition generate_buffer_id_iteration :: "zipc_component_id \<Rightarrow> sys \<Rightarrow> gen_outcome" where
  "generate_buffer_id_iteration component s =
     (let state = gen_session_state (sys_gen s component) in
      if state AND ZIPC_SESSION_ROTATING \<noteq> 0 then Gen_Continue s
      else
        let session = state AND ZIPC_SESSION_MASK in
        if session = 0 then
          (case cas_session component state ZIPC_SESSION_ROTATING s of
             (False, s) \<Rightarrow> Gen_Continue s
           | (True, s) \<Rightarrow> rotate_session component 0 0 s)
        else
          let active = gen_active (sys_gen s component) in
          if active = UINT32_MAX then Gen_Continue s
          else case cas_active component active (active + 1) s of
              (False, s) \<Rightarrow> Gen_Continue s
            | (True, s) \<Rightarrow>
                if gen_session_state (sys_gen s component) \<noteq> state
                then Gen_Continue (leave_active component s)
                else
                  let sequence = gen_sequence (sys_gen s component) in
                  if sequence = UINT32_MAX then
                    (let s = leave_active component s in
                     case cas_session component state (state OR ZIPC_SESSION_ROTATING) s of
                       (False, s) \<Rightarrow> Gen_Continue s
                     | (True, s) \<Rightarrow> rotate_session component session state s)
                  else
                    case cas_sequence component sequence (sequence + 1) s of
                      (False, s) \<Rightarrow> Gen_Continue (leave_active component s)
                    | (True, s) \<Rightarrow>
                        Gen_Return ZIPC_OK (Some (zipc_buffer_id_make component session sequence))
                          (leave_active component s))"

partial_function (option) generate_buffer_id_loop ::
  "zipc_component_id \<Rightarrow> sys \<Rightarrow> (zipc_status \<times> zipc_buffer_id option \<times> sys) option" where
  "generate_buffer_id_loop component s =
     (case generate_buffer_id_iteration component s of
        Gen_Continue s' \<Rightarrow> generate_buffer_id_loop component s'
      | Gen_Return status id_out s' \<Rightarrow> Some (status, id_out, s')
      | Gen_Wait \<Rightarrow> None)"

definition generate_buffer_id ::
  "zipc_component_id \<Rightarrow> bool \<Rightarrow> sys \<Rightarrow> (zipc_status \<times> zipc_buffer_id option \<times> sys) option" where
  "generate_buffer_id component id_out s =
     (if \<not> zipc_component_id_valid component \<or> \<not> id_out
      then Some (ZIPC_ERR_INVALID_ARGUMENT, None, s)
      else generate_buffer_id_loop component s)"

subsection \<open>Sequential behaviour\<close>

lemma upd_gen_reads [simp]:
  "slot_of (upd_gen c f s) = slot_of s" "hdr (upd_gen c f s) = hdr s"
  "slot_ptr_ok (upd_gen c f s) = slot_ptr_ok s" "payload_of (upd_gen c f s) = payload_of s"
  "sys_shm (upd_gen c f s) = sys_shm s"
  "sys_gen (upd_gen c f s) c = f (sys_gen s c)" "c \<noteq> d \<Longrightarrow> sys_gen (upd_gen c f s) d = sys_gen s d"
  by (simp_all add: upd_gen_def)

lemma upd_gen_upd_gen [simp]: "upd_gen c f (upd_gen c g s) = upd_gen c (\<lambda>x. f (g x)) s"
  by (simp add: upd_gen_def)

lemma random_session_attempts_result:
  "\<exists>st so k. random_session_attempts n old s = (st, so, s\<lparr>sys_draws := k\<rparr>) \<and>
     (st = ZIPC_OK \<and> (\<exists>se. so = Some se \<and> se \<noteq> 0 \<and> se \<noteq> old \<and> se AND ZIPC_SESSION_MASK = se) \<or>
      st = ZIPC_ERR_ENTROPY_UNAVAILABLE \<and> so = None)"
proof (induction n arbitrary: s)
  case 0
  have "s = s\<lparr>sys_draws := sys_draws s\<rparr>" by simp
  then show ?case
    by (metis random_session_attempts.simps(1))
next
  case (Suc n)
  obtain st v where ent: "sys_entropy s (sys_draws s) = (st, v)"
    by (cases "sys_entropy s (sys_draws s)")
  have idem: "(v AND ZIPC_SESSION_MASK) AND ZIPC_SESSION_MASK = v AND ZIPC_SESSION_MASK"
    by (simp add: and.assoc)
  from Suc.IH [of "s\<lparr>sys_draws := Suc (sys_draws s)\<rparr>"] show ?case
    by (auto simp: zipc_platform_random_def ent idem Let_def)
qed

lemma random_session_result:
  obtains (ok) se k where "random_session old True s = (ZIPC_OK, Some se, s\<lparr>sys_draws := k\<rparr>)"
      "se \<noteq> 0" "se \<noteq> old" "se AND ZIPC_SESSION_MASK = se"
    | (err) k where "random_session old True s = (ZIPC_ERR_ENTROPY_UNAVAILABLE, None, s\<lparr>sys_draws := k\<rparr>)"
  using random_session_attempts_result [of 16 old s] unfolding random_session_def by auto

definition gen_ready :: "zipc_buffer_id_generator \<Rightarrow> bool" where
  "gen_ready g \<longleftrightarrow> gen_session_state g AND ZIPC_SESSION_ROTATING = 0 \<and> gen_active g = 0"

lemma session_not_rotating: "se AND ZIPC_SESSION_MASK = se \<Longrightarrow> se AND ZIPC_SESSION_ROTATING = 0"
proof -
  assume "se AND ZIPC_SESSION_MASK = se"
  moreover have "ZIPC_SESSION_MASK AND ZIPC_SESSION_ROTATING = 0"
    by (simp add: ZIPC_SESSION_MASK_def ZIPC_SESSION_ROTATING_def)
  ultimately show ?thesis
    by (metis and.assoc and_zero_eq)
qed

text \<open>One iteration on a generator at rest: issue the next sequence of the current session, or
  (no session yet, or sequences exhausted) install a new session, or fail on entropy.\<close>

definition issue_ready :: "zipc_buffer_id_generator \<Rightarrow> bool" where
  "issue_ready g \<longleftrightarrow> gen_ready g \<and> gen_session_state g AND ZIPC_SESSION_MASK \<noteq> 0 \<and>
     gen_sequence g \<noteq> UINT32_MAX"

lemma iteration_issues:
  assumes "issue_ready (sys_gen s c)"
  shows "generate_buffer_id_iteration c s =
    Gen_Return ZIPC_OK
      (Some (zipc_buffer_id_make c (gen_session_state (sys_gen s c) AND ZIPC_SESSION_MASK)
         (gen_sequence (sys_gen s c))))
      (upd_gen c (\<lambda>g. g\<lparr>gen_sequence := gen_sequence g + 1\<rparr>) s)"
  using assms
  by (cases "sys_gen s c")
    (simp add: generate_buffer_id_iteration_def issue_ready_def gen_ready_def cas_active_def
      cas_sequence_def leave_active_def upd_gen_def UINT32_MAX_def Let_def)

lemma rotate_session_result:
  assumes "gen_active (sys_gen s c) = 0"
  obtains (ok) se k where
      "rotate_session c old previous s = Gen_Continue
         (upd_gen c (\<lambda>g. g\<lparr>gen_sequence := 0, gen_session_state := se\<rparr>) (s\<lparr>sys_draws := k\<rparr>))"
      "se \<noteq> 0" "se \<noteq> old" "se AND ZIPC_SESSION_MASK = se"
    | (err) k where
      "rotate_session c old previous s = Gen_Return ZIPC_ERR_ENTROPY_UNAVAILABLE None
         (upd_gen c (\<lambda>g. g\<lparr>gen_session_state := previous\<rparr>) (s\<lparr>sys_draws := k\<rparr>))"
  using assms by (cases rule: random_session_result [of old s]) (simp_all add: rotate_session_def)

lemma iteration_rotates:
  assumes "gen_ready (sys_gen s c)" "\<not> issue_ready (sys_gen s c)"
  obtains (ok) se k where
      "generate_buffer_id_iteration c s = Gen_Continue
         (upd_gen c (\<lambda>g. g\<lparr>gen_sequence := 0, gen_session_state := se\<rparr>) (s\<lparr>sys_draws := k\<rparr>))"
      "se \<noteq> 0" "se \<noteq> gen_session_state (sys_gen s c) AND ZIPC_SESSION_MASK"
      "se AND ZIPC_SESSION_MASK = se"
    | (err) k st where
      "generate_buffer_id_iteration c s = Gen_Return ZIPC_ERR_ENTROPY_UNAVAILABLE None
         (upd_gen c (\<lambda>g. g\<lparr>gen_session_state := st\<rparr>) (s\<lparr>sys_draws := k\<rparr>))"
      "st AND ZIPC_SESSION_ROTATING = 0"
proof -
  let ?g = "sys_gen s c"
  let ?st = "gen_session_state ?g"
  have ready: "?st AND ZIPC_SESSION_ROTATING = 0" "gen_active ?g = 0"
    using assms(1) by (simp_all add: gen_ready_def)
  show thesis
  proof (cases "?st AND ZIPC_SESSION_MASK = 0")
    case True
    let ?s = "upd_gen c (\<lambda>g. g\<lparr>gen_session_state := ZIPC_SESSION_ROTATING\<rparr>) s"
    have it: "generate_buffer_id_iteration c s = rotate_session c 0 0 ?s"
      using True ready by (simp add: generate_buffer_id_iteration_def cas_session_def Let_def)
    have act: "gen_active (sys_gen ?s c) = 0"
      using ready by simp
    show thesis
    proof (cases rule: rotate_session_result [OF act, of 0 0])
      case (1 se k)
      then show thesis
        using ok [of se k] it True by (simp add: upd_gen_def)
    next
      case (2 k)
      then show thesis
        using err [of 0 k] it by (simp add: upd_gen_def)
    qed
  next
    case False
    let ?s = "upd_gen c (\<lambda>g. g\<lparr>gen_session_state := ?st OR ZIPC_SESSION_ROTATING\<rparr>) s"
    have "gen_sequence ?g = UINT32_MAX"
      using False assms by (simp add: issue_ready_def)
    then have it: "generate_buffer_id_iteration c s =
        rotate_session c (?st AND ZIPC_SESSION_MASK) ?st ?s"
      using False ready
      by (cases "sys_gen s c")
        (simp add: generate_buffer_id_iteration_def cas_session_def cas_active_def leave_active_def
          upd_gen_def UINT32_MAX_def Let_def)
    have act: "gen_active (sys_gen ?s c) = 0"
      using ready by simp
    show thesis
    proof (cases rule: rotate_session_result [OF act, of "?st AND ZIPC_SESSION_MASK" ?st])
      case (1 se k)
      then show thesis
        using ok [of se k] it by (simp add: upd_gen_def)
    next
      case (2 k)
      then show thesis
        using err [of ?st k] it ready by (simp add: upd_gen_def)
    qed
  qed
qed

definition issued_id :: "zipc_component_id \<Rightarrow> zipc_buffer_id \<Rightarrow> bool" where
  "issued_id c bid \<longleftrightarrow> zipc_buffer_id_valid bid \<and> zipc_buffer_id_component bid = c"

lemma issued_id_make:
  assumes "zipc_component_id_valid c" "se AND ZIPC_SESSION_MASK \<noteq> 0" "sq \<noteq> UINT32_MAX"
  shows "issued_id c (zipc_buffer_id_make c (se AND ZIPC_SESSION_MASK) sq)"
proof -
  have "(se AND ZIPC_SESSION_MASK) AND 0x00FFFFFF \<noteq> 0"
    using assms(2) by (simp add: ZIPC_SESSION_MASK_def and.assoc)
  then show ?thesis
    using assms component_low_byte [OF assms(1)]
    by (simp add: issued_id_def zipc_buffer_id_valid_make zipc_pack)
qed

text \<open>On a generator at rest the loop returns after at most two iterations; it touches nothing but
  the generator entry and the entropy stream, and leaves the generator at rest.\<close>

lemma generate_buffer_id_returns:
  assumes "zipc_component_id_valid c" and "gen_ready (sys_gen s c)"
  obtains (ok) bid g k where
      "generate_buffer_id c True s =
         Some (ZIPC_OK, Some bid, s\<lparr>sys_draws := k, sys_gen := (sys_gen s)(c := g)\<rparr>)"
      "issued_id c bid" "gen_ready g"
    | (err) g k where
      "generate_buffer_id c True s =
         Some (ZIPC_ERR_ENTROPY_UNAVAILABLE, None, s\<lparr>sys_draws := k, sys_gen := (sys_gen s)(c := g)\<rparr>)"
      "gen_ready g"
proof (cases "issue_ready (sys_gen s c)")
  case True
  have "generate_buffer_id c True s = Some (ZIPC_OK,
      Some (zipc_buffer_id_make c (gen_session_state (sys_gen s c) AND ZIPC_SESSION_MASK)
         (gen_sequence (sys_gen s c))),
      upd_gen c (\<lambda>g. g\<lparr>gen_sequence := gen_sequence g + 1\<rparr>) s)"
    using assms(1)
    by (simp add: generate_buffer_id_def generate_buffer_id_loop.simps iteration_issues [OF True])
  moreover have "issued_id c (zipc_buffer_id_make c (gen_session_state (sys_gen s c) AND ZIPC_SESSION_MASK)
         (gen_sequence (sys_gen s c)))"
    using True assms(1) by (intro issued_id_make) (simp_all add: issue_ready_def)
  ultimately show thesis
    using assms(2)
    by (intro ok [where g = "(sys_gen s c)\<lparr>gen_sequence := gen_sequence (sys_gen s c) + 1\<rparr>"
        and k = "sys_draws s"]) (simp_all add: upd_gen_def gen_ready_def)
next
  case False
  show thesis
  proof (cases rule: iteration_rotates [OF assms(2) False])
    case (1 se k)
    let ?s = "upd_gen c (\<lambda>g. g\<lparr>gen_sequence := 0, gen_session_state := se\<rparr>) (s\<lparr>sys_draws := k\<rparr>)"
    have ready: "issue_ready (sys_gen ?s c)"
      using 1 assms(2) session_not_rotating [of se]
      by (simp add: issue_ready_def gen_ready_def UINT32_MAX_def)
    have "generate_buffer_id c True s = Some (ZIPC_OK, Some (zipc_buffer_id_make c (se AND ZIPC_SESSION_MASK) 0),
        upd_gen c (\<lambda>g. g\<lparr>gen_sequence := gen_sequence g + 1\<rparr>) ?s)"
      using assms(1) 1(1) iteration_issues [OF ready]
      by (simp add: generate_buffer_id_def generate_buffer_id_loop.simps)
    moreover have "issued_id c (zipc_buffer_id_make c (se AND ZIPC_SESSION_MASK) 0)"
      using 1 assms(1) by (intro issued_id_make) (simp_all add: UINT32_MAX_def)
    ultimately show thesis
      using assms(2) 1 session_not_rotating [of se]
      by (intro ok [where k = k and g = "(sys_gen s c)\<lparr>gen_session_state := se, gen_sequence := 1\<rparr>"])
        (simp_all add: upd_gen_def gen_ready_def)
  next
    case (2 k st)
    then show thesis
      using assms by (intro err [where k = k and g = "(sys_gen s c)\<lparr>gen_session_state := st\<rparr>"])
        (simp_all add: generate_buffer_id_def generate_buffer_id_loop.simps upd_gen_def gen_ready_def)
  qed
qed

text \<open>An identity can be issued at once: the session has sequences left, or the next draw of
  entropy yields a new session.\<close>

definition identity_ready :: "sys \<Rightarrow> zipc_component_id \<Rightarrow> bool" where
  "identity_ready s c \<longleftrightarrow> issue_ready (sys_gen s c) \<or>
     (case sys_entropy s (sys_draws s) of (st, v) \<Rightarrow> st = ZIPC_OK \<and> v AND ZIPC_SESSION_MASK \<noteq> 0 \<and>
        v AND ZIPC_SESSION_MASK \<noteq> gen_session_state (sys_gen s c) AND ZIPC_SESSION_MASK)"

lemma random_session_first:
  assumes "sys_entropy s (sys_draws s) = (ZIPC_OK, v)" "v AND ZIPC_SESSION_MASK \<noteq> 0" "v AND ZIPC_SESSION_MASK \<noteq> old"
  shows "random_session old True s = (ZIPC_OK, Some (v AND ZIPC_SESSION_MASK), s\<lparr>sys_draws := Suc (sys_draws s)\<rparr>)"
proof -
  have "random_session_attempts (Suc n) old s = (ZIPC_OK, Some (v AND ZIPC_SESSION_MASK), s\<lparr>sys_draws := Suc (sys_draws s)\<rparr>)" for n
    using assms by (simp add: zipc_platform_random_def Let_def)
  moreover have "16 = Suc 15" by simp
  ultimately show ?thesis unfolding random_session_def by metis
qed

lemma identity_ready_iteration:
  assumes "identity_ready s c" "gen_ready (sys_gen s c)"
  shows "generate_buffer_id_iteration c s \<noteq> Gen_Return ZIPC_ERR_ENTROPY_UNAVAILABLE bo t"
proof (cases "issue_ready (sys_gen s c)")
  case True
  then show ?thesis by (simp add: iteration_issues)
next
  case False
  then obtain v where v: "sys_entropy s (sys_draws s) = (ZIPC_OK, v)" "v AND ZIPC_SESSION_MASK \<noteq> 0"
    "v AND ZIPC_SESSION_MASK \<noteq> gen_session_state (sys_gen s c) AND ZIPC_SESSION_MASK"
    using assms(1) by (auto simp: identity_ready_def split: prod.splits)
  have first: "random_session old True (upd_gen c f s) = (ZIPC_OK, Some (v AND ZIPC_SESSION_MASK), (upd_gen c f s)\<lparr>sys_draws := Suc (sys_draws s)\<rparr>)"
    if "old = gen_session_state (sys_gen s c) AND ZIPC_SESSION_MASK" for old f
    using random_session_first [of "upd_gen c f s" v old] v that by (simp add: upd_gen_def)
  show ?thesis
    using False assms(2) first
    by (auto simp: generate_buffer_id_iteration_def rotate_session_def gen_ready_def issue_ready_def cas_session_def cas_active_def
        leave_active_def Let_def)
qed

lemma identity_ready_issues:
  assumes "zipc_component_id_valid c" "gen_ready (sys_gen s c)" "identity_ready s c"
  shows "map_option fst (generate_buffer_id c True s) = Some ZIPC_OK"
proof (cases rule: generate_buffer_id_returns [OF assms(1,2), case_names ok err])
  case (err g k)
  show ?thesis
  proof (cases "issue_ready (sys_gen s c)")
    case True
    then show ?thesis using assms(1) by (simp add: generate_buffer_id_def generate_buffer_id_loop.simps iteration_issues)
  next
    case False
    show ?thesis
    proof (cases rule: iteration_rotates [OF assms(2) False, case_names rot bad])
      case (rot se k)
      let ?s = "upd_gen c (\<lambda>g. g\<lparr>gen_sequence := 0, gen_session_state := se\<rparr>) (s\<lparr>sys_draws := k\<rparr>)"
      have "issue_ready (sys_gen ?s c)"
        using rot assms(2) session_not_rotating [of se] by (simp add: issue_ready_def gen_ready_def UINT32_MAX_def)
      then show ?thesis
        using assms(1) rot(1) iteration_issues [of ?s c] by (simp add: generate_buffer_id_def generate_buffer_id_loop.simps)
    next
      case (bad k st)
      then show ?thesis using identity_ready_iteration [OF assms(3,2)] by blast
    qed
  qed
qed simp

text \<open>The shape of a generated identity, and the generator state it leaves behind.\<close>

definition issues ::
  "zipc_component_id \<Rightarrow> zipc_buffer_id_generator \<Rightarrow> zipc_buffer_id \<Rightarrow> zipc_buffer_id_generator \<Rightarrow> bool" where
  "issues c g bid g' \<longleftrightarrow>
     (let se = gen_session_state g' AND ZIPC_SESSION_MASK; sq = gen_sequence g' - 1 in
      bid = zipc_buffer_id_make c se sq \<and> sq \<noteq> UINT32_MAX \<and>
      (if se = gen_session_state g AND ZIPC_SESSION_MASK then sq = gen_sequence g else sq = 0))"

lemma generate_buffer_id_issues:
  assumes c: "zipc_component_id_valid c" and rdy: "gen_ready (sys_gen s c)"
    and gen: "generate_buffer_id c True s = Some (ZIPC_OK, Some bid, t)"
  shows "issues c (sys_gen s c) bid (sys_gen t c)" "gen_ready (sys_gen t c)"
proof -
  show "gen_ready (sys_gen t c)"
    by (rule generate_buffer_id_returns [OF c rdy]) (use gen in auto)
  show "issues c (sys_gen s c) bid (sys_gen t c)"
  proof (cases "issue_ready (sys_gen s c)")
    case True
    then show ?thesis
      using gen c iteration_issues [OF True]
      by (auto simp: generate_buffer_id_def generate_buffer_id_loop.simps issues_def issue_ready_def Let_def)
  next
    case False
    show ?thesis
    proof (cases rule: iteration_rotates [OF rdy False])
      case (1 se k)
      let ?s = "upd_gen c (\<lambda>g. g\<lparr>gen_sequence := 0, gen_session_state := se\<rparr>) (s\<lparr>sys_draws := k\<rparr>)"
      have ready: "issue_ready (sys_gen ?s c)"
        using 1 rdy session_not_rotating [of se]
        by (simp add: issue_ready_def gen_ready_def UINT32_MAX_def)
      then show ?thesis
        using gen c 1 iteration_issues [OF ready]
        by (auto simp: generate_buffer_id_def generate_buffer_id_loop.simps issues_def UINT32_MAX_def Let_def)
    next
      case (2 k st)
      then show ?thesis
        using gen c by (simp add: generate_buffer_id_def generate_buffer_id_loop.simps)
    qed
  qed
qed

lemma issues_differ:
  assumes "issues c g b1 g1" "issues c g1 b2 g2"
  shows "b1 \<noteq> b2"
proof
  assume eq: "b1 = b2"
  let ?se = "\<lambda>g. gen_session_state g AND ZIPC_SESSION_MASK"
  have b: "b1 = zipc_buffer_id_make c (?se g1) (gen_sequence g1 - 1)"
    "b2 = zipc_buffer_id_make c (?se g2) (gen_sequence g2 - 1)"
    using assms by (simp_all add: issues_def Let_def)
  have "zipc_buffer_id_session b1 = ?se g1" "zipc_buffer_id_session b2 = ?se g2"
    unfolding b by (simp_all add: zipc_pack ZIPC_SESSION_MASK_def and.assoc)
  moreover have "zipc_buffer_id_sequence b1 = gen_sequence g1 - 1" "zipc_buffer_id_sequence b2 = gen_sequence g2 - 1"
    unfolding b by (simp_all add: zipc_pack)
  ultimately have "?se g2 = ?se g1" "gen_sequence g2 - 1 = gen_sequence g1 - 1"
    using eq by simp_all
  moreover from this have "gen_sequence g2 - 1 = gen_sequence g1"
    using assms(2) by (simp add: issues_def Let_def)
  ultimately show False by simp
qed

subsection \<open>Properties of the generator\<close>

text \<open>C34: Identity generation terminates and is valid. Called for a valid component whose generator
  is at rest, \<open>generate_buffer_id\<close> returns: either a valid identity that names the component as its
  allocator, or the entropy error and no identity. It leaves the generator at rest and touches
  nothing else but the entropy stream.\<close>

theorem generate_buffer_id_total:
  assumes "zipc_component_id_valid c" and "gen_ready (sys_gen s c)"
  shows "\<exists>status bid g k.
    generate_buffer_id c True s =
      Some (status, bid, s\<lparr>sys_draws := k, sys_gen := (sys_gen s)(c := g)\<rparr>) \<and> gen_ready g \<and>
    (case bid of
       None \<Rightarrow> status = ZIPC_ERR_ENTROPY_UNAVAILABLE
     | Some b \<Rightarrow> status = ZIPC_OK \<and> zipc_buffer_id_valid b \<and> zipc_buffer_id_component b = c)"
  by (rule generate_buffer_id_returns [OF assms]) (auto simp: issued_id_def)

theorem generate_buffer_id_total_witness:
  "\<exists>status bid g k.
    generate_buffer_id 5 True sample_sys =
      Some (status, bid, sample_sys\<lparr>sys_draws := k, sys_gen := (sys_gen sample_sys)(5 := g)\<rparr>) \<and> gen_ready g \<and>
    (case bid of
       None \<Rightarrow> status = ZIPC_ERR_ENTROPY_UNAVAILABLE
     | Some b \<Rightarrow> status = ZIPC_OK \<and> zipc_buffer_id_valid b \<and> zipc_buffer_id_component b = 5)"
  by (rule generate_buffer_id_total)
    (simp_all add: zipc_component_id_valid_iff gen_ready_def sample_sys_def)

text \<open>C35: Consecutive identities differ. Two identities generated one after the other for the same
  component are never equal, also when the sequence number is exhausted between them and a new
  session is drawn.\<close>

theorem consecutive_buffer_ids_differ:
  assumes c: "zipc_component_id_valid c" "gen_ready (sys_gen s c)"
    and "generate_buffer_id c True s = Some (ZIPC_OK, Some b1, s1)"
    and "generate_buffer_id c True s1 = Some (ZIPC_OK, Some b2, s2)"
  shows "b1 \<noteq> b2"
  using generate_buffer_id_issues [OF c assms(3)] generate_buffer_id_issues [OF c(1) _ assms(4)] issues_differ
  by blast

theorem consecutive_buffer_ids_differ_witness:
  "\<exists>s b1 b2 s1 s2. generate_buffer_id 5 True s = Some (ZIPC_OK, Some b1, s1) \<and>
     generate_buffer_id 5 True s1 = Some (ZIPC_OK, Some b2, s2) \<and> b1 \<noteq> b2"
proof -
  let ?s = "upd_gen 5 (\<lambda>g. g\<lparr>gen_session_state := 7\<rparr>) sample_sys"
  have valid: "zipc_component_id_valid 5" "issue_ready (sys_gen ?s 5)" "gen_ready (sys_gen ?s 5)"
    by (simp_all add: zipc_component_id_valid_iff issue_ready_def gen_ready_def sample_sys_def
        ZIPC_SESSION_MASK_def ZIPC_SESSION_ROTATING_def UINT32_MAX_def)
  obtain b1 s1 where r1: "generate_buffer_id 5 True ?s = Some (ZIPC_OK, Some b1, s1)"
    "s1 = upd_gen 5 (\<lambda>g. g\<lparr>gen_sequence := gen_sequence g + 1\<rparr>) ?s"
    using valid(1) by (simp add: generate_buffer_id_def generate_buffer_id_loop.simps
        iteration_issues [OF valid(2)])
  have ready1: "issue_ready (sys_gen s1 5)"
    unfolding r1(2) by (simp add: issue_ready_def gen_ready_def sample_sys_def
        ZIPC_SESSION_MASK_def ZIPC_SESSION_ROTATING_def UINT32_MAX_def)
  obtain b2 s2 where r2: "generate_buffer_id 5 True s1 = Some (ZIPC_OK, Some b2, s2)"
    using valid(1) by (simp add: generate_buffer_id_def generate_buffer_id_loop.simps
        iteration_issues [OF ready1])
  show ?thesis
    using consecutive_buffer_ids_differ [OF valid(1,3) r1(1) r2] r1(1) r2 by blast
qed

end
