(* ===== verification/Slot_Ops.thy ===== *)
theory Slot_Ops
  imports Buffer_Identity
begin

text \<open>
  The slot ownership protocol of \<^verbatim>\<open>src/core/zipc.c\<close>: allocation, views from handles, regions,
  transfer preparation, claim and release, each with every check and error path of the source in
  its order. A pointer argument the code compares with \<open>NULL\<close> is an option. Operations that call
  the identity generator return \<open>None\<close> when its wait loop does not end.
\<close>

subsection \<open>Allocation\<close>

definition empty_region :: zipc_buffer_region where
  "empty_region = \<lparr>rg_offset = 0, rg_length = 0\<rparr>"

definition empty_trace_entry :: zipc_trace_entry where
  "empty_trace_entry = \<lparr>te_timestamp_ns = 0, te_sequence = 0, te_component_id = 0, te_event = None\<rparr>"

definition next_generation :: "zipc_generation \<Rightarrow> zipc_generation" where
  "next_generation g = (let generation = g + 1 in if generation = 0 then generation + 1 else generation)"

definition allocation_deadline :: "u64 \<Rightarrow> u64 \<Rightarrow> u64" where
  "allocation_deadline duration now =
     (if duration = 0 \<or> duration \<ge> ZIPC_DEADLINE_NONE - now then ZIPC_DEADLINE_NONE else now + duration)"

definition init_allocated_slot ::
  "zipc_component_id \<Rightarrow> u32 \<Rightarrow> u32 \<Rightarrow> zipc_buffer_id \<Rightarrow> u32 \<Rightarrow> u32 \<Rightarrow> u64 \<Rightarrow> u64 \<Rightarrow>
   zipc_slot_control \<Rightarrow> zipc_slot_control" where
  "init_allocated_slot allocator epoch hop_limit parent_id offset len deadline_duration now slot =
     slot\<lparr>sc_generation := next_generation (sc_generation slot),
          sc_owner_id := allocator,
          sc_next_owner_id := ZIPC_INVALID_COMPONENT_ID,
          sc_owner_epoch := epoch,
          sc_hop_count := 1,
          sc_hop_limit := (if hop_limit \<noteq> 0 then hop_limit else ZIPC_HOP_LIMIT_UNLIMITED),
          sc_visited := visited_set_add visited_empty allocator,
          sc_identity := \<lparr>bi_id = 0, bi_parent_id = parent_id\<rparr>,
          sc_region := \<lparr>rg_offset = offset, rg_length = len\<rparr>,
          sc_transfer_sequence := 0,
          sc_payload_type := 0,
          sc_flags := 0,
          sc_error_flags := 0,
          sc_acquired_ns := now,
          sc_deadline_ns := allocation_deadline deadline_duration now,
          sc_trace_count := 0,
          sc_recovery_count := 0,
          sc_claim_previous_sequence := 0,
          sc_claim_previous_region := empty_region,
          sc_claim_previous_owner := ZIPC_INVALID_COMPONENT_ID,
          sc_claim_previous_owner_epoch := 0,
          sc_transfer_link_id := 0,
          sc_transfer_source_id := ZIPC_INVALID_COMPONENT_ID,
          sc_transfer_source_epoch := 0,
          sc_transfer_hop_count := 0,
          sc_transfer_acquired_ns := 0,
          sc_transfer_visited := visited_empty,
          sc_trace := replicate 8 empty_trace_entry\<rparr>"

definition allocation_failed ::
  "zipc_pool \<Rightarrow> zipc_slot_id \<Rightarrow> zipc_component_id \<Rightarrow> bool \<Rightarrow> zipc_status \<Rightarrow> zipc_buffer option \<Rightarrow> sys \<Rightarrow>
   zipc_status \<times> zipc_buffer option \<times> sys" where
  "allocation_failed pool slot_id allocator revoke status buffer s =
     (let c = slot_ptr pool slot_id;
          s = trace_slot (Some pool) slot_id (Some c) allocator ZIPC_TRACE_ERROR s;
          s = (if revoke then snd (protect_slot (Some pool) slot_id False s) else s);
          s = free_claiming_slot c s;
          s = upd_hdr pool (\<lambda>h. h\<lparr>ph_allocation_failure_count := ph_allocation_failure_count h + 1\<rparr>) s
      in (status, buffer_invalidate buffer, s))"

text \<open>The body of the scan after the slot has been moved to \<open>CLAIMING\<close>: initialisation and
  identity (\<open>allocate_claimed\<close>), then payload access, view and publication
  (\<open>allocate_publish\<close>).\<close>

definition allocate_publish ::
  "zipc_pool \<Rightarrow> zipc_component_id \<Rightarrow> bool \<Rightarrow> u64 \<Rightarrow> zipc_slot_id \<Rightarrow> zipc_generation \<Rightarrow>
   zipc_buffer option \<Rightarrow> sys \<Rightarrow> zipc_status \<times> zipc_buffer option \<times> sys" where
  "allocate_publish pool allocator enable_payload claim_token slot_id generation buffer s =
     (let c = slot_ptr pool slot_id;
          handle = zipc_handle_make slot_id generation;
          (status, s) = (if enable_payload then protect_slot (Some pool) slot_id True s else (ZIPC_OK, s))
      in if status \<noteq> ZIPC_OK
         then allocation_failed pool slot_id allocator True status buffer s
         else
           let (status, buffer') = make_view pool slot_id handle buffer s in
           if status \<noteq> ZIPC_OK
           then allocation_failed pool slot_id allocator enable_payload status buffer s
           else
             let s = trace_slot (Some pool) slot_id (Some c) allocator ZIPC_TRACE_ALLOCATE s;
                 s = store_state c ZIPC_SLOT_OWNED s;
                 s = clear_claim_token c claim_token s;
                 count = ph_slot_count (hdr s pool);
                 s = upd_hdr pool (\<lambda>h. h\<lparr>ph_allocation_cursor := (slot_id + 1) mod count,
                                         ph_allocation_count := ph_allocation_count h + 1\<rparr>) s
             in (ZIPC_OK, buffer', s))"

definition allocate_claimed ::
  "zipc_pool \<Rightarrow> zipc_component_id \<Rightarrow> zipc_buffer_id \<Rightarrow> u32 \<Rightarrow> u32 \<Rightarrow> u32 \<Rightarrow> u32 \<Rightarrow> u64 \<Rightarrow> bool \<Rightarrow>
   u64 \<Rightarrow> zipc_slot_id \<Rightarrow> zipc_buffer option \<Rightarrow> sys \<Rightarrow> (zipc_status \<times> zipc_buffer option \<times> sys) option" where
  "allocate_claimed pool allocator parent_id offset len epoch hop_limit deadline_duration enable_payload
     claim_token slot_id buffer s =
     (let c = slot_ptr pool slot_id;
          (now, s) = zipc_now_ns s;
          s = upd_slot c (init_allocated_slot allocator epoch hop_limit parent_id offset len
                            deadline_duration now) s;
          generation = sc_generation (slot_of s c)
      in case generate_buffer_id allocator True s of
           None \<Rightarrow> None
         | Some (status, bid, s) \<Rightarrow>
             if status \<noteq> ZIPC_OK
             then Some (allocation_failed pool slot_id allocator False status buffer s)
             else
               let s = upd_slot c (\<lambda>sl. sl\<lparr>sc_identity := (sc_identity sl)\<lparr>bi_id := the bid\<rparr>\<rparr>) s
               in Some (allocate_publish pool allocator enable_payload claim_token slot_id generation
                          buffer s))"

text \<open>The scan: \<open>remaining\<close> counts the iterations left, \<open>n\<close> is the loop variable.\<close>

fun allocate_scan ::
  "zipc_pool \<Rightarrow> zipc_component_id \<Rightarrow> zipc_buffer_id \<Rightarrow> u32 \<Rightarrow> u32 \<Rightarrow> u32 \<Rightarrow> u32 \<Rightarrow> u64 \<Rightarrow> bool \<Rightarrow>
   u64 \<Rightarrow> u32 \<Rightarrow> u32 \<Rightarrow> nat \<Rightarrow> zipc_buffer option \<Rightarrow> sys \<Rightarrow>
   (zipc_status \<times> zipc_buffer option \<times> sys) option" where
  "allocate_scan pool allocator parent_id offset len epoch hop_limit deadline_duration enable_payload
     claim_token start n 0 buffer s =
     Some (ZIPC_ERR_NO_BUFFER, buffer,
       upd_hdr pool (\<lambda>h. h\<lparr>ph_allocation_failure_count := ph_allocation_failure_count h + 1\<rparr>) s)"
| "allocate_scan pool allocator parent_id offset len epoch hop_limit deadline_duration enable_payload
     claim_token start n (Suc remaining) buffer s =
     (let slot_id = (start + n) mod ph_slot_count (hdr s pool);
          c = slot_ptr pool slot_id;
          next = (\<lambda>s. allocate_scan pool allocator parent_id offset len epoch hop_limit deadline_duration
                       enable_payload claim_token start (n + 1) remaining buffer s)
      in if sc_state (slot_of s c) \<noteq> ZIPC_SLOT_FREE then next s
         else case cas_claim_token c 0 claim_token s of
             (False, _, s) \<Rightarrow> next s
           | (True, _, s) \<Rightarrow>
               (case cas_state c ZIPC_SLOT_FREE ZIPC_SLOT_CLAIMING s of
                  (False, s) \<Rightarrow> next (clear_claim_token c claim_token s)
                | (True, s) \<Rightarrow>
                    allocate_claimed pool allocator parent_id offset len epoch hop_limit
                      deadline_duration enable_payload claim_token slot_id buffer s))"

definition buffer_allocate_internal ::
  "zipc_pool option \<Rightarrow> zipc_component_id \<Rightarrow> zipc_buffer_id \<Rightarrow> u32 \<Rightarrow> u32 \<Rightarrow> u32 \<Rightarrow> u32 \<Rightarrow> u64 \<Rightarrow> bool \<Rightarrow>
   zipc_buffer option \<Rightarrow> sys \<Rightarrow> (zipc_status \<times> zipc_buffer option \<times> sys) option" where
  "buffer_allocate_internal pool allocator parent_id offset len owner_epoch hop_limit
     deadline_duration_ns enable_payload buffer s =
     (case (pool, buffer) of
        (Some p, Some b) \<Rightarrow>
          if \<not> zipc_component_id_valid allocator \<or>
             (parent_id \<noteq> 0 \<and> \<not> zipc_buffer_id_valid parent_id) \<or>
             offset > ph_slot_capacity (hdr s p) \<or> len > ph_slot_capacity (hdr s p) - offset
          then Some (ZIPC_ERR_INVALID_ARGUMENT, buffer, s)
          else
            let count = ph_slot_count (hdr s p);
                allocation_epoch = (if owner_epoch \<noteq> 0 then owner_epoch
                                    else registered_epoch s pool allocator);
                claim_token = claim_token_make ZIPC_CLAIM_ALLOCATE allocator allocation_epoch;
                start = ph_allocation_cursor (hdr s p) mod count
            in allocate_scan p allocator parent_id offset len allocation_epoch hop_limit
                 deadline_duration_ns enable_payload claim_token start 0 (unat count) buffer s
      | _ \<Rightarrow> Some (ZIPC_ERR_INVALID_ARGUMENT, buffer, s))"

definition zipc_buffer_allocate ::
  "zipc_pool option \<Rightarrow> zipc_component_id \<Rightarrow> zipc_buffer_id \<Rightarrow> zipc_buffer option \<Rightarrow> sys \<Rightarrow>
   (zipc_status \<times> zipc_buffer option \<times> sys) option" where
  "zipc_buffer_allocate pool allocator parent_id buffer s =
     buffer_allocate_internal pool allocator parent_id 0 0 0 ZIPC_HOP_LIMIT_UNLIMITED 0 True buffer s"

subsection \<open>Views and regions\<close>

definition zipc_buffer_from_handle ::
  "zipc_pool option \<Rightarrow> zipc_handle \<Rightarrow> zipc_component_id \<Rightarrow> zipc_buffer option \<Rightarrow> sys \<Rightarrow>
   zipc_status \<times> zipc_buffer option" where
  "zipc_buffer_from_handle pool handle expected_owner buffer s =
     (case (pool, buffer) of
        (Some p, Some b) \<Rightarrow>
          if \<not> zipc_component_id_valid expected_owner then (ZIPC_ERR_INVALID_ARGUMENT, buffer)
          else
            let buffer = buffer_invalidate buffer;
                slot_id = zipc_handle_slot_id handle
            in if slot_id \<ge> ph_slot_count (hdr s p) then (ZIPC_ERR_INVALID_HANDLE, buffer)
               else
                 let slot = slot_of s (slot_ptr p slot_id) in
                 if sc_generation slot \<noteq> zipc_handle_generation handle then (ZIPC_ERR_STALE_HANDLE, buffer)
                 else if sc_state slot \<noteq> ZIPC_SLOT_OWNED then (ZIPC_ERR_INVALID_STATE, buffer)
                 else if sc_owner_id slot \<noteq> expected_owner then (ZIPC_ERR_NOT_OWNER, buffer)
                 else if sc_owner_epoch slot \<noteq> registered_epoch s pool expected_owner
                 then (ZIPC_ERR_COMPONENT_STALE, buffer)
                 else make_view p slot_id handle buffer s
      | _ \<Rightarrow> (ZIPC_ERR_INVALID_ARGUMENT, buffer))"

definition zipc_buffer_set_region ::
  "zipc_buffer option \<Rightarrow> u32 \<Rightarrow> u32 \<Rightarrow> sys \<Rightarrow> zipc_status \<times> zipc_buffer option \<times> sys" where
  "zipc_buffer_set_region buffer offset len s =
     (case buffer of
        None \<Rightarrow> (ZIPC_ERR_INVALID_ARGUMENT, buffer, s)
      | Some b \<Rightarrow>
          if \<not> buffer_owned s buffer then (ZIPC_ERR_INVALID_BUFFER, buffer, s)
          else if offset > buf_capacity b \<or> len > buf_capacity b - offset
          then (ZIPC_ERR_REGION_OVERFLOW, buffer, s)
          else
            (ZIPC_OK, Some (b\<lparr>buf_data := buf_slot_base b + ucast offset, buf_length := len\<rparr>),
             upd_slot (the (buf_control b))
               (\<lambda>sl. sl\<lparr>sc_region := \<lparr>rg_offset = offset, rg_length = len\<rparr>\<rparr>) s))"

subsection \<open>Transfer preparation\<close>

definition back_out :: "slot_ptr \<Rightarrow> zipc_slot_state \<Rightarrow> u64 \<Rightarrow> sys \<Rightarrow> sys" where
  "back_out c st claim s = clear_claim_token c claim (store_state c st s)"

definition transfer_fields ::
  "zipc_component_id \<Rightarrow> zipc_component_id \<Rightarrow> u64 \<Rightarrow> zipc_slot_control \<Rightarrow> zipc_slot_control" where
  "transfer_fields current_owner next_owner link_id sl =
     sl\<lparr>sc_next_owner_id := next_owner,
        sc_transfer_link_id := link_id,
        sc_transfer_source_id := current_owner,
        sc_transfer_source_epoch := sc_owner_epoch sl,
        sc_transfer_hop_count := sc_hop_count sl,
        sc_transfer_acquired_ns := sc_acquired_ns sl,
        sc_transfer_visited := sc_visited sl,
        sc_transfer_sequence := sc_transfer_sequence sl + 1\<rparr>"

definition prepare_claimed ::
  "zipc_pool \<Rightarrow> zipc_handle \<Rightarrow> zipc_component_id \<Rightarrow> zipc_component_id \<Rightarrow> u64 \<Rightarrow> u32 \<Rightarrow> u64 \<Rightarrow> sys \<Rightarrow>
   zipc_status \<times> zipc_message option \<times> sys" where
  "prepare_claimed pool handle current_owner next_owner link_id owner_epoch claim s =
     (let slot_id = zipc_handle_slot_id handle; c = slot_ptr pool slot_id in
      if sc_generation (slot_of s c) \<noteq> zipc_handle_generation handle
      then (ZIPC_ERR_STALE_HANDLE, None,
            record_protocol_error pool None current_owner (back_out c ZIPC_SLOT_OWNED claim s))
      else if sc_owner_id (slot_of s c) \<noteq> current_owner \<or> sc_owner_epoch (slot_of s c) \<noteq> owner_epoch
      then (ZIPC_ERR_NOT_OWNER, None,
            record_protocol_error pool None current_owner (back_out c ZIPC_SLOT_OWNED claim s))
      else
        let (now_ns, s) = zipc_now_ns s in
        if sc_deadline_ns (slot_of s c) \<noteq> ZIPC_DEADLINE_NONE \<and> now_ns > sc_deadline_ns (slot_of s c)
        then (ZIPC_ERR_DEADLINE, None,
              back_out c ZIPC_SLOT_OWNED claim (record_protocol_error pool (Some c) current_owner s))
        else if sc_hop_limit (slot_of s c) \<noteq> ZIPC_HOP_LIMIT_UNLIMITED \<and>
                sc_hop_count (slot_of s c) \<ge> sc_hop_limit (slot_of s c)
        then (ZIPC_ERR_HOP_LIMIT, None,
              back_out c ZIPC_SLOT_OWNED claim (record_protocol_error pool (Some c) current_owner s))
        else
          let (protect_status, s) = protect_slot (Some pool) slot_id False s in
          if protect_status \<noteq> ZIPC_OK
          then (protect_status, None,
                back_out c ZIPC_SLOT_OWNED claim (record_protocol_error pool (Some c) current_owner s))
          else
            let s = upd_slot c (transfer_fields current_owner next_owner link_id) s;
                message = \<lparr>msg_handle = handle, msg_pool_id = pool_pool_id pool,
                           msg_source_component = current_owner,
                           msg_destination_component = next_owner,
                           msg_transfer_sequence = sc_transfer_sequence (slot_of s c),
                           msg_flags = 0\<rparr>;
                s = trace_slot (Some pool) slot_id (Some c) current_owner ZIPC_TRACE_SEND s
            in (ZIPC_OK, Some message, back_out c ZIPC_SLOT_TRANSFER claim s))"

definition buffer_prepare_transfer_internal ::
  "zipc_pool option \<Rightarrow> zipc_handle \<Rightarrow> zipc_component_id \<Rightarrow> zipc_component_id \<Rightarrow> u64 \<Rightarrow> bool \<Rightarrow> sys \<Rightarrow>
   zipc_status \<times> zipc_message option \<times> sys" where
  "buffer_prepare_transfer_internal pool handle current_owner next_owner link_id message_out s =
     (case pool of
        None \<Rightarrow> (ZIPC_ERR_INVALID_ARGUMENT, None, s)
      | Some p \<Rightarrow>
          if \<not> message_out \<or> \<not> zipc_component_id_valid current_owner \<or>
             \<not> zipc_component_id_valid next_owner
          then (ZIPC_ERR_INVALID_ARGUMENT, None, s)
          else
            let slot_id = zipc_handle_slot_id handle; c = slot_ptr p slot_id in
            if slot_id \<ge> ph_slot_count (hdr s p)
            then (ZIPC_ERR_INVALID_HANDLE, None, record_protocol_error p None current_owner s)
            else
              let owner_epoch = registered_epoch s pool current_owner in
              if sc_state (slot_of s c) \<noteq> ZIPC_SLOT_OWNED
              then (ZIPC_ERR_INVALID_STATE, None, record_protocol_error p None current_owner s)
              else if sc_generation (slot_of s c) \<noteq> zipc_handle_generation handle
              then (ZIPC_ERR_STALE_HANDLE, None, record_protocol_error p None current_owner s)
              else if sc_owner_id (slot_of s c) \<noteq> current_owner \<or>
                      sc_owner_epoch (slot_of s c) \<noteq> owner_epoch
              then (ZIPC_ERR_NOT_OWNER, None, record_protocol_error p None current_owner s)
              else
                let s = upd_slot c (\<lambda>sl. sl\<lparr>sc_claim_previous_sequence := sc_transfer_sequence sl\<rparr>) s;
                    claim = claim_token_make ZIPC_CLAIM_SEND current_owner owner_epoch
                in case cas_claim_token c 0 claim s of
                     (False, _, s) \<Rightarrow> (ZIPC_ERR_INVALID_STATE, None, s)
                   | (True, _, s) \<Rightarrow>
                       (case cas_state c ZIPC_SLOT_OWNED ZIPC_SLOT_CLAIMING s of
                          (False, s) \<Rightarrow>
                            (ZIPC_ERR_INVALID_STATE, None,
                             record_protocol_error p None current_owner (clear_claim_token c claim s))
                        | (True, s) \<Rightarrow>
                            prepare_claimed p handle current_owner next_owner link_id owner_epoch claim s))"

definition zipc_buffer_prepare_transfer ::
  "zipc_pool option \<Rightarrow> zipc_handle \<Rightarrow> zipc_component_id \<Rightarrow> zipc_component_id \<Rightarrow> bool \<Rightarrow> sys \<Rightarrow>
   zipc_status \<times> zipc_message option \<times> sys" where
  "zipc_buffer_prepare_transfer pool handle current_owner next_owner message_out s =
     buffer_prepare_transfer_internal pool handle current_owner next_owner 0 message_out s"

subsection \<open>Claim\<close>

definition receive_fields ::
  "zipc_component_id \<Rightarrow> u32 \<Rightarrow> u64 \<Rightarrow> zipc_slot_control \<Rightarrow> zipc_slot_control" where
  "receive_fields receiver receiver_epoch now_ns sl =
     sl\<lparr>sc_owner_id := receiver,
        sc_next_owner_id := ZIPC_INVALID_COMPONENT_ID,
        sc_owner_epoch := receiver_epoch,
        sc_hop_count := sc_transfer_hop_count sl + 1,
        sc_visited := visited_set_add (sc_visited sl) receiver,
        sc_acquired_ns := now_ns\<rparr>"

text \<open>The claim after its checks: take the slot over, open its pages, publish it.\<close>

definition claim_publish ::
  "zipc_pool \<Rightarrow> zipc_message \<Rightarrow> zipc_component_id \<Rightarrow> u32 \<Rightarrow> u64 \<Rightarrow> u64 \<Rightarrow> zipc_buffer option \<Rightarrow> sys \<Rightarrow>
   zipc_status \<times> zipc_buffer option \<times> sys" where
  "claim_publish pool message receiver receiver_epoch now_ns claim buffer s =
     (let slot_id = zipc_handle_slot_id (msg_handle message); c = slot_ptr pool slot_id;
          s = upd_slot c (receive_fields receiver receiver_epoch now_ns) s;
          (status, s) = protect_slot (Some pool) slot_id True s
      in if status \<noteq> ZIPC_OK
         then (status, buffer_invalidate buffer,
               free_claiming_slot c (record_protocol_error pool (Some c) receiver s))
         else
           let (status, buffer') = make_view pool slot_id (msg_handle message) buffer s in
           if status \<noteq> ZIPC_OK
           then (status, buffer_invalidate buffer,
                 free_claiming_slot c
                   (snd (protect_slot (Some pool) slot_id False
                      (record_protocol_error pool (Some c) receiver s))))
           else
             let s = trace_slot (Some pool) slot_id (Some c) receiver ZIPC_TRACE_RECEIVE s
             in (ZIPC_OK, buffer', back_out c ZIPC_SLOT_OWNED claim s))"

definition claim_claimed ::
  "zipc_pool \<Rightarrow> zipc_message \<Rightarrow> zipc_component_id \<Rightarrow> u32 \<Rightarrow> u64 \<Rightarrow> zipc_buffer option \<Rightarrow> sys \<Rightarrow>
   zipc_status \<times> zipc_buffer option \<times> sys" where
  "claim_claimed pool message receiver receiver_epoch claim buffer s =
     (let slot_id = zipc_handle_slot_id (msg_handle message); c = slot_ptr pool slot_id;
          refuse = (\<lambda>status s. (status, buffer,
                      record_protocol_error pool None receiver (back_out c ZIPC_SLOT_TRANSFER claim s)))
      in if sc_generation (slot_of s c) \<noteq> zipc_handle_generation (msg_handle message)
         then refuse ZIPC_ERR_STALE_HANDLE s
         else if sc_owner_id (slot_of s c) \<noteq> msg_source_component message \<or>
                 sc_next_owner_id (slot_of s c) \<noteq> receiver
         then refuse ZIPC_ERR_INVALID_RECEIVER s
         else if sc_transfer_sequence (slot_of s c) \<noteq> msg_transfer_sequence message
         then refuse ZIPC_ERR_SEQUENCE_MISMATCH s
         else
           let (now_ns, s) = zipc_now_ns s in
           if sc_deadline_ns (slot_of s c) \<noteq> ZIPC_DEADLINE_NONE \<and> now_ns > sc_deadline_ns (slot_of s c)
           then refuse ZIPC_ERR_DEADLINE s
           else if sc_hop_limit (slot_of s c) \<noteq> ZIPC_HOP_LIMIT_UNLIMITED \<and>
                   sc_hop_count (slot_of s c) \<ge> sc_hop_limit (slot_of s c)
           then refuse ZIPC_ERR_HOP_LIMIT s
           else
             claim_publish pool message receiver receiver_epoch now_ns claim buffer s)"

text \<open>The token of a sender that has published \<open>TRANSFER\<close> but not yet cleared its claim may be
  taken over by the receiver.\<close>

definition claim_take_token :: "slot_ptr \<Rightarrow> u64 \<Rightarrow> sys \<Rightarrow> bool \<times> sys" where
  "claim_take_token c claim s =
     (case cas_claim_token c 0 claim s of
        (True, _, s) \<Rightarrow> (True, s)
      | (False, observed, s) \<Rightarrow>
          if claim_token_kind observed \<noteq> ZIPC_CLAIM_SEND \<or>
             sc_state (slot_of s c) \<noteq> ZIPC_SLOT_TRANSFER
          then (False, s)
          else case cas_claim_token c observed claim s of (ok, _, s) \<Rightarrow> (ok, s))"

definition zipc_buffer_claim ::
  "zipc_pool option \<Rightarrow> zipc_message option \<Rightarrow> zipc_component_id \<Rightarrow> zipc_buffer option \<Rightarrow> sys \<Rightarrow>
   zipc_status \<times> zipc_buffer option \<times> sys" where
  "zipc_buffer_claim pool message receiver buffer s =
     (case (pool, message, buffer) of
        (Some p, Some m, Some b) \<Rightarrow>
          if \<not> zipc_component_id_valid receiver then (ZIPC_ERR_INVALID_ARGUMENT, buffer, s)
          else if msg_pool_id m \<noteq> pool_pool_id p
          then (ZIPC_ERR_INVALID_HANDLE, buffer, record_protocol_error p None receiver s)
          else if msg_destination_component m \<noteq> receiver
          then (ZIPC_ERR_INVALID_RECEIVER, buffer, record_protocol_error p None receiver s)
          else
            let slot_id = zipc_handle_slot_id (msg_handle m); c = slot_ptr p slot_id in
            if slot_id \<ge> ph_slot_count (hdr s p)
            then (ZIPC_ERR_INVALID_HANDLE, buffer, record_protocol_error p None receiver s)
            else if sc_state (slot_of s c) \<noteq> ZIPC_SLOT_TRANSFER
            then (ZIPC_ERR_INVALID_STATE, buffer, record_protocol_error p None receiver s)
            else
              let receiver_epoch = registered_epoch s pool receiver;
                  claim = claim_token_make ZIPC_CLAIM_RECEIVE receiver receiver_epoch
              in case claim_take_token c claim s of
                   (False, s) \<Rightarrow> (ZIPC_ERR_INVALID_STATE, buffer, record_protocol_error p None receiver s)
                 | (True, s) \<Rightarrow>
                     (case cas_state c ZIPC_SLOT_TRANSFER ZIPC_SLOT_CLAIMING s of
                        (False, s) \<Rightarrow>
                          (ZIPC_ERR_INVALID_STATE, buffer,
                           record_protocol_error p None receiver (clear_claim_token c claim s))
                      | (True, s) \<Rightarrow> claim_claimed p m receiver receiver_epoch claim buffer s)
      | _ \<Rightarrow> (ZIPC_ERR_INVALID_ARGUMENT, buffer, s))"

subsection \<open>Release\<close>

definition zipc_pool_buffer_release ::
  "zipc_pool option \<Rightarrow> zipc_handle \<Rightarrow> zipc_component_id \<Rightarrow> sys \<Rightarrow> zipc_status \<times> sys" where
  "zipc_pool_buffer_release pool handle current_owner s =
     (case pool of
        None \<Rightarrow> (ZIPC_ERR_INVALID_ARGUMENT, s)
      | Some p \<Rightarrow>
          if \<not> zipc_component_id_valid current_owner then (ZIPC_ERR_INVALID_ARGUMENT, s)
          else
            let slot_id = zipc_handle_slot_id handle; c = slot_ptr p slot_id in
            if slot_id \<ge> ph_slot_count (hdr s p) then (ZIPC_ERR_INVALID_HANDLE, s)
            else if sc_generation (slot_of s c) \<noteq> zipc_handle_generation handle
            then (ZIPC_ERR_STALE_HANDLE, s)
            else
              let owner_epoch = registered_epoch s pool current_owner in
              if sc_state (slot_of s c) \<noteq> ZIPC_SLOT_OWNED then (ZIPC_ERR_INVALID_STATE, s)
              else if sc_owner_id (slot_of s c) \<noteq> current_owner \<or>
                      sc_owner_epoch (slot_of s c) \<noteq> owner_epoch
              then (ZIPC_ERR_NOT_OWNER, s)
              else
                let s = upd_slot c (\<lambda>sl. sl\<lparr>sc_claim_previous_region := sc_region sl,
                                            sc_claim_previous_owner := sc_owner_id sl,
                                            sc_claim_previous_owner_epoch := sc_owner_epoch sl\<rparr>) s;
                    claim = claim_token_make ZIPC_CLAIM_RELEASE current_owner owner_epoch
                in case cas_claim_token c 0 claim s of
                     (False, _, s) \<Rightarrow> (ZIPC_ERR_INVALID_STATE, s)
                   | (True, _, s) \<Rightarrow>
                       (case cas_state c ZIPC_SLOT_OWNED ZIPC_SLOT_CLAIMING s of
                          (False, s) \<Rightarrow> (ZIPC_ERR_INVALID_STATE, clear_claim_token c claim s)
                        | (True, s) \<Rightarrow>
                            if sc_owner_id (slot_of s c) \<noteq> current_owner \<or>
                               sc_owner_epoch (slot_of s c) \<noteq> owner_epoch
                            then (ZIPC_ERR_NOT_OWNER, back_out c ZIPC_SLOT_OWNED claim s)
                            else
                              let (protect_status, s) = protect_slot pool slot_id False s in
                              if protect_status \<noteq> ZIPC_OK
                              then (protect_status, back_out c ZIPC_SLOT_OWNED claim s)
                              else
                                let s = trace_slot pool slot_id (Some c) current_owner ZIPC_TRACE_RELEASE s;
                                    s = upd_slot c (\<lambda>sl. sl\<lparr>sc_owner_id := ZIPC_INVALID_COMPONENT_ID,
                                                            sc_next_owner_id := ZIPC_INVALID_COMPONENT_ID,
                                                            sc_region := empty_region\<rparr>) s;
                                    s = back_out c ZIPC_SLOT_FREE claim s
                                in (ZIPC_OK,
                                    upd_hdr p (\<lambda>h. h\<lparr>ph_release_count := ph_release_count h + 1\<rparr>) s)))"

definition zipc_buffer_payload_physical_address ::
  "zipc_pool option \<Rightarrow> zipc_slot_id \<Rightarrow> u32 \<Rightarrow> sys \<Rightarrow> u64" where
  "zipc_buffer_payload_physical_address pool slot_id offset s =
     (case pool of
        None \<Rightarrow> ZIPC_PHYS_ADDR_INVALID
      | Some p \<Rightarrow>
          if slot_id \<ge> ph_slot_count (hdr s p) \<or> offset > ph_slot_capacity (hdr s p)
          then ZIPC_PHYS_ADDR_INVALID
          else
            let base = (case pool_payload_memory p of
                          None \<Rightarrow> ZIPC_PHYS_ADDR_INVALID
                        | Some r \<Rightarrow> pm_physical_base (sys_mem s r))
            in if base = ZIPC_PHYS_ADDR_INVALID then ZIPC_PHYS_ADDR_INVALID
               else base + pool_payload_offset p + ucast slot_id * ucast (ph_slot_stride (hdr s p)) +
                    ucast offset)"

end
