(* ===== verification/Slot_Invariant.thy ===== *)
theory Slot_Invariant
  imports Slot_Ops
begin

text \<open>
  Reasoning about the slot protocol: what every helper does to the slot it addresses, the frame
  rules that say nothing else is touched, and the pool invariant kept by the operations of
  \<open>Slot_Ops\<close> run one at a time.
\<close>

named_theorems slot_frame \<open>frame introduction rules\<close>

subsection \<open>Reads through the helpers\<close>

lemma zipc_now_ns_simps [simp]:
  "fst (zipc_now_ns s) = sys_clock s (sys_ticks s)"
  "snd (zipc_now_ns s) = s\<lparr>sys_ticks := Suc (sys_ticks s)\<rparr>"
  by (simp_all add: zipc_now_ns_def)

lemma store_state_reads [simp]:
  "slot_ptr_ok s c \<Longrightarrow> slot_of (store_state c st s) c = (slot_of s c)\<lparr>sc_state := st\<rparr>"
  "c \<noteq> c' \<Longrightarrow> slot_of (store_state c st s) c' = slot_of s c'"
  "slot_ptr_ok (store_state c st s) = slot_ptr_ok s"
  "hdr (store_state c st s) = hdr s" "payload_of (store_state c st s) = payload_of s"
  "sys_gen (store_state c st s) = sys_gen s" "sys_mem (store_state c st s) = sys_mem s"
  "sys_clock (store_state c st s) = sys_clock s" "sys_ticks (store_state c st s) = sys_ticks s"
  "sys_hook (store_state c st s) = sys_hook s"
  by (simp_all add: store_state_def fun_eq_iff)

lemma clear_claim_token_reads [simp]:
  "slot_ptr_ok s c \<Longrightarrow> slot_of (clear_claim_token c t s) c =
     (if sc_claim_token (slot_of s c) = t then (slot_of s c)\<lparr>sc_claim_token := 0\<rparr> else slot_of s c)"
  "c \<noteq> c' \<Longrightarrow> slot_of (clear_claim_token c t s) c' = slot_of s c'"
  "slot_ptr_ok (clear_claim_token c t s) = slot_ptr_ok s"
  "hdr (clear_claim_token c t s) = hdr s" "payload_of (clear_claim_token c t s) = payload_of s"
  "sys_gen (clear_claim_token c t s) = sys_gen s" "sys_mem (clear_claim_token c t s) = sys_mem s"
  "sys_clock (clear_claim_token c t s) = sys_clock s" "sys_ticks (clear_claim_token c t s) = sys_ticks s"
  "sys_hook (clear_claim_token c t s) = sys_hook s"
  by (cases "sc_claim_token (slot_of s c) = t"; simp add: clear_claim_token_simps fun_eq_iff)+

lemma back_out_reads [simp]:
  "slot_ptr_ok s c \<Longrightarrow> slot_of (back_out c st t s) c =
     (if sc_claim_token (slot_of s c) = t then (slot_of s c)\<lparr>sc_state := st, sc_claim_token := 0\<rparr>
      else (slot_of s c)\<lparr>sc_state := st\<rparr>)"
  "c \<noteq> c' \<Longrightarrow> slot_of (back_out c st t s) c' = slot_of s c'"
  "slot_ptr_ok (back_out c st t s) = slot_ptr_ok s"
  "hdr (back_out c st t s) = hdr s" "payload_of (back_out c st t s) = payload_of s"
  "sys_gen (back_out c st t s) = sys_gen s" "sys_mem (back_out c st t s) = sys_mem s"
  "sys_hook (back_out c st t s) = sys_hook s"
  by (simp_all add: back_out_def)

lemma free_claiming_slot_reads [simp]:
  "slot_ptr_ok s c \<Longrightarrow> slot_of (free_claiming_slot c s) c =
     (slot_of s c)\<lparr>sc_owner_id := ZIPC_INVALID_COMPONENT_ID, sc_next_owner_id := ZIPC_INVALID_COMPONENT_ID,
                   sc_region := empty_region, sc_state := ZIPC_SLOT_FREE, sc_claim_token := 0\<rparr>"
  "c \<noteq> c' \<Longrightarrow> slot_of (free_claiming_slot c s) c' = slot_of s c'"
  "slot_ptr_ok (free_claiming_slot c s) = slot_ptr_ok s"
  "hdr (free_claiming_slot c s) = hdr s" "payload_of (free_claiming_slot c s) = payload_of s"
  "sys_gen (free_claiming_slot c s) = sys_gen s" "sys_mem (free_claiming_slot c s) = sys_mem s"
  "sys_hook (free_claiming_slot c s) = sys_hook s"
  by (simp_all add: free_claiming_slot_def empty_region_def Let_def fun_eq_iff)

lemma record_protocol_error_reads [simp]:
  "slot_of (record_protocol_error p None cm s) = slot_of s"
  "slot_ptr_ok s c \<Longrightarrow> slot_of (record_protocol_error p (Some c) cm s) c =
     add_trace (sys_clock s (sys_ticks s)) cm ZIPC_TRACE_ERROR (slot_of s c)"
  "c \<noteq> c' \<Longrightarrow> slot_of (record_protocol_error p (Some c) cm s) c' = slot_of s c'"
  "slot_ptr_ok (record_protocol_error p co cm s) = slot_ptr_ok s"
  "hdr (record_protocol_error p co cm s) p =
     (hdr s p)\<lparr>ph_protocol_error_count := ph_protocol_error_count (hdr s p) + 1\<rparr>"
  "payload_of (record_protocol_error p co cm s) = payload_of s"
  "sys_gen (record_protocol_error p co cm s) = sys_gen s"
  "sys_mem (record_protocol_error p co cm s) = sys_mem s"
  "sys_hook (record_protocol_error p co cm s) = sys_hook s"
  by (cases co; simp add: record_protocol_error_def Let_def split_beta fun_eq_iff)+

lemma mprotect_reads [simp]:
  "slot_of (snd (mprotect r off n a s)) = slot_of s" "hdr (snd (mprotect r off n a s)) = hdr s"
  "slot_ptr_ok (snd (mprotect r off n a s)) = slot_ptr_ok s"
  "payload_of (snd (mprotect r off n a s)) = payload_of s"
  "sys_gen (snd (mprotect r off n a s)) = sys_gen s" "sys_clock (snd (mprotect r off n a s)) = sys_clock s"
  "sys_ticks (snd (mprotect r off n a s)) = sys_ticks s" "sys_hook (snd (mprotect r off n a s)) = sys_hook s"
  by (simp_all add: mprotect_def Let_def)

lemma platform_memory_protect_state:
  "snd (platform_memory_protect a r off n s) = s \<or>
   snd (platform_memory_protect a r off n s) = snd (mprotect (the r) off n a s)"
proof (cases r)
  case (Some q)
  obtain ok t where m: "mprotect q off n a s = (ok, t)" by fastforce
  show ?thesis
    using Some by (cases ok) (simp_all add: platform_memory_protect_def Let_def m)
qed (simp add: platform_memory_protect_def)

lemma platform_memory_protect_reads [simp]:
  "slot_of (snd (platform_memory_protect a r off n s)) = slot_of s"
  "hdr (snd (platform_memory_protect a r off n s)) = hdr s"
  "slot_ptr_ok (snd (platform_memory_protect a r off n s)) = slot_ptr_ok s"
  "payload_of (snd (platform_memory_protect a r off n s)) = payload_of s"
  "sys_gen (snd (platform_memory_protect a r off n s)) = sys_gen s"
  "sys_clock (snd (platform_memory_protect a r off n s)) = sys_clock s"
  "sys_ticks (snd (platform_memory_protect a r off n s)) = sys_ticks s"
  "sys_hook (snd (platform_memory_protect a r off n s)) = sys_hook s"
  using platform_memory_protect_state [of a r off n s] by (elim disjE; simp)+

lemma protect_slot_reads [simp]:
  "slot_of (snd (protect_slot po i a s)) = slot_of s" "hdr (snd (protect_slot po i a s)) = hdr s"
  "slot_ptr_ok (snd (protect_slot po i a s)) = slot_ptr_ok s"
  "payload_of (snd (protect_slot po i a s)) = payload_of s"
  "sys_gen (snd (protect_slot po i a s)) = sys_gen s" "sys_clock (snd (protect_slot po i a s)) = sys_clock s"
  "sys_ticks (snd (protect_slot po i a s)) = sys_ticks s" "sys_hook (snd (protect_slot po i a s)) = sys_hook s"
  by (cases po; simp add: protect_slot_def zipc_platform_memory_protect_rw_def
      zipc_platform_memory_protect_none_def Let_def)+

lemma protect_slot_lax [simp]:
  "pool_flags p AND ZIPC_POOL_F_STRICT_OWNERSHIP = 0 \<Longrightarrow> protect_slot (Some p) i a s = (ZIPC_OK, s)"
  by (simp add: protect_slot_def)

subsection \<open>Frame rules\<close>

lemma frame_upd_slot [slot_frame]: "frame C s t \<Longrightarrow> c \<in> C \<Longrightarrow> frame C s (upd_slot c f t)"
proof -
  assume f: "frame C s t" and "c \<in> C"
  then have "slot_of (upd_slot c f t) c' = slot_of s c'" if "c' \<notin> C" for c'
    using that by (metis frame_def slot_of_upd_slot_other)
  moreover have "slot_ptr_ok (upd_slot c f t) = slot_ptr_ok t" "payload_of (upd_slot c f t) = payload_of t"
    by (intro ext; simp)+
  ultimately show ?thesis
    using f by (simp add: frame_def)
qed

lemma frame_reads:
  assumes "frame C s t" and "slot_of u = slot_of t" "hdr u = hdr t" "slot_ptr_ok u = slot_ptr_ok t"
    "payload_of u = payload_of t"
  shows "frame C s u"
  using assms by (simp add: frame_def)

lemma frame_local [slot_frame]:
  "frame C s t \<Longrightarrow> frame C s (t\<lparr>sys_ticks := n\<rparr>)"
  "frame C s t \<Longrightarrow> frame C s (t\<lparr>sys_draws := n, sys_gen := g\<rparr>)"
  "frame C s t \<Longrightarrow> frame C s (emit_trace r t)"
  "frame C s t \<Longrightarrow> frame C s (snd (protect_slot po i a t))"
  by (rule frame_reads; simp)+

lemma frame_store_state [slot_frame]: "frame C s t \<Longrightarrow> c \<in> C \<Longrightarrow> frame C s (store_state c st t)"
  by (simp add: store_state_def frame_upd_slot)

lemma frame_clear_claim_token [slot_frame]:
  "frame C s t \<Longrightarrow> c \<in> C \<Longrightarrow> frame C s (clear_claim_token c tk t)"
  by (cases "sc_claim_token (slot_of t c) = tk") (simp_all add: clear_claim_token_simps frame_upd_slot)

lemma frame_back_out [slot_frame]: "frame C s t \<Longrightarrow> c \<in> C \<Longrightarrow> frame C s (back_out c st tk t)"
  by (simp add: back_out_def frame_clear_claim_token frame_store_state)

lemma frame_free_claiming_slot [slot_frame]: "frame C s t \<Longrightarrow> c \<in> C \<Longrightarrow> frame C s (free_claiming_slot c t)"
  by (simp add: free_claiming_slot_def Let_def frame_clear_claim_token frame_store_state frame_upd_slot)

lemma frame_trace_slot [slot_frame]: "frame C s t \<Longrightarrow> c \<in> C \<Longrightarrow> frame C s (trace_slot po i (Some c) cm ev t)"
  unfolding trace_slot_def by (simp add: Let_def split_beta slot_frame)

lemma hdr_upd_hdr_cases: "hdr (upd_hdr q f t) p = (if pool_shm_ref p = pool_shm_ref q then f (hdr t p) else hdr t p)"
  by (simp add: hdr_def upd_hdr_def Let_def)

lemma frame_upd_hdr [slot_frame]:
  assumes "frame C s t" and "\<And>h. hdr_static (f h) = hdr_static h" "\<And>h. lifecycles (f h) = lifecycles h"
  shows "frame C s (upd_hdr p f t)"
  using assms by (simp add: frame_def fun_eq_iff hdr_upd_hdr_cases)

lemma frame_record_protocol_error_None [slot_frame]:
  "frame C s t \<Longrightarrow> frame C s (record_protocol_error p None cm t)"
  unfolding record_protocol_error_def
  by (simp add: Let_def split_beta slot_frame hdr_static_def lifecycles_def)

lemma frame_record_protocol_error_Some [slot_frame]:
  "frame C s t \<Longrightarrow> c \<in> C \<Longrightarrow> frame C s (record_protocol_error p (Some c) cm t)"
  unfolding record_protocol_error_def
  by (simp add: Let_def slot_frame hdr_static_def lifecycles_def)

lemma registered_epoch_frame:
  assumes "frame C s t" "length (ph_components (hdr s (the po))) = 256"
  shows "registered_epoch t po c = registered_epoch s po c"
proof (cases po)
  case (Some p)
  have "lifecycles (hdr t p) = lifecycles (hdr s p)" "length (ph_components (hdr t p)) = 256"
    using assms Some by (auto simp: frame_def hdr_static_def)
  then have "cs_lifecycle (component_of t p c) = cs_lifecycle (component_of s p c)" if "unat c < 256"
    using that assms(2) Some unfolding lifecycles_def component_of_def
    by (metis nth_map option.sel)
  then show ?thesis
    using Some by (auto simp: registered_epoch_def Let_def dest: zipc_component_id_valid_lt)
qed (simp add: registered_epoch_def)

subsection \<open>The pool invariant\<close>

text \<open>The structural part: sizes of the embedded arrays, regions inside the slot.\<close>

definition region_fits :: "u32 \<Rightarrow> zipc_buffer_region \<Rightarrow> bool" where
  "region_fits capacity r \<longleftrightarrow> unat (rg_offset r) + unat (rg_length r) \<le> unat capacity"

definition slot_shape :: "u32 \<Rightarrow> zipc_slot_control \<Rightarrow> bool" where
  "slot_shape capacity sl \<longleftrightarrow>
     visited_wf (sc_visited sl) \<and> visited_wf (sc_transfer_visited sl) \<and> length (sc_trace sl) = 8 \<and>
     region_fits capacity (sc_region sl) \<and> region_fits capacity (sc_claim_previous_region sl)"

definition issued :: "zipc_slot_control \<Rightarrow> bool" where
  "issued sl \<longleftrightarrow> sc_generation sl \<noteq> 0 \<and> zipc_buffer_id_valid (bi_id (sc_identity sl))"

definition holds :: "zipc_visited_set \<Rightarrow> zipc_component_id \<Rightarrow> bool" where
  "holds visited owner \<longleftrightarrow> zipc_component_id_valid owner \<and> zipc_visited_set_test (Some visited) owner"

definition slot_live :: "zipc_slot_control \<Rightarrow> bool" where
  "slot_live sl \<longleftrightarrow> issued sl \<and> holds (sc_visited sl) (sc_owner_id sl)"

text \<open>What a slot abandoned in \<open>CLAIMING\<close> keeps for the recovery of the operation that its token
  names.\<close>

definition claim_recoverable :: "zipc_slot_control \<Rightarrow> bool" where
  "claim_recoverable sl \<longleftrightarrow>
     (let kind = claim_token_kind (sc_claim_token sl) in
      kind = ZIPC_CLAIM_ALLOCATE \<or>
      kind = ZIPC_CLAIM_RECEIVE \<and> issued sl \<and> holds (sc_transfer_visited sl) (sc_transfer_source_id sl) \<or>
      (kind = ZIPC_CLAIM_SEND \<or> kind = ZIPC_CLAIM_ROLLBACK) \<and> slot_live sl \<or>
      kind = ZIPC_CLAIM_RELEASE \<and> issued sl \<and> holds (sc_visited sl) (sc_claim_previous_owner sl))"

text \<open>What a slot control satisfies between operations.\<close>

definition slot_wf :: "u32 \<Rightarrow> zipc_slot_control \<Rightarrow> bool" where
  "slot_wf capacity sl \<longleftrightarrow>
     slot_shape capacity sl \<and>
     (case sc_state sl of
        ZIPC_SLOT_FREE \<Rightarrow>
          sc_owner_id sl = ZIPC_INVALID_COMPONENT_ID \<and> sc_next_owner_id sl = ZIPC_INVALID_COMPONENT_ID \<and>
          sc_region sl = empty_region
      | ZIPC_SLOT_OWNED \<Rightarrow> slot_live sl \<and> sc_next_owner_id sl = ZIPC_INVALID_COMPONENT_ID
      | ZIPC_SLOT_TRANSFER \<Rightarrow>
          slot_live sl \<and> zipc_component_id_valid (sc_next_owner_id sl) \<and>
          sc_transfer_source_id sl = sc_owner_id sl \<and> sc_transfer_source_epoch sl = sc_owner_epoch sl \<and>
          sc_transfer_hop_count sl = sc_hop_count sl \<and> sc_transfer_visited sl = sc_visited sl \<and>
          sc_transfer_acquired_ns sl = sc_acquired_ns sl
      | ZIPC_SLOT_CLAIMING \<Rightarrow> claim_recoverable sl
      | ZIPC_SLOT_ERROR \<Rightarrow> False)"

text \<open>No operation is under way on the slot.\<close>

definition slot_quiet :: "zipc_slot_control \<Rightarrow> bool" where
  "slot_quiet sl \<longleftrightarrow> sc_claim_token sl = 0 \<and> sc_state sl \<noteq> ZIPC_SLOT_CLAIMING"

definition gens_ready :: "sys \<Rightarrow> bool" where
  "gens_ready s \<longleftrightarrow> list_all (\<lambda>n. gen_ready (sys_gen s (of_nat n))) [1..<255]"

definition pool_shape :: "sys \<Rightarrow> zipc_pool \<Rightarrow> bool" where
  "pool_shape s p \<longleftrightarrow>
     ph_slot_count (hdr s p) \<noteq> 0 \<and> length (ph_components (hdr s p)) = 256 \<and>
     length (shm_controls (sys_shm s (pool_shm_ref p))) = unat (ph_slot_count (hdr s p))"

definition pool_inv :: "sys \<Rightarrow> zipc_pool \<Rightarrow> bool" where
  "pool_inv s p \<longleftrightarrow>
     pool_shape s p \<and> gens_ready s \<and>
     list_all (slot_wf (ph_slot_capacity (hdr s p))) (shm_controls (sys_shm s (pool_shm_ref p)))"

definition pool_quiet :: "sys \<Rightarrow> zipc_pool \<Rightarrow> bool" where
  "pool_quiet s p \<longleftrightarrow> list_all slot_quiet (shm_controls (sys_shm s (pool_shm_ref p)))"

lemma gens_ready_iff: "gens_ready s \<longleftrightarrow> (\<forall>c. zipc_component_id_valid c \<longrightarrow> gen_ready (sys_gen s c))"
proof
  assume l: "gens_ready s"
  show "\<forall>c. zipc_component_id_valid c \<longrightarrow> gen_ready (sys_gen s c)"
  proof (intro allI impI)
    fix c assume "zipc_component_id_valid c"
    then have "unat c \<in> set [1..<255]"
      by (simp add: zipc_component_id_valid_iff)
    with l have "gen_ready (sys_gen s (of_nat (unat c)))"
      unfolding gens_ready_def list_all_iff by blast
    then show "gen_ready (sys_gen s c)" by simp
  qed
next
  assume r: "\<forall>c. zipc_component_id_valid c \<longrightarrow> gen_ready (sys_gen s c)"
  have "zipc_component_id_valid (of_nat n)" if "n \<in> set [1..<255]" for n
    using that by (simp add: zipc_component_id_valid_iff unat_of_nat)
  with r show "gens_ready s"
    by (simp add: gens_ready_def list_all_iff)
qed

lemma slot_ptr_ok_iff: "pool_shape s p \<Longrightarrow> slot_ptr_ok s (slot_ptr p i) \<longleftrightarrow> i < ph_slot_count (hdr s p)"
  by (simp add: slot_ptr_ok_def pool_shape_def word_less_nat_alt)

lemma controls_length_cong:
  assumes "slot_ptr_ok t = slot_ptr_ok s" and "length (shm_controls (sys_shm s r)) < 4294967296"
  shows "length (shm_controls (sys_shm t r)) = length (shm_controls (sys_shm s r))"
proof (rule ccontr)
  let ?m = "length (shm_controls (sys_shm s r))" and ?n = "length (shm_controls (sys_shm t r))"
  assume "?n \<noteq> ?m"
  let ?i = "of_nat (min ?m ?n) :: u32"
  have "unat ?i = min ?m ?n"
    using assms(2) by (simp add: unat_of_nat)
  with \<open>?n \<noteq> ?m\<close> have "slot_ptr_ok t (r, ?i) \<noteq> slot_ptr_ok s (r, ?i)"
    by (auto simp: slot_ptr_ok_def)
  then show False
    using assms(1) by simp
qed

lemma pool_shape_frame:
  assumes "pool_shape s p" "frame C s t"
  shows "pool_shape t p" "ph_slot_count (hdr t p) = ph_slot_count (hdr s p)"
    "ph_slot_capacity (hdr t p) = ph_slot_capacity (hdr s p)"
proof -
  have "length (shm_controls (sys_shm t (pool_shm_ref p))) = length (shm_controls (sys_shm s (pool_shm_ref p)))"
    using assms unat_u32_lt by (intro controls_length_cong) (simp_all add: frame_def pool_shape_def)
  then show "pool_shape t p" "ph_slot_count (hdr t p) = ph_slot_count (hdr s p)"
    "ph_slot_capacity (hdr t p) = ph_slot_capacity (hdr s p)"
    using assms by (auto simp: frame_def pool_shape_def hdr_static_def)
qed

text \<open>A property of all slots, by index or over the list of controls.\<close>

lemma all_slots_iff:
  assumes "pool_shape s p"
  shows "list_all P (shm_controls (sys_shm s (pool_shm_ref p))) \<longleftrightarrow>
    (\<forall>i < ph_slot_count (hdr s p). P (slot_of s (slot_ptr p i)))"
proof -
  let ?n = "unat (ph_slot_count (hdr s p))"
  have "(\<forall>k < ?n. P (shm_controls (sys_shm s (pool_shm_ref p)) ! k)) \<longleftrightarrow>
      (\<forall>i < ph_slot_count (hdr s p). P (slot_of s (slot_ptr p i)))"
  proof (intro iffI allI impI)
    fix i assume "\<forall>k < ?n. P (shm_controls (sys_shm s (pool_shm_ref p)) ! k)" "i < ph_slot_count (hdr s p)"
    then show "P (slot_of s (slot_ptr p i))"
      by (simp add: slot_of_def word_less_nat_alt)
  next
    fix k assume a: "\<forall>i < ph_slot_count (hdr s p). P (slot_of s (slot_ptr p i))" and k: "k < ?n"
    then have u: "unat (of_nat k :: u32) = k"
      using unat_u32_lt [of "ph_slot_count (hdr s p)"] by (simp add: unat_of_nat)
    then have "of_nat k < ph_slot_count (hdr s p)"
      using k by (simp add: word_less_nat_alt)
    with a have "P (slot_of s (slot_ptr p (of_nat k)))" by blast
    then show "P (shm_controls (sys_shm s (pool_shm_ref p)) ! k)"
      by (simp add: slot_of_def u)
  qed
  then show ?thesis
    using assms by (simp add: list_all_length pool_shape_def)
qed

lemma pool_inv_slot:
  "pool_inv s p \<Longrightarrow> i < ph_slot_count (hdr s p) \<Longrightarrow> slot_wf (ph_slot_capacity (hdr s p)) (slot_of s (slot_ptr p i))"
  using all_slots_iff [of s p "slot_wf (ph_slot_capacity (hdr s p))"] by (simp add: pool_inv_def)

lemma pool_quiet_slot:
  "pool_shape s p \<Longrightarrow> pool_quiet s p \<Longrightarrow> i < ph_slot_count (hdr s p) \<Longrightarrow> slot_quiet (slot_of s (slot_ptr p i))"
  by (simp add: pool_quiet_def all_slots_iff)

lemma frame_slot_eq: "frame C s t \<Longrightarrow> c \<notin> C \<Longrightarrow> slot_of t c = slot_of s c"
  unfolding frame_def by blast

lemma all_slots_frame:
  assumes "pool_shape s p" "frame {slot_ptr p i} s t"
    and "list_all P (shm_controls (sys_shm s (pool_shm_ref p)))"
    and "P (slot_of t (slot_ptr p i))"
  shows "list_all P (shm_controls (sys_shm t (pool_shm_ref p)))"
proof -
  have "P (slot_of t (slot_ptr p j))" if "j < ph_slot_count (hdr s p)" for j
  proof (cases "j = i")
    case False
    then have "slot_of t (slot_ptr p j) = slot_of s (slot_ptr p j)"
      by (intro frame_slot_eq [OF assms(2)]) simp
    then show ?thesis
      using assms(1,3) that by (simp add: all_slots_iff)
  qed (simp add: assms(4))
  then show ?thesis
    using pool_shape_frame [OF assms(1,2)] by (simp add: all_slots_iff)
qed

lemma pool_inv_frame:
  assumes "pool_inv s p" "frame {slot_ptr p i} s t" "gens_ready t"
    and "slot_wf (ph_slot_capacity (hdr s p)) (slot_of t (slot_ptr p i))"
  shows "pool_inv t p"
  using assms pool_shape_frame [of s p "{slot_ptr p i}" t]
    all_slots_frame [of s p i t "slot_wf (ph_slot_capacity (hdr s p))"]
  by (simp add: pool_inv_def)

lemma frame_empty: "frame {} s t \<Longrightarrow> frame C s t"
  by (erule frame_mono) simp

lemma pool_inv_unchanged:
  assumes "pool_inv s p" "frame {} s t" "gens_ready t"
  shows "pool_inv t p"
proof -
  have "0 < ph_slot_count (hdr s p)"
    using assms(1) by (simp add: pool_inv_def pool_shape_def word_neq_0_conv)
  then have "slot_wf (ph_slot_capacity (hdr s p)) (slot_of t (slot_ptr p 0))"
    using assms by (simp add: pool_inv_slot frame_slot_eq)
  then show ?thesis
    using assms by (intro pool_inv_frame [of s p 0 t]) (simp_all add: frame_empty)
qed

end
