(* ===== verification/Slot_Protocol.thy ===== *)
theory Slot_Protocol
  imports Slot_Invariant
begin

text \<open>
  What each operation of \<open>Slot_Ops\<close> does, branch by branch: the value it returns, the new value of
  the slot it addresses, and that it touches nothing else. The invariant, the ownership refinement
  and the safety theorems are consequences of these outcome lemmas.
\<close>

lemmas pool_slot_ok = slot_ptr_ok_iff [THEN iffD2]

lemma region_fits_empty [simp]: "region_fits cap empty_region"
  by (simp add: region_fits_def empty_region_def)

lemma slot_shape_add_trace [simp]: "slot_shape cap (add_trace n cm ev sl) \<longleftrightarrow> slot_shape cap sl"
  by (simp add: slot_shape_def)

lemma slot_shape_upd [simp]:
  "slot_shape cap (sl\<lparr>sc_state := st\<rparr>) \<longleftrightarrow> slot_shape cap sl"
  "slot_shape cap (sl\<lparr>sc_claim_token := tok\<rparr>) \<longleftrightarrow> slot_shape cap sl"
  "slot_shape cap (sl\<lparr>sc_claim_previous_sequence := q\<rparr>) \<longleftrightarrow> slot_shape cap sl"
  "slot_shape cap (sl\<lparr>sc_identity := b\<rparr>) \<longleftrightarrow> slot_shape cap sl"
  by (simp_all add: slot_shape_def)

subsection \<open>Allocation\<close>

definition allocated_slot ::
  "zipc_component_id \<Rightarrow> u32 \<Rightarrow> u32 \<Rightarrow> zipc_buffer_id \<Rightarrow> u32 \<Rightarrow> u32 \<Rightarrow> u64 \<Rightarrow> u64 \<Rightarrow> zipc_buffer_id \<Rightarrow>
   zipc_slot_control \<Rightarrow> zipc_slot_control" where
  "allocated_slot a epoch hop parent offset len duration now bid sl =
     (init_allocated_slot a epoch hop parent offset len duration now sl)
       \<lparr>sc_identity := \<lparr>bi_id = bid, bi_parent_id = parent\<rparr>\<rparr>"

lemma init_allocated_slot_simps [simp]:
  "sc_state (init_allocated_slot a e h p off n d now sl) = sc_state sl"
  "sc_claim_token (init_allocated_slot a e h p off n d now sl) = sc_claim_token sl"
  "sc_generation (init_allocated_slot a e h p off n d now sl) = next_generation (sc_generation sl)"
  "sc_identity (init_allocated_slot a e h p off n d now sl) = \<lparr>bi_id = 0, bi_parent_id = p\<rparr>"
  "sc_region (init_allocated_slot a e h p off n d now sl) = \<lparr>rg_offset = off, rg_length = n\<rparr>"
  "sc_owner_id (init_allocated_slot a e h p off n d now sl) = a"
  "sc_owner_epoch (init_allocated_slot a e h p off n d now sl) = e"
  "sc_visited (init_allocated_slot a e h p off n d now sl) = visited_set_add visited_empty a"
  "sc_trace (init_allocated_slot a e h p off n d now sl) = replicate 8 empty_trace_entry"
  "sc_next_owner_id (init_allocated_slot a e h p off n d now sl) = ZIPC_INVALID_COMPONENT_ID"
  by (simp_all add: init_allocated_slot_def)

lemma slot_shape_init:
  "unat off + unat n \<le> unat cap \<Longrightarrow> slot_shape cap (init_allocated_slot a e h p off n d now sl)"
  by (simp add: slot_shape_def init_allocated_slot_def region_fits_def empty_region_def)

lemma next_generation_nonzero [simp]: "next_generation g \<noteq> 0"
  by (simp add: next_generation_def Let_def)

text \<open>The view a component gets of a slot it owns.\<close>

definition slot_view :: "zipc_pool \<Rightarrow> zipc_handle \<Rightarrow> zipc_pool_header \<Rightarrow> zipc_slot_control \<Rightarrow> zipc_buffer" where
  "slot_view p h H sl =
     (let base = pool_payload_base p + ucast (zipc_handle_slot_id h) * ucast (ph_slot_stride H) in
      \<lparr>buf_handle = h, buf_slot_id = zipc_handle_slot_id h,
       buf_control = Some (slot_ptr p (zipc_handle_slot_id h)), buf_slot_base = base,
       buf_data = base + ucast (rg_offset (sc_region sl)), buf_length = rg_length (sc_region sl),
       buf_capacity = ph_slot_capacity H, buf_pool = Some p, buf_owner = sc_owner_id sl,
       buf_local_state = ZIPC_BUFFER_LOCAL_OWNED, buf_owner_epoch = sc_owner_epoch sl,
       buf_pool_id = pool_pool_id p\<rparr>)"

lemma make_view_ok:
  assumes "unat (rg_offset (sc_region (slot_of s (slot_ptr p i)))) +
           unat (rg_length (sc_region (slot_of s (slot_ptr p i)))) \<le> unat (ph_slot_capacity (hdr s p))"
    and "zipc_handle_slot_id h = i"
  shows "make_view p i h b s = (ZIPC_OK, Some (slot_view p h (hdr s p) (slot_of s (slot_ptr p i))))"
  using assms region_word_iff [of "rg_offset (sc_region (slot_of s (slot_ptr p i)))"
      "ph_slot_capacity (hdr s p)" "rg_length (sc_region (slot_of s (slot_ptr p i)))"]
  by (auto simp: make_view_def slot_view_def Let_def not_less)

lemma slot_view_cong:
  "sc_region sl = sc_region sl' \<Longrightarrow> sc_owner_id sl = sc_owner_id sl' \<Longrightarrow>
   sc_owner_epoch sl = sc_owner_epoch sl' \<Longrightarrow> ph_slot_stride H = ph_slot_stride H' \<Longrightarrow>
   ph_slot_capacity H = ph_slot_capacity H' \<Longrightarrow> slot_view p h H sl = slot_view p h H' sl'"
  by (simp add: slot_view_def)

text \<open>Every failure after the slot was claimed puts it back on the free list.\<close>

definition slot_freed :: "zipc_slot_control \<Rightarrow> bool" where
  "slot_freed sl \<longleftrightarrow> sc_state sl = ZIPC_SLOT_FREE \<and> sc_owner_id sl = ZIPC_INVALID_COMPONENT_ID \<and>
     sc_next_owner_id sl = ZIPC_INVALID_COMPONENT_ID \<and> sc_region sl = empty_region \<and>
     sc_claim_token sl = 0"

lemma slot_freed_inv: "slot_freed sl \<Longrightarrow> slot_shape cap sl \<Longrightarrow> slot_wf cap sl \<and> slot_quiet sl"
  by (simp add: slot_freed_def slot_wf_def slot_quiet_def)

lemma slot_shape_freed:
  "slot_shape cap sl \<Longrightarrow>
   slot_shape cap (sl\<lparr>sc_owner_id := o', sc_next_owner_id := n', sc_region := empty_region\<rparr>)"
  by (simp add: slot_shape_def)

lemma allocation_failed_result:
  assumes "slot_ptr_ok s (slot_ptr p i)" "slot_shape cap (slot_of s (slot_ptr p i))"
  obtains t where "allocation_failed p i a r st b s = (st, buffer_invalidate b, t)"
    "frame {slot_ptr p i} s t" "sys_gen t = sys_gen s" "slot_freed (slot_of t (slot_ptr p i))"
    "slot_shape cap (slot_of t (slot_ptr p i))"
    "sc_generation (slot_of t (slot_ptr p i)) = sc_generation (slot_of s (slot_ptr p i))"
proof -
  obtain t where t: "allocation_failed p i a r st b s = (st, buffer_invalidate b, t)"
    by (simp add: allocation_failed_def Let_def)
  have "frame {slot_ptr p i} s t"
    using t by (auto simp: allocation_failed_def Let_def hdr_static_def lifecycles_def
        intro!: slot_frame)
  moreover have "sys_gen t = sys_gen s"
    using t by (auto simp: allocation_failed_def Let_def)
  moreover have "slot_freed (slot_of t (slot_ptr p i))" "slot_shape cap (slot_of t (slot_ptr p i))"
    "sc_generation (slot_of t (slot_ptr p i)) = sc_generation (slot_of s (slot_ptr p i))"
    using t assms by (auto simp: allocation_failed_def Let_def slot_freed_def slot_shape_freed)
  ultimately show thesis
    using that t by blast
qed

definition only_gen :: "zipc_component_id \<Rightarrow> sys \<Rightarrow> sys \<Rightarrow> bool" where
  "only_gen a s t \<longleftrightarrow> (\<forall>c. c \<noteq> a \<longrightarrow> sys_gen t c = sys_gen s c) \<and> gen_ready (sys_gen t a)"

lemma gens_ready_only_gen: "gens_ready s \<Longrightarrow> only_gen a s t \<Longrightarrow> gens_ready t"
  unfolding gens_ready_iff only_gen_def by metis

lemma only_gen_trans: "only_gen a s t \<Longrightarrow> sys_gen u = sys_gen t \<Longrightarrow> only_gen a s u"
  by (simp add: only_gen_def)

text \<open>Publication: the slot becomes owned and the caller gets its view, or it is freed.\<close>

lemma allocate_publish_outcome:
  fixes p i s
  defines "c \<equiv> slot_ptr p i" and "sl \<equiv> slot_of s (slot_ptr p i)"
  assumes ok0: "slot_ptr_ok s c" and tok: "sc_claim_token sl = tok"
    and shp: "slot_shape (ph_slot_capacity (hdr s p)) sl"
  obtains (ok) t n where
      "allocate_publish p a en tok i g b s =
         (ZIPC_OK, Some (slot_view p (zipc_handle_make i g) (hdr s p) (slot_of t c)), t)"
      "frame {c} s t" "sys_gen t = sys_gen s"
      "slot_of t c = (add_trace n a ZIPC_TRACE_ALLOCATE sl)\<lparr>sc_state := ZIPC_SLOT_OWNED, sc_claim_token := 0\<rparr>"
      "hdr t p = (hdr s p)\<lparr>ph_allocation_cursor := (i + 1) mod ph_slot_count (hdr s p),
                          ph_allocation_count := ph_allocation_count (hdr s p) + 1\<rparr>"
    | (fail) st t where
      "allocate_publish p a en tok i g b s = (st, buffer_invalidate b, t)"
      "st \<noteq> ZIPC_OK" "frame {c} s t" "sys_gen t = sys_gen s" "slot_freed (slot_of t c)"
      "slot_shape (ph_slot_capacity (hdr s p)) (slot_of t c)"
      "sc_generation (slot_of t c) = sc_generation sl"
proof -
  obtain st u where pr: "(if en then protect_slot (Some p) i True s else (ZIPC_OK, s)) = (st, u)"
    by fastforce
  then have u: "u = (if en then snd (protect_slot (Some p) i True s) else s)"
    by (cases en) auto
  have fu: "frame {c} s u" and slu: "slot_of u c = sl" and hdu: "hdr u = hdr s"
    and gnu: "sys_gen u = sys_gen s" and oku: "slot_ptr_ok u c"
    using ok0 unfolding u c_def sl_def by (auto intro!: slot_frame)
  show thesis
  proof (cases "st = ZIPC_OK")
    case True
    have vw: "make_view p i (zipc_handle_make i g) b u =
        (ZIPC_OK, Some (slot_view p (zipc_handle_make i g) (hdr s p) sl))"
      using make_view_ok [of u p i _ b] slu shp hdu by (simp add: c_def slot_shape_def region_fits_def)
    let ?t = "upd_hdr p (\<lambda>h. h\<lparr>ph_allocation_cursor := (i + 1) mod ph_slot_count (hdr s p),
                ph_allocation_count := ph_allocation_count h + 1\<rparr>)
              (clear_claim_token c tok (store_state c ZIPC_SLOT_OWNED
                (trace_slot (Some p) i (Some c) a ZIPC_TRACE_ALLOCATE u)))"
    have slt: "slot_of ?t c = (add_trace (sys_clock u (sys_ticks u)) a ZIPC_TRACE_ALLOCATE sl)
        \<lparr>sc_state := ZIPC_SLOT_OWNED, sc_claim_token := 0\<rparr>"
      using oku slu tok by simp
    have "slot_view p (zipc_handle_make i g) (hdr s p) sl = slot_view p (zipc_handle_make i g) (hdr s p) (slot_of ?t c)"
      unfolding slt by (rule slot_view_cong) simp_all
    with pr True vw hdu have "allocate_publish p a en tok i g b s =
        (ZIPC_OK, Some (slot_view p (zipc_handle_make i g) (hdr s p) (slot_of ?t c)), ?t)"
      by (simp add: allocate_publish_def c_def Let_def)
    moreover have "frame {c} s ?t"
      using fu by (intro slot_frame) (simp_all add: hdr_static_def lifecycles_def)
    ultimately show thesis
      using ok [OF _ _ _ slt] gnu hdu by simp
  next
    case False
    have pre: "slot_ptr_ok u (slot_ptr p i)" "slot_shape (ph_slot_capacity (hdr s p)) (slot_of u (slot_ptr p i))"
      using oku slu shp by (simp_all add: c_def)
    show thesis
    proof (rule allocation_failed_result [OF pre, of a True st b])
      fix t assume t: "allocation_failed p i a True st b u = (st, buffer_invalidate b, t)"
        "frame {slot_ptr p i} u t" "sys_gen t = sys_gen u" "slot_freed (slot_of t (slot_ptr p i))"
        "slot_shape (ph_slot_capacity (hdr s p)) (slot_of t (slot_ptr p i))"
        "sc_generation (slot_of t (slot_ptr p i)) = sc_generation (slot_of u (slot_ptr p i))"
      have "allocate_publish p a en tok i g b s = (st, buffer_invalidate b, t)"
        using pr False t(1) by (simp add: allocate_publish_def Let_def)
      then show thesis
        using fail [of st t] False t frame_trans [OF fu, of t] gnu slu by (simp add: c_def)
    qed
  qed
qed

lemma allocate_claimed_outcome:
  fixes p i s
  defines "c \<equiv> slot_ptr p i" and "sl \<equiv> slot_of s (slot_ptr p i)"
  assumes ok0: "slot_ptr_ok s c" and a: "zipc_component_id_valid a"
    and g: "gen_ready (sys_gen s a)" and tok: "sc_claim_token sl = tok"
    and fits: "unat off + unat len \<le> unat (ph_slot_capacity (hdr s p))"
  obtains (ok) t bid now n where
      "allocate_claimed p a parent off len ep hop dur en tok i b s =
         Some (ZIPC_OK, Some (slot_view p (zipc_handle_make i (next_generation (sc_generation sl)))
                                (hdr s p) (slot_of t c)), t)"
      "frame {c} s t" "only_gen a s t" "issued_id a bid"
      "slot_of t c = (add_trace n a ZIPC_TRACE_ALLOCATE
         (allocated_slot a ep hop parent off len dur now bid sl))\<lparr>sc_state := ZIPC_SLOT_OWNED, sc_claim_token := 0\<rparr>"
      "hdr t p = (hdr s p)\<lparr>ph_allocation_cursor := (i + 1) mod ph_slot_count (hdr s p),
                          ph_allocation_count := ph_allocation_count (hdr s p) + 1\<rparr>"
    | (fail) st t where
      "allocate_claimed p a parent off len ep hop dur en tok i b s = Some (st, buffer_invalidate b, t)"
      "st \<noteq> ZIPC_OK" "frame {c} s t" "only_gen a s t" "slot_freed (slot_of t c)"
      "slot_shape (ph_slot_capacity (hdr s p)) (slot_of t c)"
      "sc_generation (slot_of t c) = next_generation (sc_generation sl)"
proof -
  let ?now = "sys_clock s (sys_ticks s)" and ?g = "next_generation (sc_generation sl)"
  define s1 where "s1 = upd_slot c (init_allocated_slot a ep hop parent off len dur ?now) (s\<lparr>sys_ticks := Suc (sys_ticks s)\<rparr>)"
  have s1: "slot_of s1 c = init_allocated_slot a ep hop parent off len dur ?now sl" "gen_ready (sys_gen s1 a)"
    "frame {c} s s1" "sys_gen s1 = sys_gen s" "hdr s1 = hdr s" "slot_ptr_ok s1 c"
    using ok0 g by (auto simp: s1_def sl_def c_def fun_eq_iff intro!: slot_frame)
  have unfold: "allocate_claimed p a parent off len ep hop dur en tok i b s =
      (case generate_buffer_id a True s1 of None \<Rightarrow> None
         | Some (st, bid, u) \<Rightarrow> Some (if st \<noteq> ZIPC_OK then allocation_failed p i a False st b u
             else allocate_publish p a en tok i ?g b
               (upd_slot c (\<lambda>sl. sl\<lparr>sc_identity := (sc_identity sl)\<lparr>bi_id := the bid\<rparr>\<rparr>) u)))"
    using s1(1) by (simp add: allocate_claimed_def c_def [symmetric] zipc_now_ns_def Let_def s1_def
        split: option.split)
  show thesis
  proof (cases rule: generate_buffer_id_returns [OF a s1(2)])
    case (1 bid gen k)
    define s3 where "s3 = upd_slot c (\<lambda>sl. sl\<lparr>sc_identity := (sc_identity sl)\<lparr>bi_id := bid\<rparr>\<rparr>)
      (s1\<lparr>sys_draws := k, sys_gen := (sys_gen s1)(a := gen)\<rparr>)"
    have s3: "slot_of s3 c = allocated_slot a ep hop parent off len dur ?now bid sl" "frame {c} s s3"
      "only_gen a s s3" "hdr s3 = hdr s" "slot_ptr_ok s3 c"
      using s1 1(3) by (auto simp: s3_def allocated_slot_def only_gen_def fun_eq_iff intro!: slot_frame)
    have shp3: "slot_shape (ph_slot_capacity (hdr s p)) (slot_of s3 c)"
      using fits by (simp add: s3(1) allocated_slot_def slot_shape_init)
    have al: "allocate_claimed p a parent off len ep hop dur en tok i b s = Some (allocate_publish p a en tok i ?g b s3)"
      unfolding unfold 1(1) s3_def by simp
    show thesis
    proof (rule allocate_publish_outcome [of s3 p i tok a en ?g b], goal_cases)
      case (4 t n)
      then show thesis
        using ok [of t bid n ?now] al 1(2) s3 frame_trans [OF s3(2), of t] only_gen_trans [OF s3(3), of t]
        by (simp add: c_def)
    next
      case (5 st t)
      then show thesis
        using fail [of st t] al s3 frame_trans [OF s3(2), of t] only_gen_trans [OF s3(3), of t]
        by (simp add: c_def allocated_slot_def)
    qed (use s3 shp3 tok in \<open>simp_all add: c_def allocated_slot_def\<close>)
  next
    case (2 gen k)
    define s2 where "s2 = s1\<lparr>sys_draws := k, sys_gen := (sys_gen s1)(a := gen)\<rparr>"
    have s2: "slot_of s2 c = slot_of s1 c" "frame {c} s s2" "only_gen a s s2" "slot_ptr_ok s2 c"
      using s1 2(2) by (auto simp: s2_def only_gen_def intro!: slot_frame)
    show thesis
    proof (rule allocation_failed_result [of s2 p i "ph_slot_capacity (hdr s p)" a False ZIPC_ERR_ENTROPY_UNAVAILABLE b], goal_cases)
      case (3 t)
      then show thesis
        using fail [of ZIPC_ERR_ENTROPY_UNAVAILABLE t] s1(1) s2 frame_trans [OF s2(2), of t]
          only_gen_trans [OF s2(3), of t] unfold 2(1) by (simp add: c_def s2_def)
    qed (use s2 s1(1) fits in \<open>simp_all add: c_def slot_shape_init\<close>)
  qed
qed

text \<open>The scan takes the first available slot in cyclic order from the cursor.\<close>

definition slot_available :: "zipc_slot_control \<Rightarrow> bool" where
  "slot_available sl \<longleftrightarrow> sc_state sl = ZIPC_SLOT_FREE \<and> sc_claim_token sl = 0"

definition scan_slot :: "sys \<Rightarrow> zipc_pool \<Rightarrow> u32 \<Rightarrow> nat \<Rightarrow> zipc_slot_id" where
  "scan_slot s p start k = (start + of_nat k) mod ph_slot_count (hdr s p)"

definition take_slot :: "slot_ptr \<Rightarrow> u64 \<Rightarrow> sys \<Rightarrow> sys" where
  "take_slot c token = upd_slot c (\<lambda>sl. sl\<lparr>sc_claim_token := token, sc_state := ZIPC_SLOT_CLAIMING\<rparr>)"

lemma take_slot_reads [simp]:
  "slot_ptr_ok s c \<Longrightarrow> slot_of (take_slot c tok s) c =
     (slot_of s c)\<lparr>sc_claim_token := tok, sc_state := ZIPC_SLOT_CLAIMING\<rparr>"
  "c \<noteq> c' \<Longrightarrow> slot_of (take_slot c tok s) c' = slot_of s c'"
  "slot_ptr_ok (take_slot c tok s) = slot_ptr_ok s" "hdr (take_slot c tok s) = hdr s"
  "sys_gen (take_slot c tok s) = sys_gen s" "sys_mem (take_slot c tok s) = sys_mem s"
  by (simp_all add: take_slot_def fun_eq_iff)

lemma frame_take_slot [slot_frame]: "frame C s t \<Longrightarrow> c \<in> C \<Longrightarrow> frame C s (take_slot c tok t)"
  by (simp add: take_slot_def frame_upd_slot)

lemma allocate_scan_outcome:
  assumes "pool_shape s p"
  shows "(\<exists>k. j \<le> k \<and> k < j + r \<and> slot_available (slot_of s (slot_ptr p (scan_slot s p start k))) \<and>
      allocate_scan p a parent off len ep hop dur en tok start (of_nat j) r b s =
        allocate_claimed p a parent off len ep hop dur en tok (scan_slot s p start k) b
          (take_slot (slot_ptr p (scan_slot s p start k)) tok s)) \<or>
    (\<forall>k. j \<le> k \<longrightarrow> k < j + r \<longrightarrow> \<not> slot_available (slot_of s (slot_ptr p (scan_slot s p start k)))) \<and>
      allocate_scan p a parent off len ep hop dur en tok start (of_nat j) r b s =
        Some (ZIPC_ERR_NO_BUFFER, b,
          upd_hdr p (\<lambda>h. h\<lparr>ph_allocation_failure_count := ph_allocation_failure_count h + 1\<rparr>) s)"
proof (induction r arbitrary: j)
  case 0
  then show ?case by simp
next
  case (Suc r)
  let ?c = "slot_ptr p (scan_slot s p start j)"
  have "scan_slot s p start j < ph_slot_count (hdr s p)"
    using assms by (simp add: scan_slot_def pool_shape_def word_less_nat_alt unat_mod word_neq_0_conv)
  then have okc: "slot_ptr_ok s ?c"
    using assms by (simp add: slot_ptr_ok_iff)
  show ?case
  proof (cases "slot_available (slot_of s ?c)")
    case True
    then have "allocate_scan p a parent off len ep hop dur en tok start (of_nat j) (Suc r) b s =
        allocate_claimed p a parent off len ep hop dur en tok (scan_slot s p start j) b (take_slot ?c tok s)"
      using okc by (simp add: Let_def slot_available_def scan_slot_def cas_claim_token_def cas_state_def take_slot_def)
    then show ?thesis
      using True by (intro disjI1 exI [of _ j]) simp
  next
    case False
    then have step: "allocate_scan p a parent off len ep hop dur en tok start (of_nat j) (Suc r) b s =
        allocate_scan p a parent off len ep hop dur en tok start (of_nat (Suc j)) r b s"
      by (auto simp: Let_def slot_available_def scan_slot_def cas_claim_token_def add.commute)
    from Suc.IH [of "Suc j"] show ?thesis
      unfolding step
    proof (elim disjE exE conjE, goal_cases)
      case (1 k)
      then show ?case by (intro disjI1 exI [of _ k]) simp
    next
      case 2
      then have "\<not> slot_available (slot_of s (slot_ptr p (scan_slot s p start k)))"
        if "j \<le> k" "k < j + Suc r" for k
        using that False by (cases "k = j") simp_all
      with 2 show ?case by blast
    qed
  qed
qed

text \<open>The cyclic scan covers every slot.\<close>

lemma scan_slot_surj:
  assumes "pool_shape s p" "unat (ph_slot_count (hdr s p)) \<le> 2 ^ 31"
    and "start < ph_slot_count (hdr s p)" "i < ph_slot_count (hdr s p)"
  obtains k where "k < unat (ph_slot_count (hdr s p))" "scan_slot s p start k = i"
proof -
  let ?n = "unat (ph_slot_count (hdr s p))"
  let ?k = "(unat i + ?n - unat start) mod ?n"
  have lt: "unat start < ?n" "unat i < ?n"
    using assms by (simp_all add: word_less_nat_alt)
  then have k: "?k < ?n" by simp
  have "unat (start + of_nat ?k :: u32) = unat start + ?k"
  proof -
    have "unat start + ?k < 4294967296"
      using add_strict_mono [OF lt(1) k] assms(2) by simp
    then show ?thesis
      using k unat_u32_lt [of "ph_slot_count (hdr s p)"]
      by (simp add: unat_word_ariths unat_of_nat take_bit_eq_mod)
  qed
  moreover have "(unat start + ?k) mod ?n = unat i"
    using lt by (simp add: mod_add_right_eq)
  ultimately have "unat (scan_slot s p start ?k) = unat i"
    by (simp add: scan_slot_def unat_mod)
  then show thesis
    using that k by (simp add: word_unat_eq_iff)
qed

subsection \<open>Refused operations\<close>

text \<open>The part of a slot the protocol depends on: everything but the trace ring, the saved
  \<open>claim_previous\<close> fields and the claim token.\<close>

definition slot_core :: "zipc_slot_control \<Rightarrow> zipc_slot_control" where
  "slot_core sl = sl\<lparr>sc_trace := [], sc_trace_count := 0, sc_claim_token := 0,
     sc_claim_previous_sequence := 0, sc_claim_previous_region := empty_region,
     sc_claim_previous_owner := 0, sc_claim_previous_owner_epoch := 0\<rparr>"

definition same_slot :: "zipc_slot_control \<Rightarrow> zipc_slot_control \<Rightarrow> bool" where
  "same_slot sl sl' \<longleftrightarrow> slot_core sl' = slot_core sl \<and> length (sc_trace sl') = length (sc_trace sl) \<and>
     (sc_claim_token sl' = sc_claim_token sl \<or> sc_claim_token sl' = 0) \<and>
     (sc_claim_previous_region sl' = sc_claim_previous_region sl \<or> sc_claim_previous_region sl' = sc_region sl) \<and>
     (sc_state sl = ZIPC_SLOT_CLAIMING \<longrightarrow> sl' = sl)"

lemma same_slot_refl [simp]: "same_slot sl sl"
  by (simp add: same_slot_def)

lemma slot_core_fields:
  assumes "slot_core sl' = slot_core sl"
  shows "sc_state sl' = sc_state sl" "sc_generation sl' = sc_generation sl"
    "sc_owner_id sl' = sc_owner_id sl" "sc_next_owner_id sl' = sc_next_owner_id sl"
    "sc_owner_epoch sl' = sc_owner_epoch sl" "sc_hop_count sl' = sc_hop_count sl"
    "sc_visited sl' = sc_visited sl" "sc_identity sl' = sc_identity sl" "sc_region sl' = sc_region sl"
    "sc_transfer_sequence sl' = sc_transfer_sequence sl"
    "sc_acquired_ns sl' = sc_acquired_ns sl" "sc_transfer_source_id sl' = sc_transfer_source_id sl"
    "sc_transfer_source_epoch sl' = sc_transfer_source_epoch sl"
    "sc_transfer_hop_count sl' = sc_transfer_hop_count sl"
    "sc_transfer_acquired_ns sl' = sc_transfer_acquired_ns sl"
    "sc_transfer_visited sl' = sc_transfer_visited sl"
    "sc_transfer_link_id sl' = sc_transfer_link_id sl" "sc_recovery_count sl' = sc_recovery_count sl"
    "sc_deadline_ns sl' = sc_deadline_ns sl" "sc_hop_limit sl' = sc_hop_limit sl"
  using assms unfolding slot_core_def by (cases sl; cases sl'; simp)+

lemma same_slot_shape:
  assumes "same_slot sl sl'" "slot_shape cap sl"
  shows "slot_shape cap sl'"
proof -
  from assms(1) have "slot_core sl' = slot_core sl" "length (sc_trace sl') = length (sc_trace sl)"
    by (simp_all add: same_slot_def)
  note eqs = slot_core_fields [OF this(1)] this(2)
  show ?thesis
    using assms by (auto simp: slot_shape_def same_slot_def eqs)
qed

lemma same_slot_wf:
  assumes "same_slot sl sl'" "slot_wf cap sl"
  shows "slot_wf cap sl'"
proof (cases "sc_state sl = ZIPC_SLOT_CLAIMING")
  case True
  then show ?thesis
    using assms by (simp add: same_slot_def)
next
  case False
  from assms(1) have "slot_core sl' = slot_core sl"
    by (simp add: same_slot_def)
  note eqs = slot_core_fields [OF this]
  have "slot_shape cap sl'"
    using assms by (auto simp: slot_wf_def intro: same_slot_shape)
  then show ?thesis
    using assms(2) False unfolding slot_wf_def slot_live_def issued_def eqs
    by (auto split: zipc_slot_state.splits)
qed

lemma same_slot_quiet:
  assumes "same_slot sl sl'" "slot_quiet sl"
  shows "slot_quiet sl'"
proof -
  from assms(1) have "slot_core sl' = slot_core sl" by (simp add: same_slot_def)
  note eqs = slot_core_fields [OF this]
  show ?thesis
    using assms by (auto simp: slot_quiet_def same_slot_def eqs)
qed

lemma slot_core_simps [simp]:
  "slot_core (add_trace n cm ev sl) = slot_core sl"
  "slot_core (sl\<lparr>sc_claim_token := tok\<rparr>) = slot_core sl"
  "slot_core (sl\<lparr>sc_claim_previous_sequence := q\<rparr>) = slot_core sl"
  by (simp_all add: slot_core_def add_trace_def)

lemma slot_core_state [simp]: "slot_core (sl\<lparr>sc_state := st\<rparr>) = (slot_core sl)\<lparr>sc_state := st\<rparr>"
  by (simp add: slot_core_def)

lemma slot_core_state_id: "sc_state sl = st \<Longrightarrow> (slot_core sl)\<lparr>sc_state := st\<rparr> = slot_core sl"
  by (cases sl) (simp add: slot_core_def)

definition untouched :: "slot_ptr \<Rightarrow> sys \<Rightarrow> sys \<Rightarrow> bool" where
  "untouched c s t \<longleftrightarrow> frame {c} s t \<and> sys_gen t = sys_gen s \<and> same_slot (slot_of s c) (slot_of t c)"

lemma untouched_refl [simp]: "untouched c s s"
  by (simp add: untouched_def)

lemma untouched_error [simp]: "untouched c s (record_protocol_error p None cm s)"
  by (simp add: untouched_def slot_frame)

lemma same_slot_trans:
  assumes "same_slot a b" "same_slot b d"
  shows "same_slot a d"
proof -
  have core: "slot_core b = slot_core a" using assms by (simp add: same_slot_def)
  show ?thesis
    using assms slot_core_fields(1,9) [OF core] by (auto simp: same_slot_def)
qed

lemma untouched_trans: "untouched c s t \<Longrightarrow> untouched c t u \<Longrightarrow> untouched c s u"
  unfolding untouched_def by (auto elim: frame_trans same_slot_trans)

text \<open>Backing out of a claim restores the slot.\<close>

lemma untouched_back_out:
  assumes "slot_ptr_ok s c" "frame {c} s t" "sys_gen t = sys_gen s" "sc_state (slot_of s c) = st"
    and "slot_core (slot_of t c) = slot_core ((slot_of s c)\<lparr>sc_state := st'\<rparr>)"
    and "length (sc_trace (slot_of t c)) = length (sc_trace (slot_of s c))"
    and "sc_claim_token (slot_of t c) = tok" "st \<noteq> ZIPC_SLOT_CLAIMING"
    and "sc_claim_previous_region (slot_of t c) \<in> {sc_claim_previous_region (slot_of s c), sc_region (slot_of s c)}"
  shows "untouched c s (back_out c st tok t)"
proof -
  have "slot_ptr_ok t c"
    using assms(1,2) by (simp add: frame_def)
  moreover have "(slot_core (slot_of t c))\<lparr>sc_state := st\<rparr> = slot_core (slot_of s c)"
    using assms(4,5) by (simp add: slot_core_state_id)
  ultimately show ?thesis
    using assms by (simp add: untouched_def same_slot_def slot_frame)
qed

subsection \<open>Transfer preparation\<close>

definition deadline_open :: "u64 \<Rightarrow> zipc_slot_control \<Rightarrow> bool" where
  "deadline_open now sl \<longleftrightarrow> sc_deadline_ns sl = ZIPC_DEADLINE_NONE \<or> now \<le> sc_deadline_ns sl"

definition hops_left :: "zipc_slot_control \<Rightarrow> bool" where
  "hops_left sl \<longleftrightarrow> sc_hop_limit sl = ZIPC_HOP_LIMIT_UNLIMITED \<or> sc_hop_count sl < sc_hop_limit sl"

definition owned_by :: "sys \<Rightarrow> zipc_pool \<Rightarrow> zipc_handle \<Rightarrow> zipc_component_id \<Rightarrow> bool" where
  "owned_by s p h c \<longleftrightarrow>
     zipc_handle_slot_id h < ph_slot_count (hdr s p) \<and> zipc_component_id_valid c \<and>
     (let sl = slot_of s (slot_ptr p (zipc_handle_slot_id h)) in
      sc_state sl = ZIPC_SLOT_OWNED \<and> sc_generation sl = zipc_handle_generation h \<and>
      sc_owner_id sl = c \<and> sc_owner_epoch sl = registered_epoch s (Some p) c)"

definition transfer_message ::
  "zipc_pool \<Rightarrow> zipc_handle \<Rightarrow> zipc_component_id \<Rightarrow> zipc_component_id \<Rightarrow> u32 \<Rightarrow> zipc_message" where
  "transfer_message p h src dst seq =
     \<lparr>msg_handle = h, msg_pool_id = pool_pool_id p, msg_source_component = src,
      msg_destination_component = dst, msg_transfer_sequence = seq, msg_flags = 0\<rparr>"

lemma prepare_claimed_outcome:
  fixes h p s u
  defines "i \<equiv> zipc_handle_slot_id h"
  defines "c \<equiv> slot_ptr p i" and "sl \<equiv> slot_of s (slot_ptr p i)"
  assumes ok0: "slot_ptr_ok s c" and fr: "frame {c} s u" "sys_gen u = sys_gen s"
    and st: "sc_state sl = ZIPC_SLOT_OWNED" "sc_generation sl = zipc_handle_generation h"
      "sc_owner_id sl = src" "sc_owner_epoch sl = ep"
    and u: "slot_of u c = sl\<lparr>sc_claim_previous_sequence := q, sc_claim_token := tok, sc_state := ZIPC_SLOT_CLAIMING\<rparr>"
  obtains (ok) t n where
      "prepare_claimed p h src dst link ep tok u =
         (ZIPC_OK, Some (transfer_message p h src dst (sc_transfer_sequence sl + 1)), t)"
      "frame {c} s t" "sys_gen t = sys_gen s" "hdr t = hdr u"
      "deadline_open (sys_clock u (sys_ticks u)) sl" "hops_left sl"
      "slot_of t c = (add_trace n src ZIPC_TRACE_SEND (transfer_fields src dst link
          (sl\<lparr>sc_claim_previous_sequence := q\<rparr>)))\<lparr>sc_state := ZIPC_SLOT_TRANSFER, sc_claim_token := 0\<rparr>"
    | (refused) e t where "prepare_claimed p h src dst link ep tok u = (e, None, t)"
      "e \<noteq> ZIPC_OK" "untouched c s t"
      "pool_flags p AND ZIPC_POOL_F_STRICT_OWNERSHIP = 0 \<Longrightarrow>
         \<not> (deadline_open (sys_clock u (sys_ticks u)) sl \<and> hops_left sl)"
proof -
  let ?now = "sys_clock u (sys_ticks u)"
  define u1 where "u1 = u\<lparr>sys_ticks := Suc (sys_ticks u)\<rparr>"
  have u1: "slot_of u1 = slot_of u" "frame {c} s u1" "sys_gen u1 = sys_gen s" "slot_ptr_ok u1 c" "hdr u1 = hdr u"
    using fr ok0 by (auto simp: u1_def frame_def)
  obtain e u2 where pr: "protect_slot (Some p) i False u1 = (e, u2)" by fastforce
  have "u2 = snd (protect_slot (Some p) i False u1)" using pr by simp
  then have u2: "slot_of u2 = slot_of u" "frame {c} s u2" "sys_gen u2 = sys_gen s" "slot_ptr_ok u2 c" "hdr u2 = hdr u"
    using u1 by (simp_all add: slot_frame)
  have bo: "untouched c s (back_out c ZIPC_SLOT_OWNED tok (record_protocol_error p (Some c) src v))"
    if "slot_of v = slot_of u" "frame {c} s v" "sys_gen v = sys_gen s" "slot_ptr_ok v c" for v
    using that ok0 u st(1) unfolding sl_def c_def [symmetric]
    by (intro untouched_back_out [where st' = ZIPC_SLOT_CLAIMING]) (auto intro!: slot_frame)
  have chk: "(\<not> deadline_open ?now sl) = (sc_deadline_ns sl \<noteq> ZIPC_DEADLINE_NONE \<and> ?now > sc_deadline_ns sl)"
    "(\<not> hops_left sl) = (sc_hop_limit sl \<noteq> ZIPC_HOP_LIMIT_UNLIMITED \<and> sc_hop_count sl \<ge> sc_hop_limit sl)"
    by (auto simp: deadline_open_def hops_left_def)
  have unf: "prepare_claimed p h src dst link ep tok u =
     (if \<not> deadline_open ?now sl then (ZIPC_ERR_DEADLINE, None, back_out c ZIPC_SLOT_OWNED tok (record_protocol_error p (Some c) src u1))
      else if \<not> hops_left sl then (ZIPC_ERR_HOP_LIMIT, None, back_out c ZIPC_SLOT_OWNED tok (record_protocol_error p (Some c) src u1))
      else if e \<noteq> ZIPC_OK then (e, None, back_out c ZIPC_SLOT_OWNED tok (record_protocol_error p (Some c) src u2))
      else (ZIPC_OK, Some (transfer_message p h src dst (sc_transfer_sequence sl + 1)),
        back_out c ZIPC_SLOT_TRANSFER tok
          (trace_slot (Some p) i (Some c) src ZIPC_TRACE_SEND (upd_slot c (transfer_fields src dst link) u2))))"
    unfolding chk using st u pr u1(1) u2(1,4)
    by (simp add: prepare_claimed_def zipc_now_ns_def Let_def i_def [symmetric] c_def [symmetric] u1_def [symmetric]
        transfer_message_def transfer_fields_def)
  consider "\<not> deadline_open ?now sl" | "deadline_open ?now sl" "\<not> hops_left sl"
    | "deadline_open ?now sl" "hops_left sl" "e \<noteq> ZIPC_OK"
    | "deadline_open ?now sl" "hops_left sl" "e = ZIPC_OK" by blast
  then show thesis
  proof cases
    case 3
    moreover have "pool_flags p AND ZIPC_POOL_F_STRICT_OWNERSHIP \<noteq> 0"
      using 3 pr by (auto simp: protect_slot_def)
    ultimately show thesis
      using refused unf bo [OF u2(1-4)] by simp
  next
    case 4
    let ?t = "back_out c ZIPC_SLOT_TRANSFER tok
          (trace_slot (Some p) i (Some c) src ZIPC_TRACE_SEND (upd_slot c (transfer_fields src dst link) u2))"
    have "slot_of ?t c = (add_trace (sys_clock u2 (sys_ticks u2)) src ZIPC_TRACE_SEND (transfer_fields src dst link
          (sl\<lparr>sc_claim_previous_sequence := q\<rparr>)))\<lparr>sc_state := ZIPC_SLOT_TRANSFER, sc_claim_token := 0\<rparr>"
      using u u2(1,4) by (simp add: transfer_fields_def add_trace_def)
    moreover have "frame {c} s ?t"
      using u2 by (intro slot_frame) simp_all
    moreover have "hdr ?t = hdr u" "sys_gen ?t = sys_gen s"
      using u2 by (simp_all add: fun_eq_iff)
    moreover have "prepare_claimed p h src dst link ep tok u =
        (ZIPC_OK, Some (transfer_message p h src dst (sc_transfer_sequence sl + 1)), ?t)"
      using 4 unf by simp
    ultimately show thesis
      using ok 4(1,2) by blast
  qed (use refused unf bo [OF u1(1-4)] in simp_all)
qed

text \<open>The conditions under which a send goes through (pages permitting).\<close>

definition send_ready :: "sys \<Rightarrow> zipc_pool \<Rightarrow> zipc_handle \<Rightarrow> zipc_component_id \<Rightarrow> zipc_component_id \<Rightarrow> bool" where
  "send_ready s p h src dst \<longleftrightarrow>
     owned_by s p h src \<and> zipc_component_id_valid dst \<and>
     (let sl = slot_of s (slot_ptr p (zipc_handle_slot_id h)) in
      sc_claim_token sl = 0 \<and> deadline_open (sys_clock s (sys_ticks s)) sl \<and> hops_left sl)"

lemma untouched_save_sequence:
  "slot_ptr_ok s c \<Longrightarrow> sc_state (slot_of s c) \<noteq> ZIPC_SLOT_CLAIMING \<Longrightarrow> untouched c s (upd_slot c (\<lambda>sl. sl\<lparr>sc_claim_previous_sequence := q sl\<rparr>) s)"
  by (simp add: untouched_def same_slot_def slot_frame slot_core_def)

lemma prepare_outcome:
  fixes h p s
  defines "c \<equiv> slot_ptr p (zipc_handle_slot_id h)"
  defines "sl \<equiv> slot_of s c"
  assumes shape: "pool_shape s p"
  obtains (ok) t n where
      "buffer_prepare_transfer_internal (Some p) h src dst link mo s =
         (ZIPC_OK, Some (transfer_message p h src dst (sc_transfer_sequence sl + 1)), t)"
      "mo" "send_ready s p h src dst" "frame {c} s t" "sys_gen t = sys_gen s" "hdr t p = hdr s p"
      "slot_of t c = (add_trace n src ZIPC_TRACE_SEND (transfer_fields src dst link
          (sl\<lparr>sc_claim_previous_sequence := sc_transfer_sequence sl\<rparr>)))\<lparr>sc_state := ZIPC_SLOT_TRANSFER, sc_claim_token := 0\<rparr>"
    | (refused) e t where "buffer_prepare_transfer_internal (Some p) h src dst link mo s = (e, None, t)"
      "e \<noteq> ZIPC_OK" "untouched c s t"
      "pool_flags p AND ZIPC_POOL_F_STRICT_OWNERSHIP = 0 \<Longrightarrow> mo \<Longrightarrow> \<not> send_ready s p h src dst"
proof -
  let ?r = "buffer_prepare_transfer_internal (Some p) h src dst link mo s"
  let ?ep = "registered_epoch s (Some p) src"
  let ?tok = "claim_token_make ZIPC_CLAIM_SEND src ?ep"
  let ?s1 = "upd_slot c (\<lambda>sl. sl\<lparr>sc_claim_previous_sequence := sc_transfer_sequence sl\<rparr>) s"
  consider "mo" "owned_by s p h src" "zipc_component_id_valid dst" "sc_claim_token sl = 0"
    | "mo" "owned_by s p h src" "zipc_component_id_valid dst" "sc_claim_token sl \<noteq> 0"
    | "\<not> mo \<or> \<not> owned_by s p h src \<or> \<not> zipc_component_id_valid dst" by blast
  then show thesis
  proof cases
    case 1
    have ok0: "slot_ptr_ok s c"
      using 1 shape by (simp add: owned_by_def c_def slot_ptr_ok_iff)
    define u where "u = upd_slot c (\<lambda>sl. sl\<lparr>sc_claim_previous_sequence := sc_transfer_sequence sl,
        sc_claim_token := ?tok, sc_state := ZIPC_SLOT_CLAIMING\<rparr>) s"
    have u: "slot_of u c = sl\<lparr>sc_claim_previous_sequence := sc_transfer_sequence sl, sc_claim_token := ?tok,
        sc_state := ZIPC_SLOT_CLAIMING\<rparr>" "frame {c} s u" "sys_gen u = sys_gen s" "hdr u = hdr s"
      "sys_clock u = sys_clock s" "sys_ticks u = sys_ticks s"
      using ok0 by (simp_all add: u_def sl_def slot_frame fun_eq_iff)
    have r: "?r = prepare_claimed p h src dst link ?ep ?tok u"
      using 1 ok0 by (simp add: buffer_prepare_transfer_internal_def owned_by_def Let_def c_def [symmetric]
          sl_def cas_claim_token_def cas_state_def u_def flip: not_le)
    show thesis
    proof (rule prepare_claimed_outcome [where s = s and p = p and h = h and u = u and src = src and ep = ?ep
        and q = "sc_transfer_sequence sl" and tok = ?tok and dst = dst and link = link], goal_cases)
      case (9 t n)
      then show thesis
        using ok [of t n] 1 r u by (simp add: c_def sl_def send_ready_def Let_def)
    next
      case (10 e t)
      have "\<not> send_ready s p h src dst" if "pool_flags p AND ZIPC_POOL_F_STRICT_OWNERSHIP = 0"
        using 10(4) [OF that] u by (auto simp: send_ready_def Let_def c_def)
      then show thesis
        using refused [of e t] r 10 by (simp add: c_def)
    qed (use 1 ok0 u in \<open>simp_all add: c_def sl_def owned_by_def Let_def\<close>)
  next
    case 2
    then have "?r = (ZIPC_ERR_INVALID_STATE, None, ?s1)" and ok0: "slot_ptr_ok s c"
      using shape by (auto simp: buffer_prepare_transfer_internal_def owned_by_def Let_def slot_ptr_ok_iff c_def
          sl_def cas_claim_token_def)
    then show thesis
      using refused [of ZIPC_ERR_INVALID_STATE ?s1] 2 untouched_save_sequence [OF ok0]
      by (simp add: send_ready_def owned_by_def Let_def c_def sl_def)
  next
    case 3
    then have "fst ?r \<noteq> ZIPC_OK" "fst (snd ?r) = None"
      "snd (snd ?r) = s \<or> snd (snd ?r) = record_protocol_error p None src s"
      by (simp_all add: buffer_prepare_transfer_internal_def owned_by_def Let_def not_le) blast+
    then show thesis
      using refused [of "fst ?r" "snd (snd ?r)"] 3 by (cases ?r) (auto simp: send_ready_def)
  qed
qed

subsection \<open>Claim\<close>

definition claim_matches :: "zipc_slot_control \<Rightarrow> zipc_message \<Rightarrow> zipc_component_id \<Rightarrow> u64 \<Rightarrow> bool" where
  "claim_matches sl m r now \<longleftrightarrow>
     sc_generation sl = zipc_handle_generation (msg_handle m) \<and>
     sc_owner_id sl = msg_source_component m \<and> sc_next_owner_id sl = r \<and>
     sc_transfer_sequence sl = msg_transfer_sequence m \<and> deadline_open now sl \<and> hops_left sl"

lemma claim_publish_outcome:
  fixes c p m u r ep now tok b
  defines "v \<equiv> upd_slot c (receive_fields r ep now) u"
  defines "res \<equiv> claim_publish p m r ep now tok b u"
  assumes c: "c = slot_ptr p (zipc_handle_slot_id (msg_handle m))" and ok0: "slot_ptr_ok u c"
    and fits: "slot_shape (ph_slot_capacity (hdr u p)) (slot_of u c)" and tok: "sc_claim_token (slot_of u c) = tok"
  obtains (ok) t n where
      "res = (ZIPC_OK, Some (slot_view p (msg_handle m) (hdr u p) (slot_of t c)), t)"
      "frame {c} u t" "sys_gen t = sys_gen u" "hdr t p = hdr u p"
      "slot_of t c = (add_trace n r ZIPC_TRACE_RECEIVE (receive_fields r ep now (slot_of u c)))
         \<lparr>sc_state := ZIPC_SLOT_OWNED, sc_claim_token := 0\<rparr>"
    | (dropped) e t where "res = (e, buffer_invalidate b, t)" "e \<noteq> ZIPC_OK"
      "pool_flags p AND ZIPC_POOL_F_STRICT_OWNERSHIP \<noteq> 0"
      "frame {c} u t" "sys_gen t = sys_gen u" "slot_freed (slot_of t c)"
      "sc_generation (slot_of t c) = sc_generation (slot_of u c)"
      "slot_shape (ph_slot_capacity (hdr u p)) (slot_of t c)"
proof -
  let ?i = "zipc_handle_slot_id (msg_handle m)"
  have v: "slot_of v c = receive_fields r ep now (slot_of u c)" "frame {c} u v" "sys_gen v = sys_gen u"
    "hdr v = hdr u" "slot_ptr_ok v c"
    using ok0 by (simp_all add: v_def slot_frame fun_eq_iff)
  obtain e w where pr: "protect_slot (Some p) ?i True v = (e, w)" by fastforce
  have "w = snd (protect_slot (Some p) ?i True v)" using pr by simp
  then have w: "slot_of w c = receive_fields r ep now (slot_of u c)" "frame {c} u w" "sys_gen w = sys_gen u"
    "hdr w = hdr u" "slot_ptr_ok w c"
    using v by (simp_all add: slot_frame)
  show thesis
  proof (cases "e = ZIPC_OK")
    case True
    let ?t = "back_out c ZIPC_SLOT_OWNED tok (trace_slot (Some p) ?i (Some c) r ZIPC_TRACE_RECEIVE w)"
    have slt: "slot_of ?t c = (add_trace (sys_clock w (sys_ticks w)) r ZIPC_TRACE_RECEIVE
        (receive_fields r ep now (slot_of u c)))\<lparr>sc_state := ZIPC_SLOT_OWNED, sc_claim_token := 0\<rparr>"
      using w tok by (simp add: receive_fields_def)
    have vw: "make_view p ?i (msg_handle m) b w =
        (ZIPC_OK, Some (slot_view p (msg_handle m) (hdr u p) (slot_of w c)))"
      using make_view_ok [of w p ?i "msg_handle m" b] w fits
      by (simp add: c receive_fields_def slot_shape_def region_fits_def)
    have "slot_view p (msg_handle m) (hdr u p) (slot_of w c) = slot_view p (msg_handle m) (hdr u p) (slot_of ?t c)"
      unfolding slt w(1) by (rule slot_view_cong) simp_all
    with pr True vw have "res = (ZIPC_OK, Some (slot_view p (msg_handle m) (hdr u p) (slot_of ?t c)), ?t)"
      by (simp add: res_def claim_publish_def v_def c Let_def)
    moreover have "frame {c} u ?t"
      using w by (intro slot_frame) simp_all
    ultimately show thesis
      using ok [OF _ _ _ _ slt] w by simp
  next
    case False
    let ?t = "free_claiming_slot c (record_protocol_error p (Some c) r w)"
    have "res = (e, buffer_invalidate b, ?t)"
      using pr False by (simp add: res_def claim_publish_def v_def c Let_def)
    moreover have "pool_flags p AND ZIPC_POOL_F_STRICT_OWNERSHIP \<noteq> 0"
      using pr False by (auto simp: protect_slot_def)
    moreover have "frame {c} u ?t"
      using w by (intro slot_frame) simp_all
    ultimately show thesis
      using dropped False w fits by (simp add: slot_freed_def receive_fields_def slot_shape_def)
  qed
qed

definition claim_ready :: "sys \<Rightarrow> zipc_pool \<Rightarrow> zipc_message \<Rightarrow> zipc_component_id \<Rightarrow> bool" where
  "claim_ready s p m r \<longleftrightarrow>
     zipc_component_id_valid r \<and> msg_pool_id m = pool_pool_id p \<and> msg_destination_component m = r \<and>
     zipc_handle_slot_id (msg_handle m) < ph_slot_count (hdr s p) \<and>
     (let sl = slot_of s (slot_ptr p (zipc_handle_slot_id (msg_handle m))) in
      sc_state sl = ZIPC_SLOT_TRANSFER \<and>
      (sc_claim_token sl = 0 \<or> claim_token_kind (sc_claim_token sl) = ZIPC_CLAIM_SEND) \<and>
      claim_matches sl m r (sys_clock s (sys_ticks s)))"

definition claim_addressed :: "sys \<Rightarrow> zipc_pool \<Rightarrow> zipc_message \<Rightarrow> zipc_component_id \<Rightarrow> bool" where
  "claim_addressed s p m r \<longleftrightarrow>
     zipc_component_id_valid r \<and> msg_pool_id m = pool_pool_id p \<and> msg_destination_component m = r \<and>
     zipc_handle_slot_id (msg_handle m) < ph_slot_count (hdr s p) \<and>
     (let sl = slot_of s (slot_ptr p (zipc_handle_slot_id (msg_handle m))) in
      sc_state sl = ZIPC_SLOT_TRANSFER \<and>
      (sc_claim_token sl = 0 \<or> claim_token_kind (sc_claim_token sl) = ZIPC_CLAIM_SEND))"

lemma claim_ready_iff:
  "claim_ready s p m r \<longleftrightarrow> claim_addressed s p m r \<and>
     claim_matches (slot_of s (slot_ptr p (zipc_handle_slot_id (msg_handle m)))) m r (sys_clock s (sys_ticks s))"
  by (auto simp: claim_ready_def claim_addressed_def Let_def)

text \<open>A message that does not lead to a claim is refused, leaving the slot as it was.\<close>

lemma claim_not_addressed:
  assumes "\<not> claim_addressed s p m r"
  shows "\<exists>e. zipc_buffer_claim (Some p) (Some m) r (Some b) s = (e, Some b, s) \<and> e \<noteq> ZIPC_OK \<or>
     zipc_buffer_claim (Some p) (Some m) r (Some b) s = (e, Some b, record_protocol_error p None r s) \<and> e \<noteq> ZIPC_OK"
  using assms
  by (simp add: claim_addressed_def zipc_buffer_claim_def claim_take_token_def Let_def not_le
      cas_claim_token_def split: prod.split) blast

lemma claim_addressed_unfold:
  fixes p m s r
  defines "c \<equiv> slot_ptr p (zipc_handle_slot_id (msg_handle m))"
    and "ep \<equiv> registered_epoch s (Some p) r"
  defines "tok \<equiv> claim_token_make ZIPC_CLAIM_RECEIVE r ep"
  assumes "pool_shape s p" "claim_addressed s p m r"
  shows "zipc_buffer_claim (Some p) (Some m) r (Some b) s =
    claim_claimed p m r ep tok (Some b) (take_slot c tok s)"
proof -
  have "slot_ptr_ok s c"
    using assms(4,5) by (simp add: c_def slot_ptr_ok_iff claim_addressed_def)
  then show ?thesis
    using assms(5) unfolding tok_def ep_def
    by (auto simp: zipc_buffer_claim_def claim_addressed_def claim_take_token_def cas_claim_token_def
        cas_state_def take_slot_def c_def [symmetric] Let_def)
qed

lemma claim_outcome:
  fixes p m s
  defines "c \<equiv> slot_ptr p (zipc_handle_slot_id (msg_handle m))"
  defines "sl \<equiv> slot_of s c"
  assumes inv: "pool_inv s p"
  obtains (ok) t n where
      "zipc_buffer_claim (Some p) (Some m) r (Some b) s =
         (ZIPC_OK, Some (slot_view p (msg_handle m) (hdr s p) (slot_of t c)), t)"
      "claim_ready s p m r" "frame {c} s t" "sys_gen t = sys_gen s" "hdr t p = hdr s p"
      "slot_of t c = (add_trace n r ZIPC_TRACE_RECEIVE
          (receive_fields r (registered_epoch s (Some p) r) (sys_clock s (sys_ticks s)) sl))
         \<lparr>sc_state := ZIPC_SLOT_OWNED, sc_claim_token := 0\<rparr>"
    | (dropped) e t where "zipc_buffer_claim (Some p) (Some m) r (Some b) s = (e, Some buffer_zero, t)" "e \<noteq> ZIPC_OK"
      "claim_ready s p m r" "pool_flags p AND ZIPC_POOL_F_STRICT_OWNERSHIP \<noteq> 0"
      "frame {c} s t" "sys_gen t = sys_gen s" "slot_freed (slot_of t c)"
      "sc_generation (slot_of t c) = sc_generation sl"
      "slot_shape (ph_slot_capacity (hdr s p)) (slot_of t c)"
    | (refused) e t where "zipc_buffer_claim (Some p) (Some m) r (Some b) s = (e, Some b, t)" "e \<noteq> ZIPC_OK"
      "untouched c s t" "\<not> claim_ready s p m r"
proof (cases "claim_addressed s p m r")
  case False
  then show thesis
    using claim_not_addressed [OF False, of b] refused claim_ready_iff untouched_error untouched_refl by metis
next
  case True
  let ?ep = "registered_epoch s (Some p) r" and ?now = "sys_clock s (sys_ticks s)"
  let ?tok = "claim_token_make ZIPC_CLAIM_RECEIVE r ?ep"
  have st: "sc_state sl = ZIPC_SLOT_TRANSFER" and lt: "zipc_handle_slot_id (msg_handle m) < ph_slot_count (hdr s p)"
    using True by (simp_all add: claim_addressed_def sl_def c_def Let_def)
  have shape: "pool_shape s p" and fits: "slot_shape (ph_slot_capacity (hdr s p)) sl"
    using inv pool_inv_slot [OF inv lt] by (simp_all add: pool_inv_def slot_wf_def sl_def c_def)
  have ok0: "slot_ptr_ok s c"
    using shape lt by (simp add: c_def slot_ptr_ok_iff)
  define u where "u = take_slot c ?tok s"
  define w where "w = u\<lparr>sys_ticks := Suc (sys_ticks s)\<rparr>"
  have u: "slot_of u c = sl\<lparr>sc_claim_token := ?tok, sc_state := ZIPC_SLOT_CLAIMING\<rparr>" "frame {c} s u"
    "sys_gen u = sys_gen s" "hdr u = hdr s" "slot_ptr_ok u c" "sys_clock u = sys_clock s" "sys_ticks u = sys_ticks s"
    using ok0 by (simp_all add: u_def sl_def slot_frame) (simp_all add: take_slot_def)
  have w: "slot_of w = slot_of u" "frame {c} s w" "sys_gen w = sys_gen s" "hdr w = hdr s" "slot_ptr_ok w c"
    using u by (simp_all add: w_def slot_frame)
  have refuse: "untouched c s (record_protocol_error p None r (back_out c ZIPC_SLOT_TRANSFER ?tok v))"
    if "slot_of v = slot_of u" "frame {c} s v" "sys_gen v = sys_gen s" for v
  proof -
    have "untouched c s (back_out c ZIPC_SLOT_TRANSFER ?tok v)"
      using that u(1) ok0 st by (intro untouched_back_out [where st' = ZIPC_SLOT_CLAIMING]) (simp_all add: sl_def)
    then show ?thesis
      by (rule untouched_trans) simp
  qed
  have claim: "zipc_buffer_claim (Some p) (Some m) r (Some b) s = claim_claimed p m r ?ep ?tok (Some b) u"
    using claim_addressed_unfold [OF shape True] by (simp add: c_def u_def)
  show thesis
  proof (cases "claim_matches sl m r ?now")
    case False
    then have "\<exists>e v. claim_claimed p m r ?ep ?tok (Some b) u =
        (e, Some b, record_protocol_error p None r (back_out c ZIPC_SLOT_TRANSFER ?tok v)) \<and> e \<noteq> ZIPC_OK \<and> (v = u \<or> v = w)"
      using u by (auto simp: claim_claimed_def claim_matches_def deadline_open_def hops_left_def Let_def
          zipc_now_ns_def c_def [symmetric] w_def not_le not_less)
    then show thesis
      using refused claim refuse u w False by (auto simp: claim_ready_iff c_def sl_def)
  next
    case matches: True
    then have pub: "zipc_buffer_claim (Some p) (Some m) r (Some b) s = claim_publish p m r ?ep ?now ?tok (Some b) w"
      unfolding claim using u
      by (auto simp: claim_claimed_def claim_matches_def deadline_open_def hops_left_def Let_def
          zipc_now_ns_def c_def [symmetric] w_def)
    have ready: "claim_ready s p m r"
      using True matches by (simp add: claim_ready_iff c_def sl_def)
    show thesis
    proof (rule claim_publish_outcome [where c = c and p = p and m = m and u = w and r = r and ep = ?ep and now = ?now and tok = ?tok and b = "Some b"], goal_cases)
      case (5 t n)
      then show thesis
        using ok [of t n] ready pub w u(1) frame_trans [OF w(2), of t] by (simp add: receive_fields_def add_trace_def)
    next
      case (6 e t)
      then show thesis
        using dropped [of e t] ready pub w u(1) frame_trans [OF w(2), of t] by (simp add: buffer_invalidate_def)
    qed (use w u fits in \<open>simp_all add: c_def slot_shape_def region_fits_def\<close>)
  qed
qed

end
