(* ===== verification/Slot_Release.thy ===== *)
theory Slot_Release
  imports Slot_Protocol
begin

text \<open>
  Outcomes of the remaining operations on an owned slot: release, region update and the
  re-creation of a view from a handle; and the allocation entry points as a whole.
\<close>

subsection \<open>Release\<close>

definition release_ready :: "sys \<Rightarrow> zipc_pool \<Rightarrow> zipc_handle \<Rightarrow> zipc_component_id \<Rightarrow> bool" where
  "release_ready s p h c \<longleftrightarrow>
     owned_by s p h c \<and> sc_claim_token (slot_of s (slot_ptr p (zipc_handle_slot_id h))) = 0"

definition save_owner :: "zipc_slot_control \<Rightarrow> zipc_slot_control" where
  "save_owner sl = sl\<lparr>sc_claim_previous_region := sc_region sl, sc_claim_previous_owner := sc_owner_id sl,
     sc_claim_previous_owner_epoch := sc_owner_epoch sl\<rparr>"

lemma slot_core_save_owner [simp]: "slot_core (save_owner sl) = slot_core sl"
  by (simp add: save_owner_def slot_core_def)

lemma save_owner_simps [simp]:
  "sc_state (save_owner sl) = sc_state sl" "sc_claim_token (save_owner sl) = sc_claim_token sl"
  "sc_trace (save_owner sl) = sc_trace sl" "sc_generation (save_owner sl) = sc_generation sl"
  "sc_visited (save_owner sl) = sc_visited sl" "sc_owner_id (save_owner sl) = sc_owner_id sl"
  "sc_owner_epoch (save_owner sl) = sc_owner_epoch sl" "sc_claim_previous_region (save_owner sl) = sc_region sl"
  "sc_transfer_visited (save_owner sl) = sc_transfer_visited sl" "sc_region (save_owner sl) = sc_region sl"
  by (simp_all add: save_owner_def)

lemma release_refused:
  assumes "\<not> owned_by s p h a"
  shows "\<exists>e. zipc_pool_buffer_release (Some p) h a s = (e, s) \<and> e \<noteq> ZIPC_OK"
  using assms by (simp add: zipc_pool_buffer_release_def owned_by_def Let_def not_le)

text \<open>The release of an owned slot, step by step: the owner is saved, the claim taken, the pages
  withdrawn, and the slot given back with its next state stored.\<close>

lemma release_unfold:
  fixes h a p s
  defines "i \<equiv> zipc_handle_slot_id h"
  defines "c \<equiv> slot_ptr p i" and "tok \<equiv> claim_token_make ZIPC_CLAIM_RELEASE a (registered_epoch s (Some p) a)"
  assumes own: "owned_by s p h a" and ok: "slot_ptr_ok s c"
    and pr: "protect_slot (Some p) i False (take_slot c tok (upd_slot c save_owner s)) = (e, w)"
  shows "zipc_pool_buffer_release (Some p) h a s =
     (if sc_claim_token (slot_of s c) \<noteq> 0 then (ZIPC_ERR_INVALID_STATE, upd_slot c save_owner s)
      else if e \<noteq> ZIPC_OK then (e, back_out c ZIPC_SLOT_OWNED tok w)
      else (ZIPC_OK, upd_hdr p (\<lambda>h. h\<lparr>ph_release_count := ph_release_count h + 1\<rparr>) (back_out c ZIPC_SLOT_FREE tok
       (upd_slot c (\<lambda>sl. sl\<lparr>sc_owner_id := ZIPC_INVALID_COMPONENT_ID, sc_next_owner_id := ZIPC_INVALID_COMPONENT_ID,
          sc_region := empty_region\<rparr>) (trace_slot (Some p) i (Some c) a ZIPC_TRACE_RELEASE w)))))"
proof -
  define s1 where "s1 = upd_slot c save_owner s"
  define u where "u = take_slot c tok s1"
  have s1: "slot_of s1 c = save_owner (slot_of s c)" "slot_ptr_ok s1 c" using ok by (simp_all add: s1_def)
  have save: "upd_slot c (\<lambda>sl. sl\<lparr>sc_claim_previous_region := sc_region sl, sc_claim_previous_owner := sc_owner_id sl,
     sc_claim_previous_owner_epoch := sc_owner_epoch sl\<rparr>) s = s1"
    by (simp add: s1_def save_owner_def [abs_def])
  have take: "upd_slot c (\<lambda>sl. sl\<lparr>sc_state := ZIPC_SLOT_CLAIMING\<rparr>) (upd_slot c (\<lambda>sl. sl\<lparr>sc_claim_token := tok\<rparr>) s1) = u"
    by (simp add: u_def take_slot_def)
  have sl: "sc_state (slot_of s c) = ZIPC_SLOT_OWNED" "sc_owner_id (slot_of s c) = a"
    "sc_owner_epoch (slot_of s c) = registered_epoch s (Some p) a" "slot_of u c = (slot_of s1 c)\<lparr>sc_claim_token := tok, sc_state := ZIPC_SLOT_CLAIMING\<rparr>"
    using own s1 by (simp_all add: owned_by_def c_def i_def u_def Let_def)
  show ?thesis
    using own s1 sl pr
    by (simp add: zipc_pool_buffer_release_def owned_by_def i_def [symmetric] c_def [symmetric] tok_def [symmetric] save take Let_def
        s1_def [symmetric] u_def [symmetric] cas_claim_token_def cas_state_def del: upd_slot_upd_slot flip: not_le)
qed

lemma release_outcome:
  fixes h p s
  defines "c \<equiv> slot_ptr p (zipc_handle_slot_id h)"
  defines "sl \<equiv> slot_of s c"
  assumes shape: "pool_shape s p"
  obtains (ok) t where
      "zipc_pool_buffer_release (Some p) h a s = (ZIPC_OK, t)" "release_ready s p h a"
      "frame {c} s t" "sys_gen t = sys_gen s" "slot_freed (slot_of t c)"
      "sc_generation (slot_of t c) = sc_generation sl" "sc_visited (slot_of t c) = sc_visited sl"
      "\<And>cap. slot_shape cap sl \<Longrightarrow> slot_shape cap (slot_of t c)"
      "hdr t p = (hdr s p)\<lparr>ph_release_count := ph_release_count (hdr s p) + 1\<rparr>"
    | (refused) e t where "zipc_pool_buffer_release (Some p) h a s = (e, t)" "e \<noteq> ZIPC_OK" "untouched c s t"
      "pool_flags p AND ZIPC_POOL_F_STRICT_OWNERSHIP = 0 \<Longrightarrow> \<not> release_ready s p h a"
proof (cases "owned_by s p h a")
  case False
  then show thesis
    using release_refused [OF False] refused by (auto simp: release_ready_def)
next
  case True
  let ?i = "zipc_handle_slot_id h" and ?ep = "registered_epoch s (Some p) a"
  let ?tok = "claim_token_make ZIPC_CLAIM_RELEASE a ?ep"
  have own: "sc_state sl = ZIPC_SLOT_OWNED" "sc_owner_id sl = a" "sc_owner_epoch sl = ?ep"
    and lt: "?i < ph_slot_count (hdr s p)"
    using True by (simp_all add: owned_by_def sl_def c_def Let_def)
  have ok0: "slot_ptr_ok s c"
    using shape lt by (simp add: c_def slot_ptr_ok_iff)
  define s1 where "s1 = upd_slot c save_owner s"
  have s1: "slot_of s1 c = save_owner sl" "frame {c} s s1" "sys_gen s1 = sys_gen s" "hdr s1 = hdr s" "slot_ptr_ok s1 c"
    using ok0 by (simp_all add: s1_def sl_def slot_frame fun_eq_iff)
  define u where "u = take_slot c ?tok s1"
  have u: "slot_of u c = (save_owner sl)\<lparr>sc_claim_token := ?tok, sc_state := ZIPC_SLOT_CLAIMING\<rparr>" "frame {c} s u"
    "sys_gen u = sys_gen s" "hdr u = hdr s" "slot_ptr_ok u c"
    using s1 by (simp_all add: u_def slot_frame)
  obtain e w where pr: "protect_slot (Some p) ?i False u = (e, w)" by fastforce
  have "w = snd (protect_slot (Some p) ?i False u)" using pr by simp
  then have w: "slot_of w = slot_of u" "frame {c} s w" "sys_gen w = sys_gen s" "hdr w = hdr s" "slot_ptr_ok w c"
    using u by (simp_all add: slot_frame)
  define t where "t = upd_hdr p (\<lambda>h. h\<lparr>ph_release_count := ph_release_count h + 1\<rparr>) (back_out c ZIPC_SLOT_FREE ?tok
       (upd_slot c (\<lambda>sl. sl\<lparr>sc_owner_id := ZIPC_INVALID_COMPONENT_ID, sc_next_owner_id := ZIPC_INVALID_COMPONENT_ID,
          sc_region := empty_region\<rparr>) (trace_slot (Some p) ?i (Some c) a ZIPC_TRACE_RELEASE w)))"
  note unf = release_unfold [OF True ok0 [unfolded c_def] pr [unfolded u_def s1_def c_def],
      folded c_def, folded t_def, folded sl_def, folded s1_def]
  consider "sc_claim_token sl \<noteq> 0" | "sc_claim_token sl = 0" "e \<noteq> ZIPC_OK" | "sc_claim_token sl = 0" "e = ZIPC_OK" by blast
  then show thesis
  proof cases
    case 1
    moreover have "untouched c s s1"
      using s1 own by (simp add: untouched_def same_slot_def sl_def)
    ultimately show thesis
      using refused unf by (auto simp: release_ready_def sl_def c_def)
  next
    case 2
    moreover have "untouched c s (back_out c ZIPC_SLOT_OWNED ?tok w)"
      using ok0 w u(1) own by (intro untouched_back_out [where st' = ZIPC_SLOT_CLAIMING]) (simp_all add: sl_def)
    moreover have "pool_flags p AND ZIPC_POOL_F_STRICT_OWNERSHIP \<noteq> 0"
      using pr 2 by (auto simp: protect_slot_def)
    ultimately show thesis
      using refused unf by simp
  next
    case 3
    have "slot_freed (slot_of t c)" "sc_generation (slot_of t c) = sc_generation sl" "sc_visited (slot_of t c) = sc_visited sl"
      using w u(1) by (simp_all add: t_def slot_freed_def)
    moreover have "slot_shape cap (slot_of t c)" if "slot_shape cap sl" for cap
      using w u(1) that by (simp add: t_def slot_shape_def)
    moreover have "frame {c} s t"
      unfolding t_def using w by (intro slot_frame) (simp_all add: hdr_static_def lifecycles_def)
    moreover have "sys_gen t = sys_gen s" "hdr t p = (hdr s p)\<lparr>ph_release_count := ph_release_count (hdr s p) + 1\<rparr>"
      using w by (simp_all add: t_def)
    ultimately show thesis
      using ok 3 unf True by (simp add: release_ready_def c_def sl_def)
  qed
qed

subsection \<open>Region update\<close>

text \<open>A view that passes the ownership check of \<open>buffer_owned\<close> and points into pool \<open>p\<close>.\<close>

definition view_in :: "sys \<Rightarrow> zipc_pool \<Rightarrow> zipc_buffer \<Rightarrow> bool" where
  "view_in s p b \<longleftrightarrow> buf_pool b = Some p \<and> buf_control b = Some (slot_ptr p (buf_slot_id b)) \<and>
     buf_slot_id b < ph_slot_count (hdr s p) \<and> buf_slot_id b = zipc_handle_slot_id (buf_handle b) \<and>
     buf_capacity b = ph_slot_capacity (hdr s p)"

lemma set_region_outcome:
  assumes shape: "pool_shape s p" and view: "view_in s p b"
  obtains (ok) t where
      "zipc_buffer_set_region (Some b) off len s =
         (ZIPC_OK, Some (b\<lparr>buf_data := buf_slot_base b + ucast off, buf_length := len\<rparr>), t)"
      "buffer_owned s (Some b)" "unat off + unat len \<le> unat (ph_slot_capacity (hdr s p))"
      "frame {slot_ptr p (buf_slot_id b)} s t" "sys_gen t = sys_gen s"
      "slot_of t (slot_ptr p (buf_slot_id b)) =
         (slot_of s (slot_ptr p (buf_slot_id b)))\<lparr>sc_region := \<lparr>rg_offset = off, rg_length = len\<rparr>\<rparr>"
    | (refused) e where "zipc_buffer_set_region (Some b) off len s = (e, Some b, s)" "e \<noteq> ZIPC_OK"
      "\<not> (buffer_owned s (Some b) \<and> unat off + unat len \<le> unat (ph_slot_capacity (hdr s p)))"
proof -
  let ?c = "slot_ptr p (buf_slot_id b)"
  have cap: "(off > buf_capacity b \<or> len > buf_capacity b - off) \<longleftrightarrow>
      \<not> unat off + unat len \<le> unat (ph_slot_capacity (hdr s p))"
    using region_word_iff [of off "ph_slot_capacity (hdr s p)" len] view by (auto simp: view_in_def not_le)
  consider "\<not> buffer_owned s (Some b)"
    | "buffer_owned s (Some b)" "\<not> unat off + unat len \<le> unat (ph_slot_capacity (hdr s p))"
    | "buffer_owned s (Some b)" "unat off + unat len \<le> unat (ph_slot_capacity (hdr s p))" by blast
  then show thesis
  proof cases
    case 3
    let ?t = "upd_slot ?c (\<lambda>sl. sl\<lparr>sc_region := \<lparr>rg_offset = off, rg_length = len\<rparr>\<rparr>) s"
    have "slot_ptr_ok s ?c"
      using shape view by (auto simp: slot_ptr_ok_iff view_in_def)
    then show thesis
      using ok [of ?t] 3 cap view by (simp add: zipc_buffer_set_region_def view_in_def slot_frame)
  qed (use refused cap in \<open>simp_all add: zipc_buffer_set_region_def\<close>)
qed

subsection \<open>Views from handles\<close>

text \<open>A view can be re-created exactly by the registered owner of the current generation.\<close>

lemma from_handle_ok_iff:
  assumes "pool_inv s p"
  shows "fst (zipc_buffer_from_handle (Some p) h a (Some b) s) = ZIPC_OK \<longleftrightarrow> owned_by s p h a"
proof (cases "owned_by s p h a")
  case True
  let ?sl = "slot_of s (slot_ptr p (zipc_handle_slot_id h))"
  have "slot_wf (ph_slot_capacity (hdr s p)) ?sl"
    using True assms by (intro pool_inv_slot) (simp_all add: owned_by_def)
  then have "make_view p (zipc_handle_slot_id h) h (buffer_invalidate (Some b)) s =
      (ZIPC_OK, Some (slot_view p h (hdr s p) ?sl))"
    by (intro make_view_ok) (simp_all add: slot_wf_def slot_shape_def region_fits_def)
  then show ?thesis
    using True by (simp add: zipc_buffer_from_handle_def owned_by_def Let_def flip: not_le)
next
  case False
  then show ?thesis
    by (auto simp: zipc_buffer_from_handle_def owned_by_def Let_def)
qed

lemma buffer_owned_view:
  assumes "owned_by s p h a"
  shows "buffer_owned s (Some (slot_view p h (hdr s p) (slot_of s (slot_ptr p (zipc_handle_slot_id h)))))"
  using assms by (simp add: owned_by_def buffer_owned_def buffer_valid_def slot_view_def Let_def)

subsection \<open>Allocation as a whole\<close>

definition allocation_args_ok :: "sys \<Rightarrow> zipc_pool \<Rightarrow> zipc_component_id \<Rightarrow> zipc_buffer_id \<Rightarrow> u32 \<Rightarrow> u32 \<Rightarrow> bool" where
  "allocation_args_ok s p a parent off len \<longleftrightarrow> zipc_component_id_valid a \<and>
     (parent \<noteq> 0 \<longrightarrow> zipc_buffer_id_valid parent) \<and> unat off + unat len \<le> unat (ph_slot_capacity (hdr s p))"

lemma allocate_outcome:
  fixes p s
  assumes shape: "pool_shape s p" and gens: "gens_ready s"
  obtains (ok) i t bid now n where
      "buffer_allocate_internal (Some p) a parent off len ep hop dur en (Some b) s =
         Some (ZIPC_OK, Some (slot_view p (zipc_handle_make i (next_generation (sc_generation (slot_of s (slot_ptr p i)))))
                                (hdr s p) (slot_of t (slot_ptr p i))), t)"
      "i < ph_slot_count (hdr s p)" "slot_available (slot_of s (slot_ptr p i))" "zipc_component_id_valid a"
      "unat off + unat len \<le> unat (ph_slot_capacity (hdr s p))"
      "frame {slot_ptr p i} s t" "only_gen a s t" "issued_id a bid"
      "slot_of t (slot_ptr p i) = (add_trace n a ZIPC_TRACE_ALLOCATE
         (allocated_slot a (if ep \<noteq> 0 then ep else registered_epoch s (Some p) a) hop parent off len dur now bid
           (slot_of s (slot_ptr p i))))\<lparr>sc_state := ZIPC_SLOT_OWNED, sc_claim_token := 0\<rparr>"
      "hdr t p = (hdr s p)\<lparr>ph_allocation_cursor := (i + 1) mod ph_slot_count (hdr s p),
                          ph_allocation_count := ph_allocation_count (hdr s p) + 1\<rparr>"
    | (fail) i e t where
      "buffer_allocate_internal (Some p) a parent off len ep hop dur en (Some b) s = Some (e, Some buffer_zero, t)"
      "e \<noteq> ZIPC_OK" "i < ph_slot_count (hdr s p)" "slot_available (slot_of s (slot_ptr p i))"
      "zipc_component_id_valid a" "frame {slot_ptr p i} s t" "only_gen a s t" "slot_freed (slot_of t (slot_ptr p i))"
      "slot_shape (ph_slot_capacity (hdr s p)) (slot_of t (slot_ptr p i))"
      "sc_generation (slot_of t (slot_ptr p i)) = next_generation (sc_generation (slot_of s (slot_ptr p i)))"
    | (none) e t where
      "buffer_allocate_internal (Some p) a parent off len ep hop dur en (Some b) s = Some (e, Some b, t)"
      "e = ZIPC_ERR_NO_BUFFER \<and> (\<forall>k < unat (ph_slot_count (hdr s p)).
          \<not> slot_available (slot_of s (slot_ptr p (scan_slot s p (ph_allocation_cursor (hdr s p) mod ph_slot_count (hdr s p)) k))))
       \<or> e = ZIPC_ERR_INVALID_ARGUMENT \<and> \<not> allocation_args_ok s p a parent off len"
      "frame {} s t" "sys_gen t = sys_gen s" "slot_of t = slot_of s"
proof -
  let ?r = "buffer_allocate_internal (Some p) a parent off len ep hop dur en (Some b) s"
  let ?ep = "if ep \<noteq> 0 then ep else registered_epoch s (Some p) a"
  let ?tok = "claim_token_make ZIPC_CLAIM_ALLOCATE a ?ep"
  let ?start = "ph_allocation_cursor (hdr s p) mod ph_slot_count (hdr s p)"
  let ?n = "unat (ph_slot_count (hdr s p))"
  let ?bad = "\<not> zipc_component_id_valid a \<or> (parent \<noteq> 0 \<and> \<not> zipc_buffer_id_valid parent) \<or>
     \<not> unat off + unat len \<le> unat (ph_slot_capacity (hdr s p))"
  have args: "?r = (if ?bad then Some (ZIPC_ERR_INVALID_ARGUMENT, Some b, s)
      else allocate_scan p a parent off len ?ep hop dur en ?tok ?start 0 ?n (Some b) s)"
    using region_word_iff [of off "ph_slot_capacity (hdr s p)" len]
    by (auto simp: buffer_allocate_internal_def Let_def not_le)
  show thesis
  proof (cases ?bad)
    case True
    then show thesis
      using none [of ZIPC_ERR_INVALID_ARGUMENT s] args by (auto simp: allocation_args_ok_def)
  next
    case good: False
    then have args: "?r = allocate_scan p a parent off len ?ep hop dur en ?tok ?start 0 ?n (Some b) s"
      unfolding args by (rule if_not_P)
    from allocate_scan_outcome [OF shape, of 0 ?n ?start a parent off len ?ep hop dur en ?tok "Some b"]
    show thesis
    proof (elim disjE exE conjE, goal_cases)
      case (1 k)
      let ?i = "scan_slot s p ?start k"
      let ?u = "take_slot (slot_ptr p ?i) ?tok s"
      have lt: "?i < ph_slot_count (hdr s p)"
        using shape by (simp add: scan_slot_def pool_shape_def word_less_nat_alt unat_mod word_neq_0_conv)
      then have ok0: "slot_ptr_ok s (slot_ptr p ?i)"
        using shape by (simp add: slot_ptr_ok_iff)
      have r: "?r = allocate_claimed p a parent off len ?ep hop dur en ?tok ?i (Some b) ?u"
        using args 1(4) by simp
      have fu: "frame {slot_ptr p ?i} s ?u" by (simp add: slot_frame)
      show thesis
      proof (rule allocate_claimed_outcome [where s = ?u and p = p and i = ?i and a = a and tok = ?tok and off = off
            and len = len and parent = parent and ep = ?ep and hop = hop and dur = dur and en = en and b = "Some b"], goal_cases)
        case (6 t bid now n)
        then show thesis
          using ok [of ?i t bid n now] r 1 lt good ok0 frame_trans [OF fu, of t]
          by (simp add: only_gen_def allocated_slot_def init_allocated_slot_def add_trace_def)
      next
        case (7 e t)
        then show thesis
          using fail [of e t ?i] r 1 lt good ok0 frame_trans [OF fu, of t]
          by (simp add: only_gen_def buffer_invalidate_def)
      qed (use ok0 good gens in \<open>simp_all add: gens_ready_iff\<close>)
    next
      case 2
      let ?t = "upd_hdr p (\<lambda>h. h\<lparr>ph_allocation_failure_count := ph_allocation_failure_count h + 1\<rparr>) s"
      have "frame {} s ?t"
        by (intro slot_frame) (simp_all add: hdr_static_def lifecycles_def)
      moreover have "slot_of ?t = slot_of s" by (simp add: fun_eq_iff)
      ultimately show thesis
        using none [of ZIPC_ERR_NO_BUFFER ?t] 2 args good by simp
    qed
  qed
qed

end
