(* ===== verification/Component_Lifecycle.thy ===== *)
theory Component_Lifecycle
  imports Slot_Release
begin

text \<open>
  Component lifecycle, crash recovery and the trace reader of \<^verbatim>\<open>src/core/zipc.c\<close>. The lifecycle
  word of a component packs its epoch and state. The compare-exchange loops of the source re-read
  the word when another process changed it; run alone the exchange is on the value just read, so
  the loop ends in its first iteration. \<open>restart_slot\<close> is the body of the scan loop of
  \<open>zipc_component_restart_next\<close>, \<open>recover_owner_slot\<close> and \<open>recover_claiming_slot\<close> those of the two
  quiescent recoveries.
\<close>

subsection \<open>Registration\<close>

definition cas_lifecycle ::
  "zipc_pool \<Rightarrow> zipc_component_id \<Rightarrow> u64 \<Rightarrow> u64 \<Rightarrow> sys \<Rightarrow> bool \<times> sys" where
  "cas_lifecycle p c expected desired s =
     (if cs_lifecycle (component_of s p c) = expected
      then (True, upd_component p c (\<lambda>e. e\<lparr>cs_lifecycle := desired\<rparr>) s) else (False, s))"

definition store_heartbeat :: "zipc_pool \<Rightarrow> zipc_component_id \<Rightarrow> sys \<Rightarrow> sys" where
  "store_heartbeat p c s =
     (let (now, s) = zipc_now_ns s in upd_component p c (\<lambda>e. e\<lparr>cs_last_heartbeat_ns := now\<rparr>) s)"

definition zipc_component_register ::
  "zipc_pool option \<Rightarrow> zipc_component_id \<Rightarrow> sys \<Rightarrow> zipc_status \<times> u32 option \<times> sys" where
  "zipc_component_register pool component s =
     (case pool of
        None \<Rightarrow> (ZIPC_ERR_INVALID_ARGUMENT, None, s)
      | Some p \<Rightarrow>
          if \<not> zipc_component_id_valid component then (ZIPC_ERR_INVALID_ARGUMENT, None, s)
          else
            let current = cs_lifecycle (component_of s p component);
                current_epoch = component_lifecycle_epoch current
            in if current_epoch = UINT32_MAX \<or>
                  component_lifecycle_state current \<noteq> ZIPC_COMPONENT_INACTIVE
               then (ZIPC_ERR_COMPONENT_STALE, None, s)
               else
                 let desired = component_lifecycle_make (current_epoch + 1) ZIPC_COMPONENT_ACTIVE;
                     (_, s) = cas_lifecycle p component current desired s;
                     epoch = component_lifecycle_epoch current + 1
                 in (ZIPC_OK, Some epoch, store_heartbeat p component s))"

definition zipc_component_heartbeat ::
  "zipc_pool option \<Rightarrow> zipc_component_id \<Rightarrow> u32 \<Rightarrow> sys \<Rightarrow> zipc_status \<times> sys" where
  "zipc_component_heartbeat pool component epoch s =
     (case pool of
        None \<Rightarrow> (ZIPC_ERR_INVALID_ARGUMENT, s)
      | Some p \<Rightarrow>
          if \<not> zipc_component_id_valid component \<or> epoch = 0 then (ZIPC_ERR_INVALID_ARGUMENT, s)
          else
            let lifecycle = cs_lifecycle (component_of s p component) in
            if component_lifecycle_state lifecycle = ZIPC_COMPONENT_INACTIVE \<or>
               component_lifecycle_epoch lifecycle \<noteq> epoch
            then (ZIPC_ERR_COMPONENT_STALE, s)
            else (ZIPC_OK, store_heartbeat p component s))"

definition zipc_component_unregister ::
  "zipc_pool option \<Rightarrow> zipc_component_id \<Rightarrow> u32 \<Rightarrow> sys \<Rightarrow> zipc_status \<times> sys" where
  "zipc_component_unregister pool component epoch s =
     (case pool of
        None \<Rightarrow> (ZIPC_ERR_INVALID_ARGUMENT, s)
      | Some p \<Rightarrow>
          if \<not> zipc_component_id_valid component \<or> epoch = 0 then (ZIPC_ERR_INVALID_ARGUMENT, s)
          else
            let current = cs_lifecycle (component_of s p component) in
            if component_lifecycle_epoch current \<noteq> epoch \<or>
               component_lifecycle_state current = ZIPC_COMPONENT_INACTIVE
            then (ZIPC_ERR_COMPONENT_STALE, s)
            else
              let desired = component_lifecycle_make epoch ZIPC_COMPONENT_INACTIVE;
                  (_, s) = cas_lifecycle p component current desired s
              in (ZIPC_OK, s))"

record component_snapshot =
  snap_epoch :: u32
  snap_active :: bool
  snap_state :: u32
  snap_last_heartbeat_ns :: u64
  snap_recovered_slots :: u64

definition zipc_component_snapshot ::
  "zipc_pool option \<Rightarrow> zipc_component_id \<Rightarrow> bool \<Rightarrow> sys \<Rightarrow> zipc_status \<times> component_snapshot option" where
  "zipc_component_snapshot pool component snapshot s =
     (case pool of
        None \<Rightarrow> (ZIPC_ERR_INVALID_ARGUMENT, None)
      | Some p \<Rightarrow>
          if \<not> zipc_component_id_valid component \<or> \<not> snapshot then (ZIPC_ERR_INVALID_ARGUMENT, None)
          else
            let entry = component_of s p component; lifecycle = cs_lifecycle entry;
                state = component_lifecycle_state lifecycle
            in (ZIPC_OK, Some
                 \<lparr>snap_epoch = component_lifecycle_epoch lifecycle,
                  snap_active = (state \<noteq> ZIPC_COMPONENT_INACTIVE),
                  snap_state = state,
                  snap_last_heartbeat_ns = cs_last_heartbeat_ns entry,
                  snap_recovered_slots = cs_recovered_slots entry\<rparr>))"

subsection \<open>Restart of a terminated component\<close>

record zipc_restart =
  rs_pool :: "zipc_pool option"
  rs_component :: zipc_component_id
  rs_dead_epoch :: u32
  rs_epoch :: u32
  rs_cursor :: u32
  rs_scan_complete :: bool

definition restart_zero :: zipc_restart where
  "restart_zero = \<lparr>rs_pool = None, rs_component = 0, rs_dead_epoch = 0, rs_epoch = 0, rs_cursor = 0,
     rs_scan_complete = False\<rparr>"

definition zipc_component_restart_begin ::
  "zipc_pool option \<Rightarrow> zipc_component_id \<Rightarrow> u32 \<Rightarrow> zipc_restart option \<Rightarrow> sys \<Rightarrow>
   zipc_status \<times> zipc_restart option \<times> sys" where
  "zipc_component_restart_begin pool component dead_epoch restart s =
     (case (pool, restart) of
        (Some p, Some r) \<Rightarrow>
          if \<not> zipc_component_id_valid component \<or> dead_epoch = 0
          then (ZIPC_ERR_INVALID_ARGUMENT, restart, s)
          else if dead_epoch = UINT32_MAX then (ZIPC_ERR_COMPONENT_STALE, restart, s)
          else
            let current = cs_lifecycle (component_of s p component) in
            if component_lifecycle_epoch current \<noteq> dead_epoch \<or>
               component_lifecycle_state current = ZIPC_COMPONENT_RECOVERING
            then (ZIPC_ERR_COMPONENT_STALE, restart, s)
            else
              let desired = component_lifecycle_make (dead_epoch + 1) ZIPC_COMPONENT_RECOVERING;
                  (_, s) = cas_lifecycle p component current desired s
              in (ZIPC_OK,
                  Some \<lparr>rs_pool = pool, rs_component = component, rs_dead_epoch = dead_epoch,
                        rs_epoch = dead_epoch + 1, rs_cursor = 0, rs_scan_complete = False\<rparr>,
                  store_heartbeat p component s)
      | _ \<Rightarrow> (ZIPC_ERR_INVALID_ARGUMENT, restart, s))"

definition token_of_dead :: "zipc_restart \<Rightarrow> u64 \<Rightarrow> bool" where
  "token_of_dead r token \<longleftrightarrow>
     claim_token_component token = rs_component r \<and> claim_token_epoch token = rs_dead_epoch r"

datatype restart_outcome =
    Restart_Skip sys
  | Restart_Stop zipc_status sys
  | Restart_Adopted "zipc_buffer option" sys

text \<open>The tail of the loop body: adopt a stable buffer of the dead epoch under the new one
  (\<open>restart_adopt\<close>, its last part \<open>restart_publish\<close>).\<close>

definition restart_publish ::
  "zipc_restart \<Rightarrow> zipc_pool \<Rightarrow> zipc_buffer option \<Rightarrow> sys \<Rightarrow> restart_outcome" where
  "restart_publish r p buffer s =
     (let slot_id = rs_cursor r; c = slot_ptr p slot_id;
          old_generation = sc_generation (slot_of s c);
          generation = next_generation old_generation;
          (now, s) = zipc_now_ns s;
          s = upd_slot c (\<lambda>sl. sl\<lparr>sc_generation := generation, sc_owner_epoch := rs_epoch r,
                                  sc_acquired_ns := now,
                                  sc_recovery_count := sc_recovery_count sl + 1\<rparr>) s;
          (status, buffer') = make_view p slot_id (zipc_handle_make slot_id generation) buffer s
      in if status \<noteq> ZIPC_OK
         then Restart_Stop status
                (store_state c ZIPC_SLOT_OWNED
                  (upd_slot c (\<lambda>sl. sl\<lparr>sc_owner_epoch := rs_dead_epoch r,
                                       sc_generation := old_generation\<rparr>) s))
         else
           let s = trace_slot (Some p) slot_id (Some c) (rs_component r) ZIPC_TRACE_RECOVER s;
               s = upd_hdr p (\<lambda>h. h\<lparr>ph_recovery_count := ph_recovery_count h + 1\<rparr>) s;
               s = upd_component p (rs_component r)
                     (\<lambda>e. e\<lparr>cs_recovered_slots := cs_recovered_slots e + 1\<rparr>) s
           in Restart_Adopted buffer' (store_state c ZIPC_SLOT_OWNED s))"

definition restart_adopt ::
  "zipc_restart \<Rightarrow> zipc_pool \<Rightarrow> u64 \<Rightarrow> zipc_buffer option \<Rightarrow> sys \<Rightarrow> restart_outcome" where
  "restart_adopt r p observed_token buffer s =
     (let slot_id = rs_cursor r; c = slot_ptr p slot_id;
          s = (if token_of_dead r observed_token then clear_claim_token c observed_token s else s)
      in case cas_state c ZIPC_SLOT_OWNED ZIPC_SLOT_ERROR s of
           (False, s) \<Rightarrow> Restart_Skip s
         | (True, s) \<Rightarrow>
             if sc_owner_id (slot_of s c) \<noteq> rs_component r \<or>
                sc_owner_epoch (slot_of s c) \<noteq> rs_dead_epoch r
             then Restart_Skip (store_state c ZIPC_SLOT_OWNED s)
             else
               let (status, s) = protect_slot (Some p) slot_id True s in
               if status \<noteq> ZIPC_OK then Restart_Stop status (store_state c ZIPC_SLOT_OWNED s)
               else restart_publish r p buffer s)"

text \<open>Undoing an operation the dead epoch left in \<open>CLAIMING\<close>: a receive goes back to
  \<open>TRANSFER\<close>, a send, rollback or release back to \<open>OWNED\<close>.\<close>

definition undo_receive :: "zipc_component_id \<Rightarrow> zipc_slot_control \<Rightarrow> zipc_slot_control" where
  "undo_receive component sl =
     sl\<lparr>sc_owner_id := sc_transfer_source_id sl,
        sc_next_owner_id := component,
        sc_owner_epoch := sc_transfer_source_epoch sl,
        sc_hop_count := sc_transfer_hop_count sl,
        sc_acquired_ns := sc_transfer_acquired_ns sl,
        sc_visited := sc_transfer_visited sl,
        sc_claim_token := 0\<rparr>"

definition undo_owned :: "u32 \<Rightarrow> zipc_slot_control \<Rightarrow> zipc_slot_control" where
  "undo_owned kind sl =
     (let sl = (if kind = ZIPC_CLAIM_SEND \<or> kind = ZIPC_CLAIM_ROLLBACK
                then sl\<lparr>sc_transfer_sequence := sc_claim_previous_sequence sl\<rparr> else sl);
          sl = (if kind = ZIPC_CLAIM_RELEASE
                then sl\<lparr>sc_owner_id := sc_claim_previous_owner sl,
                        sc_owner_epoch := sc_claim_previous_owner_epoch sl,
                        sc_region := sc_claim_previous_region sl\<rparr> else sl)
      in sl\<lparr>sc_next_owner_id := ZIPC_INVALID_COMPONENT_ID, sc_claim_token := 0\<rparr>)"

definition restart_slot ::
  "zipc_restart \<Rightarrow> zipc_pool \<Rightarrow> zipc_buffer option \<Rightarrow> sys \<Rightarrow> restart_outcome" where
  "restart_slot r p buffer s =
     (let slot_id = rs_cursor r; c = slot_ptr p slot_id;
          state = sc_state (slot_of s c);
          observed_token = sc_claim_token (slot_of s c)
      in if state = ZIPC_SLOT_FREE \<and> token_of_dead r observed_token
         then Restart_Skip (clear_claim_token c observed_token s)
         else if state = ZIPC_SLOT_TRANSFER \<and> claim_token_kind observed_token = ZIPC_CLAIM_RECEIVE \<and>
                 token_of_dead r observed_token
         then Restart_Skip (clear_claim_token c observed_token s)
         else if state = ZIPC_SLOT_CLAIMING then
           (if \<not> token_of_dead r observed_token then Restart_Skip s
            else case cas_state c ZIPC_SLOT_CLAIMING ZIPC_SLOT_ERROR s of
              (False, s) \<Rightarrow> Restart_Skip s
            | (True, s) \<Rightarrow>
                if claim_token_kind observed_token = ZIPC_CLAIM_RECEIVE then
                  (case protect_slot (Some p) slot_id False s of
                     (status, s) \<Rightarrow>
                       if status \<noteq> ZIPC_OK then Restart_Stop status (store_state c ZIPC_SLOT_CLAIMING s)
                       else Restart_Skip (store_state c ZIPC_SLOT_TRANSFER
                              (upd_slot c (undo_receive (rs_component r)) s)))
                else if claim_token_kind observed_token = ZIPC_CLAIM_ALLOCATE then
                  (case protect_slot (Some p) slot_id False s of
                     (status, s) \<Rightarrow>
                       if status \<noteq> ZIPC_OK then Restart_Stop status (store_state c ZIPC_SLOT_CLAIMING s)
                       else Restart_Skip (free_claiming_slot c s))
                else
                  restart_adopt r p observed_token buffer
                    (store_state c ZIPC_SLOT_OWNED
                      (upd_slot c (undo_owned (claim_token_kind observed_token)) s)))
         else if state \<noteq> ZIPC_SLOT_OWNED then Restart_Skip s
         else restart_adopt r p observed_token buffer s)"

text \<open>The loop body writes one slot and the recovery counters only.\<close>

lemma frame_upd_component [slot_frame]:
  assumes "frame C s t" and "\<And>e. cs_lifecycle (f e) = cs_lifecycle e"
  shows "frame C s (upd_component p c f t)"
proof -
  have upd: "map cs_lifecycle (xs[i := f (xs ! i)]) = map cs_lifecycle xs" for i and xs :: "zipc_component_status list"
    by (metis assms(2) list_update_id map_update)
  show ?thesis
    unfolding upd_component_def using assms(1)
    by (intro slot_frame) (simp_all add: hdr_static_def lifecycles_def upd)
qed

lemma frame_protect:
  "protect_slot po i a s = (e, t) \<Longrightarrow> frame C u s \<Longrightarrow> frame C u t"
  by (metis frame_local(4) snd_conv)

fun outcome_sys :: "restart_outcome \<Rightarrow> sys" where
  "outcome_sys (Restart_Skip s) = s"
| "outcome_sys (Restart_Stop _ s) = s"
| "outcome_sys (Restart_Adopted _ s) = s"

lemma restart_publish_frame:
  assumes "frame {slot_ptr p (rs_cursor r)} s t"
  shows "frame {slot_ptr p (rs_cursor r)} s (outcome_sys (restart_publish r p b t))"
  using assms unfolding restart_publish_def Let_def
  by (auto simp: split_beta hdr_static_def lifecycles_def intro!: slot_frame)

lemma restart_adopt_frame:
  assumes "frame {slot_ptr p (rs_cursor r)} s t"
  shows "frame {slot_ptr p (rs_cursor r)} s (outcome_sys (restart_adopt r p tok b t))"
  using assms unfolding restart_adopt_def Let_def cas_state_def
  by (auto simp: split_beta intro!: slot_frame restart_publish_frame)

lemma restart_slot_frame:
  "frame {slot_ptr p (rs_cursor r)} s (outcome_sys (restart_slot r p b s))"
proof -
  let ?c = "slot_ptr p (rs_cursor r)"
  have e: "frame {?c} s (upd_slot ?c (\<lambda>sl. sl\<lparr>sc_state := ZIPC_SLOT_ERROR\<rparr>) s)"
    by (simp add: slot_frame)
  show ?thesis
    unfolding restart_slot_def Let_def cas_state_def
    by (auto simp: split_beta e restart_adopt_frame slot_frame)
qed

lemma frame_slot_count: "frame C s t \<Longrightarrow> ph_slot_count (hdr t p) = ph_slot_count (hdr s p)"
  by (simp add: frame_def hdr_static_def)

lemma restart_slot_skip_count:
  "restart_slot r p b s = Restart_Skip t \<Longrightarrow> ph_slot_count (hdr t p) = ph_slot_count (hdr s p)"
  using restart_slot_frame [of p r s b] frame_slot_count by fastforce

function restart_scan ::
  "zipc_restart \<Rightarrow> zipc_pool \<Rightarrow> zipc_buffer option \<Rightarrow> sys \<Rightarrow>
   zipc_status \<times> zipc_restart \<times> zipc_buffer option \<times> sys" where
  "restart_scan r p buffer s =
     (if rs_cursor r < ph_slot_count (hdr s p) then
        (case restart_slot r p buffer s of
           Restart_Skip s' \<Rightarrow> restart_scan (r\<lparr>rs_cursor := rs_cursor r + 1\<rparr>) p buffer s'
         | Restart_Stop status s' \<Rightarrow> (status, r, buffer, s')
         | Restart_Adopted buffer' s' \<Rightarrow> (ZIPC_OK, r\<lparr>rs_cursor := rs_cursor r + 1\<rparr>, buffer', s'))
      else (ZIPC_ERR_NO_BUFFER, r\<lparr>rs_scan_complete := True\<rparr>, buffer, s))"
  by pat_completeness auto

termination restart_scan
proof (relation "measure (\<lambda>(r, p, b, s). unat (ph_slot_count (hdr s p)) - unat (rs_cursor r))", goal_cases)
  case 1
  then show ?case by simp
next
  case (2 r p buffer s t)
  then have lt: "unat (rs_cursor r) < unat (ph_slot_count (hdr s p))"
    by (simp add: word_less_nat_alt)
  then have "unat (rs_cursor r + 1) = unat (rs_cursor r) + 1"
    using unat_u32_lt [of "ph_slot_count (hdr s p)"] by (simp add: unat_word_ariths)
  then show ?case
    using lt restart_slot_skip_count [OF 2(2)] by simp
qed

declare restart_scan.simps [simp del]

definition zipc_component_restart_next ::
  "zipc_restart option \<Rightarrow> zipc_buffer option \<Rightarrow> sys \<Rightarrow>
   zipc_status \<times> zipc_restart option \<times> zipc_buffer option \<times> sys" where
  "zipc_component_restart_next restart buffer s =
     (case (restart, buffer) of
        (Some r, Some b) \<Rightarrow>
          (case rs_pool r of
             None \<Rightarrow> (ZIPC_ERR_INVALID_ARGUMENT, restart, buffer, s)
           | Some p \<Rightarrow>
               if \<not> component_epoch_recovering s (Some p) (rs_component r) (rs_epoch r) \<or>
                  rs_epoch r \<noteq> rs_dead_epoch r + 1
               then (ZIPC_ERR_INVALID_ARGUMENT, restart, buffer, s)
               else case restart_scan r p (buffer_invalidate buffer) s of
                      (status, r', buffer', s') \<Rightarrow> (status, Some r', buffer', s'))
      | _ \<Rightarrow> (ZIPC_ERR_INVALID_ARGUMENT, restart, buffer, s))"

definition zipc_component_restart_finish ::
  "zipc_restart option \<Rightarrow> sys \<Rightarrow> zipc_status \<times> zipc_restart option \<times> sys" where
  "zipc_component_restart_finish restart s =
     (case restart of
        None \<Rightarrow> (ZIPC_ERR_INVALID_ARGUMENT, restart, s)
      | Some r \<Rightarrow>
          (case rs_pool r of
             None \<Rightarrow> (ZIPC_ERR_INVALID_ARGUMENT, restart, s)
           | Some p \<Rightarrow>
               if \<not> rs_scan_complete r \<or> rs_epoch r \<noteq> rs_dead_epoch r + 1 \<or>
                  \<not> component_epoch_recovering s (Some p) (rs_component r) (rs_epoch r)
               then (ZIPC_ERR_INVALID_ARGUMENT, restart, s)
               else
                 let expected = component_lifecycle_make (rs_epoch r) ZIPC_COMPONENT_RECOVERING;
                     desired = component_lifecycle_make (rs_epoch r) ZIPC_COMPONENT_ACTIVE
                 in case cas_lifecycle p (rs_component r) expected desired s of
                      (False, s) \<Rightarrow> (ZIPC_ERR_COMPONENT_STALE, restart, s)
                    | (True, s) \<Rightarrow> (ZIPC_OK, Some restart_zero, store_heartbeat p (rs_component r) s)))"

subsection \<open>Recovery of a quiesced pool\<close>

record zipc_recovery_result =
  rr_recovered_owned :: u32
  rr_recovered_transfer :: u32
  rr_skipped_newer_epoch :: u32

text \<open>One iteration of \<open>zipc_pool_recover_owner\<close>; \<open>Inl\<close> is the early return on a protection
  failure.\<close>

definition recover_owner_slot ::
  "zipc_pool \<Rightarrow> zipc_component_id \<Rightarrow> u32 \<Rightarrow> u64 \<Rightarrow> u64 \<Rightarrow> u32 \<Rightarrow> zipc_recovery_result \<Rightarrow> sys \<Rightarrow>
   (zipc_status \<times> sys) + (zipc_recovery_result \<times> sys)" where
  "recover_owner_slot p component dead_epoch minimum_age now i local s =
     (let c = slot_ptr p i; state = sc_state (slot_of s c) in
      if state \<noteq> ZIPC_SLOT_OWNED \<and> state \<noteq> ZIPC_SLOT_TRANSFER then Inr (local, s)
      else case cas_state c state ZIPC_SLOT_ERROR s of
          (False, s) \<Rightarrow> Inr (local, s)
        | (True, s) \<Rightarrow>
            let sl = slot_of s c in
            if sc_owner_id sl \<noteq> component then Inr (local, store_state c state s)
            else if sc_owner_epoch sl \<noteq> dead_epoch then
              Inr (if sc_owner_epoch sl > dead_epoch
                   then local\<lparr>rr_skipped_newer_epoch := rr_skipped_newer_epoch local + 1\<rparr> else local,
                   store_state c state s)
            else if minimum_age \<noteq> 0 \<and>
                    (now < sc_acquired_ns sl \<or> now - sc_acquired_ns sl < minimum_age)
            then Inr (local, store_state c state s)
            else
              let (protect_status, s) = protect_slot (Some p) i False s in
              if protect_status \<noteq> ZIPC_OK then Inl (protect_status, store_state c state s)
              else
                let s = trace_slot (Some p) i (Some c) component ZIPC_TRACE_RECOVER s;
                    s = upd_slot c (\<lambda>sl. sl\<lparr>sc_recovery_count := sc_recovery_count sl + 1,
                                            sc_error_flags := sc_error_flags sl OR 1,
                                            sc_owner_id := ZIPC_INVALID_COMPONENT_ID,
                                            sc_next_owner_id := ZIPC_INVALID_COMPONENT_ID,
                                            sc_region := empty_region\<rparr>) s;
                    s = store_state c ZIPC_SLOT_FREE s;
                    local = (if state = ZIPC_SLOT_OWNED
                             then local\<lparr>rr_recovered_owned := rr_recovered_owned local + 1\<rparr>
                             else local\<lparr>rr_recovered_transfer := rr_recovered_transfer local + 1\<rparr>);
                    s = upd_hdr p (\<lambda>h. h\<lparr>ph_recovery_count := ph_recovery_count h + 1\<rparr>) s;
                    s = upd_component p component
                          (\<lambda>e. e\<lparr>cs_recovered_slots := cs_recovered_slots e + 1\<rparr>) s
                in Inr (local, s))"

fun recover_owner_scan ::
  "zipc_pool \<Rightarrow> zipc_component_id \<Rightarrow> u32 \<Rightarrow> u64 \<Rightarrow> u64 \<Rightarrow> u32 \<Rightarrow> nat \<Rightarrow> zipc_recovery_result \<Rightarrow> sys \<Rightarrow>
   zipc_status \<times> zipc_recovery_result \<times> sys" where
  "recover_owner_scan p component dead_epoch minimum_age now i 0 local s = (ZIPC_OK, local, s)"
| "recover_owner_scan p component dead_epoch minimum_age now i (Suc n) local s =
     (case recover_owner_slot p component dead_epoch minimum_age now i local s of
        Inl (status, s) \<Rightarrow> (status, local, s)
      | Inr (local, s) \<Rightarrow> recover_owner_scan p component dead_epoch minimum_age now (i + 1) n local s)"

definition zipc_pool_recover_owner ::
  "zipc_pool option \<Rightarrow> zipc_component_id \<Rightarrow> u32 \<Rightarrow> u64 \<Rightarrow> sys \<Rightarrow>
   zipc_status \<times> zipc_recovery_result option \<times> sys" where
  "zipc_pool_recover_owner pool component dead_epoch minimum_age_ns s =
     (case pool of
        None \<Rightarrow> (ZIPC_ERR_INVALID_ARGUMENT, None, s)
      | Some p \<Rightarrow>
          if \<not> zipc_component_id_valid component \<or> dead_epoch = 0
          then (ZIPC_ERR_INVALID_ARGUMENT, None, s)
          else
            let lifecycle = cs_lifecycle (component_of s p component) in
            if component_lifecycle_state lifecycle \<noteq> ZIPC_COMPONENT_INACTIVE \<and>
               component_lifecycle_epoch lifecycle = dead_epoch
            then (ZIPC_ERR_COMPONENT_STALE, None, s)
            else
              let (now, s) = zipc_now_ns s;
                  (status, local, s) =
                    recover_owner_scan p component dead_epoch minimum_age_ns now 0
                      (unat (ph_slot_count (hdr s p)))
                      \<lparr>rr_recovered_owned = 0, rr_recovered_transfer = 0, rr_skipped_newer_epoch = 0\<rparr> s
              in (status, Some local, s))"

definition claiming_reset :: "zipc_slot_control \<Rightarrow> zipc_slot_control" where
  "claiming_reset sl =
     sl\<lparr>sc_owner_id := ZIPC_INVALID_COMPONENT_ID, sc_next_owner_id := ZIPC_INVALID_COMPONENT_ID,
        sc_owner_epoch := 0, sc_hop_count := 0, sc_hop_limit := 0, sc_visited := visited_empty,
        sc_identity := \<lparr>bi_id = 0, bi_parent_id = 0\<rparr>, sc_region := empty_region,
        sc_transfer_sequence := 0, sc_payload_type := 0, sc_flags := 0, sc_error_flags := 0,
        sc_acquired_ns := 0, sc_deadline_ns := 0, sc_trace_count := 0, sc_recovery_count := 0,
        sc_claim_previous_sequence := 0, sc_claim_previous_region := empty_region,
        sc_claim_previous_owner := ZIPC_INVALID_COMPONENT_ID, sc_claim_previous_owner_epoch := 0,
        sc_transfer_link_id := 0, sc_transfer_source_id := ZIPC_INVALID_COMPONENT_ID,
        sc_transfer_source_epoch := 0, sc_transfer_hop_count := 0, sc_transfer_acquired_ns := 0,
        sc_transfer_visited := visited_empty, sc_trace := replicate 8 empty_trace_entry,
        sc_claim_token := 0\<rparr>"

definition recover_claiming_slot ::
  "zipc_pool \<Rightarrow> u32 \<Rightarrow> u32 \<Rightarrow> sys \<Rightarrow> (zipc_status \<times> sys) + (u32 \<times> sys)" where
  "recover_claiming_slot p i recovered s =
     (let c = slot_ptr p i in
      if sc_state (slot_of s c) \<noteq> ZIPC_SLOT_CLAIMING then Inr (recovered, s)
      else case cas_state c ZIPC_SLOT_CLAIMING ZIPC_SLOT_ERROR s of
          (False, s) \<Rightarrow> Inr (recovered, s)
        | (True, s) \<Rightarrow>
            let (protect_status, s) = protect_slot (Some p) i False s in
            if protect_status \<noteq> ZIPC_OK then Inl (protect_status, store_state c ZIPC_SLOT_CLAIMING s)
            else
              let s = store_state c ZIPC_SLOT_FREE (upd_slot c claiming_reset s);
                  s = upd_hdr p (\<lambda>h. h\<lparr>ph_recovery_count := ph_recovery_count h + 1\<rparr>) s;
                  s = trace_external_event (Some p) ZIPC_INVALID_HANDLE 0 ZIPC_INVALID_COMPONENT_ID
                        ZIPC_TRACE_RECOVER s
              in Inr (recovered + 1, s))"

fun recover_claiming_scan ::
  "zipc_pool \<Rightarrow> u32 \<Rightarrow> nat \<Rightarrow> u32 \<Rightarrow> sys \<Rightarrow> zipc_status \<times> u32 \<times> sys" where
  "recover_claiming_scan p i 0 recovered s = (ZIPC_OK, recovered, s)"
| "recover_claiming_scan p i (Suc n) recovered s =
     (case recover_claiming_slot p i recovered s of
        Inl (status, s) \<Rightarrow> (status, recovered, s)
      | Inr (recovered, s) \<Rightarrow> recover_claiming_scan p (i + 1) n recovered s)"

definition zipc_pool_recover_claiming ::
  "zipc_pool option \<Rightarrow> sys \<Rightarrow> zipc_status \<times> u32 option \<times> sys" where
  "zipc_pool_recover_claiming pool s =
     (case pool of
        None \<Rightarrow> (ZIPC_ERR_INVALID_ARGUMENT, None, s)
      | Some p \<Rightarrow>
          (case recover_claiming_scan p 0 (unat (ph_slot_count (hdr s p))) 0 s of
             (status, recovered, s) \<Rightarrow> (status, Some recovered, s)))"

subsection \<open>Reading a slot trace\<close>

definition zipc_slot_trace_copy :: "zipc_slot_control option \<Rightarrow> bool \<Rightarrow> u32 \<Rightarrow> zipc_trace_entry list" where
  "zipc_slot_trace_copy slot entries capacity =
     (case slot of
        None \<Rightarrow> []
      | Some sl \<Rightarrow>
          if \<not> entries \<or> capacity = 0 then []
          else
            let count = (if sc_trace_count sl < ZIPC_TRACE_DEPTH then sc_trace_count sl else ZIPC_TRACE_DEPTH);
                count = (if count > capacity then capacity else count);
                start = (if sc_trace_count sl > ZIPC_TRACE_DEPTH
                         then sc_trace_count sl mod ZIPC_TRACE_DEPTH else 0)
            in map (\<lambda>i. sc_trace sl ! unat ((start + of_nat i) mod ZIPC_TRACE_DEPTH)) [0..<unat count])"

end
