(* ===== verification/Ownership.thy ===== *)
theory Ownership
  imports Component_Lifecycle
begin

text \<open>
  The ownership contract of a pool. An abstract pool maps every slot to who holds it; the abstract
  machine \<open>own_step\<close> says which event may change that and how. A slot that an operation has moved to
  \<open>CLAIMING\<close> counts as not yet changed: its abstract state is the one the recovery of that
  operation restores, read from the claim token and the saved fields. Each pool operation is shown
  to keep the invariant of \<open>Slot_Invariant\<close> and to implement one abstract event on one slot when it
  succeeds, and none when it is refused.
\<close>

subsection \<open>The abstract machine\<close>

text \<open>No completed operation of the pool interface redirects a transfer. The event is needed for a
  receiver that dies between taking the slot and finding out that the transfer is not addressed to
  it: the recovery will hand the transfer to that receiver.\<close>

datatype own_state =
    Own_Free zipc_generation
  | Own_Owned zipc_component_id u32 zipc_generation
  | Own_Transfer zipc_component_id u32 zipc_component_id zipc_generation
  | Own_Error zipc_generation

datatype own_event =
    Ev_Allocate zipc_component_id
  | Ev_Allocation_Failed
  | Ev_Send zipc_component_id zipc_component_id
  | Ev_Receive zipc_component_id
  | Ev_Drop zipc_component_id
  | Ev_Release zipc_component_id
  | Ev_Rollback zipc_component_id
  | Ev_Redirect zipc_component_id
  | Ev_Adopt zipc_component_id u32
  | Ev_Reclaim

inductive own_step :: "own_state \<Rightarrow> own_event \<Rightarrow> own_state \<Rightarrow> bool" where
  allocate: "own_step (Own_Free g) (Ev_Allocate c) (Own_Owned c e (next_generation g))"
| allocation_failed: "own_step (Own_Free g) Ev_Allocation_Failed (Own_Free (next_generation g))"
| send: "own_step (Own_Owned c e g) (Ev_Send c d) (Own_Transfer c e d g)"
| receive: "own_step (Own_Transfer c e d g) (Ev_Receive d) (Own_Owned d e' g)"
| drop: "own_step (Own_Transfer c e d g) (Ev_Drop d) (Own_Free g)"
| release: "own_step (Own_Owned c e g) (Ev_Release c) (Own_Free g)"
| rollback: "own_step (Own_Transfer c e d g) (Ev_Rollback c) (Own_Owned c e g)"
| redirect: "own_step (Own_Transfer c e d g) (Ev_Redirect d') (Own_Transfer c e d' g)"
| adopt: "own_step (Own_Owned c e g) (Ev_Adopt c e') (Own_Owned c e' (next_generation g))"
| reclaim_free: "own_step (Own_Free g) Ev_Reclaim (Own_Free g)"
| reclaim_owned: "own_step (Own_Owned c e g) Ev_Reclaim (Own_Free g)"
| reclaim_transfer: "own_step (Own_Transfer c e d g) Ev_Reclaim (Own_Free g)"

inductive_cases own_step_sendE: "own_step x (Ev_Send c d) y"
inductive_cases own_step_receiveE: "own_step x (Ev_Receive d) y"
inductive_cases own_step_releaseE: "own_step x (Ev_Release c) y"

type_synonym own_pool = "zipc_slot_id \<Rightarrow> own_state option"

definition own_pool_step :: "own_pool \<Rightarrow> own_event \<Rightarrow> own_pool \<Rightarrow> bool" where
  "own_pool_step A ev A' \<longleftrightarrow> (\<exists>i x y. A i = Some x \<and> own_step x ev y \<and> A' = A(i \<mapsto> y))"

fun own_generation :: "own_state \<Rightarrow> zipc_generation" where
  "own_generation (Own_Free g) = g"
| "own_generation (Own_Owned c e g) = g"
| "own_generation (Own_Transfer c e d g) = g"
| "own_generation (Own_Error g) = g"

subsection \<open>Abstraction\<close>

definition abs_claiming :: "zipc_slot_control \<Rightarrow> own_state" where
  "abs_claiming sl =
     (let kind = claim_token_kind (sc_claim_token sl); g = sc_generation sl in
      if kind = ZIPC_CLAIM_ALLOCATE then Own_Free g
      else if kind = ZIPC_CLAIM_RECEIVE
      then Own_Transfer (sc_transfer_source_id sl) (sc_transfer_source_epoch sl)
             (claim_token_component (sc_claim_token sl)) g
      else if kind = ZIPC_CLAIM_SEND \<or> kind = ZIPC_CLAIM_ROLLBACK
      then Own_Owned (sc_owner_id sl) (sc_owner_epoch sl) g
      else if kind = ZIPC_CLAIM_RELEASE
      then Own_Owned (sc_claim_previous_owner sl) (sc_claim_previous_owner_epoch sl) g
      else Own_Error g)"

definition abs_slot :: "zipc_slot_control \<Rightarrow> own_state" where
  "abs_slot sl =
     (case sc_state sl of
        ZIPC_SLOT_FREE \<Rightarrow> Own_Free (sc_generation sl)
      | ZIPC_SLOT_OWNED \<Rightarrow> Own_Owned (sc_owner_id sl) (sc_owner_epoch sl) (sc_generation sl)
      | ZIPC_SLOT_TRANSFER \<Rightarrow>
          Own_Transfer (sc_owner_id sl) (sc_owner_epoch sl) (sc_next_owner_id sl) (sc_generation sl)
      | ZIPC_SLOT_CLAIMING \<Rightarrow> abs_claiming sl
      | ZIPC_SLOT_ERROR \<Rightarrow> Own_Error (sc_generation sl))"

definition pool_abs :: "sys \<Rightarrow> zipc_pool \<Rightarrow> own_pool" where
  "pool_abs s p = (\<lambda>i. if i < ph_slot_count (hdr s p) then Some (abs_slot (slot_of s (slot_ptr p i))) else None)"

lemma pool_abs_frame:
  assumes "pool_shape s p" "frame {slot_ptr p i} s t" "i < ph_slot_count (hdr s p)"
  shows "pool_abs t p = (pool_abs s p)(i \<mapsto> abs_slot (slot_of t (slot_ptr p i)))"
proof
  fix j
  show "pool_abs t p j = ((pool_abs s p)(i \<mapsto> abs_slot (slot_of t (slot_ptr p i)))) j"
  proof (cases "j = i")
    case True
    then show ?thesis
      using assms frame_slot_count [OF assms(2)] by (simp add: pool_abs_def)
  next
    case False
    then have "slot_of t (slot_ptr p j) = slot_of s (slot_ptr p j)"
      by (intro frame_slot_eq [OF assms(2)]) simp
    then show ?thesis
      using False frame_slot_count [OF assms(2)] by (simp add: pool_abs_def)
  qed
qed

lemma pool_abs_unchanged:
  assumes "frame C s t" "\<And>i. slot_ptr p i \<in> C \<Longrightarrow> abs_slot (slot_of t (slot_ptr p i)) = abs_slot (slot_of s (slot_ptr p i))"
  shows "pool_abs t p = pool_abs s p"
proof
  fix j
  have "abs_slot (slot_of t (slot_ptr p j)) = abs_slot (slot_of s (slot_ptr p j))"
    using assms frame_slot_eq [OF assms(1), of "slot_ptr p j"] by (cases "slot_ptr p j \<in> C") simp_all
  then show "pool_abs t p j = pool_abs s p j"
    using frame_slot_count [OF assms(1)] by (simp add: pool_abs_def)
qed

lemma own_pool_step_frame:
  assumes "pool_shape s p" "frame {slot_ptr p i} s t" "i < ph_slot_count (hdr s p)"
    and "own_step (abs_slot (slot_of s (slot_ptr p i))) ev (abs_slot (slot_of t (slot_ptr p i)))"
  shows "own_pool_step (pool_abs s p) ev (pool_abs t p)"
  unfolding own_pool_step_def pool_abs_frame [OF assms(1-3)] using assms(3,4)
  by (intro exI conjI) (auto simp: pool_abs_def)

lemma abs_slot_same:
  assumes "same_slot sl sl'"
  shows "abs_slot sl' = abs_slot sl"
proof (cases "sc_state sl = ZIPC_SLOT_CLAIMING")
  case True
  then show ?thesis
    using assms by (auto simp: same_slot_def abs_slot_def)
next
  case False
  from assms have "slot_core sl' = slot_core sl" by (simp add: same_slot_def)
  note eqs = slot_core_fields [OF this]
  show ?thesis
    unfolding abs_slot_def eqs using False by (auto split: zipc_slot_state.split)
qed

subsection \<open>The operations keep the invariant and implement the machine\<close>

text \<open>What an operation that changes at most one slot owes: the invariant, quiescence, and its
  abstract event.\<close>

definition implements :: "zipc_pool \<Rightarrow> sys \<Rightarrow> own_event option \<Rightarrow> sys \<Rightarrow> bool" where
  "implements p s ev t \<longleftrightarrow>
     pool_inv t p \<and> (pool_quiet s p \<longrightarrow> pool_quiet t p) \<and> payload_of t = payload_of s \<and>
     (case ev of None \<Rightarrow> pool_abs t p = pool_abs s p
      | Some e \<Rightarrow> own_pool_step (pool_abs s p) e (pool_abs t p))"

lemma pool_inv_shape: "pool_inv s p \<Longrightarrow> pool_shape s p"
  by (simp add: pool_inv_def)

lemma implements_event:
  assumes "pool_inv s p" "frame {slot_ptr p i} s t" "i < ph_slot_count (hdr s p)" "gens_ready t"
    and "slot_wf (ph_slot_capacity (hdr s p)) (slot_of t (slot_ptr p i))"
    and "slot_quiet (slot_of s (slot_ptr p i)) \<Longrightarrow> slot_quiet (slot_of t (slot_ptr p i))"
    and "own_step (abs_slot (slot_of s (slot_ptr p i))) e (abs_slot (slot_of t (slot_ptr p i)))"
  shows "implements p s (Some e) t"
proof -
  note shape = pool_inv_shape [OF assms(1)]
  have "pool_quiet t p" if q: "pool_quiet s p"
    unfolding pool_quiet_def
    by (rule all_slots_frame [OF shape assms(2)])
      (use q assms(6) pool_quiet_slot [OF shape q assms(3)] in \<open>simp_all add: pool_quiet_def\<close>)
  then show ?thesis
    using assms pool_inv_frame [OF assms(1,2,4,5)] own_pool_step_frame [OF shape assms(2,3,7)]
    by (simp add: implements_def frame_def)
qed

lemma implements_untouched:
  assumes "pool_inv s p" "untouched (slot_ptr p i) s t"
  shows "implements p s None t"
proof -
  let ?c = "slot_ptr p i"
  note shape = pool_inv_shape [OF assms(1)]
  have fr: "frame {?c} s t" and gen: "sys_gen t = sys_gen s" and same: "same_slot (slot_of s ?c) (slot_of t ?c)"
    using assms(2) by (simp_all add: untouched_def)
  have abs: "pool_abs t p = pool_abs s p"
    by (rule pool_abs_unchanged [OF fr]) (use abs_slot_same [OF same] in auto)
  have slots: "list_all P (shm_controls (sys_shm t (pool_shm_ref p)))"
    if l: "list_all P (shm_controls (sys_shm s (pool_shm_ref p)))" and P: "\<And>x y. same_slot x y \<Longrightarrow> P x \<Longrightarrow> P y" for P
  proof -
    have "P (slot_of t (slot_ptr p j))" if "j < ph_slot_count (hdr s p)" for j
      using that l P [OF same] frame_slot_eq [OF fr, of "slot_ptr p j"]
      by (cases "j = i") (auto simp: all_slots_iff [OF shape])
    then show ?thesis
      using pool_shape_frame [OF shape fr] by (simp add: all_slots_iff)
  qed
  have "pool_inv t p"
    using assms(1) gen slots [of "slot_wf (ph_slot_capacity (hdr s p))"] same_slot_wf pool_shape_frame [OF shape fr]
    by (auto simp: pool_inv_def gens_ready_def)
  moreover have "pool_quiet t p" if "pool_quiet s p"
    using slots [of slot_quiet] that same_slot_quiet by (auto simp: pool_quiet_def)
  ultimately show ?thesis
    using abs fr by (simp add: implements_def frame_def)
qed

lemma holds_add:
  assumes "visited_wf v" "zipc_component_id_valid a"
  shows "holds (visited_set_add v a) a"
proof -
  have "a \<in> visited_components (visited_set_add v a)"
    using visited_components_add [OF assms] by simp
  then show ?thesis
    using assms(2) by (simp add: holds_def visited_components_def)
qed

lemma allocated_slot_wf:
  assumes "zipc_component_id_valid a" "issued_id a bid" "unat off + unat len \<le> unat cap"
  shows "slot_wf cap ((add_trace n a ev (allocated_slot a e h par off len d now bid sl))
           \<lparr>sc_state := ZIPC_SLOT_OWNED, sc_claim_token := 0\<rparr>)"
  using assms holds_add [OF visited_empty_wf assms(1)]
  by (simp add: slot_wf_def slot_live_def issued_def allocated_slot_def slot_shape_init issued_id_def)

lemma allocate_implements:
  assumes inv: "pool_inv s p"
  shows "\<exists>st b' t. buffer_allocate_internal (Some p) a par off len ep hop dur en (Some b) s = Some (st, b', t) \<and>
    (if st = ZIPC_OK then implements p s (Some (Ev_Allocate a)) t
     else implements p s None t \<or> implements p s (Some Ev_Allocation_Failed) t)"
proof -
  have shape: "pool_shape s p" and gens: "gens_ready s"
    using inv by (simp_all add: pool_inv_def)
  show ?thesis
  proof (cases rule: allocate_outcome [OF shape gens, of a par off len ep hop dur en b, case_names ok fail none])
    case (ok i t bid now n)
    have "own_step (abs_slot (slot_of s (slot_ptr p i))) (Ev_Allocate a) (abs_slot (slot_of t (slot_ptr p i)))"
      using ok(3) unfolding ok(9)
      by (simp add: abs_slot_def slot_available_def allocated_slot_def own_step.intros)
    moreover have "slot_wf (ph_slot_capacity (hdr s p)) (slot_of t (slot_ptr p i))"
      unfolding ok(9) using ok(4,8,5) by (rule allocated_slot_wf)
    ultimately have "implements p s (Some (Ev_Allocate a)) t"
      using ok(9) by (intro implements_event [OF inv ok(6,2) gens_ready_only_gen [OF gens ok(7)]])
        (simp_all add: slot_quiet_def)
    then show ?thesis
      using ok(1) by auto
  next
    case (fail i e t)
    have "slot_wf (ph_slot_capacity (hdr s p)) (slot_of t (slot_ptr p i)) \<and> slot_quiet (slot_of t (slot_ptr p i))"
      using fail(8,9) by (rule slot_freed_inv)
    moreover have "own_step (abs_slot (slot_of s (slot_ptr p i))) Ev_Allocation_Failed (abs_slot (slot_of t (slot_ptr p i)))"
      using fail(4,8,10) by (simp add: abs_slot_def slot_available_def slot_freed_def own_step.intros)
    ultimately have "implements p s (Some Ev_Allocation_Failed) t"
      by (intro implements_event [OF inv fail(6,3) gens_ready_only_gen [OF gens fail(7)]]) simp_all
    then show ?thesis
      using fail(1,2) by auto
  next
    case (none e t)
    have "untouched (slot_ptr p 0) s t"
      using none(3-5) by (simp add: untouched_def frame_empty)
    then have "implements p s None t"
      by (rule implements_untouched [OF inv])
    then show ?thesis
      using none(1,2) by auto
  qed
qed

lemma transfer_slot_wf:
  assumes "slot_wf cap sl" "sc_state sl = ZIPC_SLOT_OWNED" "zipc_component_id_valid dst" "sc_owner_id sl = src"
  shows "slot_wf cap ((add_trace n src ev (transfer_fields src dst link (sl\<lparr>sc_claim_previous_sequence := q\<rparr>)))
           \<lparr>sc_state := ZIPC_SLOT_TRANSFER, sc_claim_token := 0\<rparr>)"
  using assms by (simp add: slot_wf_def slot_live_def issued_def transfer_fields_def slot_shape_def)

lemma send_implements:
  assumes inv: "pool_inv s p"
    and res: "buffer_prepare_transfer_internal (Some p) h src dst link mo s = (st, msg, t)"
  shows "implements p s (if st = ZIPC_OK then Some (Ev_Send src dst) else None) t"
proof -
  let ?i = "zipc_handle_slot_id h"
  have shape: "pool_shape s p" and gens: "gens_ready s"
    using inv by (simp_all add: pool_inv_def)
  show ?thesis
  proof (cases rule: prepare_outcome [OF shape, of h src dst link mo, case_names ok refused])
    case (ok t' n)
    have own: "?i < ph_slot_count (hdr s p)" "sc_state (slot_of s (slot_ptr p ?i)) = ZIPC_SLOT_OWNED"
      "sc_owner_id (slot_of s (slot_ptr p ?i)) = src" "zipc_component_id_valid dst"
      using ok(3) by (simp_all add: send_ready_def owned_by_def Let_def)
    have "own_step (abs_slot (slot_of s (slot_ptr p ?i))) (Ev_Send src dst) (abs_slot (slot_of t' (slot_ptr p ?i)))"
      unfolding ok(7) using own by (simp add: abs_slot_def transfer_fields_def own_step.intros)
    moreover have "slot_wf (ph_slot_capacity (hdr s p)) (slot_of t' (slot_ptr p ?i))"
      unfolding ok(7) using pool_inv_slot [OF inv own(1)] own by (intro transfer_slot_wf)
    ultimately have "implements p s (Some (Ev_Send src dst)) t'"
      using ok(5,7) gens by (intro implements_event [OF inv ok(4) own(1)]) (simp_all add: slot_quiet_def gens_ready_def)
    then show ?thesis
      using ok(1) res by auto
  next
    case (refused e t')
    then show ?thesis
      using implements_untouched [OF inv refused(3)] res by auto
  qed
qed

lemma received_slot_wf:
  assumes "slot_wf cap sl" "sc_state sl = ZIPC_SLOT_TRANSFER" "zipc_component_id_valid r"
  shows "slot_wf cap ((add_trace n r ev (receive_fields r e now sl))\<lparr>sc_state := ZIPC_SLOT_OWNED, sc_claim_token := 0\<rparr>)"
  using assms holds_add [of "sc_visited sl" r]
  by (simp add: slot_wf_def slot_live_def issued_def receive_fields_def slot_shape_def)

lemma claim_implements:
  assumes inv: "pool_inv s p"
    and res: "zipc_buffer_claim (Some p) (Some m) r (Some b) s = (st, b', t)"
  shows "if st = ZIPC_OK then implements p s (Some (Ev_Receive r)) t
         else implements p s None t \<or> implements p s (Some (Ev_Drop r)) t \<and> b' = Some buffer_zero"
proof -
  let ?i = "zipc_handle_slot_id (msg_handle m)"
  have gens: "gens_ready s" using inv by (simp add: pool_inv_def)
  show ?thesis
  proof (cases rule: claim_outcome [OF inv, where m = m and r = r and b = b, case_names ok dropped refused])
    case (ok t' n)
    have rd: "?i < ph_slot_count (hdr s p)" "sc_state (slot_of s (slot_ptr p ?i)) = ZIPC_SLOT_TRANSFER"
      "sc_next_owner_id (slot_of s (slot_ptr p ?i)) = r" "zipc_component_id_valid r"
      using ok(2) by (simp_all add: claim_ready_def claim_matches_def Let_def)
    have "own_step (abs_slot (slot_of s (slot_ptr p ?i))) (Ev_Receive r) (abs_slot (slot_of t' (slot_ptr p ?i)))"
      unfolding ok(6) using rd by (simp add: abs_slot_def receive_fields_def own_step.intros)
    moreover have "slot_wf (ph_slot_capacity (hdr s p)) (slot_of t' (slot_ptr p ?i))"
      unfolding ok(6) using pool_inv_slot [OF inv rd(1)] rd by (intro received_slot_wf)
    ultimately have "implements p s (Some (Ev_Receive r)) t'"
      using ok(4,6) gens by (intro implements_event [OF inv ok(3) rd(1)]) (simp_all add: slot_quiet_def gens_ready_def)
    then show ?thesis
      using ok(1) res by auto
  next
    case (dropped e t')
    have rd: "?i < ph_slot_count (hdr s p)" "sc_state (slot_of s (slot_ptr p ?i)) = ZIPC_SLOT_TRANSFER"
      "sc_next_owner_id (slot_of s (slot_ptr p ?i)) = r"
      using dropped(3) by (simp_all add: claim_ready_def claim_matches_def Let_def)
    have "own_step (abs_slot (slot_of s (slot_ptr p ?i))) (Ev_Drop r) (abs_slot (slot_of t' (slot_ptr p ?i)))"
      using rd dropped(7,8) by (simp add: abs_slot_def slot_freed_def own_step.intros)
    moreover have "slot_wf (ph_slot_capacity (hdr s p)) (slot_of t' (slot_ptr p ?i)) \<and> slot_quiet (slot_of t' (slot_ptr p ?i))"
      using dropped(7,9) by (rule slot_freed_inv)
    ultimately have "implements p s (Some (Ev_Drop r)) t'"
      using dropped(6) gens by (intro implements_event [OF inv dropped(5) rd(1)]) (simp_all add: gens_ready_def)
    then show ?thesis
      using dropped(1,2) res by auto
  next
    case (refused e t')
    then show ?thesis
      using implements_untouched [OF inv refused(3)] res by auto
  qed
qed

lemma release_implements:
  assumes inv: "pool_inv s p" and res: "zipc_pool_buffer_release (Some p) h a s = (st, t)"
  shows "implements p s (if st = ZIPC_OK then Some (Ev_Release a) else None) t"
proof -
  let ?i = "zipc_handle_slot_id h"
  have shape: "pool_shape s p" and gens: "gens_ready s"
    using inv by (simp_all add: pool_inv_def)
  show ?thesis
  proof (cases rule: release_outcome [OF shape, of h a, case_names ok refused])
    case (ok t')
    have own: "?i < ph_slot_count (hdr s p)" "sc_state (slot_of s (slot_ptr p ?i)) = ZIPC_SLOT_OWNED"
      "sc_owner_id (slot_of s (slot_ptr p ?i)) = a"
      using ok(2) by (simp_all add: release_ready_def owned_by_def Let_def)
    have "own_step (abs_slot (slot_of s (slot_ptr p ?i))) (Ev_Release a) (abs_slot (slot_of t' (slot_ptr p ?i)))"
      using own ok(5,6) by (simp add: abs_slot_def slot_freed_def own_step.intros)
    moreover have "slot_wf (ph_slot_capacity (hdr s p)) (slot_of t' (slot_ptr p ?i)) \<and> slot_quiet (slot_of t' (slot_ptr p ?i))"
      using ok(5) pool_inv_slot [OF inv own(1)] by (intro slot_freed_inv ok(8)) (simp_all add: slot_wf_def)
    ultimately have "implements p s (Some (Ev_Release a)) t'"
      using ok(4) gens by (intro implements_event [OF inv ok(3) own(1)]) (simp_all add: gens_ready_def)
    then show ?thesis
      using ok(1) res by auto
  next
    case (refused e t')
    then show ?thesis
      using implements_untouched [OF inv refused(3)] res by auto
  qed
qed

text \<open>Operations that change a slot without changing who holds it.\<close>

lemma implements_silent:
  assumes "pool_inv s p" "frame {slot_ptr p i} s t" "i < ph_slot_count (hdr s p)" "gens_ready t"
    and "slot_wf (ph_slot_capacity (hdr s p)) (slot_of t (slot_ptr p i))"
    and "slot_quiet (slot_of s (slot_ptr p i)) \<Longrightarrow> slot_quiet (slot_of t (slot_ptr p i))"
    and "abs_slot (slot_of t (slot_ptr p i)) = abs_slot (slot_of s (slot_ptr p i))"
  shows "implements p s None t"
proof -
  note shape = pool_inv_shape [OF assms(1)]
  have "pool_quiet t p" if q: "pool_quiet s p"
    unfolding pool_quiet_def
    by (rule all_slots_frame [OF shape assms(2)])
      (use q assms(6) pool_quiet_slot [OF shape q assms(3)] in \<open>simp_all add: pool_quiet_def\<close>)
  moreover have "pool_abs t p = pool_abs s p"
    by (rule pool_abs_unchanged [OF assms(2)]) (use assms(7) in auto)
  ultimately show ?thesis
    using assms(2) pool_inv_frame [OF assms(1,2,4,5)] by (simp add: implements_def frame_def)
qed

lemma buffer_owned_slot:
  assumes "buffer_owned s (Some b)" "view_in s p b"
  shows "sc_state (slot_of s (slot_ptr p (buf_slot_id b))) = ZIPC_SLOT_OWNED"
  using assms by (simp add: buffer_owned_def view_in_def Let_def)

lemma set_region_implements:
  assumes inv: "pool_inv s p" and view: "view_in s p b"
    and res: "zipc_buffer_set_region (Some b) off len s = (st, b', t)"
  shows "implements p s None t"
proof (cases rule: set_region_outcome [OF pool_inv_shape [OF inv] view, of off len, case_names ok refused])
  case (ok t')
  let ?i = "buf_slot_id b"
  have lt: "?i < ph_slot_count (hdr s p)" using view unfolding view_in_def by metis
  note st = buffer_owned_slot [OF ok(2) view]
  have wf: "slot_wf (ph_slot_capacity (hdr s p)) (slot_of t' (slot_ptr p ?i))"
    using pool_inv_slot [OF inv lt] ok(3) st unfolding ok(6)
    by (simp add: slot_wf_def slot_live_def issued_def slot_shape_def region_fits_def)
  have "gens_ready t'"
    using inv ok(5) by (simp add: pool_inv_def gens_ready_def)
  moreover have "abs_slot (slot_of t' (slot_ptr p ?i)) = abs_slot (slot_of s (slot_ptr p ?i))"
    unfolding ok(6) using st by (simp add: abs_slot_def)
  ultimately have "implements p s None t'"
    using wf unfolding ok(6) by (intro implements_silent [OF inv ok(4) lt]) (simp_all add: ok(6) slot_quiet_def)
  then show ?thesis
    using ok(1) res by auto
next
  case (refused e)
  then have "t = s" using res by auto
  then show ?thesis
    using inv by (simp add: implements_def)
qed

end
