(* ===== verification/Recovery.thy ===== *)
theory Recovery
  imports Ownership
begin

text \<open>
  Recovery against the ownership contract: the online restart of a terminated component
  (\<open>zipc_component_restart_begin\<close>, \<open>_next\<close>, \<open>_finish\<close>) and the two quiescent recoveries. An interrupted
  operation is undone, so that abstractly it never happened, and a buffer of the dead epoch is
  adopted by the new one.
\<close>

subsection \<open>Adoption\<close>

lemma implements_slot_same:
  assumes "pool_inv s p" "frame {slot_ptr p i} s t" "i < ph_slot_count (hdr s p)" "sys_gen t = sys_gen s"
    and "slot_wf (ph_slot_capacity (hdr s p)) sl" "slot_of t (slot_ptr p i) = sl"
    and "slot_quiet (slot_of s (slot_ptr p i)) \<Longrightarrow> slot_quiet sl"
    and "abs_slot sl = abs_slot (slot_of s (slot_ptr p i))"
  shows "implements p s None t"
proof (rule implements_silent [OF assms(1-3)])
  show "gens_ready t"
    using assms(1,4) by (simp add: pool_inv_def gens_ready_def)
qed (use assms(5-8) in auto)

lemma component_upd_reads [simp]:
  "slot_of (upd_component p c f s) = slot_of s" "slot_ptr_ok (upd_component p c f s) = slot_ptr_ok s"
  "sys_gen (upd_component p c f s) = sys_gen s"
  by (simp_all add: upd_component_def fun_eq_iff)

definition adopted_slot :: "u32 \<Rightarrow> u64 \<Rightarrow> zipc_slot_control \<Rightarrow> zipc_slot_control" where
  "adopted_slot epoch now sl =
     sl\<lparr>sc_generation := next_generation (sc_generation sl), sc_owner_epoch := epoch, sc_acquired_ns := now,
        sc_recovery_count := sc_recovery_count sl + 1\<rparr>"

lemma adopted_slot_wf:
  assumes "slot_wf cap sl" "sc_state sl = ZIPC_SLOT_OWNED"
  shows "slot_wf cap ((add_trace n c ev (adopted_slot e now sl))\<lparr>sc_state := ZIPC_SLOT_OWNED\<rparr>)"
  using assms by (simp add: slot_wf_def slot_live_def issued_def slot_shape_def adopted_slot_def)

text \<open>What the restart owes for every slot: the dead epoch does not own it, and a claim token of the
  dead epoch is left only on a slot in transfer, and there only when it is of a send or of a
  rollback. Such a token does not keep the receiver from claiming a sent buffer; the token of a
  rollback is cleared by the reconciliation of the link.\<close>

definition settled :: "zipc_restart \<Rightarrow> zipc_slot_control \<Rightarrow> bool" where
  "settled r sl \<longleftrightarrow>
     \<not> (sc_state sl = ZIPC_SLOT_OWNED \<and> sc_owner_id sl = rs_component r \<and> sc_owner_epoch sl = rs_dead_epoch r) \<and>
     (claim_token_component (sc_claim_token sl) = rs_component r \<and> claim_token_epoch (sc_claim_token sl) = rs_dead_epoch r \<longrightarrow>
        sc_state sl = ZIPC_SLOT_TRANSFER \<and> claim_token_kind (sc_claim_token sl) \<noteq> ZIPC_CLAIM_RECEIVE)"

lemma settled_iff:
  "settled r sl \<longleftrightarrow>
     \<not> (sc_state sl = ZIPC_SLOT_OWNED \<and> sc_owner_id sl = rs_component r \<and> sc_owner_epoch sl = rs_dead_epoch r) \<and>
     (token_of_dead r (sc_claim_token sl) \<longrightarrow>
        sc_state sl = ZIPC_SLOT_TRANSFER \<and> claim_token_kind (sc_claim_token sl) \<noteq> ZIPC_CLAIM_RECEIVE)"
  by (simp add: settled_def token_of_dead_def)

lemma restart_publish_outcome:
  fixes r p
  defines "i \<equiv> rs_cursor r"
  defines "c \<equiv> slot_ptr p i"
  assumes fr: "frame {c} s x" and gn: "sys_gen x = sys_gen s" and okx: "slot_ptr_ok x c"
    and slx: "slot_of x c = sl\<lparr>sc_state := ZIPC_SLOT_ERROR\<rparr>"
    and shp: "slot_shape (ph_slot_capacity (hdr s p)) sl"
  obtains t n now where
    "restart_publish r p b x = Restart_Adopted
       (Some (slot_view p (zipc_handle_make i (next_generation (sc_generation sl))) (hdr s p) (slot_of t c))) t"
    "frame {c} s t" "sys_gen t = sys_gen s"
    "slot_of t c = (add_trace n (rs_component r) ZIPC_TRACE_RECOVER (adopted_slot (rs_epoch r) now sl))
       \<lparr>sc_state := ZIPC_SLOT_OWNED\<rparr>"
proof -
  let ?g = "next_generation (sc_generation sl)" and ?now = "sys_clock x (sys_ticks x)"
  let ?h = "zipc_handle_make i ?g"
  define y where "y = upd_slot c (\<lambda>sl'. sl'\<lparr>sc_generation := ?g, sc_owner_epoch := rs_epoch r, sc_acquired_ns := ?now,
        sc_recovery_count := sc_recovery_count sl' + 1\<rparr>) (x\<lparr>sys_ticks := Suc (sys_ticks x)\<rparr>)"
  have y: "frame {c} s y" "sys_gen y = sys_gen s" "slot_ptr_ok y c"
    "slot_of y c = (adopted_slot (rs_epoch r) ?now sl)\<lparr>sc_state := ZIPC_SLOT_ERROR\<rparr>"
    using fr gn okx slx by (simp_all add: y_def slot_frame adopted_slot_def)
  define t where "t = store_state c ZIPC_SLOT_OWNED
      (upd_component p (rs_component r) (\<lambda>e. e\<lparr>cs_recovered_slots := cs_recovered_slots e + 1\<rparr>)
        (upd_hdr p (\<lambda>h. h\<lparr>ph_recovery_count := ph_recovery_count h + 1\<rparr>)
          (trace_slot (Some p) i (Some c) (rs_component r) ZIPC_TRACE_RECOVER y)))"
  have t: "frame {c} s t" "sys_gen t = sys_gen s" "slot_of t c = (add_trace (sys_clock y (sys_ticks y)) (rs_component r)
      ZIPC_TRACE_RECOVER (adopted_slot (rs_epoch r) ?now sl))\<lparr>sc_state := ZIPC_SLOT_OWNED\<rparr>"
    using y by (auto simp: t_def hdr_static_def lifecycles_def add_trace_def intro!: slot_frame)
  have hd: "ph_slot_capacity (hdr y p) = ph_slot_capacity (hdr s p)" "ph_slot_stride (hdr y p) = ph_slot_stride (hdr s p)"
    using y(1) by (simp_all add: frame_def hdr_static_def)
  have "make_view p i ?h b y = (ZIPC_OK, Some (slot_view p ?h (hdr y p) (slot_of y c)))"
    unfolding c_def
    by (rule make_view_ok) (use shp y(4) hd in \<open>simp_all add: c_def slot_shape_def region_fits_def adopted_slot_def\<close>)
  also have "slot_view p ?h (hdr y p) (slot_of y c) = slot_view p ?h (hdr s p) (slot_of t c)"
    by (rule slot_view_cong) (simp_all add: y(4) t(3) hd)
  finally have "restart_publish r p b x = Restart_Adopted (Some (slot_view p ?h (hdr s p) (slot_of t c))) t"
    using slx by (simp add: restart_publish_def i_def [symmetric] c_def [symmetric] zipc_now_ns_def y_def [symmetric]
        t_def [symmetric] Let_def)
  then show thesis
    using that t by blast
qed

text \<open>The states of the scan differ from the entry state \<open>s\<close> in one slot, whose content is
  \<open>sl\<close>; \<open>stands\<close> says that the abstract pool does not see the difference.\<close>

definition holds_slot :: "zipc_pool \<Rightarrow> u32 \<Rightarrow> sys \<Rightarrow> sys \<Rightarrow> zipc_slot_control \<Rightarrow> bool" where
  "holds_slot p i s x sl \<longleftrightarrow> frame {slot_ptr p i} s x \<and> sys_gen x = sys_gen s \<and>
     slot_ptr_ok x (slot_ptr p i) \<and> slot_of x (slot_ptr p i) = sl"

definition stands :: "zipc_pool \<Rightarrow> u32 \<Rightarrow> sys \<Rightarrow> zipc_slot_control \<Rightarrow> bool" where
  "stands p i s sl \<longleftrightarrow> slot_wf (ph_slot_capacity (hdr s p)) sl \<and> abs_slot sl = abs_slot (slot_of s (slot_ptr p i)) \<and>
     (slot_quiet (slot_of s (slot_ptr p i)) \<longrightarrow> slot_quiet sl)"

lemma holds_slot_start:
  assumes "pool_inv s p" "i < ph_slot_count (hdr s p)"
  shows "holds_slot p i s s (slot_of s (slot_ptr p i))" "stands p i s (slot_of s (slot_ptr p i))"
  using assms pool_inv_slot [OF assms] by (simp_all add: holds_slot_def stands_def pool_inv_def slot_ptr_ok_iff)

lemma holds_slot_steps:
  assumes "holds_slot p i s x sl"
  shows "holds_slot p i s (upd_slot (slot_ptr p i) f x) (f sl)"
    and "holds_slot p i s (store_state (slot_ptr p i) st x) (sl\<lparr>sc_state := st\<rparr>)"
    and "protect_slot (Some p) i g x = (e, y) \<Longrightarrow> holds_slot p i s y sl"
    and "holds_slot p i s (clear_claim_token (slot_ptr p i) tok x)
      (if sc_claim_token sl = tok then sl\<lparr>sc_claim_token := 0\<rparr> else sl)"
proof -
  show "holds_slot p i s y sl" if "protect_slot (Some p) i g x = (e, y)"
  proof -
    have "y = snd (protect_slot (Some p) i g x)" using that by simp
    then show ?thesis using assms by (simp add: holds_slot_def slot_frame)
  qed
qed (use assms in \<open>auto simp: holds_slot_def slot_frame\<close>)

lemma stands_implements:
  assumes "pool_inv s p" "i < ph_slot_count (hdr s p)" "holds_slot p i s x sl" "stands p i s sl"
  shows "implements p s None x"
  using assms by (intro implements_slot_same [OF assms(1), of i x sl]) (simp_all add: holds_slot_def stands_def)

text \<open>A slot whose state was moved aside and put back.\<close>

lemma restored_implements:
  assumes "pool_inv s p" "i < ph_slot_count (hdr s p)" "holds_slot p i s x (sl\<lparr>sc_state := z\<rparr>)" "stands p i s sl"
    and "sc_state sl = st"
  shows "implements p s None (store_state (slot_ptr p i) st x)"
proof -
  have "sl\<lparr>sc_state := st\<rparr> = sl" using assms(5) by (cases sl) simp
  then show ?thesis
    using stands_implements [OF assms(1,2) holds_slot_steps(2) [OF assms(3), of st]] assms(4) by simp
qed

text \<open>What one slot of the scan may come to: nothing abstractly and nothing of the dead epoch left, a
  refusal of the page protection, or an adoption.\<close>

definition restart_sound :: "zipc_restart \<Rightarrow> zipc_pool \<Rightarrow> sys \<Rightarrow> restart_outcome \<Rightarrow> bool" where
  "restart_sound r p s out \<longleftrightarrow>
     (let c = slot_ptr p (rs_cursor r)
      in case out of
           Restart_Skip t \<Rightarrow> implements p s None t \<and> frame {c} s t \<and> settled r (slot_of t c)
         | Restart_Stop e t \<Rightarrow> implements p s None t \<and> e \<noteq> ZIPC_OK \<and> pool_flags p AND ZIPC_POOL_F_STRICT_OWNERSHIP \<noteq> 0
         | Restart_Adopted b t \<Rightarrow> implements p s (Some (Ev_Adopt (rs_component r) (rs_epoch r))) t \<and> frame {c} s t \<and>
             (rs_epoch r \<noteq> rs_dead_epoch r \<longrightarrow> settled r (slot_of t c)) \<and>
             (\<exists>v. b = Some v \<and> buf_slot_id v = rs_cursor r))"

lemma protect_slot_fails:
  "protect_slot (Some p) i g x = (e, y) \<Longrightarrow> e \<noteq> ZIPC_OK \<Longrightarrow> pool_flags p AND ZIPC_POOL_F_STRICT_OWNERSHIP \<noteq> 0"
  by (auto simp: protect_slot_def split: if_splits)

lemma protect_slot_status:
  "fst (protect_slot po i g x) \<in> {ZIPC_OK, ZIPC_ERR_INVALID_HANDLE, ZIPC_ERR_UNSUPPORTED_MEMORY, ZIPC_ERR_INVALID_ARGUMENT, ZIPC_ERR_PLATFORM}"
  by (cases po; cases g) (simp_all add: protect_slot_def zipc_platform_memory_protect_rw_def zipc_platform_memory_protect_none_def
      platform_memory_protect_def Let_def split: option.split prod.split bool.split)

lemma slot_view_slot_id [simp]: "buf_slot_id (slot_view p (zipc_handle_make i g) H y) = i"
  by (simp add: slot_view_def Let_def)

lemma restart_publish_sound:
  assumes inv: "pool_inv s p" and lt: "rs_cursor r < ph_slot_count (hdr s p)"
    and x: "holds_slot p (rs_cursor r) s x (sl\<lparr>sc_state := ZIPC_SLOT_ERROR\<rparr>)" and sl: "stands p (rs_cursor r) s sl"
    and st: "sc_state sl = ZIPC_SLOT_OWNED" and tok: "\<not> token_of_dead r (sc_claim_token sl)"
    and own: "sc_owner_id sl = rs_component r" "sc_owner_epoch sl = rs_dead_epoch r"
  shows "restart_sound r p s (restart_publish r p b x)"
proof -
  let ?c = "slot_ptr p (rs_cursor r)"
  obtain t n now where t: "restart_publish r p b x = Restart_Adopted
       (Some (slot_view p (zipc_handle_make (rs_cursor r) (next_generation (sc_generation sl))) (hdr s p) (slot_of t ?c))) t"
    "frame {?c} s t" "sys_gen t = sys_gen s"
    "slot_of t ?c = (add_trace n (rs_component r) ZIPC_TRACE_RECOVER (adopted_slot (rs_epoch r) now sl))
       \<lparr>sc_state := ZIPC_SLOT_OWNED\<rparr>"
    by (rule restart_publish_outcome [of p r s x sl b]) (use x sl in \<open>simp_all add: holds_slot_def stands_def slot_wf_def\<close>)
  have "own_step (abs_slot sl) (Ev_Adopt (rs_component r) (rs_epoch r)) (abs_slot (slot_of t ?c))"
    unfolding t(4) using st own by (simp add: abs_slot_def adopted_slot_def own_step.intros)
  moreover have "slot_quiet (slot_of t ?c)" if "slot_quiet (slot_of s ?c)"
    unfolding t(4) using sl that by (simp add: stands_def slot_quiet_def adopted_slot_def)
  moreover have "slot_wf (ph_slot_capacity (hdr s p)) (slot_of t ?c)"
    unfolding t(4) using sl st by (intro adopted_slot_wf) (simp_all add: stands_def)
  ultimately have "implements p s (Some (Ev_Adopt (rs_component r) (rs_epoch r))) t"
    using t(2,3) sl inv by (intro implements_event [OF inv _ lt]) (simp_all add: stands_def pool_inv_def gens_ready_def)
  moreover have "settled r (slot_of t ?c)" if "rs_epoch r \<noteq> rs_dead_epoch r"
    unfolding t(4) using that tok by (simp add: settled_iff adopted_slot_def)
  ultimately show ?thesis
    using t(1,2) by (simp add: restart_sound_def Let_def)
qed

lemma token_of_dead_zero: "zipc_component_id_valid (rs_component r) \<Longrightarrow> \<not> token_of_dead r 0"
  by (auto simp: token_of_dead_def zipc_component_id_valid_iff)

text \<open>A stable slot: adopted when the dead epoch owns it, otherwise left as it is.\<close>

lemma restart_adopt_sound:
  assumes inv: "pool_inv s p" and lt: "rs_cursor r < ph_slot_count (hdr s p)" and comp: "zipc_component_id_valid (rs_component r)"
    and u: "holds_slot p (rs_cursor r) s u sl0" "stands p (rs_cursor r) s sl0" "sc_state sl0 = ZIPC_SLOT_OWNED"
    and tok: "sc_claim_token sl0 = tok \<or> sc_claim_token sl0 = 0"
  shows "restart_sound r p s (restart_adopt r p tok b u)"
proof -
  let ?i = "rs_cursor r" and ?c = "slot_ptr p (rs_cursor r)"
  define v where "v = (if token_of_dead r tok then clear_claim_token ?c tok u else u)"
  define sl where "sl = slot_of v ?c"
  have v: "holds_slot p ?i s v sl" and "sl = sl0 \<or> sl = sl0\<lparr>sc_claim_token := 0\<rparr>"
    and undead: "\<not> token_of_dead r (sc_claim_token sl)"
    using u(1) holds_slot_steps(4) [OF u(1), of tok] tok token_of_dead_zero [OF comp]
    by (auto simp: v_def sl_def holds_slot_def split: if_splits)
  then have sl: "stands p ?i s sl" "sc_state sl = ZIPC_SLOT_OWNED"
    using u(2,3) by (auto simp: stands_def slot_wf_def slot_live_def issued_def abs_slot_def slot_quiet_def)
  define w where "w = upd_slot ?c (\<lambda>sl. sl\<lparr>sc_state := ZIPC_SLOT_ERROR\<rparr>) v"
  have w: "holds_slot p ?i s w (sl\<lparr>sc_state := ZIPC_SLOT_ERROR\<rparr>)"
    unfolding w_def by (rule holds_slot_steps(1) [OF v])
  obtain e x where pr: "protect_slot (Some p) ?i True w = (e, x)" by fastforce
  note x = holds_slot_steps(3) [OF w pr]
  let ?dead = "sc_owner_id sl = rs_component r \<and> sc_owner_epoch sl = rs_dead_epoch r"
  have unf: "restart_adopt r p tok b u =
      (if \<not> ?dead then Restart_Skip (store_state ?c ZIPC_SLOT_OWNED w)
       else if e \<noteq> ZIPC_OK then Restart_Stop e (store_state ?c ZIPC_SLOT_OWNED x)
       else restart_publish r p b x)"
    using sl(2) w pr unfolding restart_adopt_def Let_def v_def [symmetric] sl_def
    by (simp add: cas_state_def w_def [symmetric] holds_slot_def)
  have "frame {?c} s (store_state ?c ZIPC_SLOT_OWNED w)" "\<not> ?dead \<Longrightarrow> settled r (slot_of (store_state ?c ZIPC_SLOT_OWNED w) ?c)"
    using holds_slot_steps(2) [OF w, of ZIPC_SLOT_OWNED] undead by (auto simp: settled_iff holds_slot_def)
  then show ?thesis
    unfolding unf using restored_implements [OF inv lt w sl] restored_implements [OF inv lt x sl] protect_slot_fails [OF pr]
      restart_publish_sound [OF inv lt x sl undead, of b]
    by (simp add: restart_sound_def Let_def)
qed

subsection \<open>One slot of the restart scan\<close>

lemma token_free_sl [simp]: "sl\<lparr>sc_claim_token := sc_claim_token sl\<rparr> = sl"
  by (cases sl) simp

text \<open>Clearing the token of a stable slot.\<close>

lemma restart_clear_token:
  assumes inv: "pool_inv s p" and lt: "i < ph_slot_count (hdr s p)"
    and st: "sc_state (slot_of s (slot_ptr p i)) \<noteq> ZIPC_SLOT_CLAIMING"
  shows "implements p s None (clear_claim_token (slot_ptr p i) tok s)"
    "frame {slot_ptr p i} s (clear_claim_token (slot_ptr p i) tok s)"
proof -
  let ?c = "slot_ptr p i"
  have ok: "slot_ptr_ok s ?c"
    using inv lt by (simp add: pool_inv_def slot_ptr_ok_iff)
  show fr: "frame {?c} s (clear_claim_token ?c tok s)" by (simp add: slot_frame)
  have "same_slot (slot_of s ?c) (slot_of (clear_claim_token ?c tok s) ?c)"
    using ok st by (auto simp: same_slot_def)
  then show "implements p s None (clear_claim_token ?c tok s)"
    using fr by (intro implements_untouched [OF inv, of i]) (simp add: untouched_def)
qed

text \<open>Undoing an interrupted receive or allocation.\<close>

lemma undo_receive_same:
  assumes "slot_wf cap sl" "sc_state sl = ZIPC_SLOT_CLAIMING"
    and "claim_token_kind (sc_claim_token sl) = ZIPC_CLAIM_RECEIVE" "claim_token_component (sc_claim_token sl) = d"
    and "zipc_component_id_valid d"
  shows "slot_wf cap ((undo_receive d (sl\<lparr>sc_state := st\<rparr>))\<lparr>sc_state := ZIPC_SLOT_TRANSFER\<rparr>)"
    "abs_slot ((undo_receive d (sl\<lparr>sc_state := st\<rparr>))\<lparr>sc_state := ZIPC_SLOT_TRANSFER\<rparr>) = abs_slot sl"
  using assms
  by (auto simp: slot_wf_def slot_live_def issued_def claim_recoverable_def slot_shape_def undo_receive_def
      abs_slot_def abs_claiming_def zipc_claim_kind_defs Let_def)

lemma undo_allocate_same:
  assumes "slot_wf cap sl" "sc_state sl = ZIPC_SLOT_CLAIMING"
    and "claim_token_kind (sc_claim_token sl) = ZIPC_CLAIM_ALLOCATE" "slot_freed sl'"
    and "slot_shape cap sl \<Longrightarrow> slot_shape cap sl'" "sc_generation sl' = sc_generation sl"
  shows "slot_wf cap sl'" "abs_slot sl' = abs_slot sl"
  using assms slot_freed_inv [of sl' cap]
  by (auto simp: slot_wf_def slot_freed_def abs_slot_def abs_claiming_def zipc_claim_kind_defs Let_def)

lemma undo_owned_same:
  assumes "slot_wf cap sl" "sc_state sl = ZIPC_SLOT_CLAIMING" "kind = claim_token_kind (sc_claim_token sl)"
    and "kind \<noteq> ZIPC_CLAIM_RECEIVE" "kind \<noteq> ZIPC_CLAIM_ALLOCATE"
  shows "slot_wf cap ((undo_owned kind (sl\<lparr>sc_state := st\<rparr>))\<lparr>sc_state := ZIPC_SLOT_OWNED\<rparr>)"
    "abs_slot ((undo_owned kind (sl\<lparr>sc_state := st\<rparr>))\<lparr>sc_state := ZIPC_SLOT_OWNED\<rparr>) = abs_slot sl"
    "sc_state ((undo_owned kind (sl\<lparr>sc_state := st\<rparr>))\<lparr>sc_state := ZIPC_SLOT_OWNED\<rparr>) = ZIPC_SLOT_OWNED"
    "sc_claim_token ((undo_owned kind (sl\<lparr>sc_state := st\<rparr>))\<lparr>sc_state := ZIPC_SLOT_OWNED\<rparr>) = 0"
proof -
  have k: "kind = ZIPC_CLAIM_SEND \<or> kind = ZIPC_CLAIM_ROLLBACK \<or> kind = ZIPC_CLAIM_RELEASE"
    and rec: "claim_recoverable sl" and shp: "slot_shape cap sl"
    using assms by (auto simp: slot_wf_def claim_recoverable_def Let_def)
  from k show "slot_wf cap ((undo_owned kind (sl\<lparr>sc_state := st\<rparr>))\<lparr>sc_state := ZIPC_SLOT_OWNED\<rparr>)"
    using rec shp assms(3)
    by (auto simp: slot_wf_def slot_live_def issued_def claim_recoverable_def slot_shape_def undo_owned_def
        zipc_claim_kind_defs Let_def)
  from k show "abs_slot ((undo_owned kind (sl\<lparr>sc_state := st\<rparr>))\<lparr>sc_state := ZIPC_SLOT_OWNED\<rparr>) = abs_slot sl"
    using assms(2,3) by (auto simp: undo_owned_def abs_slot_def abs_claiming_def zipc_claim_kind_defs Let_def)
qed (simp_all add: undo_owned_def Let_def)

text \<open>A claim that the dead epoch left behind is undone.\<close>

lemma restart_slot_claiming:
  fixes r p s
  defines "sl \<equiv> slot_of s (slot_ptr p (rs_cursor r))"
  assumes inv: "pool_inv s p" and lt: "rs_cursor r < ph_slot_count (hdr s p)" and comp: "zipc_component_id_valid (rs_component r)"
    and st: "sc_state sl = ZIPC_SLOT_CLAIMING" and dead: "token_of_dead r (sc_claim_token sl)"
  shows "restart_sound r p s (restart_slot r p b s)"
proof -
  let ?i = "rs_cursor r" and ?c = "slot_ptr p (rs_cursor r)" and ?k = "claim_token_kind (sc_claim_token sl)"
  let ?out = "\<lambda>e x t. if e \<noteq> ZIPC_OK then Restart_Stop e (store_state ?c ZIPC_SLOT_CLAIMING x) else Restart_Skip t"
  note start = holds_slot_start [OF inv lt, folded sl_def]
  have wf: "slot_wf (ph_slot_capacity (hdr s p)) sl" using start(2) by (simp add: stands_def)
  have stand: "stands p ?i s sl'" if "slot_wf (ph_slot_capacity (hdr s p)) sl'" "abs_slot sl' = abs_slot sl" for sl'
    using that st by (simp add: stands_def sl_def slot_quiet_def)
  define u where "u = upd_slot ?c (\<lambda>sl. sl\<lparr>sc_state := ZIPC_SLOT_ERROR\<rparr>) s"
  have u: "holds_slot p ?i s u (sl\<lparr>sc_state := ZIPC_SLOT_ERROR\<rparr>)"
    unfolding u_def by (rule holds_slot_steps(1) [OF start(1)])
  obtain e x where pr: "protect_slot (Some p) ?i False u = (e, x)" by fastforce
  note x = holds_slot_steps(3) [OF u pr]
  have undone: "restart_sound r p s (?out e x t)"
    if "holds_slot p ?i s t sl'" "slot_wf (ph_slot_capacity (hdr s p)) sl'" "abs_slot sl' = abs_slot sl" "settled r sl'" for t sl'
    using that restored_implements [OF inv lt x start(2) st] protect_slot_fails [OF pr]
      stands_implements [OF inv lt that(1) stand [OF that(2,3)]]
    by (simp add: restart_sound_def holds_slot_def Let_def)
  have unf: "restart_slot r p b s =
     (if ?k = ZIPC_CLAIM_RECEIVE then
        ?out e x (store_state ?c ZIPC_SLOT_TRANSFER (upd_slot ?c (undo_receive (rs_component r)) x))
      else if ?k = ZIPC_CLAIM_ALLOCATE then ?out e x (free_claiming_slot ?c x)
      else restart_adopt r p (sc_claim_token sl) b (store_state ?c ZIPC_SLOT_OWNED (upd_slot ?c (undo_owned ?k) u)))"
    using st dead pr by (simp add: restart_slot_def sl_def [symmetric] cas_state_def u_def [symmetric] Let_def)
  consider (receive) "?k = ZIPC_CLAIM_RECEIVE" | (allocate) "?k \<noteq> ZIPC_CLAIM_RECEIVE" "?k = ZIPC_CLAIM_ALLOCATE"
    | (owned) "?k \<noteq> ZIPC_CLAIM_RECEIVE" "?k \<noteq> ZIPC_CLAIM_ALLOCATE" by blast
  then show ?thesis
  proof cases
    case receive
    have "claim_token_component (sc_claim_token sl) = rs_component r" using dead by (simp add: token_of_dead_def)
    note undone [OF holds_slot_steps(2) [OF holds_slot_steps(1) [OF x, of "undo_receive (rs_component r)"], of ZIPC_SLOT_TRANSFER]
        undo_receive_same [OF wf st receive this comp]]
    then show ?thesis using receive token_of_dead_zero [OF comp] unfolding unf by (simp add: settled_iff undo_receive_def)
  next
    case allocate
    have t: "holds_slot p ?i s (free_claiming_slot ?c x) (slot_of (free_claiming_slot ?c x) ?c)"
      and fr: "slot_freed (slot_of (free_claiming_slot ?c x) ?c)"
      and gt: "sc_generation (slot_of (free_claiming_slot ?c x) ?c) = sc_generation sl"
      and shp: "slot_shape cap sl \<Longrightarrow> slot_shape cap (slot_of (free_claiming_slot ?c x) ?c)" for cap
      using x by (simp_all add: holds_slot_def slot_frame slot_freed_def slot_shape_freed)
    have "settled r (slot_of (free_claiming_slot ?c x) ?c)"
      using fr token_of_dead_zero [OF comp] by (simp add: settled_iff slot_freed_def)
    then show ?thesis
      using undone [OF t undo_allocate_same [OF wf st allocate(2) fr shp gt]] allocate unfolding unf by simp
  next
    case owned
    note undo = undo_owned_same [OF wf st refl owned]
    show ?thesis
      using restart_adopt_sound [OF inv lt comp holds_slot_steps(2) [OF holds_slot_steps(1) [OF u, of "undo_owned ?k"], of ZIPC_SLOT_OWNED]
          stand [OF undo(1,2)] undo(3), of "sc_claim_token sl" b] owned undo(4)
      unfolding unf by simp
  qed
qed

lemma implements_refl: "pool_inv s p \<Longrightarrow> implements p s None s"
  by (simp add: implements_def)

lemma implements_trans: "implements p s None t \<Longrightarrow> implements p t ev u \<Longrightarrow> implements p s ev u"
  by (auto simp: implements_def split: option.splits)

lemma restart_slot_sound:
  assumes inv: "pool_inv s p" and lt: "rs_cursor r < ph_slot_count (hdr s p)" and comp: "zipc_component_id_valid (rs_component r)"
  shows "restart_sound r p s (restart_slot r p b s)"
proof -
  let ?c = "slot_ptr p (rs_cursor r)"
  define sl where "sl = slot_of s ?c"
  note start = holds_slot_start [OF inv lt, folded sl_def]
  note body = restart_slot_def [of r p b s, unfolded Let_def, folded sl_def]
  have ok: "slot_ptr_ok s ?c" using start(1) by (simp add: holds_slot_def)
  consider (clear) "sc_state sl = ZIPC_SLOT_FREE \<or> sc_state sl = ZIPC_SLOT_TRANSFER" "token_of_dead r (sc_claim_token sl)"
      "restart_slot r p b s = Restart_Skip (clear_claim_token ?c (sc_claim_token sl) s)"
    | (claiming) "sc_state sl = ZIPC_SLOT_CLAIMING" "token_of_dead r (sc_claim_token sl)"
    | (owned) "sc_state sl = ZIPC_SLOT_OWNED" "restart_slot r p b s = restart_adopt r p (sc_claim_token sl) b s"
    | (other) "restart_slot r p b s = Restart_Skip s" "settled r sl"
    using start(2) unfolding body
    by (cases "sc_state sl"; cases "token_of_dead r (sc_claim_token sl)";
        cases "claim_token_kind (sc_claim_token sl) = ZIPC_CLAIM_RECEIVE")
      (simp_all add: settled_iff slot_wf_def stands_def)
  then show ?thesis
  proof cases
    case clear
    then have "sc_state sl \<noteq> ZIPC_SLOT_CLAIMING" by auto
    note cl = restart_clear_token [OF inv lt, folded sl_def, OF this, of "sc_claim_token sl"]
    have "slot_of (clear_claim_token ?c (sc_claim_token sl) s) ?c = sl\<lparr>sc_claim_token := 0\<rparr>"
      using ok by (simp add: sl_def)
    then show ?thesis
      using cl clear token_of_dead_zero [OF comp] by (auto simp: restart_sound_def settled_iff Let_def)
  next
    case claiming
    then show ?thesis using restart_slot_claiming [OF inv lt comp, folded sl_def] by simp
  next
    case owned
    then show ?thesis using restart_adopt_sound [OF inv lt comp start, of "sc_claim_token sl" b] by simp
  next
    case other
    then show ?thesis using implements_refl [OF inv] by (simp add: restart_sound_def sl_def Let_def)
  qed
qed

subsection \<open>The restart scan\<close>

lemma restart_upd_simps:
  "rs_component (r\<lparr>rs_cursor := n\<rparr>) = rs_component r" "rs_epoch (r\<lparr>rs_cursor := n\<rparr>) = rs_epoch r"
  "rs_dead_epoch (r\<lparr>rs_cursor := n\<rparr>) = rs_dead_epoch r" "rs_pool (r\<lparr>rs_cursor := n\<rparr>) = rs_pool r"
  "rs_cursor (r\<lparr>rs_cursor := n\<rparr>) = n" "settled (r\<lparr>rs_cursor := n\<rparr>) = settled r"
  by (simp_all add: settled_def token_of_dead_def fun_eq_iff)

lemma restart_scan_outcome:
  assumes "pool_inv s p" "zipc_component_id_valid (rs_component r)" "rs_epoch r \<noteq> rs_dead_epoch r"
    and "restart_scan r p b s = (st, r', b', t)"
  shows "implements p s (if st = ZIPC_OK then Some (Ev_Adopt (rs_component r) (rs_epoch r)) else None) t \<and>
    rs_component r' = rs_component r \<and> rs_epoch r' = rs_epoch r \<and> rs_dead_epoch r' = rs_dead_epoch r \<and> rs_pool r' = rs_pool r \<and>
    rs_cursor r \<le> rs_cursor r' \<and>
    (\<forall>j. j < rs_cursor r \<longrightarrow> slot_of t (slot_ptr p j) = slot_of s (slot_ptr p j)) \<and>
    (\<forall>j. rs_cursor r \<le> j \<longrightarrow> j < rs_cursor r' \<longrightarrow> settled r (slot_of t (slot_ptr p j))) \<and>
    (st = ZIPC_ERR_NO_BUFFER \<and> rs_scan_complete r' \<and> ph_slot_count (hdr t p) \<le> rs_cursor r' \<or>
     st = ZIPC_OK \<and> b' \<noteq> None \<and> rs_cursor r < rs_cursor r' \<or>
     pool_flags p AND ZIPC_POOL_F_STRICT_OWNERSHIP \<noteq> 0)"
  using assms
proof (induction r p b s arbitrary: st r' b' t rule: restart_scan.induct)
  case (1 r p b s)
  note IH = 1(1) and inv = 1(2) and comp = 1(3) and ep = 1(4) and res = 1(5)
  let ?c = "slot_ptr p (rs_cursor r)"
  show ?case
  proof (cases "rs_cursor r < ph_slot_count (hdr s p)")
    case False
    then have "st = ZIPC_ERR_NO_BUFFER" "r' = r\<lparr>rs_scan_complete := True\<rparr>" "t = s"
      using 1(5) by (simp_all add: restart_scan.simps [of r])
    then show ?thesis
      using False inv by (auto simp: implements_refl not_less)
  next
    case True
    note below = less_succ_below [OF True] le_succ_below [OF True]
    have fr: "frame {?c} s (outcome_sys (restart_slot r p b s))"
      by (rule restart_slot_frame)
    have other: "slot_of u (slot_ptr p j) = slot_of s (slot_ptr p j)" if "frame {?c} s u" "j < rs_cursor r" for u j
      by (rule frame_slot_eq [OF that(1)]) (use that(2) in auto)
    note sound = restart_slot_sound [OF inv True comp, of b, unfolded restart_sound_def Let_def]
    show ?thesis
    proof (cases "restart_slot r p b s")
      case (Restart_Skip u)
      let ?r = "r\<lparr>rs_cursor := rs_cursor r + 1\<rparr>"
      have scan: "restart_scan ?r p b u = (st, r', b', t)"
        using res True Restart_Skip by (simp add: restart_scan.simps [of r])
      have u: "implements p s None u" "frame {?c} s u" "settled r (slot_of u ?c)" using sound Restart_Skip by simp_all
      have pre: "pool_inv u p" "zipc_component_id_valid (rs_component ?r)" "rs_epoch ?r \<noteq> rs_dead_epoch ?r"
        using u(1) comp ep by (simp_all add: implements_def)
      note post = IH [OF True Restart_Skip pre scan, unfolded restart_upd_simps]
      have "settled r (slot_of t (slot_ptr p j))" if "rs_cursor r \<le> j" "j < rs_cursor r'" for j
        using that post u(3) below by (cases "j = rs_cursor r") auto
      moreover have "slot_of t (slot_ptr p j) = slot_of s (slot_ptr p j)" if "j < rs_cursor r" for j
        using that post other [OF u(2)] below by auto
      moreover have "rs_cursor r < rs_cursor r'" using post below by blast
      ultimately show ?thesis
        using post implements_trans [OF u(1)] by (auto simp del: if_split)
    next
      case (Restart_Stop e u)
      then have eqs: "st = e" "r' = r" "b' = b" "t = u"
        using res True by (simp_all add: restart_scan.simps [of r])
      have "frame {?c} s u" using fr Restart_Stop by simp
      from sound other [OF this] show ?thesis
        unfolding eqs Restart_Stop by (simp add: leD)
    next
      case (Restart_Adopted w u)
      then have eqs: "st = ZIPC_OK" "r' = r\<lparr>rs_cursor := rs_cursor r + 1\<rparr>" "b' = w" "t = u"
        using res True by (simp_all add: restart_scan.simps [of r])
      have "settled r (slot_of u (slot_ptr p j))" if "rs_cursor r \<le> j" "j < rs_cursor r + 1" for j
        using that sound Restart_Adopted ep below by (cases "j = rs_cursor r") auto
      moreover have "rs_cursor r < rs_cursor r + 1"
        using below(1) [of "rs_cursor r"] by simp
      ultimately show ?thesis
        unfolding eqs using sound Restart_Adopted other [of u] by auto
    qed
  qed
qed

subsection \<open>Reclaiming a quiesced pool\<close>

definition own_star :: "own_pool \<Rightarrow> own_pool \<Rightarrow> bool" where
  "own_star = (\<lambda>A B. \<exists>ev. own_pool_step A ev B)\<^sup>*\<^sup>*"

lemma own_star_refl [simp, intro]: "own_star A A"
  by (simp add: own_star_def)

lemma own_star_step: "own_pool_step A ev B \<Longrightarrow> own_star B C \<Longrightarrow> own_star A C"
  unfolding own_star_def by (metis (mono_tags, lifting) converse_rtranclp_into_rtranclp)

lemma own_star_frame:
  assumes "pool_shape s p" "frame {slot_ptr p i} s t" "i < ph_slot_count (hdr s p)"
    and "abs_slot (slot_of t (slot_ptr p i)) = abs_slot (slot_of s (slot_ptr p i)) \<or>
      (\<exists>ev. own_step (abs_slot (slot_of s (slot_ptr p i))) ev (abs_slot (slot_of t (slot_ptr p i))))"
    and "own_star (pool_abs t p) B"
  shows "own_star (pool_abs s p) B"
  using assms(4)
proof
  assume "abs_slot (slot_of t (slot_ptr p i)) = abs_slot (slot_of s (slot_ptr p i))"
  then have "pool_abs t p = pool_abs s p"
    by (intro pool_abs_unchanged [OF assms(2)]) auto
  then show ?thesis using assms(5) by simp
next
  assume "\<exists>ev. own_step (abs_slot (slot_of s (slot_ptr p i))) ev (abs_slot (slot_of t (slot_ptr p i)))"
  then show ?thesis
    using own_pool_step_frame [OF assms(1-3)] assms(5) own_star_step by blast
qed

lemma trace_external_event_reads [simp]:
  "slot_of (trace_external_event po h q cm ev s) = slot_of s"
  "slot_ptr_ok (trace_external_event po h q cm ev s) = slot_ptr_ok s"
  "hdr (trace_external_event po h q cm ev s) = hdr s"
  "payload_of (trace_external_event po h q cm ev s) = payload_of s"
  "sys_gen (trace_external_event po h q cm ev s) = sys_gen s"
  by (simp_all add: trace_external_event_def Let_def split_beta)

lemma frame_trace_external_event [slot_frame]:
  "frame C s t \<Longrightarrow> frame C s (trace_external_event po h q cm ev t)"
  by (rule frame_reads) simp_all

definition reclaimed_slot :: "zipc_slot_control \<Rightarrow> zipc_slot_control" where
  "reclaimed_slot sl =
     (if sc_state sl = ZIPC_SLOT_CLAIMING then (claiming_reset sl)\<lparr>sc_state := ZIPC_SLOT_FREE\<rparr> else sl)"

lemma reclaimed_slot_wf: "slot_wf cap sl \<Longrightarrow> slot_wf cap (reclaimed_slot sl)"
  by (simp add: reclaimed_slot_def slot_wf_def slot_shape_def claiming_reset_def)

lemma reclaimed_slot_abs:
  assumes "slot_wf cap sl"
  shows "\<exists>ev. own_step (abs_slot sl) ev (abs_slot (reclaimed_slot sl)) \<or> abs_slot (reclaimed_slot sl) = abs_slot sl"
proof (cases "sc_state sl = ZIPC_SLOT_CLAIMING")
  case True
  then have "abs_slot (reclaimed_slot sl) = Own_Free (sc_generation sl)"
    by (simp add: reclaimed_slot_def abs_slot_def claiming_reset_def)
  moreover have "own_step (abs_slot sl) Ev_Reclaim (Own_Free (sc_generation sl))"
    using True assms
    by (auto simp: abs_slot_def abs_claiming_def slot_wf_def claim_recoverable_def Let_def intro: own_step.intros)
  ultimately show ?thesis by auto
qed (simp add: reclaimed_slot_def)

lemma recover_claiming_slot_outcome:
  assumes inv: "pool_inv s p" and lt: "i < ph_slot_count (hdr s p)"
    and lax: "pool_flags p AND ZIPC_POOL_F_STRICT_OWNERSHIP = 0"
  obtains t where
    "recover_claiming_slot p i k s =
       Inr (if sc_state (slot_of s (slot_ptr p i)) = ZIPC_SLOT_CLAIMING then k + 1 else k, t)"
    "frame {slot_ptr p i} s t" "sys_gen t = sys_gen s"
    "slot_of t (slot_ptr p i) = reclaimed_slot (slot_of s (slot_ptr p i))"
proof (cases "sc_state (slot_of s (slot_ptr p i)) = ZIPC_SLOT_CLAIMING")
  case True
  let ?c = "slot_ptr p i"
  have ok: "slot_ptr_ok s ?c"
    using inv lt by (simp add: pool_inv_def slot_ptr_ok_iff)
  define t where "t = trace_external_event (Some p) ZIPC_INVALID_HANDLE 0 ZIPC_INVALID_COMPONENT_ID ZIPC_TRACE_RECOVER
      (upd_hdr p (\<lambda>h. h\<lparr>ph_recovery_count := ph_recovery_count h + 1\<rparr>)
        (store_state ?c ZIPC_SLOT_FREE (upd_slot ?c claiming_reset
          (upd_slot ?c (\<lambda>sl. sl\<lparr>sc_state := ZIPC_SLOT_ERROR\<rparr>) s))))"
  have "recover_claiming_slot p i k s = Inr (k + 1, t)"
    using True lax by (simp add: recover_claiming_slot_def cas_state_def t_def Let_def)
  moreover have "frame {?c} s t"
    unfolding t_def by (intro slot_frame) (simp_all add: hdr_static_def lifecycles_def)
  moreover have "slot_of t ?c = reclaimed_slot (slot_of s ?c)" "sys_gen t = sys_gen s"
    using True ok by (simp_all add: t_def reclaimed_slot_def claiming_reset_def)
  ultimately show thesis
    using that [of t] True by simp
next
  case False
  then show thesis
    using that [of s] by (simp add: recover_claiming_slot_def reclaimed_slot_def Let_def)
qed

lemma pool_inv_reclaimed:
  assumes "pool_inv s p" "i < ph_slot_count (hdr s p)" "frame {slot_ptr p i} s t" "sys_gen t = sys_gen s"
    "slot_of t (slot_ptr p i) = reclaimed_slot (slot_of s (slot_ptr p i))"
  shows "pool_inv t p"
  using assms pool_inv_slot [OF assms(1,2)]
  by (intro pool_inv_frame [OF assms(1,3)]) (simp_all add: pool_inv_def gens_ready_def reclaimed_slot_wf)

lemma recover_claiming_scan_outcome:
  assumes "pool_inv s p" "pool_flags p AND ZIPC_POOL_F_STRICT_OWNERSHIP = 0"
    and "unat (ph_slot_count (hdr s p)) = unat i + n"
  shows "\<exists>k' t. recover_claiming_scan p i n k s = (ZIPC_OK, k', t) \<and> pool_inv t p \<and> own_star (pool_abs s p) (pool_abs t p) \<and>
    ph_slot_count (hdr t p) = ph_slot_count (hdr s p) \<and> payload_of t = payload_of s \<and>
    (\<forall>j. slot_of t (slot_ptr p j) =
       (if i \<le> j \<and> j < ph_slot_count (hdr s p) then reclaimed_slot (slot_of s (slot_ptr p j)) else slot_of s (slot_ptr p j)))"
  using assms
proof (induction n arbitrary: i k s)
  case 0
  then have "\<not> (i \<le> j \<and> j < ph_slot_count (hdr s p))" for j
    by (auto simp: word_le_nat_alt word_less_nat_alt)
  then show ?case
    using 0 by auto
next
  case (Suc n)
  have lt: "i < ph_slot_count (hdr s p)"
    using Suc.prems(3) by (simp add: word_less_nat_alt)
  obtain k1 u where u: "recover_claiming_slot p i k s = Inr (k1, u)" "frame {slot_ptr p i} s u" "sys_gen u = sys_gen s"
    "slot_of u (slot_ptr p i) = reclaimed_slot (slot_of s (slot_ptr p i))"
    using recover_claiming_slot_outcome [OF Suc.prems(1) lt Suc.prems(2)] by metis
  have inv: "pool_inv u p"
    by (rule pool_inv_reclaimed [OF Suc.prems(1) lt u(2-4)])
  have cnt: "ph_slot_count (hdr u p) = ph_slot_count (hdr s p)" "payload_of u = payload_of s"
    using u(2) by (simp_all add: frame_def hdr_static_def)
  have other: "slot_of u (slot_ptr p j) = slot_of s (slot_ptr p j)" if "j \<noteq> i" for j
    by (rule frame_slot_eq [OF u(2)]) (use that in simp)
  have "unat (ph_slot_count (hdr u p)) = unat (i + 1) + n"
    using Suc.prems(3) unat_succ_below [OF lt] cnt by simp
  from Suc.IH [OF inv Suc.prems(2) this, of k1] obtain k' t where t:
    "recover_claiming_scan p (i + 1) n k1 u = (ZIPC_OK, k', t)" "pool_inv t p" "own_star (pool_abs u p) (pool_abs t p)"
    "ph_slot_count (hdr t p) = ph_slot_count (hdr s p)" "payload_of t = payload_of s"
    "\<And>j. slot_of t (slot_ptr p j) =
       (if i + 1 \<le> j \<and> j < ph_slot_count (hdr s p) then reclaimed_slot (slot_of u (slot_ptr p j)) else slot_of u (slot_ptr p j))"
    using cnt by auto
  have "slot_of t (slot_ptr p j) = (if i \<le> j \<and> j < ph_slot_count (hdr s p) then reclaimed_slot (slot_of s (slot_ptr p j))
      else slot_of s (slot_ptr p j))" for j
    using t(6) [of j] u(4) other [of j] lt le_succ_below [OF lt, of j] by (cases "j = i") (auto simp: order_le_less)
  moreover have "own_star (pool_abs s p) (pool_abs t p)"
    using own_star_frame [OF pool_inv_shape [OF Suc.prems(1)] u(2) lt _ t(3)] u(4)
      reclaimed_slot_abs [OF pool_inv_slot [OF Suc.prems(1) lt]] by auto
  ultimately show ?case
    using u(1) t by simp
qed

subsection \<open>Reclaiming the slots of one dead epoch\<close>

definition dead_slot :: "zipc_component_id \<Rightarrow> u32 \<Rightarrow> u64 \<Rightarrow> u64 \<Rightarrow> zipc_slot_control \<Rightarrow> bool" where
  "dead_slot component epoch minimum_age now sl \<longleftrightarrow>
     (sc_state sl = ZIPC_SLOT_OWNED \<or> sc_state sl = ZIPC_SLOT_TRANSFER) \<and>
     sc_owner_id sl = component \<and> sc_owner_epoch sl = epoch \<and>
     (minimum_age = 0 \<or> sc_acquired_ns sl \<le> now \<and> minimum_age \<le> now - sc_acquired_ns sl)"

text \<open>What is left of a reclaimed slot; its claim token is not touched.\<close>

definition reclaims :: "zipc_slot_control \<Rightarrow> zipc_slot_control \<Rightarrow> bool" where
  "reclaims sl sl' \<longleftrightarrow>
     sc_state sl' = ZIPC_SLOT_FREE \<and> sc_owner_id sl' = ZIPC_INVALID_COMPONENT_ID \<and>
     sc_next_owner_id sl' = ZIPC_INVALID_COMPONENT_ID \<and> sc_region sl' = empty_region \<and>
     sc_generation sl' = sc_generation sl \<and> sc_claim_token sl' = sc_claim_token sl \<and>
     (\<forall>cap. slot_shape cap sl \<longrightarrow> slot_shape cap sl')"

lemma reclaims_wf: "reclaims sl sl' \<Longrightarrow> slot_wf cap sl \<Longrightarrow> slot_wf cap sl'"
  by (simp add: reclaims_def slot_wf_def)

lemma reclaims_abs: "reclaims sl sl' \<Longrightarrow> sc_state sl = ZIPC_SLOT_OWNED \<or> sc_state sl = ZIPC_SLOT_TRANSFER \<Longrightarrow>
    own_step (abs_slot sl) Ev_Reclaim (abs_slot sl')"
  by (auto simp: reclaims_def abs_slot_def intro: own_step.intros)

lemma recover_owner_slot_outcome:
  assumes inv: "pool_inv s p" and lt: "i < ph_slot_count (hdr s p)"
    and lax: "pool_flags p AND ZIPC_POOL_F_STRICT_OWNERSHIP = 0"
  obtains (dead) rr t where "recover_owner_slot p a ep age now i local s = Inr (rr, t)"
      "dead_slot a ep age now (slot_of s (slot_ptr p i))" "frame {slot_ptr p i} s t" "sys_gen t = sys_gen s"
      "reclaims (slot_of s (slot_ptr p i)) (slot_of t (slot_ptr p i))"
    | (alive) rr t where "recover_owner_slot p a ep age now i local s = Inr (rr, t)"
      "\<not> dead_slot a ep age now (slot_of s (slot_ptr p i))" "frame {slot_ptr p i} s t" "sys_gen t = sys_gen s"
      "slot_of t (slot_ptr p i) = slot_of s (slot_ptr p i)"
proof -
  let ?c = "slot_ptr p i"
  define sl where "sl = slot_of s ?c"
  have ok: "slot_ptr_ok s ?c"
    using inv lt by (simp add: pool_inv_def slot_ptr_ok_iff)
  define u where "u = upd_slot ?c (\<lambda>sl. sl\<lparr>sc_state := ZIPC_SLOT_ERROR\<rparr>) s"
  have u: "frame {?c} s u" "sys_gen u = sys_gen s" "slot_ptr_ok u ?c" "slot_of u ?c = sl\<lparr>sc_state := ZIPC_SLOT_ERROR\<rparr>"
    using ok by (simp_all add: u_def sl_def slot_frame)
  let ?b = "store_state ?c (sc_state sl) u"
  have b: "slot_of ?b ?c = sl" "frame {?c} s ?b" "sys_gen ?b = sys_gen s"
    using u by (simp_all add: slot_frame)
  define t where "t = upd_component p a (\<lambda>e. e\<lparr>cs_recovered_slots := cs_recovered_slots e + 1\<rparr>)
      (upd_hdr p (\<lambda>h. h\<lparr>ph_recovery_count := ph_recovery_count h + 1\<rparr>) (store_state ?c ZIPC_SLOT_FREE
        (upd_slot ?c (\<lambda>sl. sl\<lparr>sc_recovery_count := sc_recovery_count sl + 1, sc_error_flags := sc_error_flags sl OR 1,
            sc_owner_id := ZIPC_INVALID_COMPONENT_ID, sc_next_owner_id := ZIPC_INVALID_COMPONENT_ID,
            sc_region := empty_region\<rparr>)
          (trace_slot (Some p) i (Some ?c) a ZIPC_TRACE_RECOVER u))))"
  have t: "frame {?c} s t" "sys_gen t = sys_gen s" "reclaims sl (slot_of t ?c)"
    using u by (auto simp: t_def hdr_static_def lifecycles_def reclaims_def slot_shape_def intro!: slot_frame)
  consider "dead_slot a ep age now sl" | "\<not> dead_slot a ep age now sl" "sc_state sl = ZIPC_SLOT_OWNED \<or> sc_state sl = ZIPC_SLOT_TRANSFER"
    | "\<not> (sc_state sl = ZIPC_SLOT_OWNED \<or> sc_state sl = ZIPC_SLOT_TRANSFER)" by blast
  then show thesis
  proof cases
    case 1
    then have "\<exists>rr. recover_owner_slot p a ep age now i local s = Inr (rr, t)"
      using lax u(4) by (auto simp: recover_owner_slot_def dead_slot_def cas_state_def sl_def [symmetric] u_def [symmetric]
          t_def Let_def not_less)
    then show thesis
      using dead 1 t by (auto simp: sl_def)
  next
    case 2
    then have "\<exists>rr. recover_owner_slot p a ep age now i local s = Inr (rr, ?b)"
      using lax u(4) by (auto simp: recover_owner_slot_def dead_slot_def cas_state_def sl_def [symmetric] u_def [symmetric]
          Let_def not_le)
    then show thesis
      using alive 2 b by (auto simp: sl_def)
  next
    case 3
    then have "recover_owner_slot p a ep age now i local s = Inr (local, s)" "\<not> dead_slot a ep age now sl"
      by (auto simp: recover_owner_slot_def dead_slot_def sl_def Let_def)
    then show thesis
      by (intro alive [of local s]) (simp_all add: sl_def)
  qed
qed

definition owner_recovered :: "zipc_component_id \<Rightarrow> u32 \<Rightarrow> u64 \<Rightarrow> u64 \<Rightarrow> zipc_slot_control \<Rightarrow> zipc_slot_control \<Rightarrow> bool" where
  "owner_recovered a ep age now sl sl' \<longleftrightarrow> (if dead_slot a ep age now sl then reclaims sl sl' else sl' = sl)"

lemma recover_owner_scan_outcome:
  assumes "pool_inv s p" "pool_flags p AND ZIPC_POOL_F_STRICT_OWNERSHIP = 0"
    and "unat (ph_slot_count (hdr s p)) = unat i + n"
  shows "\<exists>rr t. recover_owner_scan p a ep age now i n local s = (ZIPC_OK, rr, t) \<and> pool_inv t p \<and> own_star (pool_abs s p) (pool_abs t p) \<and>
    ph_slot_count (hdr t p) = ph_slot_count (hdr s p) \<and> payload_of t = payload_of s \<and>
    (\<forall>j. if i \<le> j \<and> j < ph_slot_count (hdr s p)
         then owner_recovered a ep age now (slot_of s (slot_ptr p j)) (slot_of t (slot_ptr p j))
         else slot_of t (slot_ptr p j) = slot_of s (slot_ptr p j))"
  using assms
proof (induction n arbitrary: i local s)
  case 0
  then have "\<not> (i \<le> j \<and> j < ph_slot_count (hdr s p))" for j
    by (auto simp: word_le_nat_alt word_less_nat_alt)
  then show ?case
    using 0 by auto
next
  case (Suc n)
  have lt: "i < ph_slot_count (hdr s p)"
    using Suc.prems(3) by (simp add: word_less_nat_alt)
  obtain rr1 u where u: "recover_owner_slot p a ep age now i local s = Inr (rr1, u)" "frame {slot_ptr p i} s u"
    "sys_gen u = sys_gen s" "owner_recovered a ep age now (slot_of s (slot_ptr p i)) (slot_of u (slot_ptr p i))"
    by (rule recover_owner_slot_outcome [OF Suc.prems(1) lt Suc.prems(2), of a ep age now local])
      (auto simp: owner_recovered_def)
  have "slot_wf (ph_slot_capacity (hdr s p)) (slot_of u (slot_ptr p i))"
    using u(4) pool_inv_slot [OF Suc.prems(1) lt] by (auto simp: owner_recovered_def reclaims_wf split: if_splits)
  then have inv: "pool_inv u p"
    using Suc.prems(1) u(3) by (intro pool_inv_frame [OF Suc.prems(1) u(2)]) (simp_all add: pool_inv_def gens_ready_def)
  have cnt: "ph_slot_count (hdr u p) = ph_slot_count (hdr s p)" "payload_of u = payload_of s"
    using u(2) by (simp_all add: frame_def hdr_static_def)
  have other: "slot_of u (slot_ptr p j) = slot_of s (slot_ptr p j)" if "j \<noteq> i" for j
    by (rule frame_slot_eq [OF u(2)]) (use that in simp)
  have "unat (ph_slot_count (hdr u p)) = unat (i + 1) + n"
    using Suc.prems(3) unat_succ_below [OF lt] cnt by simp
  from Suc.IH [OF inv Suc.prems(2) this, of rr1] obtain rr t where t:
    "recover_owner_scan p a ep age now (i + 1) n rr1 u = (ZIPC_OK, rr, t)" "pool_inv t p" "own_star (pool_abs u p) (pool_abs t p)"
    "ph_slot_count (hdr t p) = ph_slot_count (hdr s p)" "payload_of t = payload_of s"
    "\<And>j. if i + 1 \<le> j \<and> j < ph_slot_count (hdr s p)
       then owner_recovered a ep age now (slot_of u (slot_ptr p j)) (slot_of t (slot_ptr p j))
       else slot_of t (slot_ptr p j) = slot_of u (slot_ptr p j)"
    unfolding cnt by blast
  have "if i \<le> j \<and> j < ph_slot_count (hdr s p)
         then owner_recovered a ep age now (slot_of s (slot_ptr p j)) (slot_of t (slot_ptr p j))
         else slot_of t (slot_ptr p j) = slot_of s (slot_ptr p j)" for j
    using t(6) [of j] u(4) other [of j] lt le_succ_below [OF lt, of j] by (cases "j = i") (auto simp: order_le_less split: if_splits)
  moreover have "own_star (pool_abs s p) (pool_abs t p)"
    using own_star_frame [OF pool_inv_shape [OF Suc.prems(1)] u(2) lt _ t(3)] u(4) reclaims_abs
    by (auto simp: owner_recovered_def dead_slot_def split: if_splits)
  ultimately show ?case
    using u(1) t by simp
qed

end
