(* ===== verification/Pool_Machine.thy ===== *)
theory Pool_Machine
  imports Recovery
begin

text \<open>
  The pool as a state machine: \<open>cut_short\<close> are the values a component can leave a slot in when it
  dies in the middle of an allocation, send, claim, release or rollback, \<open>api_step\<close> adds the
  completed operations of the pool interface. All reachable
  states satisfy the invariant, and every step is a sequence of abstract ownership events.
\<close>

subsection \<open>Operations cut short\<close>

text \<open>The values of the addressed slot when the component that runs allocation, send, claim, release
  or the rollback of a send dies between two of its stores: before or after the token is taken, slot
  moved to \<open>CLAIMING\<close>, some of the fields rewritten (\<open>_writing\<close>: the fields that the operation
  writes, or back out of, have any value of the right shape), final state stored but token not yet
  cleared (\<open>_stored\<close>, \<open>_freed\<close>). A claim takes token and slot before it looks at the addressee, so
  \<open>receive_claiming\<close> holds of any receiver; the fields are rewritten by the addressee only. A token
  that is only taken may also be the one that was there, which is a death just before the take-over
  or a completed back-out.

  Not here: a death inside \<^verbatim>\<open>zipc_component_restart_next\<close>, \<^verbatim>\<open>zipc_pool_recover_owner\<close>,
  \<^verbatim>\<open>zipc_pool_recover_claiming\<close> or \<^verbatim>\<open>zipc_link_reconcile\<close>. These hold the slot in the \<open>ERROR\<close>
  state while they work on it, and no operation takes such a slot up again
  (\<open>error_slot_is_lost\<close> in \<open>Recovery_Properties\<close>).\<close>

definition token_taken :: "u64 \<Rightarrow> zipc_slot_control \<Rightarrow> zipc_slot_control" where
  "token_taken tok sl = sl\<lparr>sc_claim_token := tok\<rparr>"

definition claiming :: "u64 \<Rightarrow> zipc_slot_control \<Rightarrow> zipc_slot_control" where
  "claiming tok sl = sl\<lparr>sc_claim_token := tok, sc_state := ZIPC_SLOT_CLAIMING\<rparr>"

definition emptied :: "zipc_slot_control \<Rightarrow> zipc_slot_control" where
  "emptied sl = sl\<lparr>sc_owner_id := ZIPC_INVALID_COMPONENT_ID, sc_next_owner_id := ZIPC_INVALID_COMPONENT_ID,
     sc_region := empty_region, sc_state := ZIPC_SLOT_FREE\<rparr>"

inductive cut_short :: "zipc_pool \<Rightarrow> sys \<Rightarrow> zipc_slot_id \<Rightarrow> zipc_slot_control \<Rightarrow> bool" for p s where
  allocate_token: "slot_available (slot_of s (slot_ptr p i)) \<Longrightarrow>
     cut_short p s i (token_taken tok (slot_of s (slot_ptr p i)))"
| allocate_writing: "slot_available (slot_of s (slot_ptr p i)) \<Longrightarrow> slot_shape (ph_slot_capacity (hdr s p)) sl \<Longrightarrow>
     sc_state sl = ZIPC_SLOT_CLAIMING \<Longrightarrow> claim_token_kind (sc_claim_token sl) = ZIPC_CLAIM_ALLOCATE \<Longrightarrow>
     sc_generation sl = sc_generation (slot_of s (slot_ptr p i)) \<or>
       sc_generation sl = next_generation (sc_generation (slot_of s (slot_ptr p i))) \<Longrightarrow> cut_short p s i sl"
| allocate_stored: "slot_available (slot_of s (slot_ptr p i)) \<Longrightarrow> zipc_component_id_valid a \<Longrightarrow> issued_id a bid \<Longrightarrow>
     unat off + unat len \<le> unat (ph_slot_capacity (hdr s p)) \<Longrightarrow>
     cut_short p s i ((allocated_slot a e hop par off len dur now bid (claiming tok (slot_of s (slot_ptr p i))))
        \<lparr>sc_state := ZIPC_SLOT_OWNED\<rparr>)"
| allocate_freed: "slot_available (slot_of s (slot_ptr p i)) \<Longrightarrow> slot_shape (ph_slot_capacity (hdr s p)) sl \<Longrightarrow>
     sc_generation sl = next_generation (sc_generation (slot_of s (slot_ptr p i))) \<Longrightarrow> cut_short p s i (emptied sl)"
| send_token: "owned_by s p h src \<Longrightarrow> i = zipc_handle_slot_id h \<Longrightarrow>
     cut_short p s i (token_taken tok ((slot_of s (slot_ptr p i))\<lparr>sc_claim_previous_sequence := q\<rparr>))"
| send_writing: "owned_by s p h src \<Longrightarrow> i = zipc_handle_slot_id h \<Longrightarrow> claim_token_kind tok = ZIPC_CLAIM_SEND \<Longrightarrow> visited_wf v \<Longrightarrow>
     cut_short p s i ((claiming tok ((slot_of s (slot_ptr p i))\<lparr>sc_claim_previous_sequence := q\<rparr>))
        \<lparr>sc_next_owner_id := n, sc_transfer_link_id := link, sc_transfer_source_id := ts, sc_transfer_source_epoch := te,
         sc_transfer_hop_count := th, sc_transfer_acquired_ns := ta, sc_transfer_visited := v, sc_transfer_sequence := tq\<rparr>)"
| send_stored: "owned_by s p h src \<Longrightarrow> i = zipc_handle_slot_id h \<Longrightarrow> zipc_component_id_valid dst \<Longrightarrow>
     cut_short p s i ((transfer_fields src dst link (claiming tok ((slot_of s (slot_ptr p i))\<lparr>sc_claim_previous_sequence := q\<rparr>)))
        \<lparr>sc_state := ZIPC_SLOT_TRANSFER\<rparr>)"
| receive_token: "claim_addressed s p m r \<Longrightarrow> i = zipc_handle_slot_id (msg_handle m) \<Longrightarrow>
     cut_short p s i (token_taken tok (slot_of s (slot_ptr p i)))"
| receive_claiming: "claim_addressed s p m r \<Longrightarrow> i = zipc_handle_slot_id (msg_handle m) \<Longrightarrow>
     claim_token_kind tok = ZIPC_CLAIM_RECEIVE \<Longrightarrow> cut_short p s i (claiming tok (slot_of s (slot_ptr p i)))"
| receive_writing: "claim_addressed s p m r \<Longrightarrow> i = zipc_handle_slot_id (msg_handle m) \<Longrightarrow>
     sc_next_owner_id (slot_of s (slot_ptr p i)) = r \<Longrightarrow> claim_token_component tok = r \<Longrightarrow>
     claim_token_kind tok = ZIPC_CLAIM_RECEIVE \<Longrightarrow> visited_wf v \<Longrightarrow> region_fits (ph_slot_capacity (hdr s p)) rg \<Longrightarrow>
     cut_short p s i ((claiming tok (slot_of s (slot_ptr p i)))
        \<lparr>sc_owner_id := a, sc_next_owner_id := n, sc_owner_epoch := e, sc_hop_count := hc, sc_visited := v,
         sc_acquired_ns := now, sc_region := rg\<rparr>)"
| receive_stored: "claim_addressed s p m r \<Longrightarrow> i = zipc_handle_slot_id (msg_handle m) \<Longrightarrow>
     sc_next_owner_id (slot_of s (slot_ptr p i)) = r \<Longrightarrow>
     cut_short p s i ((receive_fields r e now (claiming tok (slot_of s (slot_ptr p i))))\<lparr>sc_state := ZIPC_SLOT_OWNED\<rparr>)"
| receive_freed: "claim_addressed s p m r \<Longrightarrow> i = zipc_handle_slot_id (msg_handle m) \<Longrightarrow>
     sc_next_owner_id (slot_of s (slot_ptr p i)) = r \<Longrightarrow>
     cut_short p s i (emptied (receive_fields r e now (claiming tok (slot_of s (slot_ptr p i)))))"
| release_token: "owned_by s p h a \<Longrightarrow> i = zipc_handle_slot_id h \<Longrightarrow> region_fits (ph_slot_capacity (hdr s p)) rg \<Longrightarrow>
     cut_short p s i (token_taken tok ((slot_of s (slot_ptr p i))
        \<lparr>sc_claim_previous_region := rg, sc_claim_previous_owner := po, sc_claim_previous_owner_epoch := pe\<rparr>))"
| release_writing: "owned_by s p h a \<Longrightarrow> i = zipc_handle_slot_id h \<Longrightarrow> claim_token_kind tok = ZIPC_CLAIM_RELEASE \<Longrightarrow>
     region_fits (ph_slot_capacity (hdr s p)) rg \<Longrightarrow>
     cut_short p s i ((claiming tok (save_owner (slot_of s (slot_ptr p i))))
        \<lparr>sc_owner_id := o', sc_next_owner_id := n, sc_region := rg\<rparr>)"
| release_freed: "owned_by s p h a \<Longrightarrow> i = zipc_handle_slot_id h \<Longrightarrow>
     cut_short p s i (emptied (claiming tok (save_owner (slot_of s (slot_ptr p i)))))"
| rollback_token: "sc_state (slot_of s (slot_ptr p i)) = ZIPC_SLOT_TRANSFER \<Longrightarrow>
     cut_short p s i (token_taken tok ((slot_of s (slot_ptr p i))\<lparr>sc_claim_previous_sequence := q\<rparr>))"
| rollback_writing: "sc_state (slot_of s (slot_ptr p i)) = ZIPC_SLOT_TRANSFER \<Longrightarrow> claim_token_kind tok = ZIPC_CLAIM_ROLLBACK \<Longrightarrow>
     cut_short p s i ((claiming tok ((slot_of s (slot_ptr p i))\<lparr>sc_claim_previous_sequence := q\<rparr>))
        \<lparr>sc_next_owner_id := n, sc_transfer_sequence := tq\<rparr>)"
| rollback_stored: "sc_state (slot_of s (slot_ptr p i)) = ZIPC_SLOT_TRANSFER \<Longrightarrow>
     cut_short p s i ((slot_of s (slot_ptr p i))\<lparr>sc_claim_previous_sequence := q, sc_claim_token := tok,
        sc_next_owner_id := ZIPC_INVALID_COMPONENT_ID, sc_transfer_sequence := tq, sc_state := ZIPC_SLOT_OWNED\<rparr>)"
| traced: "cut_short p s i sl \<Longrightarrow> cut_short p s i (add_trace n cm ev sl)"

lemma own_events [simp]:
  "\<exists>ev. own_step (Own_Free g) ev (Own_Owned c e (next_generation g))"
  "\<exists>ev. own_step (Own_Free g) ev (Own_Free (next_generation g))"
  "\<exists>ev. own_step (Own_Owned c e g) ev (Own_Transfer c e d g)"
  "\<exists>ev. own_step (Own_Transfer c e d g) ev (Own_Owned d e' g)"
  "\<exists>ev. own_step (Own_Owned c e g) ev (Own_Free g)"
  "\<exists>ev. own_step (Own_Transfer c e d g) ev (Own_Free g)"
  "\<exists>ev. own_step (Own_Transfer c e d g) ev (Own_Transfer c e d' g)"
  "\<exists>ev. own_step (Own_Transfer c e d g) ev (Own_Owned c e g)"
  by (blast intro: own_step.intros)+

lemma slot_wf_add_trace [simp]: "slot_wf cap (add_trace n cm ev sl) \<longleftrightarrow> slot_wf cap sl"
  unfolding slot_wf_def slot_live_def issued_def claim_recoverable_def add_trace_simps slot_shape_add_trace ..

lemma abs_slot_add_trace [simp]: "abs_slot (add_trace n cm ev sl) = abs_slot sl"
  unfolding abs_slot_def abs_claiming_def add_trace_simps ..

text \<open>A cut-short operation leaves a well-formed slot; ownership is as before the operation, or as
  after it when the final state had been stored.\<close>

lemma cut_short_slot:
  assumes inv: "pool_inv s p" and lt: "i < ph_slot_count (hdr s p)" and cut: "cut_short p s i sl'"
  shows "slot_wf (ph_slot_capacity (hdr s p)) sl' \<and>
    (abs_slot sl' = abs_slot (slot_of s (slot_ptr p i)) \<or> (\<exists>ev. own_step (abs_slot (slot_of s (slot_ptr p i))) ev (abs_slot sl')))"
proof -
  let ?cap = "ph_slot_capacity (hdr s p)"
  have wf: "slot_wf ?cap (slot_of s (slot_ptr p i))" by (rule pool_inv_slot [OF inv lt])
  note defs = slot_wf_def slot_live_def issued_def claim_recoverable_def abs_slot_def abs_claiming_def token_taken_def claiming_def
    zipc_claim_kind_defs slot_available_def owned_by_def claim_addressed_def slot_shape_def Let_def
  show ?thesis
    using cut lt wf
  proof (induction rule: cut_short.induct)
    case (allocate_writing i sl)
    then show ?case by (auto simp: defs)
  next
    case (allocate_stored i a bid off len e hop par dur now tok)
    then show ?case
      using holds_add [OF visited_empty_wf, of a] slot_shape_init [OF allocate_stored(4)]
      by (simp add: defs allocated_slot_def issued_id_def)
  next
    case (receive_stored m r i e now tok)
    then show ?case
      using holds_add [of "sc_visited (slot_of s (slot_ptr p i))" r] by (simp add: defs receive_fields_def)
  next
    case (traced i sl n cm ev)
    then show ?case by simp
  qed (simp_all add: defs transfer_fields_def receive_fields_def save_owner_def emptied_def)
qed

subsection \<open>The component table\<close>

text \<open>Lifecycle changes touch neither the slots nor who holds them.\<close>

lemma upd_component_inv:
  "pool_inv (upd_component p c f s) p \<longleftrightarrow> pool_inv s p" "pool_quiet (upd_component p c f s) p \<longleftrightarrow> pool_quiet s p"
  "pool_abs (upd_component p c f s) p = pool_abs s p"
proof -
  have c: "shm_controls (sys_shm (upd_component p c f s) (pool_shm_ref p)) = shm_controls (sys_shm s (pool_shm_ref p))"
    by (simp add: upd_component_def upd_hdr_def Let_def)
  have h: "ph_slot_count (hdr (upd_component p c f s) p) = ph_slot_count (hdr s p)"
    "ph_slot_capacity (hdr (upd_component p c f s) p) = ph_slot_capacity (hdr s p)"
    "length (ph_components (hdr (upd_component p c f s) p)) = length (ph_components (hdr s p))"
    by (simp_all add: upd_component_def)
  show "pool_inv (upd_component p c f s) p \<longleftrightarrow> pool_inv s p" "pool_quiet (upd_component p c f s) p \<longleftrightarrow> pool_quiet s p"
    "pool_abs (upd_component p c f s) p = pool_abs s p"
    by (simp_all add: pool_inv_def pool_shape_def pool_quiet_def gens_ready_def pool_abs_def c h cong: if_cong)
qed

lemma payload_of_upd_component [simp]: "payload_of (upd_component p c f s) = payload_of s"
  by (simp add: upd_component_def fun_eq_iff)

lemma ticks_inv:
  "pool_inv (s\<lparr>sys_ticks := n\<rparr>) p \<longleftrightarrow> pool_inv s p" "pool_quiet (s\<lparr>sys_ticks := n\<rparr>) p \<longleftrightarrow> pool_quiet s p"
  "pool_abs (s\<lparr>sys_ticks := n\<rparr>) p = pool_abs s p"
  by (simp_all add: pool_inv_def pool_shape_def pool_quiet_def gens_ready_def pool_abs_def cong: if_cong)

lemma implements_component:
  "implements p s ev (upd_component p c f t) \<longleftrightarrow> implements p s ev t"
  "implements p s ev (t\<lparr>sys_ticks := n\<rparr>) \<longleftrightarrow> implements p s ev t"
  by (simp_all only: implements_def upd_component_inv ticks_inv payload_of_upd_component reads_local_update)

lemma implements_lifecycle:
  "implements p s ev (store_heartbeat p c t) \<longleftrightarrow> implements p s ev t"
  "implements p s ev (snd (cas_lifecycle p c e d t)) \<longleftrightarrow> implements p s ev t"
  by (simp_all add: store_heartbeat_def cas_lifecycle_def zipc_now_ns_def implements_component)

lemma register_implements:
  assumes "pool_inv s p" "zipc_component_register (Some p) c s = (st, e, t)"
  shows "implements p s None t"
  using assms implements_lifecycle implements_refl [OF assms(1)]
  by (auto simp: zipc_component_register_def Let_def split_beta split: if_splits)

lemma heartbeat_implements:
  assumes "pool_inv s p" "zipc_component_heartbeat (Some p) c e s = (st, t)"
  shows "implements p s None t"
  using assms implements_lifecycle implements_refl [OF assms(1)]
  by (auto simp: zipc_component_heartbeat_def Let_def split_beta split: if_splits)

lemma unregister_implements:
  assumes "pool_inv s p" "zipc_component_unregister (Some p) c e s = (st, t)"
  shows "implements p s None t"
  using assms implements_lifecycle implements_refl [OF assms(1)]
  by (auto simp: zipc_component_unregister_def Let_def split_beta split: if_splits)

lemma restart_begin_implements:
  assumes "pool_inv s p" "zipc_component_restart_begin (Some p) c e r s = (st, r', t)"
  shows "implements p s None t"
  using assms implements_lifecycle implements_refl [OF assms(1)]
  by (auto simp: zipc_component_restart_begin_def Let_def split_beta split: if_splits option.splits)

lemma restart_finish_implements:
  assumes "pool_inv s p" "rs_pool r = Some p" "zipc_component_restart_finish (Some r) s = (st, r', t)"
  shows "implements p s None t"
proof -
  have "t = s \<or> (\<exists>c e d. t = store_heartbeat p c (snd (cas_lifecycle p c e d s)))"
    using assms(2,3)
    by (auto simp: zipc_component_restart_finish_def Let_def cas_lifecycle_def split: if_splits)
  then show ?thesis
    using implements_refl [OF assms(1)] by (auto simp: implements_lifecycle)
qed

lemma epoch_successor: "rs_epoch r = rs_dead_epoch r + 1 \<Longrightarrow> rs_epoch r \<noteq> rs_dead_epoch r"
  by simp

lemma restart_next_implements:
  assumes "pool_inv s p" "rs_pool r = Some p" "zipc_component_restart_next (Some r) b s = (st, r', b', t)"
  shows "implements p s (if st = ZIPC_OK then Some (Ev_Adopt (rs_component r) (rs_epoch r)) else None) t"
proof (cases "b \<noteq> None \<and> component_epoch_recovering s (Some p) (rs_component r) (rs_epoch r) \<and> rs_epoch r = rs_dead_epoch r + 1")
  case True
  then have "zipc_component_id_valid (rs_component r)" "rs_epoch r \<noteq> rs_dead_epoch r"
    by (auto simp: component_epoch_recovering_def split: if_splits)
  moreover obtain r'' where "restart_scan r p (buffer_invalidate b) s = (st, r'', b', t)"
    using assms(2,3) True by (auto simp: zipc_component_restart_next_def split: prod.splits)
  ultimately show ?thesis
    using restart_scan_outcome [OF assms(1)] by blast
next
  case False
  then have "st = ZIPC_ERR_INVALID_ARGUMENT" "t = s"
    using assms(2,3) by (auto simp: zipc_component_restart_next_def split: option.splits if_splits)
  then show ?thesis
    using implements_refl [OF assms(1)] by simp
qed

subsection \<open>The step relation\<close>

text \<open>One completed operation of the pool interface, in any order and by any component, or the death
  of a component in the middle of an allocation, send, claim, release or rollback. The quiescent
  recoveries are steps of pools without strict ownership. The rollback of a send that the transport
  refused is part of the link layer; \<open>rollback_sound\<close> in \<open>Link_Channel\<close> shows the same of it.\<close>

inductive api_step :: "zipc_pool \<Rightarrow> sys \<Rightarrow> sys \<Rightarrow> bool" for p where
  allocate: "buffer_allocate_internal (Some p) a par off len ep hop dur en (Some b) s = Some (st, b', t) \<Longrightarrow> api_step p s t"
| set_region: "view_in s p vb \<Longrightarrow> zipc_buffer_set_region (Some vb) off len s = (st, b', t) \<Longrightarrow> api_step p s t"
| send: "buffer_prepare_transfer_internal (Some p) h src dst link mo s = (st, msg, t) \<Longrightarrow> api_step p s t"
| claim: "zipc_buffer_claim (Some p) (Some m) r (Some b) s = (st, b', t) \<Longrightarrow> api_step p s t"
| release: "zipc_pool_buffer_release (Some p) h a s = (st, t) \<Longrightarrow> api_step p s t"
| register: "zipc_component_register (Some p) c s = (st, e, t) \<Longrightarrow> api_step p s t"
| heartbeat: "zipc_component_heartbeat (Some p) c ep s = (st, t) \<Longrightarrow> api_step p s t"
| unregister: "zipc_component_unregister (Some p) c ep s = (st, t) \<Longrightarrow> api_step p s t"
| restart_begin: "zipc_component_restart_begin (Some p) c ep ro s = (st, ro', t) \<Longrightarrow> api_step p s t"
| restart_next: "rs_pool rs = Some p \<Longrightarrow> zipc_component_restart_next (Some rs) bo s = (st, ro', b', t) \<Longrightarrow> api_step p s t"
| restart_finish: "rs_pool rs = Some p \<Longrightarrow> zipc_component_restart_finish (Some rs) s = (st, ro', t) \<Longrightarrow> api_step p s t"
| recover_owner: "pool_flags p AND ZIPC_POOL_F_STRICT_OWNERSHIP = 0 \<Longrightarrow>
    zipc_pool_recover_owner (Some p) c ep age s = (st, rr, t) \<Longrightarrow> api_step p s t"
| recover_claiming: "pool_flags p AND ZIPC_POOL_F_STRICT_OWNERSHIP = 0 \<Longrightarrow>
    zipc_pool_recover_claiming (Some p) s = (st, n, t) \<Longrightarrow> api_step p s t"
| crash: "i < ph_slot_count (hdr s p) \<Longrightarrow> cut_short p s i sl' \<Longrightarrow> api_step p s (upd_slot (slot_ptr p i) (\<lambda>_. sl') s)"

lemma implements_star: "implements p s ev t \<Longrightarrow> pool_inv t p \<and> own_star (pool_abs s p) (pool_abs t p)"
  by (cases ev) (auto simp: implements_def intro: own_star_step)

lemma own_star_trans: "own_star A B \<Longrightarrow> own_star B C \<Longrightarrow> own_star A C"
  unfolding own_star_def by (rule rtranclp_trans)

lemma recover_owner_star:
  assumes "pool_inv s p" "pool_flags p AND ZIPC_POOL_F_STRICT_OWNERSHIP = 0"
    and "zipc_pool_recover_owner (Some p) c ep age s = (st, rr, t)"
  shows "pool_inv t p \<and> own_star (pool_abs s p) (pool_abs t p)"
proof -
  let ?s = "s\<lparr>sys_ticks := Suc (sys_ticks s)\<rparr>"
  consider "t = s" | "\<exists>local st' rr'. recover_owner_scan p c ep age (sys_clock s (sys_ticks s)) 0
      (unat (ph_slot_count (hdr ?s p))) local ?s = (st', rr', t)"
    using assms(3) by (auto simp: zipc_pool_recover_owner_def zipc_now_ns_def Let_def split: if_splits prod.splits)
  then show ?thesis
  proof cases
    case 2
    then obtain local st' rr' where scan: "recover_owner_scan p c ep age (sys_clock s (sys_ticks s)) 0
        (unat (ph_slot_count (hdr ?s p))) local ?s = (st', rr', t)" by blast
    have "pool_inv ?s p" using assms(1) by (simp add: ticks_inv)
    from recover_owner_scan_outcome [OF this assms(2), of 0 "unat (ph_slot_count (hdr ?s p))" c ep age
        "sys_clock s (sys_ticks s)" local] show ?thesis
      unfolding scan ticks_inv by simp
  qed (use assms(1) in simp)
qed

lemma recover_claiming_star:
  assumes "pool_inv s p" "pool_flags p AND ZIPC_POOL_F_STRICT_OWNERSHIP = 0"
    and "zipc_pool_recover_claiming (Some p) s = (st, n, t)"
  shows "pool_inv t p \<and> own_star (pool_abs s p) (pool_abs t p)"
  using assms recover_claiming_scan_outcome [OF assms(1,2), of 0 "unat (ph_slot_count (hdr s p))" 0]
  by (auto simp: zipc_pool_recover_claiming_def)

lemma crash_star:
  assumes "pool_inv s p" "i < ph_slot_count (hdr s p)" "cut_short p s i sl'"
  shows "pool_inv (upd_slot (slot_ptr p i) (\<lambda>_. sl') s) p \<and>
    own_star (pool_abs s p) (pool_abs (upd_slot (slot_ptr p i) (\<lambda>_. sl') s) p)"
proof -
  let ?t = "upd_slot (slot_ptr p i) (\<lambda>_. sl') s"
  have fr: "frame {slot_ptr p i} s ?t" by (simp add: slot_frame)
  have sl: "slot_of ?t (slot_ptr p i) = sl'"
    using assms(1,2) by (simp add: pool_inv_def slot_ptr_ok_iff)
  have "pool_inv ?t p"
    using assms(1) cut_short_slot [OF assms] by (intro pool_inv_frame [OF assms(1) fr]) (simp_all add: sl pool_inv_def gens_ready_def)
  moreover have "own_star (pool_abs s p) (pool_abs ?t p)"
    using cut_short_slot [OF assms] own_star_frame [OF pool_inv_shape [OF assms(1)] fr assms(2)] by (simp add: sl)
  ultimately show ?thesis by simp
qed

lemma api_step_sound:
  assumes "api_step p s t" "pool_inv s p"
  shows "pool_inv t p \<and> own_star (pool_abs s p) (pool_abs t p)"
  using assms
proof (cases rule: api_step.cases)
  case (allocate a par off len ep hop dur en b st b')
  then show ?thesis
    using allocate_implements [OF assms(2), of a par off len ep hop dur en b] implements_star
    by (auto split: if_splits)
next
  case (claim m r b st b')
  from claim_implements [OF assms(2) this] show ?thesis
    using implements_star by (auto split: if_splits)
next
  case (crash i sl')
  then show ?thesis
    using crash_star [OF assms(2)] by blast
qed (rule implements_star [OF set_region_implements [OF assms(2)]] implements_star [OF send_implements [OF assms(2)]]
    implements_star [OF release_implements [OF assms(2)]] implements_star [OF register_implements [OF assms(2)]]
    implements_star [OF heartbeat_implements [OF assms(2)]] implements_star [OF unregister_implements [OF assms(2)]]
    implements_star [OF restart_begin_implements [OF assms(2)]] implements_star [OF restart_next_implements [OF assms(2)]]
    implements_star [OF restart_finish_implements [OF assms(2)]]
    recover_owner_star [OF assms(2)] recover_claiming_star [OF assms(2)], assumption+)+

lemma api_steps_sound:
  assumes "(api_step p)\<^sup>*\<^sup>* s t" "pool_inv s p"
  shows "pool_inv t p \<and> own_star (pool_abs s p) (pool_abs t p)"
  using assms
proof (induction rule: rtranclp_induct)
  case (step t u)
  then show ?case
    using api_step_sound [of p t u] own_star_trans by blast
qed simp

end
