(* ===== verification/Pool_Properties.thy ===== *)
theory Pool_Properties
  imports Pool_Machine
begin

text \<open>
  The contract of the pool operations, as theorems over the model of the code: each operation
  refines the ownership machine, succeeds exactly under its stated condition, and composes with the
  others (transfer round trip, replay, release). The concrete states at the start instantiate them.
\<close>

lemma slot_view_simps [simp]:
  "buf_handle (slot_view p h H sl) = h" "buf_slot_id (slot_view p h H sl) = zipc_handle_slot_id h"
  "buf_control (slot_view p h H sl) = Some (slot_ptr p (zipc_handle_slot_id h))" "buf_pool (slot_view p h H sl) = Some p"
  "buf_length (slot_view p h H sl) = rg_length (sc_region sl)" "buf_capacity (slot_view p h H sl) = ph_slot_capacity H"
  "buf_owner (slot_view p h H sl) = sc_owner_id sl" "buf_owner_epoch (slot_view p h H sl) = sc_owner_epoch sl"
  "buf_local_state (slot_view p h H sl) = ZIPC_BUFFER_LOCAL_OWNED" "buf_pool_id (slot_view p h H sl) = pool_pool_id p"
  "buf_slot_base (slot_view p h H sl) = pool_payload_base p + ucast (zipc_handle_slot_id h) * ucast (ph_slot_stride H)"
  "buf_data (slot_view p h H sl) = pool_payload_base p + ucast (zipc_handle_slot_id h) * ucast (ph_slot_stride H) +
     ucast (rg_offset (sc_region sl))"
  by (simp_all add: slot_view_def Let_def)

subsection \<open>Concrete states\<close>

definition sample_state :: "zipc_slot_control list \<Rightarrow> sys" where
  "sample_state slots = sample_sys\<lparr>sys_shm := (\<lambda>_. \<lparr>shm_header = sample_header, shm_controls = slots,
     shm_payload = replicate 128 0\<rparr>)\<rparr>"

definition sample_owned_slot :: zipc_slot_control where
  "sample_owned_slot = sample_slot\<lparr>sc_state := ZIPC_SLOT_OWNED, sc_generation := 1, sc_owner_id := 3,
     sc_hop_count := 1, sc_hop_limit := ZIPC_HOP_LIMIT_UNLIMITED, sc_visited := visited_set_add visited_empty 3,
     sc_identity := \<lparr>bi_id = zipc_buffer_id_make 3 7 1, bi_parent_id = 0\<rparr>,
     sc_region := \<lparr>rg_offset = 8, rg_length = 16\<rparr>, sc_deadline_ns := ZIPC_DEADLINE_NONE\<rparr>"

definition sample_transfer_slot :: zipc_slot_control where
  "sample_transfer_slot = (transfer_fields 3 5 0 sample_owned_slot)\<lparr>sc_state := ZIPC_SLOT_TRANSFER\<rparr>"

definition sample_claiming_slot :: zipc_slot_control where
  "sample_claiming_slot = sample_owned_slot\<lparr>sc_state := ZIPC_SLOT_CLAIMING,
     sc_claim_token := claim_token_make ZIPC_CLAIM_SEND 3 1\<rparr>"

definition sample_handle :: zipc_handle where
  "sample_handle = zipc_handle_make 0 1"

definition sample_transfer :: zipc_message where
  "sample_transfer = transfer_message sample_pool sample_handle 3 5 1"

lemmas sample_defs = sample_state_def sample_sys_def sample_pool_def sample_header_def sample_slot_def
  sample_owned_slot_def sample_transfer_slot_def sample_claiming_slot_def sample_handle_def sample_transfer_def

lemma sample_reads [simp]:
  "hdr (sample_state xs) p = sample_header" "slot_of (sample_state xs) (slot_ptr p i) = xs ! unat i"
  "sys_clock (sample_state xs) n = of_nat n" "sys_ticks (sample_state xs) = 0"
  "registered_epoch (sample_state xs) (Some p) c = 0"
  "pool_flags sample_pool = 0" "pool_pool_id sample_pool = 9" "pool_shm_ref sample_pool = 0"
  "ph_slot_count sample_header = 2" "ph_slot_capacity sample_header = 64" "ph_slot_stride sample_header = 64"
  "ph_allocation_cursor sample_header = 0"
  by (simp_all add: sample_state_def sample_sys_def hdr_def slot_of_def sample_pool_def sample_header_def
      registered_epoch_def component_of_def zipc_component_id_valid_iff component_lifecycle_state_def
      component_lifecycle_epoch_def zipc_component_state_defs Let_def)

lemma sample_state_inv [simp]:
  "pool_inv (sample_state [x, y]) sample_pool \<longleftrightarrow> slot_wf 64 x \<and> slot_wf 64 y"
  by (simp add: pool_inv_def pool_shape_def gens_ready_def list_all_iff gen_ready_def)
    (simp add: sample_state_def sample_sys_def sample_header_def gen_ready_def ZIPC_SESSION_ROTATING_def)

lemma sample_slots_wf [simp]: "slot_wf 64 sample_slot" "slot_wf 64 sample_owned_slot"
  "slot_wf 64 sample_transfer_slot" "slot_wf 64 sample_claiming_slot"
  by code_simp+


lemma sample_slots_simps:
  "slot_available sample_slot" "sc_state sample_owned_slot = ZIPC_SLOT_OWNED" "sc_generation sample_owned_slot = 1"
  "sc_owner_id sample_owned_slot = 3" "sc_owner_epoch sample_owned_slot = 0" "sc_claim_token sample_owned_slot = 0"
  "deadline_open n sample_owned_slot" "hops_left sample_owned_slot"
  "sc_state sample_transfer_slot = ZIPC_SLOT_TRANSFER" "sc_claim_token sample_transfer_slot = 0"
  "claim_matches sample_transfer_slot sample_transfer 5 n" "sc_transfer_sequence sample_owned_slot = 0"
  by (simp_all add: sample_defs slot_available_def deadline_open_def hops_left_def claim_matches_def transfer_fields_def
      transfer_message_def)

lemma sample_message_simps [simp]:
  "zipc_handle_slot_id sample_handle = 0" "zipc_handle_generation sample_handle = 1"
  "msg_handle sample_transfer = sample_handle" "msg_pool_id sample_transfer = 9" "msg_destination_component sample_transfer = 5"
  "msg_transfer_sequence sample_transfer = 1" "msg_source_component sample_transfer = 3"
  by (simp_all add: sample_handle_def sample_transfer_def transfer_message_def)

lemma sample_ready [simp]:
  "slot_available sample_slot" "owned_by (sample_state (sample_owned_slot # xs)) sample_pool sample_handle 3"
  "send_ready (sample_state (sample_owned_slot # xs)) sample_pool sample_handle 3 5"
  "release_ready (sample_state (sample_owned_slot # xs)) sample_pool sample_handle 3"
  "claim_ready (sample_state (sample_transfer_slot # xs)) sample_pool sample_transfer 5"
  by (simp_all add: owned_by_def send_ready_def release_ready_def claim_ready_def sample_slots_simps
      zipc_component_id_valid_iff Let_def)

subsection \<open>Allocation\<close>

text \<open>C7: Allocation always returns. On success it implements exactly one allocation event: one free
  slot becomes owned by the caller under the next generation. On failure ownership is unchanged, or
  one free slot got the next generation and is free again. In every case the pool invariant, the
  quiescence of the pool and the payload bytes are kept.\<close>

theorem allocate_refines_ownership:
  assumes "pool_inv s p"
  shows "\<exists>st b' t. buffer_allocate_internal (Some p) a parent off len epoch hop duration enable (Some b) s = Some (st, b', t) \<and>
    (if st = ZIPC_OK then implements p s (Some (Ev_Allocate a)) t
     else implements p s None t \<or> implements p s (Some Ev_Allocation_Failed) t)"
  by (rule allocate_implements [OF assms])

theorem allocate_refines_ownership_witness:
  "\<exists>st b' t. buffer_allocate_internal (Some sample_pool) 4 0 0 16 0 0 0 True (Some buffer_zero)
      (sample_state [sample_owned_slot, sample_slot]) = Some (st, b', t) \<and>
    (if st = ZIPC_OK then implements sample_pool (sample_state [sample_owned_slot, sample_slot]) (Some (Ev_Allocate 4)) t
     else implements sample_pool (sample_state [sample_owned_slot, sample_slot]) None t \<or>
          implements sample_pool (sample_state [sample_owned_slot, sample_slot]) (Some Ev_Allocation_Failed) t)"
  by (rule allocate_refines_ownership) simp

lemma next_generation_neq [simp]: "next_generation g \<noteq> g"
proof
  assume "next_generation g = g"
  then have "g + 1 = 0 \<and> g = 1"
    by (auto simp: next_generation_def Let_def split: if_splits)
  then show False by auto
qed

text \<open>Why an allocation that has found a slot can still fail: no identity, or no access to the pages.\<close>

lemma publish_status:
  assumes "region_fits (ph_slot_capacity (hdr s p)) (sc_region (slot_of s (slot_ptr p i)))"
    and "allocate_publish p a en tok i g b s = (st, b', t)"
  shows "st = ZIPC_OK \<or> pool_flags p AND ZIPC_POOL_F_STRICT_OWNERSHIP \<noteq> 0 \<and> en \<and> st \<noteq> ZIPC_ERR_NO_BUFFER"
proof -
  obtain e u where pr: "(if en then protect_slot (Some p) i True s else (ZIPC_OK, s)) = (e, u)" by fastforce
  have "fst (make_view p i h b u) = ZIPC_OK" for h
  proof -
    have "u = s \<or> u = snd (protect_slot (Some p) i True s)" using pr by (cases en) auto
    then have "hdr u = hdr s" "slot_of u = slot_of s" by auto
    then show ?thesis
      using assms(1) region_word_iff [of _ "ph_slot_capacity (hdr s p)"] by (simp add: make_view_def region_fits_def Let_def not_less)
  qed
  then have "st = e" if "st \<noteq> ZIPC_OK"
    using assms(2) pr that by (auto simp: allocate_publish_def allocation_failed_def Let_def split_beta split: if_splits)
  then show ?thesis
    using pr protect_slot_fails [of p i True s e u] protect_slot_status [of "Some p" i True s] by (cases en) auto
qed

lemma claimed_status:
  assumes "zipc_component_id_valid a" "gen_ready (sys_gen s a)" "slot_ptr_ok s (slot_ptr p i)"
    and "unat off + unat len \<le> unat (ph_slot_capacity (hdr s p))"
    and "allocate_claimed p a parent off len ep hop dur en tok i b s = Some (st, b', t)"
  shows "st = ZIPC_OK \<or> st = ZIPC_ERR_ENTROPY_UNAVAILABLE \<and> \<not> identity_ready s a \<or>
    pool_flags p AND ZIPC_POOL_F_STRICT_OWNERSHIP \<noteq> 0 \<and> en \<and> st \<noteq> ZIPC_ERR_NO_BUFFER"
proof -
  let ?c = "slot_ptr p i"
  let ?s = "upd_slot ?c (init_allocated_slot a ep hop parent off len dur (sys_clock s (sys_ticks s))) (s\<lparr>sys_ticks := Suc (sys_ticks s)\<rparr>)"
  have gen: "gen_ready (sys_gen ?s a)" using assms(2) by simp
  have idr: "identity_ready ?s a \<longleftrightarrow> identity_ready s a" by (simp add: identity_ready_def)
  show ?thesis
  proof (cases rule: generate_buffer_id_returns [OF assms(1) gen, case_names ok err])
    case (ok bid g k)
    let ?u = "upd_slot ?c (\<lambda>sl. sl\<lparr>sc_identity := (sc_identity sl)\<lparr>bi_id := bid\<rparr>\<rparr>) (?s\<lparr>sys_draws := k, sys_gen := (sys_gen ?s)(a := g)\<rparr>)"
    have "region_fits (ph_slot_capacity (hdr ?u p)) (sc_region (slot_of ?u ?c))"
      using assms(3,4) by (simp add: region_fits_def init_allocated_slot_def)
    moreover have "\<exists>g. allocate_publish p a en tok i g b ?u = (st, b', t)"
      using assms(5) by (auto simp: allocate_claimed_def zipc_now_ns_def Let_def ok(1))
    ultimately show ?thesis using publish_status by blast
  next
    case (err g k)
    then have "\<not> identity_ready s a" using identity_ready_issues [OF assms(1) gen] idr by auto
    then show ?thesis
      using assms(5) by (simp add: allocate_claimed_def allocation_failed_def zipc_now_ns_def Let_def err(1))
  qed
qed

lemma allocation_status:
  assumes inv: "pool_inv s p" and args: "allocation_args_ok s p a parent off len"
    and res: "buffer_allocate_internal (Some p) a parent off len ep hop dur en (Some b) s = Some (st, b', t)" "st \<noteq> ZIPC_OK"
    and scan: "k < unat (ph_slot_count (hdr s p))"
      "slot_available (slot_of s (slot_ptr p (scan_slot s p (ph_allocation_cursor (hdr s p) mod ph_slot_count (hdr s p)) k)))"
  shows "st = ZIPC_ERR_ENTROPY_UNAVAILABLE \<and> \<not> identity_ready s a \<or>
    pool_flags p AND ZIPC_POOL_F_STRICT_OWNERSHIP \<noteq> 0 \<and> en \<and> st \<noteq> ZIPC_ERR_NO_BUFFER"
proof -
  note shape = pool_inv_shape [OF inv]
  have a: "zipc_component_id_valid a" and fit: "unat off + unat len \<le> unat (ph_slot_capacity (hdr s p))"
    and gen: "gen_ready (sys_gen s a)"
    using args inv by (simp_all add: allocation_args_ok_def pool_inv_def gens_ready_iff)
  let ?start = "ph_allocation_cursor (hdr s p) mod ph_slot_count (hdr s p)" and ?n = "unat (ph_slot_count (hdr s p))"
  let ?ep = "if ep \<noteq> 0 then ep else registered_epoch s (Some p) a"
  let ?tok = "claim_token_make ZIPC_CLAIM_ALLOCATE a ?ep"
  have "allocate_scan p a parent off len ?ep hop dur en ?tok ?start (of_nat 0) ?n (Some b) s = Some (st, b', t)"
    using res(1) args region_word_iff [of off "ph_slot_capacity (hdr s p)" len]
    by (auto simp: buffer_allocate_internal_def allocation_args_ok_def Let_def not_le split: if_splits)
  then obtain j where run: "allocate_claimed p a parent off len ?ep hop dur en ?tok (scan_slot s p ?start j) (Some b)
      (take_slot (slot_ptr p (scan_slot s p ?start j)) ?tok s) = Some (st, b', t)"
    using allocate_scan_outcome [OF shape, of 0 ?n ?start a parent off len ?ep hop dur en ?tok "Some b"] scan by auto
  have "scan_slot s p ?start j < ph_slot_count (hdr s p)"
    using shape by (simp add: scan_slot_def pool_shape_def word_less_nat_alt unat_mod word_neq_0_conv)
  then have "slot_ptr_ok s (slot_ptr p (scan_slot s p ?start j))" using shape by (simp add: slot_ptr_ok_iff)
  with claimed_status [OF a _ _ _ run] gen fit
  have "st = ZIPC_OK \<or> st = ZIPC_ERR_ENTROPY_UNAVAILABLE \<and>
      \<not> identity_ready (take_slot (slot_ptr p (scan_slot s p ?start j)) ?tok s) a \<or>
      pool_flags p AND ZIPC_POOL_F_STRICT_OWNERSHIP \<noteq> 0 \<and> en \<and> st \<noteq> ZIPC_ERR_NO_BUFFER" by simp
  moreover have "identity_ready (take_slot c tok s) a \<longleftrightarrow> identity_ready s a" for c tok
    by (simp add: identity_ready_def take_slot_def)
  ultimately show ?thesis using res(2) by simp
qed



subsection \<open>Transfer\<close>

text \<open>C9: Preparing a transfer implements exactly one send event when it returns OK, and leaves
  ownership unchanged otherwise; the invariant, quiescence and the payload bytes are kept in every
  case, also when page protection fails half-way.\<close>

theorem send_refines_ownership:
  assumes "pool_inv s p"
  shows "case buffer_prepare_transfer_internal (Some p) h src dst link message_out s of (st, msg, t) \<Rightarrow>
    implements p s (if st = ZIPC_OK then Some (Ev_Send src dst) else None) t"
  using send_implements [OF assms] by (auto split: prod.splits)

theorem send_refines_ownership_witness:
  "case buffer_prepare_transfer_internal (Some sample_pool) sample_handle 3 5 0 True (sample_state [sample_owned_slot, sample_slot]) of
     (st, msg, t) \<Rightarrow> implements sample_pool (sample_state [sample_owned_slot, sample_slot])
       (if st = ZIPC_OK then Some (Ev_Send 3 5) else None) t"
  by (rule send_refines_ownership) simp

text \<open>C10: On a pool without page protection a send succeeds exactly when the caller is the registered
  owner of the current generation, the destination is a valid component, no other operation holds
  the slot, the deadline has not passed and a hop is left. The descriptor then names the next
  transfer sequence and the slot is in transfer to the destination; a refused send produces no
  descriptor and leaves the slot as it was.\<close>

theorem send_succeeds_iff:
  assumes "pool_inv s p" "pool_flags p AND ZIPC_POOL_F_STRICT_OWNERSHIP = 0"
  shows "case buffer_prepare_transfer_internal (Some p) h src dst link True s of (st, msg, t) \<Rightarrow>
    let c = slot_ptr p (zipc_handle_slot_id h) in
    (st = ZIPC_OK \<longleftrightarrow> send_ready s p h src dst) \<and>
    (if st = ZIPC_OK
     then msg = Some (transfer_message p h src dst (sc_transfer_sequence (slot_of s c) + 1)) \<and>
          sc_state (slot_of t c) = ZIPC_SLOT_TRANSFER \<and> sc_next_owner_id (slot_of t c) = dst \<and>
          sc_transfer_sequence (slot_of t c) = sc_transfer_sequence (slot_of s c) + 1 \<and>
          sc_transfer_link_id (slot_of t c) = link \<and> sc_claim_token (slot_of t c) = 0
     else msg = None \<and> same_slot (slot_of s c) (slot_of t c))"
proof (cases rule: prepare_outcome [OF pool_inv_shape [OF assms(1)], of h src dst link True, case_names ok refused])
  case (ok t n)
  then show ?thesis by (simp add: transfer_fields_def Let_def)
next
  case (refused e t)
  then show ?thesis using assms(2) by (simp add: untouched_def Let_def)
qed

theorem send_succeeds_iff_witness:
  "case buffer_prepare_transfer_internal (Some sample_pool) sample_handle 3 5 0 True (sample_state [sample_owned_slot, sample_slot]) of
     (st, msg, t) \<Rightarrow> st = ZIPC_OK \<and> msg = Some (transfer_message sample_pool sample_handle 3 5 1)"
  using send_succeeds_iff [of "sample_state [sample_owned_slot, sample_slot]" sample_pool sample_handle 3 5 0]
  by (simp add: Let_def split_beta sample_slots_simps)

text \<open>C11: A claim that returns OK implements exactly one receive event by the caller. A claim that
  returns an error leaves ownership unchanged, unless the pages of the slot could not be opened on
  a strict pool: then the buffer is dropped and the caller's view is cleared.\<close>

theorem claim_refines_ownership:
  assumes "pool_inv s p"
  shows "case zipc_buffer_claim (Some p) (Some m) r (Some b) s of (st, b', t) \<Rightarrow>
    if st = ZIPC_OK then implements p s (Some (Ev_Receive r)) t
    else implements p s None t \<or> implements p s (Some (Ev_Drop r)) t \<and> b' = Some buffer_zero"
  using claim_implements [OF assms] by (auto split: prod.splits)

theorem claim_refines_ownership_witness:
  "case zipc_buffer_claim (Some sample_pool) (Some sample_transfer) 5 (Some buffer_zero) (sample_state [sample_transfer_slot, sample_slot]) of
     (st, b', t) \<Rightarrow>
       if st = ZIPC_OK then implements sample_pool (sample_state [sample_transfer_slot, sample_slot]) (Some (Ev_Receive 5)) t
       else implements sample_pool (sample_state [sample_transfer_slot, sample_slot]) None t \<or>
            implements sample_pool (sample_state [sample_transfer_slot, sample_slot]) (Some (Ev_Drop 5)) t \<and> b' = Some buffer_zero"
  by (rule claim_refines_ownership) simp

text \<open>What a successful claim leaves behind.\<close>

lemma claim_ok_slot:
  assumes "pool_inv s p" "zipc_buffer_claim (Some p) (Some m) r (Some b) s = (ZIPC_OK, b', t)"
  shows "claim_ready s p m r \<and> sc_state (slot_of t (slot_ptr p (zipc_handle_slot_id (msg_handle m)))) = ZIPC_SLOT_OWNED \<and>
    sc_transfer_sequence (slot_of t (slot_ptr p (zipc_handle_slot_id (msg_handle m)))) = msg_transfer_sequence m"
  (is "_ \<and> _ \<and> sc_transfer_sequence (slot_of t ?c) = _")
proof (cases rule: claim_outcome [OF assms(1), where m = m and r = r and b = b, case_names ok dropped refused])
  case (ok t' n)
  then have "t' = t" using assms(2) by simp
  with ok(6) have "slot_of t ?c = (add_trace n r ZIPC_TRACE_RECEIVE (receive_fields r (registered_epoch s (Some p) r)
      (sys_clock s (sys_ticks s)) (slot_of s ?c)))\<lparr>sc_state := ZIPC_SLOT_OWNED, sc_claim_token := 0\<rparr>"
    by simp
  then show ?thesis
    using ok(2) by (simp add: receive_fields_def claim_ready_def claim_matches_def Let_def)
qed (use assms(2) in simp_all)

lemma claim_outcome_owned:
  assumes "pool_inv s p"
  shows "case zipc_buffer_claim (Some p) (Some m) r (Some b) s of (st, b', t) \<Rightarrow>
    (st = ZIPC_OK \<longrightarrow> claim_ready s p m r \<and> owned_by t p (msg_handle m) r \<and> buffer_owned t b') \<and>
    (claim_ready s p m r \<and> pool_flags p AND ZIPC_POOL_F_STRICT_OWNERSHIP = 0 \<longrightarrow> st = ZIPC_OK)"
proof (cases rule: claim_outcome [OF assms(1), where m = m and r = r and b = b, case_names ok dropped refused])
  case (ok t n)
  have "length (ph_components (hdr s (the (Some p)))) = 256"
    using assms by (simp add: pool_inv_def pool_shape_def)
  note ep = registered_epoch_frame [OF ok(3) this, of r]
  have own: "owned_by t p (msg_handle m) r"
    using ok(2) ep by (simp add: owned_by_def ok(5,6) claim_ready_def claim_matches_def receive_fields_def Let_def)
  show ?thesis
    using ok(1,2) own buffer_owned_view [OF own] by (simp add: ok(5))
qed simp_all

text \<open>C12: A claim succeeds only for the destination named by the slot itself, with the generation,
  source and transfer sequence of the slot, before its deadline and within its hop limit. On a pool
  without page protection these conditions are also sufficient. The receiver then owns the buffer
  through the returned view.\<close>

theorem claim_succeeds_iff:
  assumes "pool_inv s p"
  shows "case zipc_buffer_claim (Some p) (Some m) r (Some b) s of (st, b', t) \<Rightarrow>
    (st = ZIPC_OK \<longrightarrow> claim_ready s p m r \<and> owned_by t p (msg_handle m) r \<and> buffer_owned t b') \<and>
    (claim_ready s p m r \<and> pool_flags p AND ZIPC_POOL_F_STRICT_OWNERSHIP = 0 \<longrightarrow> st = ZIPC_OK)"
  by (rule claim_outcome_owned [OF assms])

theorem claim_succeeds_iff_witness:
  "case zipc_buffer_claim (Some sample_pool) (Some sample_transfer) 5 (Some buffer_zero) (sample_state [sample_transfer_slot, sample_slot]) of
     (st, b', t) \<Rightarrow> st = ZIPC_OK \<and> owned_by t sample_pool sample_handle 5"
  using claim_succeeds_iff [of "sample_state [sample_transfer_slot, sample_slot]" sample_pool sample_transfer 5 buffer_zero]
  by (simp add: split_beta)

text \<open>Transfer round trip. When a send succeeds and its descriptor is claimed by the destination
  before the deadline, the claim succeeds: the destination owns the same buffer, with generation,
  identity, region, payload bytes, hop limit and deadline unchanged, one more hop, itself added to
  the visited set, and the transfer sequence advanced by one.\<close>

theorem transfer_round_trip:
  assumes inv: "pool_inv s p" and lax: "pool_flags p AND ZIPC_POOL_F_STRICT_OWNERSHIP = 0"
    and ready: "send_ready s p h src dst"
  shows "let c = slot_ptr p (zipc_handle_slot_id h); sl = slot_of s c in
    \<exists>m t. buffer_prepare_transfer_internal (Some p) h src dst link True s = (ZIPC_OK, Some m, t) \<and>
      (deadline_open (sys_clock t (sys_ticks t)) sl \<longrightarrow>
       (\<exists>v u. zipc_buffer_claim (Some p) (Some m) dst (Some b) t = (ZIPC_OK, Some v, u) \<and>
          owned_by u p h dst \<and> buffer_owned u (Some v) \<and> payload_of u = payload_of s \<and>
          (let sl' = slot_of u c in
           sc_generation sl' = sc_generation sl \<and> sc_identity sl' = sc_identity sl \<and> sc_region sl' = sc_region sl \<and>
           sc_hop_limit sl' = sc_hop_limit sl \<and> sc_deadline_ns sl' = sc_deadline_ns sl \<and>
           sc_hop_count sl' = sc_hop_count sl + 1 \<and> sc_visited sl' = visited_set_add (sc_visited sl) dst \<and>
           sc_transfer_sequence sl' = sc_transfer_sequence sl + 1)))"
proof (cases rule: prepare_outcome [OF pool_inv_shape [OF inv], of h src dst link True, case_names ok refused])
  case (ok t n)
  define c where "c = slot_ptr p (zipc_handle_slot_id h)"
  define sl where "sl = slot_of s c"
  let ?m = "transfer_message p h src dst (sc_transfer_sequence sl + 1)"
  have t: "slot_of t c = (add_trace n src ZIPC_TRACE_SEND (transfer_fields src dst link
      (sl\<lparr>sc_claim_previous_sequence := sc_transfer_sequence sl\<rparr>)))\<lparr>sc_state := ZIPC_SLOT_TRANSFER, sc_claim_token := 0\<rparr>"
    using ok(7) by (simp add: c_def sl_def)
  have impl: "implements p s (Some (Ev_Send src dst)) t"
    using send_implements [OF inv ok(1)] by simp
  then have inv': "pool_inv t p" by (simp add: implements_def)
  have own: "owned_by s p h src" "zipc_component_id_valid dst" "hops_left sl"
    using ready by (simp_all add: send_ready_def sl_def c_def Let_def)
  have rdy: "claim_ready t p ?m dst" if "deadline_open (sys_clock t (sys_ticks t)) sl"
    using own that ok(6) unfolding claim_ready_def
    by (simp add: transfer_message_def c_def [symmetric] t claim_matches_def transfer_fields_def owned_by_def Let_def sl_def
        deadline_open_def hops_left_def)
  have claim: "\<exists>v u. zipc_buffer_claim (Some p) (Some ?m) dst (Some b) t = (ZIPC_OK, Some v, u) \<and>
      owned_by u p h dst \<and> buffer_owned u (Some v) \<and> payload_of u = payload_of t \<and>
      (\<exists>k now ep. slot_of u c = (add_trace k dst ZIPC_TRACE_RECEIVE (receive_fields dst ep now (slot_of t c)))
         \<lparr>sc_state := ZIPC_SLOT_OWNED, sc_claim_token := 0\<rparr>)"
    if "deadline_open (sys_clock t (sys_ticks t)) sl"
  proof (cases rule: claim_outcome [OF inv', where m = ?m and r = dst and b = b, case_names ok dropped refused])
    case (ok u k)
    have "owned_by u p h dst \<and> buffer_owned u (Some (slot_view p (msg_handle ?m) (hdr t p) (slot_of u (slot_ptr p (zipc_handle_slot_id (msg_handle ?m))))))"
      using claim_outcome_owned [OF inv', of ?m dst b] unfolding ok(1) by (simp add: transfer_message_def)
    then show ?thesis
      using ok(1,3,6) by (intro exI conjI) (auto simp: transfer_message_def c_def frame_def)
  qed (use rdy that lax in simp_all)
  show ?thesis
    using ok(1) claim impl unfolding Let_def c_def [symmetric] sl_def [symmetric]
    by (fastforce simp: t receive_fields_def transfer_fields_def implements_def)
next
  case (refused e t)
  then show ?thesis using lax ready by simp
qed

theorem transfer_round_trip_witness:
  "let s = sample_state [sample_owned_slot, sample_slot] in
   \<exists>m t v u. buffer_prepare_transfer_internal (Some sample_pool) sample_handle 3 5 0 True s = (ZIPC_OK, Some m, t) \<and>
     zipc_buffer_claim (Some sample_pool) (Some m) 5 (Some buffer_zero) t = (ZIPC_OK, Some v, u) \<and>
     owned_by u sample_pool sample_handle 5 \<and> sc_hop_count (slot_of u (slot_ptr sample_pool 0)) = 2"
  using transfer_round_trip [of "sample_state [sample_owned_slot, sample_slot]" sample_pool sample_handle 3 5 0 buffer_zero]
  by (simp add: Let_def sample_slots_simps) (fastforce simp: sample_owned_slot_def)

text \<open>C13: A descriptor is good for one claim. Once it has been claimed, claiming it again is refused,
  and it stays refused after the new owner has sent the same buffer on, whoever replays it and
  whatever view is passed.\<close>

theorem replayed_descriptor_refused:
  assumes "pool_inv s p" "zipc_buffer_claim (Some p) (Some m) r (Some b) s = (ZIPC_OK, b', t)"
  shows "fst (zipc_buffer_claim (Some p) (Some m) r' (Some v) t) \<noteq> ZIPC_OK \<and>
    (buffer_prepare_transfer_internal (Some p) (msg_handle m) r dst link True t = (ZIPC_OK, m', u) \<longrightarrow>
     fst (zipc_buffer_claim (Some p) (Some m) r' (Some v) u) \<noteq> ZIPC_OK)"
proof -
  let ?c = "slot_ptr p (zipc_handle_slot_id (msg_handle m))"
  note cl = claim_ok_slot [OF assms]
  have inv: "pool_inv t p"
    using claim_implements [OF assms] by (simp add: implements_def)
  have rdy: "claim_ready w p m r'" if "pool_inv w p" "fst (zipc_buffer_claim (Some p) (Some m) r' (Some v) w) = ZIPC_OK" for w
    using claim_outcome_owned [OF that(1), of m r' v] that(2) by (auto split: prod.splits)
  have "\<not> claim_ready t p m r'"
    using cl by (auto simp: claim_ready_def Let_def)
  moreover have "\<not> claim_ready u p m r'" if snd: "buffer_prepare_transfer_internal (Some p) (msg_handle m) r dst link True t = (ZIPC_OK, m', u)"
  proof (cases rule: prepare_outcome [OF pool_inv_shape [OF inv], of "msg_handle m" r dst link True, case_names ok refused])
    case (ok u' n)
    then have "u' = u" using snd by simp
    with ok(7) have "sc_transfer_sequence (slot_of u ?c) = msg_transfer_sequence m + 1"
      using cl by (simp add: transfer_fields_def)
    then show ?thesis by (auto simp: claim_ready_def claim_matches_def Let_def)
  qed (use snd in simp)
  moreover have "pool_inv u p" if "buffer_prepare_transfer_internal (Some p) (msg_handle m) r dst link True t = (ZIPC_OK, m', u)"
    using send_implements [OF inv that] by (simp add: implements_def)
  ultimately show ?thesis
    using rdy inv by blast
qed

text \<open>A claim of the sample transfer, and the state it leaves.\<close>

definition sample_claimed :: sys where
  "sample_claimed = snd (snd (zipc_buffer_claim (Some sample_pool) (Some sample_transfer) 5 (Some buffer_zero)
     (sample_state [sample_transfer_slot, sample_slot])))"

lemma sample_claimed_ok:
  "zipc_buffer_claim (Some sample_pool) (Some sample_transfer) 5 (Some buffer_zero) (sample_state [sample_transfer_slot, sample_slot]) =
     (ZIPC_OK, fst (snd (zipc_buffer_claim (Some sample_pool) (Some sample_transfer) 5 (Some buffer_zero)
        (sample_state [sample_transfer_slot, sample_slot]))), sample_claimed)"
  using claim_outcome_owned [of "sample_state [sample_transfer_slot, sample_slot]" sample_pool sample_transfer 5 buffer_zero]
  by (simp add: sample_claimed_def prod_eq_iff split: prod.splits)

theorem replayed_descriptor_refused_witness:
  "fst (zipc_buffer_claim (Some sample_pool) (Some sample_transfer) 5 (Some buffer_zero) sample_claimed) \<noteq> ZIPC_OK"
  using replayed_descriptor_refused [OF _ sample_claimed_ok] by simp

subsection \<open>Release, handles and regions\<close>

text \<open>C14: A release that returns OK implements exactly one release event by the owner and makes the
  slot available for allocation again; a refused release leaves ownership unchanged. On a pool
  without page protection it succeeds exactly for the registered owner of the current generation
  of a slot that no other operation holds.\<close>

theorem release_refines_ownership:
  assumes "pool_inv s p"
  shows "case zipc_pool_buffer_release (Some p) h a s of (st, t) \<Rightarrow>
    implements p s (if st = ZIPC_OK then Some (Ev_Release a) else None) t \<and>
    (st = ZIPC_OK \<longrightarrow> release_ready s p h a \<and> slot_available (slot_of t (slot_ptr p (zipc_handle_slot_id h)))) \<and>
    (release_ready s p h a \<and> pool_flags p AND ZIPC_POOL_F_STRICT_OWNERSHIP = 0 \<longrightarrow> st = ZIPC_OK)"
proof (cases rule: release_outcome [OF pool_inv_shape [OF assms], of h a, case_names ok refused])
  case (ok t)
  then show ?thesis
    using release_implements [OF assms ok(1)] by (simp add: slot_available_def slot_freed_def)
next
  case (refused e t)
  then show ?thesis
    using release_implements [OF assms refused(1)] by auto
qed

theorem release_refines_ownership_witness:
  "case zipc_pool_buffer_release (Some sample_pool) sample_handle 3 (sample_state [sample_owned_slot, sample_slot]) of (st, t) \<Rightarrow>
     st = ZIPC_OK \<and> implements sample_pool (sample_state [sample_owned_slot, sample_slot]) (Some (Ev_Release 3)) t"
  using release_refines_ownership [where s = "sample_state [sample_owned_slot, sample_slot]" and p = sample_pool
      and h = sample_handle and a = 3]
  by (auto simp: split_beta)

text \<open>Every operation that takes a handle requires its current owner.\<close>

definition handle_dead :: "sys \<Rightarrow> zipc_pool \<Rightarrow> zipc_handle \<Rightarrow> bool" where
  "handle_dead s p h \<longleftrightarrow> (let sl = slot_of s (slot_ptr p (zipc_handle_slot_id h)) in
     sc_generation sl \<noteq> zipc_handle_generation h \<or> sc_state sl = ZIPC_SLOT_FREE)"

lemma handle_dead_not_owned: "handle_dead s p h \<Longrightarrow> \<not> owned_by s p h a"
  by (auto simp: handle_dead_def owned_by_def Let_def)

lemma send_requires_owner:
  assumes "pool_inv s p" "\<not> owned_by s p h src"
  shows "fst (buffer_prepare_transfer_internal (Some p) h src dst link mo s) \<noteq> ZIPC_OK"
  by (cases rule: prepare_outcome [OF pool_inv_shape [OF assms(1)], of h src dst link mo, case_names ok refused])
    (use assms(2) in \<open>simp_all add: send_ready_def\<close>)

lemma release_requires_owner:
  assumes "\<not> owned_by s p h a"
  shows "fst (zipc_pool_buffer_release (Some p) h a s) \<noteq> ZIPC_OK"
  using release_refused [OF assms] by force

lemma claim_requires_live:
  assumes "pool_inv s p" "handle_dead s p (msg_handle m)"
  shows "fst (zipc_buffer_claim (Some p) (Some m) r (Some b) s) \<noteq> ZIPC_OK"
proof -
  have "\<not> claim_ready s p m r"
    using assms(2) by (auto simp: claim_ready_def claim_matches_def handle_dead_def Let_def)
  then show ?thesis
    using claim_outcome_owned [OF assms(1), of m r b] by (auto split: prod.splits)
qed

lemma release_frees_slot:
  assumes "pool_inv s p" "zipc_pool_buffer_release (Some p) h a s = (ZIPC_OK, t)" "c = slot_ptr p (zipc_handle_slot_id h)"
  shows "pool_inv t p" "sc_state (slot_of t c) = ZIPC_SLOT_FREE" "sc_generation (slot_of t c) = zipc_handle_generation h"
proof -
  show "pool_inv t p" using release_implements [OF assms(1,2)] by (simp add: implements_def)
  have "slot_freed (slot_of t c) \<and> sc_generation (slot_of t c) = zipc_handle_generation h"
  proof (cases rule: release_outcome [OF pool_inv_shape [OF assms(1)], of h a, case_names ok refused])
    case (ok t')
    then have "t' = t" using assms(2) by simp
    with ok show ?thesis by (simp add: assms(3) release_ready_def owned_by_def Let_def)
  qed (use assms(2) in simp_all)
  then show "sc_state (slot_of t c) = ZIPC_SLOT_FREE" "sc_generation (slot_of t c) = zipc_handle_generation h"
    by (simp_all add: slot_freed_def)
qed

text \<open>A handle of a free slot stays dead when a slot is allocated: it is another slot, or it gets another
  generation.\<close>

lemma allocate_keeps_handle_dead:
  assumes inv: "pool_inv t p" and c: "c = slot_ptr p (zipc_handle_slot_id h)"
    and t: "sc_state (slot_of t c) = ZIPC_SLOT_FREE" "sc_generation (slot_of t c) = zipc_handle_generation h"
    and al: "buffer_allocate_internal (Some p) a parent off len epoch hop duration enable (Some v) t = Some (ZIPC_OK, v', u)"
  shows "pool_inv u p" "handle_dead u p h"
proof -
  show "pool_inv u p"
    using allocate_implements [OF inv, of a parent off len epoch hop duration enable v] by (simp add: al implements_def)
  have gens: "gens_ready t" using inv by (simp add: pool_inv_def)
  show "handle_dead u p h"
  proof (cases rule: allocate_outcome [OF pool_inv_shape [OF inv] gens, of a parent off len epoch hop duration enable v,
        case_names ok fail none])
    case (ok j u' bid now n)
    then have u: "u' = u" using al by simp
    show ?thesis
    proof (cases "j = zipc_handle_slot_id h")
      case True
      then have "sc_generation (slot_of u c) = next_generation (zipc_handle_generation h)"
        using ok(9) t(2) by (simp add: u c allocated_slot_def)
      then show ?thesis by (simp add: handle_dead_def c)
    next
      case False
      then have "slot_of u c = slot_of t c" using frame_slot_eq [OF ok(6), of c] by (simp add: u c)
      then show ?thesis using t by (simp add: handle_dead_def c)
    qed
  qed (use al in simp_all)
qed

text \<open>C15: No use after release. After a successful release the old handle opens no view, sends
  nothing, releases nothing and claims nothing, for any component; and the same holds after the
  slot has been allocated again, because the new buffer has another generation.\<close>

theorem released_handle_is_dead:
  assumes "pool_inv s p" "zipc_pool_buffer_release (Some p) h a s = (ZIPC_OK, t)"
    and "u = t \<or> buffer_allocate_internal (Some p) a' parent off len epoch hop duration enable (Some v) t = Some (ZIPC_OK, v', u)"
  shows "fst (zipc_buffer_from_handle (Some p) h x (Some b) u) \<noteq> ZIPC_OK \<and>
    fst (buffer_prepare_transfer_internal (Some p) h x dst link mo u) \<noteq> ZIPC_OK \<and>
    fst (zipc_pool_buffer_release (Some p) h x u) \<noteq> ZIPC_OK \<and>
    (msg_handle m = h \<longrightarrow> fst (zipc_buffer_claim (Some p) (Some m) x (Some b) u) \<noteq> ZIPC_OK)"
proof -
  note r = release_frees_slot [OF assms(1,2) refl]
  have "pool_inv u p \<and> handle_dead u p h"
  proof (cases "u = t")
    case True
    then show ?thesis using r by (simp add: handle_dead_def)
  next
    case False
    then have "buffer_allocate_internal (Some p) a' parent off len epoch hop duration enable (Some v) t = Some (ZIPC_OK, v', u)"
      using assms(3) by simp
    from allocate_keeps_handle_dead [OF r(1) refl r(2,3) this] show ?thesis by simp
  qed
  then have u: "pool_inv u p" "handle_dead u p h" by simp_all
  note no = handle_dead_not_owned [OF u(2)]
  show ?thesis
    using from_handle_ok_iff [OF u(1), of h x b] no [of x] send_requires_owner [OF u(1) no] release_requires_owner [OF no]
      claim_requires_live [OF u(1), of m x b] u(2) by simp
qed

definition sample_released :: sys where
  "sample_released = snd (zipc_pool_buffer_release (Some sample_pool) sample_handle 3 (sample_state [sample_owned_slot, sample_slot]))"

lemma sample_released_ok:
  "zipc_pool_buffer_release (Some sample_pool) sample_handle 3 (sample_state [sample_owned_slot, sample_slot]) = (ZIPC_OK, sample_released)"
  by (cases rule: release_outcome [of "sample_state [sample_owned_slot, sample_slot]" sample_pool sample_handle 3, case_names shp ok refused])
    (simp_all add: sample_released_def pool_inv_shape)

theorem released_handle_is_dead_witness:
  "fst (zipc_buffer_from_handle (Some sample_pool) sample_handle 3 (Some buffer_zero) sample_released) \<noteq> ZIPC_OK"
  using released_handle_is_dead [OF _ sample_released_ok, of sample_released] by simp

text \<open>Setting a region through a view succeeds exactly when the view's owner still owns the slot
  under its registered epoch and offset plus length fit the slot without overflow. It changes the
  region of that slot and nothing else; a refused call changes nothing.\<close>

theorem set_region_succeeds_iff:
  assumes "pool_inv s p" "view_in s p b"
  shows "case zipc_buffer_set_region (Some b) off len s of (st, b', t) \<Rightarrow>
    let c = slot_ptr p (buf_slot_id b) in
    (st = ZIPC_OK \<longleftrightarrow> buffer_owned s (Some b) \<and> unat off + unat len \<le> unat (ph_slot_capacity (hdr s p))) \<and>
    implements p s None t \<and>
    (if st = ZIPC_OK
     then slot_of t c = (slot_of s c)\<lparr>sc_region := \<lparr>rg_offset = off, rg_length = len\<rparr>\<rparr> \<and> frame {c} s t \<and>
          b' = Some (b\<lparr>buf_data := buf_slot_base b + ucast off, buf_length := len\<rparr>)
     else t = s \<and> b' = Some b)"
proof (cases rule: set_region_outcome [OF pool_inv_shape [OF assms(1)] assms(2), of off len, case_names ok refused])
  case (ok t)
  then show ?thesis
    using set_region_implements [OF assms ok(1)] by (simp add: Let_def)
next
  case (refused e)
  then show ?thesis
    using set_region_implements [OF assms refused(1)] by (simp add: Let_def)
qed

definition sample_view :: zipc_buffer where
  "sample_view = slot_view sample_pool sample_handle sample_header sample_owned_slot"

theorem set_region_succeeds_iff_witness:
  "case zipc_buffer_set_region (Some sample_view) 60 4 (sample_state [sample_owned_slot, sample_slot]) of (st, b', t) \<Rightarrow>
     st = ZIPC_OK \<and> sc_region (slot_of t (slot_ptr sample_pool 0)) = \<lparr>rg_offset = 60, rg_length = 4\<rparr>"
proof -
  have "view_in (sample_state [sample_owned_slot, sample_slot]) sample_pool sample_view"
    by (simp add: view_in_def sample_view_def)
  moreover have "buffer_owned (sample_state [sample_owned_slot, sample_slot]) (Some sample_view)"
    using buffer_owned_view [of "sample_state [sample_owned_slot, sample_slot]" sample_pool sample_handle 3]
    by (simp add: sample_view_def)
  moreover have "buf_slot_id sample_view = 0" by (simp add: sample_view_def)
  ultimately show ?thesis
    using set_region_succeeds_iff [of "sample_state [sample_owned_slot, sample_slot]" sample_pool sample_view 60 4]
    by (simp add: Let_def split_beta)
qed

end
