(* ===== verification/Recovery_Properties.thy ===== *)
theory Recovery_Properties
  imports Pool_Properties
begin

text \<open>
  Lifecycle and recovery as a whole: epochs are never reused, every reachable pool state (crashes
  included) satisfies the invariant, the restart of a dead component and the two quiescent
  recoveries leave exactly the slots they promise.
\<close>

subsection \<open>Epochs\<close>

lemma component_of_upd [simp]:
  assumes "length (ph_components (hdr s p)) = 256" "zipc_component_id_valid c"
  shows "component_of (upd_component p c f s) p c = f (component_of s p c)"
  using assms zipc_component_id_valid_lt [of c] by (simp add: component_of_def upd_component_def)

lemma component_of_upd_other [simp]:
  "c \<noteq> c' \<Longrightarrow> component_of (upd_component p c f s) p c' = component_of s p c'"
  by (simp add: component_of_def upd_component_def word_unat_eq_iff)

lemma component_of_ticks [simp]: "component_of (s\<lparr>sys_ticks := n\<rparr>) p c = component_of s p c"
  by (simp add: component_of_def)

lemma components_length_upd [simp]:
  "length (ph_components (hdr (upd_component p c f s) p)) = length (ph_components (hdr s p))"
  by (simp add: upd_component_def)

lemma store_heartbeat_component [simp]:
  assumes "length (ph_components (hdr s p)) = 256" "zipc_component_id_valid c"
  shows "cs_lifecycle (component_of (store_heartbeat p c s) p c) = cs_lifecycle (component_of s p c)"
  using assms by (simp add: store_heartbeat_def zipc_now_ns_def)

lemma components_length_heartbeat [simp]:
  "length (ph_components (hdr (store_heartbeat p c s) p)) = length (ph_components (hdr s p))"
  by (simp add: store_heartbeat_def zipc_now_ns_def)

lemma stale_epoch_refused:
  assumes "component_lifecycle_epoch (cs_lifecycle (component_of s p c)) \<noteq> x"
  shows "fst (zipc_component_heartbeat (Some p) c x s) \<noteq> ZIPC_OK" "fst (zipc_component_unregister (Some p) c x s) \<noteq> ZIPC_OK"
  using assms by (simp_all add: zipc_component_heartbeat_def zipc_component_unregister_def Let_def)

lemma lifecycle_registered:
  assumes "cs_lifecycle (component_of s p c) = component_lifecycle_make e st" "st \<noteq> ZIPC_COMPONENT_INACTIVE"
    "zipc_component_id_valid c"
  shows "registered_epoch s (Some p) c = e" "component_epoch_current s (Some p) c e \<longleftrightarrow> e \<noteq> 0"
  using assms by (simp_all add: registered_epoch_def component_epoch_current_def Let_def)

lemma epoch_succ: "(x :: u32) \<noteq> UINT32_MAX \<Longrightarrow> x + 1 \<noteq> 0 \<and> x < x + 1"
  using unat_plus_one_u32 [of x] by (auto simp: word_less_nat_alt)

text \<open>C29: Registration succeeds exactly for an inactive component whose epochs are not exhausted. It
  yields the successor of the last epoch of that component, which is then the registered one; the
  component is active, and every earlier epoch is refused by heartbeat and unregister.\<close>

theorem register_gives_fresh_epoch:
  assumes "length (ph_components (hdr s p)) = 256" "zipc_component_id_valid c"
  shows "case zipc_component_register (Some p) c s of (st, e, t) \<Rightarrow>
    let lc = cs_lifecycle (component_of s p c); old = component_lifecycle_epoch lc in
    (st = ZIPC_OK \<longleftrightarrow> component_lifecycle_state lc = ZIPC_COMPONENT_INACTIVE \<and> old \<noteq> UINT32_MAX) \<and>
    (if st = ZIPC_OK
     then e = Some (old + 1) \<and> old < old + 1 \<and> registered_epoch t (Some p) c = old + 1 \<and>
          component_epoch_current t (Some p) c (old + 1) \<and>
          (\<forall>x. x \<noteq> old + 1 \<longrightarrow> fst (zipc_component_heartbeat (Some p) c x t) \<noteq> ZIPC_OK \<and>
                               fst (zipc_component_unregister (Some p) c x t) \<noteq> ZIPC_OK)
     else e = None \<and> t = s)"
proof -
  let ?lc = "cs_lifecycle (component_of s p c)"
  let ?old = "component_lifecycle_epoch ?lc"
  show ?thesis
  proof (cases "component_lifecycle_state ?lc = ZIPC_COMPONENT_INACTIVE \<and> ?old \<noteq> UINT32_MAX")
    case True
    obtain t where reg: "zipc_component_register (Some p) c s = (ZIPC_OK, Some (?old + 1), t)"
      and lc: "cs_lifecycle (component_of t p c) = component_lifecycle_make (?old + 1) ZIPC_COMPONENT_ACTIVE"
      using True assms by (simp add: zipc_component_register_def cas_lifecycle_def Let_def)
    have "ZIPC_COMPONENT_ACTIVE \<noteq> ZIPC_COMPONENT_INACTIVE" by (simp add: zipc_component_state_defs)
    note reg' = lifecycle_registered [OF lc this assms(2)]
    have "?old + 1 \<noteq> 0 \<and> ?old < ?old + 1" using True epoch_succ by blast
    then show ?thesis
      using True reg reg' stale_epoch_refused [of t p c] by (simp add: lc Let_def)
  next
    case False
    then have "zipc_component_register (Some p) c s = (ZIPC_ERR_COMPONENT_STALE, None, s)"
      using assms(2) by (auto simp: zipc_component_register_def Let_def)
    then show ?thesis using False by (auto simp: Let_def)
  qed
qed

theorem register_gives_fresh_epoch_witness:
  "case zipc_component_register (Some sample_pool) 3 (sample_state [sample_slot, sample_slot]) of (st, e, t) \<Rightarrow>
     st = ZIPC_OK \<and> e = Some 1 \<and> registered_epoch t (Some sample_pool) 3 = 1"
proof -
  have "cs_lifecycle (component_of (sample_state [sample_slot, sample_slot]) sample_pool 3) = 0"
    "length (ph_components (hdr (sample_state [sample_slot, sample_slot]) sample_pool)) = 256"
    by (simp_all add: component_of_def) (simp_all add: sample_header_def)
  then show ?thesis
    using register_gives_fresh_epoch [of "sample_state [sample_slot, sample_slot]" sample_pool 3]
    by (simp add: split_beta Let_def zipc_component_id_valid_iff component_lifecycle_state_def component_lifecycle_epoch_def
        zipc_component_state_defs UINT32_MAX_def split: if_splits)
qed

subsection \<open>Restart of a dead component\<close>

lemma lifecycle_frame:
  assumes "frame C s t" "length (ph_components (hdr s p)) = 256" "zipc_component_id_valid c"
  shows "cs_lifecycle (component_of t p c) = cs_lifecycle (component_of s p c)"
proof -
  have "lifecycles (hdr t p) = lifecycles (hdr s p)" "length (ph_components (hdr t p)) = 256"
    using assms by (auto simp: frame_def hdr_static_def)
  then show ?thesis
    using assms(2) zipc_component_id_valid_lt [OF assms(3)] unfolding lifecycles_def component_of_def by (metis nth_map)
qed

lemma restart_scan_frame:
  "restart_scan r p b s = (st, r', b', t) \<Longrightarrow> frame UNIV s t"
proof (induction r p b s rule: restart_scan.induct)
  case (1 r p b s)
  have fr: "frame UNIV s (outcome_sys (restart_slot r p b s))"
    using restart_slot_frame frame_mono by blast
  show ?case
  proof (cases "rs_cursor r < ph_slot_count (hdr s p)")
    case True
    with 1 fr show ?thesis
      by (cases "restart_slot r p b s") (auto simp: restart_scan.simps [of r p b s] intro: frame_trans)
  next
    case False
    with 1(2) show ?thesis by (simp add: restart_scan.simps [of r p b s])
  qed
qed

lemma restart_scan_cursor:
  "restart_scan r p b s = (ZIPC_OK, r', b', t) \<Longrightarrow> rs_cursor r' \<le> ph_slot_count (hdr t p)"
proof (induction r p b s rule: restart_scan.induct)
  case (1 r p b s)
  show ?case
  proof (cases "restart_slot r p b s")
    case (Restart_Adopted b'' u)
    have "frame {slot_ptr p (rs_cursor r)} s u"
      using restart_slot_frame [of p r s b] Restart_Adopted by simp
    with 1(2) Restart_Adopted show ?thesis
      by (auto simp: restart_scan.simps [of r p b s] frame_slot_count le_succ_below inc_le split: if_splits)
  next
    case (Restart_Stop e u)
    have "frame {slot_ptr p (rs_cursor r)} s u"
      using restart_slot_frame [of p r s b] Restart_Stop by simp
    with 1(2) Restart_Stop show ?thesis
      by (auto simp: restart_scan.simps [of r p b s] frame_slot_count split: if_splits)
  qed (use 1 in \<open>auto simp: restart_scan.simps [of r p b s] split: if_splits\<close>)
qed

text \<open>The recovery loop of a restarted component: \<open>restart_next\<close> until it stops returning buffers.\<close>

fun restart_drain :: "nat \<Rightarrow> zipc_restart \<Rightarrow> zipc_buffer \<Rightarrow> sys \<Rightarrow> zipc_status \<times> zipc_restart option \<times> sys" where
  "restart_drain 0 r b s = (ZIPC_OK, Some r, s)"
| "restart_drain (Suc n) r b s =
     (case zipc_component_restart_next (Some r) (Some b) s of
        (st, r', _, t) \<Rightarrow> if st = ZIPC_OK then restart_drain n (the r') b t else (st, r', t))"

definition restart_session :: "sys \<Rightarrow> zipc_pool \<Rightarrow> zipc_restart \<Rightarrow> bool" where
  "restart_session s p r \<longleftrightarrow> pool_inv s p \<and> rs_pool r = Some p \<and> rs_epoch r = rs_dead_epoch r + 1 \<and>
     component_epoch_recovering s (Some p) (rs_component r) (rs_epoch r)"

lemma restart_session_valid: "restart_session s p r \<Longrightarrow> zipc_component_id_valid (rs_component r) \<and> rs_epoch r \<noteq> 0"
  by (auto simp: restart_session_def component_epoch_recovering_def split: if_splits)

lemma restart_next_step:
  assumes ses: "restart_session s p r" and lax: "pool_flags p AND ZIPC_POOL_F_STRICT_OWNERSHIP = 0"
    and before: "\<forall>j < rs_cursor r. settled r (slot_of s (slot_ptr p j))"
  obtains st r' b' t where "zipc_component_restart_next (Some r) (Some b) s = (st, Some r', b', t)"
    "restart_session t p r'" "settled r' = settled r" "\<forall>j < rs_cursor r'. settled r (slot_of t (slot_ptr p j))"
    "rs_component r' = rs_component r" "rs_epoch r' = rs_epoch r" "rs_dead_epoch r' = rs_dead_epoch r"
    "ph_slot_count (hdr t p) = ph_slot_count (hdr s p)" "own_star (pool_abs s p) (pool_abs t p)"
    "st = ZIPC_OK \<and> rs_cursor r < rs_cursor r' \<and> rs_cursor r' \<le> ph_slot_count (hdr t p) \<or>
     st = ZIPC_ERR_NO_BUFFER \<and> rs_scan_complete r' \<and> ph_slot_count (hdr t p) \<le> rs_cursor r'"
proof -
  obtain st r' b' t where sc: "restart_scan r p (buffer_invalidate (Some b)) s = (st, r', b', t)"
    by (metis prod.exhaust)
  have inv: "pool_inv s p" and ep: "rs_epoch r = rs_dead_epoch r + 1" and pl: "rs_pool r = Some p"
    and rec: "component_epoch_recovering s (Some p) (rs_component r) (rs_epoch r)"
    using ses unfolding restart_session_def by blast+
  have val: "zipc_component_id_valid (rs_component r)" using restart_session_valid [OF ses] ..
  note out = restart_scan_outcome [OF inv val epoch_successor [OF ep] sc]
  have fr: "frame UNIV s t" by (rule restart_scan_frame [OF sc])
  have next_eq: "zipc_component_restart_next (Some r) (Some b) s = (st, Some r', b', t)"
    using sc rec ep pl by (simp add: zipc_component_restart_next_def)
  have len: "length (ph_components (hdr s p)) = 256" using inv by (simp add: pool_inv_def pool_shape_def)
  have star: "pool_inv t p \<and> own_star (pool_abs s p) (pool_abs t p)"
    using out implements_star by blast
  have same: "rs_component r' = rs_component r" "rs_epoch r' = rs_epoch r" "rs_dead_epoch r' = rs_dead_epoch r" "rs_pool r' = rs_pool r"
    using out by simp_all
  have "restart_session t p r'"
    using star same ep pl rec lifecycle_frame [OF fr len val]
    by (simp add: restart_session_def component_epoch_recovering_def split: if_splits)
  moreover have "settled r' = settled r"
    using same by (simp add: settled_def token_of_dead_def fun_eq_iff)
  moreover have "settled r (slot_of t (slot_ptr p j))" if "j < rs_cursor r'" for j
    using that out before by (cases "j < rs_cursor r") (auto simp: not_less)
  moreover have "st = ZIPC_OK \<and> rs_cursor r < rs_cursor r' \<and> rs_cursor r' \<le> ph_slot_count (hdr t p) \<or>
     st = ZIPC_ERR_NO_BUFFER \<and> rs_scan_complete r' \<and> ph_slot_count (hdr t p) \<le> rs_cursor r'"
    using out lax restart_scan_cursor [of r p "buffer_invalidate (Some b)" s r' b' t] sc by auto
  ultimately show thesis
    using that [OF next_eq] same star frame_slot_count [OF fr] by blast
qed

lemma restart_drain_completes:
  assumes "restart_session s p r" "pool_flags p AND ZIPC_POOL_F_STRICT_OWNERSHIP = 0"
    and "\<forall>j < rs_cursor r. settled r (slot_of s (slot_ptr p j))"
    and "unat (ph_slot_count (hdr s p)) < unat (rs_cursor r) + n" "rs_cursor r \<le> ph_slot_count (hdr s p)"
  shows "\<exists>r' t. restart_drain n r b s = (ZIPC_ERR_NO_BUFFER, Some r', t) \<and> restart_session t p r' \<and>
    rs_scan_complete r' \<and> rs_component r' = rs_component r \<and> rs_epoch r' = rs_epoch r \<and> rs_dead_epoch r' = rs_dead_epoch r \<and>
    own_star (pool_abs s p) (pool_abs t p) \<and> (\<forall>j < ph_slot_count (hdr t p). settled r (slot_of t (slot_ptr p j)))"
  using assms
proof (induction n arbitrary: r s)
  case 0
  then show ?case by (simp add: word_le_nat_alt)
next
  case (Suc n)
  obtain st r' b' t where step: "zipc_component_restart_next (Some r) (Some b) s = (st, Some r', b', t)"
    "restart_session t p r'" "settled r' = settled r" "\<forall>j < rs_cursor r'. settled r (slot_of t (slot_ptr p j))"
    "rs_component r' = rs_component r" "rs_epoch r' = rs_epoch r" "rs_dead_epoch r' = rs_dead_epoch r"
    "ph_slot_count (hdr t p) = ph_slot_count (hdr s p)" "own_star (pool_abs s p) (pool_abs t p)"
    "st = ZIPC_OK \<and> rs_cursor r < rs_cursor r' \<and> rs_cursor r' \<le> ph_slot_count (hdr t p) \<or>
     st = ZIPC_ERR_NO_BUFFER \<and> rs_scan_complete r' \<and> ph_slot_count (hdr t p) \<le> rs_cursor r'"
    using restart_next_step [OF Suc.prems(1-3)] by blast
  from step(10) show ?case
  proof (elim disjE conjE)
    assume ok: "st = ZIPC_OK" "rs_cursor r < rs_cursor r'" "rs_cursor r' \<le> ph_slot_count (hdr t p)"
    then have "unat (ph_slot_count (hdr t p)) < unat (rs_cursor r') + n"
      using Suc.prems(4) step(8) by (simp add: word_less_nat_alt)
    from Suc.IH [OF step(2) Suc.prems(2) _ this ok(3)] step(4) obtain r'' u where
      "restart_drain n r' b t = (ZIPC_ERR_NO_BUFFER, Some r'', u)" "restart_session u p r''"
      "rs_scan_complete r''" "rs_component r'' = rs_component r" "rs_epoch r'' = rs_epoch r" "rs_dead_epoch r'' = rs_dead_epoch r"
      "own_star (pool_abs t p) (pool_abs u p)" "\<forall>j < ph_slot_count (hdr u p). settled r (slot_of u (slot_ptr p j))"
      by (auto simp: step(3,5-7))
    then show ?thesis
      using ok(1) step(1) own_star_trans [OF step(9)] by simp
  next
    assume "st = ZIPC_ERR_NO_BUFFER" "rs_scan_complete r'" "ph_slot_count (hdr t p) \<le> rs_cursor r'"
    then show ?thesis
      using step by (auto dest: order_less_le_trans)
  qed
qed

lemma restart_begin_session:
  assumes inv: "pool_inv s p" and val: "zipc_component_id_valid c" and ep: "dead \<noteq> 0" "dead \<noteq> UINT32_MAX"
    and lc: "component_lifecycle_epoch (cs_lifecycle (component_of s p c)) = dead"
      "component_lifecycle_state (cs_lifecycle (component_of s p c)) \<noteq> ZIPC_COMPONENT_RECOVERING"
  obtains r t where "zipc_component_restart_begin (Some p) c dead (Some r0) s = (ZIPC_OK, Some r, t)"
    "restart_session t p r" "rs_component r = c" "rs_dead_epoch r = dead" "rs_cursor r = 0" "pool_abs t p = pool_abs s p"
    "\<forall>i. slot_of t (slot_ptr p i) = slot_of s (slot_ptr p i)"
proof -
  let ?r = "\<lparr>rs_pool = Some p, rs_component = c, rs_dead_epoch = dead, rs_epoch = dead + 1, rs_cursor = 0, rs_scan_complete = False\<rparr>"
  let ?t = "store_heartbeat p c (snd (cas_lifecycle p c (cs_lifecycle (component_of s p c))
     (component_lifecycle_make (dead + 1) ZIPC_COMPONENT_RECOVERING) s))"
  have len: "length (ph_components (hdr s p)) = 256" using inv by (simp add: pool_inv_def pool_shape_def)
  have beg: "zipc_component_restart_begin (Some p) c dead (Some r0) s = (ZIPC_OK, Some ?r, ?t)"
    using val ep lc by (simp add: zipc_component_restart_begin_def Let_def split_beta)
  have "pool_inv ?t p" "pool_abs ?t p = pool_abs s p"
    using restart_begin_implements [OF inv beg] by (simp_all add: implements_def)
  moreover have "component_epoch_recovering ?t (Some p) c (dead + 1)"
    using val len epoch_succ [OF ep(2)] by (simp add: component_epoch_recovering_def cas_lifecycle_def)
  moreover have "slot_of ?t (slot_ptr p i) = slot_of s (slot_ptr p i)" for i
    by (simp add: store_heartbeat_def cas_lifecycle_def zipc_now_ns_def)
  ultimately show thesis
    by (intro that [OF beg]) (simp_all add: restart_session_def)
qed

lemma restart_finish_active:
  assumes ses: "restart_session s p r" and fin: "rs_scan_complete r"
  obtains t where "zipc_component_restart_finish (Some r) s = (ZIPC_OK, Some restart_zero, t)" "pool_abs t p = pool_abs s p"
    "pool_inv t p" "cs_lifecycle (component_of t p (rs_component r)) = component_lifecycle_make (rs_epoch r) ZIPC_COMPONENT_ACTIVE"
    "\<forall>i. slot_of t (slot_ptr p i) = slot_of s (slot_ptr p i)" "ph_slot_count (hdr t p) = ph_slot_count (hdr s p)"
proof -
  let ?c = "rs_component r"
  have val: "zipc_component_id_valid ?c" and inv: "pool_inv s p" and ep: "rs_epoch r = rs_dead_epoch r + 1" "rs_pool r = Some p"
    and rec: "component_epoch_recovering s (Some p) ?c (rs_epoch r)"
    using restart_session_valid [OF ses] ses unfolding restart_session_def by blast+
  have len: "length (ph_components (hdr s p)) = 256" using inv by (simp add: pool_inv_def pool_shape_def)
  have lc: "cs_lifecycle (component_of s p ?c) = component_lifecycle_make (rs_epoch r) ZIPC_COMPONENT_RECOVERING"
    using rec by (simp add: component_epoch_recovering_def split: if_splits)
  let ?t = "store_heartbeat p ?c (upd_component p ?c (\<lambda>e. e\<lparr>cs_lifecycle := component_lifecycle_make (rs_epoch r) ZIPC_COMPONENT_ACTIVE\<rparr>) s)"
  have fin: "zipc_component_restart_finish (Some r) s = (ZIPC_OK, Some restart_zero, ?t)"
    using fin ep rec lc by (simp add: zipc_component_restart_finish_def cas_lifecycle_def Let_def)
  have "cs_lifecycle (component_of ?t p ?c) = component_lifecycle_make (rs_epoch r) ZIPC_COMPONENT_ACTIVE"
    using val len by simp
  moreover have "slot_of ?t (slot_ptr p i) = slot_of s (slot_ptr p i)" "ph_slot_count (hdr ?t p) = ph_slot_count (hdr s p)" for i
    by (simp_all add: store_heartbeat_def zipc_now_ns_def) (simp add: upd_component_def)
  moreover have "pool_inv ?t p" "pool_abs ?t p = pool_abs s p"
    using restart_finish_implements [OF inv ep(2) fin] by (simp_all add: implements_def)
  ultimately show thesis
    using that [OF fin] by blast
qed


text \<open>Component 3 was registered in epoch 1 and died with one send interrupted and with the token of a
  release taken on a buffer it owns.\<close>

definition sample_crashed :: sys where
  "sample_crashed = upd_component sample_pool 3 (\<lambda>e. e\<lparr>cs_lifecycle := component_lifecycle_make 1 ZIPC_COMPONENT_ACTIVE\<rparr>)
     (sample_state [sample_claiming_slot, sample_owned_slot\<lparr>sc_owner_epoch := 1, sc_claim_token := claim_token_make ZIPC_CLAIM_RELEASE 3 1\<rparr>])"

lemma sample_crashed_inv [simp]: "pool_inv sample_crashed sample_pool"
proof -
  have "slot_wf 64 (sample_owned_slot\<lparr>sc_owner_epoch := 1, sc_claim_token := claim_token_make ZIPC_CLAIM_RELEASE 3 1\<rparr>)" by code_simp
  then show ?thesis by (simp add: sample_crashed_def upd_component_inv)
qed

lemma sample_crashed_lifecycle [simp]:
  "cs_lifecycle (component_of sample_crashed sample_pool 3) = component_lifecycle_make 1 ZIPC_COMPONENT_ACTIVE"
proof -
  have "length (ph_components sample_header) = 256" by (simp add: sample_header_def)
  then show ?thesis by (simp add: sample_crashed_def zipc_component_id_valid_iff)
qed


subsection \<open>Reachable states\<close>



text \<open>A slot left in the error state by a death inside a recovery is lost: neither recovery looks at
  it, and no operation takes it.\<close>

lemma error_slot_is_lost:
  assumes "sc_state (slot_of s (slot_ptr p i)) = ZIPC_SLOT_ERROR"
  shows "rs_cursor r = i \<Longrightarrow> restart_slot r p b s = Restart_Skip s"
    "recover_owner_slot p c dead age now i local s = Inr (local, s)" "recover_claiming_slot p i n s = Inr (n, s)"
    "\<not> slot_available (slot_of s (slot_ptr p i))"
    "zipc_handle_slot_id h = i \<Longrightarrow> fst (buffer_prepare_transfer_internal (Some p) h src dst link mo s) \<noteq> ZIPC_OK"
    "zipc_handle_slot_id (msg_handle m) = i \<Longrightarrow> fst (zipc_buffer_claim (Some p) (Some m) d (Some v) s) \<noteq> ZIPC_OK"
    "zipc_handle_slot_id h = i \<Longrightarrow> fst (zipc_pool_buffer_release (Some p) h src s) \<noteq> ZIPC_OK"
  using assms
  by (simp_all add: restart_slot_def recover_owner_slot_def recover_claiming_slot_def slot_available_def
      buffer_prepare_transfer_internal_def zipc_buffer_claim_def zipc_pool_buffer_release_def Let_def)

subsection \<open>Quiescent recovery\<close>

text \<open>Recovery of a quiesced pool frees exactly the slots abandoned in the middle of an operation:
  they are reset and their claim cleared, every other slot is unchanged, and the result satisfies
  the invariant with no slot left in the claiming state.\<close>

theorem recover_claiming_spec:
  assumes "pool_inv s p" "pool_flags p AND ZIPC_POOL_F_STRICT_OWNERSHIP = 0"
  shows "\<exists>n t. zipc_pool_recover_claiming (Some p) s = (ZIPC_OK, Some n, t) \<and> pool_inv t p \<and>
    own_star (pool_abs s p) (pool_abs t p) \<and> payload_of t = payload_of s \<and>
    (\<forall>j < ph_slot_count (hdr s p). slot_of t (slot_ptr p j) = reclaimed_slot (slot_of s (slot_ptr p j)) \<and>
       sc_state (slot_of t (slot_ptr p j)) \<noteq> ZIPC_SLOT_CLAIMING)"
proof -
  obtain n t where t: "recover_claiming_scan p 0 (unat (ph_slot_count (hdr s p))) 0 s = (ZIPC_OK, n, t)" "pool_inv t p"
    "own_star (pool_abs s p) (pool_abs t p)" "payload_of t = payload_of s"
    "\<forall>j. slot_of t (slot_ptr p j) = (if 0 \<le> j \<and> j < ph_slot_count (hdr s p) then reclaimed_slot (slot_of s (slot_ptr p j))
       else slot_of s (slot_ptr p j))"
    using recover_claiming_scan_outcome [OF assms, of 0 "unat (ph_slot_count (hdr s p))" 0] by auto
  have "sc_state (reclaimed_slot sl) \<noteq> ZIPC_SLOT_CLAIMING" for sl
    by (simp add: reclaimed_slot_def)
  then have "\<forall>j < ph_slot_count (hdr s p). slot_of t (slot_ptr p j) = reclaimed_slot (slot_of s (slot_ptr p j)) \<and>
       sc_state (slot_of t (slot_ptr p j)) \<noteq> ZIPC_SLOT_CLAIMING"
    using t(5) by simp
  moreover have "zipc_pool_recover_claiming (Some p) s = (ZIPC_OK, Some n, t)"
    using t(1) by (simp add: zipc_pool_recover_claiming_def)
  ultimately show ?thesis
    using t(2-4) by blast
qed

theorem recover_claiming_spec_witness:
  "\<exists>n t. zipc_pool_recover_claiming (Some sample_pool) sample_crashed = (ZIPC_OK, Some n, t) \<and>
     sc_state (slot_of t (slot_ptr sample_pool 0)) \<noteq> ZIPC_SLOT_CLAIMING"
proof -
  have lt: "0 < ph_slot_count (hdr sample_crashed sample_pool)"
    by (simp add: sample_crashed_def upd_component_def)
  have "pool_flags sample_pool AND ZIPC_POOL_F_STRICT_OWNERSHIP = 0" by simp
  from recover_claiming_spec [OF sample_crashed_inv this] lt show ?thesis by blast
qed

lemma recover_owner_result:
  assumes "pool_inv s p" "pool_flags p AND ZIPC_POOL_F_STRICT_OWNERSHIP = 0" "zipc_component_id_valid c" "dead \<noteq> 0"
  shows "if component_epoch_current s (Some p) c dead
    then zipc_pool_recover_owner (Some p) c dead age s = (ZIPC_ERR_COMPONENT_STALE, None, s)
    else \<exists>rr t. zipc_pool_recover_owner (Some p) c dead age s = (ZIPC_OK, Some rr, t) \<and> pool_inv t p \<and>
      own_star (pool_abs s p) (pool_abs t p) \<and>
      (\<forall>j < ph_slot_count (hdr s p).
         owner_recovered c dead age (sys_clock s (sys_ticks s)) (slot_of s (slot_ptr p j)) (slot_of t (slot_ptr p j)))"
proof (cases "component_epoch_current s (Some p) c dead")
  case True
  then show ?thesis
    using assms(3,4) by (auto simp: zipc_pool_recover_owner_def component_epoch_current_def Let_def)
next
  case False
  let ?s = "s\<lparr>sys_ticks := Suc (sys_ticks s)\<rparr>" and ?n = "unat (ph_slot_count (hdr s p))"
  let ?rr = "\<lparr>rr_recovered_owned = 0, rr_recovered_transfer = 0, rr_skipped_newer_epoch = 0\<rparr>"
  have inv: "pool_inv ?s p" using assms(1) by (simp add: ticks_inv)
  obtain rr t where t: "recover_owner_scan p c dead age (sys_clock s (sys_ticks s)) 0 ?n ?rr ?s = (ZIPC_OK, rr, t)" "pool_inv t p"
    "own_star (pool_abs s p) (pool_abs t p)"
    "\<forall>j. if 0 \<le> j \<and> j < ph_slot_count (hdr s p)
       then owner_recovered c dead age (sys_clock s (sys_ticks s)) (slot_of s (slot_ptr p j)) (slot_of t (slot_ptr p j))
       else slot_of t (slot_ptr p j) = slot_of s (slot_ptr p j)"
    using recover_owner_scan_outcome [OF inv assms(2), of 0 ?n c dead age "sys_clock s (sys_ticks s)" ?rr]
    by (auto simp: ticks_inv cong: if_cong)
  have "zipc_pool_recover_owner (Some p) c dead age s = (ZIPC_OK, Some rr, t)"
    using False t(1) assms(3,4)
    by (auto simp: zipc_pool_recover_owner_def component_epoch_current_def zipc_now_ns_def Let_def)
  moreover have "\<forall>j < ph_slot_count (hdr s p).
      owner_recovered c dead age (sys_clock s (sys_ticks s)) (slot_of s (slot_ptr p j)) (slot_of t (slot_ptr p j))"
    using t(4) by simp
  ultimately show ?thesis using False t(2,3) by auto
qed

text \<open>Owner recovery frees exactly the slots that the dead epoch of that component owns or has in
  transfer and that are old enough; every other slot is unchanged. It is refused while that epoch
  is the active one.\<close>

theorem recover_owner_spec:
  assumes "pool_inv s p" "pool_flags p AND ZIPC_POOL_F_STRICT_OWNERSHIP = 0" "zipc_component_id_valid c" "dead \<noteq> 0"
  shows "if component_epoch_current s (Some p) c dead
    then zipc_pool_recover_owner (Some p) c dead age s = (ZIPC_ERR_COMPONENT_STALE, None, s)
    else \<exists>rr t. zipc_pool_recover_owner (Some p) c dead age s = (ZIPC_OK, Some rr, t) \<and> pool_inv t p \<and>
      own_star (pool_abs s p) (pool_abs t p) \<and>
      (\<forall>j < ph_slot_count (hdr s p).
         owner_recovered c dead age (sys_clock s (sys_ticks s)) (slot_of s (slot_ptr p j)) (slot_of t (slot_ptr p j)))"
  by (rule recover_owner_result [OF assms])

theorem recover_owner_spec_witness:
  "\<exists>rr t. zipc_pool_recover_owner (Some sample_pool) 3 2 0 sample_crashed = (ZIPC_OK, Some rr, t) \<and> pool_inv t sample_pool"
proof -
  have "\<not> component_epoch_current sample_crashed (Some sample_pool) 3 2"
    by (simp add: component_epoch_current_def Let_def)
  then show ?thesis
    using recover_owner_spec [of sample_crashed sample_pool 3 2 0] by (auto simp: zipc_component_id_valid_iff)
qed

subsection \<open>Two gaps of the recovery\<close>

text \<open>Owner recovery does not clear claim tokens. A component that dies after publishing a slot but
  before clearing its claim leaves the token in an owned slot; owner recovery then frees the slot
  with the token still set, and no later allocation can take that slot: it is lost to the pool.\<close>

theorem recovered_slot_stays_claimed:
  assumes "pool_inv s p" "pool_flags p AND ZIPC_POOL_F_STRICT_OWNERSHIP = 0" "zipc_component_id_valid c" "dead \<noteq> 0"
    and "\<not> component_epoch_current s (Some p) c dead" "i < ph_slot_count (hdr s p)"
    and "dead_slot c dead age (sys_clock s (sys_ticks s)) (slot_of s (slot_ptr p i))"
    and "sc_claim_token (slot_of s (slot_ptr p i)) \<noteq> 0"
  shows "\<exists>rr t. zipc_pool_recover_owner (Some p) c dead age s = (ZIPC_OK, Some rr, t) \<and>
    sc_state (slot_of t (slot_ptr p i)) = ZIPC_SLOT_FREE \<and>
    (\<forall>a parent off len epoch hop duration enable b st b' u.
       buffer_allocate_internal (Some p) a parent off len epoch hop duration enable (Some b) t = Some (st, b', u) \<longrightarrow>
       slot_of u (slot_ptr p i) = slot_of t (slot_ptr p i))"
proof -
  obtain rr t where t: "zipc_pool_recover_owner (Some p) c dead age s = (ZIPC_OK, Some rr, t)" "pool_inv t p"
    "owner_recovered c dead age (sys_clock s (sys_ticks s)) (slot_of s (slot_ptr p i)) (slot_of t (slot_ptr p i))"
    using recover_owner_result [OF assms(1-4), of age] assms(5,6) by auto
  then have sl: "sc_state (slot_of t (slot_ptr p i)) = ZIPC_SLOT_FREE" "\<not> slot_available (slot_of t (slot_ptr p i))"
    using assms(7,8) by (simp_all add: owner_recovered_def reclaims_def slot_available_def)
  have gens: "gens_ready t" using t(2) by (simp add: pool_inv_def)
  have "slot_of u (slot_ptr p i) = slot_of t (slot_ptr p i)"
    if al: "buffer_allocate_internal (Some p) a parent off len epoch hop duration enable (Some b) t = Some (st, b', u)"
    for a parent off len epoch hop duration enable b st b' u
  proof (cases rule: allocate_outcome [OF pool_inv_shape [OF t(2)] gens, of a parent off len epoch hop duration enable b,
        case_names ok fail none])
    case (ok j u' bid now n)
    then have "u' = u" "j \<noteq> i" using al sl(2) by auto
    then show ?thesis using frame_slot_eq [OF ok(6)] by simp
  next
    case (fail j e u')
    then have "u' = u" "j \<noteq> i" using al sl(2) by auto
    then show ?thesis using frame_slot_eq [OF fail(6)] by simp
  next
    case (none e u')
    then show ?thesis using al by simp
  qed
  then show ?thesis using t(1) sl(1) by blast
qed

definition sample_leaked :: sys where
  "sample_leaked = sample_state [sample_owned_slot\<lparr>sc_owner_epoch := 1, sc_claim_token := claim_token_make ZIPC_CLAIM_ALLOCATE 3 1\<rparr>,
     sample_slot]"

theorem recovered_slot_stays_claimed_witness:
  "\<exists>rr t. zipc_pool_recover_owner (Some sample_pool) 3 1 0 sample_leaked = (ZIPC_OK, Some rr, t) \<and>
    sc_state (slot_of t (slot_ptr sample_pool 0)) = ZIPC_SLOT_FREE \<and>
    (\<forall>a parent off len epoch hop duration enable b st b' u.
       buffer_allocate_internal (Some sample_pool) a parent off len epoch hop duration enable (Some b) t = Some (st, b', u) \<longrightarrow>
       slot_of u (slot_ptr sample_pool 0) = slot_of t (slot_ptr sample_pool 0))"
proof (rule recovered_slot_stays_claimed)
  have "slot_wf 64 (sample_owned_slot\<lparr>sc_owner_epoch := 1, sc_claim_token := claim_token_make ZIPC_CLAIM_ALLOCATE 3 1\<rparr>)"
    by code_simp
  then show "pool_inv sample_leaked sample_pool" by (simp add: sample_leaked_def)
  show "\<not> component_epoch_current sample_leaked (Some sample_pool) 3 1"
    by (simp add: sample_leaked_def component_epoch_current_def component_of_def)
      (simp add: sample_header_def component_lifecycle_epoch_def)
qed (simp_all add: sample_leaked_def zipc_component_id_valid_iff dead_slot_def sample_slots_simps)

text \<open>A claim moves the slot to the claiming state before it checks that the caller is the
  destination. When the caller dies at that point, the restart of the caller returns the slot to
  transfer with the caller as destination: the pending transfer of another component is redirected
  to it, although the uninterrupted claim would have been refused.\<close>

theorem interrupted_claim_redirects_transfer:
  assumes "pool_inv s p" "pool_flags p AND ZIPC_POOL_F_STRICT_OWNERSHIP = 0" "claim_addressed s p m c"
    and "sc_next_owner_id (slot_of s (slot_ptr p (zipc_handle_slot_id (msg_handle m)))) \<noteq> c"
    and "rs_component r = c" "rs_dead_epoch r = registered_epoch s (Some p) c" "rs_cursor r = zipc_handle_slot_id (msg_handle m)"
  shows "let k = slot_ptr p (zipc_handle_slot_id (msg_handle m));
      tok = claim_token_make ZIPC_CLAIM_RECEIVE c (registered_epoch s (Some p) c); u = take_slot k tok s in
    zipc_buffer_claim (Some p) (Some m) c (Some b) s = claim_claimed p m c (registered_epoch s (Some p) c) tok (Some b) u \<and>
    fst (zipc_buffer_claim (Some p) (Some m) c (Some b) s) \<noteq> ZIPC_OK \<and>
    (\<exists>t. restart_slot r p bo u = Restart_Skip t \<and> sc_state (slot_of t k) = ZIPC_SLOT_TRANSFER \<and>
         sc_next_owner_id (slot_of t k) = c)"
proof -
  let ?k = "slot_ptr p (zipc_handle_slot_id (msg_handle m))"
  let ?tok = "claim_token_make ZIPC_CLAIM_RECEIVE c (registered_epoch s (Some p) c)"
  let ?u = "take_slot ?k ?tok s"
  note shape = pool_inv_shape [OF assms(1)]
  have ok: "slot_ptr_ok s ?k" using assms(3) shape by (simp add: claim_addressed_def slot_ptr_ok_iff)
  have val: "zipc_component_id_valid c" using assms(3) by (simp add: claim_addressed_def)
  have "\<not> claim_ready s p m c"
    using assms(4) by (auto simp: claim_ready_def claim_matches_def Let_def)
  then have refused: "fst (zipc_buffer_claim (Some p) (Some m) c (Some b) s) \<noteq> ZIPC_OK"
    using claim_outcome_owned [OF assms(1), of m c b] by (auto split: prod.splits)
  let ?t = "store_state ?k ZIPC_SLOT_TRANSFER (upd_slot ?k (undo_receive c) (upd_slot ?k (\<lambda>sl. sl\<lparr>sc_state := ZIPC_SLOT_ERROR\<rparr>) ?u))"
  have "token_of_dead r ?tok"
    using assms(5,6) val component_low_byte by (simp add: token_of_dead_def)
  then have "restart_slot r p bo ?u = Restart_Skip ?t"
    using ok assms(2,5,7) by (simp add: restart_slot_def Let_def cas_state_def)
  moreover have "sc_state (slot_of ?t ?k) = ZIPC_SLOT_TRANSFER" "sc_next_owner_id (slot_of ?t ?k) = c"
    using ok by (simp_all add: undo_receive_def)
  ultimately show ?thesis
    using refused claim_addressed_unfold [OF shape assms(3)] unfolding Let_def by blast
qed

text \<open>The pending transfer to component 5, and a descriptor of an earlier transfer of the slot to component 6.\<close>

definition sample_stale_transfer :: zipc_message where
  "sample_stale_transfer = transfer_message sample_pool sample_handle 3 6 0"

definition sample_restart :: zipc_restart where
  "sample_restart = \<lparr>rs_pool = Some sample_pool, rs_component = 6, rs_dead_epoch = 0, rs_epoch = 1, rs_cursor = 0, rs_scan_complete = False\<rparr>"

theorem interrupted_claim_redirects_transfer_witness:
  "let s = sample_state [sample_transfer_slot, sample_slot]; k = slot_ptr sample_pool 0;
      u = take_slot k (claim_token_make ZIPC_CLAIM_RECEIVE 6 0) s in
    sc_next_owner_id (slot_of s k) = 5 \<and>
    fst (zipc_buffer_claim (Some sample_pool) (Some sample_stale_transfer) 6 (Some buffer_zero) s) \<noteq> ZIPC_OK \<and>
    (\<exists>t. restart_slot sample_restart sample_pool None u = Restart_Skip t \<and> sc_state (slot_of t k) = ZIPC_SLOT_TRANSFER \<and>
         sc_next_owner_id (slot_of t k) = 6)"
proof -
  have "claim_addressed (sample_state [sample_transfer_slot, sample_slot]) sample_pool sample_stale_transfer 6"
    by (simp add: claim_addressed_def sample_stale_transfer_def transfer_message_def sample_slots_simps zipc_component_id_valid_iff)
  moreover have "sc_next_owner_id sample_transfer_slot = 5"
    by (simp add: sample_transfer_slot_def transfer_fields_def)
  moreover have "msg_handle sample_stale_transfer = sample_handle" "rs_component sample_restart = 6"
    "rs_dead_epoch sample_restart = 0" "rs_cursor sample_restart = 0"
    by (simp_all add: sample_stale_transfer_def transfer_message_def sample_restart_def)
  ultimately show ?thesis
    using interrupted_claim_redirects_transfer [of "sample_state [sample_transfer_slot, sample_slot]" sample_pool
        sample_stale_transfer 6 sample_restart buffer_zero None]
    unfolding Let_def by auto
qed

end
