(* ===== verification/Pool_Config.thy ===== *)
theory Pool_Config
  imports Pool_Properties
begin

text \<open>
  Pool configuration, formatting and attachment (\<^verbatim>\<open>src/core/zipc.c\<close>, \<open>is_power_of_two\<close> to
  \<open>zipc_pool_attach\<close>) with the accessors of a Linux memory object they call. \<open>size_t\<close> and addresses are
  64-bit words. The header of a pool lives at the address \<open>base + control_offset\<close>, and that address is
  the reference of the pool in the store; the sizes and alignments of the two shared structures
  are those of the LP64 ABI. The payload bytes of a pool are not touched by formatting.
\<close>

subsection \<open>Memory objects\<close>

definition zipc_platform_memory_base :: "sys \<Rightarrow> nat option \<Rightarrow> u64" where
  "zipc_platform_memory_base s memory = (case memory of None \<Rightarrow> 0 | Some r \<Rightarrow> pm_base (sys_mem s r))"

definition zipc_platform_memory_size :: "sys \<Rightarrow> nat option \<Rightarrow> u64" where
  "zipc_platform_memory_size s memory = (case memory of None \<Rightarrow> 0 | Some r \<Rightarrow> pm_size (sys_mem s r))"

definition zipc_platform_memory_capabilities :: "sys \<Rightarrow> nat option \<Rightarrow> u32" where
  "zipc_platform_memory_capabilities s memory = (case memory of None \<Rightarrow> 0 | Some r \<Rightarrow> pm_capabilities (sys_mem s r))"

definition zipc_platform_memory_physical_base :: "sys \<Rightarrow> nat option \<Rightarrow> u64" where
  "zipc_platform_memory_physical_base s memory =
     (case memory of None \<Rightarrow> ZIPC_PHYS_ADDR_INVALID | Some r \<Rightarrow> pm_physical_base (sys_mem s r))"

definition zipc_platform_page_size :: "sys \<Rightarrow> u64" where
  "zipc_platform_page_size s = sys_page_size s"

subsection \<open>Layout arithmetic\<close>

definition sizeof_pool_header :: u64 where "sizeof_pool_header = 6248"
definition sizeof_slot_control :: u64 where "sizeof_slot_control = 344"
definition alignof_pool_header :: u64 where "alignof_pool_header = 8"
definition alignof_slot_control :: u64 where "alignof_slot_control = 8"

definition is_power_of_two :: "u64 \<Rightarrow> bool" where
  "is_power_of_two value \<longleftrightarrow> value \<noteq> 0 \<and> value AND (value - 1) = 0"

definition align_up_checked :: "u64 \<Rightarrow> u64 \<Rightarrow> u64 option" where
  "align_up_checked value alignment =
     (if \<not> is_power_of_two alignment \<or> value > SIZE_MAX - (alignment - 1) then None
      else Some ((value + alignment - 1) AND NOT (alignment - 1)))"

definition memory_address_aligned :: "sys \<Rightarrow> nat option \<Rightarrow> u64 \<Rightarrow> u64 \<Rightarrow> bool" where
  "memory_address_aligned s memory offset alignment \<longleftrightarrow>
     (let base = zipc_platform_memory_base s memory in
      base \<noteq> 0 \<and> is_power_of_two alignment \<and> offset \<le> UINT64_MAX - base \<and>
      (base + offset) AND (alignment - 1) = 0)"

definition memory_range_fits :: "sys \<Rightarrow> nat option \<Rightarrow> u64 \<Rightarrow> u64 \<Rightarrow> bool" where
  "memory_range_fits s memory offset len \<longleftrightarrow>
     (let size = zipc_platform_memory_size s memory; base = zipc_platform_memory_base s memory in
      base \<noteq> 0 \<and> offset \<le> size \<and> len \<le> size - offset \<and> offset \<le> UINT64_MAX - base \<and>
      len \<le> UINT64_MAX - (base + offset))"

record zipc_pool_config =
  cfg_control_memory :: "nat option"
  cfg_control_offset :: u64
  cfg_payload_memory :: "nat option"
  cfg_payload_offset :: u64
  cfg_slot_count :: u32
  cfg_slot_capacity :: u32
  cfg_slot_stride :: u32
  cfg_payload_alignment :: u32
  cfg_flags :: u32
  cfg_pool_id :: u32

definition pool_ranges_valid :: "sys \<Rightarrow> zipc_pool_config \<Rightarrow> nat option \<Rightarrow> u64 \<Rightarrow> u64 \<Rightarrow> bool" where
  "pool_ranges_valid s config payload_memory control_required payload_required \<longleftrightarrow>
     memory_range_fits s (cfg_control_memory config) (cfg_control_offset config) control_required \<and>
     memory_range_fits s payload_memory (cfg_payload_offset config) payload_required \<and>
     (if cfg_control_memory config = payload_memory
      then let control_end = cfg_control_offset config + control_required;
               payload_end = cfg_payload_offset config + payload_required
           in \<not> (cfg_control_offset config < payload_end \<and> cfg_payload_offset config < control_end)
      else True)"

text \<open>The two page-protection checks of \<open>normalize_config\<close> share this condition.\<close>

definition pages_unsupported :: "sys \<Rightarrow> zipc_pool_config \<Rightarrow> nat option \<Rightarrow> bool" where
  "pages_unsupported s config payload_memory \<longleftrightarrow>
     (let page_size = zipc_platform_memory_page_size s payload_memory;
          payload_caps = zipc_platform_memory_capabilities s payload_memory
      in page_size = 0 \<or> page_size > ucast UINT32_MAX \<or>
         payload_caps AND ZIPC_MEM_CAP_PAGE_PROTECT = 0 \<or>
         cfg_payload_offset config mod page_size \<noteq> 0 \<or>
         \<not> memory_address_aligned s payload_memory (cfg_payload_offset config) page_size \<or>
         ucast (cfg_slot_capacity config) mod page_size \<noteq> 0)"

definition config_stride :: "sys \<Rightarrow> zipc_pool_config \<Rightarrow> nat option \<Rightarrow> zipc_status + u32" where
  "config_stride s config payload_memory =
     (if cfg_flags config AND ZIPC_POOL_F_GUARD_PAGES \<noteq> 0 then
        let page_size = zipc_platform_memory_page_size s payload_memory in
        if pages_unsupported s config payload_memory \<or>
           cfg_slot_capacity config > UINT32_MAX - ucast page_size
        then Inl ZIPC_ERR_UNSUPPORTED_MEMORY
        else
          let guarded_stride = cfg_slot_capacity config + ucast page_size in
          if cfg_slot_stride config \<noteq> 0 \<and> cfg_slot_stride config \<noteq> guarded_stride
          then Inl ZIPC_ERR_INVALID_ARGUMENT
          else Inr guarded_stride
      else if cfg_slot_stride config \<noteq> 0 then Inr (cfg_slot_stride config)
      else
        case align_up_checked (ucast (cfg_slot_capacity config)) (ucast (cfg_payload_alignment config)) of
          None \<Rightarrow> Inl ZIPC_ERR_INVALID_ARGUMENT
        | Some aligned_capacity \<Rightarrow>
            if aligned_capacity > ucast UINT32_MAX then Inl ZIPC_ERR_INVALID_ARGUMENT
            else Inr (ucast aligned_capacity))"

definition config_capabilities :: "sys \<Rightarrow> zipc_pool_config \<Rightarrow> nat option \<Rightarrow> bool" where
  "config_capabilities s config payload_memory \<longleftrightarrow>
     (let control_needed = ZIPC_MEM_CAP_CPU_READ OR ZIPC_MEM_CAP_CPU_WRITE OR ZIPC_MEM_CAP_ATOMIC32 OR
                           ZIPC_MEM_CAP_ATOMIC64;
          payload_needed = ZIPC_MEM_CAP_CPU_READ OR ZIPC_MEM_CAP_CPU_WRITE
      in zipc_platform_memory_capabilities s (cfg_control_memory config) AND control_needed = control_needed \<and>
         zipc_platform_memory_capabilities s payload_memory AND payload_needed = payload_needed)"

definition normalize_config ::
  "sys \<Rightarrow> zipc_pool_config option \<Rightarrow> zipc_status + (nat option \<times> u32)" where
  "normalize_config s config =
     (case config of
        None \<Rightarrow> Inl ZIPC_ERR_INVALID_ARGUMENT
      | Some cfg \<Rightarrow>
          if cfg_control_memory cfg = None \<or> cfg_slot_count cfg = 0 \<or> cfg_slot_capacity cfg = 0 \<or>
             \<not> is_power_of_two (ucast (cfg_payload_alignment cfg)) \<or>
             cfg_flags cfg AND NOT (ZIPC_POOL_F_GUARD_PAGES OR ZIPC_POOL_F_STRICT_OWNERSHIP) \<noteq> 0
          then Inl ZIPC_ERR_INVALID_ARGUMENT
          else
            let payload_memory = (if cfg_payload_memory cfg \<noteq> None then cfg_payload_memory cfg
                                  else cfg_control_memory cfg)
            in if cfg_control_offset cfg mod alignof_pool_header \<noteq> 0 \<or>
                  \<not> memory_address_aligned s (cfg_control_memory cfg) (cfg_control_offset cfg) alignof_pool_header \<or>
                  cfg_payload_offset cfg mod ucast (cfg_payload_alignment cfg) \<noteq> 0 \<or>
                  \<not> memory_address_aligned s payload_memory (cfg_payload_offset cfg)
                       (ucast (cfg_payload_alignment cfg))
               then Inl ZIPC_ERR_INVALID_ARGUMENT
               else if cfg_flags cfg AND ZIPC_POOL_F_STRICT_OWNERSHIP \<noteq> 0 \<and> pages_unsupported s cfg payload_memory
               then Inl ZIPC_ERR_UNSUPPORTED_MEMORY
               else
                 case config_stride s cfg payload_memory of
                   Inl status \<Rightarrow> Inl status
                 | Inr slot_stride \<Rightarrow>
                     if slot_stride < cfg_slot_capacity cfg \<or> slot_stride mod cfg_payload_alignment cfg \<noteq> 0
                     then Inl ZIPC_ERR_INVALID_ARGUMENT
                     else if \<not> config_capabilities s cfg payload_memory then Inl ZIPC_ERR_UNSUPPORTED_MEMORY
                     else Inr (payload_memory, slot_stride))"

fun guard_scan :: "zipc_pool_config \<Rightarrow> nat option \<Rightarrow> u32 \<Rightarrow> u64 \<Rightarrow> u32 \<Rightarrow> nat \<Rightarrow> sys \<Rightarrow> zipc_status \<times> sys" where
  "guard_scan config payload_memory slot_stride page_size i 0 s = (ZIPC_OK, s)"
| "guard_scan config payload_memory slot_stride page_size i (Suc n) s =
     (let guard_offset = cfg_payload_offset config + ucast i * ucast slot_stride + ucast (cfg_slot_capacity config)
      in case zipc_platform_memory_protect_none payload_memory guard_offset page_size s of
           (status, s) \<Rightarrow>
             if status \<noteq> ZIPC_OK then (status, s)
             else guard_scan config payload_memory slot_stride page_size (i + 1) n s)"

definition apply_guard_pages ::
  "zipc_pool_config \<Rightarrow> nat option \<Rightarrow> u32 \<Rightarrow> sys \<Rightarrow> zipc_status \<times> sys" where
  "apply_guard_pages config payload_memory slot_stride s =
     (if cfg_flags config AND ZIPC_POOL_F_GUARD_PAGES = 0 then (ZIPC_OK, s)
      else
        let page_size = zipc_platform_memory_page_size s payload_memory in
        if page_size = 0 then (ZIPC_ERR_UNSUPPORTED_MEMORY, s)
        else guard_scan config payload_memory slot_stride page_size 0 (unat (cfg_slot_count config)) s)"

subsection \<open>Required sizes\<close>

definition zipc_pool_required_control_size :: "u32 \<Rightarrow> u64" where
  "zipc_pool_required_control_size slot_count =
     (if slot_count = 0 then 0
      else case align_up_checked sizeof_pool_header alignof_slot_control of
             None \<Rightarrow> 0
           | Some controls_offset \<Rightarrow>
               if ucast slot_count > (SIZE_MAX - controls_offset) div sizeof_slot_control then 0
               else controls_offset + ucast slot_count * sizeof_slot_control)"

definition zipc_pool_guarded_slot_stride :: "sys \<Rightarrow> u32 \<Rightarrow> u32" where
  "zipc_pool_guarded_slot_stride s slot_capacity =
     (let page_size = zipc_platform_page_size s in
      if page_size = 0 \<or> page_size > ucast UINT32_MAX \<or> slot_capacity = 0 \<or>
         ucast slot_capacity mod page_size \<noteq> 0 \<or> slot_capacity > UINT32_MAX - ucast page_size
      then 0 else slot_capacity + ucast page_size)"

definition zipc_pool_guarded_payload_size :: "sys \<Rightarrow> u32 \<Rightarrow> u32 \<Rightarrow> u64" where
  "zipc_pool_guarded_payload_size s slot_count slot_capacity =
     (let stride = zipc_pool_guarded_slot_stride s slot_capacity in
      if slot_count = 0 \<or> stride = 0 \<or> ucast slot_count > SIZE_MAX div ucast stride then 0
      else ucast slot_count * ucast stride)"

definition zipc_pool_required_payload_size :: "u32 \<Rightarrow> u32 \<Rightarrow> u32 \<Rightarrow> u32 \<Rightarrow> u64" where
  "zipc_pool_required_payload_size slot_count slot_capacity slot_stride payload_alignment =
     (if slot_count = 0 \<or> slot_capacity = 0 \<or> \<not> is_power_of_two (ucast payload_alignment) then 0
      else
        let aligned_capacity = (if slot_stride = 0
              then align_up_checked (ucast slot_capacity) (ucast payload_alignment) else Some 0)
        in case aligned_capacity of
             None \<Rightarrow> 0
           | Some aligned_capacity \<Rightarrow>
               if slot_stride = 0 \<and> aligned_capacity > ucast UINT32_MAX then 0
               else
                 let stride = (if slot_stride \<noteq> 0 then slot_stride else ucast aligned_capacity) in
                 if stride < slot_capacity \<or> stride mod payload_alignment \<noteq> 0 \<or>
                    ucast slot_count > SIZE_MAX div ucast stride
                 then 0 else ucast slot_count * ucast stride)"

subsection \<open>Formatting\<close>

text \<open>Zeroed shared memory, read as the two structures.\<close>

definition zero_slot :: zipc_slot_control where
  "zero_slot = \<lparr>sc_state = ZIPC_SLOT_FREE, sc_generation = 0, sc_owner_id = 0, sc_next_owner_id = 0,
     sc_owner_epoch = 0, sc_hop_count = 0, sc_hop_limit = 0, sc_visited = visited_empty,
     sc_identity = \<lparr>bi_id = 0, bi_parent_id = 0\<rparr>, sc_region = empty_region,
     sc_transfer_sequence = 0, sc_payload_type = 0, sc_flags = 0, sc_error_flags = 0,
     sc_acquired_ns = 0, sc_deadline_ns = 0, sc_trace_count = 0, sc_recovery_count = 0,
     sc_claim_token = 0, sc_claim_previous_sequence = 0, sc_claim_previous_region = empty_region,
     sc_claim_previous_owner = 0, sc_reserved_claim = 0, sc_claim_previous_owner_epoch = 0,
     sc_transfer_link_id = 0, sc_transfer_source_id = 0, sc_reserved_transfer = 0,
     sc_transfer_source_epoch = 0, sc_transfer_hop_count = 0, sc_transfer_acquired_ns = 0,
     sc_transfer_visited = visited_empty, sc_trace = replicate 8 empty_trace_entry\<rparr>"

definition zero_component :: zipc_component_status where
  "zero_component = \<lparr>cs_lifecycle = 0, cs_last_heartbeat_ns = 0, cs_recovered_slots = 0\<rparr>"

definition zero_header :: zipc_pool_header where
  "zero_header = \<lparr>ph_magic = 0, ph_abi_version = 0, ph_header_size = 0, ph_slot_count = 0, ph_slot_capacity = 0,
     ph_slot_stride = 0, ph_controls_offset = 0, ph_payload_alignment = 0, ph_allocation_cursor = 0,
     ph_allocation_count = 0, ph_release_count = 0, ph_allocation_failure_count = 0,
     ph_protocol_error_count = 0, ph_recovery_count = 0, ph_components = replicate 256 zero_component\<rparr>"

definition format_slot :: "zipc_slot_control \<Rightarrow> zipc_slot_control" where
  "format_slot sl = sl\<lparr>sc_state := ZIPC_SLOT_FREE, sc_generation := 0, sc_claim_token := 0,
     sc_owner_id := ZIPC_INVALID_COMPONENT_ID, sc_next_owner_id := ZIPC_INVALID_COMPONENT_ID\<rparr>"

definition format_component :: "zipc_component_status \<Rightarrow> zipc_component_status" where
  "format_component e = e\<lparr>cs_lifecycle := component_lifecycle_make 0 ZIPC_COMPONENT_INACTIVE,
     cs_last_heartbeat_ns := 0, cs_recovered_slots := 0\<rparr>"

definition control_address :: "sys \<Rightarrow> zipc_pool_config \<Rightarrow> u64" where
  "control_address s config = zipc_platform_memory_base s (cfg_control_memory config) + cfg_control_offset config"

definition zipc_pool_format :: "zipc_pool_config option \<Rightarrow> sys \<Rightarrow> zipc_status \<times> sys" where
  "zipc_pool_format config s =
     (case normalize_config s config of
        Inl status \<Rightarrow> (status, s)
      | Inr (payload_memory, slot_stride) \<Rightarrow>
          let cfg = the config;
              control_required = zipc_pool_required_control_size (cfg_slot_count cfg);
              payload_required = zipc_pool_required_payload_size (cfg_slot_count cfg) (cfg_slot_capacity cfg)
                                   slot_stride (cfg_payload_alignment cfg)
          in if control_required = 0 \<or> payload_required = 0 \<or>
                \<not> pool_ranges_valid s cfg payload_memory control_required payload_required
             then (ZIPC_ERR_INVALID_ARGUMENT, s)
             else
               case apply_guard_pages cfg payload_memory slot_stride s of
                 (status, s) \<Rightarrow>
                   if status \<noteq> ZIPC_OK then (status, s)
                   else
                     let r = unat (control_address s cfg);
                         zeroed = replicate (unat (cfg_slot_count cfg)) zero_slot;
                         header = zero_header\<lparr>ph_magic := ZIPC_POOL_MAGIC, ph_abi_version := ZIPC_POOL_ABI_VERSION,
                                    ph_header_size := ucast sizeof_pool_header, ph_slot_count := cfg_slot_count cfg,
                                    ph_slot_capacity := cfg_slot_capacity cfg, ph_slot_stride := slot_stride\<rparr>;
                         write = (\<lambda>h cs. s\<lparr>sys_shm := (sys_shm s)(r :=
                                    (sys_shm s r)\<lparr>shm_header := h, shm_controls := cs\<rparr>)\<rparr>)
                     in case align_up_checked sizeof_pool_header alignof_slot_control of
                          None \<Rightarrow> (ZIPC_ERR_INVALID_ARGUMENT, write header zeroed)
                        | Some controls_offset \<Rightarrow>
                            if controls_offset > ucast UINT32_MAX \<or>
                               cfg_control_offset cfg > SIZE_MAX - controls_offset \<or>
                               \<not> memory_address_aligned s (cfg_control_memory cfg)
                                    (cfg_control_offset cfg + controls_offset) alignof_slot_control
                            then (ZIPC_ERR_INVALID_ARGUMENT, write header zeroed)
                            else
                              let header = header\<lparr>ph_controls_offset := ucast controls_offset,
                                    ph_payload_alignment := cfg_payload_alignment cfg,
                                    ph_allocation_cursor := 0, ph_allocation_count := 0, ph_release_count := 0,
                                    ph_allocation_failure_count := 0, ph_protocol_error_count := 0,
                                    ph_recovery_count := 0,
                                    ph_components := map format_component (ph_components header)\<rparr>
                              in (ZIPC_OK, write header (map format_slot zeroed)))"

subsection \<open>Attaching\<close>

definition pool_zero :: "nat \<Rightarrow> zipc_pool" where
  "pool_zero addr = \<lparr>pool_addr = addr, pool_control_memory = None, pool_payload_memory = None,
     pool_control_offset = 0, pool_payload_offset = 0, pool_shm_ref = 0, pool_payload_base = 0,
     pool_flags = 0, pool_pool_id = 0\<rparr>"

fun revoke_scan :: "zipc_pool \<Rightarrow> u32 \<Rightarrow> nat \<Rightarrow> sys \<Rightarrow> zipc_status \<times> sys" where
  "revoke_scan p i 0 s = (ZIPC_OK, s)"
| "revoke_scan p i (Suc n) s =
     (let slot_offset = pool_payload_offset p + ucast i * ucast (ph_slot_stride (hdr s p))
      in case zipc_platform_memory_protect_none (pool_payload_memory p) slot_offset
                (ucast (ph_slot_capacity (hdr s p))) s of
           (status, s) \<Rightarrow> if status \<noteq> ZIPC_OK then (status, s) else revoke_scan p (i + 1) n s)"

text \<open>The header checks of \<open>zipc_pool_attach\<close>: identity of the layout, then position of the controls
  and the ranges they imply.\<close>

definition header_matches :: "zipc_pool_header \<Rightarrow> zipc_pool_config \<Rightarrow> u32 \<Rightarrow> bool" where
  "header_matches h cfg requested_stride \<longleftrightarrow>
     ph_magic h = ZIPC_POOL_MAGIC \<and> ph_abi_version h = ZIPC_POOL_ABI_VERSION \<and>
     ucast (ph_header_size h) = sizeof_pool_header \<and> ph_slot_count h = cfg_slot_count cfg \<and>
     ph_slot_capacity h = cfg_slot_capacity cfg \<and> ph_slot_stride h = requested_stride \<and>
     ph_payload_alignment h = cfg_payload_alignment cfg"

definition controls_placed :: "sys \<Rightarrow> zipc_pool_header \<Rightarrow> zipc_pool_config \<Rightarrow> bool" where
  "controls_placed s h cfg \<longleftrightarrow>
     (case align_up_checked sizeof_pool_header alignof_slot_control of
        None \<Rightarrow> False
      | Some expected \<Rightarrow>
          expected \<le> ucast UINT32_MAX \<and> ucast (ph_controls_offset h) = expected \<and>
          ucast (ph_controls_offset h) mod alignof_slot_control = 0 \<and>
          cfg_control_offset cfg \<le> SIZE_MAX - ucast (ph_controls_offset h) \<and>
          memory_address_aligned s (cfg_control_memory cfg)
            (cfg_control_offset cfg + ucast (ph_controls_offset h)) alignof_slot_control)"

definition header_ranges :: "sys \<Rightarrow> zipc_pool_header \<Rightarrow> zipc_pool_config \<Rightarrow> nat option \<Rightarrow> bool" where
  "header_ranges s h cfg payload_memory \<longleftrightarrow>
     (let control_required = zipc_pool_required_control_size (ph_slot_count h);
          payload_required = zipc_pool_required_payload_size (ph_slot_count h) (ph_slot_capacity h)
                               (ph_slot_stride h) (ph_payload_alignment h)
      in control_required \<noteq> 0 \<and> payload_required \<noteq> 0 \<and> ucast (ph_controls_offset h) \<le> control_required \<and>
         ucast (ph_slot_count h) \<le> (control_required - ucast (ph_controls_offset h)) div sizeof_slot_control \<and>
         pool_ranges_valid s cfg payload_memory control_required payload_required)"

definition zipc_pool_attach ::
  "zipc_pool option \<Rightarrow> zipc_pool_config option \<Rightarrow> sys \<Rightarrow> zipc_status \<times> zipc_pool option \<times> sys" where
  "zipc_pool_attach pool config s =
     (case pool of
        None \<Rightarrow> (ZIPC_ERR_INVALID_ARGUMENT, pool, s)
      | Some p0 \<Rightarrow>
          case normalize_config s config of
            Inl status \<Rightarrow> (status, pool, s)
          | Inr (payload_memory, requested_stride) \<Rightarrow>
              let cfg = the config;
                  size = zipc_platform_memory_size s (cfg_control_memory cfg)
              in if cfg_control_offset cfg > size \<or> sizeof_pool_header > size - cfg_control_offset cfg
                 then (ZIPC_ERR_INVALID_POOL, pool, s)
                 else
                   let r = unat (control_address s cfg);
                       h = shm_header (sys_shm s r)
                   in if \<not> header_matches h cfg requested_stride \<or> \<not> controls_placed s h cfg \<or>
                         \<not> header_ranges s h cfg payload_memory
                      then (ZIPC_ERR_INVALID_POOL, pool, s)
                      else
                        case apply_guard_pages cfg payload_memory requested_stride s of
                          (status, s) \<Rightarrow>
                            if status \<noteq> ZIPC_OK then (status, Some (pool_zero (pool_addr p0)), s)
                            else
                              let p = \<lparr>pool_addr = pool_addr p0, pool_control_memory = cfg_control_memory cfg,
                                       pool_payload_memory = payload_memory,
                                       pool_control_offset = cfg_control_offset cfg,
                                       pool_payload_offset = cfg_payload_offset cfg, pool_shm_ref = r,
                                       pool_payload_base = zipc_platform_memory_base s payload_memory +
                                                           cfg_payload_offset cfg,
                                       pool_flags = cfg_flags cfg, pool_pool_id = cfg_pool_id cfg\<rparr>
                              in if pool_flags p AND ZIPC_POOL_F_STRICT_OWNERSHIP = 0 then (ZIPC_OK, Some p, s)
                                 else case revoke_scan p 0 (unat (ph_slot_count h)) s of
                                        (status, s) \<Rightarrow> (status, Some p, s))"

subsection \<open>Powers of two and alignment\<close>

lemma unat_exp64: "k < 64 \<Longrightarrow> unat (2 ^ k :: u64) = 2 ^ k"
proof -
  assume "k < 64"
  then have "(2 :: nat) ^ k < 2 ^ 64" by (intro power_strict_increasing) simp_all
  moreover have "unat (of_nat n :: u64) = n" if "n < 2 ^ 64" for n
    using that by (simp add: unat_of_nat)
  ultimately have "unat (of_nat (2 ^ k) :: u64) = 2 ^ k" by blast
  then show ?thesis by simp
qed

lemma bit_top:
  assumes "2 ^ k \<le> unat a" "unat a < 2 ^ Suc k"
  shows "bit (a :: u64) k"
proof -
  have "unat a div 2 ^ k = 1"
    using assms by (intro div_nat_eqI) simp_all
  then show ?thesis
    by (metis bit_iff_odd odd_one unsigned_push_bit_eq bit_unsigned_iff bit_nat_iff)
qed

lemma is_power_of_two_iff: "is_power_of_two a \<longleftrightarrow> (\<exists>k < 64. a = 2 ^ k)"
proof
  assume "is_power_of_two a"
  then have a: "a \<noteq> 0" "a AND (a - 1) = 0" by (simp_all add: is_power_of_two_def)
  have "1 \<le> unat a" using a(1) by (simp add: Suc_le_eq unat_gt_0)
  then obtain k where k: "2 ^ k \<le> unat a" "unat a < 2 ^ (k + 1)"
    using ex_power_ivl1 [of 2 "unat a"] by auto
  have lt: "k < 64"
  proof (rule ccontr)
    assume "\<not> k < 64"
    then have "(2 :: nat) ^ 64 \<le> 2 ^ k" by (intro power_increasing) simp_all
    then show False using k(1) unat_u64_lt [of a] by simp
  qed
  have u: "unat (2 ^ k :: u64) = 2 ^ k" by (rule unat_exp64 [OF lt])
  moreover have "a = 2 ^ k"
  proof (rule ccontr)
    assume ne: "a \<noteq> 2 ^ k"
    then have "unat a \<noteq> 2 ^ k" using u by (metis word_unat_eq_iff)
    moreover have "unat (a - 1) = unat a - 1" using a(1) by (simp add: unat_minus_one)
    ultimately have "bit (a - 1) k" "bit a k"
      using k by (auto intro!: bit_top)
    then have "bit (a AND (a - 1)) k" by (simp add: bit_and_iff)
    then show False using a(2) by simp
  qed
  ultimately show "\<exists>k < 64. a = 2 ^ k" using lt by blast
next
  assume "\<exists>k < 64. a = 2 ^ k"
  then obtain k where k: "k < 64" "a = 2 ^ k" by blast
  have "(2 ^ k :: u64) AND mask k = 0"
    by (rule bit_word_eqI) (auto simp: bit_simps)
  moreover have "(2 ^ k :: u64) - 1 = mask k" by (simp add: mask_eq_exp_minus_1)
  ultimately show "is_power_of_two a"
    using k by (simp add: is_power_of_two_def)
qed

lemma unat_clear_low:
  assumes "k < 64"
  shows "unat ((x :: u64) AND NOT (2 ^ k - 1)) = unat x - unat x mod 2 ^ k"
proof -
  have m: "(2 ^ k - 1 :: u64) = mask k" by (simp add: mask_eq_exp_minus_1)
  have disj: "(x AND NOT (mask k)) AND (x AND mask k) = 0"
    by (rule bit_word_eqI) (auto simp: bit_simps)
  have "x = (x AND NOT (mask k)) OR (x AND mask k)"
    by (rule bit_word_eqI) (auto simp: bit_simps)
  also have "\<dots> = (x AND NOT (mask k)) + (x AND mask k)"
    using disj by (simp add: disjunctive_add_eq_or)
  finally have x: "x = (x AND NOT (mask k)) + (x AND mask k)" .
  have le: "x AND mask k \<le> x" by (rule word_and_le2)
  have "unat (x AND mask k) = unat x mod 2 ^ k"
    by (simp add: flip: take_bit_eq_mask take_bit_eq_mod unsigned_take_bit_eq)
  moreover have "x AND NOT (mask k) = x - (x AND mask k)"
    using x by (metis add_diff_cancel_right')
  ultimately show ?thesis
    using le by (simp add: m unat_sub)
qed

lemma unat_low_bits: "k < 64 \<Longrightarrow> unat ((x :: u64) AND (2 ^ k - 1)) = unat x mod 2 ^ k"
proof -
  assume "k < 64"
  have "(2 ^ k - 1 :: u64) = mask k" by (simp add: mask_eq_exp_minus_1)
  then show ?thesis by (simp flip: take_bit_eq_mask take_bit_eq_mod unsigned_take_bit_eq)
qed

lemma power_of_two_unat:
  assumes "is_power_of_two a"
  obtains k where "k < 64" "a = 2 ^ k" "unat a = 2 ^ k"
  using assms unat_exp64 unfolding is_power_of_two_iff by blast

lemma round_up_nat:
  fixes v a :: nat
  assumes "0 < a"
  shows "v \<le> (v + (a - 1)) - (v + (a - 1)) mod a" "a dvd (v + (a - 1)) - (v + (a - 1)) mod a"
    "(v + (a - 1)) - (v + (a - 1)) mod a < v + a"
proof -
  have "(v + (a - 1)) mod a < a" using assms by simp
  then show "v \<le> (v + (a - 1)) - (v + (a - 1)) mod a" by linarith
  show "a dvd (v + (a - 1)) - (v + (a - 1)) mod a" by (rule dvd_minus_mod)
  show "(v + (a - 1)) - (v + (a - 1)) mod a < v + a" using assms by linarith
qed

text \<open>Checked alignment. For a power of two, rounding up succeeds exactly when the sum does not
  overflow the address type, and the result is the smallest multiple of the alignment that is not
  below the value; any other alignment is refused.\<close>

theorem align_up_checked_correct:
  "case align_up_checked value alignment of
     None \<Rightarrow> \<not> (is_power_of_two alignment \<and> unat value + (unat alignment - 1) < 2 ^ 64)
   | Some r \<Rightarrow> is_power_of_two alignment \<and> unat value + (unat alignment - 1) < 2 ^ 64 \<and>
       unat alignment dvd unat r \<and> unat value \<le> unat r \<and> unat r < unat value + unat alignment"
proof (cases "is_power_of_two alignment")
  case True
  then obtain k where k: "k < 64" "alignment = 2 ^ k" "unat alignment = 2 ^ k"
    by (rule power_of_two_unat)
  have pos: "alignment \<noteq> 0" using True by (simp add: is_power_of_two_def)
  have am1: "unat (alignment - 1) = unat alignment - 1" using pos by (simp add: unat_minus_one)
  have le: "alignment - 1 \<le> SIZE_MAX" by (simp add: SIZE_MAX_eq)
  have over: "value > SIZE_MAX - (alignment - 1) \<longleftrightarrow> unat value + (unat alignment - 1) \<ge> 2 ^ 64"
    using unat_u64_lt [of alignment] pos
    by (auto simp: word_less_nat_alt unat_sub [OF le] unat_SIZE_MAX am1)
  show ?thesis
  proof (cases "value > SIZE_MAX - (alignment - 1)")
    case False
    then have lt: "unat value + (unat alignment - 1) < 2 ^ 64" using over by simp
    have eq: "value + alignment - 1 = value + (alignment - 1)" by simp
    have sum: "unat (value + alignment - 1) = unat value + (unat alignment - 1)"
      unfolding eq unat_word_ariths am1 using lt by simp
    have res: "align_up_checked value alignment = Some ((value + alignment - 1) AND NOT (alignment - 1))"
      using True False by (simp add: align_up_checked_def)
    have r: "unat ((value + alignment - 1) AND NOT (alignment - 1)) =
        (unat value + (unat alignment - 1)) - (unat value + (unat alignment - 1)) mod unat alignment"
      using unat_clear_low [OF k(1), of "value + alignment - 1"] unfolding k(2) [symmetric] sum k(3) .
    have "0 < unat alignment" using pos by (simp add: unat_gt_0)
    from True lt round_up_nat [OF this, of "unat value"] show ?thesis
      unfolding res option.case r by blast
  qed (use True over in \<open>simp add: align_up_checked_def\<close>)
qed (simp add: align_up_checked_def)

subsection \<open>What protection calls leave alone\<close>

definition same_layout :: "sys \<Rightarrow> sys \<Rightarrow> bool" where
  "same_layout s t \<longleftrightarrow> sys_shm t = sys_shm s \<and> sys_gen t = sys_gen s \<and> sys_page_size t = sys_page_size s \<and>
     (\<forall>r. pm_base (sys_mem t r) = pm_base (sys_mem s r) \<and> pm_size (sys_mem t r) = pm_size (sys_mem s r) \<and>
          pm_capabilities (sys_mem t r) = pm_capabilities (sys_mem s r))"

lemma same_layout_refl [simp]: "same_layout s s"
  by (simp add: same_layout_def)

lemma same_layout_trans: "same_layout s t \<Longrightarrow> same_layout t u \<Longrightarrow> same_layout s u"
  by (simp add: same_layout_def)

lemma same_layout_mprotect: "same_layout s (snd (mprotect r off n a s))"
  by (simp add: same_layout_def mprotect_def Let_def)

lemma same_layout_protect: "platform_memory_protect a m off n s = (e, t) \<Longrightarrow> same_layout s t"
  using platform_memory_protect_state [of a m off n s] same_layout_mprotect by auto

lemma same_layout_guard_scan: "guard_scan cfg m st pg i n s = (e, t) \<Longrightarrow> same_layout s t"
proof (induction n arbitrary: i s)
  case (Suc n)
  then show ?case
    by (auto simp: Let_def zipc_platform_memory_protect_none_def split: prod.splits if_splits
        dest!: same_layout_protect intro: same_layout_trans)
qed simp

lemma same_layout_guard: "apply_guard_pages cfg m st s = (e, t) \<Longrightarrow> same_layout s t"
  by (auto simp: apply_guard_pages_def Let_def split: if_splits dest: same_layout_guard_scan)

lemma same_layout_revoke: "revoke_scan p i n s = (e, t) \<Longrightarrow> same_layout s t"
proof (induction n arbitrary: i s)
  case (Suc n)
  then show ?case
    by (auto simp: Let_def zipc_platform_memory_protect_none_def split: prod.splits if_splits
        dest!: same_layout_protect intro: same_layout_trans)
qed simp

lemma layout_cong:
  assumes "same_layout s t"
  shows "zipc_platform_memory_base t = zipc_platform_memory_base s" "zipc_platform_memory_size t = zipc_platform_memory_size s"
    "zipc_platform_memory_capabilities t = zipc_platform_memory_capabilities s"
    "zipc_platform_memory_page_size t = zipc_platform_memory_page_size s"
    "sys_shm t = sys_shm s" "sys_gen t = sys_gen s"
  using assms
  by (auto simp: same_layout_def zipc_platform_memory_base_def zipc_platform_memory_size_def
      zipc_platform_memory_capabilities_def zipc_platform_memory_page_size_def fun_eq_iff split: option.splits)

lemma config_cong:
  assumes "zipc_platform_memory_base t = zipc_platform_memory_base s" "zipc_platform_memory_size t = zipc_platform_memory_size s"
    "zipc_platform_memory_capabilities t = zipc_platform_memory_capabilities s"
    "zipc_platform_memory_page_size t = zipc_platform_memory_page_size s"
  shows "normalize_config t = normalize_config s" "control_address t = control_address s"
    "pool_ranges_valid t = pool_ranges_valid s" "memory_address_aligned t = memory_address_aligned s"
proof -
  have al: "memory_address_aligned t = memory_address_aligned s"
    by (intro ext) (simp add: memory_address_aligned_def assms)
  have fits: "memory_range_fits t = memory_range_fits s"
    by (intro ext) (simp add: memory_range_fits_def assms)
  have pg: "pages_unsupported t = pages_unsupported s"
    by (intro ext) (simp add: pages_unsupported_def assms al)
  have st: "config_stride t = config_stride s"
    by (intro ext) (simp add: config_stride_def assms pg)
  have cap: "config_capabilities t = config_capabilities s"
    by (intro ext) (simp add: config_capabilities_def assms)
  show "memory_address_aligned t = memory_address_aligned s" by (rule al)
  show "control_address t = control_address s" by (intro ext) (simp add: control_address_def assms)
  show "pool_ranges_valid t = pool_ranges_valid s" by (intro ext) (simp add: pool_ranges_valid_def fits)
  show "normalize_config t = normalize_config s"
    unfolding normalize_config_def [abs_def] al pg st cap ..
qed

lemma layout_config_cong:
  assumes "same_layout s t"
  shows "normalize_config t = normalize_config s" "control_address t = control_address s"
    "pool_ranges_valid t = pool_ranges_valid s" "memory_address_aligned t = memory_address_aligned s"
  by (rule config_cong; rule layout_cong [OF assms])+

lemma shm_update_layout:
  "zipc_platform_memory_base (s\<lparr>sys_shm := x\<rparr>) = zipc_platform_memory_base s"
  "zipc_platform_memory_size (s\<lparr>sys_shm := x\<rparr>) = zipc_platform_memory_size s"
  "zipc_platform_memory_capabilities (s\<lparr>sys_shm := x\<rparr>) = zipc_platform_memory_capabilities s"
  "zipc_platform_memory_page_size (s\<lparr>sys_shm := x\<rparr>) = zipc_platform_memory_page_size s"
  by (auto simp: zipc_platform_memory_base_def zipc_platform_memory_size_def
      zipc_platform_memory_capabilities_def zipc_platform_memory_page_size_def fun_eq_iff split: option.splits)

lemmas shm_update_config = config_cong [OF shm_update_layout]

subsection \<open>Required sizes\<close>

lemma controls_offset_value: "align_up_checked sizeof_pool_header alignof_slot_control = Some 6248"
  by (simp add: align_up_checked_def is_power_of_two_def sizeof_pool_header_def alignof_slot_control_def SIZE_MAX_def)

lemma sizeof_values: "(ucast sizeof_pool_header :: u16) = 6248" "(6248 :: u64) mod alignof_slot_control = 0"
  by (simp_all add: sizeof_pool_header_def alignof_slot_control_def)

lemma unat_control_size:
  assumes "n \<noteq> 0"
  shows "unat (zipc_pool_required_control_size n) = 6248 + unat n * 344"
proof -
  have n: "unat (ucast n :: u64) = unat n" "unat n < 2 ^ 32" using unat_u32_lt [of n] by (simp_all add: unat_ucast_32_64)
  have "\<not> ucast n > (SIZE_MAX - 6248) div sizeof_slot_control"
    using n by (simp add: not_less word_le_nat_alt sizeof_slot_control_def SIZE_MAX_def)
  then show ?thesis
    using assms n by (simp add: zipc_pool_required_control_size_def controls_offset_value sizeof_slot_control_def unat_word_ariths)
qed

lemma payload_size_nonzero:
  assumes "zipc_pool_required_payload_size n cap st al \<noteq> 0" "st \<noteq> 0"
  shows "unat (zipc_pool_required_payload_size n cap st al) = unat n * unat st" "cap \<le> st"
  using assms by (auto simp: zipc_pool_required_payload_size_def Let_def unat_mult_32_32 split: if_splits)

lemma range_fits_nat:
  assumes "memory_range_fits s m off len"
  shows "unat off + unat len \<le> unat (zipc_platform_memory_size s m)"
    "unat (zipc_platform_memory_base s m) + unat off + unat len < 2 ^ 64"
proof -
  let ?b = "zipc_platform_memory_base s m" and ?z = "zipc_platform_memory_size s m"
  have a: "off \<le> ?z" "len \<le> ?z - off" "off \<le> UINT64_MAX - ?b" "len \<le> UINT64_MAX - (?b + off)"
    using assms by (simp_all add: memory_range_fits_def Let_def)
  show "unat off + unat len \<le> unat ?z"
    using a(1,2) by (simp add: word_le_nat_alt unat_sub)
  have m: "unat UINT64_MAX = 2 ^ 64 - 1" by (simp add: UINT64_MAX_def)
  have le: "x \<le> UINT64_MAX" for x :: u64 by (simp add: UINT64_MAX_eq)
  have 1: "unat ?b + unat off < 2 ^ 64"
    using a(3) unat_u64_lt [of ?b] by (simp add: word_le_nat_alt unat_sub [OF le] m)
  then have "unat (?b + off) = unat ?b + unat off" by (simp add: unat_word_ariths)
  then show "unat ?b + unat off + unat len < 2 ^ 64"
    using a(4) 1 by (simp add: word_le_nat_alt unat_sub [OF le] m)
qed

subsection \<open>A formatted pool\<close>

definition formatted_header :: "zipc_pool_config \<Rightarrow> u32 \<Rightarrow> zipc_pool_header" where
  "formatted_header cfg stride = zero_header\<lparr>ph_magic := ZIPC_POOL_MAGIC, ph_abi_version := ZIPC_POOL_ABI_VERSION,
     ph_header_size := 6248, ph_slot_count := cfg_slot_count cfg, ph_slot_capacity := cfg_slot_capacity cfg,
     ph_slot_stride := stride, ph_controls_offset := 6248, ph_payload_alignment := cfg_payload_alignment cfg\<rparr>"

lemma format_component_zero [simp]: "format_component zero_component = zero_component"
  by (simp add: format_component_def zero_component_def component_lifecycle_make_def zipc_component_state_defs)

lemma normalize_error: "normalize_config s c = Inl e \<Longrightarrow> e \<noteq> ZIPC_OK"
  by (auto simp: normalize_config_def config_stride_def Let_def split: option.splits if_splits sum.splits)

lemma format_outcome:
  assumes "zipc_pool_format (Some cfg) s = (ZIPC_OK, t)"
  obtains m stride u where "normalize_config s (Some cfg) = Inr (m, stride)" "same_layout s u"
    "t = u\<lparr>sys_shm := (sys_shm u)(unat (control_address s cfg) := (sys_shm u (unat (control_address s cfg)))
       \<lparr>shm_header := formatted_header cfg stride, shm_controls := replicate (unat (cfg_slot_count cfg)) (format_slot zero_slot)\<rparr>)\<rparr>"
    "zipc_pool_required_payload_size (cfg_slot_count cfg) (cfg_slot_capacity cfg) stride (cfg_payload_alignment cfg) \<noteq> 0"
    "pool_ranges_valid s cfg m (zipc_pool_required_control_size (cfg_slot_count cfg))
       (zipc_pool_required_payload_size (cfg_slot_count cfg) (cfg_slot_capacity cfg) stride (cfg_payload_alignment cfg))"
    "cfg_control_offset cfg \<le> SIZE_MAX - 6248"
    "memory_address_aligned s (cfg_control_memory cfg) (cfg_control_offset cfg + 6248) alignof_slot_control"
proof -
  obtain m stride where n: "normalize_config s (Some cfg) = Inr (m, stride)"
    using assms normalize_error by (cases "normalize_config s (Some cfg)") (auto simp: zipc_pool_format_def)
  obtain e u where g: "apply_guard_pages cfg m stride s = (e, u)" by fastforce
  have lay: "same_layout s u" by (rule same_layout_guard [OF g])
  note cong = layout_config_cong [OF lay]
  show thesis
    using assms that [OF n lay] unfolding zipc_pool_format_def n
    by (auto simp: Let_def g controls_offset_value cong formatted_header_def zero_header_def
        sizeof_values not_less split: if_splits)
qed

lemma format_slot_zero [simp]: "slot_wf cap (format_slot zero_slot)" "slot_available (format_slot zero_slot)"
  "slot_quiet (format_slot zero_slot)"
  by (simp_all add: format_slot_def zero_slot_def slot_wf_def slot_shape_def slot_available_def slot_quiet_def)

lemma format_inv:
  assumes "zipc_pool_format (Some cfg) s = (ZIPC_OK, t)" "gens_ready s" "pool_shm_ref p = unat (control_address s cfg)"
  shows "pool_inv t p \<and> pool_quiet t p \<and> ph_slot_count (hdr t p) = cfg_slot_count cfg \<and>
    (\<forall>i < cfg_slot_count cfg. slot_available (slot_of t (slot_ptr p i)) \<and> sc_generation (slot_of t (slot_ptr p i)) = 0) \<and>
    (\<forall>c. registered_epoch t (Some p) c = 0)"
proof (rule format_outcome [OF assms(1)])
  fix m stride u
  assume n: "normalize_config s (Some cfg) = Inr (m, stride)" and lay: "same_layout s u"
    and t: "t = u\<lparr>sys_shm := (sys_shm u)(unat (control_address s cfg) := (sys_shm u (unat (control_address s cfg)))
       \<lparr>shm_header := formatted_header cfg stride, shm_controls := replicate (unat (cfg_slot_count cfg)) (format_slot zero_slot)\<rparr>)\<rparr>"
  have cnt: "cfg_slot_count cfg \<noteq> 0" using n by (auto simp: normalize_config_def split: if_splits)
  have h: "hdr t p = formatted_header cfg stride" and c: "shm_controls (sys_shm t (pool_shm_ref p)) =
      replicate (unat (cfg_slot_count cfg)) (format_slot zero_slot)"
    using assms(3) by (simp_all add: t hdr_def)
  have sl: "slot_of t (slot_ptr p i) = format_slot zero_slot" if "i < cfg_slot_count cfg" for i
    using that c by (simp add: slot_of_def word_less_nat_alt)
  have "gens_ready t" using assms(2) lay by (simp add: t gens_ready_def same_layout_def)
  moreover have "sc_generation (format_slot zero_slot) = 0" by (simp add: format_slot_def)
  moreover have "registered_epoch t (Some p) x = 0" for x
  proof (cases "zipc_component_id_valid x")
    case True
    then have "component_of t p x = zero_component"
      using zipc_component_id_valid_lt [of x] by (simp add: component_of_def h formatted_header_def zero_header_def)
    then show ?thesis
      by (simp add: registered_epoch_def zero_component_def component_lifecycle_state_def zipc_component_state_defs)
  qed (simp add: registered_epoch_def)
  ultimately show ?thesis
    using cnt sl by (simp add: pool_inv_def pool_shape_def pool_quiet_def c h formatted_header_def zero_header_def list_all_iff)
qed

text \<open>C30: Formatting establishes the pool invariant. When \<open>zipc_pool_format\<close> returns OK, every pool object
  whose header is at the formatted address satisfies the invariant, is quiescent, and has all its
  slots available under generation 0; no component is registered in it.\<close>

theorem format_establishes_invariant:
  assumes "zipc_pool_format (Some cfg) s = (ZIPC_OK, t)" "gens_ready s" "pool_shm_ref p = unat (control_address s cfg)"
  shows "pool_inv t p \<and> pool_quiet t p \<and> ph_slot_count (hdr t p) = cfg_slot_count cfg \<and>
    (\<forall>i < cfg_slot_count cfg. slot_available (slot_of t (slot_ptr p i)) \<and> sc_generation (slot_of t (slot_ptr p i)) = 0) \<and>
    (\<forall>c. registered_epoch t (Some p) c = 0)"
  by (rule format_inv [OF assms])

text \<open>A configuration for two slots of 64 bytes in one memory object of 64 KiB.\<close>

definition sample_memory :: sys where
  "sample_memory = sample_sys\<lparr>sys_mem := (\<lambda>_. \<lparr>pm_base = 0x10000, pm_size = 0x10000, pm_physical_base = 0x10000,
     pm_capabilities = 15, pm_access = (\<lambda>_. True)\<rparr>)\<rparr>"

definition sample_config :: zipc_pool_config where
  "sample_config = \<lparr>cfg_control_memory = Some 0, cfg_control_offset = 0, cfg_payload_memory = None,
     cfg_payload_offset = 0x4000, cfg_slot_count = 2, cfg_slot_capacity = 64, cfg_slot_stride = 0,
     cfg_payload_alignment = 64, cfg_flags = 0, cfg_pool_id = 9\<rparr>"

definition sample_formatted :: sys where
  "sample_formatted = snd (zipc_pool_format (Some sample_config) sample_memory)"

lemma sample_format_ok: "zipc_pool_format (Some sample_config) sample_memory = (ZIPC_OK, sample_formatted)"
proof -
  have al: "align_up_checked 64 64 = Some 64"
    by (simp add: align_up_checked_def is_power_of_two_def SIZE_MAX_def)
  have mem: "zipc_platform_memory_base sample_memory (Some 0) = 0x10000" "zipc_platform_memory_size sample_memory (Some 0) = 0x10000"
    "zipc_platform_memory_capabilities sample_memory (Some 0) = 15"
    by (simp_all add: sample_memory_def zipc_platform_memory_base_def zipc_platform_memory_size_def
        zipc_platform_memory_capabilities_def)
  have norm: "normalize_config sample_memory (Some sample_config) = Inr (Some 0, 64)"
    by (simp add: normalize_config_def sample_config_def config_stride_def config_capabilities_def al mem memory_address_aligned_def
        is_power_of_two_def alignof_pool_header_def UINT64_MAX_def UINT32_MAX_def ZIPC_MEM_CAP_CPU_READ_def ZIPC_MEM_CAP_CPU_WRITE_def
        ZIPC_MEM_CAP_ATOMIC32_def ZIPC_MEM_CAP_ATOMIC64_def Let_def)
  have "zipc_pool_required_control_size 2 = 6936" "zipc_pool_required_payload_size 2 64 64 64 = 128"
    by (simp_all add: zipc_pool_required_control_size_def controls_offset_value sizeof_slot_control_def SIZE_MAX_def
        zipc_pool_required_payload_size_def is_power_of_two_def Let_def)
  moreover have "memory_address_aligned sample_memory (Some 0) 6248 alignof_slot_control"
    by (simp add: memory_address_aligned_def mem is_power_of_two_def alignof_slot_control_def UINT64_MAX_def)
  ultimately have "fst (zipc_pool_format (Some sample_config) sample_memory) = ZIPC_OK"
    unfolding zipc_pool_format_def norm
    by (simp add: sample_config_def pool_ranges_valid_def memory_range_fits_def mem apply_guard_pages_def controls_offset_value
        UINT64_MAX_def UINT32_MAX_def SIZE_MAX_def Let_def)
  then show ?thesis by (simp add: sample_formatted_def prod_eq_iff)
qed

lemma sample_memory_gens: "gens_ready sample_memory"
  by (simp add: gens_ready_def list_all_iff gen_ready_def sample_memory_def sample_sys_def)

theorem format_establishes_invariant_witness:
  "let p = sample_pool\<lparr>pool_shm_ref := 0x10000\<rparr> in pool_inv sample_formatted p \<and> ph_slot_count (hdr sample_formatted p) = 2 \<and>
     slot_available (slot_of sample_formatted (slot_ptr p 1))"
proof -
  let ?p = "sample_pool\<lparr>pool_shm_ref := 0x10000\<rparr>"
  have "pool_shm_ref ?p = unat (control_address sample_memory sample_config)"
    by (simp add: control_address_def zipc_platform_memory_base_def sample_memory_def sample_config_def)
  from format_establishes_invariant [OF sample_format_ok sample_memory_gens this] show ?thesis
    by (simp add: sample_config_def Let_def)
qed

subsection \<open>Attaching to a formatted pool\<close>

definition attached_pool :: "sys \<Rightarrow> zipc_pool_config \<Rightarrow> nat \<Rightarrow> nat option \<Rightarrow> zipc_pool" where
  "attached_pool s cfg addr m = \<lparr>pool_addr = addr, pool_control_memory = cfg_control_memory cfg, pool_payload_memory = m,
     pool_control_offset = cfg_control_offset cfg, pool_payload_offset = cfg_payload_offset cfg,
     pool_shm_ref = unat (control_address s cfg),
     pool_payload_base = zipc_platform_memory_base s m + cfg_payload_offset cfg,
     pool_flags = cfg_flags cfg, pool_pool_id = cfg_pool_id cfg\<rparr>"

lemma control_ranges:
  assumes "pool_ranges_valid s cfg m (zipc_pool_required_control_size (cfg_slot_count cfg)) len" "cfg_slot_count cfg \<noteq> 0"
  shows "cfg_control_offset cfg \<le> zipc_platform_memory_size s (cfg_control_memory cfg)"
    "sizeof_pool_header \<le> zipc_platform_memory_size s (cfg_control_memory cfg) - cfg_control_offset cfg"
proof -
  let ?z = "zipc_platform_memory_size s (cfg_control_memory cfg)"
  have fits: "memory_range_fits s (cfg_control_memory cfg) (cfg_control_offset cfg) (zipc_pool_required_control_size (cfg_slot_count cfg))"
    using assms(1) by (simp add: pool_ranges_valid_def)
  have le: "unat (cfg_control_offset cfg) + (6248 + unat (cfg_slot_count cfg) * 344) \<le> unat ?z"
    using range_fits_nat(1) [OF fits] by (simp add: unat_control_size [OF assms(2)])
  then show "cfg_control_offset cfg \<le> ?z" by (simp add: word_le_nat_alt)
  then show "sizeof_pool_header \<le> ?z - cfg_control_offset cfg"
    using le by (simp add: word_le_nat_alt unat_sub sizeof_pool_header_def)
qed

lemma controls_count_fits:
  assumes "n \<noteq> 0"
  shows "6248 \<le> zipc_pool_required_control_size n"
    "ucast n \<le> (zipc_pool_required_control_size n - 6248) div sizeof_slot_control"
proof -
  show le: "6248 \<le> zipc_pool_required_control_size n"
    using unat_control_size [OF assms] by (simp add: word_le_nat_alt)
  then show "ucast n \<le> (zipc_pool_required_control_size n - 6248) div sizeof_slot_control"
    using unat_control_size [OF assms]
    by (simp add: word_le_nat_alt unat_div sizeof_slot_control_def unat_sub)
qed

lemma format_attached:
  assumes fmt: "zipc_pool_format (Some cfg) s = (ZIPC_OK, t)" and flags: "cfg_flags cfg = 0" and gens: "gens_ready s"
  shows "\<exists>p. zipc_pool_attach (Some p0) (Some cfg) t = (ZIPC_OK, Some p, t) \<and> pool_inv t p \<and> pool_quiet t p \<and>
    pool_flags p = 0 \<and> pool_pool_id p = cfg_pool_id cfg \<and> ph_slot_count (hdr t p) = cfg_slot_count cfg \<and>
    ph_slot_capacity (hdr t p) = cfg_slot_capacity cfg \<and>
    (\<forall>i < cfg_slot_count cfg. slot_available (slot_of t (slot_ptr p i)))"
proof (rule format_outcome [OF fmt])
  fix m stride u
  assume n: "normalize_config s (Some cfg) = Inr (m, stride)" and lay: "same_layout s u"
    and t: "t = u\<lparr>sys_shm := (sys_shm u)(unat (control_address s cfg) := (sys_shm u (unat (control_address s cfg)))
       \<lparr>shm_header := formatted_header cfg stride, shm_controls := replicate (unat (cfg_slot_count cfg)) (format_slot zero_slot)\<rparr>)\<rparr>"
    and pay: "zipc_pool_required_payload_size (cfg_slot_count cfg) (cfg_slot_capacity cfg) stride (cfg_payload_alignment cfg) \<noteq> 0"
    and rng: "pool_ranges_valid s cfg m (zipc_pool_required_control_size (cfg_slot_count cfg))
       (zipc_pool_required_payload_size (cfg_slot_count cfg) (cfg_slot_capacity cfg) stride (cfg_payload_alignment cfg))"
    and off: "cfg_control_offset cfg \<le> SIZE_MAX - 6248"
    and al: "memory_address_aligned s (cfg_control_memory cfg) (cfg_control_offset cfg + 6248) alignof_slot_control"
  let ?h = "formatted_header cfg stride" and ?p = "attached_pool s cfg (pool_addr p0) m"
  have cnt: "cfg_slot_count cfg \<noteq> 0" using n by (auto simp: normalize_config_def split: if_splits)
  note cfgs = shm_update_config layout_config_cong [OF lay] shm_update_layout layout_cong(1-4) [OF lay]
  have "header_matches ?h cfg stride"
    by (simp add: header_matches_def formatted_header_def zero_header_def sizeof_pool_header_def)
  moreover have "controls_placed t ?h cfg"
    using off al by (simp add: controls_placed_def controls_offset_value formatted_header_def zero_header_def t cfgs
        sizeof_values UINT32_MAX_def)
  moreover have "header_ranges t ?h cfg m"
    using pay rng cnt controls_count_fits [OF cnt]
    by (auto simp: header_ranges_def formatted_header_def zero_header_def t cfgs Let_def dest: arg_cong [of _ 0 unat])
  moreover have "apply_guard_pages cfg m stride t = (ZIPC_OK, t)"
    using flags by (simp add: apply_guard_pages_def)
  moreover have "shm_header (sys_shm t (unat (control_address s cfg))) = ?h" by (simp add: t)
  ultimately have att: "zipc_pool_attach (Some p0) (Some cfg) t = (ZIPC_OK, Some ?p, t)"
    using control_ranges [OF rng cnt] n flags unfolding zipc_pool_attach_def
    by (simp add: t cfgs attached_pool_def Let_def not_less)
  have "pool_shm_ref ?p = unat (control_address s cfg)" by (simp add: attached_pool_def)
  note inv = format_inv [OF fmt gens this]
  moreover have "ph_slot_capacity (hdr t ?p) = cfg_slot_capacity cfg"
    by (simp add: hdr_def attached_pool_def t formatted_header_def)
  ultimately show ?thesis
    using att inv flags by (intro exI [of _ ?p]) (simp add: attached_pool_def)
qed

text \<open>C31: Format then attach. A pool formatted with a configuration without page protection can be
  attached with the same configuration: the pool object refers to the formatted header, satisfies
  the invariant and has every slot available. Attaching changes nothing in memory.\<close>

theorem format_attach_round_trip:
  assumes fmt: "zipc_pool_format (Some cfg) s = (ZIPC_OK, t)" and flags: "cfg_flags cfg = 0" and gens: "gens_ready s"
  shows "\<exists>p. zipc_pool_attach (Some p0) (Some cfg) t = (ZIPC_OK, Some p, t) \<and> pool_inv t p \<and> pool_quiet t p \<and>
    pool_flags p = 0 \<and> pool_pool_id p = cfg_pool_id cfg \<and> ph_slot_count (hdr t p) = cfg_slot_count cfg \<and>
    ph_slot_capacity (hdr t p) = cfg_slot_capacity cfg \<and>
    (\<forall>i < cfg_slot_count cfg. slot_available (slot_of t (slot_ptr p i)))"
  by (rule format_attached [OF assms])

theorem format_attach_round_trip_witness:
  "\<exists>p. zipc_pool_attach (Some (pool_zero 0)) (Some sample_config) sample_formatted = (ZIPC_OK, Some p, sample_formatted) \<and>
    pool_inv sample_formatted p \<and> slot_available (slot_of sample_formatted (slot_ptr p 1))"
proof -
  have "cfg_flags sample_config = 0" "cfg_slot_count sample_config = 2" by (simp_all add: sample_config_def)
  moreover have "(1 :: u32) < 2" by simp
  ultimately show ?thesis
    using format_attach_round_trip [OF sample_format_ok _ sample_memory_gens, of "pool_zero 0"] by metis
qed

subsection \<open>Memory layout of an attached pool\<close>

lemma attach_outcome:
  assumes "zipc_pool_attach (Some p0) (Some cfg) s = (ZIPC_OK, Some p, t)"
  obtains m stride where "normalize_config s (Some cfg) = Inr (m, stride)" "p = attached_pool s cfg (pool_addr p0) m"
    "header_matches (hdr s p) cfg stride" "header_ranges s (hdr s p) cfg m" "same_layout s t"
proof -
  obtain m stride where n: "normalize_config s (Some cfg) = Inr (m, stride)"
    using assms normalize_error by (cases "normalize_config s (Some cfg)") (auto simp: zipc_pool_attach_def)
  obtain e u where g: "apply_guard_pages cfg m stride s = (e, u)" by fastforce
  have lay: "same_layout s u" by (rule same_layout_guard [OF g])
  let ?p = "attached_pool s cfg (pool_addr p0) m" and ?h = "shm_header (sys_shm s (unat (control_address s cfg)))"
  have base: "zipc_platform_memory_base u = zipc_platform_memory_base s" by (rule layout_cong(1) [OF lay])
  have "zipc_pool_attach (Some p0) (Some cfg) s =
     (if cfg_control_offset cfg > zipc_platform_memory_size s (cfg_control_memory cfg) \<or>
         sizeof_pool_header > zipc_platform_memory_size s (cfg_control_memory cfg) - cfg_control_offset cfg \<or>
         \<not> header_matches ?h cfg stride \<or> \<not> controls_placed s ?h cfg \<or> \<not> header_ranges s ?h cfg m
      then (ZIPC_ERR_INVALID_POOL, Some p0, s)
      else if e \<noteq> ZIPC_OK then (e, Some (pool_zero (pool_addr p0)), u)
      else if cfg_flags cfg AND ZIPC_POOL_F_STRICT_OWNERSHIP = 0 then (ZIPC_OK, Some ?p, u)
      else case revoke_scan ?p 0 (unat (ph_slot_count ?h)) u of (status, v) \<Rightarrow> (status, Some ?p, v))"
    unfolding zipc_pool_attach_def by (simp add: n g Let_def attached_pool_def base)
  moreover have "hdr s ?p = ?h" by (simp add: hdr_def attached_pool_def)
  ultimately show thesis
    using assms that [OF n] lay same_layout_trans [OF lay same_layout_revoke]
    by (auto split: if_splits prod.splits)
qed

lemma slot_ranges_nat:
  fixes i n st :: nat
  assumes "i < n"
  shows "i * st + st \<le> n * st"
proof -
  have "Suc i * st \<le> n * st" using assms by (intro mult_le_mono1) simp
  then show ?thesis by simp
qed

lemma slot_ranges_disjoint:
  assumes "(j :: u32) \<noteq> i" "lo = off + unat i * st" "cap \<le> st"
  shows "lo + cap \<le> off + unat j * st \<or> off + unat j * st + cap \<le> lo"
proof -
  have "unat j < unat i \<or> unat i < unat j" using assms(1) by (metis linorder_neqE_nat word_unat_eq_iff)
  then show ?thesis
    using slot_ranges_nat [of "unat j" "unat i" st] slot_ranges_nat [of "unat i" "unat j" st] assms(2,3) by linarith
qed

text \<open>Ranges in one memory object that were accepted do not overlap; the sums do not wrap.\<close>

lemma ranges_in_one_object:
  assumes "pool_ranges_valid s cfg m c p" "cfg_control_memory cfg = m"
    and "unat (cfg_control_offset cfg) + unat c < 2 ^ 64" "unat (cfg_payload_offset cfg) + unat p < 2 ^ 64"
  shows "unat (cfg_payload_offset cfg) + unat p \<le> unat (cfg_control_offset cfg) \<or>
    unat (cfg_control_offset cfg) + unat c \<le> unat (cfg_payload_offset cfg)"
proof -
  have "unat (cfg_control_offset cfg + c) = unat (cfg_control_offset cfg) + unat c"
    "unat (cfg_payload_offset cfg + p) = unat (cfg_payload_offset cfg) + unat p"
    using assms(3,4) by (simp_all add: unat_word_ariths)
  then show ?thesis
    using assms(1,2) by (auto simp: pool_ranges_valid_def Let_def word_less_nat_alt)
qed

text \<open>C32: Memory safety of the layout. In an attached pool the payload of every slot lies inside the
  payload memory object, at the address a view computes (the address arithmetic does not wrap);
  different slots do not overlap; the header and the slot controls lie inside the control memory
  object, and when both share one object they do not overlap any payload.\<close>

theorem attached_layout_safe:
  assumes "zipc_pool_attach (Some p0) (Some cfg) s = (ZIPC_OK, Some p, t)" "i < ph_slot_count (hdr t p)"
  shows "let stride = unat (ph_slot_stride (hdr t p)); cap = unat (ph_slot_capacity (hdr t p));
      off = unat (pool_payload_offset p); lo = off + unat i * stride;
      ctl = unat (pool_control_offset p); ctl_end = ctl + 6248 + unat (ph_slot_count (hdr t p)) * 344 in
    unat (pool_payload_base p + ucast i * ucast (ph_slot_stride (hdr t p))) =
      unat (zipc_platform_memory_base t (pool_payload_memory p)) + lo \<and>
    lo + cap \<le> unat (zipc_platform_memory_size t (pool_payload_memory p)) \<and>
    ctl_end \<le> unat (zipc_platform_memory_size t (pool_control_memory p)) \<and>
    (\<forall>j. j \<noteq> i \<longrightarrow> lo + cap \<le> off + unat j * stride \<or> off + unat j * stride + cap \<le> lo) \<and>
    (pool_control_memory p = pool_payload_memory p \<longrightarrow> lo + cap \<le> ctl \<or> ctl_end \<le> lo)"
proof (rule attach_outcome [OF assms(1)])
  fix m stride
  assume n: "normalize_config s (Some cfg) = Inr (m, stride)" and p: "p = attached_pool s cfg (pool_addr p0) m"
    and hm: "header_matches (hdr s p) cfg stride" and hr: "header_ranges s (hdr s p) cfg m" and lay: "same_layout s t"
  have h: "hdr t p = hdr s p" using layout_cong(5) [OF lay] by (simp add: hdr_def)
  let ?H = "hdr s p"
  let ?P = "zipc_pool_required_payload_size (ph_slot_count ?H) (ph_slot_capacity ?H) (ph_slot_stride ?H) (ph_payload_alignment ?H)"
  let ?C = "zipc_pool_required_control_size (ph_slot_count ?H)"
  have nz: "ph_slot_count ?H \<noteq> 0" "ph_slot_stride ?H \<noteq> 0"
    using n hm by (auto simp: normalize_config_def header_matches_def Let_def word_neq_0_conv split: if_splits sum.splits)
  have r: "?P \<noteq> 0" "pool_ranges_valid s cfg m ?C ?P" using hr by (simp_all add: header_ranges_def Let_def)
  note P = payload_size_nonzero [OF r(1) nz(2)] and C = unat_control_size [OF nz(1)]
  have fits: "memory_range_fits s (cfg_control_memory cfg) (cfg_control_offset cfg) ?C"
    "memory_range_fits s m (cfg_payload_offset cfg) ?P"
    using r(2) by (simp_all add: pool_ranges_valid_def)
  note F = range_fits_nat [OF fits(1)] range_fits_nat [OF fits(2)]
  define st where "st = unat (ph_slot_stride ?H)"
  have cap: "unat (ph_slot_capacity ?H) \<le> st" using P(2) by (simp add: word_le_nat_alt st_def)
  have i: "unat i < unat (ph_slot_count ?H)" using assms(2) by (simp add: h word_less_nat_alt)
  have top: "unat i * st + st \<le> unat ?P" using slot_ranges_nat [OF i, of st] P(1) by (simp add: st_def)
  have addr: "unat (pool_payload_base p + ucast i * ucast (ph_slot_stride ?H)) =
      unat (zipc_platform_memory_base s m) + (unat (cfg_payload_offset cfg) + unat i * st)"
    using F(4) top by (simp add: p attached_pool_def unat_word_ariths unat_mult_32_32 st_def)
  have ctl: "unat (cfg_payload_offset cfg) + unat ?P \<le> unat (cfg_control_offset cfg) \<or>
      unat (cfg_control_offset cfg) + unat ?C \<le> unat (cfg_payload_offset cfg)" if "cfg_control_memory cfg = m"
    using ranges_in_one_object [OF r(2) that] F(2,4) by simp
  have pm: "pool_payload_memory p = m" "pool_control_memory p = cfg_control_memory cfg"
    "pool_payload_offset p = cfg_payload_offset cfg" "pool_control_offset p = cfg_control_offset cfg"
    by (simp_all add: p attached_pool_def)
  show ?thesis
    unfolding h layout_cong [OF lay] Let_def st_def [symmetric] pm
  proof (intro conjI allI impI, goal_cases)
    case 1
    show ?case using addr by simp
  next
    case 2
    show ?case using F(3) top cap by linarith
  next
    case 3
    show ?case using F(1) C by linarith
  next
    case (4 j)
    then show ?case using slot_ranges_disjoint [OF _ refl cap] by blast
  next
    case 5
    then show ?case using ctl top cap C by linarith
  qed
qed

definition sample_attached :: zipc_pool where
  "sample_attached = the (fst (snd (zipc_pool_attach (Some (pool_zero 0)) (Some sample_config) sample_formatted)))"

theorem attached_layout_safe_witness:
  "unat (pool_payload_base sample_attached + ucast (1 :: u32) * ucast (ph_slot_stride (hdr sample_formatted sample_attached))) =
     unat (zipc_platform_memory_base sample_formatted (pool_payload_memory sample_attached)) +
     (unat (pool_payload_offset sample_attached) + unat (ph_slot_stride (hdr sample_formatted sample_attached)))"
proof -
  have att: "zipc_pool_attach (Some (pool_zero 0)) (Some sample_config) sample_formatted = (ZIPC_OK, Some sample_attached, sample_formatted)"
    "ph_slot_count (hdr sample_formatted sample_attached) = 2"
    using format_attached [OF sample_format_ok _ sample_memory_gens, of "pool_zero 0"]
    by (auto simp: sample_config_def sample_attached_def)
  then show ?thesis
    using attached_layout_safe [OF att(1), of 1] by (simp add: Let_def)
qed

end
