(* ===== verification/Buffer_View.thy ===== *)
theory Buffer_View
  imports Pool_Properties
begin

text \<open>
  The accessors and editing operations of a buffer view (the last part of
  \<^verbatim>\<open>src/core/zipc.c\<close>), with the payload bytes they move. An address inside the payload area of a
  pool is the payload base of that pool plus an index into \<open>shm_payload\<close>; \<open>store_bytes\<close> is the
  \<open>memcpy\<close> into the area. The edits are shown to implement a split of the slot bytes into headroom,
  contents and tailroom.
\<close>

subsection \<open>Payload bytes\<close>

definition overwrite :: "nat \<Rightarrow> 'a list \<Rightarrow> 'a list \<Rightarrow> 'a list" where
  "overwrite i xs m = take i m @ take (length m - i) xs @ drop (i + length xs) m"

definition payload_index :: "zipc_pool \<Rightarrow> u64 \<Rightarrow> nat" where
  "payload_index p address = unat (address - pool_payload_base p)"

definition store_bytes :: "zipc_pool \<Rightarrow> u64 \<Rightarrow> u8 list \<Rightarrow> sys \<Rightarrow> sys" where
  "store_bytes p address xs s =
     (let m = sys_shm s (pool_shm_ref p)
      in s\<lparr>sys_shm := (sys_shm s)(pool_shm_ref p :=
             m\<lparr>shm_payload := overwrite (payload_index p address) xs (shm_payload m)\<rparr>)\<rparr>)"

definition load_bytes :: "zipc_pool \<Rightarrow> u64 \<Rightarrow> nat \<Rightarrow> sys \<Rightarrow> u8 list" where
  "load_bytes p address n s = take n (drop (payload_index p address) (payload_of s p))"

subsection \<open>Accessors\<close>

definition zipc_buffer_data :: "zipc_buffer option \<Rightarrow> sys \<Rightarrow> u64 option" where
  "zipc_buffer_data buffer s = (if buffer_owned s buffer then Some (buf_data (the buffer)) else None)"

definition zipc_buffer_const_data :: "zipc_buffer option \<Rightarrow> sys \<Rightarrow> u64 option" where
  "zipc_buffer_const_data buffer s = (if buffer_owned s buffer then Some (buf_data (the buffer)) else None)"

definition zipc_buffer_size :: "zipc_buffer option \<Rightarrow> sys \<Rightarrow> u64" where
  "zipc_buffer_size buffer s = (if buffer_owned s buffer then ucast (buf_length (the buffer)) else 0)"

definition zipc_buffer_at :: "zipc_buffer option \<Rightarrow> u64 \<Rightarrow> u64 \<Rightarrow> sys \<Rightarrow> u64 option" where
  "zipc_buffer_at buffer offset len s =
     (if \<not> buffer_owned s buffer then None
      else
        let capacity = ucast (buf_capacity (the buffer)) in
        if offset > capacity \<or> len > capacity - offset then None
        else Some (buf_slot_base (the buffer) + offset))"

definition zipc_buffer_capacity :: "zipc_buffer option \<Rightarrow> sys \<Rightarrow> u64" where
  "zipc_buffer_capacity buffer s = (if buffer_owned s buffer then ucast (buf_capacity (the buffer)) else 0)"

definition zipc_buffer_length :: "zipc_buffer option \<Rightarrow> sys \<Rightarrow> u32" where
  "zipc_buffer_length buffer s = ucast (zipc_buffer_size buffer s)"

definition buffer_control :: "sys \<Rightarrow> zipc_buffer option \<Rightarrow> zipc_slot_control" where
  "buffer_control s buffer = slot_of s (the (buf_control (the buffer)))"

definition zipc_buffer_headroom :: "zipc_buffer option \<Rightarrow> sys \<Rightarrow> u32" where
  "zipc_buffer_headroom buffer s =
     (if buffer_owned s buffer then rg_offset (sc_region (buffer_control s buffer)) else 0)"

definition zipc_buffer_tailroom :: "zipc_buffer option \<Rightarrow> sys \<Rightarrow> u32" where
  "zipc_buffer_tailroom buffer s =
     (let b = the buffer; offset = rg_offset (sc_region (buffer_control s buffer)) in
      if \<not> buffer_owned s buffer \<or> offset > buf_capacity b \<or> buf_length b > buf_capacity b - offset
      then 0
      else buf_capacity b - offset - buf_length b)"

definition zipc_buffer_is_valid :: "zipc_buffer option \<Rightarrow> sys \<Rightarrow> bool" where
  "zipc_buffer_is_valid buffer s \<longleftrightarrow> buffer_owned s buffer"

definition zipc_buffer_handle :: "zipc_buffer option \<Rightarrow> zipc_handle" where
  "zipc_buffer_handle buffer = (if buffer_valid buffer then buf_handle (the buffer) else ZIPC_INVALID_HANDLE)"

definition zipc_buffer_pool_id :: "zipc_buffer option \<Rightarrow> u32" where
  "zipc_buffer_pool_id buffer = (if buffer_valid buffer then buf_pool_id (the buffer) else UINT32_MAX)"

definition zipc_buffer_hop_count :: "zipc_buffer option \<Rightarrow> sys \<Rightarrow> u32" where
  "zipc_buffer_hop_count buffer s = (if buffer_valid buffer then sc_hop_count (buffer_control s buffer) else 0)"

definition zipc_buffer_id_of :: "zipc_buffer option \<Rightarrow> sys \<Rightarrow> zipc_buffer_id" where
  "zipc_buffer_id_of buffer s = (if buffer_valid buffer then bi_id (sc_identity (buffer_control s buffer)) else 0)"

definition zipc_buffer_parent_id :: "zipc_buffer option \<Rightarrow> sys \<Rightarrow> zipc_buffer_id" where
  "zipc_buffer_parent_id buffer s =
     (if buffer_valid buffer then bi_parent_id (sc_identity (buffer_control s buffer)) else 0)"

definition zipc_buffer_visited :: "zipc_buffer option \<Rightarrow> sys \<Rightarrow> zipc_visited_set" where
  "zipc_buffer_visited buffer s =
     (if buffer_valid buffer then sc_visited (buffer_control s buffer) else visited_empty)"

definition zipc_buffer_owner_epoch :: "zipc_buffer option \<Rightarrow> sys \<Rightarrow> u32" where
  "zipc_buffer_owner_epoch buffer s = (if buffer_valid buffer then sc_owner_epoch (buffer_control s buffer) else 0)"

definition zipc_buffer_slot_state :: "zipc_buffer option \<Rightarrow> sys \<Rightarrow> zipc_slot_state" where
  "zipc_buffer_slot_state buffer s =
     (if \<not> buffer_valid buffer then ZIPC_SLOT_ERROR else sc_state (buffer_control s buffer))"

definition zipc_buffer_trace_copy :: "zipc_buffer option \<Rightarrow> bool \<Rightarrow> u32 \<Rightarrow> sys \<Rightarrow> zipc_trace_entry list" where
  "zipc_buffer_trace_copy buffer entries capacity s =
     (if buffer_valid buffer then zipc_slot_trace_copy (Some (buffer_control s buffer)) entries capacity else [])"

subsection \<open>Edits\<close>

definition zipc_buffer_set_limits :: "zipc_buffer option \<Rightarrow> u32 \<Rightarrow> u64 \<Rightarrow> sys \<Rightarrow> zipc_status \<times> sys" where
  "zipc_buffer_set_limits buffer hop_limit absolute_deadline_ns s =
     (if \<not> buffer_owned s buffer then (ZIPC_ERR_INVALID_BUFFER, s)
      else (ZIPC_OK, upd_slot (the (buf_control (the buffer)))
              (\<lambda>sl. sl\<lparr>sc_hop_limit := (if hop_limit \<noteq> 0 then hop_limit else ZIPC_HOP_LIMIT_UNLIMITED),
                       sc_deadline_ns := (if absolute_deadline_ns \<noteq> 0 then absolute_deadline_ns
                                          else ZIPC_DEADLINE_NONE)\<rparr>) s))"

definition zipc_buffer_resize ::
  "zipc_buffer option \<Rightarrow> u64 \<Rightarrow> sys \<Rightarrow> zipc_status \<times> zipc_buffer option \<times> sys" where
  "zipc_buffer_resize buffer bytes s =
     (if \<not> buffer_owned s buffer then (ZIPC_ERR_INVALID_BUFFER, buffer, s)
      else
        let b = the buffer; offset = rg_offset (sc_region (buffer_control s buffer)) in
        if bytes > ucast UINT32_MAX \<or>
           bytes > ucast (zipc_buffer_headroom buffer s + zipc_buffer_tailroom buffer s + buf_length b)
        then (ZIPC_ERR_REGION_OVERFLOW, buffer, s)
        else if bytes > ucast (buf_capacity b - offset) then (ZIPC_ERR_REGION_OVERFLOW, buffer, s)
        else zipc_buffer_set_region buffer offset (ucast bytes) s)"

definition zipc_buffer_append ::
  "zipc_buffer option \<Rightarrow> u8 list option \<Rightarrow> u32 \<Rightarrow> sys \<Rightarrow> zipc_status \<times> zipc_buffer option \<times> sys" where
  "zipc_buffer_append buffer data len s =
     (if \<not> buffer_owned s buffer then (ZIPC_ERR_INVALID_BUFFER, buffer, s)
      else if len \<noteq> 0 \<and> data = None then (ZIPC_ERR_INVALID_ARGUMENT, buffer, s)
      else if len > zipc_buffer_tailroom buffer s then (ZIPC_ERR_REGION_OVERFLOW, buffer, s)
      else
        let b = the buffer;
            s = (if len \<noteq> 0
                 then store_bytes (the (buf_pool b)) (buf_data b + ucast (buf_length b)) (take (unat len) (the data)) s
                 else s)
        in zipc_buffer_set_region buffer (rg_offset (sc_region (buffer_control s buffer))) (buf_length b + len) s)"

definition zipc_buffer_prepend ::
  "zipc_buffer option \<Rightarrow> u8 list option \<Rightarrow> u32 \<Rightarrow> sys \<Rightarrow> zipc_status \<times> zipc_buffer option \<times> sys" where
  "zipc_buffer_prepend buffer data len s =
     (if \<not> buffer_owned s buffer then (ZIPC_ERR_INVALID_BUFFER, buffer, s)
      else if len \<noteq> 0 \<and> data = None then (ZIPC_ERR_INVALID_ARGUMENT, buffer, s)
      else if len > zipc_buffer_headroom buffer s then (ZIPC_ERR_REGION_OVERFLOW, buffer, s)
      else
        let b = the buffer;
            offset = rg_offset (sc_region (buffer_control s buffer)) - len;
            s = (if len \<noteq> 0
                 then store_bytes (the (buf_pool b)) (buf_slot_base b + ucast offset) (take (unat len) (the data)) s
                 else s)
        in zipc_buffer_set_region buffer offset (buf_length b + len) s)"

definition zipc_buffer_trim_front ::
  "zipc_buffer option \<Rightarrow> u32 \<Rightarrow> sys \<Rightarrow> zipc_status \<times> zipc_buffer option \<times> sys" where
  "zipc_buffer_trim_front buffer len s =
     (if \<not> buffer_owned s buffer then (ZIPC_ERR_INVALID_BUFFER, buffer, s)
      else if len > buf_length (the buffer) then (ZIPC_ERR_REGION_OVERFLOW, buffer, s)
      else zipc_buffer_set_region buffer (rg_offset (sc_region (buffer_control s buffer)) + len)
             (buf_length (the buffer) - len) s)"

definition zipc_buffer_trim_back ::
  "zipc_buffer option \<Rightarrow> u32 \<Rightarrow> sys \<Rightarrow> zipc_status \<times> zipc_buffer option \<times> sys" where
  "zipc_buffer_trim_back buffer len s =
     (if \<not> buffer_owned s buffer then (ZIPC_ERR_INVALID_BUFFER, buffer, s)
      else if len > buf_length (the buffer) then (ZIPC_ERR_REGION_OVERFLOW, buffer, s)
      else zipc_buffer_set_region buffer (rg_offset (sc_region (buffer_control s buffer)))
             (buf_length (the buffer) - len) s)"

subsection \<open>Headroom, contents and tailroom\<close>

record byte_view =
  bv_head :: "u8 list"
  bv_body :: "u8 list"
  bv_tail :: "u8 list"

definition bv_append :: "u8 list \<Rightarrow> byte_view \<Rightarrow> byte_view" where
  "bv_append d v = v\<lparr>bv_body := bv_body v @ d, bv_tail := drop (length d) (bv_tail v)\<rparr>"

definition bv_prepend :: "u8 list \<Rightarrow> byte_view \<Rightarrow> byte_view" where
  "bv_prepend d v = v\<lparr>bv_head := take (length (bv_head v) - length d) (bv_head v), bv_body := d @ bv_body v\<rparr>"

definition bv_trim_front :: "nat \<Rightarrow> byte_view \<Rightarrow> byte_view" where
  "bv_trim_front n v = v\<lparr>bv_head := bv_head v @ take n (bv_body v), bv_body := drop n (bv_body v)\<rparr>"

definition bv_resize :: "nat \<Rightarrow> byte_view \<Rightarrow> byte_view" where
  "bv_resize n v = v\<lparr>bv_body := take n (bv_body v @ bv_tail v), bv_tail := drop n (bv_body v @ bv_tail v)\<rparr>"

definition bv_trim_back :: "nat \<Rightarrow> byte_view \<Rightarrow> byte_view" where
  "bv_trim_back n v = bv_resize (length (bv_body v) - n) v"

definition split_bytes :: "nat \<Rightarrow> nat \<Rightarrow> u8 list \<Rightarrow> byte_view" where
  "split_bytes off len xs = \<lparr>bv_head = take off xs, bv_body = take len (drop off xs), bv_tail = drop (off + len) xs\<rparr>"

definition slot_bytes :: "sys \<Rightarrow> zipc_pool \<Rightarrow> zipc_slot_id \<Rightarrow> u8 list" where
  "slot_bytes s p i = take (unat (ph_slot_capacity (hdr s p))) (drop (unat i * unat (ph_slot_stride (hdr s p))) (payload_of s p))"

definition view_bytes :: "sys \<Rightarrow> zipc_pool \<Rightarrow> zipc_buffer \<Rightarrow> byte_view" where
  "view_bytes s p v =
     (let r = sc_region (slot_of s (slot_ptr p (buf_slot_id v)))
      in split_bytes (unat (rg_offset r)) (unat (rg_length r)) (slot_bytes s p (buf_slot_id v)))"

text \<open>The view a component holds of a slot it owns, in step with the region recorded in the slot.\<close>

definition current_view :: "sys \<Rightarrow> zipc_pool \<Rightarrow> zipc_buffer \<Rightarrow> bool" where
  "current_view s p v \<longleftrightarrow> buffer_owned s (Some v) \<and> buf_slot_id v < ph_slot_count (hdr s p) \<and>
     v = slot_view p (buf_handle v) (hdr s p) (slot_of s (slot_ptr p (zipc_handle_slot_id (buf_handle v))))"

text \<open>The payload area holds every slot.\<close>

definition payload_ok :: "sys \<Rightarrow> zipc_pool \<Rightarrow> bool" where
  "payload_ok s p \<longleftrightarrow> ph_slot_capacity (hdr s p) \<le> ph_slot_stride (hdr s p) \<and>
     unat (ph_slot_count (hdr s p)) * unat (ph_slot_stride (hdr s p)) \<le> length (payload_of s p)"

text \<open>The outcome of an edit: \<open>w\<close> replaces the view, the bytes of the slot become \<open>bv\<close>, every other
  slot keeps its bytes, the pool keeps its invariant and its ownership.\<close>

definition edited ::
  "zipc_pool \<Rightarrow> zipc_buffer \<Rightarrow> sys \<Rightarrow> byte_view \<Rightarrow> zipc_status \<times> zipc_buffer option \<times> sys \<Rightarrow> bool" where
  "edited p v s bv r \<longleftrightarrow> (case r of (st, v', t) \<Rightarrow> st = ZIPC_OK \<and> v' \<noteq> None \<and>
     current_view t p (the v') \<and> buf_handle (the v') = buf_handle v \<and> view_bytes t p (the v') = bv \<and>
     pool_inv t p \<and> payload_ok t p \<and> pool_abs t p = pool_abs s p \<and> hdr t p = hdr s p \<and>
     (\<forall>j < ph_slot_count (hdr s p). j = buf_slot_id v \<or> slot_bytes t p j = slot_bytes s p j))"

lemma length_overwrite [simp]: "length (overwrite i xs m) = length m"
  by (simp add: overwrite_def)

lemma overwrite_nil [simp]: "overwrite i [] m = m"
  by (simp add: overwrite_def)

lemma nth_overwrite:
  assumes "i + length xs \<le> length m" "k < length m"
  shows "overwrite i xs m ! k = (if i \<le> k \<and> k < i + length xs then xs ! (k - i) else m ! k)"
  using assms by (auto simp: overwrite_def nth_append min_def)

lemma slice_overwrite_inside:
  assumes "b + c \<le> length m" "off + length xs \<le> c"
  shows "take c (drop b (overwrite (b + off) xs m)) = overwrite off xs (take c (drop b m))"
  using assms by (intro nth_equalityI) (auto simp: nth_overwrite)

lemma slice_overwrite_outside:
  assumes "i + length xs \<le> length m" "b + c \<le> i \<or> i + length xs \<le> b"
  shows "take c (drop b (overwrite i xs m)) = take c (drop b m)"
  using assms by (intro nth_equalityI) (auto simp: nth_overwrite)

lemma split_append:
  assumes "off + len + length d \<le> length xs"
  shows "split_bytes off (len + length d) (overwrite (off + len) d xs) = bv_append d (split_bytes off len xs)"
  using assms by (auto simp: split_bytes_def bv_append_def nth_overwrite nth_append ac_simps intro!: nth_equalityI)

lemma split_prepend:
  assumes "length d \<le> off" "off + len \<le> length xs"
  shows "split_bytes (off - length d) (len + length d) (overwrite (off - length d) d xs) = bv_prepend d (split_bytes off len xs)"
  using assms by (auto simp: split_bytes_def bv_prepend_def nth_overwrite nth_append intro!: nth_equalityI)

lemma split_resize:
  assumes "off + len \<le> length xs" "off + n \<le> length xs"
  shows "split_bytes off n xs = bv_resize n (split_bytes off len xs)"
proof -
  have "take len (drop off xs) @ drop (off + len) xs = drop off xs"
    by (metis append_take_drop_id drop_drop add.commute)
  then show ?thesis by (simp add: split_bytes_def bv_resize_def add.commute)
qed

lemma split_trim_front:
  assumes "off + len \<le> length xs" "n \<le> len"
  shows "split_bytes (off + n) (len - n) xs = bv_trim_front n (split_bytes off len xs)"
  using assms by (simp add: split_bytes_def bv_trim_front_def take_add drop_take) (simp add: add.commute)

subsection \<open>Where the bytes of a slot are\<close>

lemma store_bytes_reads [simp]:
  "hdr (store_bytes q a xs s) p = hdr s p" "slot_of (store_bytes q a xs s) c = slot_of s c"
  "sys_gen (store_bytes q a xs s) = sys_gen s" "sys_mem (store_bytes q a xs s) = sys_mem s"
  "shm_controls (sys_shm (store_bytes q a xs s) r) = shm_controls (sys_shm s r)"
  "payload_of (store_bytes p a xs s) p = overwrite (payload_index p a) xs (payload_of s p)"
  by (simp_all add: store_bytes_def hdr_def slot_of_def payload_of_def Let_def)

lemma store_bytes_nil [simp]: "store_bytes p a [] s = s"
  by (simp add: store_bytes_def Let_def)

lemma registered_epoch_store_bytes [simp]: "registered_epoch (store_bytes q a xs s) po c = registered_epoch s po c"
  by (simp add: registered_epoch_def component_of_def split: option.split)

lemma store_bytes_state [simp]:
  "buffer_owned (store_bytes q a xs s) b = buffer_owned s b"
  "pool_inv (store_bytes q a xs s) p = pool_inv s p" "pool_abs (store_bytes q a xs s) p = pool_abs s p"
  by (simp_all add: buffer_owned_def pool_inv_def pool_shape_def gens_ready_def pool_abs_def Let_def fun_eq_iff)

lemma current_view_store [simp]:
  "current_view (store_bytes q a xs s) p v = current_view s p v" "payload_ok (store_bytes p a xs s) p = payload_ok s p"
  by (simp_all add: current_view_def payload_ok_def)

lemma slot_offset_unat:
  assumes "off \<le> (cap :: u32)"
  shows "unat (ucast (i :: u32) * ucast (stride :: u32) + ucast off :: u64) = unat i * unat stride + unat off"
proof -
  have "unat i * unat stride \<le> (2 ^ 32 - 1) * (2 ^ 32 - 1)"
    using unat_u32_lt [of i] unat_u32_lt [of stride] by (intro mult_le_mono) simp_all
  with unat_u32_lt [of off] show ?thesis
    by (simp add: unat_word_ariths unat_mult_32_32)
qed

lemma current_view_fields:
  assumes "current_view s p v"
  defines "sl \<equiv> slot_of s (slot_ptr p (buf_slot_id v))"
  shows "buf_pool v = Some p" "buf_control v = Some (slot_ptr p (buf_slot_id v))"
    "buf_length v = rg_length (sc_region sl)" "buf_capacity v = ph_slot_capacity (hdr s p)"
    "buf_slot_base v = pool_payload_base p + ucast (buf_slot_id v) * ucast (ph_slot_stride (hdr s p))"
    "buf_data v = buf_slot_base v + ucast (rg_offset (sc_region sl))"
    "buffer_owned s (Some v)" "buf_slot_id v < ph_slot_count (hdr s p)" "buffer_control s (Some v) = sl"
    "sc_state sl = ZIPC_SLOT_OWNED" "view_in s p v" "buf_slot_id v = zipc_handle_slot_id (buf_handle v)"
proof -
  obtain h sl' where v: "v = slot_view p h (hdr s p) sl'" "sl' = slot_of s (slot_ptr p (zipc_handle_slot_id h))"
    using assms by (auto simp: current_view_def)
  from assms(1) show own: "buffer_owned s (Some v)" and lt: "buf_slot_id v < ph_slot_count (hdr s p)"
    by (simp_all add: current_view_def)
  from v show "buf_pool v = Some p" "buf_control v = Some (slot_ptr p (buf_slot_id v))"
    "buf_length v = rg_length (sc_region sl)" "buf_capacity v = ph_slot_capacity (hdr s p)"
    "buf_slot_base v = pool_payload_base p + ucast (buf_slot_id v) * ucast (ph_slot_stride (hdr s p))"
    "buf_data v = buf_slot_base v + ucast (rg_offset (sc_region sl))" "buffer_control s (Some v) = sl"
    "buf_slot_id v = zipc_handle_slot_id (buf_handle v)"
    by (simp_all add: sl_def buffer_control_def)
  with lt show view: "view_in s p v" by (simp add: view_in_def)
  show "sc_state sl = ZIPC_SLOT_OWNED"
    unfolding sl_def by (rule buffer_owned_slot [OF own view])
qed

lemma current_view_region:
  assumes "pool_inv s p" "current_view s p v"
  shows "unat (zipc_buffer_headroom (Some v) s) + unat (buf_length v) \<le> unat (ph_slot_capacity (hdr s p))"
    "unat (zipc_buffer_headroom (Some v) s) + unat (buf_length v) + unat (zipc_buffer_tailroom (Some v) s) =
       unat (ph_slot_capacity (hdr s p))"
proof -
  note f = current_view_fields [OF assms(2)]
  let ?off = "rg_offset (sc_region (slot_of s (slot_ptr p (buf_slot_id v))))"
  let ?cap = "ph_slot_capacity (hdr s p)"
  have h: "zipc_buffer_headroom (Some v) s = ?off"
    using f by (simp add: zipc_buffer_headroom_def)
  have fits: "unat ?off + unat (buf_length v) \<le> unat ?cap"
    using pool_inv_slot [OF assms(1) f(8)] f(3) by (simp add: slot_wf_def slot_shape_def region_fits_def)
  then show "unat (zipc_buffer_headroom (Some v) s) + unat (buf_length v) \<le> unat ?cap"
    using h by simp
  have le: "?off \<le> ?cap" using fits by (simp add: word_le_nat_alt)
  then have sub: "unat (?cap - ?off) = unat ?cap - unat ?off" by (simp add: unat_sub)
  then have le2: "buf_length v \<le> ?cap - ?off" using fits by (simp add: word_le_nat_alt)
  have "zipc_buffer_tailroom (Some v) s = ?cap - ?off - buf_length v"
    using f(4,7,9) le le2 by (simp add: zipc_buffer_tailroom_def Let_def not_less flip: not_le)
  then show "unat (zipc_buffer_headroom (Some v) s) + unat (buf_length v) + unat (zipc_buffer_tailroom (Some v) s) = unat ?cap"
    using fits h unat_sub [OF le2] sub by simp
qed

lemma slot_bytes_length:
  assumes "payload_ok s p" "i < ph_slot_count (hdr s p)"
  shows "length (slot_bytes s p i) = unat (ph_slot_capacity (hdr s p))"
    "unat i * unat (ph_slot_stride (hdr s p)) + unat (ph_slot_capacity (hdr s p)) \<le> length (payload_of s p)"
proof -
  have "(unat i + 1) * unat (ph_slot_stride (hdr s p)) \<le> unat (ph_slot_count (hdr s p)) * unat (ph_slot_stride (hdr s p))"
    using assms(2) by (intro mult_le_mono1) (simp add: word_less_nat_alt)
  then show "unat i * unat (ph_slot_stride (hdr s p)) + unat (ph_slot_capacity (hdr s p)) \<le> length (payload_of s p)"
    using assms(1) by (simp add: payload_ok_def word_le_nat_alt)
  then show "length (slot_bytes s p i) = unat (ph_slot_capacity (hdr s p))"
    by (simp add: slot_bytes_def)
qed

lemma slots_disjoint:
  assumes "(i :: u32) \<noteq> j" "cap \<le> stride"
  shows "unat i * stride + cap \<le> unat j * stride \<or> unat j * stride + cap \<le> unat i * stride"
proof -
  have "unat i * stride + stride \<le> unat j * stride" if "unat i < unat j" for i j :: u32
    using mult_le_mono1 [of "Suc (unat i)" "unat j" stride] that by simp
  moreover have "unat i < unat j \<or> unat j < unat i"
    using assms(1) by (metis nat_neq_iff word_unat_eq_iff)
  ultimately show ?thesis using assms(2) by (meson add_left_mono order_trans)
qed

lemma store_slot_bytes:
  fixes off :: u32
  assumes ok: "payload_ok s p" and i: "i < ph_slot_count (hdr s p)"
    and fits: "unat off + length xs \<le> unat (ph_slot_capacity (hdr s p))"
    and a: "a = pool_payload_base p + ucast i * ucast (ph_slot_stride (hdr s p)) + ucast off"
  shows "slot_bytes (store_bytes p a xs s) p i = overwrite (unat off) xs (slot_bytes s p i)"
    "j < ph_slot_count (hdr s p) \<Longrightarrow> j \<noteq> i \<Longrightarrow> slot_bytes (store_bytes p a xs s) p j = slot_bytes s p j"
proof -
  let ?st = "unat (ph_slot_stride (hdr s p))" and ?cap = "unat (ph_slot_capacity (hdr s p))"
  have "off \<le> ph_slot_capacity (hdr s p)" using fits by (simp add: word_le_nat_alt)
  then have idx: "payload_index p a = unat i * ?st + unat off"
    unfolding payload_index_def a by (simp add: slot_offset_unat add.assoc)
  note len = slot_bytes_length(2) [OF ok i]
  show "slot_bytes (store_bytes p a xs s) p i = overwrite (unat off) xs (slot_bytes s p i)"
    using slice_overwrite_inside [OF len fits] by (simp add: slot_bytes_def idx)
  assume j: "j < ph_slot_count (hdr s p)" "j \<noteq> i"
  have "?cap \<le> ?st" using ok by (simp add: payload_ok_def word_le_nat_alt)
  from slots_disjoint [OF j(2) this] show "slot_bytes (store_bytes p a xs s) p j = slot_bytes s p j"
    unfolding slot_bytes_def store_bytes_reads idx using fits len
    by (intro slice_overwrite_outside) linarith+
qed

subsection \<open>The edits\<close>

lemma slot_view_region:
  "(slot_view p h H sl)\<lparr>buf_data := buf_slot_base (slot_view p h H sl) + ucast off, buf_length := len\<rparr> =
   slot_view p h H (sl\<lparr>sc_region := \<lparr>rg_offset = off, rg_length = len\<rparr>\<rparr>)"
  by (simp add: slot_view_def Let_def)

lemma set_region_edit:
  assumes inv: "pool_inv s p" and ok: "payload_ok s p" and cur: "current_view s p v"
    and fits: "unat off + unat len \<le> unat (ph_slot_capacity (hdr s p))"
  shows "edited p v s (split_bytes (unat off) (unat len) (slot_bytes s p (buf_slot_id v)))
    (zipc_buffer_set_region (Some v) off len s)"
proof -
  note f = current_view_fields [OF cur]
  let ?c = "slot_ptr p (buf_slot_id v)"
  let ?w = "v\<lparr>buf_data := buf_slot_base v + ucast off, buf_length := len\<rparr>"
  let ?t = "upd_slot ?c (\<lambda>sl. sl\<lparr>sc_region := \<lparr>rg_offset = off, rg_length = len\<rparr>\<rparr>) s"
  have res: "zipc_buffer_set_region (Some v) off len s = (ZIPC_OK, Some ?w, ?t)"
    using region_word_iff [of off "ph_slot_capacity (hdr s p)" len] f(2,4,7) fits
    by (simp add: zipc_buffer_set_region_def not_less)
  have "implements p s None ?t" by (rule set_region_implements [OF inv f(11) res])
  then have t: "pool_inv ?t p" "pool_abs ?t p = pool_abs s p" "payload_of ?t p = payload_of s p"
    by (simp_all add: implements_def)
  have cok: "slot_ptr_ok s ?c" using inv f(8) by (simp add: slot_ptr_ok_iff pool_inv_def)
  then have sl: "slot_of ?t ?c = (slot_of s ?c)\<lparr>sc_region := \<lparr>rg_offset = off, rg_length = len\<rparr>\<rparr>" by simp
  have w: "?w = slot_view p (buf_handle v) (hdr s p) (slot_of ?t ?c)"
    using cur slot_view_region [where p = p and h = "buf_handle v" and H = "hdr s p" and sl = "slot_of s ?c" and off = off and len = len] f(12)
    unfolding sl current_view_def by metis
  have reg: "registered_epoch ?t (Some p) (buf_owner v) = registered_epoch s (Some p) (buf_owner v)"
    by (simp add: registered_epoch_def component_of_def)
  have "buffer_owned ?t (Some ?w)"
    using f(7) sl f(1,2) reg by (simp add: buffer_owned_def buffer_valid_def Let_def)
  then have "current_view ?t p ?w"
    using f(8) w by (simp add: current_view_def f(12))
  moreover have "slot_bytes ?t p j = slot_bytes s p j" for j by (simp add: slot_bytes_def t(3))
  moreover have "payload_ok ?t p" using ok t(3) by (simp add: payload_ok_def)
  ultimately show ?thesis
    using t sl by (simp add: edited_def res view_bytes_def Let_def)
qed

lemma edited_after_store:
  assumes "edited p v (store_bytes p a xs s) bv r"
    and "\<And>j. j < ph_slot_count (hdr s p) \<Longrightarrow> j \<noteq> buf_slot_id v \<Longrightarrow>
           slot_bytes (store_bytes p a xs s) p j = slot_bytes s p j"
  shows "edited p v s bv r"
  using assms by (auto simp: edited_def split: prod.splits) metis

lemma view_bytes_split:
  assumes "current_view s p v"
  shows "view_bytes s p v = split_bytes (unat (zipc_buffer_headroom (Some v) s)) (unat (buf_length v)) (slot_bytes s p (buf_slot_id v))"
  using current_view_fields [OF assms] by (simp add: view_bytes_def zipc_buffer_headroom_def Let_def)

lemma view_bytes_lengths:
  assumes "pool_inv s p" "payload_ok s p" "current_view s p v"
  shows "length (bv_head (view_bytes s p v)) = unat (zipc_buffer_headroom (Some v) s)"
    "length (bv_body (view_bytes s p v)) = unat (buf_length v)"
    "length (bv_tail (view_bytes s p v)) = unat (zipc_buffer_tailroom (Some v) s)"
  using current_view_region [OF assms(1,3)] slot_bytes_length(1) [OF assms(2) current_view_fields(8) [OF assms(3)]]
  by (simp_all add: view_bytes_split [OF assms(3)] split_bytes_def)

lemma unat_add_le: "unat (a :: u32) + unat b \<le> unat (c :: u32) \<Longrightarrow> unat (a + b) = unat a + unat b"
  using unat_u32_lt [of c] by (simp add: unat_word_ariths)

lemma ucast_add_le: "unat (a :: u32) + unat b \<le> unat (c :: u32) \<Longrightarrow> (ucast (a + b) :: u64) = ucast a + ucast b"
  using unat_u32_lt [of c] by (simp add: word_unat_eq_iff unat_word_ariths)

lemma unat_sub_le: "unat (b :: u32) \<le> unat a \<Longrightarrow> unat (a - b) = unat a - unat b"
  by (simp add: unat_sub word_le_nat_alt)

lemma append_edit:
  assumes inv: "pool_inv s p" and ok: "payload_ok s p" and cur: "current_view s p v"
    and d: "length d = unat len" "length d \<le> length (bv_tail (view_bytes s p v))"
  shows "edited p v s (bv_append d (view_bytes s p v)) (zipc_buffer_append (Some v) (Some d) len s)"
proof -
  note f = current_view_fields [OF cur] and r = current_view_region [OF inv cur]
  note lens = view_bytes_lengths [OF inv ok cur]
  let ?off = "zipc_buffer_headroom (Some v) s" and ?i = "buf_slot_id v"
  let ?a = "buf_data v + ucast (buf_length v)"
  let ?s = "store_bytes p ?a d s"
  have room: "unat ?off + unat (buf_length v) + unat len \<le> unat (ph_slot_capacity (hdr s p))"
    using r(2) d lens(3) by simp
  have off: "rg_offset (sc_region (slot_of s (slot_ptr p ?i))) = ?off"
    using f(7,9) by (simp add: zipc_buffer_headroom_def)
  have sum: "unat ?off + unat (buf_length v) \<le> unat (ph_slot_capacity (hdr s p))" using room by simp
  have addr: "?a = pool_payload_base p + ucast ?i * ucast (ph_slot_stride (hdr s p)) + ucast (?off + buf_length v)"
    unfolding f(5,6) off ucast_add_le [OF sum] by simp
  have "unat (?off + buf_length v) + length d \<le> unat (ph_slot_capacity (hdr s p))"
    using room d(1) unat_add_le [OF sum] by simp
  note st = store_slot_bytes [OF ok f(8) this addr]
  have len: "unat (buf_length v + len) = unat (buf_length v) + unat len"
    using room by (intro unat_add_le [where c = "ph_slot_capacity (hdr s p)"]) simp
  have le: "len \<le> zipc_buffer_tailroom (Some v) s" using d lens(3) by (simp add: word_le_nat_alt)
  have run: "zipc_buffer_append (Some v) (Some d) len s = zipc_buffer_set_region (Some v) ?off (buf_length v + len) ?s"
    using le f(1,7,9) off d by (auto simp: zipc_buffer_append_def Let_def buffer_control_def f(2))
  have "edited p v ?s (split_bytes (unat ?off) (unat (buf_length v + len)) (slot_bytes ?s p ?i))
      (zipc_buffer_set_region (Some v) ?off (buf_length v + len) ?s)"
    using inv ok cur room len by (intro set_region_edit) simp_all
  moreover have "split_bytes (unat ?off) (unat (buf_length v + len)) (slot_bytes ?s p ?i) = bv_append d (view_bytes s p v)"
    unfolding st(1) view_bytes_split [OF cur] len d(1) [symmetric] unat_add_le [OF sum]
    using room d by (intro split_append) (simp add: slot_bytes_length(1) [OF ok f(8)])
  ultimately show ?thesis
    unfolding run using edited_after_store st(2) by metis
qed

lemma prepend_edit:
  assumes inv: "pool_inv s p" and ok: "payload_ok s p" and cur: "current_view s p v"
    and d: "length d = unat len" "length d \<le> length (bv_head (view_bytes s p v))"
  shows "edited p v s (bv_prepend d (view_bytes s p v)) (zipc_buffer_prepend (Some v) (Some d) len s)"
proof -
  note f = current_view_fields [OF cur] and r = current_view_region [OF inv cur]
  note lens = view_bytes_lengths [OF inv ok cur]
  let ?off = "zipc_buffer_headroom (Some v) s" and ?i = "buf_slot_id v"
  let ?a = "buf_slot_base v + ucast (?off - len)"
  let ?s = "store_bytes p ?a d s"
  have le: "len \<le> ?off" and le': "unat len \<le> unat ?off" using d lens(1) by (simp_all add: word_le_nat_alt)
  have off: "rg_offset (sc_region (slot_of s (slot_ptr p ?i))) = ?off"
    using f(7,9) by (simp add: zipc_buffer_headroom_def)
  have "unat (?off - len) + length d \<le> unat (ph_slot_capacity (hdr s p))"
    using r(1) d(1) unat_sub_le [OF le'] le' by simp
  moreover have "?a = pool_payload_base p + ucast ?i * ucast (ph_slot_stride (hdr s p)) + ucast (?off - len)"
    by (simp add: f(5))
  ultimately have st: "slot_bytes ?s p ?i = overwrite (unat (?off - len)) d (slot_bytes s p ?i)"
    "\<And>j. j < ph_slot_count (hdr s p) \<Longrightarrow> j \<noteq> ?i \<Longrightarrow> slot_bytes ?s p j = slot_bytes s p j"
    by (rule store_slot_bytes [OF ok f(8)])+
  have len: "unat (buf_length v + len) = unat (buf_length v) + unat len"
    using r(1) le' by (intro unat_add_le [where c = "ph_slot_capacity (hdr s p)"]) simp
  have run: "zipc_buffer_prepend (Some v) (Some d) len s =
      zipc_buffer_set_region (Some v) (?off - len) (buf_length v + len) ?s"
    using le f(1,7,9) off d by (auto simp: zipc_buffer_prepend_def Let_def buffer_control_def f(2))
  have "edited p v ?s (split_bytes (unat (?off - len)) (unat (buf_length v + len)) (slot_bytes ?s p ?i))
      (zipc_buffer_set_region (Some v) (?off - len) (buf_length v + len) ?s)"
    using inv ok cur r(1) len le' unat_sub_le [OF le'] by (intro set_region_edit) simp_all
  moreover have "split_bytes (unat (?off - len)) (unat (buf_length v + len)) (slot_bytes ?s p ?i) = bv_prepend d (view_bytes s p v)"
    unfolding st(1) view_bytes_split [OF cur] len d(1) [symmetric] unat_sub_le [OF le']
    using d le' r(1) by (intro split_prepend) (simp_all add: slot_bytes_length(1) [OF ok f(8)])
  ultimately show ?thesis
    unfolding run using edited_after_store st(2) by metis
qed

lemma trim_front_edit:
  assumes inv: "pool_inv s p" and ok: "payload_ok s p" and cur: "current_view s p v"
    and n: "unat len \<le> length (bv_body (view_bytes s p v))"
  shows "edited p v s (bv_trim_front (unat len) (view_bytes s p v)) (zipc_buffer_trim_front (Some v) len s)"
proof -
  note f = current_view_fields [OF cur] and r = current_view_region [OF inv cur]
  let ?off = "zipc_buffer_headroom (Some v) s"
  have le: "unat len \<le> unat (buf_length v)" using n view_bytes_lengths(2) [OF inv ok cur] by simp
  have sum: "unat (?off + len) = unat ?off + unat len"
    using r(1) le by (intro unat_add_le [where c = "ph_slot_capacity (hdr s p)"]) simp
  have "zipc_buffer_trim_front (Some v) len s = zipc_buffer_set_region (Some v) (?off + len) (buf_length v - len) s"
    using le f(7,9) by (simp add: zipc_buffer_trim_front_def zipc_buffer_headroom_def word_less_nat_alt)
  moreover have "edited p v s (split_bytes (unat (?off + len)) (unat (buf_length v - len)) (slot_bytes s p (buf_slot_id v)))
      (zipc_buffer_set_region (Some v) (?off + len) (buf_length v - len) s)"
    using r(1) le by (intro set_region_edit [OF inv ok cur]) (simp add: sum unat_sub_le)
  moreover have "split_bytes (unat (?off + len)) (unat (buf_length v - len)) (slot_bytes s p (buf_slot_id v)) =
      bv_trim_front (unat len) (view_bytes s p v)"
    unfolding sum unat_sub_le [OF le] view_bytes_split [OF cur]
    using r(1) le by (intro split_trim_front) (simp_all add: slot_bytes_length(1) [OF ok f(8)])
  ultimately show ?thesis by simp
qed

lemma set_length_edit:
  assumes inv: "pool_inv s p" and ok: "payload_ok s p" and cur: "current_view s p v"
    and n: "unat (zipc_buffer_headroom (Some v) s) + unat len \<le> unat (ph_slot_capacity (hdr s p))"
  shows "edited p v s (bv_resize (unat len) (view_bytes s p v))
    (zipc_buffer_set_region (Some v) (zipc_buffer_headroom (Some v) s) len s)"
proof -
  note f = current_view_fields [OF cur] and r = current_view_region [OF inv cur]
  have "bv_resize (unat len) (view_bytes s p v) =
      split_bytes (unat (zipc_buffer_headroom (Some v) s)) (unat len) (slot_bytes s p (buf_slot_id v))"
    unfolding view_bytes_split [OF cur]
    using r(1) n by (intro split_resize [symmetric]) (simp_all add: slot_bytes_length(1) [OF ok f(8)])
  with set_region_edit [OF inv ok cur n] show ?thesis by simp
qed

subsection \<open>Properties\<close>

lemma sample_current_view [simp]: "current_view (sample_state [sample_owned_slot, sample_slot]) sample_pool sample_view"
  using buffer_owned_view [OF sample_ready(2) [where xs = "[sample_slot]"]]
  by (simp add: current_view_def sample_view_def)

lemma sample_payload_ok [simp]: "payload_ok (sample_state xs) sample_pool"
  by (simp add: payload_ok_def) (simp add: sample_state_def payload_of_def)

text \<open>C18: Appending \<open>n\<close> bytes to an owned buffer succeeds exactly when the tailroom holds them. The
  contents then are the old contents followed by the new bytes, taken from the tailroom; headroom,
  every other slot of the pool, the ownership state and the invariant are unchanged. Otherwise
  nothing changes.\<close>

theorem buffer_append_refines:
  assumes "pool_inv s p" "payload_ok s p" "current_view s p v" "length d = unat len"
  shows "if length d \<le> length (bv_tail (view_bytes s p v))
    then edited p v s (bv_append d (view_bytes s p v)) (zipc_buffer_append (Some v) (Some d) len s)
    else zipc_buffer_append (Some v) (Some d) len s = (ZIPC_ERR_REGION_OVERFLOW, Some v, s)"
  using append_edit [OF assms] view_bytes_lengths(3) [OF assms(1-3)] current_view_fields(7) [OF assms(3)] assms(4)
  by (simp add: zipc_buffer_append_def word_less_nat_alt)

theorem buffer_append_refines_witness:
  "let s = sample_state [sample_owned_slot, sample_slot] in
   if length [1, 2, 3 :: u8] \<le> length (bv_tail (view_bytes s sample_pool sample_view))
   then edited sample_pool sample_view s (bv_append [1, 2, 3] (view_bytes s sample_pool sample_view))
          (zipc_buffer_append (Some sample_view) (Some [1, 2, 3]) 3 s)
   else zipc_buffer_append (Some sample_view) (Some [1, 2, 3]) 3 s = (ZIPC_ERR_REGION_OVERFLOW, Some sample_view, s)"
  unfolding Let_def by (rule buffer_append_refines) simp_all

text \<open>Prepending works on the headroom the same way: the new bytes come before the old contents,
  and the headroom shrinks by their number.\<close>

theorem buffer_prepend_refines:
  assumes "pool_inv s p" "payload_ok s p" "current_view s p v" "length d = unat len"
  shows "if length d \<le> length (bv_head (view_bytes s p v))
    then edited p v s (bv_prepend d (view_bytes s p v)) (zipc_buffer_prepend (Some v) (Some d) len s)
    else zipc_buffer_prepend (Some v) (Some d) len s = (ZIPC_ERR_REGION_OVERFLOW, Some v, s)"
  using prepend_edit [OF assms] view_bytes_lengths(1) [OF assms(1-3)] current_view_fields(7) [OF assms(3)] assms(4)
  by (simp add: zipc_buffer_prepend_def word_less_nat_alt)

theorem buffer_prepend_refines_witness:
  "let s = sample_state [sample_owned_slot, sample_slot] in
   if length [1, 2, 3 :: u8] \<le> length (bv_head (view_bytes s sample_pool sample_view))
   then edited sample_pool sample_view s (bv_prepend [1, 2, 3] (view_bytes s sample_pool sample_view))
          (zipc_buffer_prepend (Some sample_view) (Some [1, 2, 3]) 3 s)
   else zipc_buffer_prepend (Some sample_view) (Some [1, 2, 3]) 3 s = (ZIPC_ERR_REGION_OVERFLOW, Some sample_view, s)"
  unfolding Let_def by (rule buffer_prepend_refines) simp_all

lemma trim_back_edit:
  assumes "pool_inv s p" "payload_ok s p" "current_view s p v" "unat len \<le> length (bv_body (view_bytes s p v))"
  shows "edited p v s (bv_trim_back (unat len) (view_bytes s p v)) (zipc_buffer_trim_back (Some v) len s)"
proof -
  note f = current_view_fields [OF assms(3)] and r = current_view_region [OF assms(1,3)]
  note lens = view_bytes_lengths [OF assms(1-3)]
  have le: "unat len \<le> unat (buf_length v)" using assms(4) lens(2) by simp
  have "zipc_buffer_trim_back (Some v) len s =
      zipc_buffer_set_region (Some v) (zipc_buffer_headroom (Some v) s) (buf_length v - len) s"
    using le f(7,9) by (simp add: zipc_buffer_trim_back_def zipc_buffer_headroom_def word_less_nat_alt)
  then show ?thesis
    using set_length_edit [OF assms(1-3), of "buf_length v - len"] r(1) le lens(2)
    by (simp add: bv_trim_back_def unat_sub_le)
qed

lemma resize_edit:
  assumes "pool_inv s p" "payload_ok s p" "current_view s p v"
  shows "if unat n \<le> length (bv_body (view_bytes s p v)) + length (bv_tail (view_bytes s p v))
    then edited p v s (bv_resize (unat n) (view_bytes s p v)) (zipc_buffer_resize (Some v) n s)
    else zipc_buffer_resize (Some v) n s = (ZIPC_ERR_REGION_OVERFLOW, Some v, s)"
proof -
  note f = current_view_fields [OF assms(3)] and r = current_view_region [OF assms(1,3)]
  note lens = view_bytes_lengths [OF assms(1-3)]
  let ?off = "zipc_buffer_headroom (Some v) s" and ?cap = "ph_slot_capacity (hdr s p)"
  let ?sum = "?off + zipc_buffer_tailroom (Some v) s + buf_length v"
  have off: "rg_offset (sc_region (buffer_control s (Some v))) = ?off"
    using f(7) by (simp add: zipc_buffer_headroom_def)
  have a: "unat (?off + zipc_buffer_tailroom (Some v) s) = unat ?off + unat (zipc_buffer_tailroom (Some v) s)"
    using r(2) by (intro unat_add_le [where c = ?cap]) simp
  then have "unat ?sum = unat ?cap"
    using r(2) by (subst unat_add_le [where c = ?cap]) simp_all
  then have whole: "?sum = ?cap" by (simp add: word_unat_eq_iff)
  have left: "unat (?cap - ?off) = unat (buf_length v) + unat (zipc_buffer_tailroom (Some v) s)"
    using r by (simp add: unat_sub_le)
  have run: "zipc_buffer_resize (Some v) n s =
      (if unat n \<le> unat (?cap - ?off) then zipc_buffer_set_region (Some v) ?off (ucast n) s
       else (ZIPC_ERR_REGION_OVERFLOW, Some v, s))"
    using f(4,7) unat_u32_lt [of ?cap] r left
    by (auto simp: zipc_buffer_resize_def Let_def off whole word_less_nat_alt unat_UINT32_MAX)
  show ?thesis
  proof (cases "unat n \<le> unat (?cap - ?off)")
    case True
    then have "unat (ucast n :: u32) = unat n"
      using unat_u32_lt [of "?cap - ?off"] by (simp add: unsigned_ucast_eq take_bit_nat_eq_self_iff)
    then show ?thesis
      using set_length_edit [OF assms, of "ucast n"] True left r lens run by simp
  qed (use run left lens in simp)
qed

text \<open>Trimming and resizing never move bytes: they shift the borders between headroom, contents
  and tailroom. Trimming succeeds up to the length of the contents, resizing up to contents and
  tailroom together; beyond that they report an overflow and change nothing.\<close>

theorem buffer_trim_resize_refine:
  assumes "pool_inv s p" "payload_ok s p" "current_view s p v"
  shows "(if unat len \<le> length (bv_body (view_bytes s p v))
     then edited p v s (bv_trim_front (unat len) (view_bytes s p v)) (zipc_buffer_trim_front (Some v) len s) \<and>
          edited p v s (bv_trim_back (unat len) (view_bytes s p v)) (zipc_buffer_trim_back (Some v) len s)
     else zipc_buffer_trim_front (Some v) len s = (ZIPC_ERR_REGION_OVERFLOW, Some v, s) \<and>
          zipc_buffer_trim_back (Some v) len s = (ZIPC_ERR_REGION_OVERFLOW, Some v, s)) \<and>
    (if unat n \<le> length (bv_body (view_bytes s p v)) + length (bv_tail (view_bytes s p v))
     then edited p v s (bv_resize (unat n) (view_bytes s p v)) (zipc_buffer_resize (Some v) n s)
     else zipc_buffer_resize (Some v) n s = (ZIPC_ERR_REGION_OVERFLOW, Some v, s))"
  using trim_front_edit [OF assms] trim_back_edit [OF assms] resize_edit [OF assms, of n]
    view_bytes_lengths(2) [OF assms] current_view_fields(7) [OF assms(3)]
  by (simp add: zipc_buffer_trim_front_def zipc_buffer_trim_back_def word_less_nat_alt)

theorem buffer_trim_resize_refine_witness:
  "let s = sample_state [sample_owned_slot, sample_slot] in
   (if unat (4 :: u32) \<le> length (bv_body (view_bytes s sample_pool sample_view))
     then edited sample_pool sample_view s (bv_trim_front (unat (4 :: u32)) (view_bytes s sample_pool sample_view))
            (zipc_buffer_trim_front (Some sample_view) 4 s) \<and>
          edited sample_pool sample_view s (bv_trim_back (unat (4 :: u32)) (view_bytes s sample_pool sample_view))
            (zipc_buffer_trim_back (Some sample_view) 4 s)
     else zipc_buffer_trim_front (Some sample_view) 4 s = (ZIPC_ERR_REGION_OVERFLOW, Some sample_view, s) \<and>
          zipc_buffer_trim_back (Some sample_view) 4 s = (ZIPC_ERR_REGION_OVERFLOW, Some sample_view, s)) \<and>
    (if unat (20 :: u64) \<le> length (bv_body (view_bytes s sample_pool sample_view)) + length (bv_tail (view_bytes s sample_pool sample_view))
     then edited sample_pool sample_view s (bv_resize (unat (20 :: u64)) (view_bytes s sample_pool sample_view))
            (zipc_buffer_resize (Some sample_view) 20 s)
     else zipc_buffer_resize (Some sample_view) 20 s = (ZIPC_ERR_REGION_OVERFLOW, Some sample_view, s))"
  unfolding Let_def by (rule buffer_trim_resize_refine) simp_all

text \<open>C19: The numbers the accessors report describe the slot exactly: headroom, size and tailroom add up
  to the capacity; the bytes at the data pointer are the contents; \<open>zipc_buffer_at\<close> yields an address
  exactly for ranges inside the slot, and the bytes there are those of the slot.\<close>

theorem buffer_accessors_exact:
  assumes "pool_inv s p" "payload_ok s p" "current_view s p v"
  shows "unat (zipc_buffer_headroom (Some v) s) + unat (zipc_buffer_size (Some v) s) + unat (zipc_buffer_tailroom (Some v) s) =
      unat (zipc_buffer_capacity (Some v) s) \<and>
    (case zipc_buffer_data (Some v) s of None \<Rightarrow> False
     | Some a \<Rightarrow> load_bytes p a (unat (zipc_buffer_size (Some v) s)) s = bv_body (view_bytes s p v)) \<and>
    (case zipc_buffer_at (Some v) off n s of
       None \<Rightarrow> unat (zipc_buffer_capacity (Some v) s) < unat off + unat n
     | Some a \<Rightarrow> unat off + unat n \<le> unat (zipc_buffer_capacity (Some v) s) \<and>
         load_bytes p a (unat n) s = take (unat n) (drop (unat off) (slot_bytes s p (buf_slot_id v))))"
proof -
  note f = current_view_fields [OF assms(3)] and r = current_view_region [OF assms(1,3)]
  let ?i = "buf_slot_id v" and ?cap = "ph_slot_capacity (hdr s p)" and ?st = "ph_slot_stride (hdr s p)"
  have sizes: "unat (zipc_buffer_size (Some v) s) = unat (buf_length v)" "unat (zipc_buffer_capacity (Some v) s) = unat ?cap"
    using f(4,7) by (simp_all add: zipc_buffer_size_def zipc_buffer_capacity_def)
  have load: "load_bytes p (buf_slot_base v + a) k s = take k (drop (unat a) (slot_bytes s p ?i))"
    if "unat a + k \<le> unat ?cap" for a k
  proof -
    have ua: "unat (ucast a :: u32) = unat a"
      using that unat_u32_lt [of ?cap] by (simp add: unsigned_ucast_eq take_bit_nat_eq_self_iff)
    then have "unat (ucast ?i * ucast ?st + a) = unat ?i * unat ?st + unat a"
      using slot_offset_unat [of "ucast a" ?cap ?i ?st] that by (simp add: word_le_nat_alt unat_word_ariths unat_mult_32_32)
    then have "payload_index p (buf_slot_base v + a) = unat ?i * unat ?st + unat a"
      unfolding payload_index_def f(5) by (simp add: add.assoc)
    then show ?thesis
      using that by (simp add: load_bytes_def slot_bytes_def drop_take add.commute)
  qed
  have off: "rg_offset (sc_region (slot_of s (slot_ptr p ?i))) = zipc_buffer_headroom (Some v) s"
    using f(7,9) by (simp add: zipc_buffer_headroom_def)
  have body: "load_bytes p (buf_data v) (unat (buf_length v)) s = bv_body (view_bytes s p v)"
    using load [of "ucast (zipc_buffer_headroom (Some v) s)"] r(1)
    unfolding f(6) off view_bytes_split [OF assms(3)] by (simp add: split_bytes_def)
  have at: "zipc_buffer_at (Some v) off n s = (if unat off + unat n \<le> unat ?cap then Some (buf_slot_base v + off) else None)"
    using f(4,7) word_less_eq_region by (auto simp: zipc_buffer_at_def Let_def word_less_nat_alt unat_sub word_le_nat_alt not_less)
  show ?thesis
    using r(2) sizes body f(7) load [of off "unat n"] by (simp add: at zipc_buffer_data_def)
qed

theorem buffer_accessors_exact_witness:
  "let s = sample_state [sample_owned_slot, sample_slot]; v = sample_view in
   unat (zipc_buffer_headroom (Some v) s) + unat (zipc_buffer_size (Some v) s) + unat (zipc_buffer_tailroom (Some v) s) =
      unat (zipc_buffer_capacity (Some v) s) \<and>
    (case zipc_buffer_data (Some v) s of None \<Rightarrow> False
     | Some a \<Rightarrow> load_bytes sample_pool a (unat (zipc_buffer_size (Some v) s)) s = bv_body (view_bytes s sample_pool v)) \<and>
    (case zipc_buffer_at (Some v) 10 20 s of
       None \<Rightarrow> unat (zipc_buffer_capacity (Some v) s) < unat (10 :: u64) + unat (20 :: u64)
     | Some a \<Rightarrow> unat (10 :: u64) + unat (20 :: u64) \<le> unat (zipc_buffer_capacity (Some v) s) \<and>
         load_bytes sample_pool a (unat (20 :: u64)) s =
           take (unat (20 :: u64)) (drop (unat (10 :: u64)) (slot_bytes s sample_pool (buf_slot_id v))))"
  unfolding Let_def by (rule buffer_accessors_exact) simp_all

end
