(* ===== verification/Linux_Transport.thy ===== *)
theory Linux_Transport
  imports Spsc_Ring "HOL-Library.Multiset"
begin

text \<open>
  The descriptor transports of the Linux user platform
  (\<^verbatim>\<open>platform/linux/user/platform-linux-user.c\<close>): opening, sending, two-phase receiving and closing
  for every transport type of the file. The operating system and the callbacks the caller installs
  are the environment: every system call takes the next entry of a stream of replies, about which
  nothing is assumed, and is recorded with its reply in a log. A reply to a call that waits carries
  the descriptors that the peer pushed into the shared ring meanwhile. The members of the handle
  union are kept side by side; no operation reads a member of another variant.
\<close>

subsection \<open>Data\<close>

datatype zipc_platform_transport_type =
    ZIPC_TRANSPORT_MESSAGE_QUEUE
  | ZIPC_TRANSPORT_UNIX_DGRAM
  | ZIPC_TRANSPORT_FIFO
  | ZIPC_TRANSPORT_SHM_RING_EVENTFD
  | ZIPC_TRANSPORT_SHM_RING_POLLING
  | ZIPC_TRANSPORT_RPMSG
  | ZIPC_TRANSPORT_TASK_NOTIFICATION
  | ZIPC_TRANSPORT_IPI
  | ZIPC_TRANSPORT_XEN_RING_EVTCHN
  | ZIPC_TRANSPORT_PL_RING_IRQ
  | ZIPC_TRANSPORT_SMC
  | ZIPC_TRANSPORT_FFA

abbreviation "ZIPC_TRANSPORT_POSIX_MQUEUE \<equiv> ZIPC_TRANSPORT_MESSAGE_QUEUE"

record zipc_platform_transport_config =
  tc_type :: zipc_platform_transport_type
  tc_endpoint_name :: "string option"
  tc_create_endpoint :: bool
  tc_device_path :: "string option"
  tc_platform_handle :: "nat option"
  tc_receive_handle :: "int option"
  tc_queue_length :: u32
  tc_ring_depth :: u32
  tc_poll_timeout_ns :: u64
  tc_timeout_ticks :: u32
  tc_shared_mailbox :: "nat option"
  tc_notification_index :: u32
  tc_signal_send :: "nat option"
  tc_signal_wait :: "nat option"
  tc_signal_context :: nat
  tc_secure_call :: "nat option"
  tc_secure_context :: nat
  tc_secure_service_id :: u32
  tc_xen_remote_domid :: u32
  tc_xen_remote_port :: u32
  tc_xen_static_port :: u32

record zipc_transport_receive_token =
  tk_position :: u64
  tk_transport_cookie :: nat
  tk_transactional :: bool
  tk_pending :: bool

record zipc_platform_transport =
  tr_type :: zipc_platform_transport_type
  tr_created :: bool
  tr_endpoint_name :: string
  tr_device_path :: string
  tr_owns_ring :: bool
  tr_owns_eventfd :: bool
  tr_mq :: int
  tr_fd :: int
  tr_ring :: "nat option"
  tr_mapping_size :: u64
  tr_event_fd :: int
  tr_timeout_ns :: u64
  tr_mailbox :: "nat option"
  tr_send :: "nat option"
  tr_wait :: "nat option"
  tr_context :: nat
  tr_timeout_ticks :: u32
  tr_call :: "nat option"
  tr_service_id :: u32
  tr_response :: zipc_message
  tr_response_pending :: bool

subsection \<open>The environment\<close>

datatype errno = EINTR | EEXIST | EOTHER

datatype os_request =
    Sys_mq_open string bool | Sys_mq_send int zipc_message | Sys_mq_receive int | Sys_mq_close int
  | Sys_mq_unlink string | Sys_socket | Sys_bind int string | Sys_unlink string | Sys_mkfifo string
  | Sys_open string | Sys_write_message int zipc_message | Sys_read_message int | Sys_eventfd
  | Sys_write_event int | Sys_read_event int | Sys_sendto int string zipc_message | Sys_recv int
  | Sys_close int | Sys_mmap u64 | Sys_munmap "nat option" u64 | Sys_clock | Sys_relax | Sys_calloc
  | Sys_free nat | Sys_getrandom nat | Call_signal_send "nat option" nat | Call_signal_wait "nat option" nat u32
  | Call_secure "nat option" nat u32 zipc_message

record os_reply =
  re_value :: int
  re_errno :: errno
  re_counter :: u64
  re_message :: zipc_message
  re_status :: zipc_status
  re_address :: "nat option"
  re_sec :: u64
  re_nsec :: u64
  re_bytes :: "u8 list"
  re_peer :: "zipc_message list"

record linux_host =
  lh_rings :: "nat \<Rightarrow> zipc_transport_spsc_ring"
  lh_mail :: "nat \<Rightarrow> zipc_message"
  lh_transport :: "nat \<Rightarrow> zipc_platform_transport"
  lh_reply :: "nat \<Rightarrow> os_reply"
  lh_calls :: nat
  lh_log :: "(os_request \<times> os_reply) list"

definition os_call :: "os_request \<Rightarrow> linux_host \<Rightarrow> os_reply \<times> linux_host" where
  "os_call req h =
     (let r = lh_reply h (lh_calls h)
      in (r, h\<lparr>lh_calls := Suc (lh_calls h), lh_log := lh_log h @ [(req, r)]\<rparr>))"

definition os_do :: "os_request \<Rightarrow> linux_host \<Rightarrow> linux_host" where
  "os_do req h = snd (os_call req h)"

definition ring_at :: "linux_host \<Rightarrow> nat option \<Rightarrow> zipc_transport_spsc_ring option" where
  "ring_at h ring = map_option (lh_rings h) ring"

definition store_ring :: "nat option \<Rightarrow> zipc_transport_spsc_ring option \<Rightarrow> linux_host \<Rightarrow> linux_host" where
  "store_ring ring r h =
     (case (ring, r) of (Some a, Some x) \<Rightarrow> h\<lparr>lh_rings := (lh_rings h)(a := x)\<rparr> | _ \<Rightarrow> h)"

definition upd_transport ::
  "nat \<Rightarrow> (zipc_platform_transport \<Rightarrow> zipc_platform_transport) \<Rightarrow> linux_host \<Rightarrow> linux_host" where
  "upd_transport t f h = h\<lparr>lh_transport := (lh_transport h)(t := f (lh_transport h t))\<rparr>"

text \<open>What the peer does to the shared ring while the caller waits.\<close>

definition peer_pushes :: "nat option \<Rightarrow> os_reply \<Rightarrow> linux_host \<Rightarrow> linux_host" where
  "peer_pushes ring r h =
     fold (\<lambda>m h. store_ring ring (snd (zipc_linux_common_ring_push (ring_at h ring) (Some m))) h) (re_peer r) h"

definition peer_mail :: "nat \<Rightarrow> os_reply \<Rightarrow> linux_host \<Rightarrow> linux_host" where
  "peer_mail mailbox r h = h\<lparr>lh_mail := (lh_mail h)(mailbox := last (lh_mail h mailbox # re_peer r))\<rparr>"

definition zipc_monotonic_time_ns :: "linux_host \<Rightarrow> u64 \<times> linux_host" where
  "zipc_monotonic_time_ns h =
     (let (r, h) = os_call Sys_clock h
      in (if re_value r \<noteq> 0 then 0 else re_sec r * 1000000000 + re_nsec r, h))"

definition zipc_cpu_relax :: "nat option \<Rightarrow> linux_host \<Rightarrow> linux_host" where
  "zipc_cpu_relax ring h = (let (r, h) = os_call Sys_relax h in peer_pushes ring r h)"

definition ring_mapping_size :: "u32 \<Rightarrow> u64" where
  "ring_mapping_size depth = zipc_transport_spsc_ring_size depth"

subsection \<open>Opening\<close>

definition open_mqueue :: "nat \<Rightarrow> zipc_platform_transport_config \<Rightarrow> linux_host \<Rightarrow> zipc_status \<times> linux_host" where
  "open_mqueue t config h =
     (let (r, h) = os_call (Sys_mq_open (the (tc_endpoint_name config)) (tc_create_endpoint config)) h;
          h = upd_transport t (\<lambda>x. x\<lparr>tr_mq := re_value r\<rparr>) h
      in (if re_value r = - 1 then ZIPC_ERR_PLATFORM else ZIPC_OK, h))"

definition open_unix_dgram :: "nat \<Rightarrow> zipc_platform_transport_config \<Rightarrow> linux_host \<Rightarrow> zipc_status \<times> linux_host" where
  "open_unix_dgram t config h =
     (let (r, h) = os_call Sys_socket h;
          h = upd_transport t (\<lambda>x. x\<lparr>tr_fd := re_value r\<rparr>) h
      in if re_value r < 0 then (ZIPC_ERR_PLATFORM, h)
         else if tc_create_endpoint config
         then
           let path = take 107 (the (tc_endpoint_name config));
               h = os_do (Sys_unlink path) h;
               (r', h) = os_call (Sys_bind (re_value r) path) h
           in (if re_value r' \<noteq> 0 then ZIPC_ERR_PLATFORM else ZIPC_OK, h)
         else (ZIPC_OK, h))"

definition open_fifo :: "nat \<Rightarrow> zipc_platform_transport_config \<Rightarrow> linux_host \<Rightarrow> zipc_status \<times> linux_host" where
  "open_fifo t config h =
     (let path = the (tc_endpoint_name config);
          (made, h) = (if tc_create_endpoint config
                       then let (r, h) = os_call (Sys_mkfifo path) h
                            in (\<not> (re_value r \<noteq> 0 \<and> re_errno r \<noteq> EEXIST), h)
                       else (True, h))
      in if \<not> made then (ZIPC_ERR_PLATFORM, h)
         else
           let (r, h) = os_call (Sys_open path) h;
               h = upd_transport t (\<lambda>x. x\<lparr>tr_fd := re_value r\<rparr>) h
           in (if re_value r < 0 then ZIPC_ERR_PLATFORM else ZIPC_OK, h))"

text \<open>The ring of a ring transport: the one the caller passed, or a new zeroed and initialised
  mapping that the transport owns.\<close>

definition zero_ring :: "u32 \<Rightarrow> zipc_transport_spsc_ring" where
  "zero_ring depth = \<lparr>ring_producer = 0, ring_consumer = 0, ring_depth = 0, ring_reserved = 0,
     ring_entries = replicate (unat depth)
       \<lparr>msg_handle = 0, msg_pool_id = 0, msg_source_component = 0, msg_destination_component = 0,
        msg_transfer_sequence = 0, msg_flags = 0\<rparr>\<rparr>"

definition obtain_ring ::
  "nat \<Rightarrow> zipc_platform_transport_config \<Rightarrow> u32 \<Rightarrow> linux_host \<Rightarrow> zipc_status \<times> nat option \<times> linux_host" where
  "obtain_ring t config depth h =
     (case tc_platform_handle config of
        None \<Rightarrow>
          let bytes = ring_mapping_size depth;
              (r, h) = os_call (Sys_mmap bytes) h
          in (case re_address r of
                None \<Rightarrow> (ZIPC_ERR_PLATFORM, None, h)
              | Some a \<Rightarrow>
                  let ring = snd (zipc_transport_spsc_ring_initialize (Some (zero_ring depth)) depth);
                      h = store_ring (Some a) ring h
                  in (ZIPC_OK, Some a, upd_transport t (\<lambda>x. x\<lparr>tr_owns_ring := True, tr_mapping_size := bytes\<rparr>) h))
      | Some a \<Rightarrow>
          if ring_depth (lh_rings h a) < 2 then (ZIPC_ERR_INVALID_ARGUMENT, Some a, h)
          else (ZIPC_OK, Some a, h))"

definition open_ring_eventfd :: "nat \<Rightarrow> zipc_platform_transport_config \<Rightarrow> linux_host \<Rightarrow> zipc_status \<times> linux_host" where
  "open_ring_eventfd t config h =
     (let depth = (if tc_ring_depth config \<noteq> 0 then tc_ring_depth config else 64) in
      if depth < 2 then (ZIPC_ERR_INVALID_ARGUMENT, h)
      else
        let (status, ring, h) = obtain_ring t config depth h in
        if status \<noteq> ZIPC_OK then (status, h)
        else case tc_receive_handle config of
          Some fd \<Rightarrow> (ZIPC_OK, upd_transport t (\<lambda>x. x\<lparr>tr_ring := ring, tr_event_fd := fd\<rparr>) h)
        | None \<Rightarrow>
            let (r, h) = os_call Sys_eventfd h in
            if re_value r < 0
            then
              let h = (if tr_owns_ring (lh_transport h t)
                       then os_do (Sys_munmap ring (tr_mapping_size (lh_transport h t))) h else h)
              in (ZIPC_ERR_PLATFORM, upd_transport t (\<lambda>x. x\<lparr>tr_owns_ring := False\<rparr>) h)
            else (ZIPC_OK, upd_transport t (\<lambda>x. x\<lparr>tr_owns_eventfd := True, tr_ring := ring,
                                                  tr_event_fd := re_value r\<rparr>) h))"

definition open_ring_polling :: "nat \<Rightarrow> zipc_platform_transport_config \<Rightarrow> linux_host \<Rightarrow> zipc_status \<times> linux_host" where
  "open_ring_polling t config h =
     (let depth = (if tc_ring_depth config \<noteq> 0 then tc_ring_depth config else 64) in
      if depth < 2 then (ZIPC_ERR_INVALID_ARGUMENT, h)
      else
        let (status, ring, h) = obtain_ring t config depth h in
        if status \<noteq> ZIPC_OK then (status, h)
        else (ZIPC_OK, upd_transport t (\<lambda>x. x\<lparr>tr_ring := ring, tr_timeout_ns := tc_poll_timeout_ns config\<rparr>) h))"

definition open_ipi :: "nat \<Rightarrow> zipc_platform_transport_config \<Rightarrow> linux_host \<Rightarrow> zipc_status \<times> linux_host" where
  "open_ipi t config h =
     (if tc_shared_mailbox config = None \<or> tc_signal_send config = None \<or> tc_signal_wait config = None
      then (ZIPC_ERR_INVALID_ARGUMENT, h)
      else (ZIPC_OK, upd_transport t (\<lambda>x. x\<lparr>tr_mailbox := tc_shared_mailbox config,
              tr_send := tc_signal_send config, tr_wait := tc_signal_wait config,
              tr_context := tc_signal_context config, tr_timeout_ticks := tc_timeout_ticks config\<rparr>) h))"

definition open_pl_ring_irq :: "nat \<Rightarrow> zipc_platform_transport_config \<Rightarrow> linux_host \<Rightarrow> zipc_status \<times> linux_host" where
  "open_pl_ring_irq t config h =
     (let ring = tc_platform_handle config in
      if ring = None \<or> tc_signal_send config = None \<or> tc_signal_wait config = None
      then (ZIPC_ERR_INVALID_ARGUMENT, h)
      else
        let (status, h) =
              (if tc_create_endpoint config
               then let (status, r) = zipc_transport_spsc_ring_initialize (ring_at h ring) (tc_ring_depth config)
                    in (status, store_ring ring r h)
               else if ring_depth (the (ring_at h ring)) < 2 \<or>
                       (tc_ring_depth config \<noteq> 0 \<and> ring_depth (the (ring_at h ring)) \<noteq> tc_ring_depth config)
               then (ZIPC_ERR_INVALID_ARGUMENT, h)
               else (ZIPC_OK, h))
        in if status \<noteq> ZIPC_OK then (status, h)
           else (ZIPC_OK, upd_transport t (\<lambda>x. x\<lparr>tr_ring := ring,
                   tr_send := tc_signal_send config, tr_wait := tc_signal_wait config,
                   tr_context := tc_signal_context config, tr_timeout_ticks := tc_timeout_ticks config\<rparr>) h))"

definition open_rpmsg :: "nat \<Rightarrow> zipc_platform_transport_config \<Rightarrow> linux_host \<Rightarrow> zipc_status \<times> linux_host" where
  "open_rpmsg t config h =
     (case tc_device_path config of
        None \<Rightarrow> (ZIPC_ERR_INVALID_ARGUMENT, h)
      | Some path \<Rightarrow>
          if path = [] then (ZIPC_ERR_INVALID_ARGUMENT, h)
          else
            let (r, h) = os_call (Sys_open path) h;
                h = upd_transport t (\<lambda>x. x\<lparr>tr_fd := re_value r\<rparr>) h
            in if re_value r < 0 then (ZIPC_ERR_PLATFORM, h)
               else (ZIPC_OK, upd_transport t (\<lambda>x. x\<lparr>tr_device_path := take 255 path\<rparr>) h))"

definition open_secure :: "nat \<Rightarrow> zipc_platform_transport_config \<Rightarrow> linux_host \<Rightarrow> zipc_status \<times> linux_host" where
  "open_secure t config h =
     (if tc_secure_call config = None then (ZIPC_ERR_INVALID_ARGUMENT, h)
      else (ZIPC_OK, upd_transport t (\<lambda>x. x\<lparr>tr_call := tc_secure_call config, tr_context := tc_secure_context config,
              tr_service_id := tc_secure_service_id config, tr_response_pending := False\<rparr>) h))"

subsection \<open>Closing\<close>

definition zipc_platform_transport_close :: "nat option \<Rightarrow> linux_host \<Rightarrow> linux_host" where
  "zipc_platform_transport_close transport h =
     (case transport of
        None \<Rightarrow> h
      | Some t \<Rightarrow>
          let x = lh_transport h t;
              h = (case tr_type x of
                     ZIPC_TRANSPORT_MESSAGE_QUEUE \<Rightarrow>
                       let h = (if tr_mq x \<noteq> - 1 then os_do (Sys_mq_close (tr_mq x)) h else h)
                       in if tr_created x then os_do (Sys_mq_unlink (tr_endpoint_name x)) h else h
                   | ZIPC_TRANSPORT_UNIX_DGRAM \<Rightarrow>
                       let h = (if tr_fd x \<ge> 0 then os_do (Sys_close (tr_fd x)) h else h)
                       in if tr_created x then os_do (Sys_unlink (tr_endpoint_name x)) h else h
                   | ZIPC_TRANSPORT_FIFO \<Rightarrow>
                       let h = (if tr_fd x \<ge> 0 then os_do (Sys_close (tr_fd x)) h else h)
                       in if tr_created x then os_do (Sys_unlink (tr_endpoint_name x)) h else h
                   | ZIPC_TRANSPORT_SHM_RING_EVENTFD \<Rightarrow>
                       let h = (if tr_owns_eventfd x \<and> tr_event_fd x \<ge> 0
                                then os_do (Sys_close (tr_event_fd x)) h else h)
                       in if tr_owns_ring x \<and> tr_ring x \<noteq> None
                          then os_do (Sys_munmap (tr_ring x) (tr_mapping_size x)) h else h
                   | ZIPC_TRANSPORT_SHM_RING_POLLING \<Rightarrow>
                       if tr_owns_ring x \<and> tr_ring x \<noteq> None
                       then os_do (Sys_munmap (tr_ring x) (tr_mapping_size x)) h else h
                   | ZIPC_TRANSPORT_RPMSG \<Rightarrow>
                       if tr_fd x \<ge> 0 then os_do (Sys_close (tr_fd x)) h else h
                   | _ \<Rightarrow> h)
          in os_do (Sys_free t) h)"

definition zero_transport :: zipc_platform_transport where
  "zero_transport = \<lparr>tr_type = ZIPC_TRANSPORT_MESSAGE_QUEUE, tr_created = False, tr_endpoint_name = [],
     tr_device_path = [], tr_owns_ring = False, tr_owns_eventfd = False, tr_mq = 0, tr_fd = 0, tr_ring = None,
     tr_mapping_size = 0, tr_event_fd = 0, tr_timeout_ns = 0, tr_mailbox = None, tr_send = None, tr_wait = None,
     tr_context = 0, tr_timeout_ticks = 0, tr_call = None, tr_service_id = 0,
     tr_response = \<lparr>msg_handle = 0, msg_pool_id = 0, msg_source_component = 0, msg_destination_component = 0,
        msg_transfer_sequence = 0, msg_flags = 0\<rparr>, tr_response_pending = False\<rparr>"

definition new_transport :: "zipc_platform_transport_config \<Rightarrow> zipc_platform_transport" where
  "new_transport config = zero_transport\<lparr>tr_type := tc_type config, tr_created := tc_create_endpoint config,
     tr_fd := - 1, tr_endpoint_name := (case tc_endpoint_name config of None \<Rightarrow> [] | Some n \<Rightarrow> take 107 n)\<rparr>"

definition open_args_ok :: "zipc_platform_transport_config \<Rightarrow> bool" where
  "open_args_ok config \<longleftrightarrow>
     \<not> ((tc_type config = ZIPC_TRANSPORT_POSIX_MQUEUE \<or> tc_type config = ZIPC_TRANSPORT_UNIX_DGRAM \<or>
          tc_type config = ZIPC_TRANSPORT_FIFO) \<and> tc_endpoint_name config = None) \<and>
     \<not> (tc_type config = ZIPC_TRANSPORT_RPMSG \<and> tc_device_path config = None) \<and>
     \<not> (tc_type config = ZIPC_TRANSPORT_IPI \<and>
         (tc_shared_mailbox config = None \<or> tc_signal_send config = None \<or> tc_signal_wait config = None)) \<and>
     \<not> (tc_type config = ZIPC_TRANSPORT_PL_RING_IRQ \<and>
         (tc_platform_handle config = None \<or> tc_signal_send config = None \<or> tc_signal_wait config = None))"

definition open_typed :: "nat \<Rightarrow> zipc_platform_transport_config \<Rightarrow> linux_host \<Rightarrow> zipc_status \<times> linux_host" where
  "open_typed t config h =
     (case tc_type config of
        ZIPC_TRANSPORT_MESSAGE_QUEUE \<Rightarrow> open_mqueue t config (upd_transport t (\<lambda>x. x\<lparr>tr_mq := - 1\<rparr>) h)
      | ZIPC_TRANSPORT_UNIX_DGRAM \<Rightarrow> open_unix_dgram t config h
      | ZIPC_TRANSPORT_FIFO \<Rightarrow> open_fifo t config h
      | ZIPC_TRANSPORT_SHM_RING_EVENTFD \<Rightarrow> open_ring_eventfd t config h
      | ZIPC_TRANSPORT_SHM_RING_POLLING \<Rightarrow> open_ring_polling t config h
      | ZIPC_TRANSPORT_RPMSG \<Rightarrow> open_rpmsg t config h
      | ZIPC_TRANSPORT_IPI \<Rightarrow> open_ipi t config h
      | ZIPC_TRANSPORT_PL_RING_IRQ \<Rightarrow> open_pl_ring_irq t config h
      | ZIPC_TRANSPORT_SMC \<Rightarrow> open_secure t config h
      | ZIPC_TRANSPORT_FFA \<Rightarrow> open_secure t config h
      | _ \<Rightarrow> (ZIPC_ERR_INVALID_ARGUMENT, h))"

definition zipc_platform_transport_open ::
  "bool \<Rightarrow> zipc_platform_transport_config option \<Rightarrow> linux_host \<Rightarrow> zipc_status \<times> nat option \<times> linux_host" where
  "zipc_platform_transport_open transport_out config h =
     (case config of
        None \<Rightarrow> (ZIPC_ERR_INVALID_ARGUMENT, None, h)
      | Some c \<Rightarrow>
          if \<not> transport_out \<or> \<not> open_args_ok c then (ZIPC_ERR_INVALID_ARGUMENT, None, h)
          else
            let (r, h) = os_call Sys_calloc h in
            case re_address r of
              None \<Rightarrow> (ZIPC_ERR_PLATFORM, None, h)
            | Some t \<Rightarrow>
                let (status, h) = open_typed t c (upd_transport t (\<lambda>_. new_transport c) h) in
                if status \<noteq> ZIPC_OK then (status, None, zipc_platform_transport_close (Some t) h)
                else (ZIPC_OK, Some t, h))"

subsection \<open>Sending\<close>

definition sizeof_zipc_message :: int where
  "sizeof_zipc_message = 24"

definition sizeof_event_counter :: int where
  "sizeof_event_counter = 8"

definition stream_status :: "int \<Rightarrow> zipc_status" where
  "stream_status sent =
     (if sent = sizeof_zipc_message then ZIPC_OK
      else if sent > 0 then ZIPC_ERR_TRANSPORT_PUBLISHED else ZIPC_ERR_TRANSPORT)"

definition push_descriptor :: "nat option \<Rightarrow> zipc_message \<Rightarrow> linux_host \<Rightarrow> zipc_status \<times> linux_host" where
  "push_descriptor ring m h =
     (let (status, r) = zipc_linux_common_ring_push (ring_at h ring) (Some m) in (status, store_ring ring r h))"

definition zipc_platform_transport_send ::
  "nat option \<Rightarrow> zipc_message option \<Rightarrow> linux_host \<Rightarrow> zipc_status \<times> linux_host" where
  "zipc_platform_transport_send transport message h =
     (case (transport, message) of
        (Some t, Some m) \<Rightarrow>
          let x = lh_transport h t in
          (case tr_type x of
             ZIPC_TRANSPORT_MESSAGE_QUEUE \<Rightarrow>
               let (r, h) = os_call (Sys_mq_send (tr_mq x) m) h
               in (if re_value r = 0 then ZIPC_OK else ZIPC_ERR_TRANSPORT, h)
           | ZIPC_TRANSPORT_FIFO \<Rightarrow>
               let (r, h) = os_call (Sys_write_message (tr_fd x) m) h in (stream_status (re_value r), h)
           | ZIPC_TRANSPORT_SHM_RING_EVENTFD \<Rightarrow>
               let (status, h) = push_descriptor (tr_ring x) m h in
               if status \<noteq> ZIPC_OK then (status, h)
               else
                 let (r, h) = os_call (Sys_write_event (tr_event_fd x)) h
                 in (if re_value r = sizeof_event_counter then ZIPC_OK else ZIPC_ERR_TRANSPORT_PUBLISHED, h)
           | ZIPC_TRANSPORT_SHM_RING_POLLING \<Rightarrow> push_descriptor (tr_ring x) m h
           | ZIPC_TRANSPORT_RPMSG \<Rightarrow>
               let (r, h) = os_call (Sys_write_message (tr_fd x) m) h in (stream_status (re_value r), h)
           | ZIPC_TRANSPORT_IPI \<Rightarrow>
               let h = h\<lparr>lh_mail := (lh_mail h)(the (tr_mailbox x) := m)\<rparr>;
                   (r, h) = os_call (Call_signal_send (tr_send x) (tr_context x)) h
               in (if re_status r = ZIPC_OK then ZIPC_OK else ZIPC_ERR_TRANSPORT_PUBLISHED, h)
           | ZIPC_TRANSPORT_PL_RING_IRQ \<Rightarrow>
               let (status, h) = push_descriptor (tr_ring x) m h in
               if status \<noteq> ZIPC_OK then (status, h)
               else
                 let (r, h) = os_call (Call_signal_send (tr_send x) (tr_context x)) h
                 in (if re_status r = ZIPC_OK then ZIPC_OK else ZIPC_ERR_TRANSPORT_PUBLISHED, h)
           | ZIPC_TRANSPORT_UNIX_DGRAM \<Rightarrow>
               let (r, h) = os_call (Sys_sendto (tr_fd x) (tr_endpoint_name x) m) h
               in (if re_value r = sizeof_zipc_message then ZIPC_OK else ZIPC_ERR_TRANSPORT, h)
           | ty \<Rightarrow>
               if ty = ZIPC_TRANSPORT_SMC \<or> ty = ZIPC_TRANSPORT_FFA
               then
                 let (r, h) = os_call (Call_secure (tr_call x) (tr_context x) (tr_service_id x) m) h;
                     h = upd_transport t (\<lambda>x. x\<lparr>tr_response := re_message r\<rparr>) h
                 in if re_status r = ZIPC_OK
                    then (ZIPC_OK, upd_transport t (\<lambda>x. x\<lparr>tr_response_pending := True\<rparr>) h)
                    else (ZIPC_ERR_TRANSPORT_PUBLISHED, h)
               else (ZIPC_ERR_INVALID_ARGUMENT, h))
      | _ \<Rightarrow> (ZIPC_ERR_INVALID_ARGUMENT, h))"

subsection \<open>Receiving\<close>

text \<open>The retry of an interrupted \<open>read\<close> on the event descriptor.\<close>

partial_function (option) read_event :: "nat option \<Rightarrow> int \<Rightarrow> linux_host \<Rightarrow> (os_reply \<times> linux_host) option" where
  "read_event ring fd h =
     (case os_call (Sys_read_event fd) h of (r, h) \<Rightarrow>
        let h = peer_pushes ring r h in
        if re_value r < 0 \<and> re_errno r = EINTR then read_event ring fd h else Some (r, h))"

definition event_seen :: "os_reply \<Rightarrow> bool" where
  "event_seen r \<longleftrightarrow> \<not> (re_value r \<noteq> sizeof_event_counter \<or> re_counter r = 0)"

partial_function (option) pop_eventfd ::
  "nat option \<Rightarrow> int \<Rightarrow> linux_host \<Rightarrow> (zipc_status \<times> zipc_message option \<times> linux_host) option" where
  "pop_eventfd ring fd h =
     (case zipc_linux_common_ring_pop (ring_at h ring) True of (status, m, r) \<Rightarrow>
        if status \<noteq> ZIPC_ERR_NO_BUFFER then Some (status, m, store_ring ring r h)
        else case read_event ring fd h of
          None \<Rightarrow> None
        | Some (r, h) \<Rightarrow> if \<not> event_seen r then Some (ZIPC_ERR_TRANSPORT, None, h) else pop_eventfd ring fd h)"

definition poll_deadline :: "u64 \<Rightarrow> linux_host \<Rightarrow> u64 \<times> linux_host" where
  "poll_deadline timeout_ns h =
     (if timeout_ns \<noteq> 0
      then let (now_ns, h) = zipc_monotonic_time_ns h
           in (if UINT64_MAX - now_ns < timeout_ns then UINT64_MAX else now_ns + timeout_ns, h)
      else (0, h))"

definition poll_expired :: "u64 \<Rightarrow> u64 \<Rightarrow> linux_host \<Rightarrow> bool \<times> linux_host" where
  "poll_expired timeout_ns deadline_ns h =
     (if timeout_ns \<noteq> 0 then let (now_ns, h) = zipc_monotonic_time_ns h in (now_ns \<ge> deadline_ns, h)
      else (False, h))"

partial_function (option) pop_polling ::
  "nat option \<Rightarrow> u64 \<Rightarrow> u64 \<Rightarrow> linux_host \<Rightarrow> (zipc_status \<times> zipc_message option \<times> linux_host) option" where
  "pop_polling ring timeout_ns deadline_ns h =
     (case zipc_linux_common_ring_pop (ring_at h ring) True of (status, m, r) \<Rightarrow>
        if status \<noteq> ZIPC_ERR_NO_BUFFER then Some (status, m, store_ring ring r h)
        else case poll_expired timeout_ns deadline_ns h of (expired, h) \<Rightarrow>
          if expired then Some (ZIPC_ERR_TIMEOUT, None, h)
          else pop_polling ring timeout_ns deadline_ns (zipc_cpu_relax ring h))"

definition read_status :: "os_reply \<Rightarrow> zipc_status \<times> zipc_message option" where
  "read_status r =
     (if re_value r = sizeof_zipc_message then (ZIPC_OK, Some (re_message r)) else (ZIPC_ERR_TRANSPORT, None))"

definition read_descriptor :: "os_request \<Rightarrow> linux_host \<Rightarrow> zipc_status \<times> zipc_message option \<times> linux_host" where
  "read_descriptor req h =
     (let (r, h) = os_call req h; (status, m) = read_status r in (status, m, h))"

definition zipc_platform_transport_receive ::
  "nat option \<Rightarrow> bool \<Rightarrow> linux_host \<Rightarrow> (zipc_status \<times> zipc_message option \<times> linux_host) option" where
  "zipc_platform_transport_receive transport message_out h =
     (case transport of
        None \<Rightarrow> Some (ZIPC_ERR_INVALID_ARGUMENT, None, h)
      | Some t \<Rightarrow>
          if \<not> message_out then Some (ZIPC_ERR_INVALID_ARGUMENT, None, h)
          else
            let x = lh_transport h t in
            (case tr_type x of
               ZIPC_TRANSPORT_MESSAGE_QUEUE \<Rightarrow> Some (read_descriptor (Sys_mq_receive (tr_mq x)) h)
             | ZIPC_TRANSPORT_FIFO \<Rightarrow> Some (read_descriptor (Sys_read_message (tr_fd x)) h)
             | ZIPC_TRANSPORT_SHM_RING_EVENTFD \<Rightarrow> pop_eventfd (tr_ring x) (tr_event_fd x) h
             | ZIPC_TRANSPORT_SHM_RING_POLLING \<Rightarrow>
                 let (deadline_ns, h) = poll_deadline (tr_timeout_ns x) h
                 in pop_polling (tr_ring x) (tr_timeout_ns x) deadline_ns h
             | ZIPC_TRANSPORT_RPMSG \<Rightarrow> Some (read_descriptor (Sys_read_message (tr_fd x)) h)
             | ZIPC_TRANSPORT_IPI \<Rightarrow>
                 let (r, h) = os_call (Call_signal_wait (tr_wait x) (tr_context x) (tr_timeout_ticks x)) h;
                     h = peer_mail (the (tr_mailbox x)) r h
                 in if re_status r \<noteq> ZIPC_OK then Some (re_status r, None, h)
                    else Some (ZIPC_OK, Some (lh_mail h (the (tr_mailbox x))), h)
             | ZIPC_TRANSPORT_PL_RING_IRQ \<Rightarrow>
                 let (r, h) = os_call (Call_signal_wait (tr_wait x) (tr_context x) (tr_timeout_ticks x)) h;
                     h = peer_pushes (tr_ring x) r h
                 in if re_status r \<noteq> ZIPC_OK then Some (re_status r, None, h)
                    else
                      let (status, m, ring) = zipc_linux_common_ring_pop (ring_at h (tr_ring x)) True
                      in Some (status, m, store_ring (tr_ring x) ring h)
             | ZIPC_TRANSPORT_UNIX_DGRAM \<Rightarrow> Some (read_descriptor (Sys_recv (tr_fd x)) h)
             | ty \<Rightarrow>
                 if ty = ZIPC_TRANSPORT_SMC \<or> ty = ZIPC_TRANSPORT_FFA
                 then if \<not> tr_response_pending x then Some (ZIPC_ERR_TRANSPORT, None, h)
                      else Some (ZIPC_OK, Some (tr_response x), upd_transport t (\<lambda>x. x\<lparr>tr_response_pending := False\<rparr>) h)
                 else Some (ZIPC_ERR_INVALID_ARGUMENT, None, h)))"

text \<open>Two-phase receive: begin peeks at a ring without consuming, commit consumes what begin returned.
  On the other transports begin already consumes.\<close>

definition ring_token :: "u32 \<Rightarrow> zipc_transport_receive_token \<Rightarrow> zipc_transport_receive_token" where
  "ring_token position token = token\<lparr>tk_position := ucast position, tk_transactional := True, tk_pending := True\<rparr>"

partial_function (option) begin_eventfd ::
  "nat option \<Rightarrow> int \<Rightarrow> zipc_transport_receive_token \<Rightarrow> linux_host \<Rightarrow>
   (zipc_status \<times> zipc_message option \<times> zipc_transport_receive_token \<times> linux_host) option" where
  "begin_eventfd ring fd token h =
     (case zipc_linux_common_ring_peek (ring_at h ring) True True of (status, found) \<Rightarrow>
        if status = ZIPC_OK
        then Some (ZIPC_OK, Some (fst (the found)), ring_token (snd (the found)) token, h)
        else if status \<noteq> ZIPC_ERR_NO_BUFFER then Some (status, None, token, h)
        else case read_event ring fd h of
          None \<Rightarrow> None
        | Some (r, h) \<Rightarrow> if \<not> event_seen r then Some (ZIPC_ERR_TRANSPORT, None, token, h) else begin_eventfd ring fd token h)"

partial_function (option) begin_polling ::
  "nat option \<Rightarrow> u64 \<Rightarrow> u64 \<Rightarrow> zipc_transport_receive_token \<Rightarrow> linux_host \<Rightarrow>
   (zipc_status \<times> zipc_message option \<times> zipc_transport_receive_token \<times> linux_host) option" where
  "begin_polling ring timeout_ns deadline_ns token h =
     (case zipc_linux_common_ring_peek (ring_at h ring) True True of (status, found) \<Rightarrow>
        if status = ZIPC_OK
        then Some (ZIPC_OK, Some (fst (the found)), ring_token (snd (the found)) token, h)
        else if status \<noteq> ZIPC_ERR_NO_BUFFER then Some (status, None, token, h)
        else case poll_expired timeout_ns deadline_ns h of (expired, h) \<Rightarrow>
          if expired then Some (ZIPC_ERR_TIMEOUT, None, token, h)
          else begin_polling ring timeout_ns deadline_ns token (zipc_cpu_relax ring h))"

definition zero_token :: zipc_transport_receive_token where
  "zero_token = \<lparr>tk_position = 0, tk_transport_cookie = 0, tk_transactional = False, tk_pending = False\<rparr>"

definition zipc_platform_transport_receive_begin ::
  "nat option \<Rightarrow> bool \<Rightarrow> zipc_transport_receive_token option \<Rightarrow> linux_host \<Rightarrow>
   (zipc_status \<times> zipc_message option \<times> zipc_transport_receive_token option \<times> linux_host) option" where
  "zipc_platform_transport_receive_begin transport message_out token h =
     (case (transport, token) of
        (Some t, Some _) \<Rightarrow>
          if \<not> message_out then Some (ZIPC_ERR_INVALID_ARGUMENT, None, token, h)
          else
            let token = zero_token\<lparr>tk_transport_cookie := t\<rparr>; x = lh_transport h t in
            if tr_type x = ZIPC_TRANSPORT_SHM_RING_EVENTFD
            then map_option (\<lambda>(status, m, token, h). (status, m, Some token, h))
                   (begin_eventfd (tr_ring x) (tr_event_fd x) token h)
            else if tr_type x = ZIPC_TRANSPORT_SHM_RING_POLLING
            then
              let (deadline_ns, h) = poll_deadline (tr_timeout_ns x) h
              in map_option (\<lambda>(status, m, token, h). (status, m, Some token, h))
                   (begin_polling (tr_ring x) (tr_timeout_ns x) deadline_ns token h)
            else
              map_option (\<lambda>(status, m, h).
                  (status, m, Some (if status = ZIPC_OK then token\<lparr>tk_pending := True\<rparr> else token), h))
                (zipc_platform_transport_receive transport message_out h)
      | _ \<Rightarrow> Some (ZIPC_ERR_INVALID_ARGUMENT, None, token, h))"

definition zipc_platform_transport_receive_commit ::
  "nat option \<Rightarrow> zipc_transport_receive_token option \<Rightarrow> linux_host \<Rightarrow>
   zipc_status \<times> zipc_transport_receive_token option \<times> linux_host" where
  "zipc_platform_transport_receive_commit transport token h =
     (case (transport, token) of
        (Some t, Some k) \<Rightarrow>
          if \<not> tk_pending k \<or> tk_transport_cookie k \<noteq> t then (ZIPC_ERR_INVALID_ARGUMENT, token, h)
          else
            let x = lh_transport h t in
            if tk_transactional k \<and> tr_type x \<noteq> ZIPC_TRANSPORT_SHM_RING_EVENTFD \<and>
               tr_type x \<noteq> ZIPC_TRANSPORT_SHM_RING_POLLING
            then (ZIPC_ERR_INVALID_ARGUMENT, token, h)
            else
              let (status, h) =
                    (if tk_transactional k
                     then let (status, r) = zipc_linux_common_ring_commit (ring_at h (tr_ring x)) (ucast (tk_position k))
                          in (status, store_ring (tr_ring x) r h)
                     else (ZIPC_OK, h))
              in (status, Some (if status = ZIPC_OK then k\<lparr>tk_pending := False\<rparr> else k), h)
      | _ \<Rightarrow> (ZIPC_ERR_INVALID_ARGUMENT, token, h))"

definition zipc_platform_transport_receive_abort ::
  "nat option \<Rightarrow> zipc_transport_receive_token option \<Rightarrow> zipc_transport_receive_token option" where
  "zipc_platform_transport_receive_abort transport token =
     (case (transport, token) of
        (Some t, Some k) \<Rightarrow> if tk_transport_cookie k = t then Some (k\<lparr>tk_pending := False\<rparr>) else token
      | _ \<Rightarrow> token)"

subsection \<open>Other services of the platform\<close>

definition zipc_platform_transport_xen_local_port :: "nat option \<Rightarrow> u32" where
  "zipc_platform_transport_xen_local_port transport = 0"

definition zipc_platform_alloc :: "linux_host \<Rightarrow> nat option \<times> linux_host" where
  "zipc_platform_alloc h = (let (r, h) = os_call Sys_calloc h in (re_address r, h))"

definition zipc_platform_free :: "nat option \<Rightarrow> linux_host \<Rightarrow> linux_host" where
  "zipc_platform_free pointer h = (case pointer of None \<Rightarrow> h | Some a \<Rightarrow> os_do (Sys_free a) h)"

definition zipc_platform_time_ns :: "linux_host \<Rightarrow> u64 \<times> linux_host" where
  "zipc_platform_time_ns h =
     (let (r, h) = os_call Sys_clock h
      in (if re_value r \<noteq> 0 then 0 else re_sec r * 1000000000 + re_nsec r, h))"

text \<open>The entropy loop: \<open>got\<close> are the bytes read so far, \<open>len\<close> the number still missing. The kernel
  writes as many bytes as it reports.\<close>

partial_function (option) random_fill :: "nat \<Rightarrow> u8 list \<Rightarrow> linux_host \<Rightarrow> (zipc_status \<times> u8 list \<times> linux_host) option" where
  "random_fill len got h =
     (if len = 0 then Some (ZIPC_OK, got, h)
      else case os_call (Sys_getrandom len) h of (r, h) \<Rightarrow>
        if re_value r < 0
        then if re_errno r = EINTR then random_fill len got h
             else Some (ZIPC_ERR_ENTROPY_UNAVAILABLE, got, h)
        else if re_value r = 0 then Some (ZIPC_ERR_ENTROPY_UNAVAILABLE, got, h)
        else random_fill (len - nat (re_value r)) (got @ take (nat (re_value r)) (re_bytes r)) h)"

definition linux_platform_random :: "bool \<Rightarrow> nat \<Rightarrow> linux_host \<Rightarrow> (zipc_status \<times> u8 list \<times> linux_host) option" where
  "linux_platform_random buffer len h =
     (if \<not> buffer \<and> len \<noteq> 0 then Some (ZIPC_ERR_INVALID_ARGUMENT, [], h) else random_fill len [] h)"

end
