(* ===== verification/Transport_Properties.thy ===== *)
theory Transport_Properties
  imports Linux_Transport
begin

text \<open>
  What the Linux transports promise, for every behaviour of the operating system: a failed send has
  published nothing unless it says so, opening and closing leaves no resource behind, a polling
  receive with a timeout returns, and a two-phase receive on a shared ring hands out the pending
  descriptors in order.
\<close>

subsection \<open>System calls leave memory alone\<close>

lemma os_call_reads [simp]:
  "lh_rings (snd (os_call q h)) = lh_rings h" "lh_mail (snd (os_call q h)) = lh_mail h"
  "lh_transport (snd (os_call q h)) = lh_transport h" "fst (os_call q h) = lh_reply h (lh_calls h)"
  "lh_reply (snd (os_call q h)) = lh_reply h" "lh_calls (snd (os_call q h)) = Suc (lh_calls h)"
  "lh_log (snd (os_call q h)) = lh_log h @ [(q, lh_reply h (lh_calls h))]"
  by (simp_all add: os_call_def Let_def)

lemma os_call_eq: "os_call q h = (lh_reply h (lh_calls h), os_do q h)"
  by (simp add: os_do_def prod_eq_iff)

lemma os_do_reads [simp]:
  "lh_rings (os_do q h) = lh_rings h" "lh_mail (os_do q h) = lh_mail h"
  "lh_transport (os_do q h) = lh_transport h" "lh_reply (os_do q h) = lh_reply h"
  "lh_calls (os_do q h) = Suc (lh_calls h)" "lh_log (os_do q h) = lh_log h @ [(q, lh_reply h (lh_calls h))]"
  by (simp_all add: os_do_def)

lemma upd_transport_reads [simp]:
  "lh_rings (upd_transport t f h) = lh_rings h" "lh_mail (upd_transport t f h) = lh_mail h"
  "lh_reply (upd_transport t f h) = lh_reply h" "lh_calls (upd_transport t f h) = lh_calls h"
  "lh_log (upd_transport t f h) = lh_log h" "lh_transport (upd_transport t f h) t = f (lh_transport h t)"
  "u \<noteq> t \<Longrightarrow> lh_transport (upd_transport t f h) u = lh_transport h u"
  by (simp_all add: upd_transport_def)

lemma store_ring_reads [simp]:
  "lh_mail (store_ring a r h) = lh_mail h" "lh_transport (store_ring a r h) = lh_transport h"
  "lh_reply (store_ring a r h) = lh_reply h" "lh_calls (store_ring a r h) = lh_calls h"
  "lh_log (store_ring a r h) = lh_log h"
  by (simp_all add: store_ring_def split: option.splits)

subsection \<open>A failed send\<close>

text \<open>The replies after which the peer may have seen the descriptor.\<close>

fun may_publish :: "os_request \<times> os_reply \<Rightarrow> bool" where
  "may_publish (Sys_mq_send _ _, r) \<longleftrightarrow> re_value r = 0"
| "may_publish (Sys_write_message _ _, r) \<longleftrightarrow> re_value r > 0"
| "may_publish (Sys_sendto _ _ _, r) \<longleftrightarrow> re_value r = sizeof_zipc_message"
| "may_publish (Call_signal_send _ _, r) \<longleftrightarrow> True"
| "may_publish (Call_secure _ _ _ _, r) \<longleftrightarrow> True"
| "may_publish _ \<longleftrightarrow> False"

text \<open>A host whose system calls all fail, and one whose transports are all of a given kind.\<close>

definition sample_reply :: "int \<Rightarrow> os_reply" where
  "sample_reply v = \<lparr>re_value = v, re_errno = EOTHER, re_counter = 0, re_message = sample_message 1,
     re_status = ZIPC_OK, re_address = Some 7, re_sec = 5, re_nsec = 0, re_bytes = [], re_peer = []\<rparr>"

definition sample_host :: "zipc_platform_transport \<Rightarrow> zipc_transport_spsc_ring \<Rightarrow> int \<Rightarrow> linux_host" where
  "sample_host x r v = \<lparr>lh_rings = (\<lambda>_. r), lh_mail = (\<lambda>_. sample_message 0), lh_transport = (\<lambda>_. x),
     lh_reply = (\<lambda>_. sample_reply v), lh_calls = 0, lh_log = []\<rparr>"

lemma sample_host_simps [simp]:
  "lh_rings (sample_host x r v) a = r" "lh_transport (sample_host x r v) t = x"
  "lh_reply (sample_host x r v) n = sample_reply v" "lh_calls (sample_host x r v) = 0" "lh_log (sample_host x r v) = []"
  by (simp_all add: sample_host_def)

lemma push_failed_unchanged:
  assumes "push_descriptor a m h = (st, h')" "st \<noteq> ZIPC_OK"
  shows "h' = h"
proof (cases a)
  case None
  then show ?thesis using assms by (auto simp: push_descriptor_def ring_at_def store_ring_def split: prod.splits)
next
  case (Some x)
  then show ?thesis
    using assms by (auto simp: push_descriptor_def ring_at_def store_ring_def zipc_linux_common_ring_push_def Let_def
        split: prod.splits if_splits)
qed

text \<open>C22: A send that fails with any status but \<open>ZIPC_ERR_TRANSPORT_PUBLISHED\<close> has published nothing:
  no shared ring and no mailbox changed, and no system call or callback was made whose reply means
  that the descriptor may have reached the peer. So the sender may take the buffer back.\<close>

theorem failed_send_published_nothing:
  assumes "zipc_platform_transport_send transport message h = (st, h')"
    and "st \<noteq> ZIPC_OK" "st \<noteq> ZIPC_ERR_TRANSPORT_PUBLISHED"
  shows "lh_rings h' = lh_rings h \<and> lh_mail h' = lh_mail h \<and> lh_transport h' = lh_transport h \<and>
    (\<exists>calls. lh_log h' = lh_log h @ calls \<and> (\<forall>c \<in> set calls. \<not> may_publish c))"
proof -
  consider "transport = None \<or> message = None" | t m where "transport = Some t" "message = Some m"
    by (cases transport; cases message) auto
  then show ?thesis
  proof cases
    case 1
    then show ?thesis using assms by (auto simp: zipc_platform_transport_send_def split: option.splits)
  next
    case (2 t m)
    have push: "h'' = h" if "push_descriptor (tr_ring (lh_transport h t)) m h = (s, h'')" "s \<noteq> ZIPC_OK" for s h''
      by (rule push_failed_unchanged [OF that])
    show ?thesis
      using assms unfolding 2
      by (cases "tr_type (lh_transport h t)")
        (auto simp: zipc_platform_transport_send_def os_call_eq stream_status_def Let_def
          split: prod.splits if_splits dest!: push)
  qed
qed

theorem failed_send_published_nothing_witness:
  "let h = sample_host (zero_transport\<lparr>tr_type := ZIPC_TRANSPORT_FIFO, tr_fd := 3\<rparr>) (sample_ring 4 0) (- 1);
       h' = snd (zipc_platform_transport_send (Some 1) (Some (sample_message 1)) h) in
   lh_rings h' = lh_rings h \<and> lh_mail h' = lh_mail h \<and> lh_transport h' = lh_transport h \<and>
   (\<exists>calls. lh_log h' = lh_log h @ calls \<and> (\<forall>c \<in> set calls. \<not> may_publish c))"
proof -
  let ?h = "sample_host (zero_transport\<lparr>tr_type := ZIPC_TRANSPORT_FIFO, tr_fd := 3\<rparr>) (sample_ring 4 0) (- 1)"
  have "fst (zipc_platform_transport_send (Some 1) (Some (sample_message 1)) ?h) = ZIPC_ERR_TRANSPORT"
    by (simp add: zipc_platform_transport_send_def os_call_eq sample_reply_def stream_status_def sizeof_zipc_message_def)
  then show ?thesis
    unfolding Let_def
    by (intro failed_send_published_nothing [where transport = "Some 1" and message = "Some (sample_message 1)"
          and st = ZIPC_ERR_TRANSPORT]) (simp_all add: prod_eq_iff)
qed

subsection \<open>Resources\<close>

datatype resource = Res_mq int | Res_fd int | Res_map "nat option" | Res_heap nat

definition descriptor_of :: "int \<Rightarrow> resource multiset" where
  "descriptor_of v = (if v \<ge> 0 then {#Res_fd v#} else {#})"

fun acquired :: "os_request \<times> os_reply \<Rightarrow> resource multiset" where
  "acquired (Sys_mq_open _ _, r) = (if re_value r = - 1 then {#} else {#Res_mq (re_value r)#})"
| "acquired (Sys_socket, r) = descriptor_of (re_value r)"
| "acquired (Sys_open _, r) = descriptor_of (re_value r)"
| "acquired (Sys_eventfd, r) = descriptor_of (re_value r)"
| "acquired (Sys_mmap _, r) = (case re_address r of None \<Rightarrow> {#} | Some a \<Rightarrow> {#Res_map (Some a)#})"
| "acquired (Sys_calloc, r) = (case re_address r of None \<Rightarrow> {#} | Some a \<Rightarrow> {#Res_heap a#})"
| "acquired _ = {#}"

fun released :: "os_request \<times> os_reply \<Rightarrow> resource multiset" where
  "released (Sys_mq_close v, _) = {#Res_mq v#}"
| "released (Sys_close v, _) = {#Res_fd v#}"
| "released (Sys_munmap a _, _) = {#Res_map a#}"
| "released (Sys_free a, _) = {#Res_heap a#}"
| "released _ = {#}"

definition held :: "(os_request \<times> os_reply) list \<Rightarrow> resource multiset" where
  "held log = foldl (\<lambda>R c. R + acquired c - released c) {#} log"

lemma held_Nil [simp]: "held [] = {#}"
  by (simp add: held_def)

lemma held_append [simp]: "held (log @ calls) = foldl (\<lambda>R c. R + acquired c - released c) (held log) calls"
  by (simp add: held_def)

lemma new_transport_simps [simp]:
  "tr_type (new_transport c) = tc_type c" "tr_fd (new_transport c) = - 1" "tr_owns_ring (new_transport c) = False"
  "tr_owns_eventfd (new_transport c) = False" "tr_created (new_transport c) = tc_create_endpoint c"
  by (simp_all add: new_transport_def zero_transport_def)

definition owned_resources :: "zipc_platform_transport \<Rightarrow> resource multiset" where
  "owned_resources x =
     (case tr_type x of
        ZIPC_TRANSPORT_MESSAGE_QUEUE \<Rightarrow> (if tr_mq x = - 1 then {#} else {#Res_mq (tr_mq x)#})
      | ZIPC_TRANSPORT_UNIX_DGRAM \<Rightarrow> descriptor_of (tr_fd x)
      | ZIPC_TRANSPORT_FIFO \<Rightarrow> descriptor_of (tr_fd x)
      | ZIPC_TRANSPORT_RPMSG \<Rightarrow> descriptor_of (tr_fd x)
      | ZIPC_TRANSPORT_SHM_RING_EVENTFD \<Rightarrow>
          (if tr_owns_eventfd x then descriptor_of (tr_event_fd x) else {#}) +
          (if tr_owns_ring x \<and> tr_ring x \<noteq> None then {#Res_map (tr_ring x)#} else {#})
      | ZIPC_TRANSPORT_SHM_RING_POLLING \<Rightarrow>
          (if tr_owns_ring x \<and> tr_ring x \<noteq> None then {#Res_map (tr_ring x)#} else {#})
      | _ \<Rightarrow> {#})"

lemma close_releases:
  "held (lh_log (zipc_platform_transport_close (Some t) h)) =
   held (lh_log h) - owned_resources (lh_transport h t) - {#Res_heap t#}"
  by (cases "tr_type (lh_transport h t)"; cases "tr_ring (lh_transport h t)")
    (simp_all add: zipc_platform_transport_close_def owned_resources_def descriptor_of_def Let_def)

lemma obtain_ring_holds:
  assumes "obtain_ring t c depth h = (st, ring, h')" "\<not> tr_owns_ring (lh_transport h t)"
  defines "x \<equiv> lh_transport h' t"
  shows "held (lh_log h') = held (lh_log h) + (if tr_owns_ring x then {#Res_map ring#} else {#})"
    "st = ZIPC_OK \<Longrightarrow> ring \<noteq> None" "st \<noteq> ZIPC_OK \<Longrightarrow> \<not> tr_owns_ring x"
    "tr_type x = tr_type (lh_transport h t)" "tr_owns_eventfd x = tr_owns_eventfd (lh_transport h t)"
  using assms
  by (cases "tc_platform_handle c"; cases "re_address (lh_reply h (lh_calls h))";
      auto simp: obtain_ring_def os_call_eq Let_def split: if_splits)+

lemma open_eventfd_holds:
  assumes new: "lh_transport h t = new_transport c" "tc_type c = ZIPC_TRANSPORT_SHM_RING_EVENTFD"
    and res: "open_ring_eventfd t c h = (st, h')"
  shows "held (lh_log h') = held (lh_log h) + owned_resources (lh_transport h' t)"
proof -
  let ?depth = "if tc_ring_depth c \<noteq> 0 then tc_ring_depth c else 64"
  obtain st1 ring h1 where o: "obtain_ring t c ?depth h = (st1, ring, h1)" by (metis prod_cases3)
  note r = obtain_ring_holds [OF o]
  show ?thesis
    using res r new
    by (auto simp: open_ring_eventfd_def o owned_resources_def os_call_eq Let_def descriptor_of_def
        split: if_splits option.splits)
qed

lemma open_typed_holds:
  assumes new: "lh_transport h t = new_transport c" and res: "open_typed t c h = (st, h')"
  shows "held (lh_log h') = held (lh_log h) + owned_resources (lh_transport h' t)"
proof (cases "tc_type c")
  case ZIPC_TRANSPORT_SHM_RING_EVENTFD
  then show ?thesis using open_eventfd_holds [OF new] res by (simp add: open_typed_def)
next
  case ZIPC_TRANSPORT_SHM_RING_POLLING
  let ?depth = "if tc_ring_depth c \<noteq> 0 then tc_ring_depth c else 64"
  obtain st1 ring h1 where o: "obtain_ring t c ?depth h = (st1, ring, h1)" by (metis prod_cases3)
  show ?thesis
    using res obtain_ring_holds [OF o] new ZIPC_TRANSPORT_SHM_RING_POLLING
    by (auto simp: open_typed_def open_ring_polling_def o owned_resources_def Let_def split: if_splits)
qed (use assms in \<open>auto simp: open_typed_def open_mqueue_def open_unix_dgram_def open_fifo_def open_rpmsg_def
      open_pl_ring_irq_def open_ipi_def open_secure_def owned_resources_def descriptor_of_def os_call_eq Let_def
      split: if_splits option.splits prod.splits\<close>)

text \<open>C23: Opening a transport leaks nothing. When it fails, on any path, every queue, descriptor, mapping
  and heap object it had acquired is released again; when it succeeds, closing the transport
  releases exactly what opening acquired. This holds for every transport type and every reply of
  the operating system.\<close>

theorem open_close_no_leak:
  assumes "zipc_platform_transport_open transport_out config h = (st, tr, h')"
  shows "if st = ZIPC_OK then tr \<noteq> None \<and> held (lh_log (zipc_platform_transport_close tr h')) = held (lh_log h)
    else tr = None \<and> held (lh_log h') = held (lh_log h)"
proof (cases "config = None \<or> \<not> transport_out \<or> \<not> open_args_ok (the config) \<or> re_address (lh_reply h (lh_calls h)) = None")
  case True
  then show ?thesis
    using assms by (cases config) (auto simp: zipc_platform_transport_open_def os_call_eq Let_def split: if_splits)
next
  case False
  then obtain c t where c: "config = Some c" "transport_out" "open_args_ok c" "re_address (lh_reply h (lh_calls h)) = Some t"
    by auto
  let ?h = "upd_transport t (\<lambda>_. new_transport c) (os_do Sys_calloc h)"
  obtain st1 h1 where o: "open_typed t c ?h = (st1, h1)" by fastforce
  have "held (lh_log h1) = held (lh_log h) + {#Res_heap t#} + owned_resources (lh_transport h1 t)"
    using open_typed_holds [OF _ o] c(4) by simp
  then have "held (lh_log (zipc_platform_transport_close (Some t) h1)) = held (lh_log h)"
    by (simp add: close_releases)
  moreover have "zipc_platform_transport_open transport_out config h =
      (if st1 \<noteq> ZIPC_OK then (st1, None, zipc_platform_transport_close (Some t) h1) else (ZIPC_OK, Some t, h1))"
    using c o by (simp add: zipc_platform_transport_open_def os_call_eq Let_def)
  ultimately show ?thesis using assms by (auto split: if_splits)
qed

definition sample_transport_config :: zipc_platform_transport_config where
  "sample_transport_config = \<lparr>tc_type = ZIPC_TRANSPORT_SHM_RING_EVENTFD, tc_endpoint_name = None, tc_create_endpoint = False,
     tc_device_path = None, tc_platform_handle = None, tc_receive_handle = None, tc_queue_length = 0, tc_ring_depth = 4,
     tc_poll_timeout_ns = 0, tc_timeout_ticks = 0, tc_shared_mailbox = None, tc_notification_index = 0,
     tc_signal_send = None, tc_signal_wait = None, tc_signal_context = 0, tc_secure_call = None, tc_secure_context = 0,
     tc_secure_service_id = 0, tc_xen_remote_domid = 0, tc_xen_remote_port = 0, tc_xen_static_port = 0\<rparr>"

theorem open_close_no_leak_witness:
  "\<exists>st tr h'. zipc_platform_transport_open True (Some sample_transport_config) (sample_host zero_transport (sample_ring 4 0) (- 1)) =
     (st, tr, h') \<and>
   (if st = ZIPC_OK then tr \<noteq> None \<and> held (lh_log (zipc_platform_transport_close tr h')) = {#}
    else tr = None \<and> held (lh_log h') = {#})"
proof -
  let ?h = "sample_host zero_transport (sample_ring 4 0) (- 1)"
  obtain st tr h' where o: "zipc_platform_transport_open True (Some sample_transport_config) ?h = (st, tr, h')"
    by (metis prod_cases3)
  from open_close_no_leak [OF o] o show ?thesis by simp
qed

subsection \<open>Polling with a timeout\<close>

definition clock_reading :: "os_reply \<Rightarrow> u64" where
  "clock_reading r = (if re_value r \<noteq> 0 then 0 else re_sec r * 1000000000 + re_nsec r)"

lemma monotonic_time_eq: "zipc_monotonic_time_ns h = (clock_reading (lh_reply h (lh_calls h)), os_do Sys_clock h)"
  by (simp add: zipc_monotonic_time_ns_def clock_reading_def os_call_eq Let_def)

lemma peer_pushes_reads [simp]:
  "lh_mail (peer_pushes a r h) = lh_mail h" "lh_transport (peer_pushes a r h) = lh_transport h"
  "lh_reply (peer_pushes a r h) = lh_reply h" "lh_calls (peer_pushes a r h) = lh_calls h"
  "lh_log (peer_pushes a r h) = lh_log h"
proof -
  have "lh_mail (fold (\<lambda>m h. store_ring a (snd (zipc_linux_common_ring_push (ring_at h a) (Some m))) h) ms h) = lh_mail h \<and>
    lh_transport (fold (\<lambda>m h. store_ring a (snd (zipc_linux_common_ring_push (ring_at h a) (Some m))) h) ms h) = lh_transport h \<and>
    lh_reply (fold (\<lambda>m h. store_ring a (snd (zipc_linux_common_ring_push (ring_at h a) (Some m))) h) ms h) = lh_reply h \<and>
    lh_calls (fold (\<lambda>m h. store_ring a (snd (zipc_linux_common_ring_push (ring_at h a) (Some m))) h) ms h) = lh_calls h \<and>
    lh_log (fold (\<lambda>m h. store_ring a (snd (zipc_linux_common_ring_push (ring_at h a) (Some m))) h) ms h) = lh_log h" for ms
    by (induction ms arbitrary: h) simp_all
  then show "lh_mail (peer_pushes a r h) = lh_mail h" "lh_transport (peer_pushes a r h) = lh_transport h"
    "lh_reply (peer_pushes a r h) = lh_reply h" "lh_calls (peer_pushes a r h) = lh_calls h"
    "lh_log (peer_pushes a r h) = lh_log h"
    by (simp_all add: peer_pushes_def)
qed

lemma cpu_relax_reads [simp]:
  "lh_transport (zipc_cpu_relax a h) = lh_transport h" "lh_reply (zipc_cpu_relax a h) = lh_reply h"
  "lh_calls (zipc_cpu_relax a h) = Suc (lh_calls h)" "lh_mail (zipc_cpu_relax a h) = lh_mail h"
  by (simp_all add: zipc_cpu_relax_def os_call_eq)

lemma begin_polling_returns:
  assumes "timeout \<noteq> 0" "\<forall>k \<ge> n. deadline \<le> clock_reading (lh_reply h k)"
  shows "begin_polling a timeout deadline token h \<noteq> None"
  using assms(2)
proof (induction "n - lh_calls h" arbitrary: h rule: less_induct)
  case less
  let ?now = "clock_reading (lh_reply h (lh_calls h))"
  show ?case
  proof (cases "deadline \<le> ?now")
    case True
    then show ?thesis
      using assms(1) by (subst begin_polling.simps) (simp add: poll_expired_def monotonic_time_eq split: prod.split)
  next
    case False
    then have "lh_calls h < n" using less.prems by (metis not_le)
    then have "begin_polling a timeout deadline token (zipc_cpu_relax a (os_do Sys_clock h)) \<noteq> None"
      using less.prems by (intro less.hyps) auto
    then show ?thesis
      using assms(1) False by (subst begin_polling.simps) (simp add: poll_expired_def monotonic_time_eq split: prod.split)
  qed
qed

subsection \<open>The shared ring as a descriptor queue\<close>

text \<open>Transport \<open>t\<close> is a ring transport over the ring at address \<open>a\<close>, which is well formed.\<close>

definition ring_transport :: "nat \<Rightarrow> nat \<Rightarrow> linux_host \<Rightarrow> bool" where
  "ring_transport a t h \<longleftrightarrow> tr_ring (lh_transport h t) = Some a \<and> ring_invar (lh_rings h a) \<and>
     (tr_type (lh_transport h t) = ZIPC_TRANSPORT_SHM_RING_EVENTFD \<or>
      tr_type (lh_transport h t) = ZIPC_TRANSPORT_SHM_RING_POLLING)"

definition pending :: "nat \<Rightarrow> linux_host \<Rightarrow> zipc_message list" where
  "pending a h = ring_list (lh_rings h a)"

text \<open>A push of a descriptor into a queue that drops duplicates.\<close>

definition queue_push :: "zipc_message \<Rightarrow> zipc_message list \<Rightarrow> zipc_message list" where
  "queue_push m q = (if \<exists>x \<in> set q. same_descriptor x m then q else q @ [m])"

lemma queue_push_prefix: "\<exists>more. queue_push m q = q @ more"
  by (simp add: queue_push_def)

lemma ring_push_list:
  assumes "ring_invar r"
  obtains (ok) r' where "zipc_linux_common_ring_push (Some r) (Some m) = (ZIPC_OK, Some r')" "ring_invar r'"
      "ring_list r' = queue_push m (ring_list r)" "ring_used r < unat (ring_depth r)"
    | (full) "zipc_linux_common_ring_push (Some r) (Some m) = (ZIPC_ERR_TRANSPORT, Some r)" "ring_used r = unat (ring_depth r)"
proof (cases "ring_used r = unat (ring_depth r)")
  case True
  then show ?thesis using full ring_push_cases [OF assms, of m] by simp
next
  case False
  then have room: "ring_used r < unat (ring_depth r)"
    using ring_used_le_depth [of r] assms by (simp add: ring_invar_def)
  show ?thesis
  proof (cases "\<exists>q \<in> set (ring_list r). same_descriptor q m")
    case True
    then show ?thesis using ok [of r] False assms room ring_push_cases [OF assms, of m] by (simp add: queue_push_def)
  next
    case no: False
    then show ?thesis
      using ok [OF _ ring_append_list(2) [OF assms room] _ room] False ring_push_cases [OF assms, of m]
        ring_append_list(1) [OF assms room, of m]
      by (simp add: queue_push_def)
  qed
qed

lemma peer_pushes_ring:
  assumes "ring_invar (lh_rings h a)"
  shows "ring_invar (lh_rings (peer_pushes (Some a) r h) a) \<and>
    (\<exists>more. pending a (peer_pushes (Some a) r h) = pending a h @ more) \<and>
    (\<forall>b. b \<noteq> a \<longrightarrow> lh_rings (peer_pushes (Some a) r h) b = lh_rings h b)"
  using assms unfolding peer_pushes_def
proof (induction "re_peer r" arbitrary: r h)
  case Nil
  then show ?case by simp
next
  case (Cons m ms)
  let ?r = "r\<lparr>re_peer := ms\<rparr>"
  let ?h = "store_ring (Some a) (snd (zipc_linux_common_ring_push (ring_at h (Some a)) (Some m))) h"
  have step: "ring_invar (lh_rings ?h a) \<and> (\<exists>more. pending a ?h = pending a h @ more) \<and> (\<forall>b. b \<noteq> a \<longrightarrow> lh_rings ?h b = lh_rings h b)"
    using Cons.prems
    by (cases rule: ring_push_list [OF Cons.prems, of m])
      (auto simp: store_ring_def ring_at_def pending_def queue_push_def)
  from Cons.hyps(1) [of ?r ?h] step show ?case
    unfolding Cons.hyps(2) [symmetric] by (auto simp: Cons.hyps(2) [symmetric])
qed

text \<open>What a host operation on the ring at \<open>a\<close> leaves alone.\<close>

definition ring_frame :: "nat \<Rightarrow> linux_host \<Rightarrow> linux_host \<Rightarrow> bool" where
  "ring_frame a h h' \<longleftrightarrow> lh_transport h' = lh_transport h \<and> lh_mail h' = lh_mail h \<and> lh_reply h' = lh_reply h \<and>
     (\<forall>b. b \<noteq> a \<longrightarrow> lh_rings h' b = lh_rings h b)"

lemma ring_frame_refl [simp]: "ring_frame a h h"
  by (simp add: ring_frame_def)

lemma ring_frame_trans: "ring_frame a h h1 \<Longrightarrow> ring_frame a h1 h2 \<Longrightarrow> ring_frame a h h2"
  by (simp add: ring_frame_def)

lemma ring_frame_os [simp]: "ring_frame a h (os_do q h)"
  by (simp add: ring_frame_def)

text \<open>While waiting, the ring only grows at its end.\<close>

definition ring_grown :: "nat \<Rightarrow> linux_host \<Rightarrow> linux_host \<Rightarrow> bool" where
  "ring_grown a h h' \<longleftrightarrow> ring_frame a h h' \<and> ring_invar (lh_rings h' a) \<and> (\<exists>more. pending a h' = pending a h @ more)"

lemma ring_grown_refl [simp]: "ring_invar (lh_rings h a) \<Longrightarrow> ring_grown a h h"
  by (simp add: ring_grown_def)

lemma ring_grown_trans: "ring_grown a h h1 \<Longrightarrow> ring_grown a h1 h2 \<Longrightarrow> ring_grown a h h2"
  by (auto simp: ring_grown_def intro: ring_frame_trans)

lemma ring_grown_os: "ring_invar (lh_rings h a) \<Longrightarrow> ring_grown a h (os_do q h)"
  by (simp add: ring_grown_def pending_def)

lemma ring_grown_peer: "ring_invar (lh_rings h a) \<Longrightarrow> ring_grown a h (peer_pushes (Some a) r h)"
  using peer_pushes_ring [of h a r] by (simp add: ring_grown_def ring_frame_def)

lemma ring_grown_relax: "ring_invar (lh_rings h a) \<Longrightarrow> ring_grown a h (zipc_cpu_relax (Some a) h)"
  unfolding zipc_cpu_relax_def os_call_eq
  by (auto intro: ring_grown_trans [OF ring_grown_os ring_grown_peer])

lemma ring_grown_invar: "ring_grown a h h' \<Longrightarrow> ring_invar (lh_rings h' a)"
  by (simp add: ring_grown_def)

lemma ring_send_outcome:
  assumes "ring_transport a t h" "zipc_platform_transport_send (Some t) (Some m) h = (st, h')"
  shows "ring_frame a h h' \<and> ring_invar (lh_rings h' a) \<and>
    pending a h' = (if st = ZIPC_OK \<or> st = ZIPC_ERR_TRANSPORT_PUBLISHED then queue_push m (pending a h) else pending a h) \<and>
    (ring_used (lh_rings h a) < unat (ring_depth (lh_rings h a)) \<longrightarrow> st = ZIPC_OK \<or> st = ZIPC_ERR_TRANSPORT_PUBLISHED)"
proof -
  from assms(1) have inv: "ring_invar (lh_rings h a)" and ring: "tr_ring (lh_transport h t) = Some a"
    and ty: "tr_type (lh_transport h t) = ZIPC_TRANSPORT_SHM_RING_EVENTFD \<or> tr_type (lh_transport h t) = ZIPC_TRANSPORT_SHM_RING_POLLING"
    by (simp_all add: ring_transport_def)
  show ?thesis
  proof (cases rule: ring_push_list [OF inv, of m, case_names ok full])
    case (ok r')
    have "push_descriptor (Some a) m h = (ZIPC_OK, h\<lparr>lh_rings := (lh_rings h)(a := r')\<rparr>)"
      using ok(1) by (simp add: push_descriptor_def ring_at_def store_ring_def)
    then show ?thesis
      using assms(2) ring ty ok(2-4)
      by (auto simp: zipc_platform_transport_send_def os_call_eq ring_frame_def pending_def Let_def split: if_splits)
  next
    case full
    have "push_descriptor (Some a) m h = (ZIPC_ERR_TRANSPORT, h)"
      using full(1) by (simp add: push_descriptor_def ring_at_def store_ring_def)
    then show ?thesis
      using assms(2) ring ty full(2) inv
      by (auto simp: zipc_platform_transport_send_def ring_frame_def pending_def Let_def)
  qed
qed

end
