(* ===== verification/Ring_Transport.thy ===== *)
theory Ring_Transport
  imports Transport_Properties
begin

text \<open>
  The two-phase receive of the shared-ring transports: what the waiting loops return, and the
  contract of a ring endpoint with its producer and its consumer side, in the form that the link
  layer relies on.
\<close>

subsection \<open>The waiting loops\<close>

lemma read_event_grows:
  assumes "read_event ring fd h = Some y"
  shows "ring = Some a \<longrightarrow> ring_invar (lh_rings h a) \<longrightarrow> ring_grown a h (snd y)"
proof (rule read_event.raw_induct [OF _ assms,
      where P = "\<lambda>ring fd h y. ring = Some a \<longrightarrow> ring_invar (lh_rings h a) \<longrightarrow> ring_grown a h (snd y)"])
  fix f ring fd h y
  assume IH: "\<And>ring fd h y. f ring fd h = Some y \<Longrightarrow> ring = Some a \<longrightarrow> ring_invar (lh_rings h a) \<longrightarrow> ring_grown a h (snd y)"
    and eq: "(case os_call (Sys_read_event fd) h of (r, h) \<Rightarrow>
        let h = peer_pushes ring r h in
        if re_value r < 0 \<and> re_errno r = EINTR then f ring fd h else Some (r, h)) = Some y"
  show "ring = Some a \<longrightarrow> ring_invar (lh_rings h a) \<longrightarrow> ring_grown a h (snd y)"
  proof (intro impI)
    assume ring: "ring = Some a" and inv: "ring_invar (lh_rings h a)"
    let ?h = "peer_pushes (Some a) (lh_reply h (lh_calls h)) (os_do (Sys_read_event fd) h)"
    have g: "ring_grown a h ?h"
      by (rule ring_grown_trans [OF ring_grown_os [OF inv] ring_grown_peer]) (simp add: inv)
    then have "f ring fd ?h = Some y \<Longrightarrow> ring_grown a h (snd y)"
      using IH [of ring fd ?h y] ring ring_grown_trans ring_grown_invar by blast
    then show "ring_grown a h (snd y)"
      using eq g ring by (auto simp: os_call_eq Let_def split: if_splits)
  qed
qed

definition begin_result ::
  "zipc_status \<Rightarrow> nat \<Rightarrow> zipc_transport_receive_token \<Rightarrow> linux_host \<Rightarrow>
   zipc_status \<times> zipc_message option \<times> zipc_transport_receive_token \<times> linux_host \<Rightarrow> bool" where
  "begin_result failure a k0 h y \<longleftrightarrow> (case y of (st, m, k, h') \<Rightarrow> ring_grown a h h' \<and>
     (if st = ZIPC_OK
      then pending a h' \<noteq> [] \<and> m = Some (hd (pending a h')) \<and> k = ring_token (ring_consumer (lh_rings h' a)) k0
      else m = None \<and> st = failure \<and> pending a h = []))"

lemma begin_result_later:
  assumes "ring_grown a h h1" "pending a h = []" "begin_result failure a k h1 y"
  shows "begin_result failure a k h y"
  using assms ring_grown_trans by (auto simp: begin_result_def split: prod.splits if_splits)

lemma peek_pending:
  assumes "ring_invar (lh_rings h a)"
  shows "zipc_linux_common_ring_peek (ring_at h (Some a)) True True =
    (if pending a h = [] then (ZIPC_ERR_NO_BUFFER, None) else (ZIPC_OK, Some (hd (pending a h), ring_consumer (lh_rings h a))))"
  using ring_peek_cases [OF assms] by (simp add: ring_at_def pending_def)

lemma begin_eventfd_result:
  assumes "begin_eventfd ring fd k h = Some y"
  shows "ring = Some a \<longrightarrow> ring_invar (lh_rings h a) \<longrightarrow> begin_result ZIPC_ERR_TRANSPORT a k h y"
proof (rule begin_eventfd.raw_induct [OF _ assms,
      where P = "\<lambda>ring fd k h y. ring = Some a \<longrightarrow> ring_invar (lh_rings h a) \<longrightarrow> begin_result ZIPC_ERR_TRANSPORT a k h y"])
  fix f ring fd k h y
  assume IH: "\<And>ring fd k h y. f ring fd k h = Some y \<Longrightarrow> ring = Some a \<longrightarrow> ring_invar (lh_rings h a) \<longrightarrow> begin_result ZIPC_ERR_TRANSPORT a k h y"
    and eq: "(case zipc_linux_common_ring_peek (ring_at h ring) True True of (status, found) \<Rightarrow>
        if status = ZIPC_OK then Some (ZIPC_OK, Some (fst (the found)), ring_token (snd (the found)) k, h)
        else if status \<noteq> ZIPC_ERR_NO_BUFFER then Some (status, None, k, h)
        else case read_event ring fd h of None \<Rightarrow> None
          | Some (r, h) \<Rightarrow> if \<not> event_seen r then Some (ZIPC_ERR_TRANSPORT, None, k, h) else f ring fd k h) = Some y"
  show "ring = Some a \<longrightarrow> ring_invar (lh_rings h a) \<longrightarrow> begin_result ZIPC_ERR_TRANSPORT a k h y"
  proof (intro impI)
    assume ring: "ring = Some a" and inv: "ring_invar (lh_rings h a)"
    note peek = peek_pending [OF inv]
    show "begin_result ZIPC_ERR_TRANSPORT a k h y"
    proof (cases "pending a h = []")
      case False
      then show ?thesis using eq peek ring inv by (auto simp: begin_result_def)
    next
      case True
      then obtain r h1 where rd: "read_event (Some a) fd h = Some (r, h1)"
        using eq peek ring by (auto split: option.splits)
      then have g: "ring_grown a h h1" using read_event_grows [OF rd, of a] inv by simp
      show ?thesis
      proof (cases "event_seen r")
        case seen: True
        then have "f ring fd k h1 = Some y" using eq peek ring True rd by simp
        then have "begin_result ZIPC_ERR_TRANSPORT a k h1 y" using IH ring ring_grown_invar [OF g] by blast
        then show ?thesis by (rule begin_result_later [OF g True])
      next
        case False
        then show ?thesis using eq peek ring True rd g by (auto simp: begin_result_def)
      qed
    qed
  qed
qed

lemma poll_expired_grows:
  assumes "ring_invar (lh_rings h a)"
  shows "ring_grown a h (snd (poll_expired timeout deadline h))"
  using ring_grown_os [OF assms, of Sys_clock] assms by (simp add: poll_expired_def monotonic_time_eq)

lemma begin_polling_result:
  assumes "begin_polling ring timeout deadline k h = Some y"
  shows "ring = Some a \<longrightarrow> ring_invar (lh_rings h a) \<longrightarrow> begin_result ZIPC_ERR_TIMEOUT a k h y"
proof (rule begin_polling.raw_induct [OF _ assms,
      where P = "\<lambda>ring timeout deadline k h y. ring = Some a \<longrightarrow> ring_invar (lh_rings h a) \<longrightarrow> begin_result ZIPC_ERR_TIMEOUT a k h y"])
  fix f ring timeout deadline k h y
  assume IH: "\<And>ring timeout deadline k h y. f ring timeout deadline k h = Some y \<Longrightarrow>
      ring = Some a \<longrightarrow> ring_invar (lh_rings h a) \<longrightarrow> begin_result ZIPC_ERR_TIMEOUT a k h y"
    and eq: "(case zipc_linux_common_ring_peek (ring_at h ring) True True of (status, found) \<Rightarrow>
        if status = ZIPC_OK then Some (ZIPC_OK, Some (fst (the found)), ring_token (snd (the found)) k, h)
        else if status \<noteq> ZIPC_ERR_NO_BUFFER then Some (status, None, k, h)
        else case poll_expired timeout deadline h of (expired, h) \<Rightarrow>
          if expired then Some (ZIPC_ERR_TIMEOUT, None, k, h)
          else f ring timeout deadline k (zipc_cpu_relax ring h)) = Some y"
  show "ring = Some a \<longrightarrow> ring_invar (lh_rings h a) \<longrightarrow> begin_result ZIPC_ERR_TIMEOUT a k h y"
  proof (intro impI)
    assume ring: "ring = Some a" and inv: "ring_invar (lh_rings h a)"
    note peek = peek_pending [OF inv]
    show "begin_result ZIPC_ERR_TIMEOUT a k h y"
    proof (cases "pending a h = []")
      case False
      then show ?thesis using eq peek ring inv by (auto simp: begin_result_def)
    next
      case True
      obtain e h1 where ex: "poll_expired timeout deadline h = (e, h1)" by fastforce
      then have g: "ring_grown a h h1" using poll_expired_grows [OF inv, of timeout deadline] by simp
      let ?h2 = "zipc_cpu_relax ring h1"
      have g2: "ring_grown a h ?h2"
        unfolding ring by (rule ring_grown_trans [OF g ring_grown_relax [OF ring_grown_invar [OF g]]])
      show ?thesis
      proof (cases e)
        case False
        then have "f ring timeout deadline k ?h2 = Some y" using eq peek ring True ex by simp
        then have "begin_result ZIPC_ERR_TIMEOUT a k ?h2 y" using IH ring ring_grown_invar [OF g2] by blast
        then show ?thesis by (rule begin_result_later [OF g2 True])
      qed (use eq peek ring True ex g in \<open>auto simp: begin_result_def\<close>)
    qed
  qed
qed

subsection \<open>Two-phase receive on a ring endpoint\<close>

lemma ucast_down_up: "ucast (ucast (x :: u32) :: u64) = x"
  by (simp add: word_unat_eq_iff unsigned_ucast_eq take_bit_nat_eq_self_iff unat_u32_lt flip: unsigned_take_bit_eq) (simp add: take_bit_word_eq_self)

text \<open>How a receive without a descriptor ends: the timeout of a polling transport, a failed read of
  the event descriptor otherwise.\<close>

definition ring_failure :: "zipc_platform_transport \<Rightarrow> zipc_status" where
  "ring_failure x = (if tr_type x = ZIPC_TRANSPORT_SHM_RING_POLLING then ZIPC_ERR_TIMEOUT else ZIPC_ERR_TRANSPORT)"

definition token_for :: "nat \<Rightarrow> nat \<Rightarrow> linux_host \<Rightarrow> zipc_transport_receive_token" where
  "token_for a t h = ring_token (ring_consumer (lh_rings h a)) (zero_token\<lparr>tk_transport_cookie := t\<rparr>)"

lemma poll_deadline_grows:
  assumes "ring_invar (lh_rings h a)"
  shows "ring_grown a h (snd (poll_deadline timeout h))"
  using ring_grown_os [OF assms, of Sys_clock] assms by (simp add: poll_deadline_def monotonic_time_eq)

lemma receive_begin_outcome:
  assumes tr: "ring_transport a t h"
    and res: "zipc_platform_transport_receive_begin (Some t) True (Some k0) h = Some (st, m, k, h')"
  shows "ring_grown a h h' \<and>
    (if st = ZIPC_OK then pending a h' \<noteq> [] \<and> m = Some (hd (pending a h')) \<and> k = Some (token_for a t h')
     else m = None \<and> st = ring_failure (lh_transport h t) \<and> pending a h = [])"
proof -
  let ?x = "lh_transport h t" and ?k = "zero_token\<lparr>tk_transport_cookie := t\<rparr>"
  from tr have inv: "ring_invar (lh_rings h a)" and ring: "tr_ring ?x = Some a" by (simp_all add: ring_transport_def)
  have final: ?thesis if "begin_result (ring_failure ?x) a ?k h1 (st, m, k', h')" "k = Some k'" "ring_grown a h h1" for h1 k'
  proof -
    have "pending a h1 = [] \<Longrightarrow> pending a h = []" using that(3) by (auto simp: ring_grown_def)
    then show ?thesis
      using that ring_grown_trans by (auto simp: begin_result_def token_for_def split: if_splits)
  qed
  consider "tr_type ?x = ZIPC_TRANSPORT_SHM_RING_EVENTFD" | "tr_type ?x = ZIPC_TRANSPORT_SHM_RING_POLLING"
    using tr by (auto simp: ring_transport_def)
  then show ?thesis
  proof cases
    case 1
    then obtain k' where "begin_eventfd (Some a) (tr_event_fd ?x) ?k h = Some (st, m, k', h')" "k = Some k'"
      using res ring by (auto simp: zipc_platform_transport_receive_begin_def Let_def)
    then show ?thesis using final [of h] begin_eventfd_result [of "Some a"] inv 1 by (fastforce simp: ring_failure_def)
  next
    case 2
    obtain d h1 where d: "poll_deadline (tr_timeout_ns ?x) h = (d, h1)" by fastforce
    then have g: "ring_grown a h h1" using poll_deadline_grows [OF inv, of "tr_timeout_ns ?x"] by simp
    obtain k' where "begin_polling (Some a) (tr_timeout_ns ?x) d ?k h1 = Some (st, m, k', h')" "k = Some k'"
      using res ring 2 d by (auto simp: zipc_platform_transport_receive_begin_def Let_def)
    then show ?thesis using final [of h1] begin_polling_result [of "Some a"] g ring_grown_invar [OF g] 2 by (fastforce simp: ring_failure_def)
  qed
qed

lemma receive_begin_nonempty:
  assumes "ring_transport a t h" "pending a h \<noteq> []"
  shows "zipc_platform_transport_receive_begin (Some t) True (Some k0) h \<noteq> None"
proof -
  from assms have inv: "ring_invar (lh_rings h a)" and ring: "tr_ring (lh_transport h t) = Some a"
    by (simp_all add: ring_transport_def)
  have ev: "begin_eventfd (Some a) fd k h \<noteq> None" for fd k
    by (subst begin_eventfd.simps) (simp add: peek_pending [OF inv] assms(2))
  have po: "begin_polling (Some a) timeout d k h1 \<noteq> None" if "ring_grown a h h1" for timeout d k h1
  proof -
    have "pending a h1 \<noteq> []" using that assms(2) by (auto simp: ring_grown_def)
    then show ?thesis by (subst begin_polling.simps) (simp add: peek_pending [OF ring_grown_invar [OF that]])
  qed
  obtain d h1 where d: "poll_deadline (tr_timeout_ns (lh_transport h t)) h = (d, h1)" by fastforce
  then have "ring_grown a h h1" using poll_deadline_grows [OF inv, of "tr_timeout_ns (lh_transport h t)"] by simp
  then show ?thesis
    using assms(1) ev po d
    by (auto simp: ring_transport_def zipc_platform_transport_receive_begin_def ring Let_def simp del: not_None_eq)
qed

lemma receive_commit_outcome:
  assumes tr: "ring_transport a t h" and ne: "pending a h \<noteq> []"
  shows "\<exists>k' h'. zipc_platform_transport_receive_commit (Some t) (Some (token_for a t h)) h = (ZIPC_OK, Some k', h') \<and>
    pending a h' = tl (pending a h) \<and> ring_frame a h h' \<and> ring_invar (lh_rings h' a) \<and> \<not> tk_pending k'"
proof -
  let ?r = "lh_rings h a"
  from tr have inv: "ring_invar ?r" and ring: "tr_ring (lh_transport h t) = Some a" by (simp_all add: ring_transport_def)
  have "ring_consumer ?r \<noteq> ring_producer ?r" using ne ring_list_empty_iff by (simp add: pending_def)
  note adv = ring_advance_list [OF inv this]
  have "zipc_linux_common_ring_commit (Some ?r) (ucast (ucast (ring_consumer ?r) :: u64)) =
      (ZIPC_OK, Some (?r\<lparr>ring_consumer := ring_consumer ?r + 1\<rparr>))"
    using ring_commit_cases [OF inv] by (simp add: ucast_down_up)
  then show ?thesis
    using tr adv ring
    by (auto simp: zipc_platform_transport_receive_commit_def token_for_def ring_token_def ring_at_def store_ring_def
        ring_transport_def pending_def ring_frame_def zero_token_def Let_def)
qed

lemma spent_token_refused:
  "\<not> tk_pending k \<Longrightarrow> zipc_platform_transport_receive_commit (Some t) (Some k) x = (ZIPC_ERR_INVALID_ARGUMENT, Some k, x)"
  by (simp add: zipc_platform_transport_receive_commit_def)

text \<open>C20: On a shared-ring transport whose depth divides \<open>2^32\<close> a two-phase receive is exact. Begin
  returns the oldest pending descriptor without consuming it, and so does a second begin after an
  abandoned first one; commit with the token of begin consumes exactly that descriptor. A second
  commit with the token that the first returned is refused in every state and changes nothing, and
  so is a commit with an aborted token. While begin waits, descriptors are only added at the end.\<close>

theorem two_phase_receive:
  assumes "ring_transport a t h" "zipc_platform_transport_receive_begin (Some t) True (Some k0) h = Some (ZIPC_OK, m, k, h')"
  shows "\<exists>d more. m = Some d \<and> pending a h' = pending a h @ more \<and> d = hd (pending a h') \<and> pending a h' \<noteq> [] \<and>
    (case zipc_platform_transport_receive_begin (Some t) True (Some k0) h' of None \<Rightarrow> False
     | Some (st2, m2, k2, h2) \<Rightarrow> st2 = ZIPC_OK \<and> m2 = m) \<and>
    (case zipc_platform_transport_receive_commit (Some t) k h' of (st3, k3, h3) \<Rightarrow>
       st3 = ZIPC_OK \<and> pending a h3 = tl (pending a h') \<and> ring_transport a t h3 \<and>
       (\<forall>x. zipc_platform_transport_receive_commit (Some t) k3 x = (ZIPC_ERR_INVALID_ARGUMENT, k3, x))) \<and>
    (case zipc_platform_transport_receive_abort (Some t) k of k4 \<Rightarrow>
       \<forall>x. zipc_platform_transport_receive_commit (Some t) k4 x = (ZIPC_ERR_INVALID_ARGUMENT, k4, x))"
proof -
  from receive_begin_outcome [OF assms] have g: "ring_grown a h h'" and ne: "pending a h' \<noteq> []"
    and m: "m = Some (hd (pending a h'))" and k: "k = Some (token_for a t h')" by simp_all
  have tr': "ring_transport a t h'" using assms(1) g by (simp add: ring_transport_def ring_grown_def ring_frame_def)
  obtain st2 m2 k2 h2 where b: "zipc_platform_transport_receive_begin (Some t) True (Some k0) h' = Some (st2, m2, k2, h2)"
    using receive_begin_nonempty [OF tr' ne, of k0] by (metis not_None_eq prod_cases4)
  then have "st2 = ZIPC_OK" "m2 = m"
    using receive_begin_outcome [OF tr' b] ne m by (auto simp: ring_grown_def split: if_splits)
  moreover obtain k3 h3 where c: "zipc_platform_transport_receive_commit (Some t) k h' = (ZIPC_OK, Some k3, h3)"
    "pending a h3 = tl (pending a h')" "ring_frame a h' h3" "ring_invar (lh_rings h3 a)" "\<not> tk_pending k3"
    using receive_commit_outcome [OF tr' ne] k by auto
  moreover have "ring_transport a t h3" using tr' c(3,4) by (simp add: ring_transport_def ring_frame_def)
  moreover have "\<not> tk_pending (the (zipc_platform_transport_receive_abort (Some t) k))"
      "zipc_platform_transport_receive_abort (Some t) k \<noteq> None"
    by (simp_all add: k zipc_platform_transport_receive_abort_def token_for_def ring_token_def)
  ultimately show ?thesis
    using m ne g b spent_token_refused by (auto simp: ring_grown_def)
qed

definition sample_polling :: zipc_platform_transport where
  "sample_polling = zero_transport\<lparr>tr_type := ZIPC_TRANSPORT_SHM_RING_POLLING, tr_ring := Some 2, tr_timeout_ns := 100\<rparr>"

definition sample_filled_ring :: zipc_transport_spsc_ring where
  "sample_filled_ring = the (snd (zipc_linux_common_ring_push (Some (sample_ring 4 0)) (Some (sample_message 1))))"

lemma sample_filled_ring_simps [simp]: "ring_invar sample_filled_ring" "ring_list sample_filled_ring = [sample_message 1]"
proof -
  have "ring_invar sample_filled_ring \<and> ring_list sample_filled_ring = [sample_message 1]"
  proof (cases rule: ring_push_list [OF sample_ring_invar(1) [of 0], of "sample_message 1", case_names ok full])
    case (ok r')
    then show ?thesis by (simp add: sample_filled_ring_def sample_ring_invar queue_push_def)
  next
    case full
    then show ?thesis by (simp add: ring_used_def sample_ring_def)
  qed
  then show "ring_invar sample_filled_ring" "ring_list sample_filled_ring = [sample_message 1]" by simp_all
qed

lemma sample_polling_ring [simp]: "ring_transport 2 t (sample_host sample_polling sample_filled_ring v)"
  by (simp add: ring_transport_def sample_polling_def)

theorem two_phase_receive_witness:
  "let h = sample_host sample_polling sample_filled_ring 0 in
   \<exists>m k h'. zipc_platform_transport_receive_begin (Some 1) True (Some zero_token) h = Some (ZIPC_OK, m, k, h') \<and>
   (\<exists>d more. m = Some d \<and> pending 2 h' = pending 2 h @ more \<and> d = hd (pending 2 h') \<and> pending 2 h' \<noteq> [] \<and>
    (case zipc_platform_transport_receive_begin (Some 1) True (Some zero_token) h' of None \<Rightarrow> False
     | Some (st2, m2, k2, h2) \<Rightarrow> st2 = ZIPC_OK \<and> m2 = m) \<and>
    (case zipc_platform_transport_receive_commit (Some 1) k h' of (st3, k3, h3) \<Rightarrow>
       st3 = ZIPC_OK \<and> pending 2 h3 = tl (pending 2 h') \<and> ring_transport 2 1 h3 \<and>
       (\<forall>x. zipc_platform_transport_receive_commit (Some 1) k3 x = (ZIPC_ERR_INVALID_ARGUMENT, k3, x))) \<and>
    (case zipc_platform_transport_receive_abort (Some 1) k of k4 \<Rightarrow>
       \<forall>x. zipc_platform_transport_receive_commit (Some 1) k4 x = (ZIPC_ERR_INVALID_ARGUMENT, k4, x)))"
proof -
  let ?h = "sample_host sample_polling sample_filled_ring 0"
  have ne: "pending 2 ?h \<noteq> []" by (simp add: pending_def)
  obtain st m k h' where b: "zipc_platform_transport_receive_begin (Some 1) True (Some zero_token) ?h = Some (st, m, k, h')"
    using receive_begin_nonempty [OF sample_polling_ring ne] by (metis not_None_eq prod_cases4)
  then have "st = ZIPC_OK" using receive_begin_outcome [OF sample_polling_ring b] ne by (auto split: if_splits)
  note ok = b [unfolded this]
  show ?thesis
    unfolding Let_def
    by (rule exI [of _ m], rule exI [of _ k], rule exI [of _ h'], rule conjI [OF ok two_phase_receive [OF sample_polling_ring ok]])
qed

text \<open>C21: On a shared ring whose depth divides \<open>2^32\<close> a polling receive with a timeout always returns once
  the clock reaches its deadline, whatever the peer does: with the oldest pending descriptor, or with a timeout, and the latter only if
  nothing was pending when it was called.\<close>

theorem polling_receive_returns:
  assumes "ring_transport a t h" "tr_type (lh_transport h t) = ZIPC_TRANSPORT_SHM_RING_POLLING"
    and "tr_timeout_ns (lh_transport h t) \<noteq> 0"
    and "\<forall>i \<ge> n. fst (poll_deadline (tr_timeout_ns (lh_transport h t)) h) \<le> clock_reading (lh_reply h i)"
  shows "\<exists>st m k h'. zipc_platform_transport_receive_begin (Some t) True (Some k0) h = Some (st, m, k, h') \<and>
    (st = ZIPC_OK \<and> m = Some (hd (pending a h')) \<and> pending a h' \<noteq> [] \<or>
     st = ZIPC_ERR_TIMEOUT \<and> m = None \<and> pending a h = [])"
proof -
  let ?x = "lh_transport h t" and ?k = "zero_token\<lparr>tk_transport_cookie := t\<rparr>"
  obtain d h1 where d: "poll_deadline (tr_timeout_ns ?x) h = (d, h1)" by fastforce
  then have "lh_reply h1 = lh_reply h" by (auto simp: poll_deadline_def monotonic_time_eq split: if_splits)
  then have "begin_polling (Some a) (tr_timeout_ns ?x) d ?k h1 \<noteq> None"
    using begin_polling_returns [OF assms(3), of n d h1] assms(4) d by simp
  then obtain st m k h' where "zipc_platform_transport_receive_begin (Some t) True (Some k0) h = Some (st, m, k, h')"
    using assms(1,2) d by (fastforce simp: zipc_platform_transport_receive_begin_def ring_transport_def Let_def)
  with receive_begin_outcome [OF assms(1) this] assms(2) show ?thesis by (auto simp: ring_failure_def split: if_splits)
qed

text \<open>A host whose clock advances by a second after the first reading, over an empty ring.\<close>

definition sample_clock_host :: linux_host where
  "sample_clock_host = (sample_host sample_polling (sample_ring 4 0) 0)
     \<lparr>lh_reply := (\<lambda>n. if n = 0 then sample_reply 0 else (sample_reply 0)\<lparr>re_sec := 6\<rparr>)\<rparr>"

theorem polling_receive_returns_witness:
  "\<exists>st m k h'. zipc_platform_transport_receive_begin (Some 1) True (Some zero_token) sample_clock_host = Some (st, m, k, h') \<and>
    (st = ZIPC_OK \<and> m = Some (hd (pending 2 h')) \<and> pending 2 h' \<noteq> [] \<or>
     st = ZIPC_ERR_TIMEOUT \<and> m = None \<and> pending 2 sample_clock_host = [])"
proof (rule polling_receive_returns [where n = 1])
  show "ring_transport 2 1 sample_clock_host"
    by (simp add: sample_clock_host_def ring_transport_def sample_polling_def sample_ring_invar)
  show "tr_type (lh_transport sample_clock_host 1) = ZIPC_TRANSPORT_SHM_RING_POLLING"
    "tr_timeout_ns (lh_transport sample_clock_host 1) \<noteq> 0"
    by (simp_all add: sample_clock_host_def sample_polling_def)
  show "\<forall>i\<ge>1. fst (poll_deadline (tr_timeout_ns (lh_transport sample_clock_host 1)) sample_clock_host)
      \<le> clock_reading (lh_reply sample_clock_host i)"
    by (simp add: sample_clock_host_def sample_polling_def poll_deadline_def monotonic_time_eq clock_reading_def
        sample_reply_def UINT64_MAX_def)
qed

end
