(* ===== verification/Link.thy ===== *)
theory Link
  imports Buffer_View Ring_Transport
begin

text \<open>
  The link layer of \<^verbatim>\<open>src/core/zipc.c\<close>: links between two components over a pool and a transport,
  allocation, send and receive through a link, rollback of an unpublished send, the copying
  variants, and the reconciliation of a link after a restart. The platform the library is linked
  against is a record of its operations over a host state \<open>'w\<close>; \<open>linux_platform\<close> is the Linux user
  platform. \<open>s\<close> is the state of the pools, \<open>w\<close> that of the host.
\<close>

subsection \<open>The platform interface\<close>

record 'w platform_ops =
  op_open :: "zipc_platform_transport_config \<Rightarrow> 'w \<Rightarrow> zipc_status \<times> nat option \<times> 'w"
  op_close :: "nat option \<Rightarrow> 'w \<Rightarrow> 'w"
  op_send :: "nat option \<Rightarrow> zipc_message \<Rightarrow> 'w \<Rightarrow> zipc_status \<times> 'w"
  op_receive_begin :: "nat option \<Rightarrow> 'w \<Rightarrow> (zipc_status \<times> zipc_message option \<times> zipc_transport_receive_token option \<times> 'w) option"
  op_receive_commit :: "nat option \<Rightarrow> zipc_transport_receive_token option \<Rightarrow> 'w \<Rightarrow> zipc_status \<times> 'w"
  op_alloc :: "'w \<Rightarrow> nat option \<times> 'w"
  op_free :: "nat option \<Rightarrow> 'w \<Rightarrow> 'w"
  op_ring :: "nat option \<Rightarrow> 'w \<Rightarrow> zipc_transport_spsc_ring option"
  op_store_ring :: "nat option \<Rightarrow> zipc_transport_spsc_ring option \<Rightarrow> 'w \<Rightarrow> 'w"

definition linux_platform :: "linux_host platform_ops" where
  "linux_platform =
     \<lparr>op_open = (\<lambda>config h. zipc_platform_transport_open True (Some config) h),
      op_close = zipc_platform_transport_close,
      op_send = (\<lambda>t m h. zipc_platform_transport_send t (Some m) h),
      op_receive_begin = (\<lambda>t h. zipc_platform_transport_receive_begin t True (Some zero_token) h),
      op_receive_commit = (\<lambda>t k h. case zipc_platform_transport_receive_commit t k h of (status, _, h) \<Rightarrow> (status, h)),
      op_alloc = zipc_platform_alloc, op_free = zipc_platform_free,
      op_ring = (\<lambda>a h. ring_at h a), op_store_ring = store_ring\<rparr>"

subsection \<open>Links\<close>

datatype zipc_link_role = ZIPC_LINK_ROLE_UNSPECIFIED | ZIPC_LINK_ROLE_PRODUCER | ZIPC_LINK_ROLE_CONSUMER

record zipc_link_config =
  lc_pool :: "zipc_pool option"
  lc_local_component :: zipc_component_id
  lc_remote_component :: zipc_component_id
  lc_link_id :: u64
  lc_local_epoch :: u32
  lc_role :: zipc_link_role
  lc_hop_limit :: u32
  lc_default_deadline_ns :: u64
  lc_timeout_ticks :: u32
  lc_transport :: zipc_platform_transport_config

record zipc_link =
  lk_address :: nat
  lk_pool :: zipc_pool
  lk_transport :: "nat option"
  lk_local_component :: zipc_component_id
  lk_remote_component :: zipc_component_id
  lk_link_id :: u64
  lk_local_epoch :: u32
  lk_role :: zipc_link_role
  lk_transport_type :: zipc_platform_transport_type
  lk_recovery_ring :: "nat option"
  lk_hop_limit :: u32
  lk_default_deadline_ns :: u64
  lk_timeout_ticks :: u32

definition ring_type :: "zipc_platform_transport_type \<Rightarrow> bool" where
  "ring_type ty \<longleftrightarrow> ty = ZIPC_TRANSPORT_SHM_RING_EVENTFD \<or> ty = ZIPC_TRANSPORT_SHM_RING_POLLING"

definition zipc_link_create ::
  "'w platform_ops \<Rightarrow> bool \<Rightarrow> zipc_link_config option \<Rightarrow> sys \<Rightarrow> 'w \<Rightarrow> zipc_status \<times> zipc_link option \<times> 'w" where
  "zipc_link_create pf link_out config s w =
     (case config of
        None \<Rightarrow> (ZIPC_ERR_INVALID_ARGUMENT, None, w)
      | Some cfg \<Rightarrow>
          (case lc_pool cfg of
             None \<Rightarrow> (ZIPC_ERR_INVALID_ARGUMENT, None, w)
           | Some pool \<Rightarrow>
               if \<not> link_out \<or> \<not> zipc_component_id_valid (lc_local_component cfg) \<or>
                  \<not> zipc_component_id_valid (lc_remote_component cfg)
               then (ZIPC_ERR_INVALID_ARGUMENT, None, w)
               else if lc_local_epoch cfg \<noteq> 0 \<and>
                       \<not> component_epoch_current s (Some pool) (lc_local_component cfg) (lc_local_epoch cfg)
               then (ZIPC_ERR_COMPONENT_STALE, None, w)
               else
                 let (address, w) = op_alloc pf w in
                 case address of
                   None \<Rightarrow> (ZIPC_ERR_PLATFORM, None, w)
                 | Some a \<Rightarrow>
                     let (status, transport, w) = op_open pf (lc_transport cfg) w in
                     if status \<noteq> ZIPC_OK then (status, None, op_free pf address w)
                     else
                       (ZIPC_OK, Some
                         \<lparr>lk_address = a, lk_pool = pool, lk_transport = transport,
                          lk_local_component = lc_local_component cfg,
                          lk_remote_component = lc_remote_component cfg,
                          lk_link_id = lc_link_id cfg,
                          lk_local_epoch = (if lc_local_epoch cfg \<noteq> 0 then lc_local_epoch cfg
                                            else registered_epoch s (Some pool) (lc_local_component cfg)),
                          lk_role = lc_role cfg,
                          lk_transport_type = tc_type (lc_transport cfg),
                          lk_recovery_ring = (if ring_type (tc_type (lc_transport cfg))
                                              then tc_platform_handle (lc_transport cfg) else None),
                          lk_hop_limit = (if lc_hop_limit cfg \<noteq> 0 then lc_hop_limit cfg else ZIPC_HOP_LIMIT_UNLIMITED),
                          lk_default_deadline_ns = lc_default_deadline_ns cfg,
                          lk_timeout_ticks = lc_timeout_ticks cfg\<rparr>, w)))"

definition zipc_link_destroy :: "'w platform_ops \<Rightarrow> zipc_link option \<Rightarrow> 'w \<Rightarrow> 'w" where
  "zipc_link_destroy pf link w =
     (case link of None \<Rightarrow> w
      | Some l \<Rightarrow> op_free pf (Some (lk_address l)) (op_close pf (lk_transport l) w))"

definition link_stale :: "sys \<Rightarrow> zipc_link \<Rightarrow> bool" where
  "link_stale s l \<longleftrightarrow> lk_local_epoch l \<noteq> 0 \<and>
     \<not> component_epoch_current s (Some (lk_pool l)) (lk_local_component l) (lk_local_epoch l)"

subsection \<open>Allocation\<close>

text \<open>\<open>same_buffer\<close> says whether the parent pointer is the buffer pointer itself.\<close>

definition zipc_buffer_alloc_ex ::
  "zipc_link option \<Rightarrow> u64 \<Rightarrow> u64 \<Rightarrow> u64 \<Rightarrow> zipc_buffer option \<Rightarrow> zipc_buffer option \<Rightarrow> bool \<Rightarrow> sys \<Rightarrow>
   (zipc_status \<times> zipc_buffer option \<times> sys) option" where
  "zipc_buffer_alloc_ex link bytes headroom tailroom buffer parent same_buffer s =
     (case (link, buffer) of
        (Some l, Some b) \<Rightarrow>
          if bytes > ucast UINT32_MAX \<or> headroom > ucast UINT32_MAX \<or> tailroom > ucast UINT32_MAX
          then Some (ZIPC_ERR_INVALID_ARGUMENT, buffer, s)
          else if link_stale s l then Some (ZIPC_ERR_COMPONENT_STALE, buffer, s)
          else if headroom + bytes < headroom \<or> headroom + bytes + tailroom < bytes \<or>
                  headroom + bytes + tailroom > ucast (ph_slot_capacity (hdr s (lk_pool l)))
          then Some (ZIPC_ERR_REGION_OVERFLOW, buffer, s)
          else if same_buffer then Some (ZIPC_ERR_INVALID_ARGUMENT, buffer, s)
          else if parent \<noteq> None \<and> \<not> buffer_owned s parent then Some (ZIPC_ERR_INVALID_BUFFER, buffer, s)
          else
            let parent_id = (if parent \<noteq> None then bi_id (sc_identity (buffer_control s parent)) else 0)
            in buffer_allocate_internal (Some (lk_pool l)) (lk_local_component l) parent_id (ucast headroom)
                 (ucast bytes) (lk_local_epoch l) (lk_hop_limit l) (lk_default_deadline_ns l) True
                 (buffer_invalidate buffer) s
      | _ \<Rightarrow> Some (ZIPC_ERR_INVALID_ARGUMENT, buffer, s))"

definition zipc_buffer_alloc ::
  "zipc_link option \<Rightarrow> u64 \<Rightarrow> zipc_buffer option \<Rightarrow> zipc_buffer option \<Rightarrow> bool \<Rightarrow> sys \<Rightarrow>
   (zipc_status \<times> zipc_buffer option \<times> sys) option" where
  "zipc_buffer_alloc link bytes buffer parent same_buffer s =
     zipc_buffer_alloc_ex link bytes 0 0 buffer parent same_buffer s"

definition zipc_buffer_get ::
  "zipc_link option \<Rightarrow> u32 \<Rightarrow> zipc_buffer option \<Rightarrow> sys \<Rightarrow> (zipc_status \<times> zipc_buffer option \<times> sys) option" where
  "zipc_buffer_get link headroom buffer s = zipc_buffer_alloc_ex link 0 (ucast headroom) 0 buffer None False s"

subsection \<open>Send\<close>

definition rollback_transfer :: "zipc_link \<Rightarrow> zipc_buffer \<Rightarrow> zipc_message \<Rightarrow> sys \<Rightarrow> zipc_status \<times> sys" where
  "rollback_transfer l b m s =
     (case buf_control b of
        None \<Rightarrow> (ZIPC_ERR_RECOVERY_REQUIRED, s)
      | Some c \<Rightarrow>
          if sc_state (slot_of s c) \<noteq> ZIPC_SLOT_TRANSFER then (ZIPC_ERR_RECOVERY_REQUIRED, s)
          else
            let claim = claim_token_make ZIPC_CLAIM_ROLLBACK (lk_local_component l) (lk_local_epoch l);
                s = upd_slot c (\<lambda>sl. sl\<lparr>sc_claim_previous_sequence := msg_transfer_sequence m - 1\<rparr>) s
            in case cas_claim_token c 0 claim s of
                 (False, _, s) \<Rightarrow> (ZIPC_ERR_RECOVERY_REQUIRED, s)
               | (True, _, s) \<Rightarrow>
                   (case cas_state c ZIPC_SLOT_TRANSFER ZIPC_SLOT_CLAIMING s of
                      (False, s) \<Rightarrow> (ZIPC_ERR_RECOVERY_REQUIRED, clear_claim_token c claim s)
                    | (True, s) \<Rightarrow>
                        if sc_generation (slot_of s c) \<noteq> zipc_handle_generation (msg_handle m) \<or>
                           sc_owner_id (slot_of s c) \<noteq> lk_local_component l \<or>
                           sc_next_owner_id (slot_of s c) \<noteq> lk_remote_component l \<or>
                           sc_transfer_sequence (slot_of s c) \<noteq> msg_transfer_sequence m
                        then (ZIPC_ERR_RECOVERY_REQUIRED, back_out c ZIPC_SLOT_TRANSFER claim s)
                        else
                          let s = upd_slot c (\<lambda>sl. sl\<lparr>sc_next_owner_id := ZIPC_INVALID_COMPONENT_ID,
                                    sc_transfer_sequence := msg_transfer_sequence m - 1,
                                    sc_owner_id := lk_local_component l\<rparr>) s;
                              (status, s) = protect_slot (Some (lk_pool l)) (buf_slot_id b) True s
                          in if status \<noteq> ZIPC_OK then (status, s)
                             else (ZIPC_OK, back_out c ZIPC_SLOT_OWNED claim s)))"

definition trace_send_error :: "zipc_link \<Rightarrow> zipc_message \<Rightarrow> sys \<Rightarrow> sys" where
  "trace_send_error l m s =
     trace_external_event (Some (lk_pool l)) (msg_handle m) (msg_transfer_sequence m) (lk_local_component l) ZIPC_TRACE_ERROR s"

definition zipc_send ::
  "'w platform_ops \<Rightarrow> zipc_link option \<Rightarrow> zipc_buffer option \<Rightarrow> sys \<Rightarrow> 'w \<Rightarrow>
   zipc_status \<times> zipc_buffer option \<times> sys \<times> 'w" where
  "zipc_send pf link buffer s w =
     (case (link, buffer) of
        (Some l, Some b) \<Rightarrow>
          if \<not> buffer_owned s buffer then (ZIPC_ERR_INVALID_BUFFER, buffer, s, w)
          else if link_stale s l \<or> buf_owner_epoch b \<noteq> lk_local_epoch l
          then (ZIPC_ERR_COMPONENT_STALE, buffer, s, w)
          else if buf_pool b \<noteq> Some (lk_pool l) \<or> buf_owner b \<noteq> lk_local_component l
          then (ZIPC_ERR_NOT_OWNER, buffer, s, w)
          else
            (case buffer_prepare_transfer_internal (Some (lk_pool l)) (buf_handle b) (lk_local_component l)
                    (lk_remote_component l) (lk_link_id l) True s of
               (status, message, s) \<Rightarrow>
                 if status \<noteq> ZIPC_OK then (status, buffer, s, w)
                 else
                   let m = the message; (status, w) = op_send pf (lk_transport l) m w in
                   if status = ZIPC_ERR_TRANSPORT_PUBLISHED
                   then (status, buffer_invalidate buffer, trace_send_error l m s, w)
                   else if status \<noteq> ZIPC_OK
                   then
                     let (rollback_status, s) = rollback_transfer l b m s in
                     if rollback_status \<noteq> ZIPC_OK
                     then (rollback_status, buffer_invalidate buffer, trace_send_error l m s, w)
                     else (status, buffer, s, w)
                   else (ZIPC_OK, buffer_invalidate buffer, s, w))
      | _ \<Rightarrow> (ZIPC_ERR_INVALID_ARGUMENT, buffer, s, w))"

definition zipc_send_timeout ::
  "'w platform_ops \<Rightarrow> zipc_link option \<Rightarrow> zipc_buffer option \<Rightarrow> u32 \<Rightarrow> sys \<Rightarrow> 'w \<Rightarrow>
   zipc_status \<times> zipc_buffer option \<times> sys \<times> 'w" where
  "zipc_send_timeout pf link buffer timeout_ticks s w = zipc_send pf link buffer s w"

subsection \<open>Receive\<close>

definition skip_status :: "zipc_status \<Rightarrow> bool" where
  "skip_status status \<longleftrightarrow> status = ZIPC_ERR_INVALID_STATE \<or> status = ZIPC_ERR_STALE_HANDLE \<or>
     status = ZIPC_ERR_SEQUENCE_MISMATCH"

partial_function (option) recv_loop ::
  "'w platform_ops \<Rightarrow> zipc_link \<Rightarrow> zipc_buffer option \<Rightarrow> sys \<Rightarrow> 'w \<Rightarrow>
   (zipc_status \<times> zipc_buffer option \<times> sys \<times> 'w) option" where
  "recv_loop pf l buffer s w =
     (case op_receive_begin pf (lk_transport l) w of
        None \<Rightarrow> None
      | Some (status, message, token, w) \<Rightarrow>
          if status \<noteq> ZIPC_OK then Some (status, buffer, s, w)
          else if msg_source_component (the message) \<noteq> lk_remote_component l
          then Some (ZIPC_ERR_INVALID_RECEIVER, buffer, record_protocol_error (lk_pool l) None (lk_local_component l) s,
                 snd (op_receive_commit pf (lk_transport l) token w))
          else
            (case zipc_buffer_claim (Some (lk_pool l)) message (lk_local_component l) buffer s of
               (status, buffer, s) \<Rightarrow>
                 (case op_receive_commit pf (lk_transport l) token w of
                    (commit_status, w) \<Rightarrow>
                      if status = ZIPC_OK
                      then if commit_status \<noteq> ZIPC_OK
                           then Some (ZIPC_ERR_RECOVERY_REQUIRED, buffer_invalidate buffer, s, w)
                           else Some (ZIPC_OK, map_option (\<lambda>b. b\<lparr>buf_owner := lk_local_component l\<rparr>) buffer, s, w)
                      else if skip_status status then recv_loop pf l (buffer_invalidate buffer) s w
                      else Some (status, buffer, s, w))))"

definition zipc_recv ::
  "'w platform_ops \<Rightarrow> zipc_link option \<Rightarrow> zipc_buffer option \<Rightarrow> sys \<Rightarrow> 'w \<Rightarrow>
   (zipc_status \<times> zipc_buffer option \<times> sys \<times> 'w) option" where
  "zipc_recv pf link buffer s w =
     (case (link, buffer) of
        (Some l, Some b) \<Rightarrow>
          if link_stale s l then Some (ZIPC_ERR_COMPONENT_STALE, buffer, s, w)
          else recv_loop pf l (buffer_invalidate buffer) s w
      | _ \<Rightarrow> Some (ZIPC_ERR_INVALID_ARGUMENT, buffer, s, w))"

definition zipc_recv_timeout ::
  "'w platform_ops \<Rightarrow> zipc_link option \<Rightarrow> zipc_buffer option \<Rightarrow> u32 \<Rightarrow> sys \<Rightarrow> 'w \<Rightarrow>
   (zipc_status \<times> zipc_buffer option \<times> sys \<times> 'w) option" where
  "zipc_recv_timeout pf link buffer timeout_ticks s w = zipc_recv pf link buffer s w"

definition zipc_receive ::
  "'w platform_ops \<Rightarrow> zipc_link option \<Rightarrow> zipc_buffer option \<Rightarrow> sys \<Rightarrow> 'w \<Rightarrow>
   (zipc_status \<times> zipc_buffer option \<times> sys \<times> 'w) option" where
  "zipc_receive pf link buffer s w = zipc_recv pf link buffer s w"

definition zipc_receive_timeout ::
  "'w platform_ops \<Rightarrow> zipc_link option \<Rightarrow> zipc_buffer option \<Rightarrow> u32 \<Rightarrow> sys \<Rightarrow> 'w \<Rightarrow>
   (zipc_status \<times> zipc_buffer option \<times> sys \<times> 'w) option" where
  "zipc_receive_timeout pf link buffer timeout_ticks s w = zipc_recv_timeout pf link buffer timeout_ticks s w"

subsection \<open>Release and the copying variants\<close>

definition zipc_buffer_release :: "zipc_buffer option \<Rightarrow> sys \<Rightarrow> zipc_status \<times> zipc_buffer option \<times> sys" where
  "zipc_buffer_release buffer s =
     (case buffer of
        None \<Rightarrow> (ZIPC_ERR_INVALID_ARGUMENT, buffer, s)
      | Some b \<Rightarrow>
          if \<not> buffer_owned s buffer then (ZIPC_ERR_INVALID_BUFFER, buffer, s)
          else
            let (status, s) = zipc_pool_buffer_release (buf_pool b) (buf_handle b) (buf_owner b) s
            in (status, if status = ZIPC_OK then buffer_invalidate buffer else buffer, s))"

definition zipc_buffer_put ::
  "zipc_link option \<Rightarrow> zipc_buffer option \<Rightarrow> sys \<Rightarrow> zipc_status \<times> zipc_buffer option \<times> sys" where
  "zipc_buffer_put link buffer s =
     (case (link, buffer) of
        (Some l, Some b) \<Rightarrow>
          if \<not> buffer_owned s buffer then (ZIPC_ERR_INVALID_BUFFER, buffer, s)
          else if buf_pool b \<noteq> Some (lk_pool l) \<or> buf_owner b \<noteq> lk_local_component l
          then (ZIPC_ERR_NOT_OWNER, buffer, s)
          else zipc_buffer_release buffer s
      | _ \<Rightarrow> (ZIPC_ERR_INVALID_ARGUMENT, buffer, s))"

text \<open>The local \<open>zipc_buffer_t\<close> of the copying variants is uninitialised; every path writes it
  before it is read.\<close>

definition zipc_send_copy ::
  "'w platform_ops \<Rightarrow> zipc_link option \<Rightarrow> u8 list option \<Rightarrow> u64 \<Rightarrow> sys \<Rightarrow> 'w \<Rightarrow> (zipc_status \<times> sys \<times> 'w) option" where
  "zipc_send_copy pf link data bytes s w =
     (if bytes \<noteq> 0 \<and> data = None then Some (ZIPC_ERR_INVALID_ARGUMENT, s, w)
      else case zipc_buffer_alloc link bytes (Some buffer_zero) None False s of
        None \<Rightarrow> None
      | Some (status, buffer, s) \<Rightarrow>
          if status \<noteq> ZIPC_OK then Some (status, s, w)
          else
            let s = (if bytes \<noteq> 0
                     then store_bytes (the (buf_pool (the buffer))) (the (zipc_buffer_data buffer s))
                            (take (unat bytes) (the data)) s
                     else s);
                (status, buffer, s, w) = zipc_send pf link buffer s w;
                s = (if status \<noteq> ZIPC_OK \<and> zipc_buffer_is_valid buffer s
                     then snd (snd (zipc_buffer_release buffer s)) else s)
            in Some (status, s, w))"

text \<open>Besides the status the result holds \<open>actual_size\<close> and the bytes copied to the caller.\<close>

definition zipc_recv_copy ::
  "'w platform_ops \<Rightarrow> zipc_link option \<Rightarrow> bool \<Rightarrow> u64 \<Rightarrow> bool \<Rightarrow> sys \<Rightarrow> 'w \<Rightarrow>
   (zipc_status \<times> u64 option \<times> u8 list \<times> sys \<times> 'w) option" where
  "zipc_recv_copy pf link data capacity actual_size_out s w =
     (if \<not> actual_size_out \<or> (capacity \<noteq> 0 \<and> \<not> data) then Some (ZIPC_ERR_INVALID_ARGUMENT, None, [], s, w)
      else case zipc_recv pf link (Some buffer_zero) s w of
        None \<Rightarrow> None
      | Some (status, buffer, s, w) \<Rightarrow>
          if status \<noteq> ZIPC_OK then Some (status, None, [], s, w)
          else
            let actual = zipc_buffer_size buffer s in
            if actual > capacity
            then Some (ZIPC_ERR_BUFFER_TOO_SMALL, Some actual, [], snd (snd (zipc_buffer_release buffer s)), w)
            else
              let copied = (if actual \<noteq> 0
                            then load_bytes (the (buf_pool (the buffer))) (the (zipc_buffer_data buffer s)) (unat actual) s
                            else []);
                  (status, _, s) = zipc_buffer_release buffer s
              in Some (status, Some actual, copied, s, w))"

subsection \<open>Reconciliation after a restart\<close>

text \<open>One iteration of the slot loop: go on, go on with one more transfer recovered, or return.\<close>

datatype 'w reconcile_outcome = Reconcile_Next sys 'w | Reconcile_Recovered sys 'w | Reconcile_Stop zipc_status sys 'w

definition dead_token :: "zipc_restart \<Rightarrow> u64 \<Rightarrow> bool" where
  "dead_token r token \<longleftrightarrow> claim_token_component token = rs_component r \<and> claim_token_epoch token = rs_dead_epoch r"

definition matching_kind :: "zipc_link \<Rightarrow> u64 \<Rightarrow> bool" where
  "matching_kind l token \<longleftrightarrow>
     (let kind = claim_token_kind token in
      if lk_role l = ZIPC_LINK_ROLE_PRODUCER then kind = ZIPC_CLAIM_SEND \<or> kind = ZIPC_CLAIM_ROLLBACK
      else kind = ZIPC_CLAIM_RECEIVE)"

definition reconcile_claiming ::
  "zipc_link \<Rightarrow> zipc_restart \<Rightarrow> zipc_slot_id \<Rightarrow> u64 \<Rightarrow> sys \<Rightarrow> 'w \<Rightarrow> 'w reconcile_outcome" where
  "reconcile_claiming l r i token s w =
     (let c = slot_ptr (lk_pool l) i in
      if \<not> matching_kind l token \<or> \<not> dead_token r token then Reconcile_Next s w
      else case cas_state c ZIPC_SLOT_CLAIMING ZIPC_SLOT_ERROR s of
        (False, s) \<Rightarrow> Reconcile_Next s w
      | (True, s) \<Rightarrow>
          if lk_role l = ZIPC_LINK_ROLE_PRODUCER
          then Reconcile_Next (store_state c ZIPC_SLOT_OWNED
                 (upd_slot c (\<lambda>sl. sl\<lparr>sc_transfer_sequence := sc_claim_previous_sequence sl,
                    sc_next_owner_id := ZIPC_INVALID_COMPONENT_ID, sc_claim_token := 0\<rparr>) s)) w
          else
            (case protect_slot (Some (lk_pool l)) i False s of
               (protect_status, s) \<Rightarrow>
                 if protect_status \<noteq> ZIPC_OK
                 then Reconcile_Stop protect_status (store_state c ZIPC_SLOT_CLAIMING s) w
                 else Reconcile_Next (store_state c ZIPC_SLOT_TRANSFER
                        (upd_slot c (\<lambda>sl. sl\<lparr>sc_owner_id := sc_transfer_source_id sl,
                           sc_next_owner_id := rs_component r,
                           sc_owner_epoch := sc_transfer_source_epoch sl,
                           sc_hop_count := sc_transfer_hop_count sl,
                           sc_acquired_ns := sc_transfer_acquired_ns sl,
                           sc_visited := sc_transfer_visited sl, sc_claim_token := 0\<rparr>) s)) w))"

text \<open>A transfer of the dead epoch over this link is sent again.\<close>

definition reconcile_transfer ::
  "'w platform_ops \<Rightarrow> zipc_link \<Rightarrow> zipc_restart \<Rightarrow> zipc_slot_id \<Rightarrow> sys \<Rightarrow> 'w \<Rightarrow> 'w reconcile_outcome" where
  "reconcile_transfer pf l r i s w =
     (let c = slot_ptr (lk_pool l) i;
          transfer_token = sc_claim_token (slot_of s c);
          s = (if claim_token_kind transfer_token = ZIPC_CLAIM_ROLLBACK \<and> dead_token r transfer_token
               then snd (snd (cas_claim_token c transfer_token 0 s)) else s)
      in case cas_state c ZIPC_SLOT_TRANSFER ZIPC_SLOT_ERROR s of
           (False, s) \<Rightarrow> Reconcile_Next s w
         | (True, s) \<Rightarrow>
             if sc_owner_id (slot_of s c) \<noteq> rs_component r \<or> sc_owner_epoch (slot_of s c) \<noteq> rs_dead_epoch r \<or>
                sc_next_owner_id (slot_of s c) \<noteq> lk_remote_component l \<or>
                sc_transfer_link_id (slot_of s c) \<noteq> lk_link_id l
             then Reconcile_Next (store_state c ZIPC_SLOT_TRANSFER s) w
             else
               let message = \<lparr>msg_handle = zipc_handle_make i (sc_generation (slot_of s c)),
                              msg_pool_id = pool_pool_id (lk_pool l), msg_source_component = rs_component r,
                              msg_destination_component = lk_remote_component l,
                              msg_transfer_sequence = sc_transfer_sequence (slot_of s c), msg_flags = 0\<rparr>;
                   s = store_state c ZIPC_SLOT_TRANSFER s;
                   (status, w) = op_send pf (lk_transport l) message w
               in if status \<noteq> ZIPC_OK \<and> status \<noteq> ZIPC_ERR_TRANSPORT_PUBLISHED then Reconcile_Stop status s w
                  else Reconcile_Recovered s w)"

definition reconcile_slot ::
  "'w platform_ops \<Rightarrow> zipc_link \<Rightarrow> zipc_restart \<Rightarrow> zipc_slot_id \<Rightarrow> sys \<Rightarrow> 'w \<Rightarrow> 'w reconcile_outcome" where
  "reconcile_slot pf l r i s w =
     (let c = slot_ptr (lk_pool l) i;
          state = sc_state (slot_of s c);
          observed_token = sc_claim_token (slot_of s c)
      in if lk_role l = ZIPC_LINK_ROLE_CONSUMER \<and> state = ZIPC_SLOT_TRANSFER \<and>
            claim_token_kind observed_token = ZIPC_CLAIM_RECEIVE \<and> dead_token r observed_token
         then Reconcile_Next (clear_claim_token c observed_token s) w
         else if state = ZIPC_SLOT_CLAIMING then reconcile_claiming l r i observed_token s w
         else if lk_role l \<noteq> ZIPC_LINK_ROLE_PRODUCER \<or> state \<noteq> ZIPC_SLOT_TRANSFER then Reconcile_Next s w
         else reconcile_transfer pf l r i s w)"

fun reconcile_scan ::
  "'w platform_ops \<Rightarrow> zipc_link \<Rightarrow> zipc_restart \<Rightarrow> u32 \<Rightarrow> nat \<Rightarrow> u32 \<Rightarrow> sys \<Rightarrow> 'w \<Rightarrow>
   zipc_status \<times> u32 \<times> sys \<times> 'w" where
  "reconcile_scan pf l r i 0 recovered s w = (ZIPC_OK, recovered, s, w)"
| "reconcile_scan pf l r i (Suc remaining) recovered s w =
     (case reconcile_slot pf l r i s w of
        Reconcile_Next s w \<Rightarrow> reconcile_scan pf l r (i + 1) remaining recovered s w
      | Reconcile_Recovered s w \<Rightarrow> reconcile_scan pf l r (i + 1) remaining (recovered + 1) s w
      | Reconcile_Stop status s w \<Rightarrow> (status, recovered, s, w))"

text \<open>The consumer side drops descriptors at the head of the ring that no longer name a transfer.\<close>

definition descriptor_live :: "zipc_pool \<Rightarrow> sys \<Rightarrow> zipc_message \<Rightarrow> bool" where
  "descriptor_live p s m \<longleftrightarrow>
     (let slot_id = zipc_handle_slot_id (msg_handle m) in
      \<not> slot_id \<ge> ph_slot_count (hdr s p) \<and>
      (let slot = slot_of s (slot_ptr p slot_id) in
       sc_state slot = ZIPC_SLOT_TRANSFER \<and> sc_generation slot = zipc_handle_generation (msg_handle m)))"

function reconcile_ring :: "zipc_pool \<Rightarrow> sys \<Rightarrow> zipc_transport_spsc_ring \<Rightarrow> zipc_transport_spsc_ring" where
  "reconcile_ring p s r =
     (if ring_consumer r = ring_producer r then r
      else if descriptor_live p s (ring_entries r ! ring_index r (ring_consumer r)) then r
      else reconcile_ring p s (r\<lparr>ring_consumer := ring_consumer r + 1\<rparr>))"
  by pat_completeness auto

termination reconcile_ring
  by (relation "measure (\<lambda>(p, s, r). unat (ring_producer r - ring_consumer r))")
    (auto simp: unat_distance_step)

declare reconcile_ring.simps [simp del]

text \<open>The result holds the number written to \<open>recovered_transfers\<close>, if it is written.\<close>

definition zipc_link_reconcile ::
  "'w platform_ops \<Rightarrow> zipc_link option \<Rightarrow> zipc_restart option \<Rightarrow> sys \<Rightarrow> 'w \<Rightarrow>
   zipc_status \<times> u32 option \<times> sys \<times> 'w" where
  "zipc_link_reconcile pf link restart s w =
     (case (link, restart) of
        (Some l, Some r) \<Rightarrow>
          if rs_pool r = None \<or> Some (lk_pool l) \<noteq> rs_pool r \<or> lk_local_component l \<noteq> rs_component r \<or>
             lk_local_epoch l \<noteq> rs_epoch r \<or> lk_link_id l = 0 \<or> rs_epoch r \<noteq> rs_dead_epoch r + 1 \<or>
             \<not> component_epoch_recovering s (rs_pool r) (rs_component r) (rs_epoch r)
          then (ZIPC_ERR_INVALID_ARGUMENT, None, s, w)
          else if \<not> ring_type (lk_transport_type l) then (ZIPC_ERR_RECOVERY_UNSUPPORTED, None, s, w)
          else if lk_role l \<noteq> ZIPC_LINK_ROLE_PRODUCER \<and> lk_role l \<noteq> ZIPC_LINK_ROLE_CONSUMER
          then (ZIPC_ERR_INVALID_ARGUMENT, None, s, w)
          else if lk_recovery_ring l = None then (ZIPC_ERR_RECOVERY_UNSUPPORTED, None, s, w)
          else
            let (status, recovered, s, w) =
                  reconcile_scan pf l r 0 (unat (ph_slot_count (hdr s (lk_pool l)))) 0 s w
            in if status \<noteq> ZIPC_OK then (status, Some recovered, s, w)
               else
                 let w = (if lk_role l = ZIPC_LINK_ROLE_CONSUMER
                          then op_store_ring pf (lk_recovery_ring l)
                                 (map_option (reconcile_ring (lk_pool l) s) (op_ring pf (lk_recovery_ring l) w)) w
                          else w)
                 in (ZIPC_OK, Some recovered, s, w)
      | _ \<Rightarrow> (ZIPC_ERR_INVALID_ARGUMENT, None, s, w))"

end
