(* ===== verification/Link_Channel.thy ===== *)
theory Link_Channel
  imports Link
begin

text \<open>
  The contract of a descriptor channel as the link layer uses it, and what the link operations of
  \<^verbatim>\<open>zipc.c\<close> do over any channel that keeps it. Each platform port provides an instance.
\<close>

subsection \<open>Rollback\<close>

text \<open>The slot of a buffer whose transfer was prepared and rolled back: as before, but for the trace
  and the fields that only a transfer or a recovery reads. On a pool with strict ownership the pages
  of the slot may refuse to be opened again; the rollback then stops with the slot in \<open>CLAIMING\<close>
  under its token.\<close>

lemma rollback_outcome:
  fixes p h s l
  defines "c \<equiv> slot_ptr p (zipc_handle_slot_id h)"
  defines "q \<equiv> sc_transfer_sequence (slot_of s c)" and "tok \<equiv> claim_token_make ZIPC_CLAIM_ROLLBACK (lk_local_component l) (lk_local_epoch l)"
  assumes inv: "pool_inv s p"
    and prep: "buffer_prepare_transfer_internal (Some p) h (lk_local_component l) (lk_remote_component l) link True s =
      (ZIPC_OK, Some m, t)"
    and l: "lk_pool l = p" and b: "buf_control b = Some c" "buf_slot_id b = zipc_handle_slot_id h"
  obtains u n e st k where "rollback_transfer l b m t = (e, u)" "frame {c} s u" "sys_gen u = sys_gen s" "hdr u p = hdr s p"
    "slot_of u c = (add_trace n (lk_local_component l) ZIPC_TRACE_SEND (transfer_fields (lk_local_component l) (lk_remote_component l) link
       ((slot_of s c)\<lparr>sc_claim_previous_sequence := q\<rparr>)))\<lparr>sc_claim_previous_sequence := q, sc_next_owner_id := ZIPC_INVALID_COMPONENT_ID,
         sc_transfer_sequence := q, sc_owner_id := lk_local_component l, sc_state := st, sc_claim_token := k\<rparr>"
    "owned_by s p h (lk_local_component l)"
    "e = ZIPC_OK \<and> st = ZIPC_SLOT_OWNED \<and> k = 0 \<or>
     e \<noteq> ZIPC_OK \<and> e \<noteq> ZIPC_ERR_TRANSPORT_PUBLISHED \<and> pool_flags p AND ZIPC_POOL_F_STRICT_OWNERSHIP \<noteq> 0 \<and>
     st = ZIPC_SLOT_CLAIMING \<and> k = tok"
proof (cases rule: prepare_outcome [OF pool_inv_shape [OF inv], of h "lk_local_component l" "lk_remote_component l" link True, case_names ok refused])
  case (ok t' n)
  then have tt: "t' = t" and m: "m = transfer_message p h (lk_local_component l) (lk_remote_component l) (q + 1)"
    using prep by (simp_all add: c_def q_def)
  have own: "owned_by s p h (lk_local_component l)" using ok(3) by (simp add: send_ready_def)
  have shape_t: "pool_shape t p" using pool_shape_frame [OF pool_inv_shape [OF inv] ok(4)] tt by simp
  have cok: "slot_ptr_ok t c"
    using own shape_t ok(6) tt by (simp add: slot_ptr_ok_iff owned_by_def c_def)
  note sl = ok(7) [folded c_def, unfolded tt]
  have gen: "sc_generation (slot_of s c) = zipc_handle_generation h" "sc_owner_id (slot_of s c) = lk_local_component l"
    using own by (simp_all add: owned_by_def c_def Let_def)
  let ?w = "upd_slot c (\<lambda>x. x\<lparr>sc_claim_previous_sequence := q, sc_claim_token := tok, sc_state := ZIPC_SLOT_CLAIMING,
      sc_next_owner_id := ZIPC_INVALID_COMPONENT_ID, sc_transfer_sequence := q, sc_owner_id := lk_local_component l\<rparr>) t"
  obtain e x where pr: "protect_slot (Some p) (zipc_handle_slot_id h) True ?w = (e, x)" by fastforce
  then have x: "slot_of x = slot_of ?w" "hdr x = hdr t" "sys_gen x = sys_gen t" "slot_ptr_ok x = slot_ptr_ok t" "frame {c} s x"
    using protect_slot_reads [of "Some p" "zipc_handle_slot_id h" True ?w] frame_protect [OF pr, of "{c}" s] ok(4) tt
    by (simp_all add: c_def slot_frame fun_eq_iff)
  have run: "rollback_transfer l b m t = (if e \<noteq> ZIPC_OK then (e, x) else (ZIPC_OK, back_out c ZIPC_SLOT_OWNED tok x))"
    using cok l gen pr
    by (simp add: rollback_transfer_def b sl m transfer_message_def cas_claim_token_def cas_state_def tok_def
        store_state_def clear_claim_token_def transfer_fields_def q_def Let_def)
  show thesis
  proof (cases "e = ZIPC_OK")
    case True
    let ?u = "back_out c ZIPC_SLOT_OWNED tok x"
    show thesis
      by (rule that [where e = ZIPC_OK and u = ?u and n = n and st = ZIPC_SLOT_OWNED and k = 0])
        (use True run x cok sl ok(4-6) own tt in \<open>simp_all add: c_def slot_frame q_def back_out_def\<close>)
  next
    case False
    have "e \<noteq> ZIPC_ERR_TRANSPORT_PUBLISHED" using protect_slot_status [of "Some p" "zipc_handle_slot_id h" True ?w] pr by auto
    then show thesis
      by (intro that [where e = e and u = x and n = n and st = ZIPC_SLOT_CLAIMING and k = tok])
        (use False run x cok sl ok(4-6) own tt protect_slot_fails [OF pr] in \<open>simp_all add: c_def slot_frame q_def\<close>)
  qed
next
  case (refused e t')
  then show thesis using prep by simp
qed

lemma cut_short_frame:
  assumes inv: "pool_inv s p" and lt: "i < ph_slot_count (hdr s p)" and x: "holds_slot p i s t sl'" and cut: "cut_short p s i sl'"
  shows "pool_inv t p \<and> own_star (pool_abs s p) (pool_abs t p)"
proof -
  have fr: "frame {slot_ptr p i} s t" and gen: "sys_gen t = sys_gen s" and sl: "slot_of t (slot_ptr p i) = sl'"
    using x by (simp_all add: holds_slot_def)
  have "pool_inv t p"
    using inv gen cut_short_slot [OF inv lt cut] by (intro pool_inv_frame [OF inv fr]) (simp_all add: sl pool_inv_def gens_ready_def)
  then show ?thesis
    using cut_short_slot [OF inv lt cut] own_star_frame [OF pool_inv_shape [OF inv] fr lt] by (simp add: sl)
qed

text \<open>A rollback, completed or refused, from any state of the pool.\<close>

lemma rollback_sound:
  assumes inv: "pool_inv s p" and l: "lk_pool l = p" and b: "buf_control b = Some (slot_ptr p i)" "buf_slot_id b = i"
    and lt: "i < ph_slot_count (hdr s p)" and res: "rollback_transfer l b m s = (e, t)"
  shows "pool_inv t p \<and> own_star (pool_abs s p) (pool_abs t p)"
proof (cases "sc_state (slot_of s (slot_ptr p i)) = ZIPC_SLOT_TRANSFER")
  case False
  then have "t = s" using res b by (simp add: rollback_transfer_def)
  then show ?thesis using inv by simp
next
  case True
  let ?c = "slot_ptr p i" and ?q = "msg_transfer_sequence m - 1"
  let ?tok = "claim_token_make ZIPC_CLAIM_ROLLBACK (lk_local_component l) (lk_local_epoch l)"
  define sl where "sl = (slot_of s ?c)\<lparr>sc_claim_previous_sequence := ?q\<rparr>"
  define s1 where "s1 = upd_slot ?c (\<lambda>sl. sl\<lparr>sc_claim_previous_sequence := ?q\<rparr>) s"
  have s1: "holds_slot p i s s1 sl" unfolding s1_def sl_def by (rule holds_slot_steps(1) [OF holds_slot_start(1) [OF inv lt]])
  then have sl1: "slot_of s1 ?c = sl" by (simp add: holds_slot_def)
  have token: "cut_short p s i (sl\<lparr>sc_claim_token := k\<rparr>)" for k
    using cut_short.rollback_token [OF True, of k ?q] by (simp add: token_taken_def sl_def)
  define s2 where "s2 = upd_slot ?c (\<lambda>x. x\<lparr>sc_claim_token := ?tok, sc_state := ZIPC_SLOT_CLAIMING\<rparr>) s1"
  have s2: "holds_slot p i s s2 (sl\<lparr>sc_claim_token := ?tok, sc_state := ZIPC_SLOT_CLAIMING\<rparr>)"
    unfolding s2_def by (rule holds_slot_steps(1) [OF s1])
  define s3 where "s3 = upd_slot ?c (\<lambda>x. x\<lparr>sc_next_owner_id := ZIPC_INVALID_COMPONENT_ID, sc_transfer_sequence := ?q,
      sc_owner_id := lk_local_component l\<rparr>) s2"
  let ?sl3 = "sl\<lparr>sc_claim_token := ?tok, sc_state := ZIPC_SLOT_CLAIMING, sc_next_owner_id := ZIPC_INVALID_COMPONENT_ID,
      sc_transfer_sequence := ?q, sc_owner_id := lk_local_component l\<rparr>"
  have s3: "holds_slot p i s s3 ?sl3" using holds_slot_steps(1) [OF s2] by (simp add: s3_def)
  obtain e' x where pr: "protect_slot (Some p) i True s3 = (e', x)" by fastforce
  note x = holds_slot_steps(3) [OF s3 pr]
  let ?match = "sc_generation sl = zipc_handle_generation (msg_handle m) \<and> sc_owner_id sl = lk_local_component l \<and>
      sc_next_owner_id sl = lk_remote_component l \<and> sc_transfer_sequence sl = msg_transfer_sequence m"
  have ok: "slot_ptr_ok s1 ?c" "slot_ptr_ok s2 ?c" "slot_of s2 ?c = sl\<lparr>sc_claim_token := ?tok, sc_state := ZIPC_SLOT_CLAIMING\<rparr>"
    "sc_state sl = ZIPC_SLOT_TRANSFER"
    using s1 s2 True by (simp_all add: holds_slot_def sl_def)
  have run: "rollback_transfer l b m s =
      (if sc_claim_token sl \<noteq> 0 then (ZIPC_ERR_RECOVERY_REQUIRED, s1)
       else if \<not> ?match then (ZIPC_ERR_RECOVERY_REQUIRED, back_out ?c ZIPC_SLOT_TRANSFER ?tok s2)
       else if e' \<noteq> ZIPC_OK then (e', x) else (ZIPC_OK, back_out ?c ZIPC_SLOT_OWNED ?tok x))"
    using True ok pr l b
    by (auto simp: rollback_transfer_def cas_claim_token_def cas_state_def s1_def [symmetric] sl1 s2_def s3_def Let_def)
  have back_slot: "holds_slot p i s (back_out ?c st ?tok y) (z\<lparr>sc_state := st, sc_claim_token := 0\<rparr>)"
    if "holds_slot p i s y z" "sc_claim_token z = ?tok" for y z st
    using holds_slot_steps(4) [OF holds_slot_steps(2) [OF that(1), of st], of ?tok] that(2) by (simp add: back_out_def)
  consider (taken) "t = s1" | (other) "t = back_out ?c ZIPC_SLOT_TRANSFER ?tok s2"
    | (stuck) "t = x" ?match | (rolled) "t = back_out ?c ZIPC_SLOT_OWNED ?tok x" ?match
    using res unfolding run by (auto split: if_splits)
  then show ?thesis
  proof cases
    case taken
    then show ?thesis using cut_short_frame [OF inv lt s1] token [of "sc_claim_token sl"] by simp
  next
    case other
    have "sl\<lparr>sc_claim_token := ?tok, sc_state := ZIPC_SLOT_CLAIMING, sc_state := ZIPC_SLOT_TRANSFER, sc_claim_token := 0\<rparr> = sl\<lparr>sc_claim_token := 0\<rparr>"
      using ok(4) by (cases sl) simp
    then show ?thesis using cut_short_frame [OF inv lt back_slot [OF s2]] token [of 0] other by simp
  next
    case stuck
    have "claim_token_kind ?tok = ZIPC_CLAIM_ROLLBACK" by simp
    note cut_short.rollback_writing [OF True this, of ?q ZIPC_INVALID_COMPONENT_ID ?q]
    moreover have "?sl3 = (claiming ?tok sl)\<lparr>sc_next_owner_id := ZIPC_INVALID_COMPONENT_ID, sc_transfer_sequence := ?q\<rparr>"
      using stuck(2) by (cases sl) (simp add: claiming_def)
    ultimately show ?thesis using cut_short_frame [OF inv lt x] stuck(1) by (simp add: sl_def)
  next
    case rolled
    note cut_short.rollback_stored [OF True, of ?q 0 ?q]
    moreover have "?sl3\<lparr>sc_state := ZIPC_SLOT_OWNED, sc_claim_token := 0\<rparr> = sl\<lparr>sc_claim_token := 0,
        sc_next_owner_id := ZIPC_INVALID_COMPONENT_ID, sc_transfer_sequence := ?q, sc_state := ZIPC_SLOT_OWNED\<rparr>"
      using rolled(2) by (cases sl) simp
    ultimately show ?thesis using cut_short_frame [OF inv lt back_slot [OF x]] rolled(1) by (simp add: sl_def)
  qed
qed

lemma current_view_same:
  assumes "current_view s p v" "frame C s t" "length (ph_components (hdr s p)) = 256"
    and "sc_region (slot_of t (slot_ptr p (buf_slot_id v))) = sc_region (slot_of s (slot_ptr p (buf_slot_id v)))"
      "sc_owner_id (slot_of t (slot_ptr p (buf_slot_id v))) = sc_owner_id (slot_of s (slot_ptr p (buf_slot_id v)))"
      "sc_owner_epoch (slot_of t (slot_ptr p (buf_slot_id v))) = sc_owner_epoch (slot_of s (slot_ptr p (buf_slot_id v)))"
      "sc_generation (slot_of t (slot_ptr p (buf_slot_id v))) = sc_generation (slot_of s (slot_ptr p (buf_slot_id v)))"
      "sc_state (slot_of t (slot_ptr p (buf_slot_id v))) = ZIPC_SLOT_OWNED"
  shows "current_view t p v"
proof -
  note f = current_view_fields [OF assms(1)]
  have h: "ph_slot_count (hdr t p) = ph_slot_count (hdr s p)" "ph_slot_stride (hdr t p) = ph_slot_stride (hdr s p)"
    "ph_slot_capacity (hdr t p) = ph_slot_capacity (hdr s p)"
    using assms(2) by (simp_all add: frame_def hdr_static_def)
  have "registered_epoch t (Some p) (buf_owner v) = registered_epoch s (Some p) (buf_owner v)"
    using registered_epoch_frame [OF assms(2), of "Some p" "buf_owner v"] assms(3) by simp
  then have "buffer_owned t (Some v)"
    using f(1,2,7) assms(4-8) by (simp add: buffer_owned_def Let_def)
  moreover have "slot_view p (buf_handle v) (hdr t p) (slot_of t (slot_ptr p (zipc_handle_slot_id (buf_handle v)))) =
      slot_view p (buf_handle v) (hdr s p) (slot_of s (slot_ptr p (zipc_handle_slot_id (buf_handle v))))"
    using assms(4-6) f(12) h by (intro slot_view_cong) simp_all
  ultimately show ?thesis
    using assms(1) h by (simp add: current_view_def)
qed

text \<open>After a rollback the sender has its buffer back: the same view, nothing transferred.\<close>

definition buffer_kept :: "zipc_pool \<Rightarrow> zipc_buffer \<Rightarrow> sys \<Rightarrow> sys \<Rightarrow> bool" where
  "buffer_kept p v s t \<longleftrightarrow> implements p s None t \<and> current_view t p v \<and>
     (let c = slot_ptr p (buf_slot_id v) in
      sc_transfer_sequence (slot_of t c) = sc_transfer_sequence (slot_of s c) \<and>
      sc_identity (slot_of t c) = sc_identity (slot_of s c) \<and> sc_visited (slot_of t c) = sc_visited (slot_of s c) \<and>
      sc_hop_count (slot_of t c) = sc_hop_count (slot_of s c))"

text \<open>After a rollback that could not open the pages, ownership and payload are as before and the slot
  waits in \<open>CLAIMING\<close>, under a token of the sender, for the restart of the sender.\<close>

definition buffer_suspended :: "zipc_pool \<Rightarrow> zipc_link \<Rightarrow> zipc_buffer \<Rightarrow> sys \<Rightarrow> sys \<Rightarrow> bool" where
  "buffer_suspended p l v s t \<longleftrightarrow> pool_inv t p \<and> pool_abs t p = pool_abs s p \<and> payload_of t = payload_of s \<and>
     (let sl = slot_of t (slot_ptr p (buf_slot_id v)) in
      sc_state sl = ZIPC_SLOT_CLAIMING \<and> sc_owner_id sl = lk_local_component l \<and>
      sc_claim_token sl = claim_token_make ZIPC_CLAIM_ROLLBACK (lk_local_component l) (lk_local_epoch l) \<and>
      sc_transfer_sequence sl = sc_transfer_sequence (slot_of s (slot_ptr p (buf_slot_id v))))"

lemma rollback_keeps_buffer:
  assumes inv: "pool_inv s p" and cur: "current_view s p v"
    and prep: "buffer_prepare_transfer_internal (Some p) (buf_handle v) (lk_local_component l) (lk_remote_component l) link True s =
      (ZIPC_OK, Some m, t)"
    and l: "lk_pool l = p"
  obtains (kept) u where "rollback_transfer l v m t = (ZIPC_OK, u)" "buffer_kept p v s u"
    | (stuck) e u where "rollback_transfer l v m t = (e, u)" "e \<noteq> ZIPC_OK" "e \<noteq> ZIPC_ERR_TRANSPORT_PUBLISHED"
      "pool_flags p AND ZIPC_POOL_F_STRICT_OWNERSHIP \<noteq> 0" "buffer_suspended p l v s u"
proof -
  note f = current_view_fields [OF cur]
  let ?c = "slot_ptr p (zipc_handle_slot_id (buf_handle v))"
  let ?q = "sc_transfer_sequence (slot_of s ?c)" and ?tok = "claim_token_make ZIPC_CLAIM_ROLLBACK (lk_local_component l) (lk_local_epoch l)"
  obtain u n e st k where u: "rollback_transfer l v m t = (e, u)" "frame {?c} s u" "sys_gen u = sys_gen s" "hdr u p = hdr s p"
    "slot_of u ?c = (add_trace n (lk_local_component l) ZIPC_TRACE_SEND (transfer_fields (lk_local_component l) (lk_remote_component l) link
       ((slot_of s ?c)\<lparr>sc_claim_previous_sequence := ?q\<rparr>)))\<lparr>sc_claim_previous_sequence := ?q, sc_next_owner_id := ZIPC_INVALID_COMPONENT_ID,
         sc_transfer_sequence := ?q, sc_owner_id := lk_local_component l, sc_state := st, sc_claim_token := k\<rparr>"
    "owned_by s p (buf_handle v) (lk_local_component l)"
    "e = ZIPC_OK \<and> st = ZIPC_SLOT_OWNED \<and> k = 0 \<or>
     e \<noteq> ZIPC_OK \<and> e \<noteq> ZIPC_ERR_TRANSPORT_PUBLISHED \<and> pool_flags p AND ZIPC_POOL_F_STRICT_OWNERSHIP \<noteq> 0 \<and>
     st = ZIPC_SLOT_CLAIMING \<and> k = ?tok"
    by (rule rollback_outcome [OF inv prep l, of v], rule f(2) [unfolded f(12)], rule f(12), rule that) assumption+
  have own: "zipc_handle_slot_id (buf_handle v) < ph_slot_count (hdr s p)" "sc_state (slot_of s ?c) = ZIPC_SLOT_OWNED"
    "sc_owner_id (slot_of s ?c) = lk_local_component l"
    using u(6) by (simp_all add: owned_by_def Let_def)
  have kinds: "claim_token_kind ?tok = ZIPC_CLAIM_ROLLBACK" "ZIPC_CLAIM_ROLLBACK \<noteq> ZIPC_CLAIM_ALLOCATE"
    "ZIPC_CLAIM_ROLLBACK \<noteq> ZIPC_CLAIM_RECEIVE"
    by simp (simp_all add: zipc_claim_kind_defs)
  have wf: "slot_wf (ph_slot_capacity (hdr s p)) (slot_of u ?c)"
    using pool_inv_slot [OF inv own(1)] own(2,3) u(7) kinds unfolding u(5)
    by (auto simp: slot_wf_def slot_live_def issued_def slot_shape_def transfer_fields_def claim_recoverable_def Let_def)
  have abs: "abs_slot (slot_of u ?c) = abs_slot (slot_of s ?c)"
    unfolding u(5) using own(2,3) u(7) kinds by (auto simp: abs_slot_def abs_claiming_def transfer_fields_def Let_def)
  from u(7) show thesis
  proof (elim disjE conjE)
    assume e: "e = ZIPC_OK" "st = ZIPC_SLOT_OWNED" "k = 0"
    have impl: "implements p s None u"
      using inv u(3) wf abs e by (intro implements_silent [OF inv u(2) own(1)]) (simp_all add: u(5) slot_quiet_def gens_ready_def pool_inv_def)
    have "current_view u p v"
      using own inv f(12) e by (intro current_view_same [OF cur u(2)])
        (simp_all add: u(5) transfer_fields_def pool_inv_def pool_shape_def)
    then show thesis
      using kept u(1) e impl f(12) by (simp add: buffer_kept_def u(5) transfer_fields_def Let_def)
  next
    assume e: "e \<noteq> ZIPC_OK" "e \<noteq> ZIPC_ERR_TRANSPORT_PUBLISHED" "pool_flags p AND ZIPC_POOL_F_STRICT_OWNERSHIP \<noteq> 0"
      "st = ZIPC_SLOT_CLAIMING" "k = ?tok"
    have "pool_inv u p"
      using inv u(3) wf by (intro pool_inv_frame [OF inv u(2)]) (simp_all add: gens_ready_def pool_inv_def)
    moreover have "pool_abs u p = pool_abs s p"
      by (rule pool_abs_unchanged [OF u(2)]) (use abs in auto)
    ultimately show thesis
      using stuck u(1,2) e f(12) by (simp add: buffer_suspended_def u(5) frame_def Let_def)
  qed
qed

lemma untouched_keeps_buffer:
  assumes inv: "pool_inv s p" and cur: "current_view s p v" and u: "untouched (slot_ptr p (buf_slot_id v)) s t"
  shows "buffer_kept p v s t"
proof -
  note f = current_view_fields [OF cur]
  have fr: "frame {slot_ptr p (buf_slot_id v)} s t"
    and "same_slot (slot_of s (slot_ptr p (buf_slot_id v))) (slot_of t (slot_ptr p (buf_slot_id v)))"
    using u by (simp_all add: untouched_def)
  then have "slot_core (slot_of t (slot_ptr p (buf_slot_id v))) = slot_core (slot_of s (slot_ptr p (buf_slot_id v)))"
    by (simp add: same_slot_def)
  note eqs = slot_core_fields [OF this]
  have "current_view t p v"
    using inv by (intro current_view_same [OF cur fr]) (simp_all add: eqs f(10) pool_inv_def pool_shape_def)
  then show ?thesis
    using implements_untouched [OF inv u] by (simp add: buffer_kept_def eqs Let_def)
qed

lemma implements_trace:
  "implements p s ev t \<Longrightarrow> implements p s ev (trace_external_event po h q cm e t)"
proof -
  assume i: "implements p s ev t"
  let ?t = "trace_external_event po h q cm e t"
  have shm: "sys_shm ?t = sys_shm t" "sys_gen ?t = sys_gen t"
    by (simp_all add: trace_external_event_def zipc_now_ns_def emit_trace_def Let_def)
  then have "hdr ?t = hdr t" "slot_of ?t = slot_of t" "payload_of ?t = payload_of t"
    by (simp_all add: hdr_def slot_of_def payload_of_def fun_eq_iff)
  moreover from this have "pool_abs ?t p = pool_abs t p" by (simp add: pool_abs_def cong: if_cong)
  ultimately show ?thesis
    using i shm by (cases ev) (simp_all add: implements_def pool_inv_def pool_shape_def gens_ready_def pool_quiet_def)
qed

lemma suspended_trace:
  assumes "buffer_suspended p l v s t"
  shows "buffer_suspended p l v s (trace_external_event po h q cm e t)"
proof -
  have "implements p t None t" using assms by (simp add: buffer_suspended_def implements_def)
  from implements_trace [OF this] assms show ?thesis by (simp add: buffer_suspended_def implements_def)
qed

lemma prepare_not_published:
  "fst (buffer_prepare_transfer_internal (Some p) h src dst link mo s) \<noteq> ZIPC_ERR_TRANSPORT_PUBLISHED"
proof -
  have "fst (protect_slot po i g x) \<noteq> ZIPC_ERR_TRANSPORT_PUBLISHED" for po i g x
    using protect_slot_status [of po i g x] by auto
  then show ?thesis
    by (simp add: buffer_prepare_transfer_internal_def prepare_claimed_def Let_def split_beta split: bool.split)
qed

text \<open>The three outcomes of a claim, also with strict ownership.\<close>

lemma claim_cases:
  assumes inv: "pool_inv s p" and res: "zipc_buffer_claim (Some p) (Some m) r (Some b) s = (st, b', t)"
  obtains (taken) v where "st = ZIPC_OK" "b' = Some v" "implements p s (Some (Ev_Receive r)) t" "current_view t p v"
      "buf_handle v = msg_handle m" "buf_owner v = r" "claim_ready s p m r"
    | (dropped) "st \<noteq> ZIPC_OK" "b' = Some buffer_zero" "implements p s (Some (Ev_Drop r)) t" "claim_ready s p m r"
      "pool_flags p AND ZIPC_POOL_F_STRICT_OWNERSHIP \<noteq> 0"
    | (refused) "st \<noteq> ZIPC_OK" "b' = Some b" "implements p s None t" "\<not> claim_ready s p m r"
      "untouched (slot_ptr p (zipc_handle_slot_id (msg_handle m))) s t"
proof (cases rule: claim_outcome [OF inv, where m = m and r = r and b = b, case_names ok dropped refused])
  case (ok t' n)
  let ?c = "slot_ptr p (zipc_handle_slot_id (msg_handle m))"
  have [simp]: "st = ZIPC_OK" "t' = t" "b' = Some (slot_view p (msg_handle m) (hdr t p) (slot_of t ?c))"
    using ok(1,5) res by simp_all
  have impl: "implements p s (Some (Ev_Receive r)) t" using claim_implements [OF inv res] by simp
  have own: "buffer_owned t b'" using claim_outcome_owned [OF inv, of m r b] res by simp
  have "zipc_handle_slot_id (msg_handle m) < ph_slot_count (hdr t p)"
    using ok(2,5) by (simp add: claim_ready_def)
  then have "current_view t p (the b')" using own by (simp add: current_view_def)
  moreover have "buf_owner (the b') = r" using ok(6) by (simp add: receive_fields_def)
  ultimately show thesis using taken impl ok(2) by simp
next
  case (dropped e t')
  let ?i = "zipc_handle_slot_id (msg_handle m)"
  have eqs: "st = e" "t' = t" "b' = Some buffer_zero" using dropped(1) res by simp_all
  have cr: "?i < ph_slot_count (hdr s p)" "sc_state (slot_of s (slot_ptr p ?i)) = ZIPC_SLOT_TRANSFER"
    using dropped(3) by (simp_all add: claim_ready_def Let_def)
  have "pool_abs t p ?i \<noteq> pool_abs s p ?i"
    using cr dropped(7) frame_slot_count [OF dropped(5)] eqs by (simp add: pool_abs_def abs_slot_def slot_freed_def)
  then have "\<not> implements p s None t" by (auto simp: implements_def)
  then have "implements p s (Some (Ev_Drop r)) t" using claim_implements [OF inv res] dropped(2) eqs by auto
  then show thesis using that(2) dropped(2-4) eqs by simp
next
  case (refused e t')
  then show thesis using that(3) res implements_untouched [OF inv refused(3)] by simp
qed

lemma claim_result:
  assumes inv: "pool_inv s p" and lax: "pool_flags p AND ZIPC_POOL_F_STRICT_OWNERSHIP = 0"
    and res: "zipc_buffer_claim (Some p) (Some m) r (Some b) s = (st, b', t)"
  shows "if st = ZIPC_OK
    then implements p s (Some (Ev_Receive r)) t \<and> claim_ready s p m r \<and>
         (\<exists>v. b' = Some v \<and> current_view t p v \<and> buf_handle v = msg_handle m \<and> buf_owner v = r)
    else implements p s None t \<and> b' = Some b \<and> \<not> claim_ready s p m r \<and>
         untouched (slot_ptr p (zipc_handle_slot_id (msg_handle m))) s t"
  by (cases rule: claim_cases [OF inv res]) (use lax in simp_all)

text \<open>What a prepared transfer and its claim do to the bytes that the view shows: nothing.\<close>

lemma send_ok_prepared:
  assumes "zipc_send pf (Some l) (Some v) s w = (ZIPC_OK, v', t, w')"
  obtains m where "buffer_prepare_transfer_internal (Some (lk_pool l)) (buf_handle v) (lk_local_component l) (lk_remote_component l)
      (lk_link_id l) True s = (ZIPC_OK, m, t)" "op_send pf (lk_transport l) (the m) w = (ZIPC_OK, w')"
  using assms by (auto simp: zipc_send_def Let_def split: if_splits prod.splits)

text \<open>The slot after a transfer was prepared and claimed.\<close>

lemma transfer_prepared:
  assumes "pool_inv s p" "buffer_prepare_transfer_internal (Some p) h src dst link True s = (ZIPC_OK, msg, t)"
  obtains n where "msg = Some (transfer_message p h src dst (sc_transfer_sequence (slot_of s (slot_ptr p (zipc_handle_slot_id h))) + 1))"
    "send_ready s p h src dst" "frame {slot_ptr p (zipc_handle_slot_id h)} s t" "hdr t p = hdr s p"
    "slot_of t (slot_ptr p (zipc_handle_slot_id h)) = (add_trace n src ZIPC_TRACE_SEND (transfer_fields src dst link
      ((slot_of s (slot_ptr p (zipc_handle_slot_id h)))\<lparr>sc_claim_previous_sequence :=
         sc_transfer_sequence (slot_of s (slot_ptr p (zipc_handle_slot_id h)))\<rparr>)))\<lparr>sc_state := ZIPC_SLOT_TRANSFER, sc_claim_token := 0\<rparr>"
proof (cases rule: prepare_outcome [OF pool_inv_shape [OF assms(1)], of h src dst link True, case_names ok refused])
  case (ok t' n)
  then show thesis using that [of n] assms(2) by simp
qed (use assms(2) in simp)

lemma transfer_claimed:
  assumes "pool_inv t p" "zipc_buffer_claim (Some p) (Some m) r (Some b) t = (ZIPC_OK, v2, u)"
    and "pool_flags p AND ZIPC_POOL_F_STRICT_OWNERSHIP = 0"
  obtains n where "frame {slot_ptr p (zipc_handle_slot_id (msg_handle m))} t u" "hdr u p = hdr t p"
    "slot_of u (slot_ptr p (zipc_handle_slot_id (msg_handle m))) = (add_trace n r ZIPC_TRACE_RECEIVE (receive_fields r (registered_epoch t (Some p) r)
       (sys_clock t (sys_ticks t)) (slot_of t (slot_ptr p (zipc_handle_slot_id (msg_handle m))))))\<lparr>sc_state := ZIPC_SLOT_OWNED, sc_claim_token := 0\<rparr>"
proof (cases rule: claim_outcome [OF assms(1), where m = m and r = r and b = b, case_names ok dropped refused])
  case (ok u' n)
  then show thesis using that [of n] assms(2) by simp
qed (use assms(2,3) in simp_all)

lemma transfer_keeps_bytes:
  assumes inv: "pool_inv s p" and lax: "pool_flags p AND ZIPC_POOL_F_STRICT_OWNERSHIP = 0" and cur: "current_view s p v"
    and prep: "buffer_prepare_transfer_internal (Some p) (buf_handle v) src dst link True s = (ZIPC_OK, Some m, t)"
    and dl: "deadline_open (sys_clock t (sys_ticks t)) (slot_of s (slot_ptr p (buf_slot_id v)))"
  shows "pool_inv t p" "m = transfer_message p (buf_handle v) src dst (sc_transfer_sequence (slot_of s (slot_ptr p (buf_slot_id v))) + 1)"
    "claim_ready t p m dst"
    "zipc_buffer_claim (Some p) (Some m) dst (Some b) t = (ZIPC_OK, Some v2, u) \<Longrightarrow> view_bytes u p v2 = view_bytes s p v"
proof -
  note f = current_view_fields [OF cur]
  let ?h = "buf_handle v"
  let ?c = "slot_ptr p (zipc_handle_slot_id ?h)"
  have impl: "implements p s (Some (Ev_Send src dst)) t" using send_implements [OF inv prep] by simp
  then show inv': "pool_inv t p" by (simp add: implements_def)
  obtain n where ok: "m = transfer_message p ?h src dst (sc_transfer_sequence (slot_of s ?c) + 1)" "send_ready s p ?h src dst"
    "hdr t p = hdr s p"
    "slot_of t ?c = (add_trace n src ZIPC_TRACE_SEND (transfer_fields src dst link
      ((slot_of s ?c)\<lparr>sc_claim_previous_sequence := sc_transfer_sequence (slot_of s ?c)\<rparr>)))\<lparr>sc_state := ZIPC_SLOT_TRANSFER, sc_claim_token := 0\<rparr>"
    by (rule transfer_prepared [OF inv prep], rule that) (assumption | simp only: option.inject)+
  then show m: "m = transfer_message p ?h src dst (sc_transfer_sequence (slot_of s (slot_ptr p (buf_slot_id v))) + 1)"
    by (simp add: f(12))
  have "owned_by s p ?h src" "zipc_component_id_valid dst" "hops_left (slot_of s ?c)"
    using ok(2) by (simp_all add: send_ready_def Let_def)
  then show rdy: "claim_ready t p m dst"
    using dl ok(3) unfolding claim_ready_def
    by (simp add: ok(1,4) transfer_message_def claim_matches_def transfer_fields_def owned_by_def Let_def deadline_open_def
        hops_left_def f(12))
  assume cl: "zipc_buffer_claim (Some p) (Some m) dst (Some b) t = (ZIPC_OK, Some v2, u)"
  have hm: "msg_handle m = ?h" by (simp add: m transfer_message_def)
  obtain k where u: "hdr u p = hdr t p" "frame {?c} t u"
    "slot_of u ?c = (add_trace k dst ZIPC_TRACE_RECEIVE (receive_fields dst (registered_epoch t (Some p) dst)
       (sys_clock t (sys_ticks t)) (slot_of t ?c)))\<lparr>sc_state := ZIPC_SLOT_OWNED, sc_claim_token := 0\<rparr>"
    by (rule transfer_claimed [OF inv' cl lax, unfolded hm], rule that)
  have v2: "buf_slot_id v2 = zipc_handle_slot_id ?h"
    using claim_result [OF inv' lax cl] current_view_fields(12) [of u p v2] m by (auto simp: transfer_message_def)
  have pay: "payload_of u = payload_of s" using u(2) impl by (simp add: frame_def implements_def)
  have "sc_region (slot_of u ?c) = sc_region (slot_of s ?c)"
    by (simp add: u(3) ok(4) receive_fields_def transfer_fields_def)
  then show "view_bytes u p v2 = view_bytes s p v"
    using pay u(1) ok(3) by (simp add: view_bytes_def slot_bytes_def v2 f(12))
qed

subsection \<open>Outdated descriptors\<close>

text \<open>What a receiver may find in a channel, read off the slot that a descriptor names. A descriptor
  for the receiver is outdated when its slot is not in transfer, is held by another claim, has
  another generation, or is in transfer to the receiver under another sequence number. It is current
  when the slot is in transfer to the receiver, unclaimed, in exactly the generation and the
  sequence of the descriptor.\<close>

definition claim_busy :: "zipc_slot_control \<Rightarrow> bool" where
  "claim_busy sl \<longleftrightarrow> sc_claim_token sl \<noteq> 0 \<and> claim_token_kind (sc_claim_token sl) \<noteq> ZIPC_CLAIM_SEND"

definition outdated :: "sys \<Rightarrow> zipc_pool \<Rightarrow> zipc_component_id \<Rightarrow> zipc_message \<Rightarrow> bool" where
  "outdated s p r m \<longleftrightarrow>
     zipc_component_id_valid r \<and> msg_pool_id m = pool_pool_id p \<and> msg_destination_component m = r \<and>
     zipc_handle_slot_id (msg_handle m) < ph_slot_count (hdr s p) \<and>
     (let sl = slot_of s (slot_ptr p (zipc_handle_slot_id (msg_handle m))) in
      sc_state sl \<noteq> ZIPC_SLOT_TRANSFER \<or> claim_busy sl \<or> sc_generation sl \<noteq> zipc_handle_generation (msg_handle m) \<or>
      sc_owner_id sl = msg_source_component m \<and> sc_next_owner_id sl = r \<and> sc_transfer_sequence sl \<noteq> msg_transfer_sequence m)"

definition up_to_date :: "sys \<Rightarrow> zipc_pool \<Rightarrow> zipc_component_id \<Rightarrow> zipc_message \<Rightarrow> bool" where
  "up_to_date s p r m \<longleftrightarrow>
     zipc_component_id_valid r \<and> msg_pool_id m = pool_pool_id p \<and> msg_destination_component m = r \<and>
     zipc_handle_slot_id (msg_handle m) < ph_slot_count (hdr s p) \<and>
     (let sl = slot_of s (slot_ptr p (zipc_handle_slot_id (msg_handle m))) in
      sc_state sl = ZIPC_SLOT_TRANSFER \<and> \<not> claim_busy sl \<and> sc_generation sl = zipc_handle_generation (msg_handle m) \<and>
      sc_owner_id sl = msg_source_component m \<and> sc_next_owner_id sl = r \<and> sc_transfer_sequence sl = msg_transfer_sequence m)"

lemma claim_ready_up_to_date: "claim_ready s p m r \<Longrightarrow> up_to_date s p r m"
  by (auto simp: claim_ready_def claim_matches_def up_to_date_def claim_busy_def Let_def)

lemma claim_addressed_iff:
  "claim_addressed s p m r \<longleftrightarrow> zipc_component_id_valid r \<and> msg_pool_id m = pool_pool_id p \<and> msg_destination_component m = r \<and>
     zipc_handle_slot_id (msg_handle m) < ph_slot_count (hdr s p) \<and>
     (let sl = slot_of s (slot_ptr p (zipc_handle_slot_id (msg_handle m))) in sc_state sl = ZIPC_SLOT_TRANSFER \<and> \<not> claim_busy sl)"
  by (auto simp: claim_addressed_def claim_busy_def Let_def)

lemma publish_not_skipped: "\<not> skip_status (fst (claim_publish p m r e now tok b s))"
proof -
  have "\<not> skip_status (fst (protect_slot po i g x))" for po i g x
    using protect_slot_status [of po i g x] by (auto simp: skip_status_def)
  moreover have "\<not> skip_status (fst (make_view p i h b x))" for i h x
    by (simp add: make_view_def skip_status_def Let_def)
  moreover have "\<not> skip_status ZIPC_OK" by (simp add: skip_status_def)
  ultimately show ?thesis by (simp add: claim_publish_def Let_def split_beta)
qed

text \<open>The receive loop skips a descriptor exactly when it is outdated.\<close>

lemma claim_skipped_iff:
  assumes inv: "pool_inv s p" and res: "zipc_buffer_claim (Some p) (Some m) r (Some b) s = (st, b', t)"
  shows "skip_status st \<longleftrightarrow> outdated s p r m"
proof (cases "claim_addressed s p m r")
  case False
  then show ?thesis
    using res by (auto simp: claim_addressed_iff outdated_def zipc_buffer_claim_def claim_take_token_def cas_claim_token_def claim_busy_def
        skip_status_def Let_def not_le split: if_splits)
next
  case True
  let ?c = "slot_ptr p (zipc_handle_slot_id (msg_handle m))" and ?ep = "registered_epoch s (Some p) r"
  let ?tok = "claim_token_make ZIPC_CLAIM_RECEIVE r ?ep"
  let ?now = "sys_clock s (sys_ticks s)" and ?u = "(take_slot ?c ?tok s)\<lparr>sys_ticks := Suc (sys_ticks s)\<rparr>"
  have "slot_ptr_ok s ?c" using inv True by (simp add: slot_ptr_ok_iff claim_addressed_def pool_inv_def)
  then have "fst (zipc_buffer_claim (Some p) (Some m) r (Some b) s) =
      (let sl = slot_of s ?c in
       if sc_generation sl \<noteq> zipc_handle_generation (msg_handle m) then ZIPC_ERR_STALE_HANDLE
       else if sc_owner_id sl \<noteq> msg_source_component m \<or> sc_next_owner_id sl \<noteq> r then ZIPC_ERR_INVALID_RECEIVER
       else if sc_transfer_sequence sl \<noteq> msg_transfer_sequence m then ZIPC_ERR_SEQUENCE_MISMATCH
       else if sc_deadline_ns sl \<noteq> ZIPC_DEADLINE_NONE \<and> ?now > sc_deadline_ns sl then ZIPC_ERR_DEADLINE
       else if sc_hop_limit sl \<noteq> ZIPC_HOP_LIMIT_UNLIMITED \<and> sc_hop_count sl \<ge> sc_hop_limit sl then ZIPC_ERR_HOP_LIMIT
       else fst (claim_publish p m r ?ep ?now ?tok (Some b) ?u))"
    unfolding claim_addressed_unfold [OF pool_inv_shape [OF inv] True]
    by (simp add: claim_claimed_def zipc_now_ns_def Let_def) (simp add: take_slot_def)
  then have "skip_status st \<longleftrightarrow> (let sl = slot_of s ?c in sc_generation sl \<noteq> zipc_handle_generation (msg_handle m) \<or>
      sc_owner_id sl = msg_source_component m \<and> sc_next_owner_id sl = r \<and> sc_transfer_sequence sl \<noteq> msg_transfer_sequence m)"
    using res publish_not_skipped [of p m r ?ep ?now ?tok "Some b" ?u] by (auto simp: skip_status_def Let_def)
  then show ?thesis
    using True by (auto simp: claim_addressed_iff outdated_def Let_def)
qed

text \<open>A refused claim changes neither which descriptors are outdated nor which are current.\<close>

lemma refused_claim_keeps:
  assumes inv: "pool_inv s p" and res: "zipc_buffer_claim (Some p) (Some m) r (Some b) s = (st, b', t)" "\<not> claim_ready s p m r"
  shows "outdated t p r m' = outdated s p r m'" "up_to_date t p r m' = up_to_date s p r m'"
proof -
  let ?c = "slot_ptr p (zipc_handle_slot_id (msg_handle m))"
  have un: "untouched ?c s t"
    by (cases rule: claim_outcome [OF inv, where m = m and r = r and b = b, case_names ok dropped refused]) (use res in simp_all)
  then have fr: "frame {?c} s t" and same: "same_slot (slot_of s ?c) (slot_of t ?c)" by (simp_all add: untouched_def)
  have slots: "slot_core (slot_of t c) = slot_core (slot_of s c) \<and> claim_busy (slot_of t c) = claim_busy (slot_of s c)" for c
  proof (cases "c = ?c")
    case False
    then show ?thesis using frame_slot_eq [OF fr, of c] by simp
  next
    case True
    show ?thesis
    proof (cases "claim_addressed s p m r")
      case False
      then have "slot_of t = slot_of s" using claim_not_addressed [OF False, of b] res by auto
      then show ?thesis by simp
    next
      case True
      then have "\<not> claim_busy (slot_of s ?c)" by (simp add: claim_addressed_iff Let_def)
      then show ?thesis using same \<open>c = ?c\<close> by (auto simp: same_slot_def claim_busy_def)
    qed
  qed
  have cnt: "ph_slot_count (hdr t p) = ph_slot_count (hdr s p)" by (rule frame_slot_count [OF fr])
  let ?c' = "slot_ptr p (zipc_handle_slot_id (msg_handle m'))"
  note eqs = slot_core_fields [OF slots [of ?c', THEN conjunct1]] slots [of ?c', THEN conjunct2]
  show "outdated t p r m' = outdated s p r m'" "up_to_date t p r m' = up_to_date s p r m'"
    by (simp_all add: outdated_def up_to_date_def cnt eqs Let_def)
qed

text \<open>How a receive fails: without a descriptor, at a descriptor of another sender or at one that is not
  outdated, ownership unchanged; or, with strict ownership, by dropping a current transfer whose
  pages could not be opened.\<close>

definition recv_failure :: "zipc_pool \<Rightarrow> zipc_link \<Rightarrow> sys \<Rightarrow> zipc_status \<Rightarrow> sys \<Rightarrow> zipc_message list \<Rightarrow> bool" where
  "recv_failure p l s st t ended \<longleftrightarrow>
     pool_abs t p = pool_abs s p \<and>
       (ended = [] \<or> (\<exists>d. ended = [d] \<and>
          (if msg_source_component d = lk_remote_component l then \<not> outdated s p (lk_local_component l) d
           else st = ZIPC_ERR_INVALID_RECEIVER))) \<or>
     pool_flags p AND ZIPC_POOL_F_STRICT_OWNERSHIP \<noteq> 0 \<and>
       own_pool_step (pool_abs s p) (Ev_Drop (lk_local_component l)) (pool_abs t p) \<and>
       (\<exists>d. ended = [d] \<and> msg_source_component d = lk_remote_component l \<and> up_to_date s p (lk_local_component l) d)"

subsection \<open>The channel contract\<close>

text \<open>A channel between the endpoint \<open>out\<close> of a producer and the endpoint \<open>into\<close> of a consumer, with
  its queue of pending descriptors. A receive is begun and then committed; the law speaks of the
  pair, so that it covers the transports that only look at the descriptor before the commit and
  those that take it out at once. More descriptors may arrive while the receiver waits.\<close>

locale descriptor_channel =
  fixes pf :: "'w platform_ops" and out :: "nat option" and into :: "nat option"
    and chan_ok :: "'w \<Rightarrow> bool" and queue :: "'w \<Rightarrow> zipc_message list"
    and push :: "zipc_message \<Rightarrow> zipc_message list \<Rightarrow> zipc_message list"
  assumes send_law: "chan_ok w \<Longrightarrow> op_send pf out m w = (st, w') \<Longrightarrow> chan_ok w' \<and>
      queue w' = (if st = ZIPC_OK \<or> st = ZIPC_ERR_TRANSPORT_PUBLISHED then push m (queue w) else queue w)"
    and idle_law: "chan_ok w \<Longrightarrow> op_receive_begin pf into w = Some (st, msg, k, w') \<Longrightarrow> st \<noteq> ZIPC_OK \<Longrightarrow>
      chan_ok w' \<and> (\<exists>more. queue w' = queue w @ more)"
    and take_law: "chan_ok w \<Longrightarrow> op_receive_begin pf into w = Some (ZIPC_OK, msg, k, w') \<Longrightarrow>
      op_receive_commit pf into k w' = (st, w'') \<Longrightarrow>
      st = ZIPC_OK \<and> chan_ok w'' \<and> (\<exists>d more. msg = Some d \<and> queue w @ more = d # queue w'')"
    and push_empty: "push m [] = [m]"
begin

text \<open>The three outcomes of a send: the descriptor is in the channel, nothing has happened, or (strict
  ownership only) the rollback of a refused transfer could not open the pages again.\<close>

lemma send_outcome:
  assumes inv: "pool_inv s p" and cur: "current_view s p v" and ok: "chan_ok w"
    and l: "lk_pool l = p" "lk_transport l = out"
    and res: "zipc_send pf (Some l) (Some v) s w = (st, v', t, w')"
  shows "chan_ok w' \<and> pool_inv t p \<and>
    (if st = ZIPC_OK \<or> st = ZIPC_ERR_TRANSPORT_PUBLISHED
     then v' = Some buffer_zero \<and> implements p s (Some (Ev_Send (lk_local_component l) (lk_remote_component l))) t \<and>
          queue w' = push (transfer_message p (buf_handle v) (lk_local_component l) (lk_remote_component l)
            (sc_transfer_sequence (slot_of s (slot_ptr p (buf_slot_id v))) + 1)) (queue w)
     else queue w' = queue w \<and>
       (v' = Some v \<and> buffer_kept p v s t \<or>
        v' = Some buffer_zero \<and> pool_flags p AND ZIPC_POOL_F_STRICT_OWNERSHIP \<noteq> 0 \<and> buffer_suspended p l v s t))"
proof -
  note f = current_view_fields [OF cur]
  let ?prep = "buffer_prepare_transfer_internal (Some p) (buf_handle v) (lk_local_component l) (lk_remote_component l) (lk_link_id l) True s"
  have kept: "buffer_kept p v s s" using untouched_keeps_buffer [OF inv cur] by simp
  have kinv: "pool_inv u p" if "buffer_kept p v s u" for u using that by (simp add: buffer_kept_def implements_def)
  consider "link_stale s l \<or> buf_owner_epoch v \<noteq> lk_local_epoch l" "st = ZIPC_ERR_COMPONENT_STALE" "v' = Some v" "t = s" "w' = w"
    | "buf_owner v \<noteq> lk_local_component l" "st = ZIPC_ERR_NOT_OWNER" "v' = Some v" "t = s" "w' = w"
    | "\<not> link_stale s l" "buf_owner_epoch v = lk_local_epoch l" "buf_owner v = lk_local_component l"
    using res f(1,7) l by (auto simp: zipc_send_def split: if_splits)
  then show ?thesis
  proof cases
    case 3
    show ?thesis
    proof (cases rule: prepare_outcome [OF pool_inv_shape [OF inv], of "buf_handle v" "lk_local_component l" "lk_remote_component l"
          "lk_link_id l" True, case_names sent refused])
      case (refused e u)
      then have "buffer_kept p v s u" using untouched_keeps_buffer [OF inv cur] f(12) by simp
      moreover have "e \<noteq> ZIPC_ERR_TRANSPORT_PUBLISHED"
        using prepare_not_published refused(1) by (metis fst_conv)
      moreover have "st = e" "v' = Some v" "t = u" "w' = w"
        using refused(1,2) res 3 f(1,7) l by (simp_all add: zipc_send_def)
      ultimately show ?thesis using refused(2) ok kinv by simp
    next
      case (sent u n)
      let ?m = "transfer_message p (buf_handle v) (lk_local_component l) (lk_remote_component l)
        (sc_transfer_sequence (slot_of s (slot_ptr p (buf_slot_id v))) + 1)"
      have prep: "?prep = (ZIPC_OK, Some ?m, u)" using sent(1) f(12) by simp
      have impl: "implements p s (Some (Ev_Send (lk_local_component l) (lk_remote_component l))) u"
        using send_implements [OF inv prep] by simp
      obtain st1 w1 where snd: "op_send pf out ?m w = (st1, w1)" by fastforce
      note law = send_law [OF ok snd]
      obtain e u' where rb: "rollback_transfer l v ?m u = (e, u')" by fastforce
      have run: "zipc_send pf (Some l) (Some v) s w =
          (if st1 = ZIPC_ERR_TRANSPORT_PUBLISHED then (st1, Some buffer_zero, trace_send_error l ?m u, w1)
           else if st1 = ZIPC_OK then (ZIPC_OK, Some buffer_zero, u, w1)
           else if e = ZIPC_OK then (st1, Some v, u', w1) else (e, Some buffer_zero, trace_send_error l ?m u', w1))"
        using 3 f(1,7) l prep snd rb by (simp add: zipc_send_def buffer_invalidate_def Let_def)
      show ?thesis
      proof (cases rule: rollback_keeps_buffer [OF inv cur prep l(1), case_names kept stuck])
        case (kept u'')
        then have "e = ZIPC_OK" "buffer_kept p v s u'" using rb by simp_all
        then show ?thesis
          using res law impl implements_trace [OF impl] kinv unfolding run
          by (auto simp: trace_send_error_def implements_def split: if_splits)
      next
        case (stuck e' u'')
        then have e: "e \<noteq> ZIPC_OK" "e \<noteq> ZIPC_ERR_TRANSPORT_PUBLISHED" and sus: "buffer_suspended p l v s (trace_send_error l ?m u')"
          using rb suspended_trace by (auto simp: trace_send_error_def)
        then show ?thesis
          using res law impl implements_trace [OF impl] stuck(4) unfolding run
          by (auto simp: trace_send_error_def implements_def buffer_suspended_def split: if_splits)
      qed
    qed
  qed (use ok inv kept in simp_all)
qed

text \<open>Without strict ownership there are two outcomes.\<close>

lemma send_all_or_nothing:
  assumes "pool_inv s p" "pool_flags p AND ZIPC_POOL_F_STRICT_OWNERSHIP = 0" "current_view s p v" "chan_ok w"
    and "lk_pool l = p" "lk_transport l = out"
    and "zipc_send pf (Some l) (Some v) s w = (st, v', t, w')"
  shows "chan_ok w' \<and> pool_inv t p \<and>
    (if st = ZIPC_OK \<or> st = ZIPC_ERR_TRANSPORT_PUBLISHED
     then v' = Some buffer_zero \<and> implements p s (Some (Ev_Send (lk_local_component l) (lk_remote_component l))) t \<and>
          queue w' = push (transfer_message p (buf_handle v) (lk_local_component l) (lk_remote_component l)
            (sc_transfer_sequence (slot_of s (slot_ptr p (buf_slot_id v))) + 1)) (queue w)
     else v' = Some v \<and> buffer_kept p v s t \<and> queue w' = queue w)"
  using send_outcome [OF assms(1,3-7)] assms(2) by (auto split: if_splits)

text \<open>What a receive comes to. The descriptors before the one that ended it are from the remote
  component and outdated (in the state the receive found), and are gone. On success the last one
  was current and its buffer is received. On failure the view is cleared.\<close>

definition recv_result ::
  "zipc_pool \<Rightarrow> zipc_link \<Rightarrow> sys \<Rightarrow> 'w \<Rightarrow> zipc_status \<times> zipc_buffer option \<times> sys \<times> 'w \<Rightarrow> bool" where
  "recv_result p l s w y \<longleftrightarrow> (case y of (st, v', t, w') \<Rightarrow> pool_inv t p \<and> chan_ok w' \<and> payload_of t = payload_of s \<and>
     (\<exists>more skipped ended. queue w @ more = skipped @ ended @ queue w' \<and>
        (\<forall>d \<in> set skipped. msg_source_component d = lk_remote_component l \<and> outdated s p (lk_local_component l) d) \<and>
        (if st = ZIPC_OK
         then own_pool_step (pool_abs s p) (Ev_Receive (lk_local_component l)) (pool_abs t p) \<and>
           (\<exists>v d. v' = Some v \<and> ended = [d] \<and> current_view t p v \<and> buf_handle v = msg_handle d \<and>
              msg_source_component d = lk_remote_component l \<and> up_to_date s p (lk_local_component l) d)
         else v' = Some buffer_zero \<and> recv_failure p l s st t ended)))"

lemma recv_resultI:
  assumes "pool_inv t p" "chan_ok w'" "payload_of t = payload_of s" "queue w @ late = ended @ queue w'"
    and "if st = ZIPC_OK
         then own_pool_step (pool_abs s p) (Ev_Receive (lk_local_component l)) (pool_abs t p) \<and>
           (\<exists>v d. v' = Some v \<and> ended = [d] \<and> current_view t p v \<and> buf_handle v = msg_handle d \<and>
              msg_source_component d = lk_remote_component l \<and> up_to_date s p (lk_local_component l) d)
         else v' = Some buffer_zero \<and> recv_failure p l s st t ended"
  shows "recv_result p l s w (st, v', t, w')"
proof -
  have "queue w @ late = [] @ ended @ queue w'" using assms(4) by simp
  then show ?thesis
    unfolding recv_result_def prod.case using assms(1-3,5) by (metis empty_iff list.set(1))
qed

lemma recv_result_later:
  assumes res: "recv_result p l u w1 y" and impl: "implements p s None u" and q: "queue w @ late = d # queue w1"
    and d: "msg_source_component d = lk_remote_component l" "outdated s p (lk_local_component l) d"
    and same: "\<And>m. outdated u p (lk_local_component l) m = outdated s p (lk_local_component l) m"
      "\<And>m. up_to_date u p (lk_local_component l) m = up_to_date s p (lk_local_component l) m"
  shows "recv_result p l s w y"
proof -
  obtain st v' t w' where y: "y = (st, v', t, w')" by (cases y)
  have abs: "pool_abs u p = pool_abs s p" "payload_of u = payload_of s" using impl by (simp_all add: implements_def)
  obtain more skipped ended where m: "queue w1 @ more = skipped @ ended @ queue w'"
    "\<forall>d \<in> set skipped. msg_source_component d = lk_remote_component l \<and> outdated s p (lk_local_component l) d"
    "if st = ZIPC_OK
     then own_pool_step (pool_abs s p) (Ev_Receive (lk_local_component l)) (pool_abs t p) \<and>
       (\<exists>v d. v' = Some v \<and> ended = [d] \<and> current_view t p v \<and> buf_handle v = msg_handle d \<and>
          msg_source_component d = lk_remote_component l \<and> up_to_date s p (lk_local_component l) d)
     else v' = Some buffer_zero \<and> recv_failure p l s st t ended"
    and keep: "pool_inv t p" "chan_ok w'" "payload_of t = payload_of s"
    using res unfolding y recv_result_def recv_failure_def prod.case same abs by blast
  have "queue w @ (late @ more) = (d # skipped) @ ended @ queue w'"
    using q m(1) by (metis append_assoc append_Cons)
  moreover have "\<forall>d \<in> set (d # skipped). msg_source_component d = lk_remote_component l \<and> outdated s p (lk_local_component l) d"
    using m(2) d by simp
  ultimately show ?thesis using m(3) keep unfolding y recv_result_def prod.case by blast
qed

text \<open>One turn of the receive loop; \<open>f\<close> stands for the turns after a stale descriptor.\<close>

definition recv_turn ::
  "(zipc_link \<Rightarrow> zipc_buffer option \<Rightarrow> sys \<Rightarrow> 'w \<Rightarrow> (zipc_status \<times> zipc_buffer option \<times> sys \<times> 'w) option) \<Rightarrow>
   zipc_link \<Rightarrow> zipc_buffer option \<Rightarrow> sys \<Rightarrow> 'w \<Rightarrow> (zipc_status \<times> zipc_buffer option \<times> sys \<times> 'w) option" where
  "recv_turn f l buffer s w =
     (case op_receive_begin pf (lk_transport l) w of
        None \<Rightarrow> None
      | Some (status, message, token, w) \<Rightarrow>
          if status \<noteq> ZIPC_OK then Some (status, buffer, s, w)
          else if msg_source_component (the message) \<noteq> lk_remote_component l
          then Some (ZIPC_ERR_INVALID_RECEIVER, buffer, record_protocol_error (lk_pool l) None (lk_local_component l) s,
                 snd (op_receive_commit pf (lk_transport l) token w))
          else
            (case zipc_buffer_claim (Some (lk_pool l)) message (lk_local_component l) buffer s of
               (status, buffer, s) \<Rightarrow>
                 (case op_receive_commit pf (lk_transport l) token w of
                    (commit_status, w) \<Rightarrow>
                      if status = ZIPC_OK
                      then if commit_status \<noteq> ZIPC_OK
                           then Some (ZIPC_ERR_RECOVERY_REQUIRED, buffer_invalidate buffer, s, w)
                           else Some (ZIPC_OK, map_option (\<lambda>b. b\<lparr>buf_owner := lk_local_component l\<rparr>) buffer, s, w)
                      else if skip_status status then f l (buffer_invalidate buffer) s w
                      else Some (status, buffer, s, w))))"

definition recv_entry :: "zipc_pool \<Rightarrow> zipc_link \<Rightarrow> sys \<Rightarrow> 'w \<Rightarrow> bool" where
  "recv_entry p l s w \<longleftrightarrow> lk_pool l = p \<and> lk_transport l = into \<and> pool_inv s p \<and> chan_ok w"

lemma recv_claimed_sound:
  assumes ent: "recv_entry p l s w" and src: "msg_source_component d = lk_remote_component l"
    and q: "queue w @ late = d # queue w2" and ok2: "chan_ok w2"
    and cl: "zipc_buffer_claim (Some p) (Some d) (lk_local_component l) (Some buffer_zero) s = (st2, b2, s2)"
    and run: "(if st2 = ZIPC_OK then Some (ZIPC_OK, map_option (\<lambda>b. b\<lparr>buf_owner := lk_local_component l\<rparr>) b2, s2, w2)
      else if skip_status st2 then f l (buffer_invalidate b2) s2 w2 else Some (st2, b2, s2, w2)) = Some y"
    and IH: "\<And>s w y. f l (Some buffer_zero) s w = Some y \<Longrightarrow> recv_entry p l s w \<Longrightarrow> recv_result p l s w y"
  shows "recv_result p l s w y"
proof -
  have inv: "pool_inv s p" using ent by (simp add: recv_entry_def)
  have q1: "queue w @ late = [d] @ queue w2" using q by simp
  note skip = claim_skipped_iff [OF inv cl]
  show ?thesis
  proof (cases rule: claim_cases [OF inv cl, case_names taken dropped refused])
    case (taken v)
    have "v\<lparr>buf_owner := lk_local_component l\<rparr> = v" using taken(6) by simp
    then have "y = (ZIPC_OK, Some v, s2, w2)" using run taken(1,2) by simp
    then show ?thesis
      using taken src ok2 claim_ready_up_to_date [OF taken(7)] by (auto intro!: recv_resultI [OF _ _ _ q1] simp: implements_def)
  next
    case dropped
    note up = claim_ready_up_to_date [OF dropped(4)]
    then have "\<not> skip_status st2" unfolding skip by (auto simp: up_to_date_def outdated_def Let_def)
    then have "y = (st2, Some buffer_zero, s2, w2)" using run dropped(1,2) by simp
    then show ?thesis
      using dropped src ok2 up by (auto intro!: recv_resultI [OF _ _ _ q1] simp: implements_def recv_failure_def)
  next
    case refused
    note keeps = refused_claim_keeps [OF inv cl refused(4)]
    show ?thesis
    proof (cases "skip_status st2")
      case True
      then have "f l (Some buffer_zero) s2 w2 = Some y" using run refused(1,2) by (simp add: buffer_invalidate_def)
      moreover have "recv_entry p l s2 w2" using refused(3) ent ok2 by (simp add: recv_entry_def implements_def)
      ultimately have "recv_result p l s2 w2 y" by (rule IH)
      then show ?thesis using recv_result_later [OF _ refused(3) q src _ keeps] True skip by simp
    next
      case False
      then have "y = (st2, Some buffer_zero, s2, w2)" using run refused(1,2) by simp
      then show ?thesis
        using refused src ok2 False skip by (auto intro!: recv_resultI [OF _ _ _ q1] simp: implements_def recv_failure_def)
    qed
  qed
qed

lemma recv_turn_sound:
  assumes ent: "recv_entry p l s w" and eq: "recv_turn f l (Some buffer_zero) s w = Some y"
    and IH: "\<And>s w y. f l (Some buffer_zero) s w = Some y \<Longrightarrow> recv_entry p l s w \<Longrightarrow> recv_result p l s w y"
  shows "recv_result p l s w y"
proof -
  have [simp]: "lk_pool l = p" "lk_transport l = into" and inv: "pool_inv s p" and ok: "chan_ok w"
    using ent by (simp_all add: recv_entry_def)
  obtain st msg k w1 where b: "op_receive_begin pf into w = Some (st, msg, k, w1)"
    using eq by (auto simp: recv_turn_def split: option.splits)
  show ?thesis
  proof (cases "st = ZIPC_OK")
    case False
    then obtain more where w1: "chan_ok w1" "queue w @ more = [] @ queue w1" using idle_law [OF ok b] by auto
    have "y = (st, Some buffer_zero, s, w1)" using eq b False by (simp add: recv_turn_def)
    then show ?thesis using w1 inv False by (auto intro!: recv_resultI [OF _ _ _ w1(2)] simp: recv_failure_def)
  next
    case True
    obtain cst w2 where c: "op_receive_commit pf into k w1 = (cst, w2)" by fastforce
    from take_law [OF ok b [unfolded True] c] obtain d more where cst: "cst = ZIPC_OK" and ok2: "chan_ok w2"
      and m: "msg = Some d" and q: "queue w @ more = d # queue w2" by blast
    show ?thesis
    proof (cases "msg_source_component d = lk_remote_component l")
      case False
      then have "y = (ZIPC_ERR_INVALID_RECEIVER, Some buffer_zero, record_protocol_error p None (lk_local_component l) s, w2)"
        using eq b True m c by (simp add: recv_turn_def)
      moreover have "implements p s None (record_protocol_error p None (lk_local_component l) s)"
        using implements_untouched [OF inv, of 0] by simp
      moreover have "queue w @ more = [d] @ queue w2" using q by simp
      ultimately show ?thesis
        using ok2 False by (auto intro!: recv_resultI [where late = more and ended = "[d]"] simp: implements_def recv_failure_def)
    next
      case src: True
      obtain st2 b2 s2 where cl: "zipc_buffer_claim (Some p) (Some d) (lk_local_component l) (Some buffer_zero) s = (st2, b2, s2)"
        by (metis prod_cases3)
      show ?thesis
        by (rule recv_claimed_sound [OF ent src q ok2 cl _ IH])
          (use eq b True m c src cl cst in \<open>simp add: recv_turn_def cong: if_cong\<close>)
    qed
  qed
qed

lemma recv_loop_sound:
  assumes "recv_loop pf0 l buffer s w = Some y"
  shows "pf0 = pf \<and> buffer = Some buffer_zero \<and> recv_entry p l s w \<longrightarrow> recv_result p l s w y"
proof (rule recv_loop.raw_induct [OF _ assms, where P = "\<lambda>pf0 l buffer s w y. pf0 = pf \<and> buffer = Some buffer_zero \<and>
    recv_entry p l s w \<longrightarrow> recv_result p l s w y"], intro impI, elim conjE, goal_cases)
  case (1 f pf0 l buffer s w y)
  have "recv_turn (f pf) l (Some buffer_zero) s w = Some y" using 1(2) unfolding 1(3,4) recv_turn_def .
  then show ?case by (rule recv_turn_sound [OF 1(5)]) (use 1(1) in simp)
qed

lemma recv_sound:
  assumes "pool_inv s p" "chan_ok w" "lk_pool l = p" "lk_transport l = into"
    and "zipc_recv pf (Some l) (Some b) s w = Some y"
  shows "if link_stale s l then y = (ZIPC_ERR_COMPONENT_STALE, Some b, s, w) else recv_result p l s w y"
proof (cases "link_stale s l")
  case False
  then have "recv_loop pf l (Some buffer_zero) s w = Some y"
    using assms(5) by (simp add: zipc_recv_def buffer_invalidate_def)
  from recv_loop_sound [OF this, of p] assms(1-4) False show ?thesis by (simp add: recv_entry_def)
qed (use assms(5) in \<open>simp add: zipc_recv_def\<close>)

end

text \<open>A channel that yields a pending descriptor without waiting.\<close>

locale prompt_channel = descriptor_channel +
  assumes begin_prompt: "chan_ok w \<Longrightarrow> queue w \<noteq> [] \<Longrightarrow>
    \<exists>msg k w'. op_receive_begin pf into w = Some (ZIPC_OK, msg, k, w')"
begin

lemma prompt_take:
  assumes ok: "chan_ok w" and q: "queue w = d # rest"
  obtains k w1 w2 more where "op_receive_begin pf into w = Some (ZIPC_OK, Some d, k, w1)"
    "op_receive_commit pf into k w1 = (ZIPC_OK, w2)" "chan_ok w2" "queue w2 = rest @ more"
proof -
  obtain msg k w1 where b: "op_receive_begin pf into w = Some (ZIPC_OK, msg, k, w1)"
    using begin_prompt [OF ok] q by auto
  obtain cst w2 where c: "op_receive_commit pf into k w1 = (cst, w2)" by fastforce
  from take_law [OF ok b c] obtain more where "cst = ZIPC_OK" "chan_ok w2" "msg = Some d" "rest @ more = queue w2"
    using q by auto
  then show thesis using that [of k w1 w2 more] b c by simp
qed

lemma recv_first:
  assumes inv: "pool_inv s p" and lax: "pool_flags p AND ZIPC_POOL_F_STRICT_OWNERSHIP = 0" and ok: "chan_ok w"
    and l: "lk_pool l = p" "lk_transport l = into" "\<not> link_stale s l"
    and d: "queue w = d # rest" "msg_source_component d = lk_remote_component l" "claim_ready s p d (lk_local_component l)"
  shows "\<exists>v t w' more. zipc_recv pf (Some l) (Some b) s w = Some (ZIPC_OK, Some v, t, w') \<and> chan_ok w' \<and> queue w' = rest @ more \<and>
    zipc_buffer_claim (Some p) (Some d) (lk_local_component l) (Some buffer_zero) s = (ZIPC_OK, Some v, t) \<and>
    current_view t p v \<and> buf_handle v = msg_handle d"
proof -
  obtain k w1 w2 more where b: "op_receive_begin pf into w = Some (ZIPC_OK, Some d, k, w1)"
    and c: "op_receive_commit pf into k w1 = (ZIPC_OK, w2)" and com: "chan_ok w2" "queue w2 = rest @ more"
    by (rule prompt_take [OF ok d(1)])
  obtain st2 b2 s2 where cl: "zipc_buffer_claim (Some p) (Some d) (lk_local_component l) (Some buffer_zero) s = (st2, b2, s2)"
    by (metis prod_cases3)
  note cr = claim_result [OF inv lax cl]
  then have st2: "st2 = ZIPC_OK" using d(3) by (auto split: if_splits)
  then obtain v where v: "b2 = Some v" "current_view s2 p v" "buf_handle v = msg_handle d" "buf_owner v = lk_local_component l"
    using cr by auto
  have "v\<lparr>buf_owner := lk_local_component l\<rparr> = v" using v(4) by simp
  then have "recv_loop pf l (Some buffer_zero) s w = Some (ZIPC_OK, Some v, s2, w2)"
    using l(1,2) b d(2) c cl st2 v(1) by (subst recv_loop.simps) simp
  then have "zipc_recv pf (Some l) (Some b) s w = Some (ZIPC_OK, Some v, s2, w2)"
    using l(3) by (simp add: zipc_recv_def buffer_invalidate_def)
  then show ?thesis using com v cl st2 by auto
qed

lemma send_recv_round_trip:
  assumes inv: "pool_inv s p" and lax: "pool_flags p AND ZIPC_POOL_F_STRICT_OWNERSHIP = 0" and cur: "current_view s p v"
    and ok: "chan_ok w" and empty: "queue w = []"
    and l1: "lk_pool l1 = p" "lk_transport l1 = out"
    and l2: "lk_pool l2 = p" "lk_transport l2 = into" "lk_local_component l2 = lk_remote_component l1"
      "lk_remote_component l2 = lk_local_component l1"
    and sent: "zipc_send pf (Some l1) (Some v) s w = (ZIPC_OK, v', t, w')"
    and live: "\<not> link_stale t l2" "deadline_open (sys_clock t (sys_ticks t)) (slot_of s (slot_ptr p (buf_slot_id v)))"
  shows "\<exists>v2 u w2. zipc_recv pf (Some l2) (Some b) t w' = Some (ZIPC_OK, Some v2, u, w2) \<and> current_view u p v2 \<and>
    buf_handle v2 = buf_handle v \<and> view_bytes u p v2 = view_bytes s p v"
proof -
  obtain msg where pm: "buffer_prepare_transfer_internal (Some p) (buf_handle v) (lk_local_component l1) (lk_remote_component l1)
      (lk_link_id l1) True s = (ZIPC_OK, msg, t)"
    using send_ok_prepared [OF sent] l1 by metis
  then obtain m where prep: "buffer_prepare_transfer_internal (Some p) (buf_handle v) (lk_local_component l1) (lk_remote_component l1)
      (lk_link_id l1) True s = (ZIPC_OK, Some m, t)"
    by (cases rule: prepare_outcome [OF pool_inv_shape [OF inv], of "buf_handle v" "lk_local_component l1" "lk_remote_component l1"
          "lk_link_id l1" True, case_names ok refused]) auto
  note tk = transfer_keeps_bytes [OF inv lax cur prep live(2)]
  have q: "chan_ok w'" "queue w' = [m]"
    using send_all_or_nothing [OF inv lax cur ok l1 sent] empty tk(2) by (simp_all add: push_empty)
  have src: "msg_source_component m = lk_remote_component l2" "msg_handle m = buf_handle v"
    using tk(2) l2(4) by (simp_all add: transfer_message_def)
  obtain v2 u w2 where r: "zipc_recv pf (Some l2) (Some b) t w' = Some (ZIPC_OK, Some v2, u, w2)"
    "zipc_buffer_claim (Some p) (Some m) (lk_remote_component l1) (Some buffer_zero) t = (ZIPC_OK, Some v2, u)"
    "current_view u p v2" "buf_handle v2 = msg_handle m"
    using recv_first [OF tk(1) lax q(1) l2(1,2) live(1) q(2) src(1), of b] tk(3) l2(3) by auto
  then show ?thesis using tk(4) [OF r(2)] src(2) by auto
qed

lemma recv_refused:
  assumes inv: "pool_inv s p" and lax: "pool_flags p AND ZIPC_POOL_F_STRICT_OWNERSHIP = 0" and ok: "chan_ok w"
    and l: "lk_pool l = p" "lk_transport l = into" "\<not> link_stale s l"
    and d: "queue w = d # rest" "msg_source_component d = lk_remote_component l"
    and cl: "zipc_buffer_claim (Some p) (Some d) (lk_local_component l) (Some buffer_zero) s = (st, b', t)"
      "st \<noteq> ZIPC_OK" "\<not> skip_status st"
  shows "\<exists>w' more. zipc_recv pf (Some l) (Some b) s w = Some (st, Some buffer_zero, t, w') \<and> chan_ok w' \<and> queue w' = rest @ more"
proof -
  obtain k w1 w2 more where b: "op_receive_begin pf into w = Some (ZIPC_OK, Some d, k, w1)"
    and c: "op_receive_commit pf into k w1 = (ZIPC_OK, w2)" and com: "chan_ok w2" "queue w2 = rest @ more"
    by (rule prompt_take [OF ok d(1)])
  have "b' = Some buffer_zero" using claim_result [OF inv lax cl(1)] cl(2) by simp
  then have "recv_loop pf l (Some buffer_zero) s w = Some (st, Some buffer_zero, t, w2)"
    using l(1,2) b d(2) c cl by (subst recv_loop.simps) simp
  then have "zipc_recv pf (Some l) (Some b) s w = Some (st, Some buffer_zero, t, w2)"
    using l(3) by (simp add: zipc_recv_def buffer_invalidate_def)
  then show ?thesis using com by auto
qed

end

end
