(* ===== verification/Link_Properties.thy ===== *)
theory Link_Properties
  imports Link_Channel
begin

text \<open>
  Links over the shared-ring transports of Linux: the ring provides the descriptor channel of
  \<open>Link_Channel\<close>, and the properties of send and receive follow for it.
\<close>

subsection \<open>Links over a shared ring\<close>

abbreviation ring_endpoints :: "nat \<Rightarrow> nat \<Rightarrow> nat \<Rightarrow> linux_host \<Rightarrow> bool" where
  "ring_endpoints a t1 t2 h \<equiv> ring_transport a t1 h \<and> ring_transport a t2 h"

lemma ring_transport_frame: "ring_transport a t h \<Longrightarrow> ring_frame a h h' \<Longrightarrow> ring_invar (lh_rings h' a) \<Longrightarrow> ring_transport a t h'"
  by (simp add: ring_transport_def ring_frame_def)

interpretation ring_link: prompt_channel linux_platform "Some t1" "Some t2" "ring_endpoints a t1 t2" "pending a" queue_push for a t1 t2
proof (unfold_locales, goal_cases)
  case (1 w m st w')
  then show ?case
    using ring_send_outcome [of a t1 w m st w'] ring_transport_frame [of a _ w w'] by (auto simp: linux_platform_def)
next
  case (2 w st msg k w')
  then show ?case
    using receive_begin_outcome [of a t2 w zero_token st msg k w'] ring_transport_frame [of a _ w w']
    by (auto simp: linux_platform_def ring_grown_def split: if_splits)
next
  case (3 w msg k w' st w'')
  then have "zipc_platform_transport_receive_begin (Some t2) True (Some zero_token) w = Some (ZIPC_OK, msg, k, w')"
    by (simp add: linux_platform_def)
  from receive_begin_outcome [OF _ this, of a] 3(1) have g: "ring_grown a w w'" and ne: "pending a w' \<noteq> []"
    and k: "k = Some (token_for a t2 w')" and m: "msg = Some (hd (pending a w'))" by simp_all
  have tr: "ring_endpoints a t1 t2 w'" using 3(1) g ring_transport_frame by (auto simp: ring_grown_def)
  then have "ring_transport a t2 w'" by simp
  from receive_commit_outcome [OF this ne] 3(3) k tr ring_transport_frame [of a _ w' w'']
  have "st = ZIPC_OK \<and> ring_endpoints a t1 t2 w'' \<and> pending a w'' = tl (pending a w')"
    by (auto simp: linux_platform_def)
  moreover obtain more where "pending a w' = pending a w @ more" using g by (auto simp: ring_grown_def)
  ultimately show ?case using m ne by (metis list.collapse)
next
  case (4 m)
  then show ?case by (simp add: queue_push_def)
next
  case (5 w)
  then obtain st msg k w' where b: "zipc_platform_transport_receive_begin (Some t2) True (Some zero_token) w = Some (st, msg, k, w')"
    using receive_begin_nonempty [of a t2 w zero_token] by (metis not_None_eq prod_cases4)
  then have "st = ZIPC_OK"
    using receive_begin_outcome [of a t2 w zero_token st msg k w'] 5 by (auto simp: ring_grown_def split: if_splits)
  then show ?case using b by (simp add: linux_platform_def)
qed

text \<open>Two links over one ring: component 3 sends to component 5.\<close>

definition sample_link :: "nat \<Rightarrow> zipc_component_id \<Rightarrow> zipc_component_id \<Rightarrow> zipc_link_role \<Rightarrow> zipc_link" where
  "sample_link t from_id to_id link_role = \<lparr>lk_address = 0, lk_pool = sample_pool, lk_transport = Some t, lk_local_component = from_id,
     lk_remote_component = to_id, lk_link_id = 77, lk_local_epoch = 0, lk_role = link_role,
     lk_transport_type = ZIPC_TRANSPORT_SHM_RING_POLLING, lk_recovery_ring = Some 2, lk_hop_limit = ZIPC_HOP_LIMIT_UNLIMITED,
     lk_default_deadline_ns = 0, lk_timeout_ticks = 0\<rparr>"

lemma sample_link_simps [simp]:
  "lk_pool (sample_link t x y r) = sample_pool" "lk_transport (sample_link t x y r) = Some t"
  "lk_local_component (sample_link t x y r) = x" "lk_remote_component (sample_link t x y r) = y"
  "lk_link_id (sample_link t x y r) = 77" "lk_role (sample_link t x y r) = r" "lk_recovery_ring (sample_link t x y r) = Some 2"
  "lk_local_epoch (sample_link t x y r) = 0" "\<not> link_stale s (sample_link t x y r)"
  by (simp_all add: sample_link_def link_stale_def)

definition ring_with :: "zipc_message \<Rightarrow> zipc_transport_spsc_ring" where
  "ring_with m = the (snd (zipc_linux_common_ring_push (Some (sample_ring 4 0)) (Some m)))"

lemma ring_with_push:
  "zipc_linux_common_ring_push (Some (sample_ring 4 0)) (Some m) = (ZIPC_OK, Some (ring_with m))"
  "ring_invar (ring_with m) \<and> ring_list (ring_with m) = [m]"
proof -
  have "zipc_linux_common_ring_push (Some (sample_ring 4 0)) (Some m) = (ZIPC_OK, Some (ring_with m)) \<and>
    ring_invar (ring_with m) \<and> ring_list (ring_with m) = [m]"
  proof (cases rule: ring_push_list [OF sample_ring_invar(1) [of 0], of m, case_names ok full])
    case (ok r')
    then show ?thesis by (simp add: ring_with_def sample_ring_invar queue_push_def)
  next
    case full
    then show ?thesis by (simp add: ring_used_def sample_ring_def)
  qed
  then show "zipc_linux_common_ring_push (Some (sample_ring 4 0)) (Some m) = (ZIPC_OK, Some (ring_with m))"
    "ring_invar (ring_with m) \<and> ring_list (ring_with m) = [m]" by simp_all
qed

lemma sample_ring_host [simp]:
  "ring_transport 2 t (sample_host sample_polling (sample_ring 4 0) v)" "pending 2 (sample_host sample_polling (sample_ring 4 0) v) = []"
  "ring_transport 2 t (sample_host sample_polling (ring_with m) v)" "pending 2 (sample_host sample_polling (ring_with m) v) = [m]"
  by (simp_all add: ring_transport_def pending_def sample_polling_def sample_ring_invar ring_with_push)

text \<open>Over any platform whose transport accepts the descriptor, component 3 can send its buffer.\<close>

lemma sample_send_over:
  assumes "\<And>m. fst (op_send pf (Some t) m w) = ZIPC_OK"
  shows "fst (zipc_send pf (Some (sample_link t 3 5 r)) (Some sample_view) (sample_state [sample_owned_slot, sample_slot]) w) = ZIPC_OK"
proof -
  let ?s = "sample_state [sample_owned_slot, sample_slot]"
  note f = current_view_fields [OF sample_current_view]
  have h: "buf_handle sample_view = sample_handle" "buf_owner sample_view = 3" "buf_owner_epoch sample_view = 0"
    by (simp_all add: sample_view_def sample_slots_simps)
  obtain m u where prep: "buffer_prepare_transfer_internal (Some sample_pool) sample_handle 3 5 77 True ?s = (ZIPC_OK, Some m, u)"
  proof (cases rule: prepare_outcome [OF pool_inv_shape, of ?s sample_pool sample_handle 3 5 77 True, case_names inv ok refused])
    case (ok t n)
    then show ?thesis using that by simp
  qed simp_all
  show ?thesis
    using f(1,7) h prep assms by (simp add: zipc_send_def Let_def split_beta)
qed

lemma sample_send_ok:
  "fst (zipc_send linux_platform (Some (sample_link t 3 5 r)) (Some sample_view) (sample_state [sample_owned_slot, sample_slot])
     (sample_host sample_polling (sample_ring 4 0) 0)) = ZIPC_OK"
  by (rule sample_send_over)
    (simp add: linux_platform_def zipc_platform_transport_send_def sample_polling_def push_descriptor_def ring_at_def ring_with_push)

text \<open>C1: A send through a link over a shared ring (whose depth divides \<open>2^32\<close>) is all or nothing, but for
  one failure of a pool with strict ownership. Either the descriptor of the next transfer is pending
  in the ring, exactly one send event has happened and the caller's view is cleared, also when only
  the wake-up of the peer failed; or the ring is as it was, and the caller still holds the buffer
  through the same view, with its transfer sequence, identity and history restored by the rollback.
  With strict ownership there is a third outcome: the transport refused the descriptor and the
  rollback could not open the pages again. The ring and the ownership are then as before, but the
  caller's view is cleared and the slot is left claimed under a rollback token of the caller.\<close>

theorem link_send_all_or_nothing:
  assumes "pool_inv s p" "current_view s p v"
    and "ring_transport a t h" "lk_pool l = p" "lk_transport l = Some t"
    and "zipc_send linux_platform (Some l) (Some v) s h = (st, v', s', h')"
  shows "ring_transport a t h' \<and> pool_inv s' p \<and>
    (if st = ZIPC_OK \<or> st = ZIPC_ERR_TRANSPORT_PUBLISHED
     then v' = Some buffer_zero \<and> implements p s (Some (Ev_Send (lk_local_component l) (lk_remote_component l))) s' \<and>
          pending a h' = queue_push (transfer_message p (buf_handle v) (lk_local_component l) (lk_remote_component l)
            (sc_transfer_sequence (slot_of s (slot_ptr p (buf_slot_id v))) + 1)) (pending a h)
     else pending a h' = pending a h \<and>
       (v' = Some v \<and> buffer_kept p v s s' \<or>
        v' = Some buffer_zero \<and> pool_flags p AND ZIPC_POOL_F_STRICT_OWNERSHIP \<noteq> 0 \<and> buffer_suspended p l v s s'))"
  using ring_link.send_outcome [where a = a and ?t1.0 = t and ?t2.0 = t, OF assms(1,2) _ assms(4-6)] assms(3) by simp

theorem link_send_all_or_nothing_witness:
  "let l = sample_link 1 3 5 ZIPC_LINK_ROLE_PRODUCER; s = sample_state [sample_owned_slot, sample_slot];
       h = sample_host sample_polling (sample_ring 4 0) 0; p = sample_pool; v = sample_view in
   \<exists>v' s' h'. zipc_send linux_platform (Some l) (Some v) s h = (ZIPC_OK, v', s', h') \<and> ring_transport 2 1 h' \<and> pool_inv s' p \<and>
     v' = Some buffer_zero \<and> implements p s (Some (Ev_Send 3 5)) s' \<and>
     pending 2 h' = queue_push (transfer_message p (buf_handle v) 3 5
        (sc_transfer_sequence (slot_of s (slot_ptr p (buf_slot_id v))) + 1)) (pending 2 h)"
proof -
  let ?l = "sample_link 1 3 5 ZIPC_LINK_ROLE_PRODUCER" and ?s = "sample_state [sample_owned_slot, sample_slot]"
    and ?h = "sample_host sample_polling (sample_ring 4 0) 0"
  obtain st v' s' h' where "zipc_send linux_platform (Some ?l) (Some sample_view) ?s ?h = (st, v', s', h')" by (metis prod_cases4)
  then have r: "zipc_send linux_platform (Some ?l) (Some sample_view) ?s ?h = (ZIPC_OK, v', s', h')"
    using sample_send_ok [of 1 ZIPC_LINK_ROLE_PRODUCER] by simp
  have "lk_local_component ?l = 3" "lk_remote_component ?l = 5" by simp_all
  with link_send_all_or_nothing [where p = sample_pool and a = 2 and t = 1, OF _ _ _ _ _ r] show ?thesis
    unfolding Let_def using r by (intro exI [of _ v'] exI [of _ s'] exI [of _ h']) simp
qed

text \<open>C2: Every result of a receive through a link over a shared ring (whose depth divides \<open>2^32\<close>) is sound.
  A link of a stale epoch is refused and touches nothing, not even the caller's view. Otherwise the
  descriptors that the receive passed over were pending, or arrived while it waited, in front of the
  one that ended it; they came from the remote component and were outdated, and they are gone. On
  success exactly one receive event of the local component has happened, for a descriptor of the
  remote component whose slot was in transfer to the local component under exactly that generation
  and sequence, and the view shows that buffer. On failure the view is cleared. The receive then
  ended without a descriptor, or at a descriptor of another sender, or at one that is not outdated,
  and ownership is unchanged; or, with strict ownership only, the pages of a current transfer could
  not be opened and the transfer was dropped.\<close>

theorem link_recv_sound:
  assumes "pool_inv s p" "ring_transport a t h" "lk_pool l = p" "lk_transport l = Some t"
    and "zipc_recv linux_platform (Some l) (Some b) s h = Some (st, v', s', h')"
  shows "if link_stale s l then st = ZIPC_ERR_COMPONENT_STALE \<and> v' = Some b \<and> s' = s \<and> h' = h
    else pool_inv s' p \<and> ring_transport a t h' \<and> payload_of s' = payload_of s \<and>
      (\<exists>more skipped ended. pending a h @ more = skipped @ ended @ pending a h' \<and>
         (\<forall>d \<in> set skipped. msg_source_component d = lk_remote_component l \<and> outdated s p (lk_local_component l) d) \<and>
         (if st = ZIPC_OK
          then own_pool_step (pool_abs s p) (Ev_Receive (lk_local_component l)) (pool_abs s' p) \<and>
            (\<exists>v d. v' = Some v \<and> ended = [d] \<and> current_view s' p v \<and> buf_handle v = msg_handle d \<and>
               msg_source_component d = lk_remote_component l \<and> up_to_date s p (lk_local_component l) d)
          else v' = Some buffer_zero \<and>
            (pool_abs s' p = pool_abs s p \<and>
               (ended = [] \<or> (\<exists>d. ended = [d] \<and>
                  (if msg_source_component d = lk_remote_component l then \<not> outdated s p (lk_local_component l) d
                   else st = ZIPC_ERR_INVALID_RECEIVER))) \<or>
             pool_flags p AND ZIPC_POOL_F_STRICT_OWNERSHIP \<noteq> 0 \<and>
               own_pool_step (pool_abs s p) (Ev_Drop (lk_local_component l)) (pool_abs s' p) \<and>
               (\<exists>d. ended = [d] \<and> msg_source_component d = lk_remote_component l \<and> up_to_date s p (lk_local_component l) d))))"
proof -
  have "ring_endpoints a t t h" using assms(2) by simp
  note r = ring_link.recv_sound [OF assms(1) this assms(3-5), unfolded ring_link.recv_result_def recv_failure_def prod.case prod.inject]
  show ?thesis
  proof (cases "link_stale s l")
    case True
    then show ?thesis using r by simp
  next
    case False
    show ?thesis using r unfolding if_not_P [OF False] by blast
  qed
qed

theorem link_recv_sound_witness:
  "let l = sample_link 1 5 3 ZIPC_LINK_ROLE_CONSUMER; s = sample_state [sample_transfer_slot, sample_slot];
       h = sample_host sample_polling (ring_with sample_transfer) 0; p = sample_pool in
   \<exists>v s' h'. zipc_recv linux_platform (Some l) (Some buffer_zero) s h = Some (ZIPC_OK, Some v, s', h') \<and>
     pool_inv s' p \<and> ring_transport 2 1 h' \<and> payload_of s' = payload_of s \<and>
     own_pool_step (pool_abs s p) (Ev_Receive 5) (pool_abs s' p) \<and> current_view s' p v"
proof -
  let ?l = "sample_link 1 5 3 ZIPC_LINK_ROLE_CONSUMER" and ?s = "sample_state [sample_transfer_slot, sample_slot]"
    and ?h = "sample_host sample_polling (ring_with sample_transfer) 0"
  obtain v s' h' where r: "zipc_recv linux_platform (Some ?l) (Some buffer_zero) ?s ?h = Some (ZIPC_OK, Some v, s', h')"
    using ring_link.recv_first [where a = 2 and ?t1.0 = 1 and ?t2.0 = 1 and s = ?s and p = sample_pool and w = ?h and l = ?l
        and d = sample_transfer and rest = "[]" and b = buffer_zero] by auto
  have "pool_inv ?s sample_pool" "ring_transport 2 1 ?h" "lk_pool ?l = sample_pool" "lk_transport ?l = Some 1" by simp_all
  from link_recv_sound [OF this r] show ?thesis
    unfolding Let_def using r by (intro exI [of _ v] exI [of _ s'] exI [of _ h'] conjI [OF r]) auto
qed

text \<open>C3: What one component sends over a ring (whose depth divides \<open>2^32\<close>), the other receives, on a pool
  without strict ownership. After a successful send over an empty ring, a receive through the link of the destination returns at once and yields the same buffer
  with the same bytes: headroom, contents and tailroom.\<close>

theorem link_round_trip:
  assumes "pool_inv s p" "pool_flags p AND ZIPC_POOL_F_STRICT_OWNERSHIP = 0" "current_view s p v"
    and "ring_transport a t1 h" "ring_transport a t2 h" "pending a h = []"
    and "lk_pool l1 = p" "lk_transport l1 = Some t1" "lk_pool l2 = p" "lk_transport l2 = Some t2"
    and "lk_local_component l2 = lk_remote_component l1" "lk_remote_component l2 = lk_local_component l1"
    and "zipc_send linux_platform (Some l1) (Some v) s h = (ZIPC_OK, v', s', h')"
    and "\<not> link_stale s' l2" "deadline_open (sys_clock s' (sys_ticks s')) (slot_of s (slot_ptr p (buf_slot_id v)))"
  shows "\<exists>v2 u h2. zipc_recv linux_platform (Some l2) (Some b) s' h' = Some (ZIPC_OK, Some v2, u, h2) \<and> current_view u p v2 \<and>
    buf_handle v2 = buf_handle v \<and> view_bytes u p v2 = view_bytes s p v"
  using ring_link.send_recv_round_trip [where a = a and ?t1.0 = t1 and ?t2.0 = t2, OF assms(1-3) _ assms(6-15)] assms(4,5) by simp

theorem link_round_trip_witness:
  "let l1 = sample_link 1 3 5 ZIPC_LINK_ROLE_PRODUCER; l2 = sample_link 4 5 3 ZIPC_LINK_ROLE_CONSUMER;
       s = sample_state [sample_owned_slot, sample_slot]; h = sample_host sample_polling (sample_ring 4 0) 0 in
   \<exists>v' s' h' v2 u h2. zipc_send linux_platform (Some l1) (Some sample_view) s h = (ZIPC_OK, v', s', h') \<and>
     zipc_recv linux_platform (Some l2) (Some buffer_zero) s' h' = Some (ZIPC_OK, Some v2, u, h2) \<and>
     current_view u sample_pool v2 \<and> buf_handle v2 = sample_handle \<and>
     view_bytes u sample_pool v2 = view_bytes s sample_pool sample_view"
proof -
  let ?l = "sample_link 1 3 5 ZIPC_LINK_ROLE_PRODUCER" and ?s = "sample_state [sample_owned_slot, sample_slot]"
    and ?h = "sample_host sample_polling (sample_ring 4 0) 0" and ?l2 = "sample_link 4 5 3 ZIPC_LINK_ROLE_CONSUMER"
  obtain st v' s' h' where "zipc_send linux_platform (Some ?l) (Some sample_view) ?s ?h = (st, v', s', h')" by (metis prod_cases4)
  then have r: "zipc_send linux_platform (Some ?l) (Some sample_view) ?s ?h = (ZIPC_OK, v', s', h')"
    using sample_send_ok [of 1 ZIPC_LINK_ROLE_PRODUCER] by simp
  have h: "buf_handle sample_view = sample_handle" "buf_slot_id sample_view = 0" by (simp_all add: sample_view_def)
  have "\<exists>v2 u h2. zipc_recv linux_platform (Some ?l2) (Some buffer_zero) s' h' = Some (ZIPC_OK, Some v2, u, h2) \<and>
      current_view u sample_pool v2 \<and> buf_handle v2 = buf_handle sample_view \<and>
      view_bytes u sample_pool v2 = view_bytes ?s sample_pool sample_view"
    by (rule link_round_trip [where a = 2 and ?t1.0 = 1 and ?t2.0 = 4, OF _ _ _ _ _ _ _ _ _ _ _ _ r])
      (simp_all add: h sample_slots_simps)
  then show ?thesis unfolding Let_def h using r by blast
qed

text \<open>An expired descriptor addressed to the receiver is refused with the deadline error.\<close>

lemma claim_expired:
  assumes inv: "pool_inv s p" and addr: "claim_addressed s p m r"
    and sl: "sl = slot_of s (slot_ptr p (zipc_handle_slot_id (msg_handle m)))"
      "sc_generation sl = zipc_handle_generation (msg_handle m)" "sc_owner_id sl = msg_source_component m"
      "sc_next_owner_id sl = r" "sc_transfer_sequence sl = msg_transfer_sequence m"
      "\<not> deadline_open (sys_clock s (sys_ticks s)) sl"
  shows "fst (zipc_buffer_claim (Some p) (Some m) r (Some b) s) = ZIPC_ERR_DEADLINE"
proof -
  have "slot_ptr_ok s (slot_ptr p (zipc_handle_slot_id (msg_handle m)))"
    using inv addr by (simp add: slot_ptr_ok_iff claim_addressed_def pool_inv_def)
  then show ?thesis
    using sl unfolding claim_addressed_unfold [OF pool_inv_shape [OF inv] addr]
    by (simp add: claim_claimed_def take_slot_def zipc_now_ns_def deadline_open_def not_le Let_def)
qed

text \<open>A transfer that is received after its deadline is stranded. The receive reports the deadline
  error and consumes the descriptor, while the slot stays in the transfer state, owned by nobody
  who can release it; no descriptor for it is left in the ring.\<close>

theorem expired_transfer_is_stranded:
  assumes "pool_inv s p" "pool_flags p AND ZIPC_POOL_F_STRICT_OWNERSHIP = 0" "ring_transport a t h"
    and "lk_pool l = p" "lk_transport l = Some t" "\<not> link_stale s l"
    and "pending a h = [d]" "msg_source_component d = lk_remote_component l"
    and "claim_addressed s p d (lk_local_component l)"
    and "sl = slot_of s (slot_ptr p (zipc_handle_slot_id (msg_handle d)))"
      "sc_generation sl = zipc_handle_generation (msg_handle d)" "sc_owner_id sl = msg_source_component d"
      "sc_next_owner_id sl = lk_local_component l" "sc_transfer_sequence sl = msg_transfer_sequence d"
      "\<not> deadline_open (sys_clock s (sys_ticks s)) sl"
  shows "\<exists>s' h' new. zipc_recv linux_platform (Some l) (Some b) s h = Some (ZIPC_ERR_DEADLINE, Some buffer_zero, s', h') \<and>
    pool_abs s' p = pool_abs s p \<and> pending a h @ new = d # pending a h' \<and>
    sc_state (slot_of s' (slot_ptr p (zipc_handle_slot_id (msg_handle d)))) = ZIPC_SLOT_TRANSFER"
proof -
  obtain st b' u where cl: "zipc_buffer_claim (Some p) (Some d) (lk_local_component l) (Some buffer_zero) s = (st, b', u)"
    by (metis prod_cases3)
  have st: "st = ZIPC_ERR_DEADLINE"
    using claim_expired [OF assms(1,9-15), of buffer_zero] cl by simp
  have "implements p s None u" and un: "untouched (slot_ptr p (zipc_handle_slot_id (msg_handle d))) s u"
    using claim_result [OF assms(1,2) cl] st by simp_all
  then have abs: "pool_abs u p = pool_abs s p" by (simp add: implements_def)
  have "slot_core (slot_of u (slot_ptr p (zipc_handle_slot_id (msg_handle d)))) =
      slot_core (slot_of s (slot_ptr p (zipc_handle_slot_id (msg_handle d))))"
    using un by (simp add: untouched_def same_slot_def)
  note slot_core_fields(1) [OF this]
  then have tr: "sc_state (slot_of u (slot_ptr p (zipc_handle_slot_id (msg_handle d)))) = ZIPC_SLOT_TRANSFER"
    using assms(9) by (simp add: claim_addressed_def Let_def)
  have e: "ring_endpoints a t t h" "st \<noteq> ZIPC_OK" "\<not> skip_status st"
    using assms(3) by (simp_all add: st skip_status_def)
  obtain h' new where r: "zipc_recv linux_platform (Some l) (Some b) s h = Some (st, Some buffer_zero, u, h')" "pending a h' = [] @ new"
    using ring_link.recv_refused [OF assms(1,2) e(1) assms(4-8) cl e(2,3), of b] by (elim exE conjE)
  show ?thesis
    by (rule exI [of _ u], rule exI [of _ h'], rule exI [of _ new]) (use r abs tr st assms(7) in simp)
qed

definition sample_expired :: sys where
  "sample_expired = (sample_state [sample_transfer_slot\<lparr>sc_deadline_ns := 2\<rparr>, sample_slot])\<lparr>sys_ticks := 5\<rparr>"

theorem expired_transfer_is_stranded_witness:
  "\<exists>s' h' new. zipc_recv linux_platform (Some (sample_link 1 5 3 ZIPC_LINK_ROLE_CONSUMER)) (Some buffer_zero) sample_expired
      (sample_host sample_polling (ring_with sample_transfer) 0) = Some (ZIPC_ERR_DEADLINE, Some buffer_zero, s', h') \<and>
    pool_abs s' sample_pool = pool_abs sample_expired sample_pool \<and>
    pending 2 (sample_host sample_polling (ring_with sample_transfer) 0) @ new = sample_transfer # pending 2 h' \<and>
    sc_state (slot_of s' (slot_ptr sample_pool (zipc_handle_slot_id (msg_handle sample_transfer)))) = ZIPC_SLOT_TRANSFER"
proof -
  have wf: "slot_wf 64 (sample_transfer_slot\<lparr>sc_deadline_ns := 2\<rparr>)" by code_simp
  have same: "hdr sample_expired p = sample_header" "slot_of sample_expired (slot_ptr p i) = [sample_transfer_slot\<lparr>sc_deadline_ns := 2\<rparr>, sample_slot] ! unat i"
    "sys_gen sample_expired = sys_gen (sample_state [])" "sys_shm sample_expired = sys_shm (sample_state [sample_transfer_slot\<lparr>sc_deadline_ns := 2\<rparr>, sample_slot])"
    "sys_clock sample_expired (sys_ticks sample_expired) = 5" for p i
    by (simp_all add: sample_expired_def hdr_def slot_of_def sample_state_def sample_sys_def)
  have "pool_inv (sample_state [sample_transfer_slot\<lparr>sc_deadline_ns := 2\<rparr>, sample_slot]) sample_pool" using wf by simp
  then have inv: "pool_inv sample_expired sample_pool"
    by (simp add: pool_inv_def pool_shape_def gens_ready_def same) (simp add: sample_state_def)
  have st: "\<not> link_stale sample_expired (sample_link 1 5 3 ZIPC_LINK_ROLE_CONSUMER)"
    by simp
  have addr: "claim_addressed sample_expired sample_pool sample_transfer 5"
    by (simp add: claim_addressed_def same sample_slots_simps zipc_component_id_valid_iff)
  have "sc_generation sample_transfer_slot = 1" "sc_owner_id sample_transfer_slot = 3" "sc_next_owner_id sample_transfer_slot = 5"
    "sc_transfer_sequence sample_transfer_slot = 1"
    by (simp_all add: sample_defs transfer_fields_def)
  note sl = same(2) [of sample_pool 0] sample_slots_simps this
  show ?thesis
    by (rule expired_transfer_is_stranded [OF inv _ _ _ _ st _ _ _ refl])
      (simp_all add: addr sl same(5) deadline_open_def ZIPC_DEADLINE_NONE_def UINT64_MAX_def)
qed

end
