(* ===== verification/Link_Recovery.thy ===== *)
theory Link_Recovery
  imports Link_Properties Recovery_Properties
begin

text \<open>
  Reconciliation of a link after the restart of its component. The producer side announces again
  every transfer of the dead epoch and takes its interrupted sends back; the consumer side drops the
  descriptors at the head of the ring that no longer name a transfer. Both are compared with a
  description that has no loop.
\<close>

subsection \<open>One slot on the producer side\<close>

definition reconciled_slot :: "zipc_restart \<Rightarrow> zipc_slot_control \<Rightarrow> zipc_slot_control" where
  "reconciled_slot r sl =
     (let token = sc_claim_token sl; kind = claim_token_kind token in
      if sc_state sl = ZIPC_SLOT_CLAIMING \<and> (kind = ZIPC_CLAIM_SEND \<or> kind = ZIPC_CLAIM_ROLLBACK) \<and> dead_token r token
      then sl\<lparr>sc_transfer_sequence := sc_claim_previous_sequence sl, sc_next_owner_id := ZIPC_INVALID_COMPONENT_ID,
              sc_claim_token := 0, sc_state := ZIPC_SLOT_OWNED\<rparr>
      else if sc_state sl = ZIPC_SLOT_TRANSFER \<and> kind = ZIPC_CLAIM_ROLLBACK \<and> dead_token r token
      then sl\<lparr>sc_claim_token := 0\<rparr> else sl)"

definition unannounced :: "zipc_link \<Rightarrow> zipc_restart \<Rightarrow> zipc_slot_control \<Rightarrow> bool" where
  "unannounced l r sl \<longleftrightarrow> sc_state sl = ZIPC_SLOT_TRANSFER \<and> sc_owner_id sl = rs_component r \<and>
     sc_owner_epoch sl = rs_dead_epoch r \<and> sc_next_owner_id sl = lk_remote_component l \<and> sc_transfer_link_id sl = lk_link_id l"

definition slot_descriptor :: "zipc_link \<Rightarrow> zipc_slot_id \<Rightarrow> zipc_slot_control \<Rightarrow> zipc_message" where
  "slot_descriptor l i sl = transfer_message (lk_pool l) (zipc_handle_make i (sc_generation sl)) (sc_owner_id sl)
     (lk_remote_component l) (sc_transfer_sequence sl)"

lemma upd_slot_same: "slot_ptr_ok s c \<Longrightarrow> f (slot_of s c) = slot_of s c \<Longrightarrow> upd_slot c f s = s"
  by (cases s) (simp add: upd_slot_def slot_of_def Let_def fun_upd_idem)

lemma upd_slot_cong: "f (slot_of s c) = g (slot_of s c) \<Longrightarrow> upd_slot c f s = upd_slot c g s"
  by (simp add: upd_slot_def slot_of_def Let_def)

lemma producer_claiming_slot:
  assumes "lk_role l = ZIPC_LINK_ROLE_PRODUCER" "slot_ptr_ok s c" "c = slot_ptr (lk_pool l) i"
    and claiming: "sc_state (slot_of s c) = ZIPC_SLOT_CLAIMING"
  shows "reconcile_slot pf l r i s w = Reconcile_Next (upd_slot c (reconciled_slot r) s) w"
proof -
  let ?sl = "slot_of s c"
  let ?t = "sc_claim_token ?sl"
  have step: "reconcile_slot pf l r i s w = reconcile_claiming l r i ?t s w"
    using claiming assms(1,3) by (simp add: reconcile_slot_def Let_def)
  show ?thesis
  proof (cases "matching_kind l ?t \<and> dead_token r ?t")
    case True
    then have "reconciled_slot r ?sl = ?sl\<lparr>sc_transfer_sequence := sc_claim_previous_sequence ?sl,
        sc_next_owner_id := ZIPC_INVALID_COMPONENT_ID, sc_claim_token := 0, sc_state := ZIPC_SLOT_OWNED\<rparr>"
      using claiming assms(1) by (simp add: reconciled_slot_def matching_kind_def Let_def)
    then have "upd_slot c (reconciled_slot r) s = upd_slot c (\<lambda>sl. sl\<lparr>sc_transfer_sequence := sc_claim_previous_sequence sl,
        sc_next_owner_id := ZIPC_INVALID_COMPONENT_ID, sc_claim_token := 0, sc_state := ZIPC_SLOT_OWNED\<rparr>) s"
      by (intro upd_slot_cong) simp
    then show ?thesis
      using True claiming assms(1,3) unfolding step by (simp add: reconcile_claiming_def cas_state_def store_state_def Let_def)
  next
    case False
    then have "reconciled_slot r ?sl = ?sl" using claiming assms(1) by (auto simp: reconciled_slot_def matching_kind_def Let_def)
    then show ?thesis
      using False upd_slot_same [OF assms(2)] unfolding step by (auto simp: reconcile_claiming_def Let_def)
  qed
qed

text \<open>A slot in the transfer state is held in the error state while its fields are read: the outcome is
  the slot without a rollback token of the dead epoch.\<close>

lemma producer_transfer_slot:
  assumes "lk_role l = ZIPC_LINK_ROLE_PRODUCER" "slot_ptr_ok s c" "c = slot_ptr (lk_pool l) i"
    and transfer: "sc_state (slot_of s c) = ZIPC_SLOT_TRANSFER" and s1: "s1 = upd_slot c (reconciled_slot r) s"
    and "op_send pf (lk_transport l) (slot_descriptor l i (slot_of s c)) w = (st, w')"
  shows "reconcile_slot pf l r i s w =
    (if \<not> unannounced l r (slot_of s c) then Reconcile_Next s1 w
     else if st \<noteq> ZIPC_OK \<and> st \<noteq> ZIPC_ERR_TRANSPORT_PUBLISHED then Reconcile_Stop st s1 w' else Reconcile_Recovered s1 w')"
proof -
  let ?sl = "slot_of s c"
  let ?t = "sc_claim_token ?sl" and ?held = "store_state c ZIPC_SLOT_ERROR s1"
  define cleared where "cleared \<longleftrightarrow> claim_token_kind ?t = ZIPC_CLAIM_ROLLBACK \<and> dead_token r ?t"
  have rec: "reconciled_slot r ?sl = (if cleared then ?sl\<lparr>sc_claim_token := 0\<rparr> else ?sl)"
    using transfer by (simp add: reconciled_slot_def cleared_def Let_def)
  have ok1: "slot_ptr_ok s1 c" "slot_of s1 c = reconciled_slot r ?sl" using assms(2) by (simp_all add: s1)
  have st1: "sc_state (slot_of s1 c) = ZIPC_SLOT_TRANSFER" using ok1 rec transfer by simp
  have restored: "store_state c ZIPC_SLOT_TRANSFER ?held = s1"
    using ok1 st1 unfolding store_state_def by (simp add: upd_slot_same)
  have first: "(if cleared then snd (snd (cas_claim_token c ?t 0 s)) else s) = s1"
    using rec upd_slot_same [OF assms(2), of "reconciled_slot r"] upd_slot_cong [of "reconciled_slot r" s c "\<lambda>sl. sl\<lparr>sc_claim_token := 0\<rparr>"]
    by (simp add: s1 cas_claim_token_def Let_def)
  have keep: "sc_owner_id (slot_of ?held c) = sc_owner_id ?sl" "sc_owner_epoch (slot_of ?held c) = sc_owner_epoch ?sl"
    "sc_next_owner_id (slot_of ?held c) = sc_next_owner_id ?sl" "sc_transfer_link_id (slot_of ?held c) = sc_transfer_link_id ?sl"
    "sc_generation (slot_of ?held c) = sc_generation ?sl" "sc_transfer_sequence (slot_of ?held c) = sc_transfer_sequence ?sl"
    using ok1 rec by (simp_all add: store_state_def)
  have "reconcile_slot pf l r i s w = reconcile_transfer pf l r i s w"
    using transfer assms(1,3) by (simp add: reconcile_slot_def Let_def)
  also have "\<dots> = (if \<not> unannounced l r ?sl then Reconcile_Next s1 w
     else if st \<noteq> ZIPC_OK \<and> st \<noteq> ZIPC_ERR_TRANSPORT_PUBLISHED then Reconcile_Stop st s1 w' else Reconcile_Recovered s1 w')"
    unfolding reconcile_transfer_def Let_def assms(3) [symmetric] first [unfolded cleared_def] cas_state_simps(1) [OF st1] prod.case if_True
      bool.case keep restored
    using assms(6) transfer by (auto simp: unannounced_def slot_descriptor_def transfer_message_def)
  finally show ?thesis .
qed

lemma producer_slot:
  assumes "lk_role l = ZIPC_LINK_ROLE_PRODUCER" "slot_ptr_ok s c" "c = slot_ptr (lk_pool l) i" "s1 = upd_slot c (reconciled_slot r) s"
    and "op_send pf (lk_transport l) (slot_descriptor l i (slot_of s c)) w = (st, w')"
  shows "reconcile_slot pf l r i s w =
    (if \<not> unannounced l r (slot_of s c) then Reconcile_Next s1 w
     else if st \<noteq> ZIPC_OK \<and> st \<noteq> ZIPC_ERR_TRANSPORT_PUBLISHED then Reconcile_Stop st s1 w' else Reconcile_Recovered s1 w')"
proof -
  consider "sc_state (slot_of s c) = ZIPC_SLOT_CLAIMING" | "sc_state (slot_of s c) = ZIPC_SLOT_TRANSFER"
    | "sc_state (slot_of s c) \<noteq> ZIPC_SLOT_CLAIMING" "sc_state (slot_of s c) \<noteq> ZIPC_SLOT_TRANSFER" by blast
  then show ?thesis
  proof cases
    case 1
    then show ?thesis using producer_claiming_slot [OF assms(1-3)] assms(4) by (simp add: unannounced_def)
  next
    case 2
    then show ?thesis using producer_transfer_slot [OF assms(1-3) _ assms(4,5)] by simp
  next
    case 3
    then have "reconciled_slot r (slot_of s c) = slot_of s c" by (auto simp: reconciled_slot_def Let_def)
    then show ?thesis
      using 3 upd_slot_same [OF assms(2)] assms(1,3,4) by (auto simp: reconcile_slot_def unannounced_def Let_def)
  qed
qed

subsection \<open>The scan of the producer side\<close>

definition announced_slots :: "zipc_link \<Rightarrow> zipc_restart \<Rightarrow> sys \<Rightarrow> zipc_slot_id \<Rightarrow> nat \<Rightarrow> zipc_slot_id list" where
  "announced_slots l r s i n =
     filter (\<lambda>j. unannounced l r (slot_of s (slot_ptr (lk_pool l) j))) (map (\<lambda>k. i + of_nat k) [0..<n])"

definition announcements :: "zipc_link \<Rightarrow> zipc_restart \<Rightarrow> sys \<Rightarrow> zipc_slot_id \<Rightarrow> nat \<Rightarrow> zipc_message list" where
  "announcements l r s i n = map (\<lambda>j. slot_descriptor l j (slot_of s (slot_ptr (lk_pool l) j))) (announced_slots l r s i n)"

lemma slots_from_Suc: "map (\<lambda>k. (i :: u32) + of_nat k) [0..<Suc n] = i # map (\<lambda>k. i + 1 + of_nat k) [0..<n]"
  by (simp add: upt_conv_Cons map_Suc_upt [symmetric] algebra_simps del: upt_Suc)

lemma later_slot:
  assumes "unat i + Suc n \<le> 2 ^ 32" "k < n"
  shows "i + 1 + of_nat k \<noteq> (i :: u32)"
proof
  assume "i + 1 + of_nat k = i"
  then have "(of_nat (Suc k) :: u32) = 0" by (simp add: algebra_simps)
  moreover have "unat (of_nat (Suc k) :: u32) = Suc k" using assms by (simp add: unsigned_of_nat take_bit_nat_eq_self del: of_nat_Suc)
  ultimately show False by simp
qed

lemma announced_step:
  assumes "unat i + Suc n \<le> 2 ^ 32" "c = slot_ptr (lk_pool l) i"
  shows "announced_slots l r s i (Suc n) =
      (if unannounced l r (slot_of s c) then [i] else []) @ announced_slots l r (upd_slot c f s) (i + 1) n"
    "announcements l r s i (Suc n) =
      (if unannounced l r (slot_of s c) then [slot_descriptor l i (slot_of s c)] else []) @ announcements l r (upd_slot c f s) (i + 1) n"
proof -
  have same: "slot_of (upd_slot c f s) (slot_ptr (lk_pool l) j) = slot_of s (slot_ptr (lk_pool l) j)"
    if "j \<in> set (map (\<lambda>k. i + 1 + of_nat k) [0..<n])" for j
    using that later_slot [OF assms(1)] assms(2) by (auto simp: slot_ptr_def)
  show one: "announced_slots l r s i (Suc n) =
      (if unannounced l r (slot_of s c) then [i] else []) @ announced_slots l r (upd_slot c f s) (i + 1) n"
    unfolding announced_slots_def slots_from_Suc filter.simps
    using same filter_cong [OF refl, of "map (\<lambda>k. i + 1 + of_nat k) [0..<n]"
        "\<lambda>j. unannounced l r (slot_of s (slot_ptr (lk_pool l) j))" "\<lambda>j. unannounced l r (slot_of (upd_slot c f s) (slot_ptr (lk_pool l) j))"]
      assms(2) by simp
  have "map (\<lambda>j. slot_descriptor l j (slot_of s (slot_ptr (lk_pool l) j))) (announced_slots l r (upd_slot c f s) (i + 1) n) =
      announcements l r (upd_slot c f s) (i + 1) n"
    unfolding announcements_def announced_slots_def using same by (intro map_cong) auto
  then show "announcements l r s i (Suc n) =
      (if unannounced l r (slot_of s c) then [slot_descriptor l i (slot_of s c)] else []) @ announcements l r (upd_slot c f s) (i + 1) n"
    unfolding announcements_def [of l r s i "Suc n"] one using assms(2) by simp
qed

context descriptor_channel
begin

text \<open>One slot of a scan that returns OK: an unannounced transfer is pushed and counted.\<close>

lemma producer_scan_step:
  fixes l s i
  defines "c \<equiv> slot_ptr (lk_pool l) i"
  defines "m \<equiv> slot_descriptor l i (slot_of s c)"
  assumes chan: "chan_ok w" and l: "lk_transport l = out" "lk_role l = ZIPC_LINK_ROLE_PRODUCER" and ok: "slot_ptr_ok s c"
    and run: "reconcile_scan pf l r i (Suc n) k s w = (ZIPC_OK, k', t, w')"
  obtains k1 w2 where "reconcile_scan pf l r (i + 1) n k1 (upd_slot c (reconciled_slot r) s) w2 = (ZIPC_OK, k', t, w')"
    "chan_ok w2" "queue w2 = fold push (if unannounced l r (slot_of s c) then [m] else []) (queue w)"
    "k1 = k + of_nat (length (if unannounced l r (slot_of s c) then [m] else []))"
proof -
  obtain st w1 where send: "op_send pf out m w = (st, w1)" by fastforce
  note slot = producer_slot [OF l(2) ok c_def [THEN meta_eq_to_obj_eq] refl, where pf = pf and w = w and r = r, unfolded l(1),
      OF send [unfolded m_def]]
  note step = run [unfolded reconcile_scan.simps slot]
  show thesis
  proof (cases "unannounced l r (slot_of s c)")
    case True
    have st: "st = ZIPC_OK \<or> st = ZIPC_ERR_TRANSPORT_PUBLISHED"
      using step True by (cases "st = ZIPC_OK \<or> st = ZIPC_ERR_TRANSPORT_PUBLISHED") simp_all
    then have "reconcile_scan pf l r (i + 1) n (k + 1) (upd_slot c (reconciled_slot r) s) w1 = (ZIPC_OK, k', t, w')"
      using step True by (cases "st = ZIPC_OK") simp_all
    moreover have "chan_ok w1" "queue w1 = push m (queue w)"
      using send_law [OF chan send] st by (simp_all add: if_P [OF st])
    ultimately show thesis using that True by simp
  next
    case False
    then show thesis using that step chan by simp
  qed
qed

text \<open>A scan of the slots from \<open>i\<close> on that returns OK has pushed the descriptors of exactly the
  unannounced transfers, in the order of the slots, counted them, and reconciled each slot.\<close>

lemma producer_scan:
  assumes "chan_ok w" "lk_transport l = out" "lk_role l = ZIPC_LINK_ROLE_PRODUCER" "unat i + n \<le> 2 ^ 32"
    and "\<forall>j. unat j < unat i + n \<longrightarrow> slot_ptr_ok s (slot_ptr (lk_pool l) j)"
    and "reconcile_scan pf l r i n k s w = (ZIPC_OK, k', t, w')"
  shows "chan_ok w' \<and> queue w' = fold push (announcements l r s i n) (queue w) \<and>
    k' = k + of_nat (length (announced_slots l r s i n)) \<and>
    (\<forall>j. slot_of t (slot_ptr (lk_pool l) j) =
       (if unat i \<le> unat j \<and> unat j < unat i + n then reconciled_slot r else id) (slot_of s (slot_ptr (lk_pool l) j)))"
  using assms
proof (induction n arbitrary: i k s w)
  case 0
  then show ?case by (auto simp: announcements_def announced_slots_def)
next
  case (Suc n)
  let ?c = "slot_ptr (lk_pool l) i"
  let ?s = "upd_slot ?c (reconciled_slot r) s" and ?m = "slot_descriptor l i (slot_of s ?c)"
  have ok: "slot_ptr_ok s ?c" using Suc.prems(5) by simp
  note ann = announced_step [OF Suc.prems(4) refl, of l r s "reconciled_slot r"]
  obtain k1 w2 where rest: "reconcile_scan pf l r (i + 1) n k1 ?s w2 = (ZIPC_OK, k', t, w')"
    and w2: "chan_ok w2" "queue w2 = fold push (if unannounced l r (slot_of s ?c) then [?m] else []) (queue w)"
    and k1: "k1 = k + of_nat (length (if unannounced l r (slot_of s ?c) then [?m] else []))"
    by (rule producer_scan_step [OF Suc.prems(1-3) ok Suc.prems(6)])
  have slots: "slot_of ?s (slot_ptr (lk_pool l) j) =
      (if j = i then reconciled_slot r else id) (slot_of s (slot_ptr (lk_pool l) j))" for j
    using ok by (simp add: slot_ptr_def)
  have later: "chan_ok w' \<and> queue w' = fold push (announcements l r ?s (i + 1) n) (queue w2) \<and>
    k' = k1 + of_nat (length (announced_slots l r ?s (i + 1) n)) \<and>
    (\<forall>j. slot_of t (slot_ptr (lk_pool l) j) =
       (if unat i < unat j \<and> unat j < unat i + Suc n then reconciled_slot r else id) (slot_of ?s (slot_ptr (lk_pool l) j)))"
  proof (cases "n = 0")
    case True
    then show ?thesis using rest w2(1) by (auto simp: announcements_def announced_slots_def)
  next
    case False
    then have next_i: "unat (i + 1) = Suc (unat i)" using Suc.prems(4) by (simp add: unat_word_ariths)
    have "unat (i + 1) + n \<le> 2 ^ 32" "\<forall>j. unat j < unat (i + 1) + n \<longrightarrow> slot_ptr_ok ?s (slot_ptr (lk_pool l) j)"
      using Suc.prems(4,5) by (simp_all add: next_i)
    from Suc.IH [OF w2(1) Suc.prems(2,3) this rest] show ?thesis unfolding next_i Suc_le_eq add_Suc add_Suc_right .
  qed
  have "slot_of t (slot_ptr (lk_pool l) j) =
       (if unat i \<le> unat j \<and> unat j < unat i + Suc n then reconciled_slot r else id) (slot_of s (slot_ptr (lk_pool l) j))" for j
  proof (cases "j = i")
    case False
    then have "unat i \<noteq> unat j" by (simp add: word_unat_eq_iff)
    then show ?thesis using later slots [of j] False by (simp add: le_less)
  qed (use later slots [of i] in simp)
  moreover have "queue w' = fold push (announcements l r s i (Suc n)) (queue w)"
    using later w2(2) unfolding ann(2) by simp
  moreover have "k' = k + of_nat (length (announced_slots l r s i (Suc n)))"
    using later k1 unfolding ann(1) by simp
  ultimately show ?case using later by blast
qed

end

lemma queue_push_fold:
  "\<exists>more. fold queue_push ms q = q @ more"
  "m \<in> set ms \<Longrightarrow> \<exists>x \<in> set (fold queue_push ms q). same_descriptor x m"
proof -
  show prefix: "\<exists>more. fold queue_push ms q = q @ more" for ms q
  proof (induction ms arbitrary: q)
    case (Cons m ms)
    then show ?case using queue_push_prefix [of m q] by (metis append.assoc fold_simps(2))
  qed simp
  have has: "\<exists>x \<in> set (queue_push m q). same_descriptor x m" for m q
    by (auto simp: queue_push_def same_descriptor_def)
  show "m \<in> set ms \<Longrightarrow> \<exists>x \<in> set (fold queue_push ms q). same_descriptor x m"
  proof (induction ms arbitrary: q)
    case (Cons y ms)
    show ?case
    proof (cases "m = y")
      case True
      obtain more where "fold queue_push ms (queue_push y q) = queue_push y q @ more" using prefix by blast
      then show ?thesis using has [of y q] True by auto
    qed (use Cons in simp)
  qed simp
qed

lemma scan_of_reconcile:
  assumes "zipc_link_reconcile pf (Some l) (Some r) s w = (ZIPC_OK, n, t, w')"
  obtains k w1 where "reconcile_scan pf l r 0 (unat (ph_slot_count (hdr s (lk_pool l)))) 0 s w = (ZIPC_OK, k, t, w1)" "n = Some k"
    "w' = (if lk_role l = ZIPC_LINK_ROLE_CONSUMER
           then op_store_ring pf (lk_recovery_ring l) (map_option (reconcile_ring (lk_pool l) t) (op_ring pf (lk_recovery_ring l) w1)) w1
           else w1)"
proof -
  obtain st k t1 w1 where sc: "reconcile_scan pf l r 0 (unat (ph_slot_count (hdr s (lk_pool l)))) 0 s w = (st, k, t1, w1)"
    by (metis prod_cases4)
  show thesis
    using assms that unfolding zipc_link_reconcile_def prod.case option.case sc Let_def
    by (simp split: if_split_asm) auto
qed

text \<open>C24: The producer side of a reconciliation over a shared ring (whose depth divides \<open>2^32\<close>) announces exactly the transfers of the
  dead epoch that the link had not completed: their descriptors are pushed in the order of the slots,
  none is missing from the ring afterwards, their number is reported, and every slot an interrupted
  send or rollback had claimed is owned by its component again.\<close>

theorem producer_reconcile_announces:
  assumes inv: "pool_inv s p" and ring: "ring_endpoints a t1 t2 w"
    and l: "lk_pool l = p" "lk_transport l = Some t1" "lk_role l = ZIPC_LINK_ROLE_PRODUCER"
    and res: "zipc_link_reconcile linux_platform (Some l) (Some r) s w = (ZIPC_OK, n, t, w')"
  shows "pending a w' = fold queue_push (announcements l r s 0 (unat (ph_slot_count (hdr s p)))) (pending a w) \<and>
    n = Some (of_nat (length (announced_slots l r s 0 (unat (ph_slot_count (hdr s p)))))) \<and>
    (\<forall>j. j < ph_slot_count (hdr s p) \<longrightarrow>
       slot_of t (slot_ptr p j) = reconciled_slot r (slot_of s (slot_ptr p j)) \<and>
       (unannounced l r (slot_of s (slot_ptr p j)) \<longrightarrow>
          (\<exists>x \<in> set (pending a w'). same_descriptor x (slot_descriptor l j (slot_of s (slot_ptr p j))))))"
proof -
  let ?c = "ph_slot_count (hdr s p)"
  obtain k where sc: "reconcile_scan linux_platform l r 0 (unat ?c) 0 s w = (ZIPC_OK, k, t, w')" and n: "n = Some k"
    using scan_of_reconcile [OF res] l by (metis zipc_link_role.distinct(5))
  have ok: "\<forall>j. unat j < unat (0 :: u32) + unat ?c \<longrightarrow> slot_ptr_ok s (slot_ptr (lk_pool l) j)"
    using inv l(1) by (simp add: slot_ptr_ok_iff pool_inv_def word_less_nat_alt)
  have bound: "unat (0 :: u32) + unat ?c \<le> 2 ^ 32" using unsigned_less [of ?c, where 'a = nat] by simp
  note scanned = ring_link.producer_scan [OF ring l(2,3) bound ok sc, unfolded l(1)]
  have "slot_descriptor l j (slot_of s (slot_ptr p j)) \<in> set (announcements l r s 0 (unat ?c))"
    if "j < ?c" "unannounced l r (slot_of s (slot_ptr p j))" for j
  proof -
    have "unat j < unat ?c" using that(1) by (simp add: word_less_nat_alt)
    then have "j \<in> (\<lambda>k. 0 + of_nat k) ` {0..<unat ?c}" by (intro image_eqI [of _ _ "unat j"]) simp_all
    then show ?thesis using that(2) l(1) unfolding announcements_def announced_slots_def by simp
  qed
  then have "\<exists>x \<in> set (pending a w'). same_descriptor x (slot_descriptor l j (slot_of s (slot_ptr p j)))"
    if "j < ?c" "unannounced l r (slot_of s (slot_ptr p j))" for j
    using that scanned queue_push_fold(2) by simp
  moreover have "slot_of t (slot_ptr p j) = reconciled_slot r (slot_of s (slot_ptr p j))" if "j < ?c" for j
    using scanned that by (simp add: word_less_nat_alt)
  moreover have "n = Some (of_nat (length (announced_slots l r s 0 (unat ?c))))" using scanned n by simp
  ultimately show ?thesis using scanned by blast
qed

text \<open>The push looks for room before it looks for the descriptor: on a full ring an announcement is refused
  although its descriptor is already pending, and the reconciliation returns the transport error.\<close>

lemma pending_duplicate_refused_when_full:
  assumes "ring_invar x" "ring_used x = unat (ring_depth x)" "m \<in> set (ring_list x)"
  shows "zipc_linux_common_ring_push (Some x) (Some m) = (ZIPC_ERR_TRANSPORT, Some x)"
  using ring_push_cases [OF assms(1), of m] assms(2) by simp

subsection \<open>The consumer side\<close>

text \<open>The slot loop of a consumer does not touch the transport.\<close>

definition world_kept :: "'w \<Rightarrow> 'w reconcile_outcome \<Rightarrow> bool" where
  "world_kept w x \<longleftrightarrow> (case x of Reconcile_Next _ w' \<Rightarrow> w' = w | Reconcile_Recovered _ _ \<Rightarrow> False | Reconcile_Stop _ _ w' \<Rightarrow> w' = w)"

lemma world_kept_next: "world_kept w (Reconcile_Next s w)"
  by (simp add: world_kept_def)

lemma claiming_world: "world_kept w (reconcile_claiming l r i token s w)"
  by (simp add: reconcile_claiming_def world_kept_def Let_def split: prod.split bool.split)

lemma consumer_slot: "lk_role l = ZIPC_LINK_ROLE_CONSUMER \<Longrightarrow> world_kept w (reconcile_slot pf l r i s w)"
  by (simp add: reconcile_slot_def claiming_world world_kept_next Let_def)

lemma consumer_scan:
  assumes "lk_role l = ZIPC_LINK_ROLE_CONSUMER" "reconcile_scan pf l r i n k s w = (st, k', t, w')"
  shows "k' = k \<and> w' = w"
  using assms(2)
proof (induction n arbitrary: i s)
  case (Suc n)
  then show ?case
    using consumer_slot [OF assms(1), of w pf r i s] by (cases "reconcile_slot pf l r i s w") (auto simp: world_kept_def)
qed simp

lemma reconcile_ring_list:
  assumes "ring_invar x"
  shows "ring_list (reconcile_ring p s x) = dropWhile (\<lambda>m. \<not> descriptor_live p s m) (ring_list x) \<and>
    ring_invar (reconcile_ring p s x)"
  using assms
proof (induction p s x rule: reconcile_ring.induct)
  case (1 p s x)
  consider "ring_consumer x = ring_producer x" | "ring_consumer x \<noteq> ring_producer x" "descriptor_live p s (hd (ring_list x))"
    | "ring_consumer x \<noteq> ring_producer x" "\<not> descriptor_live p s (hd (ring_list x))" by blast
  then show ?case
  proof cases
    case 1
    then show ?thesis using "1.prems" by (simp add: reconcile_ring.simps [of p s x] ring_list_empty_iff [THEN iffD2])
  next
    case 2
    note h = ring_list_hd [OF 2(1)]
    then have "dropWhile (\<lambda>m. \<not> descriptor_live p s m) (ring_list x) = ring_list x" using 2(2) by (cases "ring_list x") auto
    then show ?thesis using "1.prems" 2 h(2) by (simp add: reconcile_ring.simps [of p s x])
  next
    case 3
    note h = ring_list_hd [OF 3(1)] and adv = ring_advance_list [OF "1.prems" 3(1)]
    have "dropWhile (\<lambda>m. \<not> descriptor_live p s m) (ring_list x) = dropWhile (\<lambda>m. \<not> descriptor_live p s m) (tl (ring_list x))"
      using 3(2) h(1) by (cases "ring_list x") auto
    then show ?thesis
      using "1.IH" 3 h(2) adv by (simp add: reconcile_ring.simps [of p s x])
  qed
qed

text \<open>A descriptor names a transfer when its handle is the current handle of a slot in transfer.\<close>

definition names_transfer :: "zipc_pool \<Rightarrow> sys \<Rightarrow> zipc_message \<Rightarrow> bool" where
  "names_transfer p s m \<longleftrightarrow> (\<exists>i. i < ph_slot_count (hdr s p) \<and> sc_state (slot_of s (slot_ptr p i)) = ZIPC_SLOT_TRANSFER \<and>
     msg_handle m = zipc_handle_make i (sc_generation (slot_of s (slot_ptr p i))))"

lemma descriptor_live_names: "descriptor_live p s m \<longleftrightarrow> names_transfer p s m"
proof
  assume "descriptor_live p s m"
  then show "names_transfer p s m"
    unfolding descriptor_live_def names_transfer_def Let_def not_le
    by (intro exI [of _ "zipc_handle_slot_id (msg_handle m)"]) (simp add: zipc_handle_make_unpack)
qed (auto simp: descriptor_live_def names_transfer_def Let_def not_le)

text \<open>C25: The consumer side of a reconciliation over a shared ring (whose depth divides \<open>2^32\<close>) removes
  from the head of the ring exactly the descriptors whose handle is not the current handle of a
  slot in transfer, that is of another slot state or of another generation, up to the first whose
  handle is. The ring keeps its order and every descriptor that names a transfer.\<close>

theorem consumer_reconcile_drops_stale:
  assumes "ring_invar (lh_rings w a)" "lk_role l = ZIPC_LINK_ROLE_CONSUMER" "lk_recovery_ring l = Some a"
    and res: "zipc_link_reconcile linux_platform (Some l) (Some r) s w = (ZIPC_OK, n, t, w')"
  shows "pending a w' = dropWhile (\<lambda>m. \<not> names_transfer (lk_pool l) t m) (pending a w) \<and> ring_invar (lh_rings w' a) \<and>
    (\<forall>m. names_transfer (lk_pool l) t m \<longrightarrow> count_list (pending a w') m = count_list (pending a w) m) \<and> n = Some 0"
proof -
  obtain k w1 where sc: "reconcile_scan linux_platform l r 0 (unat (ph_slot_count (hdr s (lk_pool l)))) 0 s w = (ZIPC_OK, k, t, w1)"
    "n = Some k" "w' = store_ring (Some a) (Some (reconcile_ring (lk_pool l) t (lh_rings w1 a))) w1"
    using scan_of_reconcile [OF res] assms(2,3) by (auto simp: linux_platform_def ring_at_def)
  have k: "k = 0" "w1 = w" using consumer_scan [OF assms(2) sc(1)] by simp_all
  have drop: "pending a w' = dropWhile (\<lambda>m. \<not> names_transfer (lk_pool l) t m) (pending a w)" "ring_invar (lh_rings w' a)"
    using reconcile_ring_list [OF assms(1)] sc(3) k by (simp_all add: store_ring_def pending_def descriptor_live_names)
  have "count_list (dropWhile (\<lambda>m. \<not> names_transfer (lk_pool l) t m) q) m = count_list q m" if "names_transfer (lk_pool l) t m" for m q
    using that by (induction q) auto
  then show ?thesis using drop sc(2) k by simp
qed

subsection \<open>A restart of component 3 with a transfer in flight\<close>

definition sample_in_flight :: zipc_slot_control where
  "sample_in_flight = sample_transfer_slot\<lparr>sc_transfer_link_id := 77\<rparr>"

definition sample_restarted :: "zipc_component_id \<Rightarrow> sys" where
  "sample_restarted c = upd_component sample_pool c (\<lambda>e. e\<lparr>cs_lifecycle := component_lifecycle_make 1 ZIPC_COMPONENT_RECOVERING\<rparr>)
     (sample_state [sample_in_flight, sample_slot])"

definition sample_restart_of :: "zipc_component_id \<Rightarrow> zipc_restart" where
  "sample_restart_of c = sample_restart\<lparr>rs_component := c\<rparr>"

definition sample_new_link :: "zipc_component_id \<Rightarrow> zipc_component_id \<Rightarrow> zipc_link_role \<Rightarrow> zipc_link" where
  "sample_new_link from_id to_id link_role = (sample_link 1 from_id to_id link_role)\<lparr>lk_local_epoch := 1\<rparr>"

lemma sample_restarted_reads [simp]:
  "ph_slot_count (hdr (sample_restarted c) sample_pool) = 2"
  "slot_of (sample_restarted c) (slot_ptr sample_pool 0) = sample_in_flight"
  "slot_of (sample_restarted c) (slot_ptr sample_pool 1) = sample_slot"
  by (simp_all add: sample_restarted_def upd_component_def sample_header_def)

lemma sample_restarted_inv [simp]: "pool_inv (sample_restarted c) sample_pool"
proof -
  have "slot_wf 64 sample_in_flight" by code_simp
  then show ?thesis by (simp add: sample_restarted_def upd_component_inv)
qed

lemma sample_restarted_lifecycle:
  "zipc_component_id_valid c \<Longrightarrow> component_epoch_recovering (sample_restarted c) (Some sample_pool) c 1"
proof -
  assume "zipc_component_id_valid c"
  moreover have "length (ph_components sample_header) = 256" by (simp add: sample_header_def)
  ultimately show ?thesis by (simp add: component_epoch_recovering_def sample_restarted_def)
qed

lemma sample_producer_scan:
  obtains t h' where "zipc_link_reconcile linux_platform (Some (sample_new_link 3 5 ZIPC_LINK_ROLE_PRODUCER)) (Some (sample_restart_of 3))
    (sample_restarted 3) (sample_host sample_polling (sample_ring 4 0) 0) = (ZIPC_OK, Some 1, t, h')"
proof -
  let ?l = "sample_new_link 3 5 ZIPC_LINK_ROLE_PRODUCER" and ?r = "sample_restart_of 3" and ?s = "sample_restarted 3"
    and ?h = "sample_host sample_polling (sample_ring 4 0) 0"
  let ?c = "\<lambda>i. slot_ptr sample_pool i"
  define s1 where "s1 = upd_slot (?c 0) (reconciled_slot ?r) ?s"
  define s2 where "s2 = upd_slot (?c 1) (reconciled_slot ?r) s1"
  have l: "lk_role ?l = ZIPC_LINK_ROLE_PRODUCER" "lk_pool ?l = sample_pool" "lk_transport ?l = Some 1" "lk_link_id ?l = 77"
    "lk_local_component ?l = 3" "lk_remote_component ?l = 5" "lk_local_epoch ?l = 1" "lk_transport_type ?l = ZIPC_TRANSPORT_SHM_RING_POLLING"
    "lk_recovery_ring ?l = Some 2" by (simp_all add: sample_new_link_def) (simp add: sample_link_def)
  have r: "rs_pool ?r = Some sample_pool" "rs_component ?r = 3" "rs_epoch ?r = 1" "rs_dead_epoch ?r = 0"
    by (simp_all add: sample_restart_of_def sample_restart_def)
  have ok: "slot_ptr_ok ?s (?c 0)" "slot_ptr_ok s1 (?c 1)"
    using pool_inv_shape [OF sample_restarted_inv, of 3] by (simp_all add: s1_def slot_ptr_ok_iff)
  obtain st h1 where send: "op_send linux_platform (Some 1) (slot_descriptor ?l 0 sample_in_flight) ?h = (st, h1)" by fastforce
  then have "st = ZIPC_OK"
    by (simp add: linux_platform_def zipc_platform_transport_send_def sample_polling_def push_descriptor_def ring_at_def ring_with_push)
  moreover have "unannounced ?l ?r sample_in_flight"
    by (simp add: unannounced_def l r sample_in_flight_def sample_transfer_slot_def transfer_fields_def sample_slots_simps)
  ultimately have one: "reconcile_slot linux_platform ?l ?r 0 ?s ?h = Reconcile_Recovered s1 h1"
    using producer_slot [OF l(1) ok(1) _ s1_def, of 0 linux_platform ?h st h1] send by (simp add: l)
  obtain st2 h2 where send2: "op_send linux_platform (Some 1) (slot_descriptor ?l 1 sample_slot) h1 = (st2, h2)" by fastforce
  have ne: "?c 0 \<noteq> ?c 1" by (simp add: slot_ptr_def)
  have "slot_of s1 (?c 1) = sample_slot" using ne by (simp add: s1_def)
  moreover have "\<not> unannounced ?l ?r sample_slot" by (simp add: unannounced_def sample_slot_def)
  ultimately have two: "reconcile_slot linux_platform ?l ?r 1 s1 h1 = Reconcile_Next s2 h1"
    using producer_slot [OF l(1) ok(2) _ s2_def, of 1 linux_platform h1 st2 h2] send2 by (simp add: l)
  have "reconcile_scan linux_platform ?l ?r 0 2 0 ?s ?h = (ZIPC_OK, 1, s2, h1)"
    by (simp add: numeral_2_eq_2 one two)
  then show thesis
    using that sample_restarted_lifecycle [of 3]
    by (simp add: zipc_link_reconcile_def l r ring_type_def zipc_component_id_valid_iff)
qed

theorem producer_reconcile_announces_witness:
  "let l = sample_new_link 3 5 ZIPC_LINK_ROLE_PRODUCER; h = sample_host sample_polling (sample_ring 4 0) 0 in
   \<exists>t h'. zipc_link_reconcile linux_platform (Some l) (Some (sample_restart_of 3)) (sample_restarted 3) h = (ZIPC_OK, Some 1, t, h') \<and>
     pending 2 h' = fold queue_push (announcements l (sample_restart_of 3) (sample_restarted 3) 0 2) []"
proof -
  let ?l = "sample_new_link 3 5 ZIPC_LINK_ROLE_PRODUCER" and ?h = "sample_host sample_polling (sample_ring 4 0) 0"
  obtain t h' where r: "zipc_link_reconcile linux_platform (Some ?l) (Some (sample_restart_of 3)) (sample_restarted 3) ?h = (ZIPC_OK, Some 1, t, h')"
    by (rule sample_producer_scan)
  have "ring_endpoints 2 1 1 ?h" "pending 2 ?h = []" by simp_all
  with producer_reconcile_announces [OF sample_restarted_inv this(1) _ _ _ r]
  have "pending 2 h' = fold queue_push (announcements ?l (sample_restart_of 3) (sample_restarted 3) 0 2) []"
    by (simp add: sample_new_link_def)
  then show ?thesis unfolding Let_def using r by blast
qed

text \<open>The ring of the consumer 5 holds the descriptor of a generation that is gone.\<close>

theorem consumer_reconcile_drops_stale_witness:
  "let l = sample_new_link 5 3 ZIPC_LINK_ROLE_CONSUMER; h = sample_host sample_polling (ring_with (sample_message 1)) 0 in
   \<exists>n t h'. zipc_link_reconcile linux_platform (Some l) (Some (sample_restart_of 5)) (sample_restarted 5) h = (ZIPC_OK, n, t, h') \<and>
     pending 2 h' = dropWhile (\<lambda>m. \<not> names_transfer sample_pool t m) [sample_message 1] \<and> n = Some 0"
proof -
  let ?l = "sample_new_link 5 3 ZIPC_LINK_ROLE_CONSUMER" and ?h = "sample_host sample_polling (ring_with (sample_message 1)) 0"
    and ?s = "sample_restarted 5" and ?r = "sample_restart_of 5"
  have l: "lk_role ?l = ZIPC_LINK_ROLE_CONSUMER" "lk_pool ?l = sample_pool" "lk_link_id ?l = 77"
    "lk_local_component ?l = 5" "lk_local_epoch ?l = 1" "lk_transport_type ?l = ZIPC_TRANSPORT_SHM_RING_POLLING"
    "lk_recovery_ring ?l = Some 2" by (simp_all add: sample_new_link_def) (simp add: sample_link_def)
  have "sc_claim_token sample_in_flight = 0" "sc_state sample_in_flight = ZIPC_SLOT_TRANSFER"
    by (simp_all add: sample_in_flight_def sample_transfer_slot_def transfer_fields_def sample_slots_simps)
  moreover have "claim_token_kind 0 \<noteq> ZIPC_CLAIM_RECEIVE" by code_simp
  moreover have "sc_state sample_slot = ZIPC_SLOT_FREE" by (simp add: sample_slot_def)
  ultimately have "reconcile_slot linux_platform ?l ?r 0 ?s ?h = Reconcile_Next ?s ?h" "reconcile_slot linux_platform ?l ?r 1 ?s ?h = Reconcile_Next ?s ?h"
    by (simp_all add: reconcile_slot_def l Let_def)
  then have "reconcile_scan linux_platform ?l ?r 0 2 0 ?s ?h = (ZIPC_OK, 0, ?s, ?h)" by (simp add: numeral_2_eq_2)
  then obtain h' where res: "zipc_link_reconcile linux_platform (Some ?l) (Some ?r) ?s ?h = (ZIPC_OK, Some 0, ?s, h')"
    using sample_restarted_lifecycle [of 5]
    by (simp add: zipc_link_reconcile_def l ring_type_def zipc_component_id_valid_iff sample_restart_of_def sample_restart_def)
  have "ring_invar (lh_rings ?h 2)" "pending 2 ?h = [sample_message 1]"
    by (simp_all add: ring_with_push pending_def)
  with consumer_reconcile_drops_stale [OF this(1) l(1,7) res] show ?thesis
    unfolding Let_def using res l(2) by (intro exI [of _ "Some 0"] exI [of _ ?s] exI [of _ h']) simp
qed

end
