(* ===== verification/Port_Host.thy ===== *)
theory Port_Host
  imports Linux_Transport "HOL-Library.Multiset"
begin

text \<open>
  The environment of the platform ports: the objects a port keeps on its heap, the shared rings and
  mailboxes, and the calls into the kernel or the run-time system, answered from a stream of replies
  and recorded in a log. Then what the ports have in common: the descriptor ring without duplicate
  suppression that \<^verbatim>\<open>platform-freertos.c\<close>, \<^verbatim>\<open>platform-baremetal.c\<close>, \<^verbatim>\<open>platform-xen.c\<close> and the kernel
  transport use, and the receive tokens of a transport that takes a descriptor at once.
\<close>

subsection \<open>Requests, replies and the host\<close>

datatype port_request =
    Port_alloc | Port_free "nat option" | Port_clock | Port_random nat | Port_page_size
  | Port_signal_send "nat option" nat | Port_signal_wait "nat option" nat u32
  | Port_secure_call "nat option" nat u32 zipc_message
  | Port_rpmsg_send "nat option" zipc_message
  | Port_queue_create u32 | Port_queue_send "nat option" zipc_message u32 | Port_queue_receive "nat option" u32
  | Port_queue_delete "nat option"
  | Port_notify_give "nat option" u32 | Port_notify_take u32 u32
  | Port_shm_open string bool | Port_open string bool | Port_open_device string bool | Port_ftruncate int u64 | Port_mmap u64 int u64
  | Port_munmap nat u64 | Port_close int | Port_shm_unlink string | Port_unlink string
  | Port_bind_static int u32 | Port_bind_interdomain int u32 u32 | Port_bind_unbound int u32
  | Port_notify int u32 | Port_unbind int u32 | Port_read_port int | Port_write_port int u32
  | Port_kfifo_avail nat | Port_kfifo_in nat zipc_message | Port_kfifo_len nat | Port_kfifo_out nat
  | Port_wake_up nat | Port_wait_event nat nat | Port_callback nat nat | Port_callback_wait nat nat nat

record 't port_host =
  po_object :: "nat \<Rightarrow> 't"
  po_rings :: "nat \<Rightarrow> zipc_transport_spsc_ring"
  po_mail :: "nat \<Rightarrow> zipc_message"
  po_reply :: "nat \<Rightarrow> os_reply"
  po_calls :: nat
  po_log :: "(port_request \<times> os_reply) list"

definition port_call :: "port_request \<Rightarrow> 't port_host \<Rightarrow> os_reply \<times> 't port_host" where
  "port_call req h =
     (let r = po_reply h (po_calls h)
      in (r, h\<lparr>po_calls := Suc (po_calls h), po_log := po_log h @ [(req, r)]\<rparr>))"

definition port_do :: "port_request \<Rightarrow> 't port_host \<Rightarrow> 't port_host" where
  "port_do req h = snd (port_call req h)"

definition upd_object :: "nat \<Rightarrow> ('t \<Rightarrow> 't) \<Rightarrow> 't port_host \<Rightarrow> 't port_host" where
  "upd_object t f h = h\<lparr>po_object := (po_object h)(t := f (po_object h t))\<rparr>"

definition put_ring :: "nat \<Rightarrow> zipc_transport_spsc_ring \<Rightarrow> 't port_host \<Rightarrow> 't port_host" where
  "put_ring a r h = h\<lparr>po_rings := (po_rings h)(a := r)\<rparr>"

lemma port_call_eq:
  "port_call req h = (po_reply h (po_calls h),
     h\<lparr>po_calls := Suc (po_calls h), po_log := po_log h @ [(req, po_reply h (po_calls h))]\<rparr>)"
  by (simp add: port_call_def Let_def)

lemma port_host_simps [simp]:
  "po_rings (snd (port_call req h)) = po_rings h" "po_object (snd (port_call req h)) = po_object h"
  "po_mail (snd (port_call req h)) = po_mail h" "po_reply (snd (port_call req h)) = po_reply h"
  "po_calls (snd (port_call req h)) = Suc (po_calls h)"
  "po_rings (upd_object t f h) = po_rings h" "po_object (upd_object t f h) = (po_object h)(t := f (po_object h t))"
  "po_log (upd_object t f h) = po_log h" "po_reply (upd_object t f h) = po_reply h" "po_calls (upd_object t f h) = po_calls h"
  "po_rings (put_ring a r h) = (po_rings h)(a := r)" "po_object (put_ring a r h) = po_object h"
  "po_log (put_ring a r h) = po_log h" "po_reply (put_ring a r h) = po_reply h" "po_calls (put_ring a r h) = po_calls h"
  "po_mail (put_ring a r h) = po_mail h" "po_mail (upd_object t f h) = po_mail h"
  by (simp_all add: port_call_eq upd_object_def put_ring_def)

subsection \<open>Resources\<close>

text \<open>What a port holds after a sequence of calls: heap blocks, descriptors, mappings, queues and event
  channel bindings, as a multiset.\<close>

datatype port_resource = Held_heap nat | Held_fd int | Held_map nat | Held_queue nat | Held_port int u32

abbreviation held_address :: "(nat \<Rightarrow> port_resource) \<Rightarrow> nat option \<Rightarrow> port_resource multiset" where
  "held_address f a \<equiv> (case a of None \<Rightarrow> {#} | Some x \<Rightarrow> {#f x#})"

abbreviation held_fd :: "int \<Rightarrow> port_resource multiset" where
  "held_fd v \<equiv> (if v \<ge> 0 then {#Held_fd v#} else {#})"

abbreviation held_binding :: "int \<Rightarrow> int \<Rightarrow> port_resource multiset" where
  "held_binding fd v \<equiv> (if v \<ge> 0 then {#Held_port fd (word_of_int v)#} else {#})"

definition port_acquired :: "port_request \<times> os_reply \<Rightarrow> port_resource multiset" where
  "port_acquired c =
     (let r = snd c in
      case fst c of
        Port_alloc \<Rightarrow> held_address Held_heap (re_address r)
      | Port_queue_create _ \<Rightarrow> held_address Held_queue (re_address r)
      | Port_shm_open _ _ \<Rightarrow> held_fd (re_value r)
      | Port_open _ _ \<Rightarrow> held_fd (re_value r)
      | Port_open_device _ _ \<Rightarrow> held_fd (re_value r)
      | Port_mmap _ _ _ \<Rightarrow> held_address Held_map (re_address r)
      | Port_bind_static fd _ \<Rightarrow> held_binding fd (re_value r)
      | Port_bind_interdomain fd _ _ \<Rightarrow> held_binding fd (re_value r)
      | Port_bind_unbound fd _ \<Rightarrow> held_binding fd (re_value r)
      | _ \<Rightarrow> {#})"

definition port_released :: "port_request \<times> os_reply \<Rightarrow> port_resource multiset" where
  "port_released c =
     (case fst c of
        Port_free a \<Rightarrow> held_address Held_heap a
      | Port_queue_delete a \<Rightarrow> held_address Held_queue a
      | Port_close fd \<Rightarrow> {#Held_fd fd#}
      | Port_munmap a _ \<Rightarrow> {#Held_map a#}
      | Port_unbind fd p \<Rightarrow> {#Held_port fd p#}
      | _ \<Rightarrow> {#})"

lemma port_acquired_simps [simp]:
  "port_acquired (Port_alloc, r) = held_address Held_heap (re_address r)"
  "port_acquired (Port_free a, r) = {#}"
  "port_acquired (Port_page_size, r) = {#}"
  "port_acquired (Port_queue_create len, r) = held_address Held_queue (re_address r)"
  "port_acquired (Port_queue_delete a, r) = {#}"
  "port_acquired (Port_shm_open p b, r) = held_fd (re_value r)"
  "port_acquired (Port_open p b, r) = held_fd (re_value r)"
  "port_acquired (Port_open_device p b, r) = held_fd (re_value r)"
  "port_acquired (Port_ftruncate fd n, r) = {#}"
  "port_acquired (Port_mmap n fd k, r) = held_address Held_map (re_address r)"
  "port_acquired (Port_munmap x n, r) = {#}"
  "port_acquired (Port_close fd, r) = {#}"
  "port_acquired (Port_shm_unlink p, r) = {#}"
  "port_acquired (Port_unlink p, r) = {#}"
  "port_acquired (Port_bind_static fd q, r) = held_binding fd (re_value r)"
  "port_acquired (Port_bind_interdomain fd d q, r) = held_binding fd (re_value r)"
  "port_acquired (Port_bind_unbound fd d, r) = held_binding fd (re_value r)"
  "port_acquired (Port_unbind fd q, r) = {#}"
  by (simp_all add: port_acquired_def)

lemma port_released_simps [simp]:
  "port_released (Port_alloc, r) = {#}"
  "port_released (Port_free a, r) = held_address Held_heap a"
  "port_released (Port_page_size, r) = {#}"
  "port_released (Port_queue_create len, r) = {#}"
  "port_released (Port_queue_delete a, r) = held_address Held_queue a"
  "port_released (Port_shm_open p b, r) = {#}"
  "port_released (Port_open p b, r) = {#}"
  "port_released (Port_open_device p b, r) = {#}"
  "port_released (Port_ftruncate fd n, r) = {#}"
  "port_released (Port_mmap n fd k, r) = {#}"
  "port_released (Port_munmap x n, r) = {#Held_map x#}"
  "port_released (Port_close fd, r) = {#Held_fd fd#}"
  "port_released (Port_shm_unlink p, r) = {#}"
  "port_released (Port_unlink p, r) = {#}"
  "port_released (Port_bind_static fd q, r) = {#}"
  "port_released (Port_bind_interdomain fd d q, r) = {#}"
  "port_released (Port_bind_unbound fd d, r) = {#}"
  "port_released (Port_unbind fd q, r) = {#Held_port fd q#}"
  by (simp_all add: port_released_def)

definition port_held :: "(port_request \<times> os_reply) list \<Rightarrow> port_resource multiset" where
  "port_held log = foldl (\<lambda>R c. R + port_acquired c - port_released c) {#} log"

lemma port_held_append [simp]: "port_held (log @ calls) = foldl (\<lambda>R c. R + port_acquired c - port_released c) (port_held log) calls"
  by (simp add: port_held_def)

lemma port_call_log [simp]: "po_log (snd (port_call req h)) = po_log h @ [(req, po_reply h (po_calls h))]"
  by (simp add: port_call_eq)

subsection \<open>The ring of the ports\<close>

text \<open>The ports read the depth from the ring (FreeRTOS, bare metal, kernel) or from the transport
  (Xen), so it is an argument.\<close>

definition port_ring_push :: "u32 \<Rightarrow> zipc_message \<Rightarrow> zipc_transport_spsc_ring \<Rightarrow> bool \<times> zipc_transport_spsc_ring" where
  "port_ring_push depth m r =
     (if ring_producer r - ring_consumer r \<ge> depth then (False, r)
      else (True, r\<lparr>ring_entries := (ring_entries r)[unat (ring_producer r mod depth) := m],
                    ring_producer := ring_producer r + 1\<rparr>))"

definition port_ring_pop :: "u32 \<Rightarrow> zipc_transport_spsc_ring \<Rightarrow> zipc_message option \<times> zipc_transport_spsc_ring" where
  "port_ring_pop depth r =
     (if ring_consumer r = ring_producer r then (None, r)
      else (Some (ring_entries r ! unat (ring_consumer r mod depth)), r\<lparr>ring_consumer := ring_consumer r + 1\<rparr>))"

text \<open>What the peer pushes while the caller waits.\<close>

definition port_peer_pushes :: "u32 \<Rightarrow> os_reply \<Rightarrow> zipc_transport_spsc_ring \<Rightarrow> zipc_transport_spsc_ring" where
  "port_peer_pushes depth rep r = fold (\<lambda>m r. snd (port_ring_push depth m r)) (re_peer rep) r"

lemma port_ring_push_cases:
  assumes "ring_invar r"
  shows "port_ring_push (ring_depth r) m r =
    (if ring_used r = unat (ring_depth r) then (False, r)
     else (True, r\<lparr>ring_entries := (ring_entries r)[ring_index r (ring_producer r) := m], ring_producer := ring_producer r + 1\<rparr>))"
proof -
  have "ring_used r \<le> unat (ring_depth r)" using assms by (simp add: ring_invar_def ring_used_le_depth)
  then show ?thesis
    by (auto simp: port_ring_push_def ring_index_def ring_used_def word_le_nat_alt)
qed

text \<open>On a well-formed ring a push appends and a pop takes the head.\<close>

lemma port_ring_push_list:
  assumes "ring_invar r" "port_ring_push (ring_depth r) m r = (ok, r')"
  shows "ring_invar r' \<and> ring_depth r' = ring_depth r \<and> ring_list r' = (if ok then ring_list r @ [m] else ring_list r) \<and>
    (ok \<longleftrightarrow> length (ring_list r) < unat (ring_depth r))"
proof (cases "ring_used r = unat (ring_depth r)")
  case True
  then show ?thesis using assms by (simp add: port_ring_push_cases)
next
  case False
  then have room: "ring_used r < unat (ring_depth r)"
    using ring_used_le_depth [of r] assms(1) by (simp add: ring_invar_def)
  from ring_append_list [OF assms(1) room, of m] False room assms show ?thesis
    by (auto simp: port_ring_push_cases)
qed

lemma port_ring_pop_list:
  assumes "ring_invar r"
  shows "port_ring_pop (ring_depth r) r =
    (if ring_list r = [] then (None, r) else (Some (hd (ring_list r)), r\<lparr>ring_consumer := ring_consumer r + 1\<rparr>))"
  using ring_list_hd(2) [of r]
  by (auto simp: port_ring_pop_def ring_list_empty_iff ring_index_def)

lemma port_peer_pushes_list:
  assumes "ring_invar r"
  shows "ring_invar (port_peer_pushes (ring_depth r) rep r) \<and>
    ring_depth (port_peer_pushes (ring_depth r) rep r) = ring_depth r \<and>
    (\<exists>more. ring_list (port_peer_pushes (ring_depth r) rep r) = ring_list r @ more)"
proof -
  define d where "d = ring_depth r"
  have "ring_invar r \<Longrightarrow> ring_depth r = d \<Longrightarrow> ring_invar (fold (\<lambda>m r. snd (port_ring_push d m r)) ms r) \<and>
      ring_depth (fold (\<lambda>m r. snd (port_ring_push d m r)) ms r) = d \<and>
      (\<exists>more. ring_list (fold (\<lambda>m r. snd (port_ring_push d m r)) ms r) = ring_list r @ more)" for ms
  proof (induction ms arbitrary: r)
    case (Cons m ms)
    obtain ok r' where push: "port_ring_push (ring_depth r) m r = (ok, r')" by fastforce
    note l = port_ring_push_list [OF Cons(2) push]
    with Cons(1) [of r'] Cons(3) push show ?case by (auto split: if_splits)
  qed simp
  then show ?thesis using assms by (simp add: port_peer_pushes_def d_def)
qed

subsection \<open>Receive tokens without a peek\<close>

text \<open>\<open>received\<close> is the outcome of the port's receive operation.\<close>

definition plain_receive_begin ::
  "nat option \<Rightarrow> (zipc_status \<times> zipc_message option \<times> 'w) option \<Rightarrow> zipc_transport_receive_token option \<Rightarrow> 'w \<Rightarrow>
   (zipc_status \<times> zipc_message option \<times> zipc_transport_receive_token option \<times> 'w) option" where
  "plain_receive_begin transport received token w =
     (case token of
        None \<Rightarrow> Some (ZIPC_ERR_INVALID_ARGUMENT, None, None, w)
      | Some _ \<Rightarrow>
          let k = zero_token\<lparr>tk_transport_cookie := (case transport of None \<Rightarrow> 0 | Some t \<Rightarrow> t)\<rparr>
          in map_option (\<lambda>(status, m, w). (status, m, Some (if status = ZIPC_OK then k\<lparr>tk_pending := True\<rparr> else k), w)) received)"

definition plain_receive_commit ::
  "nat option \<Rightarrow> zipc_transport_receive_token option \<Rightarrow> zipc_status \<times> zipc_transport_receive_token option" where
  "plain_receive_commit transport token =
     (case token of
        None \<Rightarrow> (ZIPC_ERR_INVALID_ARGUMENT, None)
      | Some k \<Rightarrow>
          if \<not> tk_pending k \<or> tk_transport_cookie k \<noteq> (case transport of None \<Rightarrow> 0 | Some t \<Rightarrow> t)
          then (ZIPC_ERR_INVALID_ARGUMENT, token)
          else (ZIPC_OK, Some (k\<lparr>tk_pending := False\<rparr>)))"

definition plain_receive_abort ::
  "nat option \<Rightarrow> zipc_transport_receive_token option \<Rightarrow> zipc_transport_receive_token option" where
  "plain_receive_abort transport token =
     (case (transport, token) of
        (Some t, Some k) \<Rightarrow> Some (if tk_transport_cookie k = t then k\<lparr>tk_pending := False\<rparr> else k)
      | _ \<Rightarrow> token)"

text \<open>A token handed out with a descriptor can always be committed.\<close>

lemma plain_begin_commit:
  assumes "plain_receive_begin transport received (Some z) w = Some (ZIPC_OK, m, k, w')"
  shows "received = Some (ZIPC_OK, m, w')" "plain_receive_commit transport k = (ZIPC_OK, Some ((the k)\<lparr>tk_pending := False\<rparr>))"
  using assms by (auto simp: plain_receive_begin_def plain_receive_commit_def Let_def split: prod.splits if_splits)

lemma plain_begin_failed:
  assumes "plain_receive_begin transport received (Some z) w = Some (st, m, k, w')"
  shows "received = Some (st, m, w')"
  using assms by (auto simp: plain_receive_begin_def Let_def split: prod.splits)

end
