(* ===== verification/Xen_Platform.thy ===== *)
theory Xen_Platform
  imports Port_Host Link_Channel
begin

text \<open>
  The Xen port (\<^verbatim>\<open>platform-xen.c\<close>): event-channel binding, the shared ring with an event channel as
  its wake-up, closing, time and entropy. The ring keeps the channel contract of the link layer, so
  the link properties hold between two domains as well.
\<close>

subsection \<open>The transport\<close>

text \<open>\<open>zipc_xen_spsc_ring_t\<close> has the fields of the descriptor ring of the other ports.\<close>

type_synonym zipc_xen_spsc_ring = zipc_transport_spsc_ring

record xen_transport =
  xt_type :: zipc_platform_transport_type
  xt_evtchn_fd :: int
  xt_local_port :: u32
  xt_owns_binding :: bool
  xt_ring :: nat
  xt_depth :: u32

type_synonym xen_host = "xen_transport port_host"

definition xen_bind_request :: "int \<Rightarrow> zipc_platform_transport_config \<Rightarrow> port_request" where
  "xen_bind_request fd cfg =
     (if tc_xen_static_port cfg \<noteq> 0 then Port_bind_static fd (tc_xen_static_port cfg)
      else if tc_xen_remote_port cfg \<noteq> 0 then Port_bind_interdomain fd (tc_xen_remote_domid cfg) (tc_xen_remote_port cfg)
      else Port_bind_unbound fd (tc_xen_remote_domid cfg))"

definition xen_bind_evtchn :: "nat \<Rightarrow> zipc_platform_transport_config \<Rightarrow> xen_host \<Rightarrow> zipc_status \<times> xen_host" where
  "xen_bind_evtchn t cfg h =
     (let path = (case tc_device_path cfg of Some path \<Rightarrow> path | None \<Rightarrow> ''/dev/xen/evtchn'');
          (r, h) = port_call (Port_open path False) h;
          fd = re_value r;
          h = upd_object t (\<lambda>x. x\<lparr>xt_evtchn_fd := fd\<rparr>) h
      in if fd < 0 then (ZIPC_ERR_PLATFORM, h)
         else
           let (r, h) = port_call (xen_bind_request fd cfg) h in
           if re_value r < 0 then (ZIPC_ERR_PLATFORM, h)
           else (ZIPC_OK, upd_object t (\<lambda>x. x\<lparr>xt_local_port := word_of_int (re_value r), xt_owns_binding := True\<rparr>) h))"

definition xen_transport_close :: "nat option \<Rightarrow> xen_host \<Rightarrow> xen_host" where
  "xen_transport_close transport h =
     (case transport of
        None \<Rightarrow> h
      | Some t \<Rightarrow>
          let x = po_object h t;
              h = (if xt_evtchn_fd x \<ge> 0 \<and> xt_owns_binding x then port_do (Port_unbind (xt_evtchn_fd x) (xt_local_port x)) h else h);
              h = (if xt_evtchn_fd x \<ge> 0 then port_do (Port_close (xt_evtchn_fd x)) h else h)
          in port_do (Port_free (Some t)) h)"

definition xen_new_transport :: "zipc_platform_transport_config \<Rightarrow> nat \<Rightarrow> xen_transport" where
  "xen_new_transport config ring =
     \<lparr>xt_type = tc_type config, xt_evtchn_fd = - 1, xt_local_port = 0, xt_owns_binding = False, xt_ring = ring,
      xt_depth = tc_ring_depth config\<rparr>"

definition xen_transport_open ::
  "bool \<Rightarrow> zipc_platform_transport_config option \<Rightarrow> xen_host \<Rightarrow> zipc_status \<times> nat option \<times> xen_host" where
  "xen_transport_open transport_out config h =
     (case config of
        None \<Rightarrow> (ZIPC_ERR_INVALID_ARGUMENT, None, h)
      | Some c \<Rightarrow>
          if \<not> transport_out then (ZIPC_ERR_INVALID_ARGUMENT, None, h)
          else if tc_type c \<noteq> ZIPC_TRANSPORT_XEN_RING_EVTCHN \<or> tc_platform_handle c = None \<or> tc_ring_depth c < 2
          then (ZIPC_ERR_INVALID_ARGUMENT, None, h)
          else
            let (r, h) = port_call Port_alloc h in
            case re_address r of
              None \<Rightarrow> (ZIPC_ERR_PLATFORM, None, h)
            | Some t \<Rightarrow>
                let a = the (tc_platform_handle c);
                    h = upd_object t (\<lambda>_. xen_new_transport c a) h
                in if \<not> tc_create_endpoint c \<and> ring_depth (po_rings h a) \<noteq> tc_ring_depth c
                   then (ZIPC_ERR_INVALID_ARGUMENT, None, port_do (Port_free (Some t)) h)
                   else
                     let h = (if tc_create_endpoint c
                              then put_ring a ((po_rings h a)\<lparr>ring_producer := 0, ring_consumer := 0,
                                     ring_depth := tc_ring_depth c, ring_reserved := 0\<rparr>) h
                              else h);
                         (status, h) = xen_bind_evtchn t c h
                     in if status \<noteq> ZIPC_OK then (status, None, xen_transport_close (Some t) h)
                        else (ZIPC_OK, Some t, h))"

subsection \<open>Sending and receiving\<close>

definition xen_transport_send :: "nat option \<Rightarrow> zipc_message option \<Rightarrow> xen_host \<Rightarrow> zipc_status \<times> xen_host" where
  "xen_transport_send transport message h =
     (case (transport, message) of
        (Some t, Some m) \<Rightarrow>
          let x = po_object h t in
          if xt_type x \<noteq> ZIPC_TRANSPORT_XEN_RING_EVTCHN then (ZIPC_ERR_INVALID_ARGUMENT, h)
          else
            let (ok, r) = port_ring_push (xt_depth x) m (po_rings h (xt_ring x)) in
            if \<not> ok then (ZIPC_ERR_TRANSPORT, h)
            else
              let h = put_ring (xt_ring x) r h;
                  (r, h) = port_call (Port_notify (xt_evtchn_fd x) (xt_local_port x)) h
              in (if re_value r < 0 then ZIPC_ERR_TRANSPORT_PUBLISHED else ZIPC_OK, h)
      | _ \<Rightarrow> (ZIPC_ERR_INVALID_ARGUMENT, h))"

text \<open>The reads and writes of the event channel are repeated while they are interrupted. The peer may
  push while the read blocks.\<close>

partial_function (option) xen_read_port :: "nat \<Rightarrow> xen_host \<Rightarrow> (os_reply \<times> xen_host) option" where
  "xen_read_port t h =
     (let x = po_object h t;
          (r, h) = port_call (Port_read_port (xt_evtchn_fd x)) h;
          h = put_ring (xt_ring x) (port_peer_pushes (xt_depth x) r (po_rings h (xt_ring x))) h
      in if re_value r < 0 \<and> re_errno r = EINTR then xen_read_port t h else Some (r, h))"

partial_function (option) xen_write_port :: "nat \<Rightarrow> u32 \<Rightarrow> xen_host \<Rightarrow> (os_reply \<times> xen_host) option" where
  "xen_write_port t pending_port h =
     (let (r, h) = port_call (Port_write_port (xt_evtchn_fd (po_object h t)) pending_port) h
      in if re_value r < 0 \<and> re_errno r = EINTR then xen_write_port t pending_port h else Some (r, h))"

definition sizeof_port :: int where
  "sizeof_port = 4"

partial_function (option) xen_receive_loop ::
  "nat \<Rightarrow> xen_host \<Rightarrow> (zipc_status \<times> zipc_message option \<times> xen_host) option" where
  "xen_receive_loop t h =
     (let x = po_object h t in
      case port_ring_pop (xt_depth x) (po_rings h (xt_ring x)) of
        (Some m, r) \<Rightarrow> Some (ZIPC_OK, Some m, put_ring (xt_ring x) r h)
      | (None, _) \<Rightarrow>
          (case xen_read_port t h of
             None \<Rightarrow> None
           | Some (r, h) \<Rightarrow>
               if re_value r \<noteq> sizeof_port then Some (ZIPC_ERR_TRANSPORT, None, h)
               else
                 (case xen_write_port t (ucast (re_counter r)) h of
                    None \<Rightarrow> None
                  | Some (r, h) \<Rightarrow>
                      if re_value r \<noteq> sizeof_port then Some (ZIPC_ERR_TRANSPORT, None, h)
                      else xen_receive_loop t h)))"

definition xen_transport_receive ::
  "nat option \<Rightarrow> bool \<Rightarrow> xen_host \<Rightarrow> (zipc_status \<times> zipc_message option \<times> xen_host) option" where
  "xen_transport_receive transport message_out h =
     (case transport of
        None \<Rightarrow> Some (ZIPC_ERR_INVALID_ARGUMENT, None, h)
      | Some t \<Rightarrow>
          if \<not> message_out \<or> xt_type (po_object h t) \<noteq> ZIPC_TRANSPORT_XEN_RING_EVTCHN
          then Some (ZIPC_ERR_INVALID_ARGUMENT, None, h)
          else xen_receive_loop t h)"

definition xen_receive_begin ::
  "nat option \<Rightarrow> bool \<Rightarrow> zipc_transport_receive_token option \<Rightarrow> xen_host \<Rightarrow>
   (zipc_status \<times> zipc_message option \<times> zipc_transport_receive_token option \<times> xen_host) option" where
  "xen_receive_begin transport message_out token h =
     plain_receive_begin transport (xen_transport_receive transport message_out h) token h"

definition xen_local_port :: "nat option \<Rightarrow> xen_host \<Rightarrow> u32" where
  "xen_local_port transport h =
     (case transport of
        None \<Rightarrow> 0
      | Some t \<Rightarrow> if xt_type (po_object h t) \<noteq> ZIPC_TRANSPORT_XEN_RING_EVTCHN then 0 else xt_local_port (po_object h t))"

definition xen_alloc :: "xen_host \<Rightarrow> nat option \<times> xen_host" where
  "xen_alloc h = (let (r, h) = port_call Port_alloc h in (re_address r, h))"

definition xen_free :: "nat option \<Rightarrow> xen_host \<Rightarrow> xen_host" where
  "xen_free pointer h = port_do (Port_free pointer) h"

definition xen_time_ns :: "xen_host \<Rightarrow> u64 \<times> xen_host" where
  "xen_time_ns h =
     (let (r, h) = port_call Port_clock h
      in (if re_value r \<noteq> 0 then 0 else re_sec r * 1000000000 + re_nsec r, h))"

partial_function (option) xen_random_fill :: "nat \<Rightarrow> u8 list \<Rightarrow> xen_host \<Rightarrow> (zipc_status \<times> u8 list \<times> xen_host) option" where
  "xen_random_fill len filled h =
     (if len = 0 then Some (ZIPC_OK, filled, h)
      else
        let (r, h) = port_call (Port_random len) h in
        if re_value r < 0
        then if re_errno r = EINTR then xen_random_fill len filled h
             else Some (ZIPC_ERR_ENTROPY_UNAVAILABLE, filled, h)
        else if re_value r = 0 then Some (ZIPC_ERR_ENTROPY_UNAVAILABLE, filled, h)
        else xen_random_fill (len - nat (re_value r)) (filled @ take (nat (re_value r)) (re_bytes r)) h)"

definition xen_random :: "bool \<Rightarrow> nat \<Rightarrow> xen_host \<Rightarrow> (zipc_status \<times> u8 list \<times> xen_host) option" where
  "xen_random buffer len h =
     (if \<not> buffer \<and> len \<noteq> 0 then Some (ZIPC_ERR_INVALID_ARGUMENT, [], h) else xen_random_fill len [] h)"

definition xen_platform :: "xen_host platform_ops" where
  "xen_platform =
     \<lparr>op_open = (\<lambda>config h. xen_transport_open True (Some config) h), op_close = xen_transport_close,
      op_send = (\<lambda>t m h. xen_transport_send t (Some m) h),
      op_receive_begin = (\<lambda>t h. xen_receive_begin t True (Some zero_token) h),
      op_receive_commit = (\<lambda>t k h. (fst (plain_receive_commit t k), h)),
      op_alloc = xen_alloc, op_free = xen_free,
      op_ring = (\<lambda>a h. map_option (po_rings h) a),
      op_store_ring = (\<lambda>a r h. case (a, r) of (Some a, Some r) \<Rightarrow> put_ring a r h | _ \<Rightarrow> h)\<rparr>"

end
