(* ===== verification/Xen_Properties.thy ===== *)
theory Xen_Properties
  imports Xen_Platform Link_Properties
begin

text \<open>
  The Xen ring as a descriptor channel, the link properties between two domains that follow from it,
  and the resources of a Xen transport.
\<close>

subsection \<open>The ring between two transports\<close>

definition xen_ring_transport :: "nat \<Rightarrow> nat \<Rightarrow> xen_host \<Rightarrow> bool" where
  "xen_ring_transport a t h \<longleftrightarrow> xt_type (po_object h t) = ZIPC_TRANSPORT_XEN_RING_EVTCHN \<and> xt_ring (po_object h t) = a \<and>
     xt_depth (po_object h t) = ring_depth (po_rings h a) \<and> ring_invar (po_rings h a)"

abbreviation xen_pending :: "nat \<Rightarrow> xen_host \<Rightarrow> zipc_message list" where
  "xen_pending a h \<equiv> ring_list (po_rings h a)"

abbreviation xen_endpoints :: "nat \<Rightarrow> nat \<Rightarrow> nat \<Rightarrow> xen_host \<Rightarrow> bool" where
  "xen_endpoints a t1 t2 h \<equiv> xen_ring_transport a t1 h \<and> xen_ring_transport a t2 h"

text \<open>The operations change the ring and the log only.\<close>

definition xen_ring_step :: "nat \<Rightarrow> xen_host \<Rightarrow> xen_host \<Rightarrow> bool" where
  "xen_ring_step a h h' \<longleftrightarrow> po_object h' = po_object h \<and> ring_depth (po_rings h' a) = ring_depth (po_rings h a) \<and>
     (ring_invar (po_rings h a) \<longrightarrow> ring_invar (po_rings h' a))"

lemma xen_ring_step_trans: "xen_ring_step a h h1 \<Longrightarrow> xen_ring_step a h1 h2 \<Longrightarrow> xen_ring_step a h h2"
  by (simp add: xen_ring_step_def)

lemma xen_endpoints_step: "xen_ring_transport a t h \<Longrightarrow> xen_ring_step a h h' \<Longrightarrow> xen_ring_transport a t h'"
  by (simp add: xen_ring_transport_def xen_ring_step_def)

lemma xen_send_outcome:
  assumes "xen_ring_transport a t h" "xen_transport_send (Some t) (Some m) h = (st, h')"
  shows "xen_ring_step a h h'"
    and "xen_pending a h' = (if st = ZIPC_OK \<or> st = ZIPC_ERR_TRANSPORT_PUBLISHED then xen_pending a h @ [m] else xen_pending a h)"
    and "st = ZIPC_OK \<or> st = ZIPC_ERR_TRANSPORT_PUBLISHED \<longleftrightarrow> length (xen_pending a h) < unat (ring_depth (po_rings h a))"
proof -
  obtain ok r where push: "port_ring_push (ring_depth (po_rings h a)) m (po_rings h a) = (ok, r)" by fastforce
  have inv: "ring_invar (po_rings h a)" and x: "xt_type (po_object h t) = ZIPC_TRANSPORT_XEN_RING_EVTCHN"
    "xt_ring (po_object h t) = a" "xt_depth (po_object h t) = ring_depth (po_rings h a)"
    using assms(1) by (simp_all add: xen_ring_transport_def)
  note l = port_ring_push_list [OF inv push]
  have "st = (if \<not> ok then ZIPC_ERR_TRANSPORT else if re_value (po_reply h (po_calls h)) < 0 then ZIPC_ERR_TRANSPORT_PUBLISHED else ZIPC_OK)"
    and h': "po_object h' = po_object h" "po_rings h' a = r"
  proof -
    have "\<not> ok \<Longrightarrow> r = po_rings h a" using push by (auto simp: port_ring_push_def split: if_splits)
    moreover have "(st, h') = (if \<not> ok then (ZIPC_ERR_TRANSPORT, h)
        else (if re_value (po_reply h (po_calls h)) < 0 then ZIPC_ERR_TRANSPORT_PUBLISHED else ZIPC_OK,
          snd (port_call (Port_notify (xt_evtchn_fd (po_object h t)) (xt_local_port (po_object h t))) (put_ring a r h))))"
      using assms(2) x push by (cases ok) (simp_all add: xen_transport_send_def port_call_eq Let_def)
    ultimately show "st = (if \<not> ok then ZIPC_ERR_TRANSPORT else if re_value (po_reply h (po_calls h)) < 0 then ZIPC_ERR_TRANSPORT_PUBLISHED else ZIPC_OK)"
      "po_object h' = po_object h" "po_rings h' a = r" by (auto split: if_splits)
  qed
  then show "xen_ring_step a h h'"
    and "xen_pending a h' = (if st = ZIPC_OK \<or> st = ZIPC_ERR_TRANSPORT_PUBLISHED then xen_pending a h @ [m] else xen_pending a h)"
    and "st = ZIPC_OK \<or> st = ZIPC_ERR_TRANSPORT_PUBLISHED \<longleftrightarrow> length (xen_pending a h) < unat (ring_depth (po_rings h a))"
    using l by (auto simp: xen_ring_step_def)
qed

text \<open>A wait on the event channel keeps what is pending; more may arrive.\<close>

definition xen_waited :: "nat \<Rightarrow> xen_host \<Rightarrow> xen_host \<Rightarrow> bool" where
  "xen_waited a h h' \<longleftrightarrow> xen_ring_step a h h' \<and> (\<exists>more. xen_pending a h' = xen_pending a h @ more)"

lemma xen_waited_refl: "xen_waited a h h"
  by (simp add: xen_waited_def xen_ring_step_def)

lemma xen_waited_trans: "xen_waited a h h1 \<Longrightarrow> xen_waited a h1 h2 \<Longrightarrow> xen_waited a h h2"
  unfolding xen_waited_def using xen_ring_step_trans by fastforce

lemma xen_read_port_waits:
  assumes "xen_read_port t h = Some y"
  shows "xen_ring_transport a t h \<longrightarrow> xen_waited a h (snd y)"
proof (rule xen_read_port.raw_induct [OF _ assms, where P = "\<lambda>t h y. xen_ring_transport a t h \<longrightarrow> xen_waited a h (snd y)"], intro impI)
  fix f t h y
  assume IH: "\<And>t h y. f t h = Some y \<Longrightarrow> xen_ring_transport a t h \<longrightarrow> xen_waited a h (snd y)"
    and eq: "(let x = po_object h t; (r, h) = port_call (Port_read_port (xt_evtchn_fd x)) h;
          h = put_ring (xt_ring x) (port_peer_pushes (xt_depth x) r (po_rings h (xt_ring x))) h
      in if re_value r < 0 \<and> re_errno r = EINTR then f t h else Some (r, h)) = Some y"
    and tr: "xen_ring_transport a t h"
  let ?r = "po_reply h (po_calls h)" and ?h0 = "snd (port_call (Port_read_port (xt_evtchn_fd (po_object h t))) h)"
  let ?h = "put_ring a (port_peer_pushes (ring_depth (po_rings h a)) ?r (po_rings h a)) ?h0"
  from tr have x: "xt_ring (po_object h t) = a" "xt_depth (po_object h t) = ring_depth (po_rings h a)" "ring_invar (po_rings h a)"
    by (simp_all add: xen_ring_transport_def)
  have w: "xen_waited a h ?h"
    using port_peer_pushes_list [OF x(3), of ?r] by (simp add: xen_waited_def xen_ring_step_def)
  have tr': "xen_ring_transport a t ?h" using w tr xen_endpoints_step by (auto simp: xen_waited_def)
  have "(if re_value ?r < 0 \<and> re_errno ?r = EINTR then f t ?h else Some (?r, ?h)) = Some y"
    using eq x by (simp add: port_call_eq Let_def cong: if_cong)
  then show "xen_waited a h (snd y)"
    using IH [of t ?h y] tr' w xen_waited_trans [OF w] by (auto split: if_splits)
qed

lemma xen_write_port_keeps:
  assumes "xen_write_port t pp h = Some y"
  shows "po_object (snd y) = po_object h \<and> po_rings (snd y) = po_rings h"
  by (rule xen_write_port.raw_induct [OF _ assms, where P = "\<lambda>t pp h y. po_object (snd y) = po_object h \<and> po_rings (snd y) = po_rings h"])
    (auto simp: port_call_eq Let_def split: if_splits)

text \<open>What a receive may return: a descriptor, the oldest that was pending or arrived, or an error that loses
  nothing.\<close>

definition xen_received :: "nat \<Rightarrow> xen_host \<Rightarrow> zipc_status \<times> zipc_message option \<times> xen_host \<Rightarrow> bool" where
  "xen_received a h y \<longleftrightarrow> (case y of (st, m, h') \<Rightarrow> xen_ring_step a h h' \<and>
    (if st = ZIPC_OK then \<exists>d more. m = Some d \<and> xen_pending a h @ more = d # xen_pending a h'
     else \<exists>more. xen_pending a h' = xen_pending a h @ more))"

lemma xen_received_error: "xen_waited a h h1 \<Longrightarrow> st \<noteq> ZIPC_OK \<Longrightarrow> xen_received a h (st, None, h1)"
  by (simp add: xen_received_def xen_waited_def)

lemma xen_received_later: "xen_pending a h = [] \<Longrightarrow> xen_waited a h h2 \<Longrightarrow> xen_received a h2 y \<Longrightarrow> xen_received a h y"
  by (auto simp: xen_received_def xen_waited_def intro: xen_ring_step_trans split: if_splits)

text \<open>The branch of the loop that waits: a read, the write that unmasks the port, and the next iteration \<open>f\<close>.\<close>

lemma xen_wait_branch:
  assumes tr: "xen_ring_transport a t h" and none: "xen_pending a h = []"
    and IH: "\<And>h y. f t h = Some y \<Longrightarrow> xen_ring_transport a t h \<Longrightarrow> xen_received a h y"
    and e: "(case xen_read_port t h of None \<Rightarrow> None
      | Some (r, h) \<Rightarrow> if re_value r \<noteq> sizeof_port then Some (ZIPC_ERR_TRANSPORT, None, h)
          else case xen_write_port t (ucast (re_counter r)) h of None \<Rightarrow> None
            | Some (r, h) \<Rightarrow> if re_value r \<noteq> sizeof_port then Some (ZIPC_ERR_TRANSPORT, None, h) else f t h) = Some y"
  shows "xen_received a h y"
proof -
  obtain r h1 where read: "xen_read_port t h = Some (r, h1)" using e by (cases "xen_read_port t h") auto
  have w: "xen_waited a h h1" using xen_read_port_waits [OF read, of a] tr by simp
  show ?thesis
  proof (cases "re_value r = sizeof_port")
    case False
    then have "y = (ZIPC_ERR_TRANSPORT, None, h1)" using e read by simp
    then show ?thesis using xen_received_error [OF w] by simp
  next
    case True
    then obtain r2 h2 where wr: "xen_write_port t (ucast (re_counter r)) h1 = Some (r2, h2)"
      using e read by (cases "xen_write_port t (ucast (re_counter r)) h1") auto
    have w2: "xen_waited a h h2" using xen_write_port_keeps [OF wr] w by (simp add: xen_waited_def xen_ring_step_def)
    then have tr2: "xen_ring_transport a t h2" using tr xen_endpoints_step by (auto simp: xen_waited_def)
    have "(if re_value r2 \<noteq> sizeof_port then Some (ZIPC_ERR_TRANSPORT, None, h2) else f t h2) = Some y"
      using e read wr True by simp
    then show ?thesis
      using xen_received_error [OF w2] xen_received_later [OF none w2 IH [OF _ tr2]] by (cases "re_value r2 = sizeof_port") auto
  qed
qed

lemma xen_receive_outcome:
  assumes "xen_receive_loop t h = Some y"
  shows "xen_ring_transport a t h \<longrightarrow> xen_received a h y"
proof (rule xen_receive_loop.raw_induct [OF _ assms, where P = "\<lambda>t h y. xen_ring_transport a t h \<longrightarrow> xen_received a h y"], intro impI)
  fix f t h y
  assume IH: "\<And>t h y. f t h = Some y \<Longrightarrow> xen_ring_transport a t h \<longrightarrow> xen_received a h y"
    and eq: "(let x = po_object h t in
      case port_ring_pop (xt_depth x) (po_rings h (xt_ring x)) of
        (Some m, r) \<Rightarrow> Some (ZIPC_OK, Some m, put_ring (xt_ring x) r h)
      | (None, _) \<Rightarrow>
          (case xen_read_port t h of
             None \<Rightarrow> None
           | Some (r, h) \<Rightarrow>
               if re_value r \<noteq> sizeof_port then Some (ZIPC_ERR_TRANSPORT, None, h)
               else
                 (case xen_write_port t (ucast (re_counter r)) h of
                    None \<Rightarrow> None
                  | Some (r, h) \<Rightarrow>
                      if re_value r \<noteq> sizeof_port then Some (ZIPC_ERR_TRANSPORT, None, h)
                      else f t h))) = Some y"
    and tr: "xen_ring_transport a t h"
  from tr have x: "xt_ring (po_object h t) = a" "xt_depth (po_object h t) = ring_depth (po_rings h a)" and inv: "ring_invar (po_rings h a)"
    by (simp_all add: xen_ring_transport_def)
  note pop = port_ring_pop_list [OF inv]
  show "xen_received a h y"
  proof (cases "xen_pending a h = []")
    case False
    then have "ring_consumer (po_rings h a) \<noteq> ring_producer (po_rings h a)" by (simp add: ring_list_empty_iff)
    note adv = ring_advance_list [OF inv this]
    have "y = (ZIPC_OK, Some (hd (xen_pending a h)), put_ring a ((po_rings h a)\<lparr>ring_consumer := ring_consumer (po_rings h a) + 1\<rparr>) h)"
      using eq x pop False by (simp add: Let_def)
    then show ?thesis
      using adv False by (auto simp: xen_received_def xen_ring_step_def intro!: exI [of _ "[]"])
  next
    case True
    show ?thesis
      by (rule xen_wait_branch [OF tr True, of f])
        (use IH eq in \<open>simp_all add: Let_def x pop True cong: if_cong option.case_cong\<close>)
  qed
qed

lemma xen_receive_nonempty:
  assumes "xen_ring_transport a t h" "xen_pending a h \<noteq> []"
  shows "\<exists>h'. xen_receive_loop t h = Some (ZIPC_OK, Some (hd (xen_pending a h)), h')"
  using assms port_ring_pop_list [of "po_rings h a"]
  by (subst xen_receive_loop.simps) (simp add: xen_ring_transport_def Let_def)

interpretation xen_link: prompt_channel xen_platform "Some t1" "Some t2" "xen_endpoints a t1 t2" "xen_pending a" "\<lambda>m q. q @ [m]" for a t1 t2
proof (unfold_locales, goal_cases)
  case (1 w m st w')
  then show ?case
    using xen_send_outcome [of a t1 w m st w'] xen_endpoints_step [of a _ w w'] by (auto simp: xen_platform_def)
next
  case (2 w st msg k w')
  then have "xen_receive_loop t2 w = Some (st, msg, w')"
    by (auto simp: xen_platform_def xen_receive_begin_def xen_transport_receive_def xen_ring_transport_def dest!: plain_begin_failed)
  from xen_receive_outcome [OF this, of a] 2(1,3) show ?case
    using xen_endpoints_step [of a _ w w'] by (auto simp: xen_received_def)
next
  case (3 w msg k w' st w'')
  then have b: "plain_receive_begin (Some t2) (xen_receive_loop t2 w) (Some zero_token) w = Some (ZIPC_OK, msg, k, w')"
    by (simp add: xen_platform_def xen_receive_begin_def xen_transport_receive_def xen_ring_transport_def)
  note c = plain_begin_commit [OF b]
  from xen_receive_outcome [OF c(1), of a] 3(1,3) c(2) show ?case
    using xen_endpoints_step [of a _ w w'] by (auto simp: xen_platform_def xen_received_def)
next
  case (5 w)
  then obtain h' where "xen_receive_loop t2 w = Some (ZIPC_OK, Some (hd (xen_pending a w)), h')"
    using xen_receive_nonempty [of a t2 w] by blast
  then show ?case
    using 5 by (simp add: xen_platform_def xen_receive_begin_def xen_transport_receive_def xen_ring_transport_def plain_receive_begin_def)
qed simp

subsection \<open>Links between two domains\<close>

definition sample_xen_host :: "zipc_transport_spsc_ring \<Rightarrow> int \<Rightarrow> xen_host" where
  "sample_xen_host r v = \<lparr>po_object = (\<lambda>_. \<lparr>xt_type = ZIPC_TRANSPORT_XEN_RING_EVTCHN, xt_evtchn_fd = 3, xt_local_port = 9,
      xt_owns_binding = True, xt_ring = 2, xt_depth = 4\<rparr>), po_rings = (\<lambda>_. r), po_mail = (\<lambda>_. sample_message 0),
    po_reply = (\<lambda>_. sample_reply v), po_calls = 0, po_log = []\<rparr>"

lemma sample_xen_ring [simp]:
  "xen_ring_transport 2 t (sample_xen_host (sample_ring 4 0) v)" "xen_pending 2 (sample_xen_host (sample_ring 4 0) v) = []"
  by (simp_all add: xen_ring_transport_def sample_xen_host_def sample_ring_invar) (simp add: sample_ring_def)

text \<open>C26: What one domain sends over the Xen ring (whose depth divides \<open>2^32\<close>), the other receives. A successful send over an
  empty ring leaves exactly one descriptor in it and clears the sender's view; then a receive in the
  other domain returns at once, without waiting for the event channel, and yields the same buffer
  with the same bytes.\<close>

theorem xen_link_round_trip:
  assumes "pool_inv s p" "pool_flags p AND ZIPC_POOL_F_STRICT_OWNERSHIP = 0" "current_view s p v"
    and "xen_ring_transport a t1 h" "xen_ring_transport a t2 h" "xen_pending a h = []"
    and "lk_pool l1 = p" "lk_transport l1 = Some t1" "lk_pool l2 = p" "lk_transport l2 = Some t2"
    and "lk_local_component l2 = lk_remote_component l1" "lk_remote_component l2 = lk_local_component l1"
    and "zipc_send xen_platform (Some l1) (Some v) s h = (ZIPC_OK, v', s', h')"
    and "\<not> link_stale s' l2" "deadline_open (sys_clock s' (sys_ticks s')) (slot_of s (slot_ptr p (buf_slot_id v)))"
  shows "length (xen_pending a h') = 1 \<and> v' = Some buffer_zero \<and>
    (\<exists>v2 u h2. zipc_recv xen_platform (Some l2) (Some b) s' h' = Some (ZIPC_OK, Some v2, u, h2) \<and> current_view u p v2 \<and>
      buf_handle v2 = buf_handle v \<and> view_bytes u p v2 = view_bytes s p v)"
  using xen_link.send_recv_round_trip [where a = a and ?t1.0 = t1 and ?t2.0 = t2, OF assms(1-3) _ assms(6-15)]
    xen_link.send_all_or_nothing [where a = a and ?t1.0 = t1 and ?t2.0 = t2, OF assms(1-3) _ assms(7,8,13)] assms(4-6) by simp

theorem xen_link_round_trip_witness:
  "let l1 = sample_link 1 3 5 ZIPC_LINK_ROLE_PRODUCER; l2 = sample_link 4 5 3 ZIPC_LINK_ROLE_CONSUMER;
       s = sample_state [sample_owned_slot, sample_slot]; h = sample_xen_host (sample_ring 4 0) 0 in
   \<exists>v' s' h' v2 u h2. zipc_send xen_platform (Some l1) (Some sample_view) s h = (ZIPC_OK, v', s', h') \<and>
     zipc_recv xen_platform (Some l2) (Some buffer_zero) s' h' = Some (ZIPC_OK, Some v2, u, h2) \<and> current_view u sample_pool v2 \<and>
     buf_handle v2 = sample_handle \<and> view_bytes u sample_pool v2 = view_bytes s sample_pool sample_view"
proof -
  let ?l = "sample_link 1 3 5 ZIPC_LINK_ROLE_PRODUCER" and ?l2 = "sample_link 4 5 3 ZIPC_LINK_ROLE_CONSUMER"
    and ?s = "sample_state [sample_owned_slot, sample_slot]" and ?h = "sample_xen_host (sample_ring 4 0) 0"
  obtain st v' s' h' where "zipc_send xen_platform (Some ?l) (Some sample_view) ?s ?h = (st, v', s', h')" by (metis prod_cases4)
  moreover have "fst (zipc_send xen_platform (Some ?l) (Some sample_view) ?s ?h) = ZIPC_OK"
    by (rule sample_send_over) (simp add: xen_platform_def xen_transport_send_def sample_xen_host_def sample_ring_def port_ring_push_def
        port_call_eq sample_reply_def put_ring_def)
  ultimately have r: "zipc_send xen_platform (Some ?l) (Some sample_view) ?s ?h = (ZIPC_OK, v', s', h')" by simp
  have h: "buf_handle sample_view = sample_handle" "buf_slot_id sample_view = 0" by (simp_all add: sample_view_def)
  have "length (xen_pending 2 h') = 1 \<and> v' = Some buffer_zero \<and>
      (\<exists>v2 u h2. zipc_recv xen_platform (Some ?l2) (Some buffer_zero) s' h' = Some (ZIPC_OK, Some v2, u, h2) \<and>
      current_view u sample_pool v2 \<and> buf_handle v2 = buf_handle sample_view \<and>
      view_bytes u sample_pool v2 = view_bytes ?s sample_pool sample_view)"
    by (rule xen_link_round_trip [where a = 2 and ?t1.0 = 1 and ?t2.0 = 4, OF _ _ _ _ _ _ _ _ _ _ _ _ r])
      (simp_all add: h sample_slots_simps)
  then show ?thesis unfolding Let_def h using r by blast
qed

subsection \<open>Resources\<close>

definition xen_owned :: "xen_transport \<Rightarrow> port_resource multiset" where
  "xen_owned x = (if xt_evtchn_fd x \<ge> 0 \<and> xt_owns_binding x then {#Held_port (xt_evtchn_fd x) (xt_local_port x)#} else {#}) +
     held_fd (xt_evtchn_fd x)"

lemma xen_close_releases:
  "port_held (po_log (xen_transport_close (Some t) h)) = port_held (po_log h) - xen_owned (po_object h t) - {#Held_heap t#}"
  by (cases "xt_evtchn_fd (po_object h t) \<ge> 0"; cases "xt_owns_binding (po_object h t)")
    (simp_all add: xen_transport_close_def xen_owned_def port_do_def Let_def diff_diff_add_mset add_mset_commute)

lemma xen_bind_holds:
  assumes "xt_owns_binding (po_object h t) = False" "xen_bind_evtchn t c h = (st, h')"
  shows "port_held (po_log h') = port_held (po_log h) + xen_owned (po_object h' t)"
  using assms
  by (auto simp: xen_bind_evtchn_def xen_bind_request_def port_call_eq xen_owned_def upd_object_def Let_def split: if_splits option.splits)

text \<open>Opening a Xen transport leaks nothing: a failed open has released everything it acquired, and a
  close after a successful open releases the heap object, the descriptor and the event-channel binding.\<close>

lemma xen_open_close_no_leak:
  assumes "xen_transport_open out config h = (st, tr, h')"
  shows "if st = ZIPC_OK then tr \<noteq> None \<and> port_held (po_log (xen_transport_close tr h')) = port_held (po_log h)
    else tr = None \<and> port_held (po_log h') = port_held (po_log h)"
proof (cases "config = None \<or> \<not> out \<or> tc_type (the config) \<noteq> ZIPC_TRANSPORT_XEN_RING_EVTCHN \<or> tc_platform_handle (the config) = None \<or>
    tc_ring_depth (the config) < 2 \<or> re_address (po_reply h (po_calls h)) = None")
  case True
  then show ?thesis
    using assms by (cases config) (auto simp: xen_transport_open_def port_call_eq split: if_splits)
next
  case False
  then obtain c a t where c: "config = Some c" "out" "tc_type c = ZIPC_TRANSPORT_XEN_RING_EVTCHN" "tc_platform_handle c = Some a"
    "\<not> tc_ring_depth c < 2" "re_address (po_reply h (po_calls h)) = Some t" by auto
  let ?h = "upd_object t (\<lambda>_. xen_new_transport c a) (snd (port_call Port_alloc h))"
  let ?mismatch = "\<not> tc_create_endpoint c \<and> ring_depth (po_rings ?h a) \<noteq> tc_ring_depth c"
  let ?g = "if tc_create_endpoint c then put_ring a ((po_rings ?h a)\<lparr>ring_producer := 0, ring_consumer := 0,
      ring_depth := tc_ring_depth c, ring_reserved := 0\<rparr>) ?h else ?h"
  obtain st1 h1 where o: "xen_bind_evtchn t c ?g = (st1, h1)" by fastforce
  have g: "port_held (po_log ?g) = port_held (po_log h) + {#Held_heap t#}" "xt_owns_binding (po_object ?g t) = False"
    using c(6) by (auto simp: xen_new_transport_def)
  note k = xen_bind_holds [OF g(2) o]
  have "(st, tr, h') = (if ?mismatch then (ZIPC_ERR_INVALID_ARGUMENT, None, port_do (Port_free (Some t)) ?h)
      else if st1 \<noteq> ZIPC_OK then (st1, None, xen_transport_close (Some t) h1) else (ZIPC_OK, Some t, h1))"
    using assms c o by (simp add: xen_transport_open_def port_call_eq Let_def cong: if_cong)
  then show ?thesis
    using k g(1) xen_close_releases [of t h1] c(6) by (auto simp: port_do_def split: if_splits)
qed

end
