(* ===== verification/Platform_Memory.thy ===== *)
theory Platform_Memory
  imports Port_Host Pool_Config
begin

unbundle bit_operations_syntax

text \<open>
  Shared-memory objects of the platforms: opening and closing on Linux (POSIX shared memory, huge
  pages, reserved device memory, caller-owned memory), on Xen (static shared regions) and on the two
  real-time ports (\<^verbatim>\<open>platform-linux-user.c\<close>, \<^verbatim>\<open>platform-xen.c\<close>, \<^verbatim>\<open>platform-freertos.c\<close>,
  \<^verbatim>\<open>platform-baremetal.c\<close>). An opened object is what the pools see as their memory.
\<close>

subsection \<open>Configuration\<close>

datatype zipc_platform_memory_type =
    ZIPC_SHM_POSIX
  | ZIPC_SHM_HUGEPAGES
  | ZIPC_SHM_DTREVMEM_CACHED
  | ZIPC_SHM_DTREVMEM_UNCACHED
  | ZIPC_SHM_XEN_STATIC
  | ZIPC_SHM_PREALLOCATED

definition ZIPC_MEM_CAP_CACHEABLE :: u32 where "ZIPC_MEM_CAP_CACHEABLE = 16"
definition ZIPC_MEM_CAP_FIXED_PHYS :: u32 where "ZIPC_MEM_CAP_FIXED_PHYS = 32"
definition ZIPC_MEM_CAP_REMOTE_ACCESS :: u32 where "ZIPC_MEM_CAP_REMOTE_ACCESS = 64"
definition ZIPC_MEM_CAP_DEVICE_MEMORY :: u32 where "ZIPC_MEM_CAP_DEVICE_MEMORY = 128"

record file_memory_config =
  fm_name :: "string option"
  fm_create :: bool
  fm_unlink_on_close :: bool

record device_memory_config =
  dm_device_path :: "string option"
  dm_physical_address :: u64
  dm_supports_cpu_atomics :: bool
  dm_remote_accessible :: bool
  dm_device_memory :: bool

record xen_memory_config =
  xm_device_path :: "string option"
  xm_guest_physical_address :: u64
  xm_supports_cpu_atomics :: bool
  xm_cacheable :: bool

record preallocated_memory_config =
  pr_address :: "nat option"
  pr_physical_address :: u64
  pr_capabilities :: u32

text \<open>The members of the union are fields of their own; the type selects the one that is read.\<close>

record zipc_platform_memory_config =
  mc_type :: zipc_platform_memory_type
  mc_size :: u64
  mc_posix :: file_memory_config
  mc_hugepages :: file_memory_config
  mc_dtrevmem :: device_memory_config
  mc_xen_static :: xen_memory_config
  mc_preallocated :: preallocated_memory_config

text \<open>The memory object of Linux and Xen; \<open>None\<close> is the null mapping.\<close>

record memory_object =
  mo_type :: zipc_platform_memory_type
  mo_fd :: int
  mo_mapping_base :: "nat option"
  mo_mapping_size :: u64
  mo_base :: u64
  mo_size :: u64
  mo_physical_base :: u64
  mo_capabilities :: u32
  mo_unlink_on_close :: bool
  mo_object_name :: string

type_synonym memory_host = "memory_object port_host"

definition new_memory :: "zipc_platform_memory_type \<Rightarrow> memory_object" where
  "new_memory ty = \<lparr>mo_type = ty, mo_fd = - 1, mo_mapping_base = None, mo_mapping_size = 0, mo_base = 0, mo_size = 0,
     mo_physical_base = ZIPC_PHYS_ADDR_INVALID, mo_capabilities = 0, mo_unlink_on_close = False, mo_object_name = []\<rparr>"

definition name_missing :: "string option \<Rightarrow> bool" where
  "name_missing name \<longleftrightarrow> name = None \<or> name = Some []"

subsection \<open>Linux\<close>

definition map_fd :: "nat \<Rightarrow> u64 \<Rightarrow> u64 \<Rightarrow> u64 \<Rightarrow> memory_host \<Rightarrow> zipc_status \<times> memory_host" where
  "map_fd m mapping_size offset page_offset h =
     (let (r, h) = port_call (Port_mmap mapping_size (mo_fd (po_object h m)) offset) h
      in case re_address r of
           None \<Rightarrow> (ZIPC_ERR_PLATFORM, upd_object m (\<lambda>x. x\<lparr>mo_mapping_base := None\<rparr>) h)
         | Some a \<Rightarrow> (ZIPC_OK, upd_object m (\<lambda>x. x\<lparr>mo_mapping_base := Some a, mo_mapping_size := mapping_size,
                                               mo_base := of_nat a + page_offset\<rparr>) h))"

text \<open>The two file-backed kinds differ in the call that opens the file and in the page capability.\<close>

definition open_file_memory ::
  "(string \<Rightarrow> bool \<Rightarrow> port_request) \<Rightarrow> file_memory_config \<Rightarrow> u64 \<Rightarrow> u32 \<Rightarrow> nat \<Rightarrow> memory_host \<Rightarrow> zipc_status \<times> memory_host" where
  "open_file_memory open_request config bytes capabilities m h =
     (if name_missing (fm_name config) then (ZIPC_ERR_INVALID_ARGUMENT, h)
      else
        let name = the (fm_name config);
            h = upd_object m (\<lambda>x. x\<lparr>mo_unlink_on_close := fm_unlink_on_close config, mo_object_name := take 255 name\<rparr>) h;
            (r, h) = port_call (open_request name (fm_create config)) h;
            h = upd_object m (\<lambda>x. x\<lparr>mo_fd := re_value r\<rparr>) h
        in if re_value r < 0 then (ZIPC_ERR_PLATFORM, h)
           else
             let (truncated, h) =
                   (if fm_create config
                    then let (r, h) = port_call (Port_ftruncate (mo_fd (po_object h m)) bytes) h in (re_value r = 0, h)
                    else (True, h))
             in if \<not> truncated then (ZIPC_ERR_PLATFORM, h)
                else
                  let (status, h) = map_fd m bytes 0 0 h in
                  if status \<noteq> ZIPC_OK then (status, h)
                  else (ZIPC_OK, upd_object m (\<lambda>x. x\<lparr>mo_size := bytes, mo_physical_base := ZIPC_PHYS_ADDR_INVALID,
                                                   mo_capabilities := capabilities\<rparr>) h))"

definition open_posix :: "nat \<Rightarrow> zipc_platform_memory_config \<Rightarrow> memory_host \<Rightarrow> zipc_status \<times> memory_host" where
  "open_posix m config h =
     open_file_memory Port_shm_open (mc_posix config) (mc_size config)
       (ZIPC_MEM_CAP_CPU_READ OR ZIPC_MEM_CAP_CPU_WRITE OR ZIPC_MEM_CAP_ATOMIC32 OR ZIPC_MEM_CAP_ATOMIC64 OR
        ZIPC_MEM_CAP_CACHEABLE OR ZIPC_MEM_CAP_PAGE_PROTECT) m h"

definition open_hugepages :: "nat \<Rightarrow> zipc_platform_memory_config \<Rightarrow> memory_host \<Rightarrow> zipc_status \<times> memory_host" where
  "open_hugepages m config h =
     open_file_memory Port_open (mc_hugepages config) (mc_size config)
       (ZIPC_MEM_CAP_CPU_READ OR ZIPC_MEM_CAP_CPU_WRITE OR ZIPC_MEM_CAP_ATOMIC32 OR ZIPC_MEM_CAP_ATOMIC64 OR
        ZIPC_MEM_CAP_CACHEABLE) m h"

definition device_capabilities :: "device_memory_config \<Rightarrow> bool \<Rightarrow> u32" where
  "device_capabilities d cached =
     ZIPC_MEM_CAP_CPU_READ OR ZIPC_MEM_CAP_CPU_WRITE OR ZIPC_MEM_CAP_FIXED_PHYS OR
     (if cached then ZIPC_MEM_CAP_CACHEABLE else 0) OR
     (if dm_supports_cpu_atomics d then ZIPC_MEM_CAP_ATOMIC32 OR ZIPC_MEM_CAP_ATOMIC64 else 0) OR
     (if dm_remote_accessible d then ZIPC_MEM_CAP_REMOTE_ACCESS else 0) OR
     (if dm_device_memory d then ZIPC_MEM_CAP_DEVICE_MEMORY else 0)"

text \<open>Mapping of a physical range that need not start on a page.\<close>

definition page_start :: "u64 \<Rightarrow> u64 \<Rightarrow> u64" where
  "page_start page_size physical = physical AND NOT (page_size - 1)"

definition open_dtrevmem :: "nat \<Rightarrow> zipc_platform_memory_config \<Rightarrow> bool \<Rightarrow> memory_host \<Rightarrow> zipc_status \<times> memory_host" where
  "open_dtrevmem m config cached h =
     (let d = mc_dtrevmem config; path = dm_device_path d; physical = dm_physical_address d in
      if name_missing path then (ZIPC_ERR_INVALID_ARGUMENT, h)
      else
        let (r, h) = port_call Port_page_size h in
        if re_value r \<le> 0 then (ZIPC_ERR_PLATFORM, h)
        else
          let page_size = word_of_int (re_value r);
              aligned = page_start page_size physical;
              page_offset = physical - aligned
          in if mc_size config > SIZE_MAX - page_offset then (ZIPC_ERR_INVALID_ARGUMENT, h)
             else
               let (r, h) = port_call (Port_open_device (the path) (\<not> cached)) h;
                   h = upd_object m (\<lambda>x. x\<lparr>mo_fd := re_value r\<rparr>) h
               in if re_value r < 0 then (ZIPC_ERR_PLATFORM, h)
                  else
                    let (status, h) = map_fd m (mc_size config + page_offset) aligned page_offset h in
                    if status \<noteq> ZIPC_OK then (status, h)
                    else (ZIPC_OK, upd_object m (\<lambda>x. x\<lparr>mo_size := mc_size config, mo_physical_base := physical,
                            mo_capabilities := device_capabilities d cached\<rparr>) h))"

definition close_unlinks :: "memory_object \<Rightarrow> memory_host \<Rightarrow> memory_host" where
  "close_unlinks x h =
     (if mo_unlink_on_close x \<and> mo_object_name x \<noteq> []
      then if mo_type x = ZIPC_SHM_POSIX then port_do (Port_shm_unlink (mo_object_name x)) h
           else if mo_type x = ZIPC_SHM_HUGEPAGES then port_do (Port_unlink (mo_object_name x)) h else h
      else h)"

definition zipc_platform_memory_close :: "nat option \<Rightarrow> memory_host \<Rightarrow> memory_host" where
  "zipc_platform_memory_close memory h =
     (case memory of
        None \<Rightarrow> h
      | Some m \<Rightarrow>
          let x = po_object h m;
              h = (case mo_mapping_base x of None \<Rightarrow> h | Some a \<Rightarrow> port_do (Port_munmap a (mo_mapping_size x)) h);
              h = (if mo_fd x \<ge> 0 then port_do (Port_close (mo_fd x)) h else h);
              h = close_unlinks x h
          in port_do (Port_free (Some m)) h)"

definition open_preallocated :: "nat \<Rightarrow> zipc_platform_memory_config \<Rightarrow> memory_host \<Rightarrow> zipc_status \<times> memory_host" where
  "open_preallocated m config h =
     (case pr_address (mc_preallocated config) of
        None \<Rightarrow> (ZIPC_ERR_INVALID_ARGUMENT, h)
      | Some a \<Rightarrow> (ZIPC_OK, upd_object m (\<lambda>x. x\<lparr>mo_base := of_nat a, mo_size := mc_size config,
                      mo_physical_base := pr_physical_address (mc_preallocated config),
                      mo_capabilities := pr_capabilities (mc_preallocated config)\<rparr>) h))"

definition open_memory_typed :: "nat \<Rightarrow> zipc_platform_memory_config \<Rightarrow> memory_host \<Rightarrow> zipc_status \<times> memory_host" where
  "open_memory_typed m config h =
     (case mc_type config of
        ZIPC_SHM_POSIX \<Rightarrow> open_posix m config h
      | ZIPC_SHM_HUGEPAGES \<Rightarrow> open_hugepages m config h
      | ZIPC_SHM_DTREVMEM_CACHED \<Rightarrow> open_dtrevmem m config True h
      | ZIPC_SHM_DTREVMEM_UNCACHED \<Rightarrow> open_dtrevmem m config False h
      | ZIPC_SHM_PREALLOCATED \<Rightarrow> open_preallocated m config h
      | _ \<Rightarrow> (ZIPC_ERR_INVALID_ARGUMENT, h))"

definition zipc_platform_memory_open ::
  "bool \<Rightarrow> zipc_platform_memory_config option \<Rightarrow> memory_host \<Rightarrow> zipc_status \<times> nat option \<times> memory_host" where
  "zipc_platform_memory_open memory_out config h =
     (case config of
        None \<Rightarrow> (ZIPC_ERR_INVALID_ARGUMENT, None, h)
      | Some c \<Rightarrow>
          if \<not> memory_out \<or> mc_size c = 0 then (ZIPC_ERR_INVALID_ARGUMENT, None, h)
          else
            let (r, h) = port_call Port_alloc h in
            case re_address r of
              None \<Rightarrow> (ZIPC_ERR_PLATFORM, None, h)
            | Some m \<Rightarrow>
                let (status, h) = open_memory_typed m c (upd_object m (\<lambda>_. new_memory (mc_type c)) h)
                in if status \<noteq> ZIPC_OK then (status, None, zipc_platform_memory_close (Some m) h)
                   else (ZIPC_OK, Some m, h))"

subsection \<open>Xen\<close>

definition xen_capabilities :: "xen_memory_config \<Rightarrow> u32" where
  "xen_capabilities x =
     ZIPC_MEM_CAP_CPU_READ OR ZIPC_MEM_CAP_CPU_WRITE OR ZIPC_MEM_CAP_FIXED_PHYS OR ZIPC_MEM_CAP_REMOTE_ACCESS OR
     (if xm_supports_cpu_atomics x then ZIPC_MEM_CAP_ATOMIC32 OR ZIPC_MEM_CAP_ATOMIC64 else 0) OR
     (if xm_cacheable x then ZIPC_MEM_CAP_CACHEABLE else 0)"

definition xen_map_static :: "nat \<Rightarrow> zipc_platform_memory_config \<Rightarrow> memory_host \<Rightarrow> zipc_status \<times> memory_host" where
  "xen_map_static m config h =
     (let d = mc_xen_static config; path = xm_device_path d; physical = xm_guest_physical_address d in
      if name_missing path then (ZIPC_ERR_INVALID_ARGUMENT, h)
      else
        let (r, h) = port_call Port_page_size h in
        if re_value r \<le> 0 then (ZIPC_ERR_PLATFORM, h)
        else
          let page_size = word_of_int (re_value r);
              aligned = page_start page_size physical;
              page_offset = physical - aligned
          in if mc_size config > SIZE_MAX - page_offset then (ZIPC_ERR_INVALID_ARGUMENT, h)
             else
               let (r, h) = port_call (Port_open_device (the path) False) h;
                   h = upd_object m (\<lambda>x. x\<lparr>mo_fd := re_value r\<rparr>) h
               in if re_value r < 0 then (ZIPC_ERR_PLATFORM, h)
                  else
                    let mapping_size = mc_size config + page_offset;
                        h = upd_object m (\<lambda>x. x\<lparr>mo_mapping_size := mapping_size\<rparr>) h;
                        (r, h) = port_call (Port_mmap mapping_size (mo_fd (po_object h m)) aligned) h
                    in case re_address r of
                         None \<Rightarrow> (ZIPC_ERR_PLATFORM, upd_object m (\<lambda>x. x\<lparr>mo_mapping_base := None\<rparr>) h)
                       | Some a \<Rightarrow>
                           (ZIPC_OK, upd_object m (\<lambda>x. x\<lparr>mo_mapping_base := Some a, mo_base := of_nat a + page_offset,
                              mo_size := mc_size config, mo_physical_base := physical,
                              mo_capabilities := xen_capabilities d\<rparr>) h))"

definition xen_memory_close :: "nat option \<Rightarrow> memory_host \<Rightarrow> memory_host" where
  "xen_memory_close memory h =
     (case memory of
        None \<Rightarrow> h
      | Some m \<Rightarrow>
          let x = po_object h m;
              h = (case mo_mapping_base x of None \<Rightarrow> h | Some a \<Rightarrow> port_do (Port_munmap a (mo_mapping_size x)) h);
              h = (if mo_fd x \<ge> 0 then port_do (Port_close (mo_fd x)) h else h)
          in port_do (Port_free (Some m)) h)"

definition xen_memory_open ::
  "bool \<Rightarrow> zipc_platform_memory_config option \<Rightarrow> memory_host \<Rightarrow> zipc_status \<times> nat option \<times> memory_host" where
  "xen_memory_open memory_out config h =
     (case config of
        None \<Rightarrow> (ZIPC_ERR_INVALID_ARGUMENT, None, h)
      | Some c \<Rightarrow>
          if \<not> memory_out \<or> mc_size c = 0 then (ZIPC_ERR_INVALID_ARGUMENT, None, h)
          else if mc_type c \<noteq> ZIPC_SHM_XEN_STATIC then (ZIPC_ERR_UNSUPPORTED_MEMORY, None, h)
          else
            let (r, h) = port_call Port_alloc h in
            case re_address r of
              None \<Rightarrow> (ZIPC_ERR_PLATFORM, None, h)
            | Some m \<Rightarrow>
                let (status, h) = xen_map_static m c (upd_object m (\<lambda>_. new_memory (mc_type c)) h)
                in if status \<noteq> ZIPC_OK then (status, None, xen_memory_close (Some m) h)
                   else (ZIPC_OK, Some m, h))"

subsection \<open>The view of the pools\<close>

definition pool_memory :: "memory_object \<Rightarrow> zipc_platform_memory" where
  "pool_memory x = \<lparr>pm_base = mo_base x, pm_size = mo_size x, pm_physical_base = mo_physical_base x,
     pm_capabilities = mo_capabilities x, pm_access = (\<lambda>_. True)\<rparr>"

end
