(* ===== verification/Memory_Properties.thy ===== *)
theory Memory_Properties
  imports Platform_Memory
begin

unbundle bit_operations_syntax

text \<open>
  Memory objects leak nothing on any path, the opened range lies inside its mapping at the configured
  physical address, and what closing unlinks.
\<close>

subsection \<open>Resources of a memory object\<close>

definition mem_owned :: "memory_object \<Rightarrow> port_resource multiset" where
  "mem_owned x = held_address Held_map (mo_mapping_base x) + held_fd (mo_fd x)"

lemma new_memory_simps [simp]:
  "mo_fd (new_memory ty) = - 1" "mo_mapping_base (new_memory ty) = None" "mo_type (new_memory ty) = ty"
  "mo_unlink_on_close (new_memory ty) = False" "mo_object_name (new_memory ty) = []"
  by (simp_all add: new_memory_def)

lemma port_do_log [simp]: "po_log (port_do req h) = po_log h @ [(req, po_reply h (po_calls h))]"
  by (simp add: port_do_def)

lemma close_unlinks_held [simp]: "port_held (po_log (close_unlinks x h)) = port_held (po_log h)"
  by (simp add: close_unlinks_def)

lemma memory_close_releases:
  "port_held (po_log (zipc_platform_memory_close (Some m) h)) = port_held (po_log h) - mem_owned (po_object h m) - {#Held_heap m#}"
  "port_held (po_log (xen_memory_close (Some m) h)) = port_held (po_log h) - mem_owned (po_object h m) - {#Held_heap m#}"
proof -
  define x where "x = po_object h m"
  have "port_held (po_log (port_do (Port_free (Some m)) g)) = port_held (po_log g) - {#Held_heap m#}"
    "port_held (po_log (if mo_fd x \<ge> 0 then port_do (Port_close (mo_fd x)) g else g)) = port_held (po_log g) - held_fd (mo_fd x)"
    "port_held (po_log (case mo_mapping_base x of None \<Rightarrow> g | Some a \<Rightarrow> port_do (Port_munmap a (mo_mapping_size x)) g)) =
      port_held (po_log g) - held_address Held_map (mo_mapping_base x)" for g :: memory_host
    by (auto split: option.split)
  then show "port_held (po_log (zipc_platform_memory_close (Some m) h)) = port_held (po_log h) - mem_owned (po_object h m) - {#Held_heap m#}"
    "port_held (po_log (xen_memory_close (Some m) h)) = port_held (po_log h) - mem_owned (po_object h m) - {#Held_heap m#}"
    unfolding zipc_platform_memory_close_def xen_memory_close_def mem_owned_def Let_def option.case x_def [symmetric]
    by (simp_all only: close_unlinks_held diff_diff_add_mset)
qed

subsection \<open>What opening leaves\<close>

text \<open>The outcome of mapping a descriptor.\<close>

lemma map_fd_outcome:
  assumes "map_fd m bytes offset page_offset h = (st, h')"
  shows "h' = upd_object m (\<lambda>x. if st = ZIPC_OK
      then x\<lparr>mo_mapping_base := re_address (po_reply h (po_calls h)), mo_mapping_size := bytes,
             mo_base := of_nat (the (re_address (po_reply h (po_calls h)))) + page_offset\<rparr>
      else x\<lparr>mo_mapping_base := None\<rparr>) (snd (port_call (Port_mmap bytes (mo_fd (po_object h m)) offset) h))"
    and "st = ZIPC_OK \<longleftrightarrow> re_address (po_reply h (po_calls h)) \<noteq> None"
  using assms by (auto simp: map_fd_def port_call_eq split: option.splits)

lemma open_file_holds:
  assumes "mo_mapping_base (po_object h m) = None" "mo_fd (po_object h m) = - 1"
    and "\<And>name create r. port_acquired (req name create, r) = held_fd (re_value r)"
      "\<And>name create r. port_released (req name create, r) = {#}"
    and "open_file_memory req c n caps m h = (st, h')"
  shows "port_held (po_log h') = port_held (po_log h) + mem_owned (po_object h' m)"
  using assms
  by (auto simp: open_file_memory_def map_fd_def port_call_eq mem_owned_def Let_def upd_object_def split: if_splits option.splits)

lemma open_device_holds:
  assumes "mo_mapping_base (po_object h m) = None" "mo_fd (po_object h m) = - 1"
    and "open_dtrevmem m c cached h = (st, h')"
  shows "port_held (po_log h') = port_held (po_log h) + mem_owned (po_object h' m)"
  using assms
  by (auto simp: open_dtrevmem_def map_fd_def port_call_eq mem_owned_def Let_def upd_object_def
      split: if_splits option.splits)

lemma open_xen_holds:
  assumes "mo_mapping_base (po_object h m) = None" "mo_fd (po_object h m) = - 1"
    and "xen_map_static m c h = (st, h')"
  shows "port_held (po_log h') = port_held (po_log h) + mem_owned (po_object h' m)"
  using assms
  by (auto simp: xen_map_static_def port_call_eq mem_owned_def Let_def upd_object_def
      split: if_splits option.splits)

lemma open_memory_typed_holds:
  assumes "po_object h m = new_memory ty" "open_memory_typed m c h = (st, h')"
  shows "port_held (po_log h') = port_held (po_log h) + mem_owned (po_object h' m)"
proof -
  have n: "mo_mapping_base (po_object h m) = None" "mo_fd (po_object h m) = - 1" using assms(1) by simp_all
  show ?thesis
  proof (cases "mc_type c")
    case ZIPC_SHM_PREALLOCATED
    then show ?thesis
      using assms n by (auto simp: open_memory_typed_def open_preallocated_def mem_owned_def split: option.splits)
  next
    case ZIPC_SHM_POSIX
    then show ?thesis
      using assms(2) by (intro open_file_holds [OF n, of Port_shm_open]) (simp_all add: open_memory_typed_def open_posix_def)
  next
    case ZIPC_SHM_HUGEPAGES
    then show ?thesis
      using assms(2) by (intro open_file_holds [OF n, of Port_open]) (simp_all add: open_memory_typed_def open_hugepages_def)
  qed (use assms(2) n open_device_holds [OF n] in \<open>auto simp: open_memory_typed_def mem_owned_def\<close>)
qed

text \<open>C36: Opening a memory object leaks nothing, on Linux and on Xen. When it fails, on any path, the
  descriptor, the mapping and the heap object it had acquired are released again; when it succeeds,
  closing the object releases exactly what opening acquired.\<close>

theorem memory_open_close_no_leak:
  assumes "zipc_platform_memory_open out config h = (st, m, h')" "xen_memory_open out config g = (xst, xm, g')"
  shows "(if st = ZIPC_OK then m \<noteq> None \<and> port_held (po_log (zipc_platform_memory_close m h')) = port_held (po_log h)
      else m = None \<and> port_held (po_log h') = port_held (po_log h)) \<and>
    (if xst = ZIPC_OK then xm \<noteq> None \<and> port_held (po_log (xen_memory_close xm g')) = port_held (po_log g)
      else xm = None \<and> port_held (po_log g') = port_held (po_log g))"
proof
  show "if st = ZIPC_OK then m \<noteq> None \<and> port_held (po_log (zipc_platform_memory_close m h')) = port_held (po_log h)
      else m = None \<and> port_held (po_log h') = port_held (po_log h)"
  proof (cases "config = None \<or> \<not> out \<or> mc_size (the config) = 0 \<or> re_address (po_reply h (po_calls h)) = None")
    case True
    then show ?thesis
      using assms(1) by (cases config) (auto simp: zipc_platform_memory_open_def port_call_eq split: if_splits)
  next
    case False
    then obtain c r where c: "config = Some c" "out" "mc_size c \<noteq> 0" "re_address (po_reply h (po_calls h)) = Some r" by auto
    let ?h = "upd_object r (\<lambda>_. new_memory (mc_type c)) (snd (port_call Port_alloc h))"
    obtain st1 h1 where o: "open_memory_typed r c ?h = (st1, h1)" by fastforce
    have k: "port_held (po_log h1) = port_held (po_log h) + {#Held_heap r#} + mem_owned (po_object h1 r)"
      using open_memory_typed_holds [OF _ o] c(4) by simp
    have "(st, m, h') = (if st1 \<noteq> ZIPC_OK then (st1, None, zipc_platform_memory_close (Some r) h1) else (ZIPC_OK, Some r, h1))"
      using assms(1) c o by (simp add: zipc_platform_memory_open_def port_call_eq Let_def)
    then show ?thesis using k memory_close_releases(1) [of r h1] by (auto split: if_splits)
  qed
  show "if xst = ZIPC_OK then xm \<noteq> None \<and> port_held (po_log (xen_memory_close xm g')) = port_held (po_log g)
      else xm = None \<and> port_held (po_log g') = port_held (po_log g)"
  proof (cases "config = None \<or> \<not> out \<or> mc_size (the config) = 0 \<or> mc_type (the config) \<noteq> ZIPC_SHM_XEN_STATIC \<or>
      re_address (po_reply g (po_calls g)) = None")
    case True
    then show ?thesis
      using assms(2) by (cases config) (auto simp: xen_memory_open_def port_call_eq split: if_splits)
  next
    case False
    then obtain c r where c: "config = Some c" "out" "mc_size c \<noteq> 0" "mc_type c = ZIPC_SHM_XEN_STATIC"
      "re_address (po_reply g (po_calls g)) = Some r" by auto
    let ?g = "upd_object r (\<lambda>_. new_memory (mc_type c)) (snd (port_call Port_alloc g))"
    obtain st1 g1 where o: "xen_map_static r c ?g = (st1, g1)" by fastforce
    have k: "port_held (po_log g1) = port_held (po_log g) + {#Held_heap r#} + mem_owned (po_object g1 r)"
      using open_xen_holds [OF _ _ o] c(5) by simp
    have "(xst, xm, g') = (if st1 \<noteq> ZIPC_OK then (st1, None, xen_memory_close (Some r) g1) else (ZIPC_OK, Some r, g1))"
      using assms(2) c o by (simp add: xen_memory_open_def port_call_eq Let_def)
    then show ?thesis using k memory_close_releases(2) [of r g1] by (auto split: if_splits)
  qed
qed

text \<open>A host whose every call returns the descriptor or value \<open>v\<close> and the address \<open>a\<close>.\<close>

definition sample_memory_host :: "int \<Rightarrow> nat option \<Rightarrow> memory_host" where
  "sample_memory_host v a = \<lparr>po_object = (\<lambda>_. new_memory ZIPC_SHM_POSIX), po_rings = (\<lambda>_. zero_ring 2), po_mail = (\<lambda>_. ring_entries (zero_ring 2) ! 0),
     po_reply = (\<lambda>_. \<lparr>re_value = v, re_errno = EOTHER, re_counter = 0, re_message = ring_entries (zero_ring 2) ! 0, re_status = ZIPC_OK,
       re_address = a, re_sec = 0, re_nsec = 0, re_bytes = [], re_peer = []\<rparr>),
     po_calls = 0, po_log = []\<rparr>"

definition sample_memory_config :: "zipc_platform_memory_type \<Rightarrow> u64 \<Rightarrow> zipc_platform_memory_config" where
  "sample_memory_config ty bytes =
     \<lparr>mc_type = ty, mc_size = bytes,
      mc_posix = \<lparr>fm_name = Some ''/zipc'', fm_create = False, fm_unlink_on_close = True\<rparr>,
      mc_hugepages = \<lparr>fm_name = Some ''/dev/hugepages/zipc'', fm_create = False, fm_unlink_on_close = False\<rparr>,
      mc_dtrevmem = \<lparr>dm_device_path = Some ''/dev/mem'', dm_physical_address = 0x12345, dm_supports_cpu_atomics = True,
        dm_remote_accessible = True, dm_device_memory = False\<rparr>,
      mc_xen_static = \<lparr>xm_device_path = Some ''/dev/mem'', xm_guest_physical_address = 0x12345, xm_supports_cpu_atomics = True, xm_cacheable = True\<rparr>,
      mc_preallocated = \<lparr>pr_address = None, pr_physical_address = 0, pr_capabilities = 0\<rparr>\<rparr>"

lemma sample_open:
  "fst (zipc_platform_memory_open True (Some (sample_memory_config ZIPC_SHM_DTREVMEM_CACHED 8192)) (sample_memory_host 4096 (Some 65536))) = ZIPC_OK"
  "fst (snd (zipc_platform_memory_open True (Some (sample_memory_config ZIPC_SHM_DTREVMEM_CACHED 8192)) (sample_memory_host 4096 (Some 65536)))) =
     Some 65536"
  by (simp_all add: zipc_platform_memory_open_def open_memory_typed_def open_dtrevmem_def map_fd_def sample_memory_config_def
      sample_memory_host_def port_call_eq name_missing_def upd_object_def page_start_def SIZE_MAX_def)

theorem memory_open_close_no_leak_witness:
  "let h = sample_memory_host 4096 (Some 65536); c = Some (sample_memory_config ZIPC_SHM_DTREVMEM_CACHED 8192);
       m = fst (snd (zipc_platform_memory_open True c h)); h' = snd (snd (zipc_platform_memory_open True c h)) in
   m \<noteq> None \<and> port_held (po_log (zipc_platform_memory_close m h')) = {#}"
proof -
  let ?h = "sample_memory_host 4096 (Some 65536)" and ?c = "Some (sample_memory_config ZIPC_SHM_DTREVMEM_CACHED 8192)"
  obtain st m h' where r: "zipc_platform_memory_open True ?c ?h = (st, m, h')" by (metis prod_cases3)
  obtain xst xm g' where x: "xen_memory_open True ?c ?h = (xst, xm, g')" by (metis prod_cases3)
  have "fst (zipc_platform_memory_open True ?c ?h) = ZIPC_OK" by (simp add: sample_open)
  with memory_open_close_no_leak [OF r x] r show ?thesis by (simp add: sample_memory_host_def port_held_def)
qed

subsection \<open>The opened range\<close>

text \<open>Where a successfully opened object lies in its mapping.\<close>

definition memory_placed :: "memory_object \<Rightarrow> (port_request \<times> os_reply) list \<Rightarrow> u64 \<Rightarrow> u64 \<Rightarrow> bool" where
  "memory_placed x log start off \<longleftrightarrow>
     (\<exists>a. mo_mapping_base x = Some a \<and> mo_base x = of_nat a + off) \<and>
     unat (mo_mapping_size x) = unat off + unat (mo_size x) \<and>
     (\<exists>r. (Port_mmap (mo_mapping_size x) (mo_fd x) start, r) \<in> set log)"

lemma page_start_le: "page_start n physical \<le> physical"
  by (simp add: page_start_def word_and_le2)

lemma unat_add_checked:
  fixes n off :: u64
  assumes "\<not> n > SIZE_MAX - off"
  shows "unat (n + off) = unat off + unat n"
proof -
  have m: "unat SIZE_MAX = 18446744073709551615" by (simp add: unat_SIZE_MAX)
  have a: "unat (SIZE_MAX - off) = unat SIZE_MAX - unat off" by (rule unat_sub) (simp add: SIZE_MAX_eq)
  have b: "unat n \<le> unat (SIZE_MAX - off)" using assms unfolding not_less word_le_nat_alt .
  have "unat off + unat n < 18446744073709551616"
    using a b unat_u64_lt [of off] unfolding m by linarith
  then have "(unat n + unat off) mod 2 ^ LENGTH(64) = unat n + unat off" by (intro mod_less) simp
  then show ?thesis unfolding unat_word_ariths(1) by (simp only: add.commute)
qed

lemma open_file_placed:
  assumes "open_file_memory req c n caps m h = (ZIPC_OK, h')"
  shows "memory_placed (po_object h' m) (po_log h') 0 0 \<and> mo_size (po_object h' m) = n \<and> mo_capabilities (po_object h' m) = caps"
  using assms
  by (auto simp: open_file_memory_def map_fd_def port_call_eq memory_placed_def Let_def upd_object_def split: if_splits option.splits)

lemma open_device_placed:
  fixes c :: zipc_platform_memory_config
  defines "physical \<equiv> dm_physical_address (mc_dtrevmem c)"
  assumes "open_dtrevmem m c cached h = (ZIPC_OK, h')"
  shows "\<exists>start. start \<le> physical \<and> memory_placed (po_object h' m) (po_log h') start (physical - start) \<and>
    mo_size (po_object h' m) = mc_size c \<and> mo_physical_base (po_object h' m) = physical \<and>
    mo_capabilities (po_object h' m) = device_capabilities (mc_dtrevmem c) cached"
proof (rule exI [of _ "page_start (word_of_int (re_value (po_reply h (po_calls h)))) physical"])
  show "page_start (word_of_int (re_value (po_reply h (po_calls h)))) physical \<le> physical \<and>
    memory_placed (po_object h' m) (po_log h') (page_start (word_of_int (re_value (po_reply h (po_calls h)))) physical)
      (physical - page_start (word_of_int (re_value (po_reply h (po_calls h)))) physical) \<and>
    mo_size (po_object h' m) = mc_size c \<and> mo_physical_base (po_object h' m) = physical \<and>
    mo_capabilities (po_object h' m) = device_capabilities (mc_dtrevmem c) cached"
    using assms(2) unat_add_checked [where n = "mc_size c"]
    by (auto simp: open_dtrevmem_def map_fd_def port_call_eq memory_placed_def Let_def upd_object_def page_start_le physical_def
        split: if_splits option.splits)
qed

lemma device_capabilities_pages: "device_capabilities d cached AND ZIPC_MEM_CAP_PAGE_PROTECT = 0"
  by (cases cached; cases "dm_supports_cpu_atomics d"; cases "dm_remote_accessible d"; cases "dm_device_memory d")
    (simp_all add: device_capabilities_def ZIPC_MEM_CAP_CPU_READ_def ZIPC_MEM_CAP_CPU_WRITE_def ZIPC_MEM_CAP_FIXED_PHYS_def
      ZIPC_MEM_CAP_CACHEABLE_def ZIPC_MEM_CAP_ATOMIC32_def ZIPC_MEM_CAP_ATOMIC64_def ZIPC_MEM_CAP_REMOTE_ACCESS_def
      ZIPC_MEM_CAP_DEVICE_MEMORY_def ZIPC_MEM_CAP_PAGE_PROTECT_def)

text \<open>A memory object that Linux opened and mapped lies inside its mapping: its base is the mapping
  address plus an offset, and offset and size together are exactly the mapped length, without
  wrap-around, for every page size the system may report. Reserved device memory starts at the
  configured physical address: the mapped file offset plus the offset in the mapping is that
  address. Only POSIX shared memory is offered for page protection.\<close>

theorem opened_memory_layout:
  assumes "zipc_platform_memory_open True (Some c) h = (ZIPC_OK, Some m, h')" "mc_type c \<noteq> ZIPC_SHM_PREALLOCATED"
  shows "mo_size (po_object h' m) = mc_size c \<and>
    (mo_capabilities (po_object h' m) AND ZIPC_MEM_CAP_PAGE_PROTECT \<noteq> 0 \<longleftrightarrow> mc_type c = ZIPC_SHM_POSIX) \<and>
    (if mc_type c = ZIPC_SHM_POSIX \<or> mc_type c = ZIPC_SHM_HUGEPAGES then memory_placed (po_object h' m) (po_log h') 0 0
     else mo_physical_base (po_object h' m) = dm_physical_address (mc_dtrevmem c) \<and>
       (\<exists>start \<le> dm_physical_address (mc_dtrevmem c).
          memory_placed (po_object h' m) (po_log h') start (dm_physical_address (mc_dtrevmem c) - start)))"
proof -
  obtain r h1 where o: "open_memory_typed r c h1 = (ZIPC_OK, h')" "m = r"
    using assms(1) by (auto simp: zipc_platform_memory_open_def port_call_eq Let_def split: if_splits option.splits prod.splits)
  note caps = ZIPC_MEM_CAP_CPU_READ_def ZIPC_MEM_CAP_CPU_WRITE_def ZIPC_MEM_CAP_CACHEABLE_def ZIPC_MEM_CAP_ATOMIC32_def
    ZIPC_MEM_CAP_ATOMIC64_def ZIPC_MEM_CAP_PAGE_PROTECT_def
  show ?thesis
  proof (cases "mc_type c")
    case ZIPC_SHM_POSIX
    with o(1) have "open_posix r c h1 = (ZIPC_OK, h')" by (simp add: open_memory_typed_def)
    from open_file_placed [OF this [unfolded open_posix_def]] ZIPC_SHM_POSIX o(2) show ?thesis by (simp add: caps)
  next
    case ZIPC_SHM_HUGEPAGES
    with o(1) have "open_hugepages r c h1 = (ZIPC_OK, h')" by (simp add: open_memory_typed_def)
    from open_file_placed [OF this [unfolded open_hugepages_def]] ZIPC_SHM_HUGEPAGES o(2) show ?thesis by (simp add: caps)
  next
    case ZIPC_SHM_DTREVMEM_CACHED
    with o(1) have "open_dtrevmem r c True h1 = (ZIPC_OK, h')" by (simp add: open_memory_typed_def)
    from open_device_placed [OF this] ZIPC_SHM_DTREVMEM_CACHED o(2) show ?thesis by (auto simp: device_capabilities_pages)
  next
    case ZIPC_SHM_DTREVMEM_UNCACHED
    with o(1) have "open_dtrevmem r c False h1 = (ZIPC_OK, h')" by (simp add: open_memory_typed_def)
    from open_device_placed [OF this] ZIPC_SHM_DTREVMEM_UNCACHED o(2) show ?thesis by (auto simp: device_capabilities_pages)
  qed (use o assms(2) in \<open>simp_all add: open_memory_typed_def\<close>)
qed

theorem opened_memory_layout_witness:
  "let h' = snd (snd (zipc_platform_memory_open True (Some (sample_memory_config ZIPC_SHM_DTREVMEM_CACHED 8192))
       (sample_memory_host 4096 (Some 65536)))) in
   mo_size (po_object h' 65536) = 8192 \<and> mo_physical_base (po_object h' 65536) = 0x12345 \<and>
   (\<exists>start \<le> 0x12345. memory_placed (po_object h' 65536) (po_log h') start (0x12345 - start))"
proof -
  let ?h = "sample_memory_host 4096 (Some 65536)" and ?c = "sample_memory_config ZIPC_SHM_DTREVMEM_CACHED 8192"
  obtain st m h' where r: "zipc_platform_memory_open True (Some ?c) ?h = (st, m, h')" by (metis prod_cases3)
  moreover have "fst (zipc_platform_memory_open True (Some ?c) ?h) = ZIPC_OK"
    "fst (snd (zipc_platform_memory_open True (Some ?c) ?h)) = Some 65536" by (simp_all add: sample_open)
  ultimately have "zipc_platform_memory_open True (Some ?c) ?h = (ZIPC_OK, Some 65536, h')" by simp
  from opened_memory_layout [OF this] r show ?thesis by (simp add: sample_memory_config_def)
qed

subsection \<open>What closing unlinks\<close>

text \<open>An object that exists, is opened without creating it and cannot be mapped is unlinked by the
  failing open when the caller asked for \<open>unlink_on_close\<close>, though it is still in use by others.\<close>

lemma failed_open_unlinks_object:
  "let h = sample_memory_host 5 None; h1 = h\<lparr>po_reply := (po_reply h)(0 := (po_reply h 0)\<lparr>re_address := Some 1\<rparr>)\<rparr>;
       (st, m, h') = zipc_platform_memory_open True (Some (sample_memory_config ZIPC_SHM_POSIX 4096)) h1 in
   st = ZIPC_ERR_PLATFORM \<and> map fst (po_log h') =
     [Port_alloc, Port_shm_open ''/zipc'' False, Port_mmap 4096 5 0, Port_close 5, Port_shm_unlink ''/zipc'', Port_free (Some 1)]"
  by (simp add: zipc_platform_memory_open_def open_memory_typed_def open_posix_def open_file_memory_def map_fd_def sample_memory_config_def
      sample_memory_host_def port_call_eq port_do_def name_missing_def upd_object_def zipc_platform_memory_close_def close_unlinks_def
      new_memory_def Let_def)

text \<open>The name kept for closing is cut to 255 characters, so that a longer path is not the one unlinked.\<close>

lemma unlinked_name_is_cut:
  assumes "fm_name c = Some name" "length name > 255" "open_file_memory req c n caps m h = (st, h')"
  shows "mo_object_name (po_object h' m) = take 255 name" "take 255 name \<noteq> name"
proof -
  show "mo_object_name (po_object h' m) = take 255 name"
    using assms(1,2,3)
    by (auto simp: open_file_memory_def name_missing_def map_fd_def port_call_eq Let_def upd_object_def split: if_splits option.splits)
  show "take 255 name \<noteq> name"
    using assms(2) by (metis length_take min.strict_order_iff not_less_iff_gr_or_eq min_def)
qed

end
