(* ===== verification/Freertos_Platform.thy ===== *)
theory Freertos_Platform
  imports Platform_Memory Link_Channel
begin

unbundle bit_operations_syntax

text \<open>
  The FreeRTOS port (\<^verbatim>\<open>platform-freertos.c\<close>): memory objects over reserved or caller-owned memory,
  transports over queues, RPMsg, task notifications, inter-processor interrupts, a shared ring with
  an interrupt line, and secure calls. The kernel services and the callbacks of the integrator answer
  from the reply stream; the address translation macro is the argument \<open>phys_to_virt\<close>.
\<close>

subsection \<open>Memory objects\<close>

record rtos_memory =
  rm_type :: zipc_platform_memory_type
  rm_base :: u64
  rm_size :: u64
  rm_physical_base :: u64
  rm_capabilities :: u32

definition rtos_memory_type_ok :: "zipc_platform_memory_type \<Rightarrow> bool" where
  "rtos_memory_type_ok ty \<longleftrightarrow>
     \<not> (ty \<noteq> ZIPC_SHM_DTREVMEM_CACHED \<and> ty \<noteq> ZIPC_SHM_DTREVMEM_UNCACHED \<and> ty \<noteq> ZIPC_SHM_PREALLOCATED)"

definition freertos_memory_open ::
  "(u64 \<Rightarrow> u64) \<Rightarrow> bool \<Rightarrow> zipc_platform_memory_config option \<Rightarrow> rtos_memory port_host \<Rightarrow>
   zipc_status \<times> nat option \<times> rtos_memory port_host" where
  "freertos_memory_open phys_to_virt memory_out config h =
     (case config of
        None \<Rightarrow> (ZIPC_ERR_INVALID_ARGUMENT, None, h)
      | Some c \<Rightarrow>
          if \<not> memory_out \<or> mc_size c = 0 then (ZIPC_ERR_INVALID_ARGUMENT, None, h)
          else if \<not> rtos_memory_type_ok (mc_type c) then (ZIPC_ERR_UNSUPPORTED_MEMORY, None, h)
          else
            let (r, h) = port_call Port_alloc h in
            case re_address r of
              None \<Rightarrow> (ZIPC_ERR_PLATFORM, None, h)
            | Some m \<Rightarrow>
                let h = upd_object m (\<lambda>_. \<lparr>rm_type = mc_type c, rm_base = 0, rm_size = mc_size c, rm_physical_base = 0, rm_capabilities = 0\<rparr>) h in
                if mc_type c = ZIPC_SHM_PREALLOCATED
                then case pr_address (mc_preallocated c) of
                       None \<Rightarrow> (ZIPC_ERR_INVALID_ARGUMENT, None, port_do (Port_free (Some m)) h)
                     | Some a \<Rightarrow>
                         (ZIPC_OK, Some m, upd_object m (\<lambda>x. x\<lparr>rm_base := of_nat a,
                            rm_physical_base := pr_physical_address (mc_preallocated c),
                            rm_capabilities := pr_capabilities (mc_preallocated c)\<rparr>) h)
                else
                  let physical = dm_physical_address (mc_dtrevmem c) in
                  if physical = ZIPC_PHYS_ADDR_INVALID then (ZIPC_ERR_INVALID_ARGUMENT, None, port_do (Port_free (Some m)) h)
                  else
                    (ZIPC_OK, Some m, upd_object m (\<lambda>x. x\<lparr>rm_base := phys_to_virt physical, rm_physical_base := physical,
                       rm_capabilities := device_capabilities (mc_dtrevmem c) (mc_type c = ZIPC_SHM_DTREVMEM_CACHED)\<rparr>) h))"

definition freertos_memory_close :: "nat option \<Rightarrow> rtos_memory port_host \<Rightarrow> rtos_memory port_host" where
  "freertos_memory_close memory h = (if memory \<noteq> None then port_do (Port_free memory) h else h)"

definition rtos_memory_base :: "nat option \<Rightarrow> rtos_memory port_host \<Rightarrow> u64" where
  "rtos_memory_base memory h = (case memory of None \<Rightarrow> 0 | Some m \<Rightarrow> rm_base (po_object h m))"

definition rtos_memory_size :: "nat option \<Rightarrow> rtos_memory port_host \<Rightarrow> u64" where
  "rtos_memory_size memory h = (case memory of None \<Rightarrow> 0 | Some m \<Rightarrow> rm_size (po_object h m))"

definition rtos_memory_physical_base :: "nat option \<Rightarrow> rtos_memory port_host \<Rightarrow> u64" where
  "rtos_memory_physical_base memory h =
     (case memory of None \<Rightarrow> ZIPC_PHYS_ADDR_INVALID | Some m \<Rightarrow> rm_physical_base (po_object h m))"

definition rtos_memory_capabilities :: "nat option \<Rightarrow> rtos_memory port_host \<Rightarrow> u32" where
  "rtos_memory_capabilities memory h = (case memory of None \<Rightarrow> 0 | Some m \<Rightarrow> rm_capabilities (po_object h m))"

definition rtos_memory_page_size :: "nat option \<Rightarrow> u64" where
  "rtos_memory_page_size memory = 0"

definition rtos_memory_protect :: "nat option \<Rightarrow> u64 \<Rightarrow> u64 \<Rightarrow> zipc_status" where
  "rtos_memory_protect memory offset len = ZIPC_ERR_UNSUPPORTED_MEMORY"

subsection \<open>Transports\<close>

record freertos_transport =
  ft_type :: zipc_platform_transport_type
  ft_timeout_ticks :: u32
  ft_owns_handle :: bool
  ft_queue :: "nat option"
  ft_endpoint :: "nat option"
  ft_receive_queue :: "nat option"
  ft_destination_task :: "nat option"
  ft_notification_index :: u32
  ft_mailbox :: "nat option"
  ft_send :: "nat option"
  ft_wait :: "nat option"
  ft_context :: nat
  ft_ring :: "nat option"
  ft_call :: "nat option"
  ft_service_id :: u32
  ft_response :: zipc_message
  ft_response_pending :: bool

type_synonym freertos_host = "freertos_transport port_host"

definition ZIPC_FREERTOS_DEFAULT_QUEUE_LENGTH :: u32 where
  "ZIPC_FREERTOS_DEFAULT_QUEUE_LENGTH = 8"

definition zero_message :: zipc_message where
  "zero_message = \<lparr>msg_handle = 0, msg_pool_id = 0, msg_source_component = 0, msg_destination_component = 0,
     msg_transfer_sequence = 0, msg_flags = 0\<rparr>"

definition freertos_new_transport :: "zipc_platform_transport_type \<Rightarrow> freertos_transport" where
  "freertos_new_transport ty = \<lparr>ft_type = ty, ft_timeout_ticks = 0, ft_owns_handle = False, ft_queue = None, ft_endpoint = None,
     ft_receive_queue = None, ft_destination_task = None, ft_notification_index = 0, ft_mailbox = None, ft_send = None,
     ft_wait = None, ft_context = 0, ft_ring = None, ft_call = None, ft_service_id = 0, ft_response = zero_message,
     ft_response_pending = False\<rparr>"

definition freertos_open_queue :: "nat \<Rightarrow> zipc_platform_transport_config \<Rightarrow> freertos_host \<Rightarrow> zipc_status \<times> freertos_host" where
  "freertos_open_queue t config h =
     (let h = upd_object t (\<lambda>x. x\<lparr>ft_timeout_ticks := tc_timeout_ticks config\<rparr>) h;
          h = (if tc_create_endpoint config
               then
                 let len = (if tc_queue_length config \<noteq> 0 then tc_queue_length config else ZIPC_FREERTOS_DEFAULT_QUEUE_LENGTH);
                     (r, h) = port_call (Port_queue_create len) h
                 in upd_object t (\<lambda>x. x\<lparr>ft_queue := re_address r, ft_owns_handle := True\<rparr>) h
               else upd_object t (\<lambda>x. x\<lparr>ft_queue := tc_platform_handle config, ft_owns_handle := False\<rparr>) h)
      in (if ft_queue (po_object h t) \<noteq> None then ZIPC_OK else ZIPC_ERR_PLATFORM, h))"

definition freertos_open_rpmsg :: "nat \<Rightarrow> zipc_platform_transport_config \<Rightarrow> freertos_host \<Rightarrow> zipc_status \<times> freertos_host" where
  "freertos_open_rpmsg t config h =
     (let h = upd_object t (\<lambda>x. x\<lparr>ft_endpoint := tc_platform_handle config,
                 ft_receive_queue := map_option nat (tc_receive_handle config),
                 ft_timeout_ticks := tc_timeout_ticks config, ft_owns_handle := False\<rparr>) h
      in (if ft_endpoint (po_object h t) \<noteq> None then ZIPC_OK else ZIPC_ERR_INVALID_ARGUMENT, h))"

definition freertos_open_task_notification ::
  "nat \<Rightarrow> zipc_platform_transport_config \<Rightarrow> freertos_host \<Rightarrow> zipc_status \<times> freertos_host" where
  "freertos_open_task_notification t config h =
     (if tc_platform_handle config = None \<or> tc_shared_mailbox config = None then (ZIPC_ERR_INVALID_ARGUMENT, h)
      else (ZIPC_OK, upd_object t (\<lambda>x. x\<lparr>ft_destination_task := tc_platform_handle config, ft_mailbox := tc_shared_mailbox config,
              ft_notification_index := tc_notification_index config, ft_timeout_ticks := tc_timeout_ticks config,
              ft_owns_handle := False\<rparr>) h))"

definition freertos_open_ipi :: "nat \<Rightarrow> zipc_platform_transport_config \<Rightarrow> freertos_host \<Rightarrow> zipc_status \<times> freertos_host" where
  "freertos_open_ipi t config h =
     (if tc_shared_mailbox config = None \<or> tc_signal_send config = None \<or> tc_signal_wait config = None
      then (ZIPC_ERR_INVALID_ARGUMENT, h)
      else (ZIPC_OK, upd_object t (\<lambda>x. x\<lparr>ft_mailbox := tc_shared_mailbox config, ft_send := tc_signal_send config,
              ft_wait := tc_signal_wait config, ft_context := tc_signal_context config,
              ft_timeout_ticks := tc_timeout_ticks config, ft_owns_handle := False\<rparr>) h))"

text \<open>The checks and the initialisation of the shared ring.\<close>

definition attach_pl_ring :: "nat \<Rightarrow> zipc_platform_transport_config \<Rightarrow> 't port_host \<Rightarrow> zipc_status \<times> 't port_host" where
  "attach_pl_ring a config h =
     (if tc_create_endpoint config
      then case zipc_transport_spsc_ring_initialize (Some (po_rings h a)) (tc_ring_depth config) of
             (status, r) \<Rightarrow> (status, put_ring a (the r) h)
      else if ring_depth (po_rings h a) < 2 \<or> tc_ring_depth config \<noteq> 0 \<and> ring_depth (po_rings h a) \<noteq> tc_ring_depth config
      then (ZIPC_ERR_INVALID_ARGUMENT, h) else (ZIPC_OK, h))"

definition freertos_open_pl_ring_irq :: "nat \<Rightarrow> zipc_platform_transport_config \<Rightarrow> freertos_host \<Rightarrow> zipc_status \<times> freertos_host" where
  "freertos_open_pl_ring_irq t config h =
     (if tc_platform_handle config = None \<or> tc_signal_send config = None \<or> tc_signal_wait config = None
      then (ZIPC_ERR_INVALID_ARGUMENT, h)
      else
        let (status, h) = attach_pl_ring (the (tc_platform_handle config)) config h in
        if status \<noteq> ZIPC_OK then (status, h)
        else (ZIPC_OK, upd_object t (\<lambda>x. x\<lparr>ft_ring := tc_platform_handle config, ft_send := tc_signal_send config,
                ft_wait := tc_signal_wait config, ft_context := tc_signal_context config,
                ft_timeout_ticks := tc_timeout_ticks config, ft_owns_handle := False\<rparr>) h))"

definition freertos_open_secure :: "nat \<Rightarrow> zipc_platform_transport_config \<Rightarrow> freertos_host \<Rightarrow> zipc_status \<times> freertos_host" where
  "freertos_open_secure t config h =
     (if tc_secure_call config = None then (ZIPC_ERR_INVALID_ARGUMENT, h)
      else (ZIPC_OK, upd_object t (\<lambda>x. x\<lparr>ft_call := tc_secure_call config, ft_context := tc_secure_context config,
              ft_service_id := tc_secure_service_id config, ft_response_pending := False\<rparr>) h))"

definition freertos_open_typed :: "nat \<Rightarrow> zipc_platform_transport_config \<Rightarrow> freertos_host \<Rightarrow> zipc_status \<times> freertos_host" where
  "freertos_open_typed t config h =
     (case tc_type config of
        ZIPC_TRANSPORT_MESSAGE_QUEUE \<Rightarrow> freertos_open_queue t config h
      | ZIPC_TRANSPORT_RPMSG \<Rightarrow> freertos_open_rpmsg t config h
      | ZIPC_TRANSPORT_TASK_NOTIFICATION \<Rightarrow> freertos_open_task_notification t config h
      | ZIPC_TRANSPORT_IPI \<Rightarrow> freertos_open_ipi t config h
      | ZIPC_TRANSPORT_PL_RING_IRQ \<Rightarrow> freertos_open_pl_ring_irq t config h
      | ZIPC_TRANSPORT_SMC \<Rightarrow> freertos_open_secure t config h
      | ZIPC_TRANSPORT_FFA \<Rightarrow> freertos_open_secure t config h
      | _ \<Rightarrow> (ZIPC_ERR_TRANSPORT, h))"

definition freertos_transport_open ::
  "bool \<Rightarrow> zipc_platform_transport_config option \<Rightarrow> freertos_host \<Rightarrow> zipc_status \<times> nat option \<times> freertos_host" where
  "freertos_transport_open transport_out config h =
     (case config of
        None \<Rightarrow> (ZIPC_ERR_INVALID_ARGUMENT, None, h)
      | Some c \<Rightarrow>
          if \<not> transport_out then (ZIPC_ERR_INVALID_ARGUMENT, None, h)
          else
            let (r, h) = port_call Port_alloc h in
            case re_address r of
              None \<Rightarrow> (ZIPC_ERR_PLATFORM, None, h)
            | Some t \<Rightarrow>
                let (status, h) = freertos_open_typed t c (upd_object t (\<lambda>_. freertos_new_transport (tc_type c)) h)
                in if status \<noteq> ZIPC_OK then (status, None, port_do (Port_free (Some t)) h) else (ZIPC_OK, Some t, h))"

text \<open>\<open>pdPASS\<close> is 1.\<close>

definition pdPASS :: int where
  "pdPASS = 1"

text \<open>Writes to a mailbox, and what the peer leaves there while the caller waits.\<close>

definition put_mail :: "nat option \<Rightarrow> zipc_message \<Rightarrow> 't port_host \<Rightarrow> 't port_host" where
  "put_mail mailbox m h = h\<lparr>po_mail := (po_mail h)(the mailbox := m)\<rparr>"

definition port_peer_mail :: "nat option \<Rightarrow> os_reply \<Rightarrow> 't port_host \<Rightarrow> 't port_host" where
  "port_peer_mail mailbox r h = put_mail mailbox (last (po_mail h (the mailbox) # re_peer r)) h"

definition published :: "bool \<Rightarrow> zipc_status" where
  "published signalled = (if signalled then ZIPC_OK else ZIPC_ERR_TRANSPORT_PUBLISHED)"

definition freertos_transport_send :: "nat option \<Rightarrow> zipc_message option \<Rightarrow> freertos_host \<Rightarrow> zipc_status \<times> freertos_host" where
  "freertos_transport_send transport message h =
     (case (transport, message) of
        (Some t, Some m) \<Rightarrow>
          let x = po_object h t in
          (case ft_type x of
             ZIPC_TRANSPORT_MESSAGE_QUEUE \<Rightarrow>
               let (r, h) = port_call (Port_queue_send (ft_queue x) m (ft_timeout_ticks x)) h
               in (if re_value r = pdPASS then ZIPC_OK else ZIPC_ERR_TRANSPORT, h)
           | ZIPC_TRANSPORT_RPMSG \<Rightarrow>
               let (r, h) = port_call (Port_rpmsg_send (ft_endpoint x) m) h
               in (if re_value r \<ge> 0 then ZIPC_OK else ZIPC_ERR_TRANSPORT, h)
           | ZIPC_TRANSPORT_TASK_NOTIFICATION \<Rightarrow>
               let h = put_mail (ft_mailbox x) m h;
                   (r, h) = port_call (Port_notify_give (ft_destination_task x) (ft_notification_index x)) h
               in (published (re_value r = pdPASS), h)
           | ZIPC_TRANSPORT_IPI \<Rightarrow>
               let h = put_mail (ft_mailbox x) m h;
                   (r, h) = port_call (Port_signal_send (ft_send x) (ft_context x)) h
               in (published (re_status r = ZIPC_OK), h)
           | ZIPC_TRANSPORT_PL_RING_IRQ \<Rightarrow>
               let a = the (ft_ring x);
                   (ok, r) = port_ring_push (ring_depth (po_rings h a)) m (po_rings h a)
               in if \<not> ok then (ZIPC_ERR_TRANSPORT, h)
                  else
                    let (r, h) = port_call (Port_signal_send (ft_send x) (ft_context x)) (put_ring a r h)
                    in (published (re_status r = ZIPC_OK), h)
           | ty \<Rightarrow>
               if ty = ZIPC_TRANSPORT_SMC \<or> ty = ZIPC_TRANSPORT_FFA
               then
                 let (r, h) = port_call (Port_secure_call (ft_call x) (ft_context x) (ft_service_id x) m) h;
                     h = upd_object t (\<lambda>x. x\<lparr>ft_response := re_message r\<rparr>) h;
                     h = (if re_status r = ZIPC_OK then upd_object t (\<lambda>x. x\<lparr>ft_response_pending := True\<rparr>) h else h)
                 in (published (re_status r = ZIPC_OK), h)
               else (ZIPC_ERR_TRANSPORT, h))
      | _ \<Rightarrow> (ZIPC_ERR_INVALID_ARGUMENT, h))"

definition freertos_transport_receive ::
  "nat option \<Rightarrow> bool \<Rightarrow> freertos_host \<Rightarrow> zipc_status \<times> zipc_message option \<times> freertos_host" where
  "freertos_transport_receive transport message_out h =
     (case transport of
        None \<Rightarrow> (ZIPC_ERR_INVALID_ARGUMENT, None, h)
      | Some t \<Rightarrow>
          if \<not> message_out then (ZIPC_ERR_INVALID_ARGUMENT, None, h)
          else
            let x = po_object h t in
            (case ft_type x of
               ZIPC_TRANSPORT_MESSAGE_QUEUE \<Rightarrow>
                 let (r, h) = port_call (Port_queue_receive (ft_queue x) (ft_timeout_ticks x)) h
                 in if re_value r = pdPASS then (ZIPC_OK, Some (re_message r), h) else (ZIPC_ERR_TRANSPORT, None, h)
             | ZIPC_TRANSPORT_RPMSG \<Rightarrow>
                 if ft_receive_queue x = None then (ZIPC_ERR_TRANSPORT, None, h)
                 else
                   let (r, h) = port_call (Port_queue_receive (ft_receive_queue x) (ft_timeout_ticks x)) h
                   in if re_value r = pdPASS then (ZIPC_OK, Some (re_message r), h) else (ZIPC_ERR_TRANSPORT, None, h)
             | ZIPC_TRANSPORT_TASK_NOTIFICATION \<Rightarrow>
                 let (r, h) = port_call (Port_notify_take (ft_notification_index x) (ft_timeout_ticks x)) h;
                     h = port_peer_mail (ft_mailbox x) r h
                 in if re_value r = 0 then (ZIPC_ERR_TRANSPORT, None, h)
                    else (ZIPC_OK, Some (po_mail h (the (ft_mailbox x))), h)
             | ZIPC_TRANSPORT_IPI \<Rightarrow>
                 let (r, h) = port_call (Port_signal_wait (ft_wait x) (ft_context x) (ft_timeout_ticks x)) h;
                     h = port_peer_mail (ft_mailbox x) r h
                 in if re_status r \<noteq> ZIPC_OK then (re_status r, None, h)
                    else (ZIPC_OK, Some (po_mail h (the (ft_mailbox x))), h)
             | ZIPC_TRANSPORT_PL_RING_IRQ \<Rightarrow>
                 let a = the (ft_ring x);
                     (r, h) = port_call (Port_signal_wait (ft_wait x) (ft_context x) (ft_timeout_ticks x)) h;
                     h = put_ring a (port_peer_pushes (ring_depth (po_rings h a)) r (po_rings h a)) h
                 in if re_status r \<noteq> ZIPC_OK then (re_status r, None, h)
                    else (case port_ring_pop (ring_depth (po_rings h a)) (po_rings h a) of
                            (None, _) \<Rightarrow> (ZIPC_ERR_TRANSPORT, None, h)
                          | (Some m, ring) \<Rightarrow> (ZIPC_OK, Some m, put_ring a ring h))
             | ty \<Rightarrow>
                 if ty = ZIPC_TRANSPORT_SMC \<or> ty = ZIPC_TRANSPORT_FFA
                 then if \<not> ft_response_pending x then (ZIPC_ERR_TRANSPORT, None, h)
                      else (ZIPC_OK, Some (ft_response x), upd_object t (\<lambda>x. x\<lparr>ft_response_pending := False\<rparr>) h)
                 else (ZIPC_ERR_TRANSPORT, None, h)))"

definition freertos_receive_begin ::
  "nat option \<Rightarrow> bool \<Rightarrow> zipc_transport_receive_token option \<Rightarrow> freertos_host \<Rightarrow>
   (zipc_status \<times> zipc_message option \<times> zipc_transport_receive_token option \<times> freertos_host) option" where
  "freertos_receive_begin transport message_out token h =
     plain_receive_begin transport (Some (freertos_transport_receive transport message_out h)) token h"

definition freertos_transport_close :: "nat option \<Rightarrow> freertos_host \<Rightarrow> freertos_host" where
  "freertos_transport_close transport h =
     (case transport of
        None \<Rightarrow> h
      | Some t \<Rightarrow>
          let x = po_object h t;
              h = (if ft_type x = ZIPC_TRANSPORT_MESSAGE_QUEUE \<and> ft_owns_handle x \<and> ft_queue x \<noteq> None
                   then port_do (Port_queue_delete (ft_queue x)) h else h)
          in port_do (Port_free (Some t)) h)"

definition rtos_xen_local_port :: "nat option \<Rightarrow> u32" where
  "rtos_xen_local_port transport = 0"

definition freertos_alloc :: "freertos_host \<Rightarrow> nat option \<times> freertos_host" where
  "freertos_alloc h = (let (r, h) = port_call Port_alloc h in (re_address r, h))"

definition freertos_free :: "nat option \<Rightarrow> freertos_host \<Rightarrow> freertos_host" where
  "freertos_free pointer h = port_do (Port_free pointer) h"

text \<open>\<open>configTICK_RATE_HZ\<close> is an argument; the tick count is read as a 64-bit value.\<close>

definition freertos_time_ns :: "u64 \<Rightarrow> freertos_host \<Rightarrow> u64 \<times> freertos_host" where
  "freertos_time_ns tick_rate_hz h =
     (let (r, h) = port_call Port_clock h in (re_counter r * 1000000000 div tick_rate_hz, h))"

text \<open>The entropy hook of the integrator, if one is configured.\<close>

definition freertos_random :: "bool \<Rightarrow> bool \<Rightarrow> nat \<Rightarrow> freertos_host \<Rightarrow> zipc_status \<times> freertos_host" where
  "freertos_random hook buffer len h =
     (if \<not> buffer \<and> len \<noteq> 0 then (ZIPC_ERR_INVALID_ARGUMENT, h)
      else if hook then (let (r, h) = port_call (Port_random len) h in (re_status r, h))
      else (ZIPC_ERR_ENTROPY_UNAVAILABLE, h))"

definition freertos_platform :: "freertos_host platform_ops" where
  "freertos_platform =
     \<lparr>op_open = (\<lambda>config h. freertos_transport_open True (Some config) h), op_close = freertos_transport_close,
      op_send = (\<lambda>t m h. freertos_transport_send t (Some m) h),
      op_receive_begin = (\<lambda>t h. freertos_receive_begin t True (Some zero_token) h),
      op_receive_commit = (\<lambda>t k h. (fst (plain_receive_commit t k), h)),
      op_alloc = freertos_alloc, op_free = freertos_free,
      op_ring = (\<lambda>a h. map_option (po_rings h) a),
      op_store_ring = (\<lambda>a r h. case (a, r) of (Some a, Some r) \<Rightarrow> put_ring a r h | _ \<Rightarrow> h)\<rparr>"

end
