(* ===== verification/Baremetal_Platform.thy ===== *)
theory Baremetal_Platform
  imports Freertos_Platform
begin

unbundle bit_operations_syntax

text \<open>
  The bare-metal port (\<^verbatim>\<open>platform-baremetal.c\<close>): memory objects, transports over RPMsg with a
  mailbox, inter-processor interrupts, a shared ring with an interrupt line, and secure calls. The
  allocation, translation and time macros of the integrator are replies and arguments.
\<close>

subsection \<open>Memory objects\<close>

definition baremetal_memory_open ::
  "(u64 \<Rightarrow> u64) \<Rightarrow> bool \<Rightarrow> zipc_platform_memory_config option \<Rightarrow> rtos_memory port_host \<Rightarrow>
   zipc_status \<times> nat option \<times> rtos_memory port_host" where
  "baremetal_memory_open phys_to_virt memory_out config h =
     (case config of
        None \<Rightarrow> (ZIPC_ERR_INVALID_ARGUMENT, None, h)
      | Some c \<Rightarrow>
          if \<not> memory_out \<or> mc_size c = 0 then (ZIPC_ERR_INVALID_ARGUMENT, None, h)
          else if \<not> rtos_memory_type_ok (mc_type c) then (ZIPC_ERR_UNSUPPORTED_MEMORY, None, h)
          else
            let (r, h) = port_call Port_alloc h in
            case re_address r of
              None \<Rightarrow> (ZIPC_ERR_PLATFORM, None, h)
            | Some m \<Rightarrow>
                let zeroed = \<lparr>rm_type = mc_type c, rm_base = 0, rm_size = mc_size c, rm_physical_base = 0, rm_capabilities = 0\<rparr>;
                    h = upd_object m (\<lambda>_. zeroed) h;
                    pre = mc_preallocated c;
                    physical = dm_physical_address (mc_dtrevmem c)
                in if mc_type c = ZIPC_SHM_PREALLOCATED
                   then if pr_address pre = None
                        then (ZIPC_ERR_INVALID_ARGUMENT, None, port_do (Port_free (Some m)) h)
                        else (ZIPC_OK, Some m, upd_object m (\<lambda>x. x\<lparr>rm_base := of_nat (the (pr_address pre)),
                                rm_physical_base := pr_physical_address pre, rm_capabilities := pr_capabilities pre\<rparr>) h)
                   else if physical = ZIPC_PHYS_ADDR_INVALID
                        then (ZIPC_ERR_INVALID_ARGUMENT, None, port_do (Port_free (Some m)) h)
                        else (ZIPC_OK, Some m, upd_object m (\<lambda>x. x\<lparr>rm_base := phys_to_virt physical, rm_physical_base := physical,
                                rm_capabilities := device_capabilities (mc_dtrevmem c) (mc_type c = ZIPC_SHM_DTREVMEM_CACHED)\<rparr>) h))"

definition baremetal_memory_close :: "nat option \<Rightarrow> rtos_memory port_host \<Rightarrow> rtos_memory port_host" where
  "baremetal_memory_close memory h = (if memory \<noteq> None then port_do (Port_free memory) h else h)"

subsection \<open>Transports\<close>

record baremetal_transport =
  bt_type :: zipc_platform_transport_type
  bt_timeout_ticks :: u32
  bt_endpoint :: "nat option"
  bt_mailbox :: "nat option"
  bt_send :: "nat option"
  bt_wait :: "nat option"
  bt_context :: nat
  bt_ring :: "nat option"
  bt_call :: "nat option"
  bt_service_id :: u32
  bt_response :: zipc_message
  bt_response_pending :: bool

type_synonym baremetal_host = "baremetal_transport port_host"

definition baremetal_new_transport :: "zipc_platform_transport_type \<Rightarrow> baremetal_transport" where
  "baremetal_new_transport ty = \<lparr>bt_type = ty, bt_timeout_ticks = 0, bt_endpoint = None, bt_mailbox = None, bt_send = None,
     bt_wait = None, bt_context = 0, bt_ring = None, bt_call = None, bt_service_id = 0, bt_response = zero_message,
     bt_response_pending = False\<rparr>"

definition baremetal_open_rpmsg :: "nat \<Rightarrow> zipc_platform_transport_config \<Rightarrow> baremetal_host \<Rightarrow> zipc_status \<times> baremetal_host" where
  "baremetal_open_rpmsg t config h =
     (if tc_platform_handle config = None \<or> tc_shared_mailbox config = None \<or> tc_signal_wait config = None
      then (ZIPC_ERR_INVALID_ARGUMENT, h)
      else (ZIPC_OK, upd_object t (\<lambda>x. x\<lparr>bt_endpoint := tc_platform_handle config, bt_mailbox := tc_shared_mailbox config,
              bt_wait := tc_signal_wait config, bt_context := tc_signal_context config,
              bt_timeout_ticks := tc_timeout_ticks config\<rparr>) h))"

definition baremetal_open_ipi :: "nat \<Rightarrow> zipc_platform_transport_config \<Rightarrow> baremetal_host \<Rightarrow> zipc_status \<times> baremetal_host" where
  "baremetal_open_ipi t config h =
     (if tc_shared_mailbox config = None \<or> tc_signal_send config = None \<or> tc_signal_wait config = None
      then (ZIPC_ERR_INVALID_ARGUMENT, h)
      else (ZIPC_OK, upd_object t (\<lambda>x. x\<lparr>bt_mailbox := tc_shared_mailbox config, bt_send := tc_signal_send config,
              bt_wait := tc_signal_wait config, bt_context := tc_signal_context config,
              bt_timeout_ticks := tc_timeout_ticks config\<rparr>) h))"

definition baremetal_open_pl_ring_irq :: "nat \<Rightarrow> zipc_platform_transport_config \<Rightarrow> baremetal_host \<Rightarrow> zipc_status \<times> baremetal_host" where
  "baremetal_open_pl_ring_irq t config h =
     (if tc_platform_handle config = None \<or> tc_signal_send config = None \<or> tc_signal_wait config = None
      then (ZIPC_ERR_INVALID_ARGUMENT, h)
      else
        let (status, h) = attach_pl_ring (the (tc_platform_handle config)) config h in
        if status \<noteq> ZIPC_OK then (status, h)
        else (ZIPC_OK, upd_object t (\<lambda>x. x\<lparr>bt_ring := tc_platform_handle config, bt_send := tc_signal_send config,
                bt_wait := tc_signal_wait config, bt_context := tc_signal_context config,
                bt_timeout_ticks := tc_timeout_ticks config\<rparr>) h))"

definition baremetal_open_secure :: "nat \<Rightarrow> zipc_platform_transport_config \<Rightarrow> baremetal_host \<Rightarrow> zipc_status \<times> baremetal_host" where
  "baremetal_open_secure t config h =
     (if tc_secure_call config = None then (ZIPC_ERR_INVALID_ARGUMENT, h)
      else (ZIPC_OK, upd_object t (\<lambda>x. x\<lparr>bt_call := tc_secure_call config, bt_context := tc_secure_context config,
              bt_service_id := tc_secure_service_id config, bt_response_pending := False\<rparr>) h))"

definition baremetal_open_typed :: "nat \<Rightarrow> zipc_platform_transport_config \<Rightarrow> baremetal_host \<Rightarrow> zipc_status \<times> baremetal_host" where
  "baremetal_open_typed t config h =
     (case tc_type config of
        ZIPC_TRANSPORT_RPMSG \<Rightarrow> baremetal_open_rpmsg t config h
      | ZIPC_TRANSPORT_IPI \<Rightarrow> baremetal_open_ipi t config h
      | ZIPC_TRANSPORT_PL_RING_IRQ \<Rightarrow> baremetal_open_pl_ring_irq t config h
      | ZIPC_TRANSPORT_SMC \<Rightarrow> baremetal_open_secure t config h
      | ZIPC_TRANSPORT_FFA \<Rightarrow> baremetal_open_secure t config h
      | _ \<Rightarrow> (ZIPC_ERR_TRANSPORT, h))"

definition baremetal_transport_open ::
  "bool \<Rightarrow> zipc_platform_transport_config option \<Rightarrow> baremetal_host \<Rightarrow> zipc_status \<times> nat option \<times> baremetal_host" where
  "baremetal_transport_open transport_out config h =
     (case config of
        None \<Rightarrow> (ZIPC_ERR_INVALID_ARGUMENT, None, h)
      | Some c \<Rightarrow>
          if \<not> transport_out then (ZIPC_ERR_INVALID_ARGUMENT, None, h)
          else
            let (r, h) = port_call Port_alloc h in
            case re_address r of
              None \<Rightarrow> (ZIPC_ERR_PLATFORM, None, h)
            | Some t \<Rightarrow>
                let (status, h) = baremetal_open_typed t c (upd_object t (\<lambda>_. baremetal_new_transport (tc_type c)) h)
                in if status \<noteq> ZIPC_OK then (status, None, port_do (Port_free (Some t)) h) else (ZIPC_OK, Some t, h))"

definition baremetal_transport_send :: "nat option \<Rightarrow> zipc_message option \<Rightarrow> baremetal_host \<Rightarrow> zipc_status \<times> baremetal_host" where
  "baremetal_transport_send transport message h =
     (case (transport, message) of
        (Some t, Some m) \<Rightarrow>
          let x = po_object h t in
          (case bt_type x of
             ZIPC_TRANSPORT_RPMSG \<Rightarrow>
               let (r, h) = port_call (Port_rpmsg_send (bt_endpoint x) m) h
               in (if re_value r \<ge> 0 then ZIPC_OK else ZIPC_ERR_TRANSPORT, h)
           | ZIPC_TRANSPORT_IPI \<Rightarrow>
               let h = put_mail (bt_mailbox x) m h;
                   (r, h) = port_call (Port_signal_send (bt_send x) (bt_context x)) h
               in (published (re_status r = ZIPC_OK), h)
           | ZIPC_TRANSPORT_PL_RING_IRQ \<Rightarrow>
               let a = the (bt_ring x);
                   (ok, r) = port_ring_push (ring_depth (po_rings h a)) m (po_rings h a)
               in if \<not> ok then (ZIPC_ERR_TRANSPORT, h)
                  else
                    let (r, h) = port_call (Port_signal_send (bt_send x) (bt_context x)) (put_ring a r h)
                    in (published (re_status r = ZIPC_OK), h)
           | ty \<Rightarrow>
               if ty = ZIPC_TRANSPORT_SMC \<or> ty = ZIPC_TRANSPORT_FFA
               then
                 let (r, h) = port_call (Port_secure_call (bt_call x) (bt_context x) (bt_service_id x) m) h;
                     h = upd_object t (\<lambda>x. x\<lparr>bt_response := re_message r\<rparr>) h;
                     h = (if re_status r = ZIPC_OK then upd_object t (\<lambda>x. x\<lparr>bt_response_pending := True\<rparr>) h else h)
                 in (published (re_status r = ZIPC_OK), h)
               else (ZIPC_ERR_TRANSPORT, h))
      | _ \<Rightarrow> (ZIPC_ERR_INVALID_ARGUMENT, h))"

definition baremetal_transport_receive ::
  "nat option \<Rightarrow> bool \<Rightarrow> baremetal_host \<Rightarrow> zipc_status \<times> zipc_message option \<times> baremetal_host" where
  "baremetal_transport_receive transport message_out h =
     (case transport of
        None \<Rightarrow> (ZIPC_ERR_INVALID_ARGUMENT, None, h)
      | Some t \<Rightarrow>
          if \<not> message_out then (ZIPC_ERR_INVALID_ARGUMENT, None, h)
          else
            let x = po_object h t in
            (case bt_type x of
               ZIPC_TRANSPORT_RPMSG \<Rightarrow>
                 let (r, h) = port_call (Port_signal_wait (bt_wait x) (bt_context x) (bt_timeout_ticks x)) h;
                     h = port_peer_mail (bt_mailbox x) r h
                 in if re_status r \<noteq> ZIPC_OK then (re_status r, None, h)
                    else (ZIPC_OK, Some (po_mail h (the (bt_mailbox x))), h)
             | ZIPC_TRANSPORT_IPI \<Rightarrow>
                 let (r, h) = port_call (Port_signal_wait (bt_wait x) (bt_context x) (bt_timeout_ticks x)) h;
                     h = port_peer_mail (bt_mailbox x) r h
                 in if re_status r \<noteq> ZIPC_OK then (re_status r, None, h)
                    else (ZIPC_OK, Some (po_mail h (the (bt_mailbox x))), h)
             | ZIPC_TRANSPORT_PL_RING_IRQ \<Rightarrow>
                 let a = the (bt_ring x);
                     (r, h) = port_call (Port_signal_wait (bt_wait x) (bt_context x) (bt_timeout_ticks x)) h;
                     h = put_ring a (port_peer_pushes (ring_depth (po_rings h a)) r (po_rings h a)) h
                 in if re_status r \<noteq> ZIPC_OK then (re_status r, None, h)
                    else (case port_ring_pop (ring_depth (po_rings h a)) (po_rings h a) of
                            (None, _) \<Rightarrow> (ZIPC_ERR_TRANSPORT, None, h)
                          | (Some m, ring) \<Rightarrow> (ZIPC_OK, Some m, put_ring a ring h))
             | ty \<Rightarrow>
                 if ty = ZIPC_TRANSPORT_SMC \<or> ty = ZIPC_TRANSPORT_FFA
                 then if \<not> bt_response_pending x then (ZIPC_ERR_TRANSPORT, None, h)
                      else (ZIPC_OK, Some (bt_response x), upd_object t (\<lambda>x. x\<lparr>bt_response_pending := False\<rparr>) h)
                 else (ZIPC_ERR_TRANSPORT, None, h)))"

definition baremetal_receive_begin ::
  "nat option \<Rightarrow> bool \<Rightarrow> zipc_transport_receive_token option \<Rightarrow> baremetal_host \<Rightarrow>
   (zipc_status \<times> zipc_message option \<times> zipc_transport_receive_token option \<times> baremetal_host) option" where
  "baremetal_receive_begin transport message_out token h =
     plain_receive_begin transport (Some (baremetal_transport_receive transport message_out h)) token h"

definition baremetal_transport_close :: "nat option \<Rightarrow> baremetal_host \<Rightarrow> baremetal_host" where
  "baremetal_transport_close transport h = (if transport \<noteq> None then port_do (Port_free transport) h else h)"

definition baremetal_alloc :: "baremetal_host \<Rightarrow> nat option \<times> baremetal_host" where
  "baremetal_alloc h = (let (r, h) = port_call Port_alloc h in (re_address r, h))"

definition baremetal_free :: "nat option \<Rightarrow> baremetal_host \<Rightarrow> baremetal_host" where
  "baremetal_free pointer h = port_do (Port_free pointer) h"

text \<open>Without a time source of the integrator the clock stands at zero.\<close>

definition baremetal_time_ns :: "bool \<Rightarrow> baremetal_host \<Rightarrow> u64 \<times> baremetal_host" where
  "baremetal_time_ns hook h = (if hook then (let (r, h) = port_call Port_clock h in (re_counter r, h)) else (0, h))"

definition baremetal_random :: "bool \<Rightarrow> bool \<Rightarrow> nat \<Rightarrow> baremetal_host \<Rightarrow> zipc_status \<times> baremetal_host" where
  "baremetal_random hook buffer len h =
     (if \<not> buffer \<and> len \<noteq> 0 then (ZIPC_ERR_INVALID_ARGUMENT, h)
      else if hook then (let (r, h) = port_call (Port_random len) h in (re_status r, h))
      else (ZIPC_ERR_ENTROPY_UNAVAILABLE, h))"

definition baremetal_platform :: "baremetal_host platform_ops" where
  "baremetal_platform =
     \<lparr>op_open = (\<lambda>config h. baremetal_transport_open True (Some config) h), op_close = baremetal_transport_close,
      op_send = (\<lambda>t m h. baremetal_transport_send t (Some m) h),
      op_receive_begin = (\<lambda>t h. baremetal_receive_begin t True (Some zero_token) h),
      op_receive_commit = (\<lambda>t k h. (fst (plain_receive_commit t k), h)),
      op_alloc = baremetal_alloc, op_free = baremetal_free,
      op_ring = (\<lambda>a h. map_option (po_rings h) a),
      op_store_ring = (\<lambda>a r h. case (a, r) of (Some a, Some r) \<Rightarrow> put_ring a r h | _ \<Rightarrow> h)\<rparr>"

end
