(* ===== verification/Rtos_Properties.thy ===== *)
theory Rtos_Properties
  imports Baremetal_Platform Xen_Properties
begin

text \<open>
  Where the FreeRTOS and the bare-metal port agree and where they do not: they treat every transport
  alike that is neither FreeRTOS's own nor RPMsg, which both have but open and receive in different
  ways. The shared ring with an interrupt line keeps the channel contract of the link layer on both.
\<close>

subsection \<open>The two ports agree\<close>

definition to_baremetal :: "freertos_transport \<Rightarrow> baremetal_transport" where
  "to_baremetal x = \<lparr>bt_type = ft_type x, bt_timeout_ticks = ft_timeout_ticks x, bt_endpoint = ft_endpoint x, bt_mailbox = ft_mailbox x,
     bt_send = ft_send x, bt_wait = ft_wait x, bt_context = ft_context x, bt_ring = ft_ring x, bt_call = ft_call x,
     bt_service_id = ft_service_id x, bt_response = ft_response x, bt_response_pending = ft_response_pending x\<rparr>"

definition sim_host :: "freertos_host \<Rightarrow> baremetal_host" where
  "sim_host h = \<lparr>po_object = (\<lambda>t. to_baremetal (po_object h t)), po_rings = po_rings h, po_mail = po_mail h, po_reply = po_reply h,
     po_calls = po_calls h, po_log = po_log h\<rparr>"

text \<open>Queues and task notifications exist on FreeRTOS only.\<close>

definition freertos_only :: "zipc_platform_transport_type \<Rightarrow> bool" where
  "freertos_only ty \<longleftrightarrow> ty = ZIPC_TRANSPORT_MESSAGE_QUEUE \<or> ty = ZIPC_TRANSPORT_TASK_NOTIFICATION"

lemma to_baremetal_simps [simp]:
  "bt_type (to_baremetal x) = ft_type x" "bt_timeout_ticks (to_baremetal x) = ft_timeout_ticks x" "bt_mailbox (to_baremetal x) = ft_mailbox x"
  "bt_send (to_baremetal x) = ft_send x" "bt_wait (to_baremetal x) = ft_wait x" "bt_context (to_baremetal x) = ft_context x"
  "bt_ring (to_baremetal x) = ft_ring x" "bt_call (to_baremetal x) = ft_call x" "bt_service_id (to_baremetal x) = ft_service_id x"
  "bt_response (to_baremetal x) = ft_response x" "bt_response_pending (to_baremetal x) = ft_response_pending x"
  "bt_endpoint (to_baremetal x) = ft_endpoint x"
  by (simp_all add: to_baremetal_def)

lemma sim_host_simps [simp]:
  "po_object (sim_host h) t = to_baremetal (po_object h t)" "po_rings (sim_host h) = po_rings h" "po_mail (sim_host h) = po_mail h"
  "po_reply (sim_host h) = po_reply h" "po_calls (sim_host h) = po_calls h"
  "port_call req (sim_host h) = (fst (port_call req h), sim_host (snd (port_call req h)))"
  "put_ring a r (sim_host h) = sim_host (put_ring a r h)" "put_mail b m (sim_host h) = sim_host (put_mail b m h)"
  "port_peer_mail b rep (sim_host h) = sim_host (port_peer_mail b rep h)"
  "port_do req (sim_host h) = sim_host (port_do req h)"
  by (simp_all add: sim_host_def port_call_eq put_ring_def put_mail_def port_peer_mail_def port_do_def)

lemma sim_host_upd:
  assumes "\<And>x. g (to_baremetal x) = to_baremetal (f x)"
  shows "upd_object t g (sim_host h) = sim_host (upd_object t f h)"
  using assms by (auto simp: upd_object_def sim_host_def fun_eq_iff)

lemma sim_host_updates:
  "upd_object t (\<lambda>_. baremetal_new_transport ty) (sim_host h) = sim_host (upd_object t (\<lambda>_. freertos_new_transport ty) h)"
  "upd_object t (\<lambda>x. x\<lparr>bt_mailbox := mb, bt_send := sd, bt_wait := wt, bt_context := cx, bt_timeout_ticks := tk\<rparr>) (sim_host h) =
     sim_host (upd_object t (\<lambda>x. x\<lparr>ft_mailbox := mb, ft_send := sd, ft_wait := wt, ft_context := cx, ft_timeout_ticks := tk,
       ft_owns_handle := False\<rparr>) h)"
  "upd_object t (\<lambda>x. x\<lparr>bt_ring := rg, bt_send := sd, bt_wait := wt, bt_context := cx, bt_timeout_ticks := tk\<rparr>) (sim_host h) =
     sim_host (upd_object t (\<lambda>x. x\<lparr>ft_ring := rg, ft_send := sd, ft_wait := wt, ft_context := cx, ft_timeout_ticks := tk,
       ft_owns_handle := False\<rparr>) h)"
  "upd_object t (\<lambda>x. x\<lparr>bt_call := cl, bt_context := cx, bt_service_id := sv, bt_response_pending := False\<rparr>) (sim_host h) =
     sim_host (upd_object t (\<lambda>x. x\<lparr>ft_call := cl, ft_context := cx, ft_service_id := sv, ft_response_pending := False\<rparr>) h)"
  "upd_object t (\<lambda>x. x\<lparr>bt_response := m\<rparr>) (sim_host h) = sim_host (upd_object t (\<lambda>x. x\<lparr>ft_response := m\<rparr>) h)"
  "upd_object t (\<lambda>x. x\<lparr>bt_response_pending := b\<rparr>) (sim_host h) = sim_host (upd_object t (\<lambda>x. x\<lparr>ft_response_pending := b\<rparr>) h)"
  by (rule sim_host_upd, simp add: to_baremetal_def baremetal_new_transport_def freertos_new_transport_def)+

lemma sim_attach: "attach_pl_ring a c (sim_host h) = map_prod id sim_host (attach_pl_ring a c h)"
  by (simp add: attach_pl_ring_def split: prod.split)

lemma sim_send:
  assumes "\<not> freertos_only (ft_type (po_object h t))"
  shows "baremetal_transport_send (Some t) m (sim_host h) = map_prod id sim_host (freertos_transport_send (Some t) m h)"
proof (cases m)
  case (Some d)
  then show ?thesis
    using assms unfolding freertos_only_def baremetal_transport_send_def freertos_transport_send_def
    by (cases "ft_type (po_object h t)") (simp_all add: sim_host_updates Let_def split_beta split: prod.split)
qed (simp add: baremetal_transport_send_def freertos_transport_send_def)

lemma sim_receive:
  assumes "\<not> freertos_only (ft_type (po_object h t))" "ft_type (po_object h t) \<noteq> ZIPC_TRANSPORT_RPMSG"
  shows "baremetal_transport_receive (Some t) out (sim_host h) =
    map_prod id (map_prod id sim_host) (freertos_transport_receive (Some t) out h)"
  using assms unfolding freertos_only_def baremetal_transport_receive_def freertos_transport_receive_def
  by (cases "ft_type (po_object h t)") (simp_all add: sim_host_updates Let_def split_beta split: option.split)

lemma sim_open:
  assumes "\<not> freertos_only (tc_type c)" "tc_type c \<noteq> ZIPC_TRANSPORT_RPMSG"
  shows "baremetal_transport_open out (Some c) (sim_host h) = map_prod id (map_prod id sim_host) (freertos_transport_open out (Some c) h)"
proof -
  have "baremetal_open_typed t c (sim_host g) = map_prod id sim_host (freertos_open_typed t c g)" for t g
    using assms unfolding freertos_only_def
    by (cases "tc_type c") (simp_all add: baremetal_open_typed_def freertos_open_typed_def baremetal_open_ipi_def freertos_open_ipi_def
        baremetal_open_pl_ring_irq_def freertos_open_pl_ring_irq_def baremetal_open_secure_def freertos_open_secure_def
        sim_host_updates sim_attach map_prod_def Let_def split_beta)
  then show ?thesis
    by (simp add: baremetal_transport_open_def freertos_transport_open_def sim_host_updates Let_def split_beta split: option.split)
qed

text \<open>RPMsg: FreeRTOS asks for the endpoint only and receives from a queue, which it may not have; bare
  metal asks for a mailbox and a wait operation as well, and receives from the mailbox.\<close>

lemma rpmsg_opens:
  assumes "tc_type c = ZIPC_TRANSPORT_RPMSG" "re_address (po_reply h (po_calls h)) = Some a"
  shows "fst (freertos_transport_open True (Some c) h) = (if tc_platform_handle c = None then ZIPC_ERR_INVALID_ARGUMENT else ZIPC_OK)"
    "fst (baremetal_transport_open True (Some c) (sim_host h)) =
      (if tc_platform_handle c = None \<or> tc_shared_mailbox c = None \<or> tc_signal_wait c = None
       then ZIPC_ERR_INVALID_ARGUMENT else ZIPC_OK)"
  using assms
  by (simp_all add: freertos_transport_open_def baremetal_transport_open_def freertos_open_typed_def baremetal_open_typed_def
      freertos_open_rpmsg_def baremetal_open_rpmsg_def port_call_eq Let_def split_beta upd_object_def)

lemma rpmsg_receives:
  assumes "ft_type (po_object h t) = ZIPC_TRANSPORT_RPMSG"
  shows "fst (freertos_transport_receive (Some t) True h) =
      (if ft_receive_queue (po_object h t) \<noteq> None \<and> re_value (po_reply h (po_calls h)) = pdPASS then ZIPC_OK else ZIPC_ERR_TRANSPORT)"
    "fst (baremetal_transport_receive (Some t) True (sim_host h)) = re_status (po_reply h (po_calls h))"
  using assms by (simp_all add: freertos_transport_receive_def baremetal_transport_receive_def port_call_eq Let_def)

lemma rtos_memory_agree: "baremetal_memory_open virt out mem g = freertos_memory_open virt out mem g"
  by (auto simp: baremetal_memory_open_def freertos_memory_open_def port_call_eq Let_def split: option.split)

text \<open>C37: Where the FreeRTOS and the bare-metal port agree. A send returns the same status on both, makes the
  same calls, and leaves the same rings, mailboxes and transport fields, on every transport but queues
  and task notifications, which FreeRTOS alone has; so do opening and receiving on all of these but
  RPMsg; and for every configuration both open the same memory. RPMsg, which both ports implement, they
  open and receive differently: FreeRTOS needs the endpoint only, and receives from a queue; bare metal
  refuses a configuration without a mailbox and a wait operation, and returns what the wait returned.\<close>

theorem rtos_ports_agree:
  "(\<not> freertos_only (ft_type (po_object h t)) \<longrightarrow>
      baremetal_transport_send (Some t) m (sim_host h) = map_prod id sim_host (freertos_transport_send (Some t) m h)) \<and>
   (\<not> freertos_only (ft_type (po_object h t)) \<and> ft_type (po_object h t) \<noteq> ZIPC_TRANSPORT_RPMSG \<longrightarrow>
      baremetal_transport_receive (Some t) out (sim_host h) = map_prod id (map_prod id sim_host) (freertos_transport_receive (Some t) out h)) \<and>
   (\<not> freertos_only (tc_type c) \<and> tc_type c \<noteq> ZIPC_TRANSPORT_RPMSG \<longrightarrow>
      baremetal_transport_open out (Some c) (sim_host h) = map_prod id (map_prod id sim_host) (freertos_transport_open out (Some c) h)) \<and>
   baremetal_memory_open virt out mem g = freertos_memory_open virt out mem g \<and>
   (tc_type c = ZIPC_TRANSPORT_RPMSG \<and> re_address (po_reply h (po_calls h)) = Some a \<longrightarrow>
      fst (freertos_transport_open True (Some c) h) = (if tc_platform_handle c = None then ZIPC_ERR_INVALID_ARGUMENT else ZIPC_OK) \<and>
      fst (baremetal_transport_open True (Some c) (sim_host h)) =
        (if tc_platform_handle c = None \<or> tc_shared_mailbox c = None \<or> tc_signal_wait c = None
         then ZIPC_ERR_INVALID_ARGUMENT else ZIPC_OK)) \<and>
   (ft_type (po_object h t) = ZIPC_TRANSPORT_RPMSG \<longrightarrow>
      fst (freertos_transport_receive (Some t) True h) =
        (if ft_receive_queue (po_object h t) \<noteq> None \<and> re_value (po_reply h (po_calls h)) = pdPASS
         then ZIPC_OK else ZIPC_ERR_TRANSPORT) \<and>
      fst (baremetal_transport_receive (Some t) True (sim_host h)) = re_status (po_reply h (po_calls h)))"
  by (intro conjI impI; (elim conjE)?; rule sim_send sim_receive sim_open rtos_memory_agree rpmsg_opens rpmsg_receives; assumption)

definition sample_freertos_host :: "zipc_transport_spsc_ring \<Rightarrow> int \<Rightarrow> freertos_host" where
  "sample_freertos_host r v = \<lparr>po_object = (\<lambda>_. (freertos_new_transport ZIPC_TRANSPORT_PL_RING_IRQ)\<lparr>ft_ring := Some 2, ft_send := Some 1, ft_wait := Some 1\<rparr>),
     po_rings = (\<lambda>_. r), po_mail = (\<lambda>_. sample_message 0), po_reply = (\<lambda>_. sample_reply v), po_calls = 0, po_log = []\<rparr>"

theorem rtos_ports_agree_witness:
  "let h = sample_freertos_host (sample_ring 4 0) 0; m = Some (sample_message 1);
       c = sample_transport_config\<lparr>tc_type := ZIPC_TRANSPORT_RPMSG, tc_platform_handle := Some 2\<rparr> in
   fst (freertos_transport_send (Some 1) m h) = ZIPC_OK \<and>
   baremetal_transport_send (Some 1) m (sim_host h) = map_prod id sim_host (freertos_transport_send (Some 1) m h) \<and>
   fst (freertos_transport_open True (Some c) h) = ZIPC_OK \<and>
   fst (baremetal_transport_open True (Some c) (sim_host h)) = ZIPC_ERR_INVALID_ARGUMENT"
proof -
  let ?h = "sample_freertos_host (sample_ring 4 0) 0" and ?c = "sample_transport_config\<lparr>tc_type := ZIPC_TRANSPORT_RPMSG, tc_platform_handle := Some 2\<rparr>"
  have "\<not> freertos_only (ft_type (po_object ?h 1))" "re_address (po_reply ?h (po_calls ?h)) = Some 7"
    by (simp_all add: freertos_only_def sample_freertos_host_def freertos_new_transport_def sample_reply_def)
  moreover have "tc_platform_handle ?c \<noteq> None" "tc_shared_mailbox ?c = None" by (simp_all add: sample_transport_config_def)
  moreover have "fst (freertos_transport_send (Some 1) (Some (sample_message 1)) ?h) = ZIPC_OK"
    by (simp add: freertos_transport_send_def sample_freertos_host_def freertos_new_transport_def port_ring_push_def sample_ring_def
        port_call_eq put_ring_def published_def sample_reply_def)
  ultimately show ?thesis
    using rtos_ports_agree [where h = ?h and t = 1 and c = ?c and a = 7 and m = "Some (sample_message 1)"] by simp
qed

subsection \<open>The ring with an interrupt line\<close>

text \<open>What both ports do on that transport.\<close>

definition pl_ring_send :: "nat \<Rightarrow> port_request \<Rightarrow> zipc_message \<Rightarrow> 't port_host \<Rightarrow> zipc_status \<times> 't port_host" where
  "pl_ring_send a req m h =
     (let (ok, r) = port_ring_push (ring_depth (po_rings h a)) m (po_rings h a)
      in if \<not> ok then (ZIPC_ERR_TRANSPORT, h)
         else let (r, h) = port_call req (put_ring a r h) in (published (re_status r = ZIPC_OK), h))"

definition pl_ring_receive :: "nat \<Rightarrow> port_request \<Rightarrow> 't port_host \<Rightarrow> zipc_status \<times> zipc_message option \<times> 't port_host" where
  "pl_ring_receive a req h =
     (let (r, h) = port_call req h;
          h = put_ring a (port_peer_pushes (ring_depth (po_rings h a)) r (po_rings h a)) h
      in if re_status r \<noteq> ZIPC_OK then (re_status r, None, h)
         else (case port_ring_pop (ring_depth (po_rings h a)) (po_rings h a) of
                 (None, _) \<Rightarrow> (ZIPC_ERR_TRANSPORT, None, h)
               | (Some m, ring) \<Rightarrow> (ZIPC_OK, Some m, put_ring a ring h)))"

lemma pl_ring_send_outcome:
  assumes inv: "ring_invar (po_rings h a)" and res: "pl_ring_send a req m h = (st, h')"
  shows "po_object h' = po_object h" "ring_invar (po_rings h' a)"
    "ring_list (po_rings h' a) = (if st = ZIPC_OK \<or> st = ZIPC_ERR_TRANSPORT_PUBLISHED then ring_list (po_rings h a) @ [m] else ring_list (po_rings h a))"
proof -
  obtain ok r where push: "port_ring_push (ring_depth (po_rings h a)) m (po_rings h a) = (ok, r)" by fastforce
  note l = port_ring_push_list [OF inv push]
  have "(st, h') = (if \<not> ok then (ZIPC_ERR_TRANSPORT, h) else (published (re_status (po_reply h (po_calls h)) = ZIPC_OK), snd (port_call req (put_ring a r h))))"
    using res push by (cases ok) (simp_all add: pl_ring_send_def port_call_eq)
  then show "po_object h' = po_object h" "ring_invar (po_rings h' a)"
    "ring_list (po_rings h' a) = (if st = ZIPC_OK \<or> st = ZIPC_ERR_TRANSPORT_PUBLISHED then ring_list (po_rings h a) @ [m] else ring_list (po_rings h a))"
    using l inv by (auto simp: published_def split: if_splits)
qed

lemma pl_ring_receive_outcome:
  assumes inv: "ring_invar (po_rings h a)" and res: "pl_ring_receive a req h = (st, m, h')"
  shows "po_object h' = po_object h" "ring_invar (po_rings h' a)"
    "if st = ZIPC_OK then \<exists>d more. m = Some d \<and> ring_list (po_rings h a) @ more = d # ring_list (po_rings h' a)
     else \<exists>more. ring_list (po_rings h' a) = ring_list (po_rings h a) @ more"
proof -
  define r where "r = port_peer_pushes (ring_depth (po_rings h a)) (po_reply h (po_calls h)) (po_rings h a)"
  from port_peer_pushes_list [OF inv, of "po_reply h (po_calls h)"] have r: "ring_invar r"
    and more: "\<exists>more. ring_list r = ring_list (po_rings h a) @ more" by (simp_all add: r_def)
  let ?h = "put_ring a r (snd (port_call req h))"
  note adv = ring_advance_list [OF r] ring_list_empty_iff [of r]
  have run: "(st, m, h') = (if re_status (po_reply h (po_calls h)) \<noteq> ZIPC_OK then (re_status (po_reply h (po_calls h)), None, ?h)
      else if ring_list r = [] then (ZIPC_ERR_TRANSPORT, None, ?h)
      else (ZIPC_OK, Some (hd (ring_list r)), put_ring a (r\<lparr>ring_consumer := ring_consumer r + 1\<rparr>) ?h))"
  proof (cases "re_status (po_reply h (po_calls h)) = ZIPC_OK")
    case True
    then show ?thesis
      using res port_ring_pop_list [OF r]
      by (cases "ring_list r = []") (simp_all add: pl_ring_receive_def port_call_eq Let_def r_def [symmetric])
  next
    case False
    then show ?thesis using res by (simp add: pl_ring_receive_def port_call_eq Let_def r_def [symmetric])
  qed
  consider "st \<noteq> ZIPC_OK" "h' = ?h" | "st = ZIPC_OK" "ring_list r \<noteq> []" "m = Some (hd (ring_list r))"
    "h' = put_ring a (r\<lparr>ring_consumer := ring_consumer r + 1\<rparr>) ?h"
    using run by (simp split: if_splits)
  then have "po_object h' = po_object h \<and> ring_invar (po_rings h' a) \<and>
    (if st = ZIPC_OK then \<exists>d more. m = Some d \<and> ring_list (po_rings h a) @ more = d # ring_list (po_rings h' a)
     else \<exists>more. ring_list (po_rings h' a) = ring_list (po_rings h a) @ more)"
  proof cases
    case 1
    then show ?thesis using r more by simp
  next
    case 2
    then have "ring_consumer r \<noteq> ring_producer r" using adv(3) by simp
    note a = adv(1,2) [OF this]
    obtain more where "ring_list r = ring_list (po_rings h a) @ more" using more by blast
    then have "ring_list (po_rings h a) @ more = hd (ring_list r) # tl (ring_list r)" using 2(2) by simp
    then show ?thesis using 2 a by (simp, blast)
  qed
  then show "po_object h' = po_object h" "ring_invar (po_rings h' a)"
    "if st = ZIPC_OK then \<exists>d more. m = Some d \<and> ring_list (po_rings h a) @ more = d # ring_list (po_rings h' a)
     else \<exists>more. ring_list (po_rings h' a) = ring_list (po_rings h a) @ more" by blast+
qed

definition freertos_pl_ring :: "nat \<Rightarrow> nat \<Rightarrow> freertos_host \<Rightarrow> bool" where
  "freertos_pl_ring a t h \<longleftrightarrow> ft_type (po_object h t) = ZIPC_TRANSPORT_PL_RING_IRQ \<and> ft_ring (po_object h t) = Some a \<and> ring_invar (po_rings h a)"

definition baremetal_pl_ring :: "nat \<Rightarrow> nat \<Rightarrow> baremetal_host \<Rightarrow> bool" where
  "baremetal_pl_ring a t h \<longleftrightarrow> bt_type (po_object h t) = ZIPC_TRANSPORT_PL_RING_IRQ \<and> bt_ring (po_object h t) = Some a \<and> ring_invar (po_rings h a)"

lemma freertos_pl_ring_ops:
  assumes "freertos_pl_ring a t h"
  shows "freertos_transport_send (Some t) (Some m) h = pl_ring_send a (Port_signal_send (ft_send (po_object h t)) (ft_context (po_object h t))) m h"
    "freertos_transport_receive (Some t) True h =
      pl_ring_receive a (Port_signal_wait (ft_wait (po_object h t)) (ft_context (po_object h t)) (ft_timeout_ticks (po_object h t))) h"
  using assms
  by (simp_all add: freertos_pl_ring_def freertos_transport_send_def freertos_transport_receive_def pl_ring_send_def pl_ring_receive_def Let_def)

lemma baremetal_pl_ring_ops:
  assumes "baremetal_pl_ring a t h"
  shows "baremetal_transport_send (Some t) (Some m) h = pl_ring_send a (Port_signal_send (bt_send (po_object h t)) (bt_context (po_object h t))) m h"
    "baremetal_transport_receive (Some t) True h =
      pl_ring_receive a (Port_signal_wait (bt_wait (po_object h t)) (bt_context (po_object h t)) (bt_timeout_ticks (po_object h t))) h"
  using assms
  by (simp_all add: baremetal_pl_ring_def baremetal_transport_send_def baremetal_transport_receive_def pl_ring_send_def pl_ring_receive_def Let_def)

text \<open>The ring seen by the endpoints of a FreeRTOS and of a bare-metal component.\<close>

abbreviation pl_pending :: "nat \<Rightarrow> 't port_host \<Rightarrow> zipc_message list" where
  "pl_pending a h \<equiv> ring_list (po_rings h a)"

interpretation freertos_link: descriptor_channel freertos_platform "Some t1" "Some t2"
  "\<lambda>h. freertos_pl_ring a t1 h \<and> freertos_pl_ring a t2 h" "pl_pending a" "\<lambda>m q. q @ [m]" for a t1 t2
proof (unfold_locales, goal_cases)
  case (1 w m st w')
  then show ?case
    using pl_ring_send_outcome [of w a _ m st w'] freertos_pl_ring_ops(1) [of a t1 w m]
    by (auto simp: freertos_platform_def freertos_pl_ring_def)
next
  case (2 w st msg k w')
  then have "freertos_transport_receive (Some t2) True w = (st, msg, w')"
    by (auto simp: freertos_platform_def freertos_receive_begin_def dest!: plain_begin_failed)
  with 2 show ?case
    using pl_ring_receive_outcome [of w a _ st msg w'] freertos_pl_ring_ops(2) [of a t2 w] by (auto simp: freertos_pl_ring_def)
next
  case (3 w msg k w' st w'')
  then have b: "plain_receive_begin (Some t2) (Some (freertos_transport_receive (Some t2) True w)) (Some zero_token) w = Some (ZIPC_OK, msg, k, w')"
    by (simp add: freertos_platform_def freertos_receive_begin_def)
  note c = plain_begin_commit [OF b]
  with 3 show ?case
    using pl_ring_receive_outcome [of w a _ ZIPC_OK msg w'] freertos_pl_ring_ops(2) [of a t2 w]
    by (auto simp: freertos_platform_def freertos_pl_ring_def)
qed simp

interpretation baremetal_link: descriptor_channel baremetal_platform "Some t1" "Some t2"
  "\<lambda>h. baremetal_pl_ring a t1 h \<and> baremetal_pl_ring a t2 h" "pl_pending a" "\<lambda>m q. q @ [m]" for a t1 t2
proof (unfold_locales, goal_cases)
  case (1 w m st w')
  then show ?case
    using pl_ring_send_outcome [of w a _ m st w'] baremetal_pl_ring_ops(1) [of a t1 w m]
    by (auto simp: baremetal_platform_def baremetal_pl_ring_def)
next
  case (2 w st msg k w')
  then have "baremetal_transport_receive (Some t2) True w = (st, msg, w')"
    by (auto simp: baremetal_platform_def baremetal_receive_begin_def dest!: plain_begin_failed)
  with 2 show ?case
    using pl_ring_receive_outcome [of w a _ st msg w'] baremetal_pl_ring_ops(2) [of a t2 w] by (auto simp: baremetal_pl_ring_def)
next
  case (3 w msg k w' st w'')
  then have b: "plain_receive_begin (Some t2) (Some (baremetal_transport_receive (Some t2) True w)) (Some zero_token) w = Some (ZIPC_OK, msg, k, w')"
    by (simp add: baremetal_platform_def baremetal_receive_begin_def)
  note c = plain_begin_commit [OF b]
  with 3 show ?case
    using pl_ring_receive_outcome [of w a _ ZIPC_OK msg w'] baremetal_pl_ring_ops(2) [of a t2 w]
    by (auto simp: baremetal_platform_def baremetal_pl_ring_def)
qed simp

subsection \<open>Links over the ring\<close>

text \<open>The two ends of a send: the descriptor of the next transfer was appended and the buffer handed
  over, or nothing happened to the queue and the sender still holds the buffer.\<close>

definition sent_or_kept ::
  "zipc_pool \<Rightarrow> zipc_link \<Rightarrow> zipc_buffer \<Rightarrow> sys \<Rightarrow> zipc_message list \<Rightarrow> zipc_status \<Rightarrow> zipc_buffer option \<Rightarrow> sys \<Rightarrow> zipc_message list \<Rightarrow> bool" where
  "sent_or_kept p l v s q st v' s' q' \<longleftrightarrow> pool_inv s' p \<and>
     (if st = ZIPC_OK \<or> st = ZIPC_ERR_TRANSPORT_PUBLISHED
      then v' = Some buffer_zero \<and> implements p s (Some (Ev_Send (lk_local_component l) (lk_remote_component l))) s' \<and>
           q' = q @ [transfer_message p (buf_handle v) (lk_local_component l) (lk_remote_component l)
             (sc_transfer_sequence (slot_of s (slot_ptr p (buf_slot_id v))) + 1)]
      else v' = Some v \<and> buffer_kept p v s s' \<and> q' = q)"

text \<open>C38: A send through a link over the interrupt-driven ring (whose depth divides \<open>2^32\<close>) is all or
  nothing on FreeRTOS and on bare metal, for a pool without strict ownership: these ports report no
  page size, and formatting refuses a strict pool there. Either the descriptor of the next transfer was appended to the ring and the buffer handed
  over, also when only the interrupt could not be raised, or the ring is as it was and the sender
  still holds the buffer through the same view.\<close>

theorem pl_ring_send_all_or_nothing:
  assumes "pool_inv s p" "pool_flags p AND ZIPC_POOL_F_STRICT_OWNERSHIP = 0" "current_view s p v"
    and "lk_pool l = p" "lk_transport l = Some t" "freertos_pl_ring a t h" "baremetal_pl_ring a t g"
    and "zipc_send freertos_platform (Some l) (Some v) s h = (st, v', s', h')"
    and "zipc_send baremetal_platform (Some l) (Some v) s g = (st2, v2, s2, g')"
  shows "sent_or_kept p l v s (pl_pending a h) st v' s' (pl_pending a h') \<and>
    sent_or_kept p l v s (pl_pending a g) st2 v2 s2 (pl_pending a g')"
  using freertos_link.send_all_or_nothing [where a = a and ?t1.0 = t and ?t2.0 = t, OF assms(1-3) _ assms(4,5,8)]
    baremetal_link.send_all_or_nothing [where a = a and ?t1.0 = t and ?t2.0 = t, OF assms(1-3) _ assms(4,5,9)] assms(6,7)
  unfolding sent_or_kept_def by simp

theorem pl_ring_send_all_or_nothing_witness:
  "let l = sample_link 1 3 5 ZIPC_LINK_ROLE_PRODUCER; s = sample_state [sample_owned_slot, sample_slot];
       h = sample_freertos_host (sample_ring 4 0) 0 in
   \<exists>st v' s' h'. zipc_send freertos_platform (Some l) (Some sample_view) s h = (st, v', s', h') \<and>
     sent_or_kept sample_pool l sample_view s [] st v' s' (pl_pending 2 h')"
proof -
  let ?l = "sample_link 1 3 5 ZIPC_LINK_ROLE_PRODUCER" and ?s = "sample_state [sample_owned_slot, sample_slot]"
    and ?h = "sample_freertos_host (sample_ring 4 0) 0"
  obtain st v' s' h' where r: "zipc_send freertos_platform (Some ?l) (Some sample_view) ?s ?h = (st, v', s', h')" by (metis prod_cases4)
  obtain st2 v2 s2 g' where b: "zipc_send baremetal_platform (Some ?l) (Some sample_view) ?s (sim_host ?h) = (st2, v2, s2, g')"
    by (metis prod_cases4)
  have ring: "freertos_pl_ring 2 1 ?h" "baremetal_pl_ring 2 1 (sim_host ?h)" "pl_pending 2 ?h = []"
    by (simp_all add: freertos_pl_ring_def baremetal_pl_ring_def sample_freertos_host_def freertos_new_transport_def sample_ring_invar)
  from pl_ring_send_all_or_nothing [where p = sample_pool, OF _ _ _ _ _ ring(1,2) r b] r ring(3) show ?thesis
    unfolding Let_def by (intro exI [of _ st] exI [of _ v'] exI [of _ s'] exI [of _ h']) simp
qed

end
