(* ===== verification/Kernel_Transport.thy ===== *)
theory Kernel_Transport
  imports Port_Host
begin

text \<open>
  The transport of the Linux kernel module (\<^verbatim>\<open>platform-linux-kernel.c\<close>): a shared ring or a kernel
  FIFO, with callbacks and a wait queue for the wake-ups. It is an interface of its own, beside the
  user-space platform interface. The kernel FIFO, the wait queues and the callbacks answer from the
  reply stream; the ring is modelled.
\<close>

datatype zipc_kernel_transport_type =
    ZIPC_KERNEL_TRANSPORT_KFIFO
  | ZIPC_KERNEL_TRANSPORT_RING_WAITQUEUE
  | ZIPC_KERNEL_TRANSPORT_RPMSG
  | ZIPC_KERNEL_TRANSPORT_IPI
  | ZIPC_KERNEL_TRANSPORT_PL_RING_IRQ
  | ZIPC_KERNEL_TRANSPORT_SMC
  | ZIPC_KERNEL_TRANSPORT_FFA

text \<open>\<open>zipc_kernel_spsc_ring_t\<close> has the layout of the user-space ring.\<close>

type_synonym zipc_kernel_spsc_ring = zipc_transport_spsc_ring

record zipc_kernel_transport_config =
  kc_type :: zipc_kernel_transport_type
  kc_ring :: "nat option"
  kc_ring_depth :: u32
  kc_waitq :: "nat option"
  kc_fifo :: "nat option"
  kc_platform_handle :: "nat option"
  kc_notify :: "nat option"
  kc_wait :: "nat option"
  kc_context :: nat

record zipc_kernel_transport =
  kt_type :: zipc_kernel_transport_type
  kt_ring :: "nat option"
  kt_waitq :: "nat option"
  kt_fifo :: "nat option"
  kt_notify :: "nat option"
  kt_wait :: "nat option"
  kt_context :: nat

type_synonym kernel_host = "zipc_kernel_transport port_host"

definition kernel_ring_push :: "nat \<Rightarrow> zipc_message \<Rightarrow> kernel_host \<Rightarrow> zipc_status \<times> kernel_host" where
  "kernel_ring_push a m h =
     (let ring = po_rings h a; producer = ring_producer ring; consumer = ring_consumer ring in
      if producer - consumer \<ge> ring_depth ring then (ZIPC_ERR_TRANSPORT, h)
      else (ZIPC_OK, put_ring a (ring\<lparr>ring_entries := (ring_entries ring)[unat (producer mod ring_depth ring) := m],
              ring_producer := producer + 1\<rparr>) h))"

definition kernel_ring_pop :: "nat \<Rightarrow> kernel_host \<Rightarrow> zipc_status \<times> zipc_message option \<times> kernel_host" where
  "kernel_ring_pop a h =
     (let ring = po_rings h a; consumer = ring_consumer ring; producer = ring_producer ring in
      if consumer = producer then (ZIPC_ERR_NO_BUFFER, None, h)
      else (ZIPC_OK, Some (ring_entries ring ! unat (consumer mod ring_depth ring)),
            put_ring a (ring\<lparr>ring_consumer := consumer + 1\<rparr>) h))"

definition zipc_kernel_transport_open ::
  "bool \<Rightarrow> zipc_kernel_transport_config option \<Rightarrow> kernel_host \<Rightarrow> zipc_status \<times> nat option \<times> kernel_host" where
  "zipc_kernel_transport_open out cfg h =
     (case cfg of
        None \<Rightarrow> (ZIPC_ERR_INVALID_ARGUMENT, None, h)
      | Some c \<Rightarrow>
          if \<not> out then (ZIPC_ERR_INVALID_ARGUMENT, None, h)
          else
            let (r, h) = port_call Port_alloc h in
            case re_address r of
              None \<Rightarrow> (ZIPC_ERR_PLATFORM, None, h)
            | Some t \<Rightarrow>
                let h = upd_object t (\<lambda>_. \<lparr>kt_type = kc_type c, kt_ring = kc_ring c, kt_waitq = kc_waitq c, kt_fifo = kc_fifo c,
                          kt_notify = kc_notify c, kt_wait = kc_wait c, kt_context = kc_context c\<rparr>) h
                in if kc_type c \<noteq> ZIPC_KERNEL_TRANSPORT_KFIFO \<and> (kc_ring c = None \<or> ring_depth (po_rings h (the (kc_ring c))) < 2)
                   then (ZIPC_ERR_INVALID_ARGUMENT, None, port_do (Port_free (Some t)) h)
                   else if kc_type c = ZIPC_KERNEL_TRANSPORT_RING_WAITQUEUE \<and> kc_waitq c = None
                   then (ZIPC_ERR_INVALID_ARGUMENT, None, port_do (Port_free (Some t)) h)
                   else (ZIPC_OK, Some t, h))"

definition kernel_message_size :: int where
  "kernel_message_size = 24"

definition wake_waiters :: "nat option \<Rightarrow> kernel_host \<Rightarrow> kernel_host" where
  "wake_waiters waitq h = (case waitq of None \<Rightarrow> h | Some q \<Rightarrow> port_do (Port_wake_up q) h)"

definition zipc_kernel_transport_send :: "nat option \<Rightarrow> zipc_message option \<Rightarrow> kernel_host \<Rightarrow> zipc_status \<times> kernel_host" where
  "zipc_kernel_transport_send transport message h =
     (case (transport, message) of
        (Some t, Some m) \<Rightarrow>
          let x = po_object h t in
          if kt_type x = ZIPC_KERNEL_TRANSPORT_KFIFO
          then
            (case kt_fifo x of
               None \<Rightarrow> (ZIPC_ERR_TRANSPORT, h)
             | Some f \<Rightarrow>
                 let (r, h) = port_call (Port_kfifo_avail f) h in
                 if re_value r < kernel_message_size then (ZIPC_ERR_TRANSPORT, h)
                 else
                   let (r, h) = port_call (Port_kfifo_in f m) h in
                   if re_value r \<noteq> kernel_message_size
                   then (if re_value r \<noteq> 0 then ZIPC_ERR_TRANSPORT_PUBLISHED else ZIPC_ERR_TRANSPORT, h)
                   else (ZIPC_OK, wake_waiters (kt_waitq x) h))
          else
            let (status, h) = kernel_ring_push (the (kt_ring x)) m h in
            if status \<noteq> ZIPC_OK then (status, h)
            else
              let (failed, h) =
                    (case kt_notify x of
                       None \<Rightarrow> (False, h)
                     | Some f \<Rightarrow> let (r, h) = port_call (Port_callback f (kt_context x)) h in (re_value r \<noteq> 0, h))
              in if failed then (ZIPC_ERR_TRANSPORT_PUBLISHED, h) else (ZIPC_OK, wake_waiters (kt_waitq x) h)
      | _ \<Rightarrow> (ZIPC_ERR_INVALID_ARGUMENT, h))"

text \<open>While the caller waits, the peer may push into the ring.\<close>

definition kernel_wait :: "port_request \<Rightarrow> nat option \<Rightarrow> kernel_host \<Rightarrow> int \<times> kernel_host" where
  "kernel_wait req ring h =
     (let (r, h) = port_call req h
      in (re_value r, case ring of None \<Rightarrow> h
                      | Some a \<Rightarrow> put_ring a (port_peer_pushes (ring_depth (po_rings h a)) r (po_rings h a)) h))"

text \<open>The wait of an empty ring: the callback first, then the wait queue.\<close>

definition kernel_ring_wait :: "zipc_kernel_transport \<Rightarrow> nat \<Rightarrow> kernel_host \<Rightarrow> zipc_status option \<times> kernel_host" where
  "kernel_ring_wait x timeout h =
     (let (failed, h) =
            (case kt_wait x of
               None \<Rightarrow> (False, h)
             | Some f \<Rightarrow> let (v, h) = kernel_wait (Port_callback_wait f (kt_context x) timeout) (kt_ring x) h in (v \<noteq> 0, h))
      in if failed then (Some ZIPC_ERR_PLATFORM, h)
         else case kt_waitq x of
                None \<Rightarrow> (None, h)
              | Some q \<Rightarrow>
                  let (v, h) = kernel_wait (Port_wait_event q timeout) (kt_ring x) h
                  in if v = 0 then (Some ZIPC_ERR_NO_BUFFER, h) else (None, h))"

definition zipc_kernel_transport_receive ::
  "nat option \<Rightarrow> bool \<Rightarrow> nat \<Rightarrow> kernel_host \<Rightarrow> zipc_status \<times> zipc_message option \<times> kernel_host" where
  "zipc_kernel_transport_receive transport message_out timeout h =
     (case transport of
        None \<Rightarrow> (ZIPC_ERR_INVALID_ARGUMENT, None, h)
      | Some t \<Rightarrow>
          if \<not> message_out then (ZIPC_ERR_INVALID_ARGUMENT, None, h)
          else
            let x = po_object h t in
            if kt_type x = ZIPC_KERNEL_TRANSPORT_KFIFO
            then
              (case kt_fifo x of
                 None \<Rightarrow> (ZIPC_ERR_INVALID_ARGUMENT, None, h)
               | Some f \<Rightarrow>
                   let (r, h) = port_call (Port_kfifo_len f) h;
                       (ready, h) =
                         (if re_value r < kernel_message_size
                          then case kt_waitq x of
                                 None \<Rightarrow> (False, h)
                               | Some q \<Rightarrow> let (r, h) = port_call (Port_wait_event q timeout) h in (re_value r \<noteq> 0, h)
                          else (True, h))
                   in if \<not> ready then (ZIPC_ERR_NO_BUFFER, None, h)
                      else
                        let (r, h) = port_call (Port_kfifo_out f) h
                        in if re_value r = kernel_message_size then (ZIPC_OK, Some (re_message r), h)
                           else (ZIPC_ERR_TRANSPORT, None, h))
            else
              let a = the (kt_ring x) in
              (case kernel_ring_pop a h of
                 (status, m, h1) \<Rightarrow>
                   if status = ZIPC_OK then (ZIPC_OK, m, h1)
                   else (case kernel_ring_wait x timeout h of
                           (Some status, h) \<Rightarrow> (status, None, h)
                         | (None, h) \<Rightarrow> kernel_ring_pop a h)))"

definition zipc_kernel_transport_close :: "nat option \<Rightarrow> kernel_host \<Rightarrow> kernel_host" where
  "zipc_kernel_transport_close transport h = port_do (Port_free transport) h"

definition kernel_time_ns :: "kernel_host \<Rightarrow> u64 \<times> kernel_host" where
  "kernel_time_ns h = (let (r, h) = port_call Port_clock h in (re_counter r, h))"

definition kernel_random :: "bool \<Rightarrow> nat \<Rightarrow> kernel_host \<Rightarrow> zipc_status \<times> kernel_host" where
  "kernel_random buffer len h =
     (if \<not> buffer \<and> len \<noteq> 0 then (ZIPC_ERR_INVALID_ARGUMENT, h)
      else if len = 0 then (ZIPC_OK, h)
      else let (r, h) = port_call (Port_random len) h
           in (if re_value r = 0 then ZIPC_OK else ZIPC_ERR_ENTROPY_UNAVAILABLE, h))"

subsection \<open>The ring as a queue\<close>

definition kernel_ring_transport :: "nat \<Rightarrow> nat \<Rightarrow> kernel_host \<Rightarrow> bool" where
  "kernel_ring_transport a t h \<longleftrightarrow> kt_type (po_object h t) \<noteq> ZIPC_KERNEL_TRANSPORT_KFIFO \<and> kt_ring (po_object h t) = Some a \<and>
     ring_invar (po_rings h a)"

abbreviation kernel_pending :: "nat \<Rightarrow> kernel_host \<Rightarrow> zipc_message list" where
  "kernel_pending a h \<equiv> ring_list (po_rings h a)"

lemma kernel_push_port:
  "kernel_ring_push a m h = (case port_ring_push (ring_depth (po_rings h a)) m (po_rings h a) of
     (ok, r) \<Rightarrow> if ok then (ZIPC_OK, put_ring a r h) else (ZIPC_ERR_TRANSPORT, h))"
  by (simp add: kernel_ring_push_def port_ring_push_def Let_def)

lemma kernel_pop_port:
  "kernel_ring_pop a h = (case port_ring_pop (ring_depth (po_rings h a)) (po_rings h a) of
     (None, _) \<Rightarrow> (ZIPC_ERR_NO_BUFFER, None, h) | (Some m, r) \<Rightarrow> (ZIPC_OK, Some m, put_ring a r h))"
  by (simp add: kernel_ring_pop_def port_ring_pop_def Let_def)

lemma wake_waiters_keeps [simp]:
  "po_object (wake_waiters q h) = po_object h" "po_rings (wake_waiters q h) = po_rings h"
  by (simp_all add: wake_waiters_def port_do_def split: option.split)

lemma kernel_pop_outcome:
  assumes inv: "ring_invar (po_rings h a)"
  shows "kernel_ring_pop a h = (if kernel_pending a h = [] then (ZIPC_ERR_NO_BUFFER, None, h)
      else (ZIPC_OK, Some (hd (kernel_pending a h)), put_ring a ((po_rings h a)\<lparr>ring_consumer := ring_consumer (po_rings h a) + 1\<rparr>) h))"
    "kernel_pending a h \<noteq> [] \<Longrightarrow> ring_list ((po_rings h a)\<lparr>ring_consumer := ring_consumer (po_rings h a) + 1\<rparr>) = tl (kernel_pending a h) \<and>
      ring_invar ((po_rings h a)\<lparr>ring_consumer := ring_consumer (po_rings h a) + 1\<rparr>)"
  using port_ring_pop_list [OF inv] ring_advance_list [OF inv] ring_list_empty_iff [of "po_rings h a"] by (simp_all add: kernel_pop_port)

text \<open>A wait keeps what is pending.\<close>

definition kernel_waited :: "nat \<Rightarrow> kernel_host \<Rightarrow> kernel_host \<Rightarrow> bool" where
  "kernel_waited a h h' \<longleftrightarrow> po_object h' = po_object h \<and> (ring_invar (po_rings h a) \<longrightarrow> ring_invar (po_rings h' a) \<and>
     (\<exists>more. kernel_pending a h' = kernel_pending a h @ more))"

lemma kernel_waited_trans: "kernel_waited a h h1 \<Longrightarrow> kernel_waited a h1 h2 \<Longrightarrow> kernel_waited a h h2"
  unfolding kernel_waited_def by fastforce

lemma kernel_wait_waits: "kernel_waited a h (snd (kernel_wait req (Some a) h))"
  using port_peer_pushes_list [of "po_rings h a" "po_reply h (po_calls h)"]
  by (auto simp: kernel_wait_def kernel_waited_def port_call_eq)

lemma kernel_ring_wait_waits:
  assumes "kt_ring x = Some a" "kernel_ring_wait x timeout h = (st, h')"
  shows "kernel_waited a h h'" "st \<noteq> Some ZIPC_OK"
proof -
  define h1 where "h1 = (case kt_wait x of None \<Rightarrow> h | Some f \<Rightarrow> snd (kernel_wait (Port_callback_wait f (kt_context x) timeout) (Some a) h))"
  have w1: "kernel_waited a h h1"
    using kernel_wait_waits by (auto simp: h1_def kernel_waited_def split: option.split)
  have "h' = h1 \<or> (\<exists>q. h' = snd (kernel_wait (Port_wait_event q timeout) (Some a) h1))" "st \<noteq> Some ZIPC_OK"
    using assms by (auto simp: kernel_ring_wait_def h1_def Let_def split_beta split: option.splits if_splits)
  then show "kernel_waited a h h'" "st \<noteq> Some ZIPC_OK"
    using w1 kernel_wait_waits kernel_waited_trans by blast+
qed

lemma kernel_send_outcome:
  assumes "kernel_ring_transport a t h" "zipc_kernel_transport_send (Some t) (Some m) h = (st, h1)"
  shows "kernel_ring_transport a t h1 \<and>
    (if length (kernel_pending a h) < unat (ring_depth (po_rings h a))
     then (st = ZIPC_OK \<or> st = ZIPC_ERR_TRANSPORT_PUBLISHED) \<and> kernel_pending a h1 = kernel_pending a h @ [m]
     else st = ZIPC_ERR_TRANSPORT \<and> kernel_pending a h1 = kernel_pending a h)"
proof -
  have x: "kt_type (po_object h t) \<noteq> ZIPC_KERNEL_TRANSPORT_KFIFO" "kt_ring (po_object h t) = Some a" and inv: "ring_invar (po_rings h a)"
    using assms(1) by (simp_all add: kernel_ring_transport_def)
  obtain ok r where push: "port_ring_push (ring_depth (po_rings h a)) m (po_rings h a) = (ok, r)" by fastforce
  have sent: "po_object h1 = po_object h" "po_rings h1 a = (if ok then r else po_rings h a)"
    "if ok then st = ZIPC_OK \<or> st = ZIPC_ERR_TRANSPORT_PUBLISHED else st = ZIPC_ERR_TRANSPORT"
    using assms(2) x push
    by (cases "kt_notify (po_object h t)"; cases ok;
        auto simp: zipc_kernel_transport_send_def kernel_push_port port_call_eq Let_def split: if_splits)+
  then show ?thesis
    using port_ring_push_list [OF inv push] x inv by (auto simp: kernel_ring_transport_def split: if_splits)
qed

lemma kernel_receive_outcome:
  assumes "kernel_ring_transport a t h" "zipc_kernel_transport_receive (Some t) True timeout h = (st, d, h2)"
  shows "kernel_ring_transport a t h2 \<and>
    (if st = ZIPC_OK then \<exists>more. kernel_pending a h @ more = the d # kernel_pending a h2
     else \<exists>more. kernel_pending a h2 = kernel_pending a h @ more) \<and>
    (kernel_pending a h \<noteq> [] \<longrightarrow> st = ZIPC_OK \<and> d = Some (hd (kernel_pending a h)) \<and> kernel_pending a h2 = tl (kernel_pending a h))"
proof -
  have x: "kt_type (po_object h t) \<noteq> ZIPC_KERNEL_TRANSPORT_KFIFO" "kt_ring (po_object h t) = Some a" and inv: "ring_invar (po_rings h a)"
    using assms(1) by (simp_all add: kernel_ring_transport_def)
  show ?thesis
  proof (cases "kernel_pending a h = []")
    case False
    then show ?thesis
      using assms(2) x kernel_pop_outcome [OF inv]
      by (auto simp: kernel_ring_transport_def zipc_kernel_transport_receive_def Let_def intro!: exI [of _ "[]"])
  next
    case True
    obtain w h3 where w: "kernel_ring_wait (po_object h t) timeout h = (w, h3)" by fastforce
    note wt = kernel_ring_wait_waits [OF x(2) w]
    have inv3: "ring_invar (po_rings h3 a)" using wt inv by (simp add: kernel_waited_def)
    have "(st, d, h2) = (case w of Some e \<Rightarrow> (e, None, h3) | None \<Rightarrow> kernel_ring_pop a h3)"
      using assms(2) x kernel_pop_outcome(1) [OF inv] True w
      by (simp add: zipc_kernel_transport_receive_def Let_def split: option.split)
    then show ?thesis
      using wt inv True x kernel_pop_outcome [OF inv3]
      by (auto simp: kernel_ring_transport_def kernel_waited_def split: option.splits if_splits)
  qed
qed

text \<open>C39: The ring transports of the kernel module, on a ring whose depth divides \<open>2^32\<close>, are a bounded
  first-in first-out queue. A send appends
  its descriptor exactly when there is room, and reports success or, when only the notification
  failed, that it was published; a full ring is refused unchanged. A receive that succeeds returns
  the oldest descriptor, one that was pending or arrived while waiting, and removes only it; a
  receive that fails loses nothing. With a descriptor pending it succeeds without waiting.\<close>

theorem kernel_ring_is_fifo:
  assumes "kernel_ring_transport a t h"
    and "zipc_kernel_transport_send (Some t) (Some m) h = (st, h1)"
    and "zipc_kernel_transport_receive (Some t) True timeout h = (st2, d, h2)"
  shows "kernel_ring_transport a t h1 \<and> kernel_ring_transport a t h2 \<and>
    (if length (kernel_pending a h) < unat (ring_depth (po_rings h a))
     then (st = ZIPC_OK \<or> st = ZIPC_ERR_TRANSPORT_PUBLISHED) \<and> kernel_pending a h1 = kernel_pending a h @ [m]
     else st = ZIPC_ERR_TRANSPORT \<and> kernel_pending a h1 = kernel_pending a h) \<and>
    (if st2 = ZIPC_OK then \<exists>more. kernel_pending a h @ more = the d # kernel_pending a h2
     else \<exists>more. kernel_pending a h2 = kernel_pending a h @ more) \<and>
    (kernel_pending a h \<noteq> [] \<longrightarrow> st2 = ZIPC_OK \<and> d = Some (hd (kernel_pending a h)) \<and> kernel_pending a h2 = tl (kernel_pending a h))"
  using kernel_send_outcome [OF assms(1,2)] kernel_receive_outcome [OF assms(1,3)] by blast

definition sample_kernel_host :: "zipc_transport_spsc_ring \<Rightarrow> kernel_host" where
  "sample_kernel_host r = \<lparr>po_object = (\<lambda>_. \<lparr>kt_type = ZIPC_KERNEL_TRANSPORT_RING_WAITQUEUE, kt_ring = Some 2, kt_waitq = Some 7, kt_fifo = None,
       kt_notify = None, kt_wait = None, kt_context = 0\<rparr>), po_rings = (\<lambda>_. r), po_mail = (\<lambda>_. sample_message 0),
     po_reply = (\<lambda>_. \<lparr>re_value = 0, re_errno = EOTHER, re_counter = 0, re_message = sample_message 0, re_status = ZIPC_OK,
       re_address = None, re_sec = 0, re_nsec = 0, re_bytes = [], re_peer = []\<rparr>), po_calls = 0, po_log = []\<rparr>"

theorem kernel_ring_is_fifo_witness:
  "let h = sample_kernel_host (sample_ring 4 UINT32_MAX); h1 = snd (zipc_kernel_transport_send (Some 1) (Some (sample_message 5)) h) in
   kernel_pending 2 h1 = [sample_message 5]"
proof -
  let ?h = "sample_kernel_host (sample_ring 4 UINT32_MAX)"
  obtain st h1 where s: "zipc_kernel_transport_send (Some 1) (Some (sample_message 5)) ?h = (st, h1)" by fastforce
  obtain st2 d h2 where r: "zipc_kernel_transport_receive (Some 1) True 0 ?h = (st2, d, h2)" by (metis prod_cases3)
  have "kernel_ring_transport 2 1 ?h" "kernel_pending 2 ?h = []" "unat (ring_depth (po_rings ?h 2)) = 4"
    by (simp_all add: kernel_ring_transport_def sample_kernel_host_def sample_ring_invar) (simp add: sample_ring_def)
  with kernel_ring_is_fifo [OF _ s r, of 2] s show ?thesis by simp
qed

end
