(* ===== verification/Backends.thy ===== *)
theory Backends
  imports Link_Channel Platform_Memory
begin

text \<open>
  The roles of the backends (\<^verbatim>\<open>zipc-backends.c\<close>): which descriptor and event mechanism a transport
  uses, and the names of the mechanisms. An enumeration value outside its type is \<open>None\<close>.
\<close>

datatype zipc_descriptor_backend_type =
    ZIPC_DESCRIPTOR_BACKEND_NONE
  | ZIPC_DESCRIPTOR_BACKEND_MESSAGE_QUEUE
  | ZIPC_DESCRIPTOR_BACKEND_UNIX_DGRAM
  | ZIPC_DESCRIPTOR_BACKEND_FIFO
  | ZIPC_DESCRIPTOR_BACKEND_SHM_RING
  | ZIPC_DESCRIPTOR_BACKEND_RPMSG
  | ZIPC_DESCRIPTOR_BACKEND_SHARED_MAILBOX
  | ZIPC_DESCRIPTOR_BACKEND_XEN_RING
  | ZIPC_DESCRIPTOR_BACKEND_PL_RING
  | ZIPC_DESCRIPTOR_BACKEND_SECURE_CALL

datatype zipc_event_backend_type =
    ZIPC_EVENT_BACKEND_NONE
  | ZIPC_EVENT_BACKEND_INTEGRATED
  | ZIPC_EVENT_BACKEND_EVENTFD
  | ZIPC_EVENT_BACKEND_SHM_POLLING
  | ZIPC_EVENT_BACKEND_TASK_NOTIFICATION
  | ZIPC_EVENT_BACKEND_IPI
  | ZIPC_EVENT_BACKEND_XEN_EVENT_CHANNEL
  | ZIPC_EVENT_BACKEND_IRQ
  | ZIPC_EVENT_BACKEND_SYNCHRONOUS_CALL

type_synonym zipc_payload_backend_type = zipc_platform_memory_type

fun transport_roles :: "zipc_platform_transport_type \<Rightarrow> zipc_descriptor_backend_type \<times> zipc_event_backend_type" where
  "transport_roles ZIPC_TRANSPORT_MESSAGE_QUEUE = (ZIPC_DESCRIPTOR_BACKEND_MESSAGE_QUEUE, ZIPC_EVENT_BACKEND_INTEGRATED)"
| "transport_roles ZIPC_TRANSPORT_UNIX_DGRAM = (ZIPC_DESCRIPTOR_BACKEND_UNIX_DGRAM, ZIPC_EVENT_BACKEND_INTEGRATED)"
| "transport_roles ZIPC_TRANSPORT_FIFO = (ZIPC_DESCRIPTOR_BACKEND_FIFO, ZIPC_EVENT_BACKEND_INTEGRATED)"
| "transport_roles ZIPC_TRANSPORT_SHM_RING_EVENTFD = (ZIPC_DESCRIPTOR_BACKEND_SHM_RING, ZIPC_EVENT_BACKEND_EVENTFD)"
| "transport_roles ZIPC_TRANSPORT_SHM_RING_POLLING = (ZIPC_DESCRIPTOR_BACKEND_SHM_RING, ZIPC_EVENT_BACKEND_SHM_POLLING)"
| "transport_roles ZIPC_TRANSPORT_RPMSG = (ZIPC_DESCRIPTOR_BACKEND_RPMSG, ZIPC_EVENT_BACKEND_INTEGRATED)"
| "transport_roles ZIPC_TRANSPORT_TASK_NOTIFICATION = (ZIPC_DESCRIPTOR_BACKEND_SHARED_MAILBOX, ZIPC_EVENT_BACKEND_TASK_NOTIFICATION)"
| "transport_roles ZIPC_TRANSPORT_IPI = (ZIPC_DESCRIPTOR_BACKEND_SHARED_MAILBOX, ZIPC_EVENT_BACKEND_IPI)"
| "transport_roles ZIPC_TRANSPORT_XEN_RING_EVTCHN = (ZIPC_DESCRIPTOR_BACKEND_XEN_RING, ZIPC_EVENT_BACKEND_XEN_EVENT_CHANNEL)"
| "transport_roles ZIPC_TRANSPORT_PL_RING_IRQ = (ZIPC_DESCRIPTOR_BACKEND_PL_RING, ZIPC_EVENT_BACKEND_IRQ)"
| "transport_roles ZIPC_TRANSPORT_SMC = (ZIPC_DESCRIPTOR_BACKEND_SECURE_CALL, ZIPC_EVENT_BACKEND_SYNCHRONOUS_CALL)"
| "transport_roles ZIPC_TRANSPORT_FFA = (ZIPC_DESCRIPTOR_BACKEND_SECURE_CALL, ZIPC_EVENT_BACKEND_SYNCHRONOUS_CALL)"

text \<open>The result holds what is written to \<open>descriptor\<close> and \<open>event\<close>.\<close>

definition zipc_transport_backend_roles ::
  "zipc_platform_transport_type option \<Rightarrow> bool \<Rightarrow> bool \<Rightarrow>
   zipc_status \<times> (zipc_descriptor_backend_type \<times> zipc_event_backend_type) option" where
  "zipc_transport_backend_roles transport descriptor event =
     (if \<not> descriptor \<or> \<not> event then (ZIPC_ERR_INVALID_ARGUMENT, None)
      else case transport of None \<Rightarrow> (ZIPC_ERR_TRANSPORT, None) | Some ty \<Rightarrow> (ZIPC_OK, Some (transport_roles ty)))"

fun zipc_payload_backend_name :: "zipc_payload_backend_type option \<Rightarrow> string" where
  "zipc_payload_backend_name (Some ZIPC_SHM_POSIX) = ''posix-shm''"
| "zipc_payload_backend_name (Some ZIPC_SHM_HUGEPAGES) = ''hugepages''"
| "zipc_payload_backend_name (Some ZIPC_SHM_DTREVMEM_CACHED) = ''dtrevmem-cached''"
| "zipc_payload_backend_name (Some ZIPC_SHM_DTREVMEM_UNCACHED) = ''dtrevmem-uncached''"
| "zipc_payload_backend_name (Some ZIPC_SHM_XEN_STATIC) = ''xen-static''"
| "zipc_payload_backend_name (Some ZIPC_SHM_PREALLOCATED) = ''preallocated''"
| "zipc_payload_backend_name None = ''unknown''"

fun zipc_descriptor_backend_name :: "zipc_descriptor_backend_type option \<Rightarrow> string" where
  "zipc_descriptor_backend_name (Some ZIPC_DESCRIPTOR_BACKEND_NONE) = ''none''"
| "zipc_descriptor_backend_name (Some ZIPC_DESCRIPTOR_BACKEND_MESSAGE_QUEUE) = ''message-queue''"
| "zipc_descriptor_backend_name (Some ZIPC_DESCRIPTOR_BACKEND_UNIX_DGRAM) = ''unix-dgram''"
| "zipc_descriptor_backend_name (Some ZIPC_DESCRIPTOR_BACKEND_FIFO) = ''fifo''"
| "zipc_descriptor_backend_name (Some ZIPC_DESCRIPTOR_BACKEND_SHM_RING) = ''shm-ring''"
| "zipc_descriptor_backend_name (Some ZIPC_DESCRIPTOR_BACKEND_RPMSG) = ''rpmsg''"
| "zipc_descriptor_backend_name (Some ZIPC_DESCRIPTOR_BACKEND_SHARED_MAILBOX) = ''shared-mailbox''"
| "zipc_descriptor_backend_name (Some ZIPC_DESCRIPTOR_BACKEND_XEN_RING) = ''xen-ring''"
| "zipc_descriptor_backend_name (Some ZIPC_DESCRIPTOR_BACKEND_PL_RING) = ''pl-ring''"
| "zipc_descriptor_backend_name (Some ZIPC_DESCRIPTOR_BACKEND_SECURE_CALL) = ''secure-call''"
| "zipc_descriptor_backend_name None = ''unknown''"

fun zipc_event_backend_name :: "zipc_event_backend_type option \<Rightarrow> string" where
  "zipc_event_backend_name (Some ZIPC_EVENT_BACKEND_NONE) = ''none''"
| "zipc_event_backend_name (Some ZIPC_EVENT_BACKEND_INTEGRATED) = ''integrated''"
| "zipc_event_backend_name (Some ZIPC_EVENT_BACKEND_EVENTFD) = ''eventfd''"
| "zipc_event_backend_name (Some ZIPC_EVENT_BACKEND_SHM_POLLING) = ''shm-polling''"
| "zipc_event_backend_name (Some ZIPC_EVENT_BACKEND_TASK_NOTIFICATION) = ''task-notification''"
| "zipc_event_backend_name (Some ZIPC_EVENT_BACKEND_IPI) = ''ipi''"
| "zipc_event_backend_name (Some ZIPC_EVENT_BACKEND_XEN_EVENT_CHANNEL) = ''xen-event-channel''"
| "zipc_event_backend_name (Some ZIPC_EVENT_BACKEND_IRQ) = ''irq''"
| "zipc_event_backend_name (Some ZIPC_EVENT_BACKEND_SYNCHRONOUS_CALL) = ''synchronous-call''"
| "zipc_event_backend_name None = ''unknown''"

subsection \<open>Consistency\<close>

text \<open>A name identifies its backend.\<close>

lemma backend_names_distinct: "inj zipc_payload_backend_name" "inj zipc_descriptor_backend_name" "inj zipc_event_backend_name"
proof -
  have "zipc_payload_backend_name x = zipc_payload_backend_name y \<Longrightarrow> x = y" for x y
    by (cases x rule: zipc_payload_backend_name.cases; cases y rule: zipc_payload_backend_name.cases) simp_all
  then show "inj zipc_payload_backend_name" by (rule injI)
  have "zipc_descriptor_backend_name x = zipc_descriptor_backend_name y \<Longrightarrow> x = y" for x y
    by (cases x rule: zipc_descriptor_backend_name.cases; cases y rule: zipc_descriptor_backend_name.cases) simp_all
  then show "inj zipc_descriptor_backend_name" by (rule injI)
  have "zipc_event_backend_name x = zipc_event_backend_name y \<Longrightarrow> x = y" for x y
    by (cases x rule: zipc_event_backend_name.cases; cases y rule: zipc_event_backend_name.cases) simp_all
  then show "inj zipc_event_backend_name" by (rule injI)
qed

text \<open>The links recover over exactly the transports whose descriptor role is the shared ring.\<close>

lemma recoverable_roles: "ring_type ty \<longleftrightarrow> fst (transport_roles ty) = ZIPC_DESCRIPTOR_BACKEND_SHM_RING"
  by (cases ty) (simp_all add: ring_type_def)

text \<open>The Linux port reports a descriptor as published though its send failed only for transports
  that are woken separately, or that write a stream and may stop in the middle of a descriptor.\<close>

lemma published_needs_event:
  assumes "zipc_platform_transport_send (Some t) m h = (ZIPC_ERR_TRANSPORT_PUBLISHED, h')"
  shows "transport_roles (tr_type (lh_transport h t)) \<in>
    {(ZIPC_DESCRIPTOR_BACKEND_FIFO, ZIPC_EVENT_BACKEND_INTEGRATED), (ZIPC_DESCRIPTOR_BACKEND_RPMSG, ZIPC_EVENT_BACKEND_INTEGRATED),
     (ZIPC_DESCRIPTOR_BACKEND_SHM_RING, ZIPC_EVENT_BACKEND_EVENTFD), (ZIPC_DESCRIPTOR_BACKEND_SHARED_MAILBOX, ZIPC_EVENT_BACKEND_IPI),
     (ZIPC_DESCRIPTOR_BACKEND_PL_RING, ZIPC_EVENT_BACKEND_IRQ), (ZIPC_DESCRIPTOR_BACKEND_SECURE_CALL, ZIPC_EVENT_BACKEND_SYNCHRONOUS_CALL)}"
proof -
  have "push_descriptor a d g \<noteq> (ZIPC_ERR_TRANSPORT_PUBLISHED, g')" for a d g g'
    by (auto simp: push_descriptor_def zipc_linux_common_ring_push_def Let_def split: option.splits if_splits)
  then show ?thesis
    using assms
    by (cases m; cases "tr_type (lh_transport h t)")
      (auto simp: zipc_platform_transport_send_def os_call_eq Let_def split: if_splits prod.splits)
qed

end
