(* ===== verification/Topology.thy ===== *)
theory Topology
  imports Link_Channel
begin

text \<open>
  The topology registry of \<^verbatim>\<open>zipc.c\<close>: bindings of pools and transports to names, declarative link
  entries with their validation and duplicate policy, the parser of the configuration text, and the
  opening of a link by name. The file loader of \<^verbatim>\<open>zipc-topology-file.c\<close> reads through an argument.
\<close>

subsection \<open>The registry\<close>

definition ZIPC_TOPOLOGY_NAME_MAX :: nat where "ZIPC_TOPOLOGY_NAME_MAX = 63"
definition ZIPC_TOPOLOGY_MAX_LINKS :: nat where "ZIPC_TOPOLOGY_MAX_LINKS = 64"
definition ZIPC_TOPOLOGY_MAX_POOLS :: nat where "ZIPC_TOPOLOGY_MAX_POOLS = 32"
definition ZIPC_TOPOLOGY_MAX_TRANSPORTS :: nat where "ZIPC_TOPOLOGY_MAX_TRANSPORTS = 64"

datatype zipc_topology_policy = ZIPC_TOPOLOGY_REJECT_DUPLICATES | ZIPC_TOPOLOGY_EXTEND | ZIPC_TOPOLOGY_OVERRIDE

record zipc_topology_link_config =
  tl_name :: "string option"
  tl_link_id :: u64
  tl_pool_name :: "string option"
  tl_transport_name :: "string option"
  tl_local_component :: zipc_component_id
  tl_remote_component :: zipc_component_id
  tl_local_epoch :: u32
  tl_role :: zipc_link_role
  tl_hop_limit :: u32
  tl_default_deadline_ns :: u64
  tl_timeout_ticks :: u32

record zipc_topology_link_entry =
  en_name :: string
  en_link_id :: u64
  en_pool_name :: string
  en_transport_name :: string
  en_local_component :: zipc_component_id
  en_remote_component :: zipc_component_id
  en_local_epoch :: u32
  en_role :: zipc_link_role
  en_hop_limit :: u32
  en_default_deadline_ns :: u64
  en_timeout_ticks :: u32

record zipc_link_definition =
  ld_name :: "string option"
  ld_config :: zipc_link_config

text \<open>The static tables; their counts are the lengths of the lists.\<close>

record topology =
  tp_legacy :: "zipc_link_definition list"
  tp_pools :: "(string \<times> zipc_pool) list"
  tp_transports :: "(string \<times> zipc_platform_transport_config) list"
  tp_links :: "zipc_topology_link_entry list"

definition topology_name_valid :: "string option \<Rightarrow> bool" where
  "topology_name_valid name \<longleftrightarrow> name \<noteq> None \<and> the name \<noteq> [] \<and> length (the name) \<le> ZIPC_TOPOLOGY_NAME_MAX"

definition topology_find_pool :: "topology \<Rightarrow> string \<Rightarrow> zipc_pool option" where
  "topology_find_pool tp name = map_of (tp_pools tp) name"

definition topology_find_transport :: "topology \<Rightarrow> string \<Rightarrow> zipc_platform_transport_config option" where
  "topology_find_transport tp name = map_of (tp_transports tp) name"

fun find_index :: "('a \<Rightarrow> bool) \<Rightarrow> 'a list \<Rightarrow> nat option" where
  "find_index P [] = None"
| "find_index P (x # xs) = (if P x then Some 0 else map_option Suc (find_index P xs))"

definition topology_find_link_index :: "topology \<Rightarrow> string \<Rightarrow> nat option" where
  "topology_find_link_index tp name = find_index (\<lambda>e. en_name e = name) (tp_links tp)"

definition zipc_topology_reset :: "topology \<Rightarrow> topology" where
  "zipc_topology_reset tp = \<lparr>tp_legacy = [], tp_pools = [], tp_transports = [], tp_links = []\<rparr>"

text \<open>A binding of a known name is replaced in place, a new one is appended.\<close>

definition bind_name :: "nat \<Rightarrow> string \<Rightarrow> 'a \<Rightarrow> (string \<times> 'a) list \<Rightarrow> zipc_status \<times> (string \<times> 'a) list" where
  "bind_name capacity name x table =
     (case find_index (\<lambda>b. fst b = name) table of
        Some i \<Rightarrow> (ZIPC_OK, table[i := (name, x)])
      | None \<Rightarrow>
          if length table \<ge> capacity then (ZIPC_ERR_NO_BUFFER, table)
          else (ZIPC_OK, table @ [(take ZIPC_TOPOLOGY_NAME_MAX name, x)]))"

definition zipc_topology_bind_pool :: "string option \<Rightarrow> zipc_pool option \<Rightarrow> topology \<Rightarrow> zipc_status \<times> topology" where
  "zipc_topology_bind_pool name pool tp =
     (if \<not> topology_name_valid name \<or> pool = None then (ZIPC_ERR_INVALID_ARGUMENT, tp)
      else case bind_name ZIPC_TOPOLOGY_MAX_POOLS (the name) (the pool) (tp_pools tp) of
             (status, table) \<Rightarrow> (status, tp\<lparr>tp_pools := table\<rparr>))"

definition zipc_topology_bind_transport ::
  "string option \<Rightarrow> zipc_platform_transport_config option \<Rightarrow> topology \<Rightarrow> zipc_status \<times> topology" where
  "zipc_topology_bind_transport name transport tp =
     (if \<not> topology_name_valid name \<or> transport = None then (ZIPC_ERR_INVALID_ARGUMENT, tp)
      else case bind_name ZIPC_TOPOLOGY_MAX_TRANSPORTS (the name) (the transport) (tp_transports tp) of
             (status, table) \<Rightarrow> (status, tp\<lparr>tp_transports := table\<rparr>))"

subsection \<open>Declarative links\<close>

definition link_config_ok :: "topology \<Rightarrow> zipc_topology_link_config \<Rightarrow> bool" where
  "link_config_ok tp l \<longleftrightarrow>
     topology_name_valid (tl_name l) \<and> topology_name_valid (tl_pool_name l) \<and> topology_name_valid (tl_transport_name l) \<and>
     tl_link_id l \<noteq> 0 \<and> zipc_component_id_valid (tl_local_component l) \<and> zipc_component_id_valid (tl_remote_component l) \<and>
     tl_local_component l \<noteq> tl_remote_component l \<and>
     topology_find_pool tp (the (tl_pool_name l)) \<noteq> None \<and> topology_find_transport tp (the (tl_transport_name l)) \<noteq> None"

text \<open>The loop over the links: each is checked on its own, then against those that follow. A link that
  follows may still have no name (the code hands the null pointer to \<open>strcmp\<close>): here such a name is
  different, and the link fails its own check. A role outside its enumeration does not exist here.\<close>

fun validate_links :: "topology \<Rightarrow> zipc_topology_link_config list \<Rightarrow> bool" where
  "validate_links tp [] \<longleftrightarrow> True"
| "validate_links tp (l # ls) \<longleftrightarrow>
     link_config_ok tp l \<and> \<not> (\<exists>k \<in> set ls. tl_name l = tl_name k \<or> tl_link_id l \<noteq> 0 \<and> tl_link_id l = tl_link_id k) \<and>
     validate_links tp ls"

definition zipc_topology_validate :: "topology \<Rightarrow> zipc_topology_link_config list option \<Rightarrow> zipc_status" where
  "zipc_topology_validate tp config =
     (case config of
        None \<Rightarrow> ZIPC_ERR_INVALID_ARGUMENT
      | Some links \<Rightarrow>
          if links = [] \<or> length links > ZIPC_TOPOLOGY_MAX_LINKS then ZIPC_ERR_INVALID_ARGUMENT
          else if validate_links tp links then ZIPC_OK else ZIPC_ERR_INVALID_ARGUMENT)"

definition topology_copy_link :: "zipc_topology_link_config \<Rightarrow> zipc_topology_link_entry" where
  "topology_copy_link src =
     \<lparr>en_name = take ZIPC_TOPOLOGY_NAME_MAX (the (tl_name src)), en_link_id = tl_link_id src,
      en_pool_name = take ZIPC_TOPOLOGY_NAME_MAX (the (tl_pool_name src)),
      en_transport_name = take ZIPC_TOPOLOGY_NAME_MAX (the (tl_transport_name src)),
      en_local_component = tl_local_component src, en_remote_component = tl_remote_component src,
      en_local_epoch = tl_local_epoch src, en_role = tl_role src, en_hop_limit = tl_hop_limit src,
      en_default_deadline_ns = tl_default_deadline_ns src, en_timeout_ticks = tl_timeout_ticks src\<rparr>"

definition register_link :: "zipc_topology_policy \<Rightarrow> zipc_topology_link_config \<Rightarrow> topology \<Rightarrow> zipc_status \<times> topology" where
  "register_link policy src tp =
     (case topology_find_link_index tp (the (tl_name src)) of
        Some i \<Rightarrow>
          if policy \<noteq> ZIPC_TOPOLOGY_OVERRIDE then (ZIPC_ERR_INVALID_ARGUMENT, tp)
          else (ZIPC_OK, tp\<lparr>tp_links := (tp_links tp)[i := topology_copy_link src]\<rparr>)
      | None \<Rightarrow>
          (case (if tl_link_id src \<noteq> 0 then find_index (\<lambda>e. en_link_id e = tl_link_id src) (tp_links tp) else None) of
             Some j \<Rightarrow>
               if policy \<noteq> ZIPC_TOPOLOGY_OVERRIDE then (ZIPC_ERR_INVALID_ARGUMENT, tp)
               else (ZIPC_OK, tp\<lparr>tp_links := (tp_links tp)[j := topology_copy_link src]\<rparr>)
           | None \<Rightarrow>
               if length (tp_links tp) \<ge> ZIPC_TOPOLOGY_MAX_LINKS then (ZIPC_ERR_NO_BUFFER, tp)
               else (ZIPC_OK, tp\<lparr>tp_links := tp_links tp @ [topology_copy_link src]\<rparr>)))"

fun register_links :: "zipc_topology_policy \<Rightarrow> zipc_topology_link_config list \<Rightarrow> topology \<Rightarrow> zipc_status \<times> topology" where
  "register_links policy [] tp = (ZIPC_OK, tp)"
| "register_links policy (l # ls) tp =
     (case register_link policy l tp of
        (status, tp) \<Rightarrow> if status \<noteq> ZIPC_OK then (status, tp) else register_links policy ls tp)"

text \<open>A policy outside its enumeration is \<open>None\<close>.\<close>

definition zipc_topology_register_config ::
  "zipc_topology_link_config list option \<Rightarrow> zipc_topology_policy option \<Rightarrow> topology \<Rightarrow> zipc_status \<times> topology" where
  "zipc_topology_register_config config policy tp =
     (let status = zipc_topology_validate tp config in
      if status \<noteq> ZIPC_OK then (status, tp)
      else case policy of
             None \<Rightarrow> (ZIPC_ERR_INVALID_ARGUMENT, tp)
           | Some pol \<Rightarrow> register_links pol (the config) tp)"

subsection \<open>The configuration text\<close>

definition topology_space :: "char \<Rightarrow> bool" where
  "topology_space c \<longleftrightarrow> c = CHR 0x20 \<or> c = CHR 0x09 \<or> c = CHR 0x0D \<or> c = CHR 0x0A"

definition topology_trim :: "string \<Rightarrow> string" where
  "topology_trim s = rev (dropWhile topology_space (rev (dropWhile topology_space s)))"

text \<open>\<open>strtoull\<close> with base 0: white space, a sign, a prefix that selects the base, and the longest
  run of digits, saturated on overflow and negated modulo \<open>2 ^ 64\<close>. The result is \<open>None\<close> when nothing
  was converted, else the value and the rest.\<close>

definition c_space :: "char \<Rightarrow> bool" where
  "c_space c \<longleftrightarrow> c = CHR 0x20 \<or> c = CHR 0x09 \<or> c = CHR 0x0A \<or> c = CHR 0x0B \<or> c = CHR 0x0C \<or> c = CHR 0x0D"

definition digit_value :: "char \<Rightarrow> nat" where
  "digit_value c =
     (let n = of_char c in
      if 48 \<le> n \<and> n \<le> 57 then n - 48
      else if 97 \<le> n \<and> n \<le> 122 then n - 87
      else if 65 \<le> n \<and> n \<le> 90 then n - 55 else 36)"

definition is_digit :: "nat \<Rightarrow> char \<Rightarrow> bool" where
  "is_digit base c \<longleftrightarrow> digit_value c < base"

definition digits_value :: "nat \<Rightarrow> string \<Rightarrow> nat" where
  "digits_value base ds = foldl (\<lambda>n c. n * base + digit_value c) 0 ds"

definition number_base :: "string \<Rightarrow> nat \<times> string" where
  "number_base s =
     (case s of
        c # x # d # rest \<Rightarrow>
          if c = CHR ''0'' \<and> (x = CHR ''x'' \<or> x = CHR ''X'') \<and> is_digit 16 d then (16, d # rest)
          else if c = CHR ''0'' then (8, s) else (10, s)
      | c # rest \<Rightarrow> if c = CHR ''0'' then (8, s) else (10, s)
      | [] \<Rightarrow> (10, s))"

definition strtoull :: "string \<Rightarrow> (u64 \<times> string) option" where
  "strtoull s =
     (let s = dropWhile c_space s;
          negative = (case s of c # _ \<Rightarrow> c = CHR ''-'' | [] \<Rightarrow> False);
          s = (case s of c # rest \<Rightarrow> if c = CHR ''-'' \<or> c = CHR ''+'' then rest else s | [] \<Rightarrow> s);
          (base, s) = number_base s;
          ds = takeWhile (is_digit base) s;
          n = digits_value base ds
      in if ds = [] then None
         else Some (if n > unat UINT64_MAX then UINT64_MAX else if negative then - of_nat n else of_nat n,
                    dropWhile (is_digit base) s))"

definition topology_parse_u64 :: "string \<Rightarrow> u64 option" where
  "topology_parse_u64 s =
     (if s = [] then None
      else case strtoull s of
             None \<Rightarrow> None
           | Some (v, rest) \<Rightarrow> if topology_trim rest \<noteq> [] then None else Some v)"

text \<open>\<open>strtok\<close> with the newline as the only delimiter.\<close>

function strtok_lines :: "string \<Rightarrow> string list" where
  "strtok_lines s =
     (let t = dropWhile (\<lambda>c. c = CHR 0x0A) s in
      if t = [] then [] else takeWhile (\<lambda>c. c \<noteq> CHR 0x0A) t # strtok_lines (dropWhile (\<lambda>c. c \<noteq> CHR 0x0A) t))"
  by pat_completeness auto

lemma strtok_rest_shorter:
  assumes "t = dropWhile (\<lambda>c. c = CHR 0x0A) s" "t \<noteq> []"
  shows "length (dropWhile (\<lambda>c. c \<noteq> CHR 0x0A) t) < length s"
proof -
  obtain c cs where t: "t = c # cs" using assms(2) by (cases t) auto
  then have "c \<noteq> CHR 0x0A" using assms hd_dropWhile [of "\<lambda>c. c = CHR 0x0A" s] by auto
  then have "length (dropWhile (\<lambda>c. c \<noteq> CHR 0x0A) t) \<le> length cs" using t by (simp add: length_dropWhile_le)
  then show ?thesis using t assms(1) length_dropWhile_le [of "\<lambda>c. c = CHR 0x0A" s] by simp
qed

termination strtok_lines
  by (relation "measure length") (simp, use strtok_rest_shorter in auto)

declare strtok_lines.simps [simp del]

definition narrow :: "u64 \<Rightarrow> string \<Rightarrow> u64 option" where
  "narrow limit value = (case topology_parse_u64 value of None \<Rightarrow> None | Some n \<Rightarrow> if n > limit then None else Some n)"

text \<open>One assignment to the current link; \<open>None\<close> is the jump to \<open>parse_error\<close>.\<close>

definition assign_field :: "string \<Rightarrow> string \<Rightarrow> zipc_topology_link_config \<Rightarrow> zipc_topology_link_config option" where
  "assign_field key value l =
     (if key = ''id'' \<or> key = ''link_id'' then map_option (\<lambda>n. l\<lparr>tl_link_id := n\<rparr>) (topology_parse_u64 value)
      else if key = ''pool'' then (if topology_name_valid (Some value) then Some (l\<lparr>tl_pool_name := Some (take ZIPC_TOPOLOGY_NAME_MAX value)\<rparr>) else None)
      else if key = ''transport'' then (if topology_name_valid (Some value) then Some (l\<lparr>tl_transport_name := Some (take ZIPC_TOPOLOGY_NAME_MAX value)\<rparr>) else None)
      else if key = ''local'' \<or> key = ''local_component'' then map_option (\<lambda>n. l\<lparr>tl_local_component := ucast n\<rparr>) (narrow 0xFFFF value)
      else if key = ''remote'' \<or> key = ''remote_component'' then map_option (\<lambda>n. l\<lparr>tl_remote_component := ucast n\<rparr>) (narrow 0xFFFF value)
      else if key = ''local_epoch'' then map_option (\<lambda>n. l\<lparr>tl_local_epoch := ucast n\<rparr>) (narrow (ucast UINT32_MAX) value)
      else if key = ''role''
      then if value = ''producer'' then Some (l\<lparr>tl_role := ZIPC_LINK_ROLE_PRODUCER\<rparr>)
           else if value = ''consumer'' then Some (l\<lparr>tl_role := ZIPC_LINK_ROLE_CONSUMER\<rparr>)
           else None
      else if key = ''hop_limit'' then map_option (\<lambda>n. l\<lparr>tl_hop_limit := ucast n\<rparr>) (narrow (ucast UINT32_MAX) value)
      else if key = ''default_deadline_ns'' then map_option (\<lambda>n. l\<lparr>tl_default_deadline_ns := n\<rparr>) (topology_parse_u64 value)
      else if key = ''timeout_ticks'' then map_option (\<lambda>n. l\<lparr>tl_timeout_ticks := ucast n\<rparr>) (narrow (ucast UINT32_MAX) value)
      else None)"

definition empty_link :: "string \<Rightarrow> zipc_topology_link_config" where
  "empty_link name =
     \<lparr>tl_name = Some name, tl_link_id = 0, tl_pool_name = None, tl_transport_name = None, tl_local_component = 0,
      tl_remote_component = 0, tl_local_epoch = 0, tl_role = ZIPC_LINK_ROLE_UNSPECIFIED, tl_hop_limit = 0,
      tl_default_deadline_ns = 0, tl_timeout_ticks = 0\<rparr>"

text \<open>The state of the parser: the links so far, and whether the last of them is the current one.\<close>

type_synonym parse_state = "zipc_topology_link_config list \<times> bool"

definition parse_section :: "string \<Rightarrow> parse_state \<Rightarrow> parse_state option" where
  "parse_section p ps =
     (if CHR '']'' \<notin> set p then None
      else
        let section_name = topology_trim (takeWhile (\<lambda>c. c \<noteq> CHR '']'') (tl p)) in
        if take 5 section_name = ''link.'' \<or> take 5 section_name = ''link ''
        then
          let name = topology_trim (drop 5 section_name) in
          if \<not> topology_name_valid (Some name) \<or> length (fst ps) \<ge> ZIPC_TOPOLOGY_MAX_LINKS then None
          else Some (fst ps @ [empty_link (take ZIPC_TOPOLOGY_NAME_MAX name)], True)
        else Some (fst ps, False))"

definition parse_line :: "string \<Rightarrow> parse_state \<Rightarrow> parse_state option" where
  "parse_line line ps =
     (let p = topology_trim line in
      if p = [] \<or> hd p = CHR ''#'' \<or> hd p = CHR '';'' then Some ps
      else if hd p = CHR ''['' then parse_section p ps
      else if \<not> snd ps then Some ps
      else if CHR ''='' \<notin> set p then None
      else
        let key = topology_trim (takeWhile (\<lambda>c. c \<noteq> CHR ''='') p);
            value = topology_trim (tl (dropWhile (\<lambda>c. c \<noteq> CHR ''='') p))
        in map_option (\<lambda>l. (butlast (fst ps) @ [l], True)) (assign_field key value (last (fst ps))))"

fun parse_lines :: "string list \<Rightarrow> parse_state \<Rightarrow> parse_state option" where
  "parse_lines [] ps = Some ps"
| "parse_lines (l # ls) ps = (case parse_line l ps of None \<Rightarrow> None | Some ps \<Rightarrow> parse_lines ls ps)"

text \<open>\<open>strtok\<close> sees the text up to its first NUL. The copy is released on every path.\<close>

definition zipc_topology_load_string ::
  "'w platform_ops \<Rightarrow> string option \<Rightarrow> zipc_topology_policy option \<Rightarrow> topology \<Rightarrow> 'w \<Rightarrow> zipc_status \<times> topology \<times> 'w" where
  "zipc_topology_load_string pf text_in policy tp w =
     (case text_in of
        None \<Rightarrow> (ZIPC_ERR_INVALID_ARGUMENT, tp, w)
      | Some txt \<Rightarrow>
          if txt = [] then (ZIPC_ERR_INVALID_ARGUMENT, tp, w)
          else
            let (copy, w) = op_alloc pf w in
            if copy = None then (ZIPC_ERR_PLATFORM, tp, w)
            else
              (case parse_lines (strtok_lines (takeWhile (\<lambda>c. c \<noteq> CHR 0x00) txt)) ([], False) of
                 None \<Rightarrow> (ZIPC_ERR_INVALID_ARGUMENT, tp, op_free pf copy w)
               | Some (links, _) \<Rightarrow>
                   if links = [] then (ZIPC_ERR_INVALID_ARGUMENT, tp, op_free pf copy w)
                   else (case zipc_topology_register_config (Some links) policy tp of
                           (status, tp) \<Rightarrow> (status, tp, op_free pf copy w))))"

text \<open>What the C library returns for the file: whether it opens, seeks and rewinds, its length, whether
  memory is left, and the bytes read.\<close>

record file_io =
  fi_open :: bool
  fi_seek_end :: bool
  fi_tell :: int
  fi_rewind :: bool
  fi_malloc :: bool
  fi_read :: string

definition zipc_topology_load_file ::
  "'w platform_ops \<Rightarrow> string option \<Rightarrow> file_io \<Rightarrow> zipc_topology_policy option \<Rightarrow> topology \<Rightarrow> 'w \<Rightarrow> zipc_status \<times> topology \<times> 'w" where
  "zipc_topology_load_file pf filename f policy tp w =
     (if filename = None \<or> filename = Some [] then (ZIPC_ERR_INVALID_ARGUMENT, tp, w)
      else if \<not> fi_open f then (ZIPC_ERR_PLATFORM, tp, w)
      else if \<not> fi_seek_end f then (ZIPC_ERR_PLATFORM, tp, w)
      else if fi_tell f \<le> 0 \<or> \<not> fi_rewind f then (ZIPC_ERR_INVALID_ARGUMENT, tp, w)
      else if \<not> fi_malloc f then (ZIPC_ERR_PLATFORM, tp, w)
      else if int (length (fi_read f)) \<noteq> fi_tell f then (ZIPC_ERR_PLATFORM, tp, w)
      else zipc_topology_load_string pf (Some (fi_read f)) policy tp w)"

subsection \<open>Legacy definitions and opening by name\<close>

definition definition_ok :: "zipc_link_definition \<Rightarrow> bool" where
  "definition_ok d \<longleftrightarrow> ld_name d \<noteq> None \<and> lc_pool (ld_config d) \<noteq> None \<and>
     zipc_component_id_valid (lc_local_component (ld_config d)) \<and> zipc_component_id_valid (lc_remote_component (ld_config d)) \<and>
     lc_local_component (ld_config d) \<noteq> lc_remote_component (ld_config d)"

fun validate_definitions :: "zipc_link_definition list \<Rightarrow> bool" where
  "validate_definitions [] \<longleftrightarrow> True"
| "validate_definitions (d # ds) \<longleftrightarrow>
     definition_ok d \<and> \<not> (\<exists>e \<in> set ds. ld_name e \<noteq> None \<and> ld_name d = ld_name e) \<and> validate_definitions ds"

definition zipc_topology_register :: "zipc_link_definition list option \<Rightarrow> topology \<Rightarrow> zipc_status \<times> topology" where
  "zipc_topology_register definitions tp =
     (case definitions of
        None \<Rightarrow> (ZIPC_ERR_INVALID_ARGUMENT, tp)
      | Some ds \<Rightarrow>
          if ds = [] then (ZIPC_ERR_INVALID_ARGUMENT, tp)
          else if validate_definitions ds then (ZIPC_OK, tp\<lparr>tp_legacy := ds\<rparr>) else (ZIPC_ERR_INVALID_ARGUMENT, tp))"

definition entry_config :: "zipc_topology_link_entry \<Rightarrow> zipc_pool \<Rightarrow> zipc_platform_transport_config \<Rightarrow> zipc_link_config" where
  "entry_config e pool transport =
     \<lparr>lc_pool = Some pool, lc_local_component = en_local_component e, lc_remote_component = en_remote_component e,
      lc_link_id = en_link_id e, lc_local_epoch = en_local_epoch e, lc_role = en_role e, lc_hop_limit = en_hop_limit e,
      lc_default_deadline_ns = en_default_deadline_ns e, lc_timeout_ticks = en_timeout_ticks e, lc_transport = transport\<rparr>"

definition zipc_link_open ::
  "'w platform_ops \<Rightarrow> bool \<Rightarrow> string option \<Rightarrow> topology \<Rightarrow> sys \<Rightarrow> 'w \<Rightarrow> zipc_status \<times> zipc_link option \<times> 'w" where
  "zipc_link_open pf link_out name tp s w =
     (if \<not> link_out \<or> name = None then (ZIPC_ERR_INVALID_ARGUMENT, None, w)
      else
        (case topology_find_link_index tp (the name) of
           Some i \<Rightarrow>
             let e = tp_links tp ! i in
             (case (topology_find_pool tp (en_pool_name e), topology_find_transport tp (en_transport_name e)) of
                (Some pool, Some transport) \<Rightarrow> zipc_link_create pf True (Some (entry_config e pool transport)) s w
              | _ \<Rightarrow> (ZIPC_ERR_INVALID_ARGUMENT, None, w))
         | None \<Rightarrow>
             (case find (\<lambda>d. ld_name d = name) (tp_legacy tp) of
                Some d \<Rightarrow> zipc_link_create pf True (Some (ld_config d)) s w
              | None \<Rightarrow> (ZIPC_ERR_INVALID_ARGUMENT, None, w))))"

end
