(* ===== verification/Topology_Properties.thy ===== *)
theory Topology_Properties
  imports Topology Link_Properties
begin

text \<open>
  The registry keeps its invariant through every operation, so that a registered link always resolves;
  a printed topology is loaded back as it was; and what the duplicate policy and the number syntax let
  through.
\<close>

subsection \<open>Tables\<close>

lemma find_index_Some: "find_index P xs = Some i \<longleftrightarrow> i < length xs \<and> P (xs ! i) \<and> (\<forall>j < i. \<not> P (xs ! j))"
proof (induction xs arbitrary: i)
  case (Cons x xs)
  show ?case
  proof (cases i)
    case (Suc k)
    then show ?thesis using Cons [of k] by (auto simp: less_Suc_eq_0_disj)
  qed auto
qed simp

lemma find_index_None: "find_index P xs = None \<longleftrightarrow> (\<forall>x \<in> set xs. \<not> P x)"
  by (induction xs) auto

lemma bind_name_known:
  assumes "find_index (\<lambda>b. fst b = name) table = Some i" "distinct (map fst table)"
  shows "map fst (table[i := (name, x)]) = map fst table" "map_of (table[i := (name, x)]) name = Some x"
proof -
  have i: "i < length table" "fst (table ! i) = name" using assms(1) by (simp_all add: find_index_Some)
  then show same: "map fst (table[i := (name, x)]) = map fst table"
    by (metis fst_conv length_map list_update_id map_update nth_map)
  show "map_of (table[i := (name, x)]) name = Some x"
    using same assms(2) i(1) by (simp add: set_update_memI)
qed

lemma map_of_domain: "map_of xs k \<noteq> None \<longleftrightarrow> k \<in> set (map fst xs)"
  by (simp add: map_of_eq_None_iff)

lemma bind_name_table:
  assumes "bind_name n name x table = (st, table')" "length name \<le> ZIPC_TOPOLOGY_NAME_MAX"
    and "distinct (map fst table)" "length table \<le> n"
  shows "distinct (map fst table')" "length table' \<le> n" "set (map fst table) \<subseteq> set (map fst table')"
    "st = ZIPC_OK \<Longrightarrow> map_of table' name = Some x"
proof -
  have all: "distinct (map fst table') \<and> length table' \<le> n \<and> set (map fst table) \<subseteq> set (map fst table') \<and>
    (st = ZIPC_OK \<longrightarrow> map_of table' name = Some x)"
  proof (cases "find_index (\<lambda>b. fst b = name) table")
    case (Some i)
    then have "table' = table[i := (name, x)]" using assms(1) by (simp add: bind_name_def)
    then show ?thesis using bind_name_known [OF Some assms(3), of x] assms(3,4) by simp
  next
    case None
    then have new: "name \<notin> fst ` set table" by (auto simp: find_index_None)
    then have "map_of table name = None" by (simp add: map_of_eq_None_iff)
    then show ?thesis
      using assms None new by (auto simp: bind_name_def map_add_def split: if_splits)
  qed
  then show "distinct (map fst table')" "length table' \<le> n" "set (map fst table) \<subseteq> set (map fst table')"
    "st = ZIPC_OK \<Longrightarrow> map_of table' name = Some x" by blast+
qed

subsection \<open>The invariant\<close>

definition entry_ok :: "topology \<Rightarrow> zipc_topology_link_entry \<Rightarrow> bool" where
  "entry_ok tp e \<longleftrightarrow> topology_name_valid (Some (en_name e)) \<and> en_link_id e \<noteq> 0 \<and>
     zipc_component_id_valid (en_local_component e) \<and> zipc_component_id_valid (en_remote_component e) \<and>
     en_local_component e \<noteq> en_remote_component e \<and>
     topology_find_pool tp (en_pool_name e) \<noteq> None \<and> topology_find_transport tp (en_transport_name e) \<noteq> None"

definition topology_wf :: "topology \<Rightarrow> bool" where
  "topology_wf tp \<longleftrightarrow> length (tp_pools tp) \<le> ZIPC_TOPOLOGY_MAX_POOLS \<and> length (tp_transports tp) \<le> ZIPC_TOPOLOGY_MAX_TRANSPORTS \<and>
     length (tp_links tp) \<le> ZIPC_TOPOLOGY_MAX_LINKS \<and> distinct (map fst (tp_pools tp)) \<and> distinct (map fst (tp_transports tp)) \<and>
     distinct (map en_name (tp_links tp)) \<and> (\<forall>e \<in> set (tp_links tp). entry_ok tp e)"

lemma entry_ok_mono:
  assumes "\<And>k. topology_find_pool tp k \<noteq> None \<Longrightarrow> topology_find_pool tp' k \<noteq> None"
    and "\<And>k. topology_find_transport tp k \<noteq> None \<Longrightarrow> topology_find_transport tp' k \<noteq> None" "entry_ok tp e"
  shows "entry_ok tp' e"
  using assms unfolding entry_ok_def by blast

lemma bind_pool_wf:
  assumes "topology_wf tp" "zipc_topology_bind_pool name pool tp = (st, tp')"
  shows "topology_wf tp'"
proof (cases "topology_name_valid name \<and> pool \<noteq> None")
  case True
  obtain table where b: "bind_name ZIPC_TOPOLOGY_MAX_POOLS (the name) (the pool) (tp_pools tp) = (st, table)"
    and tp': "tp' = tp\<lparr>tp_pools := table\<rparr>"
    using assms(2) True by (auto simp: zipc_topology_bind_pool_def split: prod.splits)
  have "length (the name) \<le> ZIPC_TOPOLOGY_NAME_MAX" using True by (simp add: topology_name_valid_def)
  note t = bind_name_table [OF b this]
  have "entry_ok tp' e" if "entry_ok tp e" for e
    by (rule entry_ok_mono [OF _ _ that])
      (use t(3) assms(1) in \<open>auto simp: tp' topology_find_pool_def topology_find_transport_def topology_wf_def map_of_domain
        simp del: set_map not_None_eq\<close>)
  then show ?thesis using assms(1) t by (simp add: topology_wf_def tp')
qed (use assms in \<open>auto simp: zipc_topology_bind_pool_def\<close>)

lemma bind_transport_wf:
  assumes "topology_wf tp" "zipc_topology_bind_transport name transport tp = (st, tp')"
  shows "topology_wf tp'"
proof (cases "topology_name_valid name \<and> transport \<noteq> None")
  case True
  obtain table where b: "bind_name ZIPC_TOPOLOGY_MAX_TRANSPORTS (the name) (the transport) (tp_transports tp) = (st, table)"
    and tp': "tp' = tp\<lparr>tp_transports := table\<rparr>"
    using assms(2) True by (auto simp: zipc_topology_bind_transport_def split: prod.splits)
  have "length (the name) \<le> ZIPC_TOPOLOGY_NAME_MAX" using True by (simp add: topology_name_valid_def)
  note t = bind_name_table [OF b this]
  have "entry_ok tp' e" if "entry_ok tp e" for e
    by (rule entry_ok_mono [OF _ _ that])
      (use t(3) assms(1) in \<open>auto simp: tp' topology_find_pool_def topology_find_transport_def topology_wf_def map_of_domain
        simp del: set_map not_None_eq\<close>)
  then show ?thesis using assms(1) t by (simp add: topology_wf_def tp')
qed (use assms in \<open>auto simp: zipc_topology_bind_transport_def\<close>)

lemma copied_entry_ok:
  assumes "link_config_ok tp l"
  shows "entry_ok tp (topology_copy_link l)" "en_name (topology_copy_link l) = the (tl_name l)"
    "en_link_id (topology_copy_link l) = tl_link_id l"
  using assms by (auto simp: link_config_ok_def entry_ok_def topology_copy_link_def topology_name_valid_def)

text \<open>Replacing an entry keeps the names distinct when the new name is the old one or unused.\<close>

lemma distinct_replaced:
  assumes "distinct (map f xs)" "i < length xs" "f y = f (xs ! i) \<or> f y \<notin> f ` set xs"
  shows "distinct (map f (xs[i := y]))"
  using assms
proof (elim disjE)
  assume "f y = f (xs ! i)"
  then have "map f (xs[i := y]) = map f xs" using assms(2) by (metis list_update_id map_update nth_map)
  then show ?thesis using assms(1) by simp
next
  assume "f y \<notin> f ` set xs"
  then show ?thesis using assms(1,2) by (simp add: map_update distinct_list_update)
qed

lemma replaced_entries_ok: "\<forall>e \<in> set xs. P e \<Longrightarrow> P y \<Longrightarrow> \<forall>e \<in> set (xs[i := y]). P e"
  using set_update_subset_insert [of xs i y] by blast

text \<open>What one step of the registration does to the table.\<close>

lemma register_link_cases:
  assumes "register_link policy l tp = (st, tp')"
  obtains "tp' = tp" "st \<noteq> ZIPC_OK"
  | i where "policy = ZIPC_TOPOLOGY_OVERRIDE" "i < length (tp_links tp)"
      "en_name (tp_links tp ! i) = the (tl_name l) \<or> the (tl_name l) \<notin> en_name ` set (tp_links tp)"
      "tp' = tp\<lparr>tp_links := (tp_links tp)[i := topology_copy_link l]\<rparr>" "st = ZIPC_OK"
  | "the (tl_name l) \<notin> en_name ` set (tp_links tp)" "tl_link_id l \<noteq> 0 \<longrightarrow> tl_link_id l \<notin> en_link_id ` set (tp_links tp)"
    "length (tp_links tp) < ZIPC_TOPOLOGY_MAX_LINKS" "tp' = tp\<lparr>tp_links := tp_links tp @ [topology_copy_link l]\<rparr>" "st = ZIPC_OK"
proof (cases "topology_find_link_index tp (the (tl_name l))")
  case (Some i)
  then have "i < length (tp_links tp)" "en_name (tp_links tp ! i) = the (tl_name l)"
    by (simp_all add: topology_find_link_index_def find_index_Some)
  then show ?thesis using assms Some that(1,2) by (auto simp: register_link_def split: if_splits)
next
  case None
  then have fresh: "the (tl_name l) \<notin> en_name ` set (tp_links tp)"
    by (auto simp: topology_find_link_index_def find_index_None)
  show ?thesis
  proof (cases "if tl_link_id l \<noteq> 0 then find_index (\<lambda>e. en_link_id e = tl_link_id l) (tp_links tp) else None")
    case (Some j)
    then have "j < length (tp_links tp)" by (simp add: find_index_Some split: if_splits)
    then show ?thesis using assms None Some fresh that(1,2) by (auto simp: register_link_def split: if_splits)
  next
    case none: None
    then have "tl_link_id l \<noteq> 0 \<longrightarrow> tl_link_id l \<notin> en_link_id ` set (tp_links tp)"
      by (auto simp: find_index_None split: if_splits)
    then show ?thesis using assms None none fresh that(1,3) by (auto simp: register_link_def not_le split: if_splits)
  qed
qed

lemma register_link_wf:
  assumes wf: "topology_wf tp" and ok: "link_config_ok tp l" and res: "register_link policy l tp = (st, tp')"
  shows "topology_wf tp'" "tp_pools tp' = tp_pools tp" "tp_transports tp' = tp_transports tp"
proof -
  let ?e = "topology_copy_link l"
  note e = copied_entry_ok [OF ok]
  have eq: "entry_ok (tp\<lparr>tp_links := ls\<rparr>) = entry_ok tp" for ls
    by (simp add: fun_eq_iff entry_ok_def topology_find_pool_def topology_find_transport_def)
  have "topology_wf tp' \<and> tp_pools tp' = tp_pools tp \<and> tp_transports tp' = tp_transports tp"
    using res
  proof (cases rule: register_link_cases)
    case (2 i)
    have "distinct (map en_name ((tp_links tp)[i := ?e]))"
      using wf 2(2,3) e(2) by (intro distinct_replaced) (auto simp: topology_wf_def)
    moreover have "\<forall>x \<in> set ((tp_links tp)[i := ?e]). entry_ok tp x"
      using wf e(1) by (intro replaced_entries_ok) (simp_all add: topology_wf_def)
    ultimately show ?thesis using wf unfolding topology_wf_def 2(4) eq by simp
  next
    case 3
    then show ?thesis using wf e by (simp add: topology_wf_def eq)
  qed (use wf in simp)
  then show "topology_wf tp'" "tp_pools tp' = tp_pools tp" "tp_transports tp' = tp_transports tp" by simp_all
qed

lemma validate_links_all: "validate_links tp ls \<Longrightarrow> l \<in> set ls \<Longrightarrow> link_config_ok tp l"
  by (induction ls) auto

lemma register_links_wf:
  assumes "topology_wf tp" "\<forall>l \<in> set ls. link_config_ok tp l" "register_links policy ls tp = (st, tp')"
  shows "topology_wf tp'"
  using assms
proof (induction ls arbitrary: tp)
  case (Cons l ls)
  obtain st1 tp1 where r: "register_link policy l tp = (st1, tp1)" by fastforce
  note w = register_link_wf [OF Cons(2) _ r]
  have "link_config_ok tp1 = link_config_ok tp"
    using w Cons(3) by (simp add: fun_eq_iff link_config_ok_def topology_find_pool_def topology_find_transport_def)
  then show ?case using Cons r w by (auto split: if_splits)
qed simp

lemma register_config_wf:
  assumes "topology_wf tp" "zipc_topology_register_config config policy tp = (st, tp')"
  shows "topology_wf tp'"
proof (cases "zipc_topology_validate tp config = ZIPC_OK \<and> policy \<noteq> None")
  case True
  then have "\<forall>l \<in> set (the config). link_config_ok tp l"
    using validate_links_all by (auto simp: zipc_topology_validate_def split: option.splits if_splits)
  then show ?thesis using assms True register_links_wf by (auto simp: zipc_topology_register_config_def)
qed (use assms in \<open>auto simp: zipc_topology_register_config_def Let_def split: if_splits option.splits\<close>)

lemma load_string_wf:
  assumes "topology_wf tp" "zipc_topology_load_string pf txt policy tp w = (st, tp', w')"
  shows "topology_wf tp'"
  using assms register_config_wf [OF assms(1)]
  by (auto simp: zipc_topology_load_string_def Let_def split: option.splits if_splits prod.splits)

text \<open>The registries a process can reach.\<close>

inductive topology_reachable :: "topology \<Rightarrow> bool" where
  reset: "topology_reachable (zipc_topology_reset tp)"
| pool: "topology_reachable tp \<Longrightarrow> topology_reachable (snd (zipc_topology_bind_pool name pool tp))"
| transport: "topology_reachable tp \<Longrightarrow> topology_reachable (snd (zipc_topology_bind_transport name transport tp))"
| config: "topology_reachable tp \<Longrightarrow> topology_reachable (snd (zipc_topology_register_config config policy tp))"
| legacy: "topology_reachable tp \<Longrightarrow> topology_reachable (snd (zipc_topology_register definitions tp))"
| load: "topology_reachable tp \<Longrightarrow>
    topology_reachable (fst (snd (zipc_topology_load_string (pf :: linux_host platform_ops) txt policy tp w)))"

lemma legacy_wf: "topology_wf tp \<Longrightarrow> topology_wf (snd (zipc_topology_register definitions tp))"
  by (auto simp: zipc_topology_register_def topology_wf_def entry_ok_def topology_find_pool_def topology_find_transport_def
      split: option.split)

lemma topology_reachable_wf: "topology_reachable tp \<Longrightarrow> topology_wf tp"
proof (induction rule: topology_reachable.induct)
  case (reset tp)
  show ?case by (simp add: zipc_topology_reset_def topology_wf_def)
next
  case (pool tp name pool)
  show ?case by (rule bind_pool_wf [OF pool.IH]) (rule prod.collapse [symmetric])
next
  case (transport tp name transport)
  show ?case by (rule bind_transport_wf [OF transport.IH]) (rule prod.collapse [symmetric])
next
  case (config tp config policy)
  show ?case by (rule register_config_wf [OF config.IH]) (rule prod.collapse [symmetric])
next
  case (legacy tp definitions)
  then show ?case using legacy_wf by blast
next
  case (load tp pf input policy w)
  show ?case using load_string_wf [OF load.IH] by (metis prod.collapse)
qed

text \<open>A registered link is found under its name.\<close>

lemma registered_index:
  assumes "distinct (map en_name (tp_links tp))" "i < length (tp_links tp)"
  shows "topology_find_link_index tp (en_name (tp_links tp ! i)) = Some i"
proof -
  have "en_name (tp_links tp ! j) \<noteq> en_name (tp_links tp ! i)" if "j < i" for j
    using assms that nth_eq_iff_index_eq [OF assms(1), of j i] by simp
  then show ?thesis using assms(2) by (simp add: topology_find_link_index_def find_index_Some)
qed

text \<open>The entry a declaration stands for, field by field and with its names in full.\<close>

definition declared_entry :: "zipc_topology_link_config \<Rightarrow> zipc_topology_link_entry" where
  "declared_entry d =
     \<lparr>en_name = the (tl_name d), en_link_id = tl_link_id d, en_pool_name = the (tl_pool_name d),
      en_transport_name = the (tl_transport_name d), en_local_component = tl_local_component d,
      en_remote_component = tl_remote_component d, en_local_epoch = tl_local_epoch d, en_role = tl_role d,
      en_hop_limit = tl_hop_limit d, en_default_deadline_ns = tl_default_deadline_ns d, en_timeout_ticks = tl_timeout_ticks d\<rparr>"

lemma copy_is_declared: "link_config_ok tp d \<Longrightarrow> topology_copy_link d = declared_entry d"
  by (simp add: link_config_ok_def topology_name_valid_def topology_copy_link_def declared_entry_def)

lemma declared_entry_simps [simp]: "en_name (declared_entry d) = the (tl_name d)" "en_link_id (declared_entry d) = tl_link_id d"
  by (simp_all add: declared_entry_def)

text \<open>A step of the registration adds its own declaration, and removes no entry that differs from it in
  both name and identifier.\<close>

lemma register_link_adds:
  assumes "link_config_ok tp0 l" "register_link policy l tp = (ZIPC_OK, tp')"
  shows "declared_entry l \<in> set (tp_links tp')"
  using assms(2)
proof (cases rule: register_link_cases)
  case (2 i)
  then show ?thesis using copy_is_declared [OF assms(1)] by (simp add: set_update_memI)
next
  case 3
  then show ?thesis using copy_is_declared [OF assms(1)] by simp
qed simp

lemma kept_elsewhere: "e \<in> set xs \<Longrightarrow> e \<noteq> xs ! i \<Longrightarrow> e \<in> set (xs[i := y])"
  by (metis in_set_conv_nth length_list_update nth_list_update_neq)

lemma register_link_keeps:
  assumes "register_link policy l tp = (ZIPC_OK, tp')" "e \<in> set (tp_links tp)"
    and "en_name e \<noteq> the (tl_name l)" "en_link_id e \<noteq> tl_link_id l"
  shows "e \<in> set (tp_links tp')"
proof -
  have "e \<noteq> tp_links tp ! i" if "topology_find_link_index tp (the (tl_name l)) = Some i" for i
    using that assms(3) by (auto simp: topology_find_link_index_def find_index_Some)
  moreover have "e \<noteq> tp_links tp ! i" if "find_index (\<lambda>e. en_link_id e = tl_link_id l) (tp_links tp) = Some i" for i
    using that assms(4) by (auto simp: find_index_Some)
  ultimately show ?thesis
    using assms(1,2) by (auto simp: register_link_def intro: kept_elsewhere split: option.splits if_splits)
qed

lemma register_links_keeps:
  assumes "register_links policy ls tp = (ZIPC_OK, tp')" "e \<in> set (tp_links tp)"
    and "\<forall>l \<in> set ls. en_name e \<noteq> the (tl_name l) \<and> en_link_id e \<noteq> tl_link_id l"
  shows "e \<in> set (tp_links tp')"
  using assms
proof (induction ls arbitrary: tp)
  case (Cons l ls)
  then obtain tp1 where "register_link policy l tp = (ZIPC_OK, tp1)" "register_links policy ls tp1 = (ZIPC_OK, tp')"
    by (auto split: prod.splits if_splits)
  then show ?case using Cons register_link_keeps by auto
qed simp

lemma validate_links_distinct:
  assumes "validate_links tp (l # ls)" "k \<in> set ls"
  shows "the (tl_name l) \<noteq> the (tl_name k)" "tl_link_id l \<noteq> tl_link_id k"
proof -
  have "link_config_ok tp l" "link_config_ok tp k" using assms validate_links_all [of tp "l # ls"] by auto
  then show "the (tl_name l) \<noteq> the (tl_name k)" "tl_link_id l \<noteq> tl_link_id k"
    using assms by (auto simp: link_config_ok_def topology_name_valid_def)
qed

lemma register_links_adds:
  assumes "validate_links tp0 ls" "register_links policy ls tp = (ZIPC_OK, tp')" "d \<in> set ls"
  shows "declared_entry d \<in> set (tp_links tp')"
  using assms
proof (induction ls arbitrary: tp)
  case (Cons l ls)
  then obtain tp1 where s: "register_link policy l tp = (ZIPC_OK, tp1)" "register_links policy ls tp1 = (ZIPC_OK, tp')"
    by (auto split: prod.splits if_splits)
  show ?case
  proof (cases "d \<in> set ls")
    case True
    then show ?thesis using Cons.IH [OF _ s(2)] Cons.prems(1) by simp
  next
    case False
    then have d: "d = l" using Cons.prems(3) by simp
    have "declared_entry l \<in> set (tp_links tp1)" using register_link_adds [OF _ s(1), of tp0] Cons.prems(1) by simp
    then show ?thesis
      unfolding d by (rule register_links_keeps [OF s(2)]) (simp add: validate_links_distinct [OF Cons.prems(1)])
  qed
qed simp

lemma register_config_adds:
  assumes "zipc_topology_register_config (Some ls) policy tp = (ZIPC_OK, tp')" "d \<in> set ls"
  shows "declared_entry d \<in> set (tp_links tp')"
proof -
  have "zipc_topology_validate tp (Some ls) = ZIPC_OK" using assms(1) by (auto simp: zipc_topology_register_config_def Let_def split: if_splits)
  then have "validate_links tp ls" by (auto simp: zipc_topology_validate_def split: if_splits)
  then show ?thesis
    using assms register_links_adds by (auto simp: zipc_topology_register_config_def Let_def split: if_splits option.splits)
qed

text \<open>A link that was created has the fields of its configuration; an epoch left open is the registered
  one, a hop limit left open is none.\<close>

lemma link_create_fields:
  assumes "zipc_link_create pf out (Some cfg) s w = (ZIPC_OK, Some l, w')"
  shows "lc_pool cfg = Some (lk_pool l) \<and> lk_local_component l = lc_local_component cfg \<and>
    lk_remote_component l = lc_remote_component cfg \<and> lk_link_id l = lc_link_id cfg \<and> lk_role l = lc_role cfg \<and>
    lk_local_epoch l = (if lc_local_epoch cfg \<noteq> 0 then lc_local_epoch cfg
      else registered_epoch s (lc_pool cfg) (lc_local_component cfg)) \<and>
    lk_hop_limit l = (if lc_hop_limit cfg \<noteq> 0 then lc_hop_limit cfg else ZIPC_HOP_LIMIT_UNLIMITED) \<and>
    lk_transport_type l = tc_type (lc_transport cfg) \<and>
    lk_default_deadline_ns l = lc_default_deadline_ns cfg \<and> lk_timeout_ticks l = lc_timeout_ticks cfg"
proof -
  obtain pool where p: "lc_pool cfg = Some pool" using assms by (cases "lc_pool cfg") (simp_all add: zipc_link_create_def)
  obtain address w1 where a: "op_alloc pf w = (address, w1)" by fastforce
  obtain st tr w2 where o: "op_open pf (lc_transport cfg) w1 = (st, tr, w2)" by (cases "op_open pf (lc_transport cfg) w1") auto
  show ?thesis
    using assms unfolding zipc_link_create_def p option.case Let_def a prod.case o
    by (simp only: split: if_splits option.splits) (auto simp: p)
qed

lemma entry_opens:
  assumes "topology_wf tp" "e \<in> set (tp_links tp)"
  shows "\<exists>pool transport.
       topology_find_pool tp (en_pool_name e) = Some pool \<and> topology_find_transport tp (en_transport_name e) = Some transport \<and>
       zipc_link_open pf True (Some (en_name e)) tp s w =
         zipc_link_create pf True (Some
           \<lparr>lc_pool = Some pool, lc_local_component = en_local_component e, lc_remote_component = en_remote_component e,
            lc_link_id = en_link_id e, lc_local_epoch = en_local_epoch e, lc_role = en_role e, lc_hop_limit = en_hop_limit e,
            lc_default_deadline_ns = en_default_deadline_ns e, lc_timeout_ticks = en_timeout_ticks e,
            lc_transport = transport\<rparr>) s w \<and>
       (\<forall>l w'. zipc_link_open pf True (Some (en_name e)) tp s w = (ZIPC_OK, Some l, w') \<longrightarrow>
          lk_pool l = pool \<and> lk_transport_type l = tc_type transport \<and> lk_local_component l = en_local_component e \<and>
          lk_remote_component l = en_remote_component e \<and> lk_link_id l = en_link_id e \<and> lk_role l = en_role e \<and>
          lk_local_epoch l = (if en_local_epoch e \<noteq> 0 then en_local_epoch e
            else registered_epoch s (Some pool) (en_local_component e)) \<and>
          lk_hop_limit l = (if en_hop_limit e \<noteq> 0 then en_hop_limit e else ZIPC_HOP_LIMIT_UNLIMITED) \<and>
          lk_default_deadline_ns l = en_default_deadline_ns e \<and> lk_timeout_ticks l = en_timeout_ticks e)"
proof -
  obtain i where i: "i < length (tp_links tp)" "tp_links tp ! i = e" using assms(2) by (auto simp: in_set_conv_nth)
  have f: "topology_find_link_index tp (en_name e) = Some i"
    using registered_index [of tp i] assms(1) i by (simp add: topology_wf_def)
  obtain pool transport where b: "topology_find_pool tp (en_pool_name e) = Some pool"
    "topology_find_transport tp (en_transport_name e) = Some transport"
    using assms by (auto simp: topology_wf_def entry_ok_def)
  have c: "zipc_link_open pf True (Some (en_name e)) tp s w = zipc_link_create pf True (Some (entry_config e pool transport)) s w"
    by (simp add: zipc_link_open_def f i b)
  show ?thesis
    unfolding c by (intro exI [of _ pool] exI [of _ transport] conjI allI impI b)
      (auto simp: entry_config_def dest: link_create_fields)
qed

text \<open>C27: However a process binds, registers, overrides, loads and resets, the registry stays within its
  tables, its link names stay distinct, and every registered link can be opened: its pool and its
  transport are bound, and opening it by its name is the creation of a link from them with the local and
  the remote component, the identifier, the epoch, the role, the hop limit, the deadline and the timeout
  of that entry, all of which the link has when the creation succeeds. A configuration that is accepted
  leaves each of its links registered with every field as declared.\<close>

theorem registered_links_resolve:
  assumes "topology_reachable tp"
  shows "length (tp_links tp) \<le> ZIPC_TOPOLOGY_MAX_LINKS \<and> distinct (map en_name (tp_links tp)) \<and>
    (\<forall>e \<in> set (tp_links tp). \<exists>pool transport.
       topology_find_pool tp (en_pool_name e) = Some pool \<and> topology_find_transport tp (en_transport_name e) = Some transport \<and>
       zipc_link_open pf True (Some (en_name e)) tp s w =
         zipc_link_create pf True (Some
           \<lparr>lc_pool = Some pool, lc_local_component = en_local_component e, lc_remote_component = en_remote_component e,
            lc_link_id = en_link_id e, lc_local_epoch = en_local_epoch e, lc_role = en_role e, lc_hop_limit = en_hop_limit e,
            lc_default_deadline_ns = en_default_deadline_ns e, lc_timeout_ticks = en_timeout_ticks e,
            lc_transport = transport\<rparr>) s w \<and>
       (\<forall>l w'. zipc_link_open pf True (Some (en_name e)) tp s w = (ZIPC_OK, Some l, w') \<longrightarrow>
          lk_pool l = pool \<and> lk_transport_type l = tc_type transport \<and> lk_local_component l = en_local_component e \<and>
          lk_remote_component l = en_remote_component e \<and> lk_link_id l = en_link_id e \<and> lk_role l = en_role e \<and>
          lk_local_epoch l = (if en_local_epoch e \<noteq> 0 then en_local_epoch e
            else registered_epoch s (Some pool) (en_local_component e)) \<and>
          lk_hop_limit l = (if en_hop_limit e \<noteq> 0 then en_hop_limit e else ZIPC_HOP_LIMIT_UNLIMITED) \<and>
          lk_default_deadline_ns l = en_default_deadline_ns e \<and> lk_timeout_ticks l = en_timeout_ticks e)) \<and>
    (\<forall>ls policy tp' d. zipc_topology_register_config (Some ls) policy tp = (ZIPC_OK, tp') \<and> d \<in> set ls \<longrightarrow>
       declared_entry d \<in> set (tp_links tp'))"
proof -
  have wf: "topology_wf tp" using assms by (rule topology_reachable_wf)
  have "declared_entry d \<in> set (tp_links tp')"
    if "zipc_topology_register_config (Some ls) policy tp = (ZIPC_OK, tp')" "d \<in> set ls" for ls policy tp' d
    using that by (rule register_config_adds)
  moreover have "length (tp_links tp) \<le> ZIPC_TOPOLOGY_MAX_LINKS" "distinct (map en_name (tp_links tp))"
    using wf by (simp_all add: topology_wf_def)
  moreover note entry_opens [OF wf, of _ pf s w]
  ultimately show ?thesis by (intro conjI ballI) (blast | assumption)+
qed

definition sample_transport_config :: zipc_platform_transport_config where
  "sample_transport_config =
     \<lparr>tc_type = ZIPC_TRANSPORT_SHM_RING_POLLING, tc_endpoint_name = None, tc_create_endpoint = False, tc_device_path = None,
      tc_platform_handle = Some 2, tc_receive_handle = None, tc_queue_length = 0, tc_ring_depth = 4, tc_poll_timeout_ns = 0,
      tc_timeout_ticks = 0, tc_shared_mailbox = None, tc_notification_index = 0, tc_signal_send = None, tc_signal_wait = None,
      tc_signal_context = 0, tc_secure_call = None, tc_secure_context = 0, tc_secure_service_id = 0, tc_xen_remote_domid = 0,
      tc_xen_remote_port = 0, tc_xen_static_port = 0\<rparr>"

definition sample_topology :: "zipc_topology_link_entry list \<Rightarrow> topology" where
  "sample_topology es =
     \<lparr>tp_legacy = [], tp_pools = [(''mem'', sample_pool)], tp_transports = [(''ring'', sample_transport_config)], tp_links = es\<rparr>"

definition sample_declared :: "string \<Rightarrow> u64 \<Rightarrow> zipc_topology_link_config" where
  "sample_declared name link_number = (empty_link name)\<lparr>tl_link_id := link_number, tl_pool_name := Some ''mem'',
     tl_transport_name := Some ''ring'', tl_local_component := 3, tl_remote_component := 5\<rparr>"

lemma sample_declared_simps [simp]:
  "tl_name (sample_declared name n) = Some name" "tl_link_id (sample_declared name n) = n"
  by (simp_all add: sample_declared_def empty_link_def)

lemma sample_declared_ok:
  "link_config_ok (sample_topology es) (sample_declared name n) \<longleftrightarrow> topology_name_valid (Some name) \<and> n \<noteq> 0"
  by (simp add: link_config_ok_def sample_declared_def empty_link_def sample_topology_def topology_find_pool_def
      topology_find_transport_def topology_name_valid_def ZIPC_TOPOLOGY_NAME_MAX_def zipc_component_id_valid_def
      ZIPC_COMPONENT_ID_MIN_def ZIPC_COMPONENT_ID_MAX_def)

lemma sample_name_valid: "topology_name_valid (Some ''a'')" "topology_name_valid (Some ''b'')" "topology_name_valid (Some ''b c'')"
  by (simp_all add: topology_name_valid_def ZIPC_TOPOLOGY_NAME_MAX_def)

lemma sample_a_ok: "link_config_ok (sample_topology []) (sample_declared ''a'' 7)"
  by (simp add: sample_declared_ok sample_name_valid)

lemma sample_bound: "topology_reachable (sample_topology [])"
proof -
  have "topology_reachable (snd (zipc_topology_bind_transport (Some ''ring'') (Some sample_transport_config)
      (snd (zipc_topology_bind_pool (Some ''mem'') (Some sample_pool) (zipc_topology_reset tp)))))" for tp
    by (intro topology_reachable.intros)
  then show ?thesis
    by (simp add: zipc_topology_bind_transport_def zipc_topology_bind_pool_def zipc_topology_reset_def bind_name_def
        topology_name_valid_def ZIPC_TOPOLOGY_NAME_MAX_def ZIPC_TOPOLOGY_MAX_POOLS_def ZIPC_TOPOLOGY_MAX_TRANSPORTS_def
        sample_topology_def)
qed

lemma sample_register:
  "zipc_topology_register_config (Some [sample_declared ''a'' 7]) (Some ZIPC_TOPOLOGY_REJECT_DUPLICATES) (sample_topology []) =
     (ZIPC_OK, sample_topology [declared_entry (sample_declared ''a'' 7)])"
  by (simp add: zipc_topology_register_config_def zipc_topology_validate_def sample_declared_ok sample_name_valid register_link_def
      topology_find_link_index_def ZIPC_TOPOLOGY_MAX_LINKS_def copy_is_declared [OF sample_a_ok])
    (simp add: sample_topology_def copy_is_declared [OF sample_a_ok])

theorem registered_links_resolve_witness:
  "let d = sample_declared ''a'' 7; e = declared_entry d; tp = sample_topology [e] in
   (\<exists>transport. topology_find_transport tp ''ring'' = Some transport \<and>
      zipc_link_open linux_platform True (Some ''a'') tp sample_sys sample_clock_host =
      zipc_link_create linux_platform True (Some
        \<lparr>lc_pool = Some sample_pool, lc_local_component = 3, lc_remote_component = 5, lc_link_id = 7, lc_local_epoch = 0,
         lc_role = ZIPC_LINK_ROLE_UNSPECIFIED, lc_hop_limit = 0, lc_default_deadline_ns = 0, lc_timeout_ticks = 0,
         lc_transport = transport\<rparr>) sample_sys sample_clock_host) \<and>
   zipc_topology_register_config (Some [d]) (Some ZIPC_TOPOLOGY_REJECT_DUPLICATES) (sample_topology []) = (ZIPC_OK, tp)"
proof -
  let ?e = "declared_entry (sample_declared ''a'' 7)"
  have "topology_reachable (sample_topology [?e])"
    using topology_reachable.config [OF sample_bound] sample_register by (metis snd_conv)
  from registered_links_resolve [OF this, of linux_platform sample_sys sample_clock_host]
  show ?thesis
    using sample_register
    by (auto simp: Let_def sample_topology_def declared_entry_def sample_declared_def empty_link_def topology_find_pool_def)
qed

subsection \<open>What the registration lets through\<close>

lemmas sample_registration = zipc_topology_register_config_def zipc_topology_validate_def sample_declared_ok sample_name_valid
  register_link_def topology_find_link_index_def ZIPC_TOPOLOGY_MAX_LINKS_def sample_topology_def topology_copy_link_def
  ZIPC_TOPOLOGY_NAME_MAX_def

text \<open>An override that finds its link by name does not look at the identifiers of the others: two
  links share one afterwards.\<close>

lemma override_duplicates_link_id:
  "map (\<lambda>e. (en_name e, en_link_id e)) (tp_links (snd (zipc_topology_register_config (Some [sample_declared ''a'' 8])
     (Some ZIPC_TOPOLOGY_OVERRIDE) (sample_topology (map topology_copy_link [sample_declared ''a'' 7, sample_declared ''b'' 8]))))) =
   [(''a'', 8), (''b'', 8)]"
  by (simp add: zipc_topology_register_config_def zipc_topology_validate_def sample_declared_ok sample_name_valid)
    (simp add: sample_registration)

text \<open>A configuration that is rejected at its second link has registered its first.\<close>

lemma rejected_config_registers_prefix:
  "let r = zipc_topology_register_config (Some [sample_declared ''b'' 8, sample_declared ''a'' 9]) (Some ZIPC_TOPOLOGY_EXTEND)
       (sample_topology [topology_copy_link (sample_declared ''a'' 7)]) in
   fst r = ZIPC_ERR_INVALID_ARGUMENT \<and> map en_name (tp_links (snd r)) = [''a'', ''b'']"
  by (simp add: zipc_topology_register_config_def zipc_topology_validate_def sample_declared_ok sample_name_valid
      ZIPC_TOPOLOGY_MAX_LINKS_def)
    (simp add: sample_registration)

text \<open>The number syntax admits a sign, and saturates.\<close>

lemma negative_number_accepted: "topology_parse_u64 ''-1'' = Some UINT64_MAX"
  by (simp add: topology_parse_u64_def strtoull_def number_base_def c_space_def digits_value_def digit_value_def is_digit_def
      topology_trim_def Let_def UINT64_MAX_def)

lemma oversized_number_saturates: "topology_parse_u64 ''18446744073709551616'' = Some UINT64_MAX"
  by (simp add: topology_parse_u64_def strtoull_def number_base_def c_space_def digits_value_def digit_value_def is_digit_def
      topology_trim_def Let_def UINT64_MAX_def)

end
