(* ===== verification/Topology_Text.thy ===== *)
theory Topology_Text
  imports Topology_Properties
begin

text \<open>
  The configuration text: a printer for declarative links, and the proof that the parser of
  \<^verbatim>\<open>zipc.c\<close> reads every printed topology back as it was.
\<close>

lemma split_at_first:
  assumes "x \<notin> set xs"
  shows "takeWhile (\<lambda>c. c \<noteq> x) (xs @ x # ys) = xs" "dropWhile (\<lambda>c. c \<noteq> x) (xs @ x # ys) = x # ys"
  using assms by (induction xs) auto

subsection \<open>Numbers\<close>

definition digit_char :: "nat \<Rightarrow> char" where
  "digit_char n = char_of (48 + n)"

fun show_nat :: "nat \<Rightarrow> string" where
  "show_nat n = (if n < 10 then [digit_char n] else show_nat (n div 10) @ [digit_char (n mod 10)])"

declare show_nat.simps [simp del]

lemma digit_value_char [simp]: "n < 10 \<Longrightarrow> digit_value (digit_char n) = n"
  by (simp add: digit_value_def digit_char_def Let_def)

lemma digit_char_eq:
  assumes "n < 10"
  shows "digit_char n = CHR ''0'' \<longleftrightarrow> n = 0" "\<not> c_space (digit_char n)" "\<not> topology_space (digit_char n)"
    "digit_char n \<noteq> CHR ''-''" "digit_char n \<noteq> CHR ''+''" "digit_char n \<noteq> CHR 0x0A" "digit_char n \<noteq> CHR 0x00"
proof -
  have of: "of_char (digit_char n) = 48 + n" using assms by (simp add: digit_char_def)
  have ne: "digit_char n \<noteq> c" if "(of_char c :: nat) < 48" for c using of that by auto
  have "digit_char n = CHR ''0'' \<longleftrightarrow> (of_char (digit_char n) :: nat) = of_char (CHR ''0'')" by (simp only: of_char_eq_iff)
  then show "digit_char n = CHR ''0'' \<longleftrightarrow> n = 0" using of by simp
  show "\<not> c_space (digit_char n)" "\<not> topology_space (digit_char n)" "digit_char n \<noteq> CHR ''-''" "digit_char n \<noteq> CHR ''+''"
    "digit_char n \<noteq> CHR 0x0A" "digit_char n \<noteq> CHR 0x00"
    using ne by (simp_all add: c_space_def topology_space_def)
qed

lemma show_nat_digits:
  "show_nat n \<noteq> []" "\<forall>c \<in> set (show_nat n). \<exists>d < 10. c = digit_char d" "digits_value 10 (show_nat n) = n"
  "n \<noteq> 0 \<Longrightarrow> hd (show_nat n) \<noteq> CHR ''0''"
proof (induction n rule: show_nat.induct)
  case (1 n)
  { case 1 then show ?case by (simp add: show_nat.simps [of n]) }
  { case 2 then show ?case using "1.IH"(2) by (auto simp: show_nat.simps [of n] intro: exI [of _ "n mod 10"]) }
  { case 3 then show ?case using "1.IH"(3) by (auto simp: show_nat.simps [of n] digits_value_def) }
  { case 4 then show ?case using "1.IH"(1,4) by (auto simp: show_nat.simps [of n] digit_char_eq) }
qed

lemma show_nat_decimal:
  shows "takeWhile (is_digit 10) (show_nat n) = show_nat n" "dropWhile (is_digit 10) (show_nat n) = []"
proof -
  have "\<forall>c \<in> set (show_nat n). is_digit 10 c" using show_nat_digits(2) [of n] by (auto simp: is_digit_def)
  then show "takeWhile (is_digit 10) (show_nat n) = show_nat n" "dropWhile (is_digit 10) (show_nat n) = []" by simp_all
qed

lemma show_nat_chars:
  assumes "c \<in> set (show_nat n)"
  shows "\<not> c_space c" "\<not> topology_space c" "c \<noteq> CHR ''-''" "c \<noteq> CHR ''+''" "c \<noteq> CHR 0x0A" "c \<noteq> CHR 0x00"
proof -
  obtain d where "d < 10" "c = digit_char d" using assms show_nat_digits(2) [of n] by auto
  then show "\<not> c_space c" "\<not> topology_space c" "c \<noteq> CHR ''-''" "c \<noteq> CHR ''+''" "c \<noteq> CHR 0x0A" "c \<noteq> CHR 0x00"
    using digit_char_eq [of d] by simp_all
qed

lemma number_base_show:
  assumes "n \<noteq> 0"
  shows "number_base (show_nat n) = (10, show_nat n)"
proof -
  obtain c cs where "show_nat n = c # cs" "c \<noteq> CHR ''0''"
    using show_nat_digits(1,4) [of n] assms by (cases "show_nat n") auto
  then show ?thesis by (simp add: number_base_def split: list.split)
qed

lemma strtoull_show:
  assumes "n < 2 ^ 64"
  shows "strtoull (show_nat n) = Some (of_nat n, [])"
proof -
  obtain c cs where c: "show_nat n = c # cs" using show_nat_digits(1) [of n] by (cases "show_nat n") auto
  then have "\<not> c_space c" "c \<noteq> CHR ''-''" "c \<noteq> CHR ''+''" using show_nat_chars [of c n] by auto
  moreover have "\<not> n > unat UINT64_MAX" using assms by (simp add: UINT64_MAX_def)
  ultimately have "strtoull (show_nat n) = Some (of_nat n, [])" if "n \<noteq> 0"
    using number_base_show [OF that] show_nat_decimal [of n] show_nat_digits(3) [of n] c by (simp add: strtoull_def)
  moreover have "show_nat 0 = ''0''" using digit_char_eq(1) [of 0] by (simp add: show_nat.simps)
  then have "strtoull (show_nat 0) = Some (of_nat 0, [])"
    by (simp add: strtoull_def number_base_def c_space_def digits_value_def digit_value_def is_digit_def Let_def)
  ultimately show ?thesis by (cases "n = 0") auto
qed

lemma parse_show: "topology_parse_u64 (show_nat (unat (v :: u64))) = Some v"
  using strtoull_show [of "unat v"] show_nat_digits(1) [of "unat v"]
    unsigned_less [of v, where 'a = nat] by (simp add: topology_parse_u64_def topology_trim_def)

lemma narrow_show:
  assumes "v \<le> limit"
  shows "narrow limit (show_nat (unat v)) = Some v"
  using assms by (simp add: narrow_def parse_show)

subsection \<open>Lines\<close>

lemma trim_same: "topology_trim s = s" if "s = [] \<or> \<not> topology_space (hd s) \<and> \<not> topology_space (last s)"
proof (cases s)
  case (Cons c cs)
  then have "\<not> topology_space c" "\<not> topology_space (hd (rev s))" using that hd_rev [of s] by auto
  then have "dropWhile topology_space s = s" "dropWhile topology_space (rev s) = rev s"
    using Cons by (simp, cases "rev s", auto)
  then show ?thesis by (simp add: topology_trim_def)
qed (simp add: topology_trim_def)

definition trimmed :: "string \<Rightarrow> bool" where
  "trimmed s \<longleftrightarrow> s \<noteq> [] \<and> \<not> topology_space (hd s) \<and> \<not> topology_space (last s)"

lemma trimmed_trim: "trimmed s \<Longrightarrow> topology_trim s = s"
  by (simp add: trimmed_def trim_same)

lemma trimmed_show: "trimmed (show_nat n)"
  using show_nat_digits(1) [of n] show_nat_chars(2) [of _ n] hd_in_set last_in_set by (auto simp: trimmed_def)

definition one_line :: "string \<Rightarrow> bool" where
  "one_line s \<longleftrightarrow> CHR 0x0A \<notin> set s \<and> CHR 0x00 \<notin> set s"

lemma one_line_show: "one_line (show_nat n)"
  using show_nat_chars(5,6) by (auto simp: one_line_def)

definition print_lines :: "string list \<Rightarrow> string" where
  "print_lines ls = concat (map (\<lambda>l. l @ [CHR 0x0A]) ls)"

lemma strtok_print:
  assumes "\<forall>l \<in> set ls. l \<noteq> [] \<and> one_line l"
  shows "strtok_lines (print_lines ls) = ls"
  using assms
proof (induction ls)
  case Nil
  then show ?case by (simp add: print_lines_def strtok_lines.simps)
next
  case (Cons l ls)
  let ?rest = "print_lines ls"
  have l: "l \<noteq> []" "\<forall>c \<in> set l. c \<noteq> CHR 0x0A" using Cons.prems by (auto simp: one_line_def)
  have printed: "print_lines (l # ls) = l @ CHR 0x0A # ?rest" by (simp add: print_lines_def)
  have "dropWhile (\<lambda>c. c = CHR 0x0A) (print_lines (l # ls)) = l @ CHR 0x0A # ?rest"
    unfolding printed using l by (cases l) simp_all
  moreover have "takeWhile (\<lambda>c. c \<noteq> CHR 0x0A) (l @ CHR 0x0A # ?rest) = l"
    "dropWhile (\<lambda>c. c \<noteq> CHR 0x0A) (l @ CHR 0x0A # ?rest) = CHR 0x0A # ?rest"
    using l(2) by (auto intro: split_at_first)
  ultimately have "strtok_lines (print_lines (l # ls)) = l # strtok_lines (CHR 0x0A # ?rest)"
    by (simp add: strtok_lines.simps [of "print_lines (l # ls)"])
  moreover have "strtok_lines (CHR 0x0A # ?rest) = strtok_lines ?rest"
    by (simp add: strtok_lines.simps [of "CHR 0x0A # ?rest"] strtok_lines.simps [of ?rest])
  ultimately show ?case using Cons by simp
qed

text \<open>A line \<open>key=value\<close> is one assignment to the current link.\<close>

definition field_line :: "string \<Rightarrow> string \<Rightarrow> string" where
  "field_line key v = key @ CHR ''='' # v"

definition plain_key :: "string \<Rightarrow> bool" where
  "plain_key key \<longleftrightarrow> trimmed key \<and> CHR ''='' \<notin> set key \<and> hd key \<noteq> CHR ''#'' \<and> hd key \<noteq> CHR '';'' \<and> hd key \<noteq> CHR ''['' \<and>
     one_line key"

lemma parse_field_line:
  assumes "plain_key key" "trimmed v"
  shows "parse_line (field_line key v) (ls @ [l], True) = map_option (\<lambda>l. (ls @ [l], True)) (assign_field key v l)"
proof -
  have k: "key \<noteq> []" "CHR ''='' \<notin> set key" "topology_trim key = key" "topology_trim v = v" "v \<noteq> []"
    using assms trimmed_trim by (auto simp: plain_key_def trimmed_def)
  have "trimmed (field_line key v)" using assms by (simp add: plain_key_def trimmed_def field_line_def)
  then have t: "topology_trim (field_line key v) = field_line key v" by (rule trimmed_trim)
  have "takeWhile (\<lambda>c. c \<noteq> CHR ''='') (field_line key v) = key" "dropWhile (\<lambda>c. c \<noteq> CHR ''='') (field_line key v) = CHR ''='' # v"
    using k(2) by (simp_all add: field_line_def split_at_first)
  moreover have "CHR ''='' \<in> set (field_line key v)" "field_line key v \<noteq> []" "hd (field_line key v) = hd key"
    using k(1) by (simp_all add: field_line_def)
  ultimately show ?thesis using assms(1) k t by (simp add: parse_line_def Let_def plain_key_def)
qed

text \<open>A line \<open>[link.name]\<close> starts a new link.\<close>

definition section_line :: "string \<Rightarrow> string" where
  "section_line name = ''[link.'' @ name @ '']''"

lemma parse_section_line:
  assumes "trimmed name" "topology_name_valid (Some name)" "CHR '']'' \<notin> set name" "length ls < ZIPC_TOPOLOGY_MAX_LINKS"
  shows "parse_line (section_line name) (ls, b) = Some (ls @ [empty_link name], True)"
proof -
  have "trimmed (section_line name)" by (simp add: trimmed_def section_line_def topology_space_def)
  then have t: "topology_trim (section_line name) = section_line name" by (rule trimmed_trim)
  have "trimmed (''link.'' @ name)" using assms(1) by (simp add: trimmed_def topology_space_def)
  then have s: "topology_trim (''link.'' @ name) = ''link.'' @ name" by (rule trimmed_trim)
  have "takeWhile (\<lambda>c. c \<noteq> CHR '']'') (tl (section_line name)) = ''link.'' @ name"
    using assms(3) split_at_first(1) [of "CHR '']''" "''link.'' @ name" "[]"] by (simp add: section_line_def)
  then have "parse_section (section_line name) (ls, b) = Some (ls @ [empty_link name], True)"
    using assms s trimmed_trim [OF assms(1)] by (simp add: parse_section_def Let_def section_line_def topology_name_valid_def)
  then show ?thesis using t by (simp add: parse_line_def Let_def section_line_def)
qed

subsection \<open>Printed links\<close>

definition role_lines :: "zipc_link_role \<Rightarrow> string list" where
  "role_lines r =
     (case r of
        ZIPC_LINK_ROLE_UNSPECIFIED \<Rightarrow> []
      | ZIPC_LINK_ROLE_PRODUCER \<Rightarrow> [field_line ''role'' ''producer'']
      | ZIPC_LINK_ROLE_CONSUMER \<Rightarrow> [field_line ''role'' ''consumer''])"

definition print_link :: "zipc_topology_link_config \<Rightarrow> string list" where
  "print_link l =
     [section_line (the (tl_name l)), field_line ''id'' (show_nat (unat (tl_link_id l))),
      field_line ''pool'' (the (tl_pool_name l)), field_line ''transport'' (the (tl_transport_name l)),
      field_line ''local'' (show_nat (unat (tl_local_component l))), field_line ''remote'' (show_nat (unat (tl_remote_component l))),
      field_line ''local_epoch'' (show_nat (unat (tl_local_epoch l)))] @ role_lines (tl_role l) @
     [field_line ''hop_limit'' (show_nat (unat (tl_hop_limit l))),
      field_line ''default_deadline_ns'' (show_nat (unat (tl_default_deadline_ns l))),
      field_line ''timeout_ticks'' (show_nat (unat (tl_timeout_ticks l)))]"

definition print_topology :: "zipc_topology_link_config list \<Rightarrow> string" where
  "print_topology ls = print_lines (concat (map print_link ls))"

text \<open>A name that survives a line of text: valid, without outer white space, line breaks or NULs.\<close>

definition printable_name :: "string option \<Rightarrow> bool" where
  "printable_name n \<longleftrightarrow> topology_name_valid n \<and> trimmed (the n) \<and> one_line (the n)"

definition printable_link :: "zipc_topology_link_config \<Rightarrow> bool" where
  "printable_link l \<longleftrightarrow> printable_name (tl_name l) \<and> CHR '']'' \<notin> set (the (tl_name l)) \<and>
     printable_name (tl_pool_name l) \<and> printable_name (tl_transport_name l)"

lemma widen_narrow: "ucast (ucast (c :: u16) :: u64) = c" "ucast (ucast (d :: u32) :: u64) = d"
  by (rule bit_word_eqI, simp add: bit_simps)+

lemma narrow_show16: "narrow 0xFFFF (show_nat (unat (c :: u16))) = Some (ucast c)"
  using narrow_show [of "ucast c" "0xFFFF"] unsigned_less [of c, where 'a = nat]
  by (simp add: word_le_nat_alt)

lemma narrow_show32: "narrow (ucast UINT32_MAX) (show_nat (unat (c :: u32))) = Some (ucast c)"
  using narrow_show [of "ucast c" "ucast UINT32_MAX"] unsigned_less [of c, where 'a = nat]
  by (simp add: word_le_nat_alt UINT32_MAX_def)

lemma plain_keys:
  "plain_key ''id''" "plain_key ''pool''" "plain_key ''transport''" "plain_key ''local''" "plain_key ''remote''"
  "plain_key ''local_epoch''" "plain_key ''role''" "plain_key ''hop_limit''" "plain_key ''default_deadline_ns''" "plain_key ''timeout_ticks''"
  by (simp_all add: plain_key_def trimmed_def one_line_def topology_space_def)

lemma parse_lines_append:
  "parse_lines (xs @ ys) ps = (case parse_lines xs ps of None \<Rightarrow> None | Some ps \<Rightarrow> parse_lines ys ps)"
  by (induction xs arbitrary: ps) (auto split: option.split)

lemma trimmed_roles: "trimmed ''producer''" "trimmed ''consumer''"
  by (simp_all add: trimmed_def topology_space_def)

lemma parse_role_lines:
  assumes "tl_role l = ZIPC_LINK_ROLE_UNSPECIFIED"
  shows "parse_lines (role_lines r) (ls @ [l], True) = Some (ls @ [l\<lparr>tl_role := r\<rparr>], True)"
  using assms by (cases r) (simp_all add: role_lines_def parse_field_line plain_keys trimmed_roles assign_field_def)

lemma parse_print_link:
  assumes "printable_link l" "length ls < ZIPC_TOPOLOGY_MAX_LINKS"
  shows "parse_lines (print_link l) (ls, b) = Some (ls @ [l], True)"
proof -
  obtain name pool transport where n: "tl_name l = Some name" "tl_pool_name l = Some pool" "tl_transport_name l = Some transport"
    using assms(1) by (auto simp: printable_link_def printable_name_def topology_name_valid_def)
  have t: "trimmed name" "trimmed pool" "trimmed transport" "topology_name_valid (Some name)" "topology_name_valid (Some pool)"
    "topology_name_valid (Some transport)" "CHR '']'' \<notin> set name"
    using assms(1) n by (simp_all add: printable_link_def printable_name_def)
  note sec = parse_section_line [OF t(1,4,7) assms(2)]
  have cut: "take ZIPC_TOPOLOGY_NAME_MAX pool = pool" "take ZIPC_TOPOLOGY_NAME_MAX transport = transport"
    using t by (simp_all add: topology_name_valid_def)
  show ?thesis
    unfolding print_link_def parse_lines_append
    by (simp add: sec parse_field_line plain_keys trimmed_show t cut n parse_role_lines assign_field_def parse_show
        narrow_show16 narrow_show32 widen_narrow empty_link_def)
qed

lemma parse_print_links:
  assumes "\<forall>l \<in> set ls. printable_link l" "length ks + length ls \<le> ZIPC_TOPOLOGY_MAX_LINKS" "ls \<noteq> [] \<or> b"
  shows "parse_lines (concat (map print_link ls)) (ks, b) = Some (ks @ ls, True)"
  using assms
proof (induction ls arbitrary: ks b)
  case (Cons l ls)
  show ?case using Cons.prems Cons.IH [of "ks @ [l]" True] by (simp add: parse_lines_append parse_print_link)
qed simp

lemma print_link_lines:
  assumes "printable_link l" "x \<in> set (print_link l)"
  shows "x \<noteq> [] \<and> one_line x"
proof -
  have f: "field_line key v \<noteq> [] \<and> one_line (field_line key v)" if "plain_key key" "one_line v" for key v
    using that by (auto simp: field_line_def one_line_def plain_key_def)
  have n: "one_line (the (tl_name l))" "one_line (the (tl_pool_name l))" "one_line (the (tl_transport_name l))"
    using assms(1) by (simp_all add: printable_link_def printable_name_def)
  have "section_line (the (tl_name l)) \<noteq> [] \<and> one_line (section_line (the (tl_name l)))"
    using n(1) by (simp add: section_line_def one_line_def)
  moreover have "y \<noteq> [] \<and> one_line y" if "y \<in> set (role_lines (tl_role l))" for y
    using that by (cases "tl_role l") (simp_all add: role_lines_def field_line_def one_line_def)
  ultimately show ?thesis
    using assms(2) f [OF plain_keys(1)] f [OF plain_keys(2)] f [OF plain_keys(3)] f [OF plain_keys(4)] f [OF plain_keys(5)]
      f [OF plain_keys(6)] f [OF plain_keys(8)] f [OF plain_keys(9)] f [OF plain_keys(10)] n one_line_show
    unfolding print_link_def by auto
qed

lemma print_lines_text:
  assumes "\<forall>l \<in> set ls. one_line l"
  shows "takeWhile (\<lambda>c. c \<noteq> CHR 0x00) (print_lines ls) = print_lines ls"
  using assms by (auto simp: print_lines_def one_line_def)

text \<open>Links that clash with no registered one are appended, whatever the policy.\<close>

lemma register_fresh_link:
  assumes "link_config_ok tp' l" "the (tl_name l) \<notin> en_name ` set (tp_links tp)" "tl_link_id l \<notin> en_link_id ` set (tp_links tp)"
    "length (tp_links tp) < ZIPC_TOPOLOGY_MAX_LINKS"
  shows "register_link policy l tp = (ZIPC_OK, tp\<lparr>tp_links := tp_links tp @ [topology_copy_link l]\<rparr>)"
proof -
  have "topology_find_link_index tp (the (tl_name l)) = None" "find_index (\<lambda>e. en_link_id e = tl_link_id l) (tp_links tp) = None"
    using assms(2,3) by (auto simp: topology_find_link_index_def find_index_None image_iff)
  then show ?thesis using assms(1,4) by (simp add: register_link_def link_config_ok_def)
qed

lemma register_fresh_links:
  assumes "validate_links tp' ls" "length (tp_links tp) + length ls \<le> ZIPC_TOPOLOGY_MAX_LINKS"
    and "\<forall>l \<in> set ls. the (tl_name l) \<notin> en_name ` set (tp_links tp) \<and> tl_link_id l \<notin> en_link_id ` set (tp_links tp)"
  shows "register_links policy ls tp = (ZIPC_OK, tp\<lparr>tp_links := tp_links tp @ map topology_copy_link ls\<rparr>)"
  using assms
proof (induction ls arbitrary: tp)
  case (Cons l ls)
  let ?tp = "tp\<lparr>tp_links := tp_links tp @ [topology_copy_link l]\<rparr>"
  have l: "link_config_ok tp' l" "validate_links tp' ls" using Cons.prems(1) by simp_all
  have step: "register_link policy l tp = (ZIPC_OK, ?tp)" using Cons.prems l(1) by (intro register_fresh_link) auto
  have "the (tl_name k) \<noteq> the (tl_name l) \<and> tl_link_id k \<noteq> tl_link_id l" if "k \<in> set ls" for k
    using Cons.prems(1) that validate_links_all [OF l(2) that] l(1)
    by (auto simp: link_config_ok_def topology_name_valid_def)
  then have "register_links policy ls ?tp = (ZIPC_OK, ?tp\<lparr>tp_links := tp_links ?tp @ map topology_copy_link ls\<rparr>)"
    using Cons.prems copied_entry_ok(2,3) [OF l(1)] by (intro Cons.IH l(2)) auto
  then show ?case using step by simp
qed simp

text \<open>C28: The configuration text is lossless: when a list of links is valid and its names fit in a line,
  printing it as text and loading that text into a registry without links registers exactly those
  links, every field as declared, in order, under every policy, and releases the copy of the text.\<close>

theorem topology_text_round_trip:
  assumes "zipc_topology_validate tp (Some ls) = ZIPC_OK" "\<forall>l \<in> set ls. printable_link l" "tp_links tp = []"
    and "op_alloc pf w = (Some a, w')"
  shows "zipc_topology_load_string pf (Some (print_topology ls)) (Some policy) tp w =
    (ZIPC_OK, tp\<lparr>tp_links := map declared_entry ls\<rparr>, op_free pf (Some a) w')"
proof -
  let ?lines = "concat (map print_link ls)"
  have v: "ls \<noteq> []" "length ls \<le> ZIPC_TOPOLOGY_MAX_LINKS" "validate_links tp ls"
    using assms(1) by (auto simp: zipc_topology_validate_def split: if_splits)
  have lines: "\<forall>x \<in> set ?lines. x \<noteq> [] \<and> one_line x" using assms(2) print_link_lines by fastforce
  have ne: "print_topology ls \<noteq> []" using v(1) by (cases ls) (simp_all add: print_topology_def print_lines_def print_link_def)
  have "takeWhile (\<lambda>c. c \<noteq> CHR 0x00) (print_topology ls) = print_lines ?lines"
    using lines unfolding print_topology_def by (intro print_lines_text) auto
  then have "parse_lines (strtok_lines (takeWhile (\<lambda>c. c \<noteq> CHR 0x00) (print_topology ls))) ([], False) = Some (ls, True)"
    using strtok_print [OF lines] parse_print_links [of ls "[]" False] assms(2) v by simp
  moreover have copies: "map topology_copy_link ls = map declared_entry ls" using validate_links_all [OF v(3)] copy_is_declared by (simp, blast)
  moreover have "zipc_topology_register_config (Some ls) (Some policy) tp = (ZIPC_OK, tp\<lparr>tp_links := map declared_entry ls\<rparr>)"
    using assms(1,3) v register_fresh_links [OF v(3), of tp policy] copies by (simp add: zipc_topology_register_config_def)
  ultimately show ?thesis using assms(4) ne v(1) by (simp add: zipc_topology_load_string_def)
qed

theorem topology_text_round_trip_witness:
  "let h = sample_host zero_transport (sample_ring 4 0) 0 in
   zipc_topology_load_string linux_platform (Some (print_topology [sample_declared ''a'' 7, sample_declared ''b c'' 8]))
     (Some ZIPC_TOPOLOGY_EXTEND) (sample_topology []) h =
   (ZIPC_OK, sample_topology [declared_entry (sample_declared ''a'' 7), declared_entry (sample_declared ''b c'' 8)],
    zipc_platform_free (Some 7) (snd (zipc_platform_alloc h)))"
proof -
  let ?ls = "[sample_declared ''a'' 7, sample_declared ''b c'' 8]" and ?h = "sample_host zero_transport (sample_ring 4 0) 0"
  have "zipc_topology_validate (sample_topology []) (Some ?ls) = ZIPC_OK"
    by (simp add: zipc_topology_validate_def ZIPC_TOPOLOGY_MAX_LINKS_def sample_declared_ok sample_name_valid)
  moreover have "\<forall>l \<in> set ?ls. printable_link l"
    by (simp add: printable_link_def printable_name_def sample_declared_def empty_link_def topology_name_valid_def
        ZIPC_TOPOLOGY_NAME_MAX_def trimmed_def one_line_def topology_space_def)
  moreover have "tp_links (sample_topology []) = []" by (simp add: sample_topology_def)
  moreover have "op_alloc linux_platform ?h = (Some 7, snd (zipc_platform_alloc ?h))"
    by (simp add: linux_platform_def zipc_platform_alloc_def os_call_def Let_def sample_reply_def)
  ultimately show ?thesis
    using topology_text_round_trip [of "sample_topology []" ?ls linux_platform ?h 7 "snd (zipc_platform_alloc ?h)" ZIPC_TOPOLOGY_EXTEND]
    by (simp add: sample_topology_def linux_platform_def)
qed

end
