(* ===== verification/Utilities.thy ===== *)
theory Utilities
  imports Topology_Text Platform_Memory
begin

text \<open>
  The command lines of the tools under \<^verbatim>\<open>utilities/\<close> and what the tools compute before they touch
  the system: the numbers and sizes of the options, the geometry of the pool that
  \<^verbatim>\<open>zipc-packetrate\<close> and \<^verbatim>\<open>zipc-ping\<close> create, and the memory that
  \<^verbatim>\<open>zipc-membench\<close> opens. An argument is a string without NUL, so the character after the last is the
  end of the text. The components that the tools run are in \<open>Relay_Chain\<close> and \<open>Chain_Probe\<close>, the report of
  \<^verbatim>\<open>zipc-stat\<close> is in \<open>Pool_Report\<close>; forking and awaiting the processes is not modelled.
\<close>

subsection \<open>Numbers\<close>

text \<open>\<open>strtoull\<close> with the base as an argument, and with \<open>errno = ERANGE\<close> as a result: value, range
  error, rest. \<open>strtoul\<close> is the same function on LP64. The function of the topology parser is its
  restriction to base 0.\<close>

definition strtoull_base :: "nat \<Rightarrow> string \<Rightarrow> (u64 \<times> bool \<times> string) option" where
  "strtoull_base base s =
     (let s = dropWhile c_space s;
          negative = (case s of c # _ \<Rightarrow> c = CHR ''-'' | [] \<Rightarrow> False);
          s = (case s of c # rest \<Rightarrow> if c = CHR ''-'' \<or> c = CHR ''+'' then rest else s | [] \<Rightarrow> s);
          (base, s) = (if base = 0 then number_base s else (base, s));
          ds = takeWhile (is_digit base) s;
          n = digits_value base ds
      in if ds = [] then None
         else Some (if n > unat UINT64_MAX then UINT64_MAX else if negative then - of_nat n else of_nat n,
                    n > unat UINT64_MAX, dropWhile (is_digit base) s))"

definition first_is :: "(char \<Rightarrow> bool) \<Rightarrow> string \<Rightarrow> bool" where
  "first_is f s = (case s of c # _ \<Rightarrow> f c | [] \<Rightarrow> False)"

subsection \<open>zipc-packetrate\<close>

definition DEFAULT_SLOT_COUNT :: u64 where "DEFAULT_SLOT_COUNT = 256"
definition PAYLOAD_ALIGNMENT :: u32 where "PAYLOAD_ALIGNMENT = 64"
definition AUTO_POOL_BUDGET :: u64 where "AUTO_POOL_BUDGET = 32 * 1024 * 1024"
definition WARMUP_BYTE_BUDGET :: u64 where "WARMUP_BYTE_BUDGET = 64 * 1024 * 1024"
definition MAX_WARMUP_PACKETS :: u64 where "MAX_WARMUP_PACKETS = 1000"
definition MAX_RELAYS :: u32 where "MAX_RELAYS = ucast ZIPC_COMPONENT_ID_MAX - 2"

definition parse_u64 :: "string \<Rightarrow> u64 \<Rightarrow> u64 option" where
  "parse_u64 txt maximum =
     (if \<not> first_is (is_digit 10) txt then None
      else case strtoull_base 0 txt of
             None \<Rightarrow> None
           | Some (parsed, erange, end) \<Rightarrow>
               if erange \<or> end \<noteq> [] \<or> parsed > maximum then None else Some parsed)"

definition parse_u32 :: "string \<Rightarrow> u32 \<Rightarrow> u32 option" where
  "parse_u32 txt maximum = map_option ucast (parse_u64 txt (ucast maximum))"

definition size_multiplier :: "string \<Rightarrow> u64 option" where
  "size_multiplier end =
     (if end = ''K'' \<or> end = ''k'' then Some 1024
      else if end = ''M'' \<or> end = ''m'' then Some (1024 * 1024)
      else if end = ''G'' \<or> end = ''g'' then Some (1024 * 1024 * 1024)
      else if end \<noteq> [] then None else Some 1)"

definition parse_size_u32 :: "string \<Rightarrow> u32 option" where
  "parse_size_u32 txt =
     (if \<not> first_is (is_digit 10) txt then None
      else case strtoull_base 10 txt of
             None \<Rightarrow> None
           | Some (parsed, erange, end) \<Rightarrow>
               if erange then None
               else case size_multiplier end of
                      None \<Rightarrow> None
                    | Some multiplier \<Rightarrow>
                        if parsed > ucast UINT32_MAX div multiplier then None
                        else Some (ucast (parsed * multiplier)))"

definition automatic_slot_count :: "u64 \<Rightarrow> u32" where
  "automatic_slot_count slot_stride =
     (let count = AUTO_POOL_BUDGET div slot_stride;
          count = (if count > DEFAULT_SLOT_COUNT then DEFAULT_SLOT_COUNT else count);
          count = (if count < 2 then 2 else count)
      in ucast count)"

definition warmup_packet_count :: "u32 \<Rightarrow> u64" where
  "warmup_packet_count payload_size =
     (let count = (if payload_size = 0 then MAX_WARMUP_PACKETS else WARMUP_BYTE_BUDGET div ucast payload_size);
          count = (if count = 0 then 1 else count)
      in if count > MAX_WARMUP_PACKETS then MAX_WARMUP_PACKETS else count)"

record packetrate_options =
  pk_transport :: string
  pk_packets :: u64
  pk_payload :: u32
  pk_relays :: u32
  pk_slots :: u32
  pk_slots_set :: bool

definition packetrate_defaults :: packetrate_options where
  "packetrate_defaults = \<lparr>pk_transport = ''ring-eventfd'', pk_packets = 1000000, pk_payload = 8, pk_relays = 0,
     pk_slots = 0, pk_slots_set = False\<rparr>"

text \<open>The loop over \<open>argv[1]\<close> to \<open>argv[argc - 1]\<close>; \<open>None\<close> prints the usage and fails. An option that
  is the last argument has no value and is refused like an unknown one.\<close>

fun packetrate_args :: "string list \<Rightarrow> packetrate_options \<Rightarrow> packetrate_options option" where
  "packetrate_args [] opt = Some opt"
| "packetrate_args [a] opt = None"
| "packetrate_args (a # v # argv) opt =
     (if a = ''--transport'' then packetrate_args argv (opt\<lparr>pk_transport := v\<rparr>)
      else if a = ''--packets'' then
        (case parse_u64 v UINT64_MAX of None \<Rightarrow> None | Some n \<Rightarrow> packetrate_args argv (opt\<lparr>pk_packets := n\<rparr>))
      else if a = ''--payload'' then
        (case parse_size_u32 v of None \<Rightarrow> None | Some n \<Rightarrow> packetrate_args argv (opt\<lparr>pk_payload := n\<rparr>))
      else if a = ''--relays'' then
        (case parse_u32 v MAX_RELAYS of None \<Rightarrow> None | Some n \<Rightarrow> packetrate_args argv (opt\<lparr>pk_relays := n\<rparr>))
      else if a = ''--slots'' then
        (case parse_u32 v UINT32_MAX of
           None \<Rightarrow> None
         | Some n \<Rightarrow> packetrate_args argv (opt\<lparr>pk_slots := n, pk_slots_set := True\<rparr>))
      else None)"

datatype tool_error =
    Usage
  | Payload_Too_Large
  | Invalid_Slot_Count
  | Pool_Size_Overflow

record packetrate_plan =
  pp_slot_count :: u32
  pp_slot_capacity :: u32
  pp_component_count :: u32
  pp_edge_count :: u32
  pp_warmup_count :: u64
  pp_ring_transport :: bool
  pp_payload_offset :: u64
  pp_shm_size :: u64

text \<open>\<open>(control_size + 63) & ~63\<close>, as all three tools that lay out a pool write it.\<close>

definition round_up_64 :: "u64 \<Rightarrow> u64" where
  "round_up_64 control_size = (control_size + 63) AND NOT 63"

text \<open>From the options to the size of the shared memory, on a platform whose \<open>size_t\<close> has 64 bits.\<close>

definition packetrate_setup :: "packetrate_options \<Rightarrow> tool_error + packetrate_plan" where
  "packetrate_setup opt =
     (if pk_packets opt = 0 \<or> pk_slots_set opt \<and> pk_slots opt < 2 then Inl Usage
      else
        let slot_capacity = (if pk_payload opt \<noteq> 0 then pk_payload opt else 1);
            slot_stride = zipc_pool_required_payload_size 1 slot_capacity 0 PAYLOAD_ALIGNMENT
        in if slot_stride = 0 then Inl Payload_Too_Large
           else
             let slot_count = (if \<not> pk_slots_set opt then automatic_slot_count slot_stride else pk_slots opt);
                 component_count = pk_relays opt + 2;
                 ring_transport = (pk_transport opt = ''ring-eventfd'')
             in if \<not> ring_transport \<and> pk_transport opt \<noteq> ''fifo'' \<and> pk_transport opt \<noteq> ''unix-dgram'' \<and>
                   pk_transport opt \<noteq> ''mqueue''
                then Inl Usage
                else
                  let control_size = zipc_pool_required_control_size slot_count in
                  if control_size = 0 \<or> control_size > SIZE_MAX - 63 then Inl Invalid_Slot_Count
                  else
                    let payload_offset = round_up_64 control_size;
                        payload_bytes = zipc_pool_required_payload_size slot_count slot_capacity 0 PAYLOAD_ALIGNMENT
                    in if payload_bytes = 0 \<or> payload_bytes > SIZE_MAX - payload_offset
                       then Inl Pool_Size_Overflow
                       else Inr \<lparr>pp_slot_count = slot_count, pp_slot_capacity = slot_capacity,
                              pp_component_count = component_count, pp_edge_count = component_count - 1,
                              pp_warmup_count = warmup_packet_count (pk_payload opt),
                              pp_ring_transport = ring_transport, pp_payload_offset = payload_offset,
                              pp_shm_size = payload_offset + payload_bytes\<rparr>)"

definition packetrate_pool :: "nat \<Rightarrow> packetrate_plan \<Rightarrow> zipc_pool_config" where
  "packetrate_pool memory plan = \<lparr>cfg_control_memory = Some memory, cfg_control_offset = 0,
     cfg_payload_memory = None, cfg_payload_offset = pp_payload_offset plan, cfg_slot_count = pp_slot_count plan,
     cfg_slot_capacity = pp_slot_capacity plan, cfg_slot_stride = 0, cfg_payload_alignment = PAYLOAD_ALIGNMENT,
     cfg_flags = 0, cfg_pool_id = 0\<rparr>"

text \<open>The components at the two ends of an edge of the chain.\<close>

definition edge_source :: "u32 \<Rightarrow> zipc_component_id" where
  "edge_source edge = ucast (edge + ucast ZIPC_COMPONENT_ID_MIN)"

definition edge_destination :: "u32 \<Rightarrow> zipc_component_id" where
  "edge_destination edge = edge_source edge + 1"

text \<open>The transport configurations of an edge, sender first, both cleared by \<open>memset\<close>. The ring was
  mapped and the event descriptor opened before; the processes share them.\<close>

definition zero_transport_config :: "zipc_platform_transport_type \<Rightarrow> zipc_platform_transport_config" where
  "zero_transport_config kind = \<lparr>tc_type = kind, tc_endpoint_name = None, tc_create_endpoint = False, tc_device_path = None,
     tc_platform_handle = None, tc_receive_handle = None, tc_queue_length = 0, tc_ring_depth = 0, tc_poll_timeout_ns = 0,
     tc_timeout_ticks = 0, tc_shared_mailbox = None, tc_notification_index = 0, tc_signal_send = None, tc_signal_wait = None,
     tc_signal_context = 0, tc_secure_call = None, tc_secure_context = 0, tc_secure_service_id = 0, tc_xen_remote_domid = 0,
     tc_xen_remote_port = 0, tc_xen_static_port = 0\<rparr>"

definition edge_transports ::
  "nat \<Rightarrow> string \<Rightarrow> u32 \<Rightarrow> nat \<Rightarrow> int \<Rightarrow> u32 \<Rightarrow> zipc_platform_transport_config \<times> zipc_platform_transport_config" where
  "edge_transports pid transport_name slot_count ring event_fd edge =
     (if transport_name = ''ring-eventfd'' then
        let sender_transport = (zero_transport_config ZIPC_TRANSPORT_SHM_RING_EVENTFD)
              \<lparr>tc_platform_handle := Some ring, tc_receive_handle := Some event_fd, tc_ring_depth := slot_count\<rparr>
        in (sender_transport, sender_transport)
      else
        let tail = show_nat pid @ ''_'' @ show_nat (unat edge);
            sender_transport =
              (if transport_name = ''fifo''
               then (zero_transport_config ZIPC_TRANSPORT_FIFO)\<lparr>tc_endpoint_name := Some (''/tmp/zipc_tbench_'' @ tail @ ''.fifo'')\<rparr>
               else if transport_name = ''unix-dgram''
               then (zero_transport_config ZIPC_TRANSPORT_UNIX_DGRAM)\<lparr>tc_endpoint_name := Some (''/tmp/zipc_tbench_'' @ tail @ ''.sock'')\<rparr>
               else (zero_transport_config ZIPC_TRANSPORT_MESSAGE_QUEUE)\<lparr>tc_endpoint_name := Some (''/zipc_tbench_'' @ tail)\<rparr>)
        in (sender_transport, sender_transport\<lparr>tc_create_endpoint := True\<rparr>))"

definition edge_link_config ::
  "zipc_pool \<Rightarrow> zipc_component_id \<Rightarrow> zipc_component_id \<Rightarrow> zipc_platform_transport_config \<Rightarrow> zipc_link_config" where
  "edge_link_config pool local remote transport = \<lparr>lc_pool = Some pool, lc_local_component = local, lc_remote_component = remote,
     lc_link_id = 0, lc_local_epoch = 0, lc_role = ZIPC_LINK_ROLE_UNSPECIFIED, lc_hop_limit = 0, lc_default_deadline_ns = 0,
     lc_timeout_ticks = 0, lc_transport = transport\<rparr>"

text \<open>The links of an edge: the receiver's first, then the sender's. A failure ends the set-up.\<close>

definition create_edge ::
  "'w platform_ops \<Rightarrow> zipc_pool \<Rightarrow> u32 \<Rightarrow> zipc_platform_transport_config \<times> zipc_platform_transport_config \<Rightarrow> sys \<Rightarrow> 'w \<Rightarrow>
   zipc_status \<times> (zipc_link \<times> zipc_link) option \<times> 'w" where
  "create_edge pf pool edge transports s w =
     (let source = edge_source edge; destination = edge_destination edge;
          receiver_cfg = edge_link_config pool destination source (snd transports);
          sender_cfg = edge_link_config pool source destination (fst transports);
          (status, receiver, w) = zipc_link_create pf True (Some receiver_cfg) s w
      in if status \<noteq> ZIPC_OK then (status, None, w)
         else
           let (status, sender, w) = zipc_link_create pf True (Some sender_cfg) s w in
           if status \<noteq> ZIPC_OK then (status, None, w)
           else (ZIPC_OK, Some (the sender, the receiver), w))"

subsection \<open>zipc-ping\<close>

definition MAX_COMPONENTS :: u32 where "MAX_COMPONENTS = 16"
definition SLOT_COUNT :: u32 where "SLOT_COUNT = 32"
definition SLOT_SIZE :: u32 where "SLOT_SIZE = 4096"
definition SHM_SIZE :: u64 where "SHM_SIZE = 256 * 1024"

definition parse_unsigned :: "string \<Rightarrow> u32 option" where
  "parse_unsigned txt =
     (if first_is (\<lambda>c. c = CHR ''-'' \<or> c_space c) txt then None
      else case strtoull_base 0 txt of
             None \<Rightarrow> None
           | Some (parsed, erange, end) \<Rightarrow>
               if erange \<or> end \<noteq> [] \<or> parsed > ucast UINT32_MAX then None else Some (ucast parsed))"

definition ping_pool :: "nat \<Rightarrow> zipc_pool_config" where
  "ping_pool memory = \<lparr>cfg_control_memory = Some memory, cfg_control_offset = 0, cfg_payload_memory = None,
     cfg_payload_offset = round_up_64 (zipc_pool_required_control_size SLOT_COUNT), cfg_slot_count = SLOT_COUNT,
     cfg_slot_capacity = SLOT_SIZE, cfg_slot_stride = SLOT_SIZE, cfg_payload_alignment = 64, cfg_flags = 0,
     cfg_pool_id = 0\<rparr>"

text \<open>The links between two neighbours, one pair for each direction: both ends use the same ring and
  event descriptor; the sender's link is created first. A failure ends the set-up.\<close>

definition RING_DEPTH :: u32 where "RING_DEPTH = 64"

definition ping_transport :: "nat \<Rightarrow> int \<Rightarrow> zipc_platform_transport_config" where
  "ping_transport ring event_fd = (zero_transport_config ZIPC_TRANSPORT_SHM_RING_EVENTFD)
     \<lparr>tc_platform_handle := Some ring, tc_receive_handle := Some event_fd, tc_ring_depth := RING_DEPTH\<rparr>"

definition ping_source :: "bool \<Rightarrow> u32 \<Rightarrow> zipc_component_id" where
  "ping_source forward edge = ucast (if forward then edge + 1 else edge + 2)"

definition ping_destination :: "bool \<Rightarrow> u32 \<Rightarrow> zipc_component_id" where
  "ping_destination forward edge = ucast (if forward then edge + 2 else edge + 1)"

definition create_ping_edge ::
  "'w platform_ops \<Rightarrow> zipc_pool \<Rightarrow> bool \<Rightarrow> u32 \<Rightarrow> zipc_platform_transport_config \<Rightarrow> sys \<Rightarrow> 'w \<Rightarrow>
   zipc_status \<times> (zipc_link \<times> zipc_link) option \<times> 'w" where
  "create_ping_edge pf pool forward edge transport s w =
     (let src = ping_source forward edge; dst = ping_destination forward edge;
          sender_cfg = edge_link_config pool src dst transport;
          receiver_cfg = edge_link_config pool dst src transport;
          (setup_status, sender, w) = zipc_link_create pf True (Some sender_cfg) s w
      in if setup_status \<noteq> ZIPC_OK then (setup_status, None, w)
         else
           let (setup_status, receiver, w) = zipc_link_create pf True (Some receiver_cfg) s w in
           if setup_status \<noteq> ZIPC_OK then (setup_status, None, w)
           else (ZIPC_OK, Some (the sender, the receiver), w))"

subsection \<open>zipc-stat\<close>

definition stat_parse_u32 :: "string \<Rightarrow> u32 option" where
  "stat_parse_u32 s =
     (if first_is (\<lambda>c. c = CHR ''-'' \<or> c_space c) s then None
      else case strtoull_base 0 s of
             None \<Rightarrow> None
           | Some (value, erange, end) \<Rightarrow>
               if erange \<or> end \<noteq> [] \<or> value = 0 \<or> value > ucast UINT32_MAX then None else Some (ucast value))"

record stat_options =
  st_name :: string
  st_slots :: u32
  st_capacity :: u32
  st_show_free :: bool

definition stat_defaults :: stat_options where
  "stat_defaults = \<lparr>st_name = ''/zipc_pool'', st_slots = 64, st_capacity = 4096, st_show_free = False\<rparr>"

text \<open>How the loop over the arguments ends. The conditions advance \<open>i\<close> before they compare it with
  \<open>argc\<close>, so an option without its value leaves \<open>i = argc\<close> and the next \<open>strcmp\<close> of the chain reads
  \<open>argv[argc]\<close>, the null pointer.\<close>

datatype stat_result =
    Stat_Options stat_options
  | Stat_Usage
  | Stat_Invalid_Number
  | Null_Dereference

fun stat_args :: "string list \<Rightarrow> stat_options \<Rightarrow> stat_result" where
  "stat_args [] opt = Stat_Options opt"
| "stat_args (a # argv) opt =
     (if a = ''--name'' then
        (case argv of [] \<Rightarrow> Null_Dereference | v # argv \<Rightarrow> stat_args argv (opt\<lparr>st_name := v\<rparr>))
      else if a = ''--slots'' then
        (case argv of
           [] \<Rightarrow> Null_Dereference
         | v # argv \<Rightarrow>
             (case stat_parse_u32 v of
                None \<Rightarrow> Stat_Invalid_Number
              | Some n \<Rightarrow> stat_args argv (opt\<lparr>st_slots := n\<rparr>)))
      else if a = ''--capacity'' then
        (case argv of
           [] \<Rightarrow> Null_Dereference
         | v # argv \<Rightarrow>
             (case stat_parse_u32 v of
                None \<Rightarrow> Stat_Invalid_Number
              | Some n \<Rightarrow> stat_args argv (opt\<lparr>st_capacity := n\<rparr>)))
      else if a = ''--all'' then stat_args argv (opt\<lparr>st_show_free := True\<rparr>)
      else Stat_Usage)"

subsection \<open>zipc-membench\<close>

text \<open>The suffix is read without looking past it, and neither the conversion nor the product is checked.\<close>

definition parse_size :: "string \<Rightarrow> u64" where
  "parse_size txt =
     (case strtoull_base 0 txt of
        None \<Rightarrow> 0
      | Some (value, _, end) \<Rightarrow>
          if first_is (\<lambda>c. c = CHR ''K'' \<or> c = CHR ''k'') end then value * 1024
          else if first_is (\<lambda>c. c = CHR ''M'' \<or> c = CHR ''m'') end then value * (1024 * 1024)
          else if first_is (\<lambda>c. c = CHR ''G'' \<or> c = CHR ''g'') end then value * (1024 * 1024 * 1024)
          else if end \<noteq> [] then 0 else value)"

definition plain_number :: "string \<Rightarrow> u64" where
  "plain_number txt = (case strtoull_base 0 txt of None \<Rightarrow> 0 | Some (value, _) \<Rightarrow> value)"

record membench_options =
  mb_backend :: string
  mb_size :: u64
  mb_iterations :: u32
  mb_path :: "string option"
  mb_physical_address :: u64

definition membench_defaults :: membench_options where
  "membench_defaults = \<lparr>mb_backend = ''posix'', mb_size = 64 * 1024 * 1024, mb_iterations = 20, mb_path = None,
     mb_physical_address = 0\<rparr>"

fun membench_args :: "string list \<Rightarrow> membench_options \<Rightarrow> membench_options option" where
  "membench_args [] opt = Some opt"
| "membench_args [a] opt = None"
| "membench_args (a # v # argv) opt =
     (if a = ''--backend'' then membench_args argv (opt\<lparr>mb_backend := v\<rparr>)
      else if a = ''--size'' then membench_args argv (opt\<lparr>mb_size := parse_size v\<rparr>)
      else if a = ''--iterations'' then membench_args argv (opt\<lparr>mb_iterations := ucast (plain_number v)\<rparr>)
      else if a = ''--path'' then membench_args argv (opt\<lparr>mb_path := Some v\<rparr>)
      else if a = ''--phys'' then membench_args argv (opt\<lparr>mb_physical_address := plain_number v\<rparr>)
      else None)"

text \<open>The configuration cleared by \<open>memset\<close>; the type is set on every path that uses it.\<close>

definition zero_memory_config :: "zipc_platform_memory_type \<Rightarrow> u64 \<Rightarrow> zipc_platform_memory_config" where
  "zero_memory_config kind len = \<lparr>mc_type = kind, mc_size = len,
     mc_posix = \<lparr>fm_name = None, fm_create = False, fm_unlink_on_close = False\<rparr>,
     mc_hugepages = \<lparr>fm_name = None, fm_create = False, fm_unlink_on_close = False\<rparr>,
     mc_dtrevmem = \<lparr>dm_device_path = None, dm_physical_address = 0, dm_supports_cpu_atomics = False,
       dm_remote_accessible = False, dm_device_memory = False\<rparr>,
     mc_xen_static = \<lparr>xm_device_path = None, xm_guest_physical_address = 0, xm_supports_cpu_atomics = False,
       xm_cacheable = False\<rparr>,
     mc_preallocated = \<lparr>pr_address = None, pr_physical_address = 0, pr_capabilities = 0\<rparr>\<rparr>"

definition membench_memory :: "nat \<Rightarrow> membench_options \<Rightarrow> zipc_platform_memory_config option" where
  "membench_memory pid opt =
     (let path = mb_path opt; len = mb_size opt in
      if len = 0 \<or> mb_iterations opt = 0 then None
      else if mb_backend opt = ''posix'' then
        Some ((zero_memory_config ZIPC_SHM_POSIX len)\<lparr>mc_posix :=
          \<lparr>fm_name = Some (''/zipc_membench_'' @ show_nat pid), fm_create = True, fm_unlink_on_close = True\<rparr>\<rparr>)
      else if mb_backend opt = ''hugepages'' then
        Some ((zero_memory_config ZIPC_SHM_HUGEPAGES len)\<lparr>mc_hugepages :=
          \<lparr>fm_name = (case path of None \<Rightarrow> Some (''/dev/hugepages/zipc_membench_'' @ show_nat pid) | Some p \<Rightarrow> Some p),
           fm_create = True, fm_unlink_on_close = True\<rparr>\<rparr>)
      else if mb_backend opt = ''dtrevmem-cached'' \<or> mb_backend opt = ''dtrevmem-uncached'' then
        (if mb_physical_address opt = 0 then None
        else
          let kind = (if mb_backend opt = ''dtrevmem-cached'' then ZIPC_SHM_DTREVMEM_CACHED
                      else ZIPC_SHM_DTREVMEM_UNCACHED)
          in Some ((zero_memory_config kind len)\<lparr>mc_dtrevmem :=
               \<lparr>dm_device_path = Some (case path of None \<Rightarrow> ''/dev/mem'' | Some p \<Rightarrow> p),
                dm_physical_address = mb_physical_address opt, dm_supports_cpu_atomics = True,
                dm_remote_accessible = True, dm_device_memory = (kind = ZIPC_SHM_DTREVMEM_UNCACHED)\<rparr>\<rparr>))
      else None)"

end
