(* ===== verification/Relay_Chain.thy ===== *)
theory Relay_Chain
  imports Link_Properties
begin

text \<open>
  Chains of relays, as \<^verbatim>\<open>utilities/zipc-packetrate.c\<close> builds them: component \<open>i\<close> receives a buffer on
  the link of edge \<open>i - 1\<close> and sends it on over the link of edge \<open>i\<close>; the last component releases it.
  The loop bodies are modelled over any platform. The theorem follows one packet through a chain of
  shared rings.
\<close>

subsection \<open>The components of a chain\<close>

text \<open>The fields of \<open>edge_link_t\<close> that the loops use: the shared ring and the two links.\<close>

record edge_link =
  el_ring :: nat
  el_sender :: zipc_link
  el_receiver :: zipc_link

text \<open>One turn of the loop of \<open>run_receiver\<close>: receive, then release in the final component, else
  forward. A status other than OK ends the process; \<open>None\<close> is a receive that never returns.\<close>

definition receiver_step ::
  "'w platform_ops \<Rightarrow> zipc_link \<Rightarrow> zipc_link option \<Rightarrow> sys \<Rightarrow> 'w \<Rightarrow> (zipc_status \<times> zipc_buffer option \<times> sys \<times> 'w) option" where
  "receiver_step pf receiver sender s w =
     (case zipc_recv pf (Some receiver) (Some buffer_zero) s w of
        None \<Rightarrow> None
      | Some (status, buffer, s, w) \<Rightarrow>
          if status \<noteq> ZIPC_OK then Some (status, buffer, s, w)
          else case sender of
                 None \<Rightarrow> (case zipc_buffer_release buffer s of (status, buffer, s) \<Rightarrow> Some (status, buffer, s, w))
               | Some l \<Rightarrow> Some (zipc_send pf (Some l) buffer s w))"

fun receiver_loop ::
  "'w platform_ops \<Rightarrow> zipc_link \<Rightarrow> zipc_link option \<Rightarrow> nat \<Rightarrow> sys \<Rightarrow> 'w \<Rightarrow> (zipc_status \<times> sys \<times> 'w) option" where
  "receiver_loop pf receiver sender 0 s w = Some (ZIPC_OK, s, w)"
| "receiver_loop pf receiver sender (Suc n) s w =
     (case receiver_step pf receiver sender s w of
        None \<Rightarrow> None
      | Some (status, _, s, w) \<Rightarrow>
          if status \<noteq> ZIPC_OK then Some (status, s, w) else receiver_loop pf receiver sender n s w)"

text \<open>The wait for a free buffer of the sending component. \<open>others\<close> is what the other processes do to the
  pool during \<open>sched_yield\<close>. A status other than OK and no-buffer ends the process.\<close>

partial_function (option) buffer_get_wait ::
  "(sys \<Rightarrow> sys) \<Rightarrow> zipc_link \<Rightarrow> zipc_buffer option \<Rightarrow> sys \<Rightarrow> (zipc_status \<times> zipc_buffer option \<times> sys) option" where
  "buffer_get_wait others sender buffer s =
     (case zipc_buffer_alloc_ex (Some sender) 0 0 0 buffer None False s of
        None \<Rightarrow> None
      | Some (status, buffer, s) \<Rightarrow>
          if status = ZIPC_OK then Some (status, buffer, s)
          else if status \<noteq> ZIPC_ERR_NO_BUFFER then Some (status, buffer, s)
          else buffer_get_wait others sender buffer (others s))"

text \<open>One turn of the loops of \<open>run_sender\<close>.\<close>

definition sender_step ::
  "'w platform_ops \<Rightarrow> (sys \<Rightarrow> sys) \<Rightarrow> zipc_link \<Rightarrow> u8 list option \<Rightarrow> u32 \<Rightarrow> sys \<Rightarrow> 'w \<Rightarrow>
   (zipc_status \<times> zipc_buffer option \<times> sys \<times> 'w) option" where
  "sender_step pf others sender payload payload_size s w =
     (case buffer_get_wait others sender (Some buffer_zero) s of
        None \<Rightarrow> None
      | Some (status, buffer, s) \<Rightarrow>
          if status \<noteq> ZIPC_OK then Some (status, buffer, s, w)
          else
            (case zipc_buffer_append buffer payload payload_size s of
               (status, buffer, s) \<Rightarrow>
                 if status \<noteq> ZIPC_OK then Some (status, buffer, s, w)
                 else Some (zipc_send pf (Some sender) buffer s w)))"

text \<open>The rest of a packet's way: the component behind \<open>receiver\<close> takes one turn, then the component
  behind the next edge, up to the last, which is left with the buffer it received.\<close>

fun relay_run ::
  "'w platform_ops \<Rightarrow> zipc_link \<Rightarrow> edge_link list \<Rightarrow> sys \<Rightarrow> 'w \<Rightarrow> (zipc_status \<times> zipc_buffer option \<times> sys \<times> 'w) option" where
  "relay_run pf receiver [] s w = zipc_recv pf (Some receiver) (Some buffer_zero) s w"
| "relay_run pf receiver (e # es) s w =
     (case receiver_step pf receiver (Some (el_sender e)) s w of
        None \<Rightarrow> None
      | Some (status, buffer, s, w) \<Rightarrow>
          if status \<noteq> ZIPC_OK then Some (status, buffer, s, w) else relay_run pf (el_receiver e) es s w)"

subsection \<open>Rings that leave each other alone\<close>

lemma ring_take_frame:
  assumes tr: "ring_transport a t h" and b: "zipc_platform_transport_receive_begin (Some t) True (Some k0) h = Some (ZIPC_OK, m, k, h1)"
    and c: "zipc_platform_transport_receive_commit (Some t) k h1 = (st, k', h2)"
  shows "ring_frame a h h2"
proof -
  have g: "ring_grown a h h1" "pending a h1 \<noteq> []" "k = Some (token_for a t h1)"
    using receive_begin_outcome [OF tr b] by simp_all
  then have "ring_transport a t h1" using tr ring_transport_frame by (auto simp: ring_grown_def)
  from receive_commit_outcome [OF this g(2)] have "ring_frame a h1 h2" using c g(3) by auto
  then show ?thesis using g(1) by (auto simp: ring_grown_def intro: ring_frame_trans)
qed

text \<open>The channel of a ring again, with the frame since a host \<open>h0\<close> as part of its state.\<close>

interpretation framed_link: prompt_channel linux_platform "Some t1" "Some t2"
  "\<lambda>h. ring_endpoints a t1 t2 h \<and> ring_frame a h0 h" "pending a" queue_push for a t1 t2 h0
proof (unfold_locales, goal_cases)
  case (1 w m st w')
  have "ring_frame a w w'" using ring_send_outcome [of a t1 w m st w'] 1 by (simp add: linux_platform_def)
  then show ?case using ring_link.send_law [of a t1 w t2 m st w'] 1 ring_frame_trans [of a h0 w w'] by simp
next
  case (2 w st msg k w')
  have "ring_frame a w w'"
    using receive_begin_outcome [of a t2 w zero_token st msg k w'] 2 by (simp add: linux_platform_def ring_grown_def)
  then show ?case using ring_link.idle_law [of a t1 w t2 st msg k w'] 2 ring_frame_trans [of a h0 w w'] by simp
next
  case (3 w msg k w' st w'')
  obtain k' where c: "zipc_platform_transport_receive_commit (Some t2) k w' = (st, k', w'')"
    using 3(3) by (cases "zipc_platform_transport_receive_commit (Some t2) k w'") (auto simp: linux_platform_def)
  have "ring_frame a w w''" using ring_take_frame [OF _ _ c] 3(1,2) by (auto simp: linux_platform_def)
  then show ?case using ring_link.take_law [of a t1 w t2 msg k w' st w''] 3 ring_frame_trans [of a h0 w w''] by simp
next
  case (4 m)
  then show ?case by (rule ring_link.push_empty)
next
  case (5 w)
  then show ?case using ring_link.begin_prompt [of a t1 w t2] 5 by simp
qed

subsection \<open>Readiness\<close>

text \<open>A send on the transport that finds room also wakes the peer: the ring is polled, or the writes
  to the event descriptor succeed.\<close>

definition wakes :: "nat \<Rightarrow> linux_host \<Rightarrow> bool" where
  "wakes t h \<longleftrightarrow> tr_type (lh_transport h t) = ZIPC_TRANSPORT_SHM_RING_POLLING \<or>
     (\<forall>n. re_value (lh_reply h n) = sizeof_event_counter)"

text \<open>An edge from component \<open>c\<close>: two links of the current epochs over one ring, which is empty.\<close>

definition edge_ready :: "zipc_pool \<Rightarrow> sys \<Rightarrow> linux_host \<Rightarrow> zipc_component_id \<Rightarrow> edge_link \<Rightarrow> bool" where
  "edge_ready p s h c e \<longleftrightarrow>
     (let l1 = el_sender e; l2 = el_receiver e in
      lk_pool l1 = p \<and> lk_pool l2 = p \<and> lk_local_component l1 = c \<and> lk_remote_component l2 = c \<and>
      lk_remote_component l1 = lk_local_component l2 \<and> zipc_component_id_valid (lk_local_component l2) \<and>
      lk_local_epoch l1 = registered_epoch s (Some p) c \<and>
      lk_local_epoch l2 = registered_epoch s (Some p) (lk_local_component l2) \<and>
      (case (lk_transport l1, lk_transport l2) of
         (Some t1, Some t2) \<Rightarrow> ring_endpoints (el_ring e) t1 t2 h \<and> wakes t1 h
       | _ \<Rightarrow> False) \<and>
      pending (el_ring e) h = [])"

fun chain_ready :: "zipc_pool \<Rightarrow> sys \<Rightarrow> linux_host \<Rightarrow> zipc_component_id \<Rightarrow> edge_link list \<Rightarrow> bool" where
  "chain_ready p s h c [] \<longleftrightarrow> True"
| "chain_ready p s h c (e # es) \<longleftrightarrow> edge_ready p s h c e \<and> el_ring e \<notin> el_ring ` set es \<and>
     chain_ready p s h (lk_local_component (el_receiver e)) es"

text \<open>A component that holds a buffer it can send on: no operation is under way on the slot, and
  the buffer has neither a deadline nor a hop limit.\<close>

definition holds_buffer :: "zipc_pool \<Rightarrow> sys \<Rightarrow> zipc_buffer \<Rightarrow> zipc_component_id \<Rightarrow> bool" where
  "holds_buffer p s v c \<longleftrightarrow> pool_inv s p \<and> current_view s p v \<and> buf_owner v = c \<and> zipc_component_id_valid c \<and>
     (let sl = slot_of s (slot_ptr p (buf_slot_id v)) in
      sc_claim_token sl = 0 \<and> sc_deadline_ns sl = ZIPC_DEADLINE_NONE \<and> sc_hop_limit sl = ZIPC_HOP_LIMIT_UNLIMITED)"

lemma edge_ready_elims:
  assumes "edge_ready p s h c e"
  obtains t1 t2 where "lk_transport (el_sender e) = Some t1" "lk_transport (el_receiver e) = Some t2"
    "ring_endpoints (el_ring e) t1 t2 h" "wakes t1 h" "pending (el_ring e) h = []" "lk_pool (el_sender e) = p"
    "lk_pool (el_receiver e) = p" "lk_local_component (el_sender e) = c" "lk_remote_component (el_receiver e) = c"
    "lk_local_component (el_receiver e) = lk_remote_component (el_sender e)" "zipc_component_id_valid (lk_remote_component (el_sender e))"
    "lk_local_epoch (el_sender e) = registered_epoch s (Some p) c"
    "lk_local_epoch (el_receiver e) = registered_epoch s (Some p) (lk_remote_component (el_sender e))"
  using assms by (auto simp: edge_ready_def Let_def split: option.splits)

lemma current_epoch_link: "lk_local_epoch l = registered_epoch s (Some (lk_pool l)) (lk_local_component l) \<Longrightarrow> \<not> link_stale s l"
  by (auto simp: link_stale_def component_epoch_current_def registered_epoch_def Let_def split: if_splits)

lemma chain_ready_later:
  assumes "\<forall>x. registered_epoch u (Some p) x = registered_epoch s (Some p) x" "ring_frame a h h2" "a \<notin> el_ring ` set es"
    and "chain_ready p s h c es"
  shows "chain_ready p u h2 c es"
  using assms(3,4)
proof (induction es arbitrary: c)
  case (Cons e es)
  have "lh_rings h2 (el_ring e) = lh_rings h (el_ring e)" "lh_transport h2 = lh_transport h" "lh_reply h2 = lh_reply h"
    using assms(2) Cons.prems(1) by (auto simp: ring_frame_def)
  then have "edge_ready p u h2 c e"
    using Cons.prems(2) assms(1) by (auto simp: edge_ready_def wakes_def ring_transport_def pending_def Let_def split: option.splits)
  then show ?case using Cons by simp
qed simp

lemma chain_ready_epochs:
  "\<forall>x. registered_epoch u (Some p) x = registered_epoch s (Some p) x \<Longrightarrow> chain_ready p u h c es = chain_ready p s h c es"
  by (induction es arbitrary: c) (simp_all add: edge_ready_def)

subsection \<open>One edge\<close>

lemma ring_send_wakes:
  assumes "ring_transport a t h" "wakes t h" "pending a h = []"
  shows "fst (zipc_platform_transport_send (Some t) (Some m) h) = ZIPC_OK"
proof -
  from assms(1) have inv: "ring_invar (lh_rings h a)" and ring: "tr_ring (lh_transport h t) = Some a"
    and ty: "tr_type (lh_transport h t) = ZIPC_TRANSPORT_SHM_RING_EVENTFD \<or> tr_type (lh_transport h t) = ZIPC_TRANSPORT_SHM_RING_POLLING"
    by (simp_all add: ring_transport_def)
  show ?thesis
  proof (cases rule: ring_push_list [OF inv, of m, case_names ok full])
    case (ok r')
    then have "push_descriptor (Some a) m h = (ZIPC_OK, h\<lparr>lh_rings := (lh_rings h)(a := r')\<rparr>)"
      by (simp add: push_descriptor_def ring_at_def store_ring_def)
    then show ?thesis
      using ring ty assms(2) by (auto simp: zipc_platform_transport_send_def os_call_eq wakes_def Let_def)
  next
    case full
    have "ring_consumer (lh_rings h a) = ring_producer (lh_rings h a)"
      using assms(3) ring_list_empty_iff by (simp add: pending_def)
    then show ?thesis using full(2) inv by (simp add: ring_used_def ring_invar_def ring_wf_def word_le_nat_alt)
  qed
qed

lemma holder_send_ready:
  assumes "holds_buffer p s v c" "zipc_component_id_valid d"
  shows "send_ready s p (buf_handle v) c d"
proof -
  have cur: "current_view s p v" using assms(1) by (simp add: holds_buffer_def)
  note f = current_view_fields [OF cur]
  show ?thesis
    using assms f(1,2,7,8,12) by (simp add: holds_buffer_def send_ready_def owned_by_def buffer_owned_def deadline_open_def hops_left_def Let_def)
qed

lemma edge_send:
  assumes hold: "holds_buffer p s v c" and lax: "pool_flags p AND ZIPC_POOL_F_STRICT_OWNERSHIP = 0" and edge: "edge_ready p s h c e"
  obtains t h' where "zipc_send linux_platform (Some (el_sender e)) (Some v) s h = (ZIPC_OK, Some buffer_zero, t, h')"
proof -
  from edge obtain t1 t2 where e: "lk_transport (el_sender e) = Some t1" "ring_transport (el_ring e) t1 h" "wakes t1 h" "pending (el_ring e) h = []"
    "lk_pool (el_sender e) = p" "lk_local_component (el_sender e) = c" "zipc_component_id_valid (lk_remote_component (el_sender e))"
    "lk_local_epoch (el_sender e) = registered_epoch s (Some p) c"
    by (elim edge_ready_elims) auto
  have cur: "current_view s p v" and own: "buf_owner v = c" and shape: "pool_shape s p"
    using hold by (simp_all add: holds_buffer_def pool_inv_shape)
  note f = current_view_fields [OF cur]
  have ep: "buf_owner_epoch v = registered_epoch s (Some p) c" using f(1,7) own by (simp add: buffer_owned_def Let_def)
  have st: "\<not> link_stale s (el_sender e)" using current_epoch_link e(5,6,8) by simp
  let ?prep = "buffer_prepare_transfer_internal (Some p) (buf_handle v) c (lk_remote_component (el_sender e)) (lk_link_id (el_sender e)) True s"
  obtain m t where prep: "?prep = (ZIPC_OK, Some m, t)"
    using prepare_outcome [OF shape, of "buf_handle v" c "lk_remote_component (el_sender e)" "lk_link_id (el_sender e)" True]
      holder_send_ready [OF hold e(7)] lax by metis
  have "fst (op_send linux_platform (Some t1) m h) = ZIPC_OK"
    using ring_send_wakes [OF e(2,3,4), of m] by (simp add: linux_platform_def)
  then obtain h' where "op_send linux_platform (Some t1) m h = (ZIPC_OK, h')" by (metis prod.collapse)
  then show thesis
    using that [of t h'] f(1,7) own ep st e prep by (simp add: zipc_send_def buffer_invalidate_def Let_def)
qed

text \<open>What the receiver at the far end of the edge holds after the sender's buffer has arrived.\<close>

definition arrived :: "zipc_pool \<Rightarrow> zipc_buffer \<Rightarrow> sys \<Rightarrow> zipc_component_id \<Rightarrow> zipc_buffer \<Rightarrow> sys \<Rightarrow> nat \<Rightarrow> bool" where
  "arrived p v s c v2 u n \<longleftrightarrow> holds_buffer p u v2 c \<and> buf_handle v2 = buf_handle v \<and> view_bytes u p v2 = view_bytes s p v \<and>
     (let c = slot_ptr p (zipc_handle_slot_id (buf_handle v)) in
      sc_hop_count (slot_of u c) = sc_hop_count (slot_of s c) + of_nat n) \<and>
     (\<forall>x. registered_epoch u (Some p) x = registered_epoch s (Some p) x) \<and> (payload_ok s p \<longrightarrow> payload_ok u p)"

lemma payload_ok_frame: "frame C s t \<Longrightarrow> payload_ok s p \<Longrightarrow> payload_ok t p"
  by (simp add: payload_ok_def frame_def hdr_static_def)

lemma arrived_trans: "arrived p v s c v2 u n \<Longrightarrow> arrived p v2 u c' v3 t m \<Longrightarrow> arrived p v s c' v3 t (n + m)"
  by (simp add: arrived_def Let_def)

lemma hop_arrives:
  assumes hold: "holds_buffer p s v c" and lax: "pool_flags p AND ZIPC_POOL_F_STRICT_OWNERSHIP = 0" and d: "zipc_component_id_valid d"
    and prep: "buffer_prepare_transfer_internal (Some p) (buf_handle v) c d link True s = (ZIPC_OK, Some m, t)"
    and claim: "zipc_buffer_claim (Some p) (Some m) d (Some b) t = (ZIPC_OK, Some v2, u)"
  shows "arrived p v s d v2 u 1"
proof -
  have inv: "pool_inv s p" and cur: "current_view s p v" using hold by (simp_all add: holds_buffer_def)
  then have len: "length (ph_components (hdr s (the (Some p)))) = 256" by (simp add: pool_inv_def pool_shape_def)
  have dl: "deadline_open (sys_clock t (sys_ticks t)) (slot_of s (slot_ptr p (buf_slot_id v)))"
    using hold by (simp add: holds_buffer_def deadline_open_def Let_def)
  note tk = transfer_keeps_bytes [OF inv lax cur prep dl]
  have mh: "msg_handle m = buf_handle v" using tk(2) by (simp add: transfer_message_def)
  obtain n where f1: "frame {slot_ptr p (zipc_handle_slot_id (buf_handle v))} s t"
    and s1: "slot_of t (slot_ptr p (zipc_handle_slot_id (buf_handle v))) = (add_trace n c ZIPC_TRACE_SEND (transfer_fields c d link
      ((slot_of s (slot_ptr p (zipc_handle_slot_id (buf_handle v))))\<lparr>sc_claim_previous_sequence :=
         sc_transfer_sequence (slot_of s (slot_ptr p (zipc_handle_slot_id (buf_handle v))))\<rparr>)))\<lparr>sc_state := ZIPC_SLOT_TRANSFER, sc_claim_token := 0\<rparr>"
    by (rule transfer_prepared [OF inv prep])
  obtain k where f2: "frame {slot_ptr p (zipc_handle_slot_id (msg_handle m))} t u"
    and s2: "slot_of u (slot_ptr p (zipc_handle_slot_id (msg_handle m))) = (add_trace k d ZIPC_TRACE_RECEIVE (receive_fields d (registered_epoch t (Some p) d)
       (sys_clock t (sys_ticks t)) (slot_of t (slot_ptr p (zipc_handle_slot_id (msg_handle m))))))\<lparr>sc_state := ZIPC_SLOT_OWNED, sc_claim_token := 0\<rparr>"
    by (rule transfer_claimed [OF tk(1) claim lax])
  have "registered_epoch u (Some p) x = registered_epoch s (Some p) x" for x
    using registered_epoch_frame [OF frame_trans [OF f1 f2 [unfolded mh]] len] .
  moreover have r: "implements p t (Some (Ev_Receive d)) u" "current_view u p v2" "buf_handle v2 = buf_handle v" "buf_owner v2 = d"
    using claim_result [OF tk(1) lax claim] mh by simp_all
  moreover have "pool_inv u p" using r(1) by (simp add: implements_def)
  moreover note tk(4) [OF claim] current_view_fields(12) [OF r(2)] current_view_fields(12) [OF cur]
    payload_ok_frame [OF frame_trans [OF f1 f2 [unfolded mh]], of p]
  ultimately show ?thesis
    using hold d s1 s2 mh by (simp add: arrived_def holds_buffer_def receive_fields_def transfer_fields_def Let_def)
qed

lemma edge_arrive:
  assumes hold: "holds_buffer p s v c" and lax: "pool_flags p AND ZIPC_POOL_F_STRICT_OWNERSHIP = 0" and edge: "edge_ready p s h c e"
    and sent: "zipc_send linux_platform (Some (el_sender e)) (Some v) s h = (ZIPC_OK, v', t, h1)"
  obtains v2 u h2 where "zipc_recv linux_platform (Some (el_receiver e)) (Some b) t h1 = Some (ZIPC_OK, Some v2, u, h2)"
    "arrived p v s (lk_local_component (el_receiver e)) v2 u 1" "ring_frame (el_ring e) h h2"
proof -
  let ?d = "lk_remote_component (el_sender e)"
  from edge obtain t1 t2 where l: "lk_transport (el_sender e) = Some t1" "lk_transport (el_receiver e) = Some t2"
    "ring_endpoints (el_ring e) t1 t2 h" "pending (el_ring e) h = []" "lk_pool (el_sender e) = p" "lk_pool (el_receiver e) = p"
    "lk_local_component (el_sender e) = c" "lk_remote_component (el_receiver e) = c" "lk_local_component (el_receiver e) = ?d"
    "zipc_component_id_valid ?d" "lk_local_epoch (el_receiver e) = registered_epoch s (Some p) ?d"
    by (elim edge_ready_elims) blast
  have inv: "pool_inv s p" and cur: "current_view s p v" using hold by (simp_all add: holds_buffer_def)
  then have len: "length (ph_components (hdr s (the (Some p)))) = 256" by (simp add: pool_inv_def pool_shape_def)
  obtain msg where pm: "buffer_prepare_transfer_internal (Some p) (buf_handle v) c ?d (lk_link_id (el_sender e)) True s = (ZIPC_OK, msg, t)"
    using send_ok_prepared [OF sent] l(5,7) by metis
  obtain m where m: "msg = Some m" and fr: "frame {slot_ptr p (zipc_handle_slot_id (buf_handle v))} s t"
    by (rule transfer_prepared [OF inv pm]) blast
  have dl: "deadline_open (sys_clock t (sys_ticks t)) (slot_of s (slot_ptr p (buf_slot_id v)))"
    using hold by (simp add: holds_buffer_def deadline_open_def Let_def)
  note tk = transfer_keeps_bytes [OF inv lax cur pm [unfolded m] dl]
  have ep: "registered_epoch t (Some p) x = registered_epoch s (Some p) x" for x by (rule registered_epoch_frame [OF fr len])
  have ok0: "ring_endpoints (el_ring e) t1 t2 h \<and> ring_frame (el_ring e) h h" using l(3) by simp
  have q: "ring_endpoints (el_ring e) t1 t2 h1 \<and> ring_frame (el_ring e) h h1" "pending (el_ring e) h1 = [m]"
    using framed_link.send_all_or_nothing [OF inv lax cur ok0 l(5,1) sent] l(4,7) tk(2) by (simp_all add: queue_push_def)
  have src: "msg_source_component m = lk_remote_component (el_receiver e)" using tk(2) l(8) by (simp add: transfer_message_def)
  have live: "\<not> link_stale t (el_receiver e)" using current_epoch_link [of "el_receiver e" t] l(6,9,11) ep by simp
  obtain v2 u h2 where r: "zipc_recv linux_platform (Some (el_receiver e)) (Some b) t h1 = Some (ZIPC_OK, Some v2, u, h2)"
      "zipc_buffer_claim (Some p) (Some m) (lk_local_component (el_receiver e)) (Some buffer_zero) t = (ZIPC_OK, Some v2, u)"
      "ring_frame (el_ring e) h h2"
    using framed_link.recv_first [OF tk(1) lax q(1) l(6,2) live q(2) src tk(3) [folded l(9)], of b] by blast
  show thesis
    using that [OF r(1) _ r(3)] hop_arrives [OF hold lax l(10) pm [unfolded m] r(2) [unfolded l(9)]] l(9) by simp
qed

subsection \<open>The whole chain\<close>

lemma holder_releases:
  assumes "holds_buffer p s v c" "pool_flags p AND ZIPC_POOL_F_STRICT_OWNERSHIP = 0"
  obtains t where "zipc_buffer_release (Some v) s = (ZIPC_OK, Some buffer_zero, t)" "pool_inv t p"
    "slot_available (slot_of t (slot_ptr p (zipc_handle_slot_id (buf_handle v))))"
proof -
  have inv: "pool_inv s p" and cur: "current_view s p v" and own: "buf_owner v = c" using assms(1) by (simp_all add: holds_buffer_def)
  note f = current_view_fields [OF cur]
  have rdy: "release_ready s p (buf_handle v) c"
    using holder_send_ready [OF assms(1), of c] assms(1) by (simp add: release_ready_def send_ready_def holds_buffer_def Let_def)
  show thesis
  proof (cases rule: release_outcome [OF pool_inv_shape [OF inv], of "buf_handle v" c, case_names ok refused])
    case (ok t)
    have "pool_inv t p" using release_implements [OF inv ok(1)] by (simp add: implements_def)
    moreover have "zipc_buffer_release (Some v) s = (ZIPC_OK, Some buffer_zero, t)"
      using f(1,7) own ok(1) by (simp add: zipc_buffer_release_def buffer_invalidate_def Let_def)
    ultimately show thesis using that [of t] ok(5) by (simp add: slot_available_def slot_freed_def)
  qed (use rdy assms(2) in simp)
qed

lemma chain_end:
  assumes "holds_buffer p s v c" "pool_flags p AND ZIPC_POOL_F_STRICT_OWNERSHIP = 0" "chain_ready p s h c (e # es)"
    and "zipc_send linux_platform (Some (el_sender e)) (Some v) s h = (ZIPC_OK, v', t, h1)"
  shows "\<exists>v2 u h2. relay_run linux_platform (el_receiver e) es t h1 = Some (ZIPC_OK, Some v2, u, h2) \<and>
    arrived p v s (lk_local_component (el_receiver (last (e # es)))) v2 u (Suc (length es))"
  using assms(1,3,4)
proof (induction es arbitrary: e s h c v v' t h1)
  case Nil
  then have "edge_ready p s h c e" by simp
  from edge_arrive [OF Nil.prems(1) assms(2) this Nil.prems(3)] show ?case by (metis One_nat_def last.simps list.size(3) relay_run.simps(1))
next
  case (Cons e' es)
  let ?d = "lk_local_component (el_receiver e)"
  from Cons.prems(2) have er: "edge_ready p s h c e" and nr: "el_ring e \<notin> el_ring ` set (e' # es)"
    and rest: "chain_ready p s h ?d (e' # es)" by simp_all
  obtain v2 u h2 where a: "zipc_recv linux_platform (Some (el_receiver e)) (Some buffer_zero) t h1 = Some (ZIPC_OK, Some v2, u, h2)"
    "arrived p v s ?d v2 u 1" "ring_frame (el_ring e) h h2"
    by (rule edge_arrive [OF Cons.prems(1) assms(2) er Cons.prems(3)])
  have hold: "holds_buffer p u v2 ?d" and ep: "\<forall>x. registered_epoch u (Some p) x = registered_epoch s (Some p) x"
    using a(2) by (simp_all add: arrived_def)
  have ready: "chain_ready p u h2 ?d (e' # es)" by (rule chain_ready_later [OF ep a(3) nr rest])
  then have "edge_ready p u h2 ?d e'" by simp
  then obtain t' h3 where snd: "zipc_send linux_platform (Some (el_sender e')) (Some v2) u h2 = (ZIPC_OK, Some buffer_zero, t', h3)"
    by (rule edge_send [OF hold assms(2)])
  obtain v3 u3 h4 where r: "relay_run linux_platform (el_receiver e') es t' h3 = Some (ZIPC_OK, Some v3, u3, h4)"
    "arrived p v2 u (lk_local_component (el_receiver (last (e' # es)))) v3 u3 (Suc (length es))"
    using Cons.IH [OF hold ready snd] by blast
  have "relay_run linux_platform (el_receiver e) (e' # es) t h1 = Some (ZIPC_OK, Some v3, u3, h4)"
    using a(1) snd r(1) by (simp add: receiver_step_def)
  then show ?case using arrived_trans [OF a(2) r(2)] by simp
qed

text \<open>The sending component: allocation and the payload.\<close>

lemma allocation_succeeds:
  assumes inv: "pool_inv s p" and lax: "pool_flags p AND ZIPC_POOL_F_STRICT_OWNERSHIP = 0" and gen: "identity_ready s c"
    and c: "zipc_component_id_valid c" and free: "i < ph_slot_count (hdr s p)" "slot_available (slot_of s (slot_ptr p i))"
    and cnt: "unat (ph_slot_count (hdr s p)) \<le> 2 ^ 31"
    and l: "lk_pool l = p" "lk_local_component l = c" "lk_local_epoch l = registered_epoch s (Some p) c"
  shows "\<exists>b' t. zipc_buffer_alloc_ex (Some l) 0 0 0 (Some b) None False s = Some (ZIPC_OK, b', t)"
proof -
  note shape = pool_inv_shape [OF inv]
  have gens: "gens_ready s" using inv by (simp add: pool_inv_def)
  have args: "allocation_args_ok s p c 0 0 0" using c by (simp add: allocation_args_ok_def)
  have st: "ph_allocation_cursor (hdr s p) mod ph_slot_count (hdr s p) < ph_slot_count (hdr s p)"
    using shape by (simp add: pool_shape_def word_less_nat_alt unat_mod word_neq_0_conv)
  obtain k where k: "k < unat (ph_slot_count (hdr s p))"
    "scan_slot s p (ph_allocation_cursor (hdr s p) mod ph_slot_count (hdr s p)) k = i"
    by (rule scan_slot_surj [OF shape cnt st free(1)])
  let ?run = "buffer_allocate_internal (Some p) c 0 0 0 (lk_local_epoch l) (lk_hop_limit l) (lk_default_deadline_ns l) True (Some buffer_zero) s"
  have "?run \<noteq> None"
    by (cases rule: allocate_outcome [OF shape gens, of c 0 0 0 "lk_local_epoch l" "lk_hop_limit l" "lk_default_deadline_ns l" True buffer_zero])
      simp_all
  then obtain r b' t where run: "?run = Some (r, b', t)" by auto
  have "r = ZIPC_OK" using allocation_status [OF inv args run _ k(1)] k(2) free(2) lax gen by blast
  moreover have "\<not> link_stale s l" using current_epoch_link [of l s] l by simp
  ultimately show ?thesis using run l by (simp add: zipc_buffer_alloc_ex_def buffer_invalidate_def)
qed

lemma allocation_holds:
  assumes inv: "pool_inv s p" and ok: "payload_ok s p"
    and l: "lk_pool l = p" "lk_local_component l = c" "lk_local_epoch l = registered_epoch s (Some p) c"
      "lk_hop_limit l = ZIPC_HOP_LIMIT_UNLIMITED" "lk_default_deadline_ns l = 0"
    and res: "zipc_buffer_alloc_ex (Some l) 0 0 0 (Some b) None False s = Some (ZIPC_OK, b', t)"
  obtains v where "b' = Some v" "holds_buffer p t v c" "payload_ok t p" "bv_body (view_bytes t p v) = []"
    "length (bv_tail (view_bytes t p v)) = unat (ph_slot_capacity (hdr s p))"
    "\<forall>x. registered_epoch t (Some p) x = registered_epoch s (Some p) x" "sc_hop_count (slot_of t (slot_ptr p (buf_slot_id v))) = 1"
proof -
  have run: "buffer_allocate_internal (Some p) c 0 0 0 (lk_local_epoch l) ZIPC_HOP_LIMIT_UNLIMITED 0 True (Some buffer_zero) s = Some (ZIPC_OK, b', t)"
    using res l by (simp add: zipc_buffer_alloc_ex_def buffer_invalidate_def split: if_splits)
  have len: "length (ph_components (hdr s (the (Some p)))) = 256" and gens: "gens_ready s"
    using inv by (simp_all add: pool_inv_def pool_shape_def)
  show thesis
  proof (cases rule: allocate_outcome [OF pool_inv_shape [OF inv] gens, of c 0 0 0 "lk_local_epoch l" ZIPC_HOP_LIMIT_UNLIMITED 0 True buffer_zero,
        case_names ok fail none])
    case (ok i t' bid now n)
    let ?v = "slot_view p (zipc_handle_make i (next_generation (sc_generation (slot_of s (slot_ptr p i))))) (hdr s p) (slot_of t (slot_ptr p i))"
    have tt: "t' = t" and b': "b' = Some ?v" using ok(1) run by simp_all
    note ep = registered_epoch_frame [OF ok(6) [unfolded tt] len]
    note sl = ok(9) [unfolded tt] and hd = ok(10) [unfolded tt]
    have hv: "slot_view p h (hdr t p) x = slot_view p h (hdr s p) x" for h x by (simp add: slot_view_def hd)
    have "owned_by t p (buf_handle ?v) c"
      using ok(2,4) ep l(3) by (simp add: owned_by_def sl hd allocated_slot_def Let_def)
    then have "current_view t p ?v" using buffer_owned_view [of t p "buf_handle ?v" c] ok(2) frame_slot_count [OF ok(6), of p] tt
      by (simp add: current_view_def hv)
    moreover have "pool_inv t p" using allocate_implements [OF inv, of c 0 0 0 "lk_local_epoch l" ZIPC_HOP_LIMIT_UNLIMITED 0 True buffer_zero] run
      by (simp add: implements_def)
    moreover have "sc_deadline_ns (slot_of t (slot_ptr p i)) = ZIPC_DEADLINE_NONE" "sc_hop_limit (slot_of t (slot_ptr p i)) = ZIPC_HOP_LIMIT_UNLIMITED"
      "sc_region (slot_of t (slot_ptr p i)) = \<lparr>rg_offset = 0, rg_length = 0\<rparr>" "sc_owner_id (slot_of t (slot_ptr p i)) = c" "sc_claim_token (slot_of t (slot_ptr p i)) = 0"
      by (simp_all add: sl allocated_slot_def init_allocated_slot_def allocation_deadline_def ZIPC_HOP_LIMIT_UNLIMITED_def UINT32_MAX_def)
    ultimately have hold: "holds_buffer p t ?v c" and reg: "sc_region (slot_of t (slot_ptr p i)) = \<lparr>rg_offset = 0, rg_length = 0\<rparr>"
      using ok(4) by (simp_all add: holds_buffer_def)
    have pay: "payload_ok t p" "payload_of t = payload_of s" using ok(6) assms(2) tt by (simp_all add: payload_ok_def hd frame_def)
    have "length (slot_bytes t p i) = unat (ph_slot_capacity (hdr s p))"
      using slot_bytes_length(1) [OF pay(1)] ok(2) by (simp add: hd)
    moreover have "sc_hop_count (slot_of t (slot_ptr p i)) = 1" by (simp add: sl allocated_slot_def init_allocated_slot_def)
    ultimately show thesis
      using that [OF b' hold pay(1)] reg ep by (simp add: view_bytes_def split_bytes_def)
  qed (use run in auto)
qed

lemma append_holds:
  assumes hold: "holds_buffer p s v c" and ok: "payload_ok s p" and d: "length d = unat len" "length d \<le> length (bv_tail (view_bytes s p v))"
  obtains v2 t where "zipc_buffer_append (Some v) (Some d) len s = (ZIPC_OK, Some v2, t)" "holds_buffer p t v2 c"
    "view_bytes t p v2 = bv_append d (view_bytes s p v)" "\<forall>x. registered_epoch t (Some p) x = registered_epoch s (Some p) x"
    "payload_ok t p" "sc_hop_count (slot_of t (slot_ptr p (buf_slot_id v2))) = sc_hop_count (slot_of s (slot_ptr p (buf_slot_id v)))"
proof -
  have inv: "pool_inv s p" and cur: "current_view s p v" using hold by (simp_all add: holds_buffer_def)
  note f = current_view_fields [OF cur]
  obtain st v' t where r: "zipc_buffer_append (Some v) (Some d) len s = (st, v', t)" by (metis prod_cases3)
  have ed: "edited p v s (bv_append d (view_bytes s p v)) (st, v', t)" using append_edit [OF inv ok cur d] r by simp
  then obtain v2 where v2: "st = ZIPC_OK" "v' = Some v2" "current_view t p v2" "buf_handle v2 = buf_handle v" "pool_inv t p"
      "view_bytes t p v2 = bv_append d (view_bytes s p v)" "payload_ok t p"
    by (auto simp: edited_def)
  obtain off a where t: "t = upd_slot (slot_ptr p (buf_slot_id v)) (\<lambda>sl. sl\<lparr>sc_region := off\<rparr>) (if len \<noteq> 0 then store_bytes p a d s else s)"
    and own: "buf_owner v2 = buf_owner v"
    using r v2(1,2) d(1) f(1,2) by (auto simp: zipc_buffer_append_def zipc_buffer_set_region_def Let_def split: if_splits)
  have cok: "slot_ptr_ok s (slot_ptr p (buf_slot_id v))" using inv f(8) by (simp add: slot_ptr_ok_iff pool_inv_def)
  have "slot_of t (slot_ptr p (buf_slot_id v)) = (slot_of s (slot_ptr p (buf_slot_id v)))\<lparr>sc_region := off\<rparr>"
    using cok by (simp add: t slot_ptr_ok_def)
  moreover have "buf_slot_id v2 = buf_slot_id v" using current_view_fields(12) [OF v2(3)] f(12) v2(4) by simp
  ultimately have "holds_buffer p t v2 c"
    and "sc_hop_count (slot_of t (slot_ptr p (buf_slot_id v2))) = sc_hop_count (slot_of s (slot_ptr p (buf_slot_id v)))"
    using hold own v2(3,5) by (simp_all add: holds_buffer_def Let_def)
  moreover have "registered_epoch t (Some p) x = registered_epoch s (Some p) x" for x
    by (simp add: t registered_epoch_def component_of_def)
  ultimately show thesis using that [OF _ _ v2(6)] r v2(1,2,7) by simp
qed

text \<open>C5: A chain of relays delivers. Let a component hold a buffer without deadline and hop limit, and let
  a chain of links of the current epochs lead from it over distinct empty rings, whose depths divide
  \<open>2^32\<close>, through a pool without strict ownership. Then its send succeeds, every relay receives and forwards the buffer,
  and the last component receives it: the same handle and the same bytes, one hop counted per edge,
  owned by the last component alone. It can release the buffer, and the slot is free again.\<close>

theorem relay_chain_delivers:
  assumes "holds_buffer p s v c" "pool_flags p AND ZIPC_POOL_F_STRICT_OWNERSHIP = 0" "chain_ready p s h c (e # es)"
  shows "\<exists>t h1 v2 u h2 u'. zipc_send linux_platform (Some (el_sender e)) (Some v) s h = (ZIPC_OK, Some buffer_zero, t, h1) \<and>
    relay_run linux_platform (el_receiver e) es t h1 = Some (ZIPC_OK, Some v2, u, h2) \<and>
    pool_inv u p \<and> current_view u p v2 \<and> buf_handle v2 = buf_handle v \<and> view_bytes u p v2 = view_bytes s p v \<and>
    buf_owner v2 = lk_local_component (el_receiver (last (e # es))) \<and>
    (let c = slot_ptr p (zipc_handle_slot_id (buf_handle v)) in
     sc_hop_count (slot_of u c) = sc_hop_count (slot_of s c) + of_nat (length (e # es)) \<and>
     zipc_buffer_release (Some v2) u = (ZIPC_OK, Some buffer_zero, u') \<and> slot_available (slot_of u' c))"
proof -
  have "edge_ready p s h c e" using assms(3) by simp
  then obtain t h1 where snd: "zipc_send linux_platform (Some (el_sender e)) (Some v) s h = (ZIPC_OK, Some buffer_zero, t, h1)"
    by (rule edge_send [OF assms(1,2)])
  from chain_end [OF assms snd] obtain v2 u h2 where run: "relay_run linux_platform (el_receiver e) es t h1 = Some (ZIPC_OK, Some v2, u, h2)"
    and arr: "arrived p v s (lk_local_component (el_receiver (last (e # es)))) v2 u (Suc (length es))" by blast
  then have hold: "holds_buffer p u v2 (lk_local_component (el_receiver (last (e # es))))" by (simp add: arrived_def)
  obtain u' where "zipc_buffer_release (Some v2) u = (ZIPC_OK, Some buffer_zero, u')" "pool_inv u' p"
    "slot_available (slot_of u' (slot_ptr p (zipc_handle_slot_id (buf_handle v2))))"
    by (rule holder_releases [OF hold assms(2)])
  with snd run arr hold show ?thesis
    by (intro exI [of _ t] exI [of _ h1] exI [of _ v2] exI [of _ u] exI [of _ h2] exI [of _ u']) (simp add: arrived_def holds_buffer_def Let_def)
qed

lemma packet_filled:
  assumes alloc: "zipc_buffer_alloc_ex (Some l) 0 0 0 (Some buffer_zero) None False s = Some (ZIPC_OK, b, s1)"
    and s: "pool_inv s p" "payload_ok s p"
    and l: "lk_pool l = p" "lk_local_component l = c" "lk_local_epoch l = registered_epoch s (Some p) c"
      "lk_hop_limit l = ZIPC_HOP_LIMIT_UNLIMITED" "lk_default_deadline_ns l = 0"
    and d: "length d = unat len" "len \<le> ph_slot_capacity (hdr s p)"
  obtains v s2 where "zipc_buffer_append b (Some d) len s1 = (ZIPC_OK, Some v, s2)" "holds_buffer p s2 v c" "payload_ok s2 p"
    "bv_body (view_bytes s2 p v) = d" "\<forall>x. registered_epoch s2 (Some p) x = registered_epoch s (Some p) x"
    "sc_hop_count (slot_of s2 (slot_ptr p (buf_slot_id v))) = 1"
proof -
  obtain v where v: "b = Some v" "holds_buffer p s1 v c" "payload_ok s1 p" "bv_body (view_bytes s1 p v) = []"
    "length (bv_tail (view_bytes s1 p v)) = unat (ph_slot_capacity (hdr s p))" "\<forall>x. registered_epoch s1 (Some p) x = registered_epoch s (Some p) x"
    "sc_hop_count (slot_of s1 (slot_ptr p (buf_slot_id v))) = 1"
    by (rule allocation_holds [OF s l alloc])
  have fits: "length d \<le> length (bv_tail (view_bytes s1 p v))" using d v(5) by (simp add: word_le_nat_alt)
  obtain v2 s2 where a: "zipc_buffer_append (Some v) (Some d) len s1 = (ZIPC_OK, Some v2, s2)" "holds_buffer p s2 v2 c"
    "view_bytes s2 p v2 = bv_append d (view_bytes s1 p v)" "\<forall>x. registered_epoch s2 (Some p) x = registered_epoch s1 (Some p) x"
    "payload_ok s2 p" "sc_hop_count (slot_of s2 (slot_ptr p (buf_slot_id v2))) = sc_hop_count (slot_of s1 (slot_ptr p (buf_slot_id v)))"
    by (rule append_holds [OF v(2,3) d(1) fits])
  show thesis using that [of v2 s2] a v by (simp add: bv_append_def)
qed

lemma packet_sent:
  assumes alloc: "zipc_buffer_alloc_ex (Some (el_sender e)) 0 0 0 (Some buffer_zero) None False s = Some (ZIPC_OK, b, s1)"
    and s: "pool_inv s p" "payload_ok s p" "chain_ready p s h c (e # es)"
    and l: "lk_hop_limit (el_sender e) = ZIPC_HOP_LIMIT_UNLIMITED" "lk_default_deadline_ns (el_sender e) = 0"
    and d: "length d = unat len" "len \<le> ph_slot_capacity (hdr s p)"
  obtains v s2 where "holds_buffer p s2 v c" "bv_body (view_bytes s2 p v) = d" "chain_ready p s2 h c (e # es)"
    "sender_step linux_platform others (el_sender e) (Some d) len s h = Some (zipc_send linux_platform (Some (el_sender e)) (Some v) s2 h)"
proof -
  have lk: "lk_pool (el_sender e) = p" "lk_local_component (el_sender e) = c" "lk_local_epoch (el_sender e) = registered_epoch s (Some p) c"
    using s(3) by (simp_all add: edge_ready_def Let_def)
  obtain v s2 where v: "zipc_buffer_append b (Some d) len s1 = (ZIPC_OK, Some v, s2)" "holds_buffer p s2 v c"
    "bv_body (view_bytes s2 p v) = d" "\<forall>x. registered_epoch s2 (Some p) x = registered_epoch s (Some p) x"
    by (rule packet_filled [OF alloc s(1,2) lk l d])
  have "sender_step linux_platform others (el_sender e) (Some d) len s h = Some (zipc_send linux_platform (Some (el_sender e)) (Some v) s2 h)"
    unfolding sender_step_def by (subst buffer_get_wait.simps) (simp add: alloc v(1))
  moreover have "chain_ready p s2 h c (e # es)" using s(3) chain_ready_epochs [OF v(4), of h c "e # es"] by simp
  ultimately show thesis using that [OF v(2,3)] by simp
qed

text \<open>C4: A packet crosses the chain. Let a slot of a pool without strict ownership (and of at most \<open>2^31\<close>
  slots) be free, let the identity generator of the sending component have a session or draw one at
  once, and let the links lead over distinct empty rings whose depths divide \<open>2^32\<close>. Then its turn
  returns without waiting: it allocates a buffer, copies the payload into it and sends it. Each relay
  forwards it, and the buffer the last component receives holds exactly the payload.\<close>

theorem packet_crosses_chain:
  assumes "pool_inv s p" "payload_ok s p" "pool_flags p AND ZIPC_POOL_F_STRICT_OWNERSHIP = 0"
    and "i < ph_slot_count (hdr s p)" "slot_available (slot_of s (slot_ptr p i))" "unat (ph_slot_count (hdr s p)) \<le> 2 ^ 31"
    and "identity_ready s c" "zipc_component_id_valid c" "chain_ready p s h c (e # es)"
    and "lk_hop_limit (el_sender e) = ZIPC_HOP_LIMIT_UNLIMITED" "lk_default_deadline_ns (el_sender e) = 0"
    and "length d = unat len" "len \<le> ph_slot_capacity (hdr s p)"
  shows "\<exists>t h1 v u h2. sender_step linux_platform others (el_sender e) (Some d) len s h = Some (ZIPC_OK, Some buffer_zero, t, h1) \<and>
    relay_run linux_platform (el_receiver e) es t h1 = Some (ZIPC_OK, Some v, u, h2) \<and>
    pool_inv u p \<and> current_view u p v \<and> bv_body (view_bytes u p v) = d \<and>
    buf_owner v = lk_local_component (el_receiver (last (e # es)))"
proof -
  have lk: "lk_pool (el_sender e) = p" "lk_local_component (el_sender e) = c" "lk_local_epoch (el_sender e) = registered_epoch s (Some p) c"
    using assms(9) by (simp_all add: edge_ready_def Let_def)
  obtain b s1 where alloc: "zipc_buffer_alloc_ex (Some (el_sender e)) 0 0 0 (Some buffer_zero) None False s = Some (ZIPC_OK, b, s1)"
    using allocation_succeeds [OF assms(1,3,7,8,4,5,6) lk] by blast
  obtain v s2 where v: "holds_buffer p s2 v c" "bv_body (view_bytes s2 p v) = d" "chain_ready p s2 h c (e # es)"
    "sender_step linux_platform others (el_sender e) (Some d) len s h = Some (zipc_send linux_platform (Some (el_sender e)) (Some v) s2 h)"
    by (rule packet_sent [OF alloc assms(1,2,9-13)])
  have "edge_ready p s2 h c e" using v(3) by simp
  then obtain t h1 where snd: "zipc_send linux_platform (Some (el_sender e)) (Some v) s2 h = (ZIPC_OK, Some buffer_zero, t, h1)"
    by (rule edge_send [OF v(1) assms(3)])
  from chain_end [OF v(1) assms(3) v(3) snd] show ?thesis
    using v(2,4) snd by (auto simp: arrived_def holds_buffer_def)
qed

text \<open>Components 3, 5 and 7 over the rings 2 and 4; the transport object \<open>t\<close> uses ring \<open>t\<close>.\<close>

definition sample_chain_host :: linux_host where
  "sample_chain_host = (sample_host sample_polling (sample_ring 4 0) 0)\<lparr>lh_transport := (\<lambda>t. sample_polling\<lparr>tr_ring := Some t\<rparr>)\<rparr>"

definition sample_edge :: "nat \<Rightarrow> zipc_component_id \<Rightarrow> zipc_component_id \<Rightarrow> edge_link" where
  "sample_edge a x y = \<lparr>el_ring = a, el_sender = sample_link a x y ZIPC_LINK_ROLE_PRODUCER,
     el_receiver = sample_link a y x ZIPC_LINK_ROLE_CONSUMER\<rparr>"

lemma sample_chain_host_ring [simp]:
  "ring_transport a a sample_chain_host" "pending a sample_chain_host = []" "wakes t sample_chain_host"
  by (simp_all add: sample_chain_host_def ring_transport_def pending_def wakes_def sample_polling_def sample_ring_invar)

lemma sample_holds: "holds_buffer sample_pool (sample_state [sample_owned_slot, sample_slot]) sample_view 3"
proof -
  have "buf_owner sample_view = 3" "buf_slot_id sample_view = 0" by (simp_all add: sample_view_def sample_slots_simps)
  moreover have "sc_deadline_ns sample_owned_slot = ZIPC_DEADLINE_NONE" "sc_hop_limit sample_owned_slot = ZIPC_HOP_LIMIT_UNLIMITED"
    by (simp_all add: sample_owned_slot_def)
  ultimately show ?thesis
    by (simp add: holds_buffer_def zipc_component_id_valid_def ZIPC_COMPONENT_ID_MIN_def ZIPC_COMPONENT_ID_MAX_def sample_slots_simps)
qed

theorem relay_chain_delivers_witness:
  "\<exists>t h1 v2 u h2. zipc_send linux_platform (Some (el_sender (sample_edge 2 3 5))) (Some sample_view)
      (sample_state [sample_owned_slot, sample_slot]) sample_chain_host = (ZIPC_OK, Some buffer_zero, t, h1) \<and>
    relay_run linux_platform (el_receiver (sample_edge 2 3 5)) [sample_edge 4 5 7] t h1 = Some (ZIPC_OK, Some v2, u, h2) \<and>
    buf_handle v2 = buf_handle sample_view \<and> buf_owner v2 = 7"
proof -
  have "chain_ready sample_pool (sample_state [sample_owned_slot, sample_slot]) sample_chain_host 3 [sample_edge 2 3 5, sample_edge 4 5 7]"
    by (simp add: edge_ready_def sample_edge_def zipc_component_id_valid_def ZIPC_COMPONENT_ID_MIN_def ZIPC_COMPONENT_ID_MAX_def)
  from relay_chain_delivers [OF sample_holds _ this] show ?thesis by (auto simp: sample_edge_def Let_def)
qed

definition sample_session :: sys where
  "sample_session = upd_gen 3 (\<lambda>g. g\<lparr>gen_session_state := 7\<rparr>) (sample_state [sample_owned_slot, sample_slot])"

lemma sample_session_reads [simp]:
  "hdr sample_session p = sample_header" "slot_of sample_session (slot_ptr p i) = [sample_owned_slot, sample_slot] ! unat i"
  "registered_epoch sample_session (Some p) c = 0" "payload_ok sample_session sample_pool" "pool_inv sample_session sample_pool"
proof -
  let ?s = "sample_state [sample_owned_slot, sample_slot]"
  have eq: "hdr sample_session = hdr ?s" "slot_of sample_session = slot_of ?s" "payload_of sample_session = payload_of ?s"
    "sys_shm sample_session = sys_shm ?s"
    by (simp_all add: sample_session_def)
  show "hdr sample_session p = sample_header" "slot_of sample_session (slot_ptr p i) = [sample_owned_slot, sample_slot] ! unat i"
    by (simp_all add: eq)
  have "registered_epoch sample_session (Some p) c = registered_epoch ?s (Some p) c"
    by (simp add: registered_epoch_def component_of_def eq)
  then show "registered_epoch sample_session (Some p) c = 0" by simp
  have "payload_ok sample_session sample_pool = payload_ok ?s sample_pool" by (simp add: payload_ok_def eq)
  then show "payload_ok sample_session sample_pool" by simp
  have "gens_ready sample_session"
    by (simp add: gens_ready_def gen_ready_def list_all_iff sample_session_def upd_gen_def sample_state_def sample_sys_def ZIPC_SESSION_ROTATING_def)
  moreover have "pool_inv ?s sample_pool" by simp
  ultimately show "pool_inv sample_session sample_pool" by (simp add: pool_inv_def pool_shape_def eq)
qed

theorem packet_crosses_chain_witness:
  "\<exists>t h1 v u h2. sender_step linux_platform id (el_sender (sample_edge 2 3 5)) (Some [1, 2, 3]) 3 sample_session sample_chain_host =
      Some (ZIPC_OK, Some buffer_zero, t, h1) \<and>
    relay_run linux_platform (el_receiver (sample_edge 2 3 5)) [sample_edge 4 5 7] t h1 = Some (ZIPC_OK, Some v, u, h2) \<and>
    bv_body (view_bytes u sample_pool v) = [1, 2, 3] \<and> buf_owner v = 7"
proof -
  have chain: "chain_ready sample_pool sample_session sample_chain_host 3 [sample_edge 2 3 5, sample_edge 4 5 7]"
    by (simp add: edge_ready_def sample_edge_def zipc_component_id_valid_def ZIPC_COMPONENT_ID_MIN_def ZIPC_COMPONENT_ID_MAX_def)
  have "identity_ready sample_session 3"
    by (simp add: identity_ready_def sample_session_def issue_ready_def gen_ready_def sample_state_def sample_sys_def ZIPC_SESSION_MASK_def
        ZIPC_SESSION_ROTATING_def UINT32_MAX_def)
  from packet_crosses_chain [OF _ _ _ _ _ _ this _ chain, where i = 1 and d = "[1, 2, 3]" and len = 3 and others = id] show ?thesis
    by (auto simp: sample_edge_def sample_slots_simps sample_link_def zipc_component_id_valid_def ZIPC_COMPONENT_ID_MIN_def ZIPC_COMPONENT_ID_MAX_def)
qed

end
