(* ===== verification/Utilities_Properties.thy ===== *)
theory Utilities_Properties
  imports Utilities Relay_Chain
begin

text \<open>
  What the tools make of their options: the number parsers are exact, the pool that
  \<^verbatim>\<open>zipc-packetrate\<close> or \<^verbatim>\<open>zipc-ping\<close> configures fits the memory it asks for, and the components of a
  chain have valid identifiers. Two flaws of the other tools are shown at the end.
\<close>

subsection \<open>Numbers and sizes\<close>

lemma strtoull_of_base: "strtoull s = map_option (\<lambda>(v, _, rest). (v, rest)) (strtoull_base 0 s)"
  by (simp add: strtoull_def strtoull_base_def Let_def split: prod.split)

lemma is_digit_bound: "is_digit 10 c \<Longrightarrow> \<not> c_space c \<and> c \<noteq> CHR ''-'' \<and> c \<noteq> CHR ''+''"
  by (auto simp: is_digit_def digit_value_def c_space_def Let_def split: if_splits)

lemma show_nat_Cons: obtains c cs where "show_nat n = c # cs" "is_digit 10 c" "\<not> c_space c" "c \<noteq> CHR ''-''" "c \<noteq> CHR ''+''"
proof -
  obtain c cs where c: "show_nat n = c # cs" using show_nat_digits(1) [of n] by (cases "show_nat n") auto
  then have "is_digit 10 c" using show_nat_digits(2) [of n] by (auto simp: is_digit_def)
  then show thesis using that [OF c] is_digit_bound by blast
qed

lemma strtoull_10_show:
  assumes "\<not> first_is (is_digit 10) suffix"
  shows "strtoull_base 10 (show_nat n @ suffix) =
    Some (if n > unat UINT64_MAX then UINT64_MAX else of_nat n, n > unat UINT64_MAX, suffix)"
proof -
  obtain c cs where c: "show_nat n = c # cs" "is_digit 10 c" "\<not> c_space c" "c \<noteq> CHR ''-''" "c \<noteq> CHR ''+''" by (rule show_nat_Cons)
  have d: "\<forall>x \<in> set (show_nat n). is_digit 10 x" using show_nat_digits(2) [of n] by (auto simp: is_digit_def)
  have t: "takeWhile (is_digit 10) (show_nat n @ suffix) = show_nat n" "dropWhile (is_digit 10) (show_nat n @ suffix) = suffix"
    using d assms by (simp_all add: first_is_def takeWhile_append dropWhile_append split: list.splits)
  show ?thesis
    using t c show_nat_digits(3) [of n] by (simp add: strtoull_base_def Let_def)
qed

lemma strtoull_0_show:
  "strtoull_base 0 (show_nat n) = Some (if n > unat UINT64_MAX then UINT64_MAX else of_nat n, n > unat UINT64_MAX, [])"
proof (cases "n = 0")
  case True
  have "show_nat 0 = ''0''" using digit_char_eq(1) [of 0] by (simp add: show_nat.simps)
  then show ?thesis using True
    by (simp add: strtoull_base_def number_base_def c_space_def digits_value_def digit_value_def is_digit_def Let_def)
next
  case False
  obtain c cs where c: "show_nat n = c # cs" "\<not> c_space c" "c \<noteq> CHR ''-''" "c \<noteq> CHR ''+''" by (rule show_nat_Cons)
  then show ?thesis
    using number_base_show [OF False] show_nat_decimal [of n] show_nat_digits(3) [of n] by (simp add: strtoull_base_def Let_def)
qed

lemma first_show [simp]: "first_is (is_digit 10) (show_nat n @ xs)" "first_is (is_digit 10) (show_nat n)"
  "\<not> first_is (\<lambda>c. c = CHR ''-'' \<or> c_space c) (show_nat n)"
  by (rule show_nat_Cons [of n], simp add: first_is_def)+

text \<open>The option parsers read every number they accept exactly, and refuse a number beyond their limit.\<close>

theorem parse_u64_exact: "parse_u64 (show_nat n) maximum = (if n \<le> unat maximum then Some (of_nat n) else None)"
proof -
  have "unat maximum \<le> unat UINT64_MAX" using unat_u64_lt [of maximum] by (simp add: UINT64_MAX_def)
  moreover have "of_nat n > maximum \<longleftrightarrow> n > unat maximum" if "n \<le> unat UINT64_MAX"
    using that by (simp add: word_less_nat_alt unat_of_nat UINT64_MAX_def)
  ultimately show ?thesis by (auto simp: parse_u64_def strtoull_0_show)
qed

lemma ucast_of_nat_64_32: "(ucast (of_nat n :: u64) :: u32) = of_nat n"
  by (simp add: unsigned_of_nat word_of_nat_eq_iff)

lemma unat_ucast_small: "unat (x :: u64) < 2 ^ 32 \<Longrightarrow> unat (ucast x :: u32) = unat x"
  by (simp add: unsigned_ucast_eq take_bit_nat_eq_self)

lemma word_of_nat_le: "n \<le> unat UINT64_MAX \<Longrightarrow> (of_nat n :: u64) \<le> k \<longleftrightarrow> n \<le> unat k"
  by (simp add: word_le_nat_alt unat_of_nat UINT64_MAX_def)

theorem parse_u32_exact: "parse_u32 (show_nat n) maximum = (if n \<le> unat maximum then Some (of_nat n) else None)"
  by (simp add: parse_u32_def parse_u64_exact ucast_of_nat_64_32)

theorem parse_unsigned_exact: "parse_unsigned (show_nat n) = (if n < 2 ^ 32 then Some (of_nat n) else None)"
proof -
  have "(of_nat n :: u64) \<le> ucast UINT32_MAX \<longleftrightarrow> n < 2 ^ 32" if "n \<le> unat UINT64_MAX"
    using that by (simp add: word_of_nat_le UINT32_MAX_def) linarith
  then show ?thesis
    by (auto simp: parse_unsigned_def strtoull_0_show ucast_of_nat_64_32 not_less [symmetric] UINT64_MAX_def)
qed

text \<open>A size with a suffix is the product, without wrap-around; a product beyond 32 bits is refused.\<close>

lemma size_multiplier_cases:
  assumes "size_multiplier suffix = Some m"
  shows "\<not> first_is (is_digit 10) suffix" "m = 1 \<or> m = 1024 \<or> m = 1024 * 1024 \<or> m = 1024 * 1024 * 1024"
  using assms by (auto simp: size_multiplier_def first_is_def is_digit_def digit_value_def Let_def split: if_splits)

theorem parse_size_exact:
  assumes "size_multiplier suffix = Some m"
  shows "parse_size_u32 (show_nat n @ suffix) = (if n * unat m < 2 ^ 32 then Some (of_nat (n * unat m)) else None)"
proof -
  have m0: "0 < unat m" using size_multiplier_cases(2) [OF assms] by auto
  have q: "ucast UINT32_MAX div m < (of_nat n :: u64) \<longleftrightarrow> \<not> n * unat m < 2 ^ 32" if "n \<le> unat UINT64_MAX"
  proof -
    have "(of_nat n :: u64) \<le> ucast UINT32_MAX div m \<longleftrightarrow> n \<le> (2 ^ 32 - 1) div unat m"
      by (simp add: word_of_nat_le [OF that] unat_div unat_UINT32_MAX)
    also have "\<dots> \<longleftrightarrow> n * unat m < 2 ^ 32" using m0 by (simp add: less_eq_div_iff_mult_less_eq) linarith
    finally show ?thesis by (simp add: not_le [symmetric])
  qed
  have big: "\<not> n * unat m < 2 ^ 32" if "n > unat UINT64_MAX"
    using that m0 by (cases "unat m") (auto simp: UINT64_MAX_def)
  have prod: "(ucast (of_nat n * m :: u64) :: u32) = of_nat (n * unat m)"
    using ucast_of_nat_64_32 [of "n * unat m"] by (simp add: of_nat_mult)
  show ?thesis
    using q big prod by (auto simp: parse_size_u32_def strtoull_10_show [OF size_multiplier_cases(1) [OF assms]] assms)
qed

subsection \<open>Derived counts\<close>

theorem automatic_slot_count_bounds:
  assumes "0 < stride"
  shows "2 \<le> automatic_slot_count stride \<and> automatic_slot_count stride \<le> 256 \<and>
    (2 < automatic_slot_count stride \<longrightarrow> unat (automatic_slot_count stride) * unat stride \<le> 32 * 1024 * 1024)"
proof -
  let ?q = "unat (AUTO_POOL_BUDGET div stride)"
  have q: "?q * unat stride \<le> 32 * 1024 * 1024" by (simp add: unat_div AUTO_POOL_BUDGET_def)
  have c: "unat (automatic_slot_count stride) = max 2 (min 256 ?q)"
    by (simp add: automatic_slot_count_def DEFAULT_SLOT_COUNT_def word_less_nat_alt Let_def max_def min_def unat_ucast_small)
  have "unat (automatic_slot_count stride) * unat stride \<le> 32 * 1024 * 1024" if "2 < unat (automatic_slot_count stride)"
  proof -
    have "unat (automatic_slot_count stride) \<le> ?q" using that c by simp
    then show ?thesis using q mult_le_mono1 le_trans by blast
  qed
  then show ?thesis using c by (simp add: word_le_nat_alt word_less_nat_alt)
qed

theorem warmup_packet_count_bounds:
  "1 \<le> warmup_packet_count n \<and> warmup_packet_count n \<le> 1000 \<and>
    (1 < warmup_packet_count n \<longrightarrow> unat (warmup_packet_count n) * unat n \<le> 64 * 1024 * 1024)"
proof -
  let ?q = "unat (WARMUP_BYTE_BUDGET div ucast n)"
  have q: "?q * unat n \<le> 64 * 1024 * 1024" by (simp add: unat_div WARMUP_BYTE_BUDGET_def)
  have "Suc 0 \<le> unat x" if "x \<noteq> 0" for x :: u64 using that by (simp add: Suc_le_eq word_neq_0_conv word_less_nat_alt)
  then have c: "unat (warmup_packet_count n) = (if n = 0 then 1000 else min 1000 (max 1 ?q))"
    by (simp add: warmup_packet_count_def MAX_WARMUP_PACKETS_def word_less_nat_alt Let_def unat_eq_0 max_def min_def)
  have "unat (warmup_packet_count n) * unat n \<le> 64 * 1024 * 1024" if "1 < unat (warmup_packet_count n)"
  proof (cases "n = 0")
    case False
    then have "unat (warmup_packet_count n) \<le> ?q" using that c by (simp split: if_splits)
    then show ?thesis using q mult_le_mono1 le_trans by blast
  qed simp
  moreover have "1 \<le> unat (warmup_packet_count n)" "unat (warmup_packet_count n) \<le> 1000" using c by simp_all
  ultimately show ?thesis by (simp add: word_le_nat_alt word_less_nat_alt)
qed

subsection \<open>Pools\<close>

lemma round_up_64_props:
  assumes "x \<le> SIZE_MAX - 63"
  shows "unat x \<le> unat (round_up_64 x)" "unat (round_up_64 x) < unat x + 64" "64 dvd unat (round_up_64 x)"
proof -
  have x: "unat x + 63 < 2 ^ 64" using assms by (simp add: word_le_nat_alt SIZE_MAX_def)
  then have "unat (x + 63) = unat x + (64 - 1)" by (simp add: unat_word_ariths)
  then have r: "unat (round_up_64 x) = unat x + (64 - 1) - (unat x + (64 - 1)) mod 64"
    using unat_clear_low [of 6 "x + 63"] by (simp add: round_up_64_def)
  show "unat x \<le> unat (round_up_64 x)" "unat (round_up_64 x) < unat x + 64" "64 dvd unat (round_up_64 x)"
    unfolding r by (rule round_up_nat; simp)+
qed

lemma low_bits_64: "(x :: u64) AND 63 = 0 \<longleftrightarrow> 64 dvd unat x" "(x :: u64) AND 7 = 0 \<longleftrightarrow> 8 dvd unat x"
  using unat_low_bits [of 6 x] unat_low_bits [of 3 x] by (simp_all add: dvd_eq_mod_eq_0 flip: unat_eq_0)

text \<open>A memory object as \<open>mmap\<close> returns it: at a page boundary, inside the address space, with the
  capabilities of ordinary memory.\<close>

definition memory_usable :: "sys \<Rightarrow> nat \<Rightarrow> u64 \<Rightarrow> bool" where
  "memory_usable s r len \<longleftrightarrow>
     (let m = sys_mem s r; needed = ZIPC_MEM_CAP_CPU_READ OR ZIPC_MEM_CAP_CPU_WRITE OR ZIPC_MEM_CAP_ATOMIC32 OR ZIPC_MEM_CAP_ATOMIC64 in
      pm_base m \<noteq> 0 \<and> 64 dvd unat (pm_base m) \<and> pm_size m = len \<and> unat (pm_base m) + unat len < 2 ^ 64 \<and>
      pm_capabilities m AND needed = needed)"

text \<open>The layout that both tools choose: controls first, then the payload at the next multiple of 64.\<close>

definition tool_layout :: "zipc_pool_config \<Rightarrow> nat \<Rightarrow> u32 \<Rightarrow> bool" where
  "tool_layout cfg r stride \<longleftrightarrow>
     cfg_control_memory cfg = Some r \<and> cfg_control_offset cfg = 0 \<and> cfg_payload_memory cfg = None \<and> cfg_flags cfg = 0 \<and>
     cfg_payload_alignment cfg = 64 \<and> cfg_slot_count cfg \<noteq> 0 \<and> cfg_slot_capacity cfg \<noteq> 0 \<and>
     cfg_payload_offset cfg = round_up_64 (zipc_pool_required_control_size (cfg_slot_count cfg)) \<and>
     zipc_pool_required_control_size (cfg_slot_count cfg) \<le> SIZE_MAX - 63 \<and>
     cfg_slot_capacity cfg \<le> stride \<and> stride mod 64 = 0 \<and>
     (cfg_slot_stride cfg = stride \<or>
      cfg_slot_stride cfg = 0 \<and> align_up_checked (ucast (cfg_slot_capacity cfg)) 64 = Some (ucast stride))"

lemma unat_mod_64: "(x :: u64) mod 64 = 0 \<longleftrightarrow> 64 dvd unat x"
  by (simp add: unat_mod dvd_eq_mod_eq_0 flip: unat_eq_0)

lemma fits_below_max: "unat b + unat a < 2 ^ 64 \<Longrightarrow> a \<le> UINT64_MAX - (b :: u64)"
proof -
  assume "unat b + unat a < 2 ^ 64"
  moreover have "b \<le> UINT64_MAX" by (simp add: UINT64_MAX_eq)
  moreover have "unat UINT64_MAX = 2 ^ 64 - 1" by (simp add: UINT64_MAX_def)
  ultimately show ?thesis by (simp add: word_le_nat_alt unat_sub)
qed

lemma aligned_address:
  assumes "memory_usable s r len" "unat off \<le> unat len"
  shows "64 dvd unat off \<Longrightarrow> memory_address_aligned s (Some r) off 64" "8 dvd unat off \<Longrightarrow> memory_address_aligned s (Some r) off 8"
proof -
  let ?b = "pm_base (sys_mem s r)"
  have b: "?b \<noteq> 0" "64 dvd unat ?b" "unat ?b + unat len < 2 ^ 64" using assms(1) by (simp_all add: memory_usable_def Let_def)
  have sum: "unat (?b + off) = unat ?b + unat off" using b(3) assms(2) by (simp add: unat_word_ariths)
  have le: "off \<le> UINT64_MAX - ?b"
    using b(3) assms(2) by (intro fits_below_max) simp
  have "8 dvd unat ?b" using b(2) by (auto intro: dvd_trans [of 8 64])
  then show "64 dvd unat off \<Longrightarrow> memory_address_aligned s (Some r) off 64" "8 dvd unat off \<Longrightarrow> memory_address_aligned s (Some r) off 8"
    using b le sum by (simp_all add: memory_address_aligned_def zipc_platform_memory_base_def is_power_of_two_def low_bits_64 dvd_add)
qed

lemma range_fits:
  assumes "memory_usable s r len" "unat off + unat n \<le> unat len"
  shows "memory_range_fits s (Some r) off n"
proof -
  let ?b = "pm_base (sys_mem s r)"
  have b: "?b \<noteq> 0" "pm_size (sys_mem s r) = len" "unat ?b + unat len < 2 ^ 64" using assms(1) by (simp_all add: memory_usable_def Let_def)
  have sum: "unat (?b + off) = unat ?b + unat off" using b(3) assms(2) by (simp add: unat_word_ariths)
  have "off \<le> len" using assms(2) by (simp add: word_le_nat_alt)
  then have "n \<le> len - off" using assms(2) by (simp add: word_le_nat_alt unat_sub)
  moreover have "off \<le> UINT64_MAX - ?b" "n \<le> UINT64_MAX - (?b + off)"
    using b(3) assms(2) sum by (intro fits_below_max; simp)+
  ultimately show ?thesis
    using b \<open>off \<le> len\<close> by (simp add: memory_range_fits_def zipc_platform_memory_base_def zipc_platform_memory_size_def Let_def)
qed

lemma stride_payload_size:
  assumes "n \<noteq> 0" "cap \<noteq> 0" "cap \<le> stride" "stride mod 64 = 0"
  shows "zipc_pool_required_payload_size n cap stride 64 = ucast n * ucast stride" "(ucast n * ucast stride :: u64) \<noteq> 0"
proof -
  have st: "stride \<noteq> 0" using assms(2,3) by auto
  have "unat n * unat stride < 2 ^ 32 * 2 ^ 32"
    using unat_u32_lt [of n] unat_u32_lt [of stride] by (intro mult_strict_mono) simp_all
  then have "unat n \<le> (2 ^ 64 - 1) div unat stride"
    using st by (simp add: less_eq_div_iff_mult_less_eq unat_gt_0)
  then have "\<not> ucast n > SIZE_MAX div (ucast stride :: u64)"
    by (simp add: not_less word_le_nat_alt unat_div unat_SIZE_MAX)
  then show "zipc_pool_required_payload_size n cap stride 64 = ucast n * ucast stride"
    using assms st by (simp add: zipc_pool_required_payload_size_def is_power_of_two_def not_less [symmetric] Let_def)
  have "unat (ucast n * ucast stride :: u64) \<noteq> 0" using assms(1) st by (simp add: unat_mult_32_32 unat_eq_0)
  then show "(ucast n * ucast stride :: u64) \<noteq> 0" by (simp add: unat_eq_0)
qed

lemma usable_capabilities:
  assumes "memory_usable s r len" "cfg_control_memory cfg = Some r"
  shows "config_capabilities s cfg (Some r)"
proof -
  let ?c = "pm_capabilities (sys_mem s r)" and ?pn = "ZIPC_MEM_CAP_CPU_READ OR ZIPC_MEM_CAP_CPU_WRITE"
    and ?cn = "ZIPC_MEM_CAP_CPU_READ OR ZIPC_MEM_CAP_CPU_WRITE OR ZIPC_MEM_CAP_ATOMIC32 OR ZIPC_MEM_CAP_ATOMIC64"
  have cn: "?c AND ?cn = ?cn" using assms(1) by (simp add: memory_usable_def Let_def)
  have "?cn AND ?pn = ?pn"
    by (simp add: ZIPC_MEM_CAP_CPU_READ_def ZIPC_MEM_CAP_CPU_WRITE_def ZIPC_MEM_CAP_ATOMIC32_def ZIPC_MEM_CAP_ATOMIC64_def)
  then have "?c AND ?pn = ?pn" using cn by (metis and.assoc)
  then show ?thesis using cn assms(2) by (simp add: config_capabilities_def zipc_platform_memory_capabilities_def Let_def)
qed

lemma layout_stride:
  assumes "tool_layout cfg r stride"
  shows "config_stride s cfg (Some r) = Inr stride"
proof -
  have "cfg_slot_capacity cfg \<noteq> 0" "cfg_slot_capacity cfg \<le> stride" using assms by (simp_all add: tool_layout_def)
  then have st: "stride \<noteq> 0" by auto
  have "(ucast (ucast stride :: u64) :: u32) = stride" by (rule ucast_down_up)
  moreover have "(ucast stride :: u64) \<le> ucast UINT32_MAX" using unat_u32_lt [of stride] by (simp add: word_le_nat_alt unat_UINT32_MAX)
  moreover have "cfg_flags cfg = 0" "cfg_payload_alignment cfg = 64"
    "cfg_slot_stride cfg = stride \<or> cfg_slot_stride cfg = 0 \<and> align_up_checked (ucast (cfg_slot_capacity cfg)) 64 = Some (ucast stride)"
    using assms by (simp_all add: tool_layout_def)
  ultimately show ?thesis using st by (elim disjE) (simp_all add: config_stride_def)
qed

lemma tool_pool_formats:
  assumes lay: "tool_layout cfg r stride" and mem: "memory_usable s r len"
    and room: "unat (cfg_payload_offset cfg) + unat (cfg_slot_count cfg) * unat stride \<le> unat len"
  shows "fst (zipc_pool_format (Some cfg) s) = ZIPC_OK"
proof -
  let ?n = "cfg_slot_count cfg" and ?off = "cfg_payload_offset cfg" and ?ctl = "zipc_pool_required_control_size (cfg_slot_count cfg)"
  have l: "cfg_control_memory cfg = Some r" "cfg_control_offset cfg = 0" "cfg_payload_memory cfg = None" "cfg_flags cfg = 0"
    "cfg_payload_alignment cfg = 64" "?n \<noteq> 0" "cfg_slot_capacity cfg \<noteq> 0" "cfg_slot_capacity cfg \<le> stride" "stride mod 64 = 0"
    "?off = round_up_64 ?ctl" "?ctl \<le> SIZE_MAX - 63"
    using lay by (simp_all add: tool_layout_def)
  have ctl: "unat ?ctl = 6248 + unat ?n * 344" by (rule unat_control_size [OF l(6)])
  have off: "unat ?ctl \<le> unat ?off" "64 dvd unat ?off" using round_up_64_props(1,3) [OF l(11)] l(10) by simp_all
  note pay = stride_payload_size [OF l(6,7,8,9)]
  have inside: "unat ?off \<le> unat len" using room by simp
  have "memory_address_aligned s (Some r) 0 8" "memory_address_aligned s (Some r) ?off 64"
    using aligned_address(2) [OF mem, of 0] aligned_address(1) [OF mem inside off(2)] by simp_all
  then have norm: "normalize_config s (Some cfg) = Inr (Some r, stride)"
    using l(1-9) off(2) usable_capabilities [OF mem l(1)] layout_stride [OF lay]
    by (simp add: normalize_config_def alignof_pool_header_def is_power_of_two_def unat_mod_64 not_less [symmetric] Let_def)
  have "memory_range_fits s (Some r) 0 ?ctl" "memory_range_fits s (Some r) ?off (ucast ?n * ucast stride)"
    by (rule range_fits [OF mem], use off(1) room in \<open>simp add: unat_mult_32_32\<close>)+
  then have rng: "pool_ranges_valid s cfg (Some r) ?ctl (ucast ?n * ucast stride)"
    using l(1,2) off(1) by (simp add: pool_ranges_valid_def not_less word_le_nat_alt Let_def)
  have al: "memory_address_aligned s (Some r) 6248 alignof_slot_control"
    using aligned_address(2) [OF mem, of 6248] ctl off(1) inside by (simp add: alignof_slot_control_def)
  have ne: "?ctl \<noteq> 0" using ctl by auto
  have guard: "apply_guard_pages cfg (Some r) stride s = (ZIPC_OK, s)" using l(4) by (simp add: apply_guard_pages_def)
  show ?thesis
    unfolding zipc_pool_format_def norm using l(1,2,5) pay rng ne al
    by (simp add: guard controls_offset_value UINT32_MAX_def SIZE_MAX_def Let_def)
qed

text \<open>Whatever options \<open>zipc-packetrate\<close> accepts, the pool it configures fits the memory it asks for:
  formatting succeeds.\<close>

lemma derived_stride:
  assumes "zipc_pool_required_payload_size n cap 0 64 \<noteq> 0"
  obtains stride where "align_up_checked (ucast cap) 64 = Some (ucast stride)" "cap \<le> stride" "stride mod 64 = 0" "n \<noteq> 0" "cap \<noteq> 0"
    "unat (zipc_pool_required_payload_size n cap 0 64) = unat n * unat stride"
proof -
  obtain ac where ac: "align_up_checked (ucast cap) 64 = Some ac"
    using assms by (cases "align_up_checked (ucast cap) 64") (simp_all add: zipc_pool_required_payload_size_def split: if_splits)
  have le: "ac \<le> ucast UINT32_MAX" using assms ac by (auto simp: zipc_pool_required_payload_size_def Let_def not_less split: if_splits)
  have "unat ac < 2 ^ 32" using le by (simp add: word_le_nat_alt unat_UINT32_MAX)
  then have up: "(ucast (ucast ac :: u32) :: u64) = ac" by (simp add: word_unat_eq_iff unat_ucast_small)
  have "zipc_pool_required_payload_size n cap 0 64 = ucast n * ac \<and> cap \<le> ucast ac \<and> (ucast ac :: u32) mod 64 = 0 \<and> n \<noteq> 0 \<and> cap \<noteq> 0"
    using assms ac by (auto simp: zipc_pool_required_payload_size_def Let_def not_less up split: if_splits)
  then show thesis using that [of "ucast ac"] ac up unat_mult_32_32 [of n "ucast ac"] by simp
qed

lemma packetrate_layout:
  assumes "packetrate_setup opt = Inr plan"
  obtains stride where "tool_layout (packetrate_pool r plan) r stride"
    "unat (pp_payload_offset plan) + unat (pp_slot_count plan) * unat stride = unat (pp_shm_size plan)"
    "2 \<le> pp_slot_count plan" "pk_payload opt \<le> pp_slot_capacity plan"
proof -
  let ?cap = "pp_slot_capacity plan" and ?n = "pp_slot_count plan"
  let ?ctl = "zipc_pool_required_control_size ?n" and ?bytes = "zipc_pool_required_payload_size ?n ?cap 0 64"
  let ?one = "zipc_pool_required_payload_size 1 ?cap 0 64"
  have f: "?ctl \<le> SIZE_MAX - 63" "?bytes \<noteq> 0" "?bytes \<le> SIZE_MAX - pp_payload_offset plan" "pp_payload_offset plan = round_up_64 ?ctl"
    "pp_shm_size plan = pp_payload_offset plan + ?bytes" "?cap = (if pk_payload opt \<noteq> 0 then pk_payload opt else 1)"
    "?one \<noteq> 0" "pk_slots_set opt \<Longrightarrow> 2 \<le> pk_slots opt" "?n = (if pk_slots_set opt then pk_slots opt else automatic_slot_count ?one)"
    using assms by (auto simp: packetrate_setup_def PAYLOAD_ALIGNMENT_def Let_def not_less split: if_splits)
  obtain stride where st: "align_up_checked (ucast ?cap) 64 = Some (ucast stride)" "?cap \<le> stride" "stride mod 64 = 0" "?n \<noteq> 0" "?cap \<noteq> 0"
    "unat ?bytes = unat ?n * unat stride"
    by (rule derived_stride [OF f(2)])
  have "tool_layout (packetrate_pool r plan) r stride"
    using st f(1,4) by (simp add: tool_layout_def packetrate_pool_def PAYLOAD_ALIGNMENT_def)
  moreover have "unat (pp_payload_offset plan) + unat ?bytes = unat (pp_shm_size plan)"
  proof -
    have "pp_payload_offset plan \<le> SIZE_MAX" by (simp add: SIZE_MAX_eq)
    then have "unat (pp_payload_offset plan) + unat ?bytes < 2 ^ 64"
      using f(3) unat_u64_lt [of "pp_payload_offset plan"] by (simp add: word_le_nat_alt unat_sub unat_SIZE_MAX)
    then show ?thesis using f(5) by (simp add: unat_word_ariths)
  qed
  moreover have "2 \<le> ?n"
    using f(7,8,9) automatic_slot_count_bounds [of ?one] by (simp add: word_neq_0_conv)
  moreover have "pk_payload opt \<le> ?cap" using f(6) by (simp split: if_splits)
  ultimately show thesis using that [of stride] st(6) by simp
qed

theorem packetrate_pool_formats:
  assumes "packetrate_setup opt = Inr plan" "memory_usable s r (pp_shm_size plan)"
  shows "fst (zipc_pool_format (Some (packetrate_pool r plan)) s) = ZIPC_OK \<and> 2 \<le> pp_slot_count plan \<and> pk_payload opt \<le> pp_slot_capacity plan"
proof -
  obtain stride where l: "tool_layout (packetrate_pool r plan) r stride"
    "unat (pp_payload_offset plan) + unat (pp_slot_count plan) * unat stride = unat (pp_shm_size plan)"
    "2 \<le> pp_slot_count plan" "pk_payload opt \<le> pp_slot_capacity plan"
    by (rule packetrate_layout [OF assms(1)])
  then show ?thesis using tool_pool_formats [OF l(1) assms(2)] by (simp add: packetrate_pool_def)
qed

text \<open>The fixed geometry of \<open>zipc-ping\<close> fits its 256 KiB.\<close>

theorem ping_pool_formats:
  assumes "memory_usable s r SHM_SIZE"
  shows "fst (zipc_pool_format (Some (ping_pool r)) s) = ZIPC_OK"
proof -
  have c: "unat (zipc_pool_required_control_size 32) = 17256" using unat_control_size [of 32] by simp
  then have le: "zipc_pool_required_control_size 32 \<le> SIZE_MAX - 63" by (simp add: word_le_nat_alt SIZE_MAX_def)
  have "tool_layout (ping_pool r) r 4096"
    using le by (simp add: tool_layout_def ping_pool_def SLOT_COUNT_def SLOT_SIZE_def)
  moreover have "unat (cfg_payload_offset (ping_pool r)) + unat (cfg_slot_count (ping_pool r)) * unat (4096 :: u32) \<le> unat SHM_SIZE"
    using round_up_64_props(2) [OF le] c by (simp add: ping_pool_def SLOT_COUNT_def SHM_SIZE_def)
  ultimately show ?thesis by (rule tool_pool_formats [OF _ assms])
qed

subsection \<open>Command lines\<close>

lemma parse_u32_bound: "parse_u32 txt maximum = Some n \<Longrightarrow> n \<le> maximum"
proof -
  assume "parse_u32 txt maximum = Some n"
  then obtain v where "parse_u64 txt (ucast maximum) = Some v" and n: "n = ucast v" by (auto simp: parse_u32_def)
  then have "v \<le> ucast maximum" by (auto simp: parse_u64_def not_less split: if_splits option.splits)
  then have "unat v \<le> unat maximum" by (simp add: word_le_nat_alt)
  then show ?thesis using unat_u32_lt [of maximum] n by (simp add: word_le_nat_alt unat_ucast_small)
qed

lemma packetrate_relays:
  "packetrate_args argv opt = Some opt' \<Longrightarrow> pk_relays opt \<le> MAX_RELAYS \<Longrightarrow> pk_relays opt' \<le> MAX_RELAYS"
  by (induction argv opt rule: packetrate_args.induct) (auto split: if_splits option.splits dest: parse_u32_bound)

text \<open>The options that are accepted give every component of the chain a valid identifier: an edge
  leads from one component to the next.\<close>

theorem packetrate_components_valid:
  assumes "packetrate_args argv packetrate_defaults = Some opt" "packetrate_setup opt = Inr plan" "edge < pp_edge_count plan"
  shows "zipc_component_id_valid (edge_source edge) \<and> zipc_component_id_valid (edge_destination edge) \<and>
    edge_source edge \<noteq> edge_destination edge \<and> edge_destination edge = edge_source (edge + 1)"
proof -
  have "pk_relays opt \<le> 252"
    using packetrate_relays [OF assms(1)] by (simp add: packetrate_defaults_def MAX_RELAYS_def ZIPC_COMPONENT_ID_MAX_def)
  moreover have "pp_edge_count plan = pk_relays opt + 2 - 1"
    using assms(2) by (auto simp: packetrate_setup_def Let_def split: if_splits)
  ultimately have "unat edge < 253" using assms(3) by (simp add: word_less_nat_alt word_le_nat_alt unat_word_ariths)
  then have "unat (edge_source edge) = unat edge + 1" "unat (edge_destination edge) = unat edge + 2"
    "unat (edge_source (edge + 1)) = unat edge + 2"
    by (simp_all add: edge_source_def edge_destination_def ZIPC_COMPONENT_ID_MIN_def unat_word_ariths unsigned_ucast_eq take_bit_nat_eq_self)
  then show ?thesis
    using \<open>unat edge < 253\<close> by (simp add: zipc_component_id_valid_def ZIPC_COMPONENT_ID_MIN_def ZIPC_COMPONENT_ID_MAX_def word_le_nat_alt word_unat_eq_iff)
qed

lemma created_link:
  assumes "zipc_link_create pf True (Some (edge_link_config p x y tr)) s w = (ZIPC_OK, link, w')"
  obtains l where "link = Some l" "lk_pool l = p" "lk_local_component l = x" "lk_remote_component l = y" "zipc_component_id_valid x"
    "lk_local_epoch l = registered_epoch s (Some p) x" "lk_hop_limit l = ZIPC_HOP_LIMIT_UNLIMITED" "lk_default_deadline_ns l = 0"
  using assms by (auto simp: zipc_link_create_def edge_link_config_def Let_def split: if_splits option.splits prod.splits)

text \<open>The links that \<open>zipc-packetrate\<close> creates form a chain in the sense of \<open>Relay_Chain\<close>. Once their
  ring is set up and empty and its wake-ups work, the edge is ready from the source to the
  destination component, and the sender's link sets neither a hop limit nor a deadline.\<close>

theorem created_edge_ready:
  assumes "create_edge pf p edge trs s w = (st, Some (l1, l2), w')"
    and "lk_transport l1 = Some t1" "lk_transport l2 = Some t2" "ring_endpoints a t1 t2 h" "wakes t1 h" "pending a h = []"
  shows "edge_ready p s h (edge_source edge) \<lparr>el_ring = a, el_sender = l1, el_receiver = l2\<rparr> \<and>
    lk_local_component l2 = edge_destination edge \<and> lk_hop_limit l1 = ZIPC_HOP_LIMIT_UNLIMITED \<and> lk_default_deadline_ns l1 = 0"
proof -
  obtain rl w1 sl where c: "zipc_link_create pf True (Some (edge_link_config p (edge_destination edge) (edge_source edge) (snd trs))) s w = (ZIPC_OK, rl, w1)"
    "zipc_link_create pf True (Some (edge_link_config p (edge_source edge) (edge_destination edge) (fst trs))) s w1 = (ZIPC_OK, sl, w')"
    "l1 = the sl" "l2 = the rl"
    using assms(1) by (auto simp: create_edge_def Let_def split: if_splits prod.splits)
  obtain r where r: "rl = Some r" "lk_pool r = p" "lk_local_component r = edge_destination edge" "lk_remote_component r = edge_source edge"
    "zipc_component_id_valid (edge_destination edge)" "lk_local_epoch r = registered_epoch s (Some p) (edge_destination edge)"
    by (rule created_link [OF c(1)])
  obtain l where l: "sl = Some l" "lk_pool l = p" "lk_local_component l = edge_source edge" "lk_remote_component l = edge_destination edge"
    "lk_local_epoch l = registered_epoch s (Some p) (edge_source edge)" "lk_hop_limit l = ZIPC_HOP_LIMIT_UNLIMITED" "lk_default_deadline_ns l = 0"
    by (rule created_link [OF c(2)])
  have "l1 = l" "l2 = r" using c(3,4) r(1) l(1) by simp_all
  then show ?thesis using assms(2-6) r l by (simp add: edge_ready_def)
qed

text \<open>The same for the two directions of \<open>zipc-ping\<close>, whose ends meet: the forward edge leads from a
  component to its neighbour and the reverse edge back.\<close>

theorem created_ping_edge_ready:
  assumes "create_ping_edge pf p forward edge tr s w = (st, Some (l1, l2), w')"
    and "lk_transport l1 = Some t1" "lk_transport l2 = Some t2" "ring_endpoints a t1 t2 h" "wakes t1 h" "pending a h = []"
  shows "edge_ready p s h (ping_source forward edge) \<lparr>el_ring = a, el_sender = l1, el_receiver = l2\<rparr> \<and>
    lk_local_component l2 = ping_source (\<not> forward) edge \<and> lk_hop_limit l1 = ZIPC_HOP_LIMIT_UNLIMITED \<and> lk_default_deadline_ns l1 = 0"
proof -
  have turn: "ping_destination forward edge = ping_source (\<not> forward) edge" by (simp add: ping_source_def ping_destination_def)
  obtain sl w1 rl where c: "zipc_link_create pf True (Some (edge_link_config p (ping_source forward edge) (ping_destination forward edge) tr)) s w = (ZIPC_OK, sl, w1)"
    "zipc_link_create pf True (Some (edge_link_config p (ping_destination forward edge) (ping_source forward edge) tr)) s w1 = (ZIPC_OK, rl, w')"
    "l1 = the sl" "l2 = the rl"
    using assms(1) by (auto simp: create_ping_edge_def Let_def split: if_splits prod.splits)
  obtain l where l: "sl = Some l" "lk_pool l = p" "lk_local_component l = ping_source forward edge" "lk_remote_component l = ping_destination forward edge"
    "lk_local_epoch l = registered_epoch s (Some p) (ping_source forward edge)" "lk_hop_limit l = ZIPC_HOP_LIMIT_UNLIMITED" "lk_default_deadline_ns l = 0"
    by (rule created_link [OF c(1)])
  obtain r where r: "rl = Some r" "lk_pool r = p" "lk_local_component r = ping_destination forward edge" "lk_remote_component r = ping_source forward edge"
    "zipc_component_id_valid (ping_destination forward edge)" "lk_local_epoch r = registered_epoch s (Some p) (ping_destination forward edge)"
    by (rule created_link [OF c(2)])
  have "l1 = l" "l2 = r" using c(3,4) r(1) l(1) by simp_all
  then show ?thesis using assms(2-6) r l turn by (simp add: edge_ready_def)
qed

text \<open>The depth of the ring of an edge is the slot count, which need not divide \<open>2 ^ 32\<close>.\<close>

lemma automatic_depth_not_aligned: "automatic_slot_count 1000064 = 33"
  by (simp add: automatic_slot_count_def AUTO_POOL_BUDGET_def DEFAULT_SLOT_COUNT_def Let_def)

text \<open>The argument loop of \<open>zipc-stat\<close> reads past the end of the arguments when the value of its
  last option is missing.\<close>

theorem stat_missing_value_crashes:
  assumes "stat_args argv opt = Stat_Options opt'" "a \<in> {''--name'', ''--slots'', ''--capacity''}"
  shows "stat_args (argv @ [a]) opt = Null_Dereference"
  using assms by (induction argv opt rule: stat_args.induct) (auto split: if_splits list.splits option.splits)

text \<open>The size parser of \<open>zipc-membench\<close> wraps around silently and ignores what follows the suffix.\<close>

theorem membench_size_unchecked: "parse_size ''17179869185G'' = 2 ^ 30" "parse_size ''4Kx'' = 4096" "parse_size ''-1'' = UINT64_MAX"
  by (simp_all add: parse_size_def strtoull_base_def number_base_def first_is_def c_space_def digits_value_def digit_value_def is_digit_def
      UINT64_MAX_def Let_def)

end
