(* ===== verification/Chain_Probe.thy ===== *)
theory Chain_Probe
  imports Relay_Chain Utilities
begin

text \<open>
  The components of \<^verbatim>\<open>utilities/zipc-ping.c\<close>: the first sends a probe along a chain of links, every
  other component writes two clock readings into the payload and passes the probe on, the last one
  sends it back, and each relay returns it over its reverse link. The readings of the clocks, the
  result of \<open>poll\<close> and the turns of the other processes are arguments. The theorem follows one
  probe to the end of the chain and back; the statistics are shown to be those of its samples.
\<close>

subsection \<open>The payload\<close>

text \<open>\<open>ping_payload_t\<close> in the memory of a little-endian LP64 machine.\<close>

definition u64_bytes :: "u64 \<Rightarrow> u8 list" where
  "u64_bytes x = map (\<lambda>k. ucast (drop_bit (8 * k) x)) [0..<8]"

definition u32_bytes :: "u32 \<Rightarrow> u8 list" where
  "u32_bytes x = map (\<lambda>k. ucast (drop_bit (8 * k) x)) [0..<4]"

definition bytes_u64 :: "u8 list \<Rightarrow> u64" where
  "bytes_u64 xs = foldr (\<lambda>b x. ucast b OR push_bit 8 x) xs 0"

definition depart_offset :: "u32 \<Rightarrow> nat" where
  "depart_offset i = 16 + 8 * unat i"

definition arrival_offset :: "u32 \<Rightarrow> nat" where
  "arrival_offset i = 16 + 8 * unat MAX_COMPONENTS + 8 * unat i"

definition sizeof_ping_payload :: u32 where "sizeof_ping_payload = 16 + 16 * MAX_COMPONENTS"

definition probe_payload :: "u64 \<Rightarrow> u32 \<Rightarrow> u64 \<Rightarrow> u8 list" where
  "probe_payload sequence component_count now =
     u64_bytes sequence @ u32_bytes component_count @ u32_bytes 0 @ u64_bytes now @
     replicate (8 * (unat MAX_COMPONENTS - 1)) 0 @ replicate (8 * unat MAX_COMPONENTS) 0"

definition load_u64 :: "zipc_pool \<Rightarrow> u64 \<Rightarrow> sys \<Rightarrow> u64" where
  "load_u64 p address s = bytes_u64 (load_bytes p address 8 s)"

subsection \<open>The relays\<close>

text \<open>How a turn of a component other than the first ends: the loop goes on, \<open>CHECK\<close> ends the process,
  the pointer of \<open>zipc_buffer_data\<close> is null, or the parent process ends the component because another
  one has failed.\<close>

datatype turn_end = Turn_Done | Turn_Exit zipc_status | Turn_Crash | Turn_Killed

definition ping_stamp :: "u32 \<Rightarrow> u64 \<times> u64 \<Rightarrow> zipc_buffer option \<Rightarrow> sys \<Rightarrow> sys option" where
  "ping_stamp index clock buffer s =
     (case zipc_buffer_data buffer s of
        None \<Rightarrow> None
      | Some payload \<Rightarrow>
          let p = the (buf_pool (the buffer));
              s = store_bytes p (payload + of_nat (arrival_offset index)) (u64_bytes (fst clock)) s
          in Some (store_bytes p (payload + of_nat (depart_offset index)) (u64_bytes (snd clock)) s))"

definition ping_return :: "'w platform_ops \<Rightarrow> zipc_link \<Rightarrow> zipc_buffer option \<Rightarrow> sys \<Rightarrow> 'w \<Rightarrow> turn_end \<times> sys \<times> 'w" where
  "ping_return pf back buffer s w =
     (case zipc_send pf (Some back) buffer s w of
        (status, _, s, w) \<Rightarrow> (if status \<noteq> ZIPC_OK then Turn_Exit status else Turn_Done, s, w))"

text \<open>One turn of component \<open>index\<close>: \<open>onward\<close> is the pair \<open>forward[index].sender\<close>,
  \<open>reverse[index].receiver\<close>, absent in the final component; \<open>others\<close> is what the components behind it
  do before the reply is there. \<open>None\<close> is a receive that never returns.\<close>

definition ping_turn ::
  "'w platform_ops \<Rightarrow> u32 \<Rightarrow> u64 \<times> u64 \<Rightarrow> zipc_link \<Rightarrow> zipc_link \<Rightarrow> (zipc_link \<times> zipc_link) option \<Rightarrow>
   (sys \<Rightarrow> 'w \<Rightarrow> (turn_end \<times> sys \<times> 'w) option) \<Rightarrow> sys \<Rightarrow> 'w \<Rightarrow> (turn_end \<times> sys \<times> 'w) option" where
  "ping_turn pf index clock receiver back onward others s w =
     (case zipc_recv pf (Some receiver) (Some buffer_zero) s w of
        None \<Rightarrow> None
      | Some (status, buffer, s, w) \<Rightarrow>
          if status \<noteq> ZIPC_OK then Some (Turn_Exit status, s, w)
          else
            (case ping_stamp index clock buffer s of
               None \<Rightarrow> Some (Turn_Crash, s, w)
             | Some s \<Rightarrow>
                 (case onward of
                    None \<Rightarrow> Some (ping_return pf back buffer s w)
                  | Some (sender, reply) \<Rightarrow>
                      (case zipc_send pf (Some sender) buffer s w of
                         (status, buffer, s, w) \<Rightarrow>
                           if status \<noteq> ZIPC_OK then Some (Turn_Exit status, s, w)
                           else
                             (case others s w of
                                None \<Rightarrow> None
                              | Some (others_end, s, w) \<Rightarrow>
                                  if others_end \<noteq> Turn_Done then Some (Turn_Killed, s, w)
                                  else
                                    (case zipc_recv pf (Some reply) buffer s w of
                                       None \<Rightarrow> None
                                     | Some (status, buffer, s, w) \<Rightarrow>
                                         if status \<noteq> ZIPC_OK then Some (Turn_Exit status, s, w)
                                         else Some (ping_return pf back buffer s w)))))))"

text \<open>The turns of the components from \<open>index\<close> to the end of the chain: the relays behind a component
  take theirs while it waits. The list holds the forward and the reverse edge of each relay.\<close>

fun ping_chain ::
  "'w platform_ops \<Rightarrow> (u32 \<Rightarrow> u64 \<times> u64) \<Rightarrow> u32 \<Rightarrow> zipc_link \<Rightarrow> zipc_link \<Rightarrow> (edge_link \<times> edge_link) list \<Rightarrow> sys \<Rightarrow> 'w \<Rightarrow>
   (turn_end \<times> sys \<times> 'w) option" where
  "ping_chain pf clock index receiver back [] =
     ping_turn pf index (clock index) receiver back None (\<lambda>s w. None)"
| "ping_chain pf clock index receiver back ((f, r) # rest) =
     ping_turn pf index (clock index) receiver back (Some (el_sender f, el_receiver r))
       (ping_chain pf clock (index + 1) (el_receiver f) (el_sender r) rest)"

subsection \<open>The first component\<close>

record ping_reply =
  pr_sequence :: u64
  pr_rtt :: u64
  pr_one_way :: u64
  pr_hops :: "u64 list"
  pr_hop_count :: u32

datatype probe_end =
    Probe_Reply ping_reply
  | Probe_Timeout
  | Probe_Poll_Error
  | Probe_Exit zipc_status
  | Probe_Crash
  | Probe_Killed

definition read_reply :: "u32 \<Rightarrow> u64 \<Rightarrow> u64 \<Rightarrow> zipc_buffer option \<Rightarrow> sys \<Rightarrow> ping_reply" where
  "read_reply component_count finished reply buffer s =
     (let field = (\<lambda>off. load_u64 (the (buf_pool (the buffer))) (reply + of_nat off) s)
      in \<lparr>pr_sequence = field 0,
          pr_rtt = finished - field (depart_offset 0),
          pr_one_way = field (arrival_offset (component_count - 1)) - field (depart_offset 0),
          pr_hops = map (\<lambda>hop. field (arrival_offset (of_nat hop)) - field (depart_offset (of_nat hop - 1)))
                      [1..<unat component_count],
          pr_hop_count = zipc_buffer_hop_count buffer s\<rparr>)"

text \<open>One turn of the loop of component 0. \<open>ready\<close> is the result of \<open>wait_for_reply\<close>, \<open>depart\<close> and
  \<open>finished\<close> are its two clock readings, and \<open>others\<close> the turns of the components of the chain.\<close>

definition ping_probe ::
  "'w platform_ops \<Rightarrow> zipc_link \<Rightarrow> zipc_link \<Rightarrow> u32 \<Rightarrow> u32 \<Rightarrow> u64 \<Rightarrow> u64 \<Rightarrow> int \<Rightarrow>
   (sys \<Rightarrow> 'w \<Rightarrow> (turn_end \<times> sys \<times> 'w) option) \<Rightarrow> sys \<Rightarrow> 'w \<Rightarrow> (probe_end \<times> sys \<times> 'w) option" where
  "ping_probe pf sender receiver component_count it depart finished ready others s w =
     (case zipc_buffer_alloc_ex (Some sender) 0 0 0 (Some buffer_zero) None False s of
        None \<Rightarrow> None
      | Some (status, buffer, s) \<Rightarrow>
          if status \<noteq> ZIPC_OK then Some (Probe_Exit status, s, w)
          else
            (case zipc_buffer_append buffer (Some (probe_payload (ucast it) component_count depart)) sizeof_ping_payload s of
               (status, buffer, s) \<Rightarrow>
                 if status \<noteq> ZIPC_OK then Some (Probe_Exit status, s, w)
                 else
                   (case zipc_send pf (Some sender) buffer s w of
                      (status, buffer, s, w) \<Rightarrow>
                        if status \<noteq> ZIPC_OK then Some (Probe_Exit status, s, w)
                        else
                          (case others s w of
                             None \<Rightarrow> None
                           | Some (others_end, s, w) \<Rightarrow>
                               if others_end \<noteq> Turn_Done then Some (Probe_Killed, s, w)
                               else if ready < 0 then Some (Probe_Poll_Error, s, w)
                               else if ready = 0 then Some (Probe_Timeout, s, w)
                               else
                                 (case zipc_recv pf (Some receiver) buffer s w of
                                    None \<Rightarrow> None
                                  | Some (status, buffer, s, w) \<Rightarrow>
                                      if status \<noteq> ZIPC_OK then Some (Probe_Exit status, s, w)
                                      else
                                        (case zipc_buffer_data buffer s of
                                           None \<Rightarrow> Some (Probe_Crash, s, w)
                                         | Some reply \<Rightarrow>
                                             let r = read_reply component_count finished reply buffer s in
                                             (case zipc_buffer_release buffer s of
                                                (status, _, s) \<Rightarrow>
                                                  Some (if status \<noteq> ZIPC_OK then Probe_Exit status else Probe_Reply r, s, w))))))))"

subsection \<open>The statistics\<close>

record ping_stats =
  ps_min_ns :: u64
  ps_max_ns :: u64
  ps_sum_ns :: u64
  ps_transmitted :: u32
  ps_received :: u32

definition ping_stats_start :: ping_stats where
  "ping_stats_start = \<lparr>ps_min_ns = UINT64_MAX, ps_max_ns = 0, ps_sum_ns = 0, ps_transmitted = 0, ps_received = 0\<rparr>"

definition count_reply :: "u64 \<Rightarrow> ping_stats \<Rightarrow> ping_stats" where
  "count_reply rtt_ns st =
     st\<lparr>ps_transmitted := ps_transmitted st + 1, ps_received := ps_received st + 1,
        ps_min_ns := (if rtt_ns < ps_min_ns st then rtt_ns else ps_min_ns st),
        ps_max_ns := (if rtt_ns > ps_max_ns st then rtt_ns else ps_max_ns st),
        ps_sum_ns := ps_sum_ns st + rtt_ns\<rparr>"

definition average_ns :: "ping_stats \<Rightarrow> u64" where
  "average_ns st = ps_sum_ns st div ucast (ps_received st)"

text \<open>The loop over the probes: statistics and whether the run failed, or the end of the process inside
  a turn. \<open>nap\<close> tells whether the interval is
  zero or the sleep after a probe succeeds.\<close>

datatype ping_result = Ping_Statistics bool ping_stats | Ping_Ended probe_end

fun ping_loop ::
  "(u32 \<Rightarrow> sys \<Rightarrow> 'w \<Rightarrow> (probe_end \<times> sys \<times> 'w) option) \<Rightarrow> (u32 \<Rightarrow> bool) \<Rightarrow> nat \<Rightarrow> u32 \<Rightarrow> ping_stats \<Rightarrow> sys \<Rightarrow> 'w \<Rightarrow>
   (ping_result \<times> sys \<times> 'w) option" where
  "ping_loop probe nap 0 it st s w = Some (Ping_Statistics False st, s, w)"
| "ping_loop probe nap (Suc n) it st s w =
     (case probe it s w of
        None \<Rightarrow> None
      | Some (Probe_Reply r, s, w) \<Rightarrow>
          let st = count_reply (pr_rtt r) st in
          if n \<noteq> 0 \<and> \<not> nap it then Some (Ping_Statistics True st, s, w)
          else ping_loop probe nap n (it + 1) st s w
      | Some (Probe_Timeout, s, w) \<Rightarrow> Some (Ping_Statistics True (st\<lparr>ps_transmitted := ps_transmitted st + 1\<rparr>), s, w)
      | Some (Probe_Poll_Error, s, w) \<Rightarrow> Some (Ping_Statistics True (st\<lparr>ps_transmitted := ps_transmitted st + 1\<rparr>), s, w)
      | Some (e, s, w) \<Rightarrow> Some (Ping_Ended e, s, w))"

subsection \<open>Fields of the payload\<close>

lemma length_word_bytes [simp]: "length (u64_bytes x) = 8" "length (u32_bytes y) = 4"
  by (simp_all add: u64_bytes_def u32_bytes_def)

lemma bit_bytes_u64: "n < 64 \<Longrightarrow> bit (bytes_u64 xs) n \<longleftrightarrow> n div 8 < length xs \<and> bit (xs ! (n div 8)) (n mod 8)"
proof (induction xs arbitrary: n)
  case (Cons b xs)
  have step: "bit (bytes_u64 (b # xs)) n \<longleftrightarrow> bit b n \<or> 8 \<le> n \<and> bit (bytes_u64 xs) (n - 8)"
    using Cons.prems by (auto simp: bytes_u64_def bit_or_iff bit_push_bit_iff bit_unsigned_iff)
  show ?case
  proof (cases "n < 8")
    case False
    then obtain m where n: "n = m + 8" by (metis add.commute le_Suc_ex not_le)
    have "\<not> bit b n" using False bit_imp_le_length [of b n] by auto
    then show ?thesis using Cons.IH [of m] Cons.prems n step by (simp add: div_add_self2)
  qed (use step in simp)
qed (simp add: bytes_u64_def)

lemma bytes_u64_inverse [simp]: "bytes_u64 (u64_bytes x) = x"
proof (rule bit_word_eqI)
  fix n assume "n < LENGTH(64)"
  then have n: "n < 64" "n div 8 < 8" "8 * (n div 8) + n mod 8 = n" by auto
  show "bit (bytes_u64 (u64_bytes x)) n = bit x n"
    using n(2) by (simp add: n(1) bit_bytes_u64 u64_bytes_def bit_unsigned_iff bit_drop_bit_eq)
qed

text \<open>The reading of one field, and the two stamps of a component.\<close>

definition field :: "nat \<Rightarrow> u8 list \<Rightarrow> u64" where
  "field off bs = bytes_u64 (take 8 (drop off bs))"

definition stamp_body :: "u32 \<Rightarrow> u64 \<times> u64 \<Rightarrow> u8 list \<Rightarrow> u8 list" where
  "stamp_body i clock bs =
     overwrite (depart_offset i) (u64_bytes (snd clock)) (overwrite (arrival_offset i) (u64_bytes (fst clock)) bs)"

fun stamps :: "(u32 \<Rightarrow> u64 \<times> u64) \<Rightarrow> u32 \<Rightarrow> nat \<Rightarrow> u8 list \<Rightarrow> u8 list" where
  "stamps clock i 0 bs = bs"
| "stamps clock i (Suc n) bs = stamps clock (i + 1) n (stamp_body i (clock i) bs)"

lemma length_stamps [simp]: "length (stamp_body i c bs) = length bs" "length (stamps clock i n bs) = length bs"
  by (induction n arbitrary: i bs) (simp_all add: stamp_body_def)

lemma field_overwrite:
  assumes "a + 8 \<le> length bs"
  shows "field a (overwrite a (u64_bytes x) bs) = x"
    "b + 8 \<le> a \<or> a + 8 \<le> b \<Longrightarrow> field b (overwrite a (u64_bytes x) bs) = field b bs"
proof -
  have "take 8 (drop a (overwrite a (u64_bytes x) bs)) = u64_bytes x"
    using assms by (intro nth_equalityI) (auto simp: nth_overwrite)
  then show "field a (overwrite a (u64_bytes x) bs) = x" by (simp add: field_def)
  show "field b (overwrite a (u64_bytes x) bs) = field b bs" if "b + 8 \<le> a \<or> a + 8 \<le> b"
    unfolding field_def using assms that by (subst slice_overwrite_outside) auto
qed

lemma payload_offsets:
  assumes "unat i < 16"
  shows "depart_offset i + 8 \<le> 144" "144 \<le> arrival_offset i" "arrival_offset i + 8 \<le> 272" "16 \<le> depart_offset i"
  using assms by (simp_all add: depart_offset_def arrival_offset_def MAX_COMPONENTS_def)

lemma offsets_apart:
  "i \<noteq> j \<Longrightarrow> depart_offset i + 8 \<le> depart_offset j \<or> depart_offset j + 8 \<le> depart_offset i"
  "i \<noteq> j \<Longrightarrow> arrival_offset i + 8 \<le> arrival_offset j \<or> arrival_offset j + 8 \<le> arrival_offset i"
proof -
  assume "i \<noteq> j"
  then have "unat i + 1 \<le> unat j \<or> unat j + 1 \<le> unat i" by (simp add: word_unat_eq_iff) arith
  then show "depart_offset i + 8 \<le> depart_offset j \<or> depart_offset j + 8 \<le> depart_offset i"
    "arrival_offset i + 8 \<le> arrival_offset j \<or> arrival_offset j + 8 \<le> arrival_offset i"
    by (auto simp: depart_offset_def arrival_offset_def)
qed

text \<open>A stamp writes its own two fields and no other.\<close>

lemma stamp_fields:
  assumes "unat i < 16" "272 \<le> length bs"
  shows "field (arrival_offset i) (stamp_body i c bs) = fst c" "field (depart_offset i) (stamp_body i c bs) = snd c"
    "unat j < 16 \<Longrightarrow> j \<noteq> i \<Longrightarrow> field (arrival_offset j) (stamp_body i c bs) = field (arrival_offset j) bs"
    "unat j < 16 \<Longrightarrow> j \<noteq> i \<Longrightarrow> field (depart_offset j) (stamp_body i c bs) = field (depart_offset j) bs"
    "field 0 (stamp_body i c bs) = field 0 bs"
  using payload_offsets [OF assms(1)] payload_offsets [of j] offsets_apart [of j i] assms(2)
  by (simp_all add: stamp_body_def field_overwrite)

lemma stamps_fields:
  assumes "unat i + n \<le> 16" "272 \<le> length bs" "unat j < 16"
  shows "field (arrival_offset j) (stamps clock i n bs) =
      (if unat i \<le> unat j \<and> unat j < unat i + n then fst (clock j) else field (arrival_offset j) bs) \<and>
    field (depart_offset j) (stamps clock i n bs) =
      (if unat i \<le> unat j \<and> unat j < unat i + n then snd (clock j) else field (depart_offset j) bs) \<and>
    field 0 (stamps clock i n bs) = field 0 bs"
  using assms
proof (induction n arbitrary: i bs)
  case (Suc n)
  have i: "unat i < 16" "unat (i + 1) = Suc (unat i)" using Suc.prems(1) by (simp_all add: unat_word_ariths)
  have ih: "unat (i + 1) + n \<le> 16" "272 \<le> length (stamp_body i (clock i) bs)" using Suc.prems i by simp_all
  show ?case
  proof (cases "j = i")
    case False
    then have "unat i \<noteq> unat j" by (simp add: word_unat_eq_iff)
    then show ?thesis
      using Suc.IH [OF ih Suc.prems(3)] stamp_fields(3,4) [OF i(1) Suc.prems(2), where j = j and c = "clock i"]
        stamp_fields(5) [OF i(1) Suc.prems(2), of "clock i"] False Suc.prems(3) i(2) by auto
  qed (use Suc.IH [OF ih Suc.prems(3)] stamp_fields [OF i(1) Suc.prems(2), where c = "clock i"] i(2) in simp)
qed auto

subsection \<open>One hop and its stamp\<close>

text \<open>The address of a byte of the contents.\<close>

lemma body_address:
  fixes s v
  defines "h \<equiv> zipc_buffer_headroom (Some v) s"
  assumes inv: "pool_inv s p" and ok: "payload_ok s p" and cur: "current_view s p v" and fits: "off + n \<le> length (bv_body (view_bytes s p v))"
  shows "buf_data v + of_nat off = pool_payload_base p + ucast (buf_slot_id v) * ucast (ph_slot_stride (hdr s p)) + ucast (h + of_nat off)"
    "unat (h + of_nat off) = unat h + off" "off + n \<le> unat (buf_length v)"
    "unat h + off + n \<le> unat (ph_slot_capacity (hdr s p))"
proof -
  note f = current_view_fields [OF cur] and r = current_view_region [OF inv cur, folded h_def] and lens = view_bytes_lengths [OF inv ok cur]
  show room: "off + n \<le> unat (buf_length v)" using fits lens(2) by simp
  then show "unat h + off + n \<le> unat (ph_slot_capacity (hdr s p))" using r(1) by simp
  have off: "off < 2 ^ 32" "unat (of_nat off :: u32) = off"
    using room r(1) unat_u32_lt [of "ph_slot_capacity (hdr s p)"] by (simp_all add: unat_of_nat)
  have sum: "unat h + unat (of_nat off :: u32) \<le> unat (ph_slot_capacity (hdr s p))" using room r(1) off(2) by simp
  then show "unat (h + of_nat off) = unat h + off" using unat_add_le [OF sum] off(2) by simp
  have "rg_offset (sc_region (slot_of s (slot_ptr p (buf_slot_id v)))) = h" using f(7,9) by (simp add: zipc_buffer_headroom_def h_def)
  moreover have "(ucast (of_nat off :: u32) :: u64) = of_nat off" using off by (simp add: word_unat_eq_iff unat_of_nat)
  ultimately show "buf_data v + of_nat off = pool_payload_base p + ucast (buf_slot_id v) * ucast (ph_slot_stride (hdr s p)) + ucast (h + of_nat off)"
    unfolding f(5,6) ucast_add_le [OF sum] by simp
qed

text \<open>A component writes into the contents of a buffer it holds, and reads from them.\<close>

lemma store_holds:
  assumes hold: "holds_buffer p s v c" and ok: "payload_ok s p" and fits: "off + length xs \<le> length (bv_body (view_bytes s p v))"
  shows "holds_buffer p (store_bytes p (buf_data v + of_nat off) xs s) v c"
    "bv_body (view_bytes (store_bytes p (buf_data v + of_nat off) xs s) p v) = overwrite off xs (bv_body (view_bytes s p v))"
proof -
  let ?t = "store_bytes p (buf_data v + of_nat off) xs s" and ?i = "buf_slot_id v" and ?h = "zipc_buffer_headroom (Some v) s"
  have inv: "pool_inv s p" and cur: "current_view s p v" using hold by (simp_all add: holds_buffer_def)
  show "holds_buffer p ?t v c" using hold by (simp add: holds_buffer_def)
  note f = current_view_fields [OF cur] and r = current_view_region [OF inv cur] and ad = body_address [OF inv ok cur fits]
  have "unat (?h + of_nat off) + length xs \<le> unat (ph_slot_capacity (hdr s p))" using ad(2,4) by simp
  from store_slot_bytes(1) [OF ok f(8) this ad(1)]
  have st: "slot_bytes ?t p ?i = overwrite (unat ?h + off) xs (slot_bytes s p ?i)" by (simp add: ad(2))
  have "bv_body (view_bytes ?t p v) = take (unat (buf_length v)) (drop (unat ?h) (slot_bytes ?t p ?i))"
    using f(3,7,9) by (simp add: view_bytes_def split_bytes_def zipc_buffer_headroom_def Let_def)
  also have "\<dots> = overwrite off xs (take (unat (buf_length v)) (drop (unat ?h) (slot_bytes s p ?i)))"
    unfolding st using ad(3) r(1) by (intro slice_overwrite_inside) (simp_all add: slot_bytes_length(1) [OF ok f(8)])
  finally show "bv_body (view_bytes ?t p v) = overwrite off xs (bv_body (view_bytes s p v))"
    by (simp add: view_bytes_split [OF cur] split_bytes_def)
qed

lemma load_field:
  assumes hold: "holds_buffer p s v c" and ok: "payload_ok s p" and fits: "off + 8 \<le> length (bv_body (view_bytes s p v))"
  shows "load_u64 p (buf_data v + of_nat off) s = field off (bv_body (view_bytes s p v))"
proof -
  let ?i = "buf_slot_id v" and ?st = "ph_slot_stride (hdr s p)" and ?h = "zipc_buffer_headroom (Some v) s"
  have inv: "pool_inv s p" and cur: "current_view s p v" using hold by (simp_all add: holds_buffer_def)
  note ad = body_address [OF inv ok cur fits]
  have "payload_index p (buf_data v + of_nat off) = unat (ucast ?i * ucast ?st + ucast (?h + of_nat off) :: u64)"
    unfolding payload_index_def ad(1) by (simp add: algebra_simps)
  also have "\<dots> = unat ?i * unat ?st + (unat ?h + off)"
    using slot_offset_unat [of "?h + of_nat off" "ph_slot_capacity (hdr s p)" ?i ?st] ad(2,4) by (simp add: word_le_nat_alt)
  finally have "load_bytes p (buf_data v + of_nat off) 8 s = take 8 (drop (unat ?i * unat ?st + (unat ?h + off)) (payload_of s p))"
    by (simp only: load_bytes_def)
  also have "\<dots> = take 8 (drop (unat ?h + off) (slot_bytes s p ?i))"
    using ad(4) by (simp add: slot_bytes_def drop_take min_def add.commute)
  also have "\<dots> = take 8 (drop off (bv_body (view_bytes s p v)))"
    using ad(3) by (simp add: view_bytes_split [OF cur] split_bytes_def drop_take min_def add.commute)
  finally show ?thesis by (simp add: load_u64_def field_def)
qed

text \<open>Component \<open>c\<close> holds the buffer of \<open>v\<close> again, or for the first time, with contents \<open>body\<close>, after \<open>n\<close> hops.\<close>

definition carried :: "zipc_pool \<Rightarrow> zipc_buffer \<Rightarrow> sys \<Rightarrow> zipc_component_id \<Rightarrow> zipc_buffer \<Rightarrow> sys \<Rightarrow> nat \<Rightarrow> u8 list \<Rightarrow> bool" where
  "carried p v s c v2 u n body \<longleftrightarrow> holds_buffer p u v2 c \<and> payload_ok u p \<and> buf_handle v2 = buf_handle v \<and>
     bv_body (view_bytes u p v2) = body \<and>
     (let c = slot_ptr p (zipc_handle_slot_id (buf_handle v)) in
      sc_hop_count (slot_of u c) = sc_hop_count (slot_of s c) + of_nat n) \<and>
     (\<forall>x. registered_epoch u (Some p) x = registered_epoch s (Some p) x)"

lemma carried_trans: "carried p v s c v2 u n body \<Longrightarrow> carried p v2 u c' v3 t m body' \<Longrightarrow> carried p v s c' v3 t (n + m) body'"
  by (simp add: carried_def Let_def)

lemma carried_hold: "carried p v s c v2 u n body \<Longrightarrow> holds_buffer p u v2 c \<and> payload_ok u p"
  by (simp add: carried_def)

lemma edge_hop:
  assumes hold: "holds_buffer p s v c" and ok: "payload_ok s p" and lax: "pool_flags p AND ZIPC_POOL_F_STRICT_OWNERSHIP = 0"
    and edge: "edge_ready p s h c e"
  obtains t h1 v2 u h2 where "zipc_send linux_platform (Some (el_sender e)) (Some v) s h = (ZIPC_OK, Some buffer_zero, t, h1)"
    "zipc_recv linux_platform (Some (el_receiver e)) (Some buffer_zero) t h1 = Some (ZIPC_OK, Some v2, u, h2)"
    "carried p v s (lk_local_component (el_receiver e)) v2 u 1 (bv_body (view_bytes s p v))" "ring_frame (el_ring e) h h2"
proof -
  obtain t h1 where sent: "zipc_send linux_platform (Some (el_sender e)) (Some v) s h = (ZIPC_OK, Some buffer_zero, t, h1)"
    by (rule edge_send [OF hold lax edge])
  obtain v2 u h2 where r: "zipc_recv linux_platform (Some (el_receiver e)) (Some buffer_zero) t h1 = Some (ZIPC_OK, Some v2, u, h2)"
    "arrived p v s (lk_local_component (el_receiver e)) v2 u 1" "ring_frame (el_ring e) h h2"
    by (rule edge_arrive [OF hold lax edge sent])
  from r(2) ok have "carried p v s (lk_local_component (el_receiver e)) v2 u 1 (bv_body (view_bytes s p v))"
    by (simp add: arrived_def carried_def)
  from that [OF sent r(1) this r(3)] show thesis .
qed

lemma stamp_carried:
  assumes "carried p v s c v2 u n body" "unat i < 16" "272 \<le> length body"
  obtains t where "ping_stamp i clock (Some v2) u = Some t" "carried p v s c v2 t n (stamp_body i clock body)"
proof -
  have hold: "holds_buffer p u v2 c" and ok: "payload_ok u p" and body: "bv_body (view_bytes u p v2) = body"
    using assms(1) by (simp_all add: carried_def)
  have cur: "current_view u p v2" using hold by (simp add: holds_buffer_def)
  note f = current_view_fields [OF cur] and off = payload_offsets [OF assms(2)]
  let ?u = "store_bytes p (buf_data v2 + of_nat (arrival_offset i)) (u64_bytes (fst clock)) u"
  let ?t = "store_bytes p (buf_data v2 + of_nat (depart_offset i)) (u64_bytes (snd clock)) ?u"
  have fit1: "arrival_offset i + length (u64_bytes (fst clock)) \<le> length (bv_body (view_bytes u p v2))" using off assms(3) body by simp
  note s1 = store_holds [OF hold ok fit1]
  have ok1: "payload_ok ?u p" using ok by simp
  have fit2: "depart_offset i + length (u64_bytes (snd clock)) \<le> length (bv_body (view_bytes ?u p v2))"
    using off assms(3) body by (simp add: s1(2))
  note s2 = store_holds [OF s1(1) ok1 fit2]
  have "ping_stamp i clock (Some v2) u = Some ?t" using f(1,7) by (simp add: ping_stamp_def zipc_buffer_data_def Let_def)
  moreover have "carried p v s c v2 ?t n (stamp_body i clock body)"
    using assms(1) s1(2) s2 body ok1 by (simp add: carried_def stamp_body_def)
  ultimately show thesis by (rule that)
qed

subsection \<open>There and back\<close>

text \<open>The hosts differ in the rings of \<open>A\<close> at most.\<close>

definition rings_kept :: "nat set \<Rightarrow> linux_host \<Rightarrow> linux_host \<Rightarrow> bool" where
  "rings_kept A h h' \<longleftrightarrow> lh_transport h' = lh_transport h \<and> lh_reply h' = lh_reply h \<and> (\<forall>b. b \<notin> A \<longrightarrow> lh_rings h' b = lh_rings h b)"

lemma rings_kept_one: "ring_frame a h h' \<Longrightarrow> a \<in> A \<Longrightarrow> rings_kept A h h'"
  by (auto simp: ring_frame_def rings_kept_def)

lemma rings_kept_trans: "rings_kept A h h1 \<Longrightarrow> rings_kept B h1 h2 \<Longrightarrow> A \<union> B \<subseteq> C \<Longrightarrow> rings_kept C h h2"
  unfolding rings_kept_def by (metis Un_iff subsetD)

lemma edge_ready_kept:
  assumes "edge_ready p s h c e" "rings_kept A h h2" "el_ring e \<notin> A"
    and "\<forall>x. registered_epoch u (Some p) x = registered_epoch s (Some p) x"
  shows "edge_ready p u h2 c e"
proof -
  have "lh_rings h2 (el_ring e) = lh_rings h (el_ring e)" "lh_transport h2 = lh_transport h" "lh_reply h2 = lh_reply h"
    using assms(2,3) by (auto simp: rings_kept_def)
  then show ?thesis
    using assms(1,4) by (auto simp: edge_ready_def wakes_def ring_transport_def pending_def Let_def split: option.splits)
qed

text \<open>The forward and reverse edges from component \<open>c\<close> on, over rings that are all distinct.\<close>

definition edge_rings :: "(edge_link \<times> edge_link) list \<Rightarrow> nat list" where
  "edge_rings es = concat (map (\<lambda>(f, r). [el_ring f, el_ring r]) es)"

fun round_trip_ready :: "zipc_pool \<Rightarrow> sys \<Rightarrow> linux_host \<Rightarrow> zipc_component_id \<Rightarrow> (edge_link \<times> edge_link) list \<Rightarrow> bool" where
  "round_trip_ready p s h c [] \<longleftrightarrow> True"
| "round_trip_ready p s h c ((f, r) # es) \<longleftrightarrow>
     (let d = lk_local_component (el_receiver f) in
      edge_ready p s h c f \<and> edge_ready p s h d r \<and> lk_local_component (el_receiver r) = c \<and> round_trip_ready p s h d es)"

lemma round_trip_ready_kept:
  assumes "round_trip_ready p s h c es" "rings_kept A h h2" "set (edge_rings es) \<inter> A = {}"
    and "\<forall>x. registered_epoch u (Some p) x = registered_epoch s (Some p) x"
  shows "round_trip_ready p u h2 c es"
  using assms(1,3)
proof (induction es arbitrary: c)
  case (Cons e es)
  then show ?case
    using edge_ready_kept [OF _ assms(2) _ assms(4)] by (cases e) (auto simp: edge_rings_def Let_def)
qed simp

lemma edge_rings_simps [simp]: "edge_rings [] = []" "edge_rings ((f, r) # es) = el_ring f # el_ring r # edge_rings es"
  by (simp_all add: edge_rings_def)

text \<open>The outward leg: the next component receives the buffer and stamps it.\<close>

lemma outward_leg:
  assumes hold: "holds_buffer p s v c" "payload_ok s p" and lax: "pool_flags p AND ZIPC_POOL_F_STRICT_OWNERSHIP = 0"
    and edge: "edge_ready p s h c f" and body: "272 \<le> length (bv_body (view_bytes s p v))" "unat i < 16"
  obtains t h1 v1 u u' h2 where "zipc_send linux_platform (Some (el_sender f)) (Some v) s h = (ZIPC_OK, Some buffer_zero, t, h1)"
    "zipc_recv linux_platform (Some (el_receiver f)) (Some buffer_zero) t h1 = Some (ZIPC_OK, Some v1, u, h2)"
    "ping_stamp i k (Some v1) u = Some u'"
    "carried p v s (lk_local_component (el_receiver f)) v1 u' 1 (stamp_body i k (bv_body (view_bytes s p v)))" "rings_kept {el_ring f} h h2"
proof -
  obtain t h1 v1 u h2 where a: "zipc_send linux_platform (Some (el_sender f)) (Some v) s h = (ZIPC_OK, Some buffer_zero, t, h1)"
    "zipc_recv linux_platform (Some (el_receiver f)) (Some buffer_zero) t h1 = Some (ZIPC_OK, Some v1, u, h2)"
    "carried p v s (lk_local_component (el_receiver f)) v1 u 1 (bv_body (view_bytes s p v))" "ring_frame (el_ring f) h h2"
    by (rule edge_hop [OF hold lax edge])
  obtain u' where st: "ping_stamp i k (Some v1) u = Some u'"
    "carried p v s (lk_local_component (el_receiver f)) v1 u' 1 (stamp_body i k (bv_body (view_bytes s p v)))"
    by (rule stamp_carried [OF a(3) body(2,1)])
  from that [OF a(1,2) st rings_kept_one [OF a(4)]] show thesis by simp
qed

text \<open>The last leg: a component that holds the buffer returns it over its reverse edge.\<close>

lemma return_leg:
  assumes "carried p v s c v1 u n body" "pool_flags p AND ZIPC_POOL_F_STRICT_OWNERSHIP = 0" "edge_ready p u h c r"
  obtains t h1 v2 u2 h2 where "ping_return linux_platform (el_sender r) (Some v1) u h = (Turn_Done, t, h1)"
    "zipc_recv linux_platform (Some (el_receiver r)) (Some buffer_zero) t h1 = Some (ZIPC_OK, Some v2, u2, h2)"
    "carried p v s (lk_local_component (el_receiver r)) v2 u2 (n + 1) body" "ring_frame (el_ring r) h h2"
proof -
  have hold: "holds_buffer p u v1 c" "payload_ok u p" and body: "bv_body (view_bytes u p v1) = body"
    using assms(1) by (simp_all add: carried_def)
  obtain t h1 v2 u2 h2 where b: "zipc_send linux_platform (Some (el_sender r)) (Some v1) u h = (ZIPC_OK, Some buffer_zero, t, h1)"
    "zipc_recv linux_platform (Some (el_receiver r)) (Some buffer_zero) t h1 = Some (ZIPC_OK, Some v2, u2, h2)"
    "carried p v1 u (lk_local_component (el_receiver r)) v2 u2 1 (bv_body (view_bytes u p v1))" "ring_frame (el_ring r) h h2"
    by (rule edge_hop [OF hold assms(2,3)])
  have "ping_return linux_platform (el_sender r) (Some v1) u h = (Turn_Done, t, h1)" using b(1) by (simp add: ping_return_def)
  from that [OF this b(2) _ b(4)] carried_trans [OF assms(1) b(3)] body show thesis by simp
qed

lemma probe_trip:
  assumes "holds_buffer p s v c" "payload_ok s p" "pool_flags p AND ZIPC_POOL_F_STRICT_OWNERSHIP = 0"
    and "272 \<le> length (bv_body (view_bytes s p v))" "unat i + Suc (length es) \<le> 16"
    and "round_trip_ready p s h c ((f, r) # es)" "distinct (edge_rings ((f, r) # es))"
  shows "\<exists>t h1 t2 h2 v2 u h3. zipc_send linux_platform (Some (el_sender f)) (Some v) s h = (ZIPC_OK, Some buffer_zero, t, h1) \<and>
    ping_chain linux_platform clock i (el_receiver f) (el_sender r) es t h1 = Some (Turn_Done, t2, h2) \<and>
    zipc_recv linux_platform (Some (el_receiver r)) (Some buffer_zero) t2 h2 = Some (ZIPC_OK, Some v2, u, h3) \<and>
    carried p v s c v2 u (2 * Suc (length es)) (stamps clock i (Suc (length es)) (bv_body (view_bytes s p v))) \<and>
    rings_kept (set (edge_rings ((f, r) # es))) h h3"
  using assms(1,2,4-7)
proof (induction es arbitrary: f r s h c v i)
  case Nil
  let ?d = "lk_local_component (el_receiver f)" and ?b = "bv_body (view_bytes s p v)"
  from Nil.prems(5,6) have edges: "edge_ready p s h c f" "edge_ready p s h ?d r" "lk_local_component (el_receiver r) = c"
    and nr: "el_ring r \<notin> {el_ring f}" by (auto simp: Let_def)
  obtain t h1 v1 u u' h2 where a: "zipc_send linux_platform (Some (el_sender f)) (Some v) s h = (ZIPC_OK, Some buffer_zero, t, h1)"
    "zipc_recv linux_platform (Some (el_receiver f)) (Some buffer_zero) t h1 = Some (ZIPC_OK, Some v1, u, h2)"
    and st: "ping_stamp i (clock i) (Some v1) u = Some u'" "carried p v s ?d v1 u' 1 (stamp_body i (clock i) ?b)"
    and k: "rings_kept {el_ring f} h h2"
    by (rule outward_leg [OF Nil.prems(1,2) assms(3) edges(1) Nil.prems(3), of i "clock i"]) (use Nil.prems(4) in simp)
  have "edge_ready p u' h2 ?d r" using st(2) by (intro edge_ready_kept [OF edges(2) k nr]) (simp add: carried_def)
  from return_leg [OF st(2) assms(3) this] obtain t2 h3 v2 u2 h4 where b:
    "ping_return linux_platform (el_sender r) (Some v1) u' h2 = (Turn_Done, t2, h3)"
    "zipc_recv linux_platform (Some (el_receiver r)) (Some buffer_zero) t2 h3 = Some (ZIPC_OK, Some v2, u2, h4)"
    "carried p v s (lk_local_component (el_receiver r)) v2 u2 (1 + 1) (stamp_body i (clock i) ?b)" "ring_frame (el_ring r) h2 h4"
    by blast
  have "ping_chain linux_platform clock i (el_receiver f) (el_sender r) [] t h1 = Some (Turn_Done, t2, h3)"
    using a(2) st(1) b(1) by (simp add: ping_turn_def)
  moreover have "rings_kept (set (edge_rings [(f, r)])) h h4"
    by (rule rings_kept_trans [OF k rings_kept_one [OF b(4), of "{el_ring r}"]]) auto
  ultimately show ?case
    using a(1) b(2,3) edges(3) by (auto simp: numeral_2_eq_2)
next
  case (Cons e es)
  obtain f' r' where e: "e = (f', r')" by fastforce
  let ?d = "lk_local_component (el_receiver f)" and ?b = "bv_body (view_bytes s p v)"
  let ?b1 = "stamp_body i (clock i) ?b" and ?rest = "(f', r') # es"
  from Cons.prems(5,6) have edges: "edge_ready p s h c f" "edge_ready p s h ?d r" "lk_local_component (el_receiver r) = c"
      "round_trip_ready p s h ?d ?rest"
    and nr: "el_ring r \<notin> {el_ring f} \<union> set (edge_rings ?rest)" "set (edge_rings ?rest) \<inter> {el_ring f} = {}"
      "distinct (edge_rings ?rest)"
    unfolding e by (auto simp: Let_def)
  obtain t h1 v1 u u' h2 where a: "zipc_send linux_platform (Some (el_sender f)) (Some v) s h = (ZIPC_OK, Some buffer_zero, t, h1)"
    "zipc_recv linux_platform (Some (el_receiver f)) (Some buffer_zero) t h1 = Some (ZIPC_OK, Some v1, u, h2)"
    and st: "ping_stamp i (clock i) (Some v1) u = Some u'" "carried p v s ?d v1 u' 1 ?b1"
    and k: "rings_kept {el_ring f} h h2"
    by (rule outward_leg [OF Cons.prems(1,2) assms(3) edges(1) Cons.prems(3), of i "clock i"]) (use Cons.prems(4) in simp)
  have hold: "holds_buffer p u' v1 ?d" "payload_ok u' p" and b1: "bv_body (view_bytes u' p v1) = ?b1"
    and ep: "\<forall>x. registered_epoch u' (Some p) x = registered_epoch s (Some p) x"
    using st(2) by (simp_all add: carried_def)
  have i: "unat (i + 1) = Suc (unat i)" "unat (i + 1) + Suc (length es) \<le> 16" using Cons.prems(4) by (simp_all add: unat_word_ariths)
  have long: "272 \<le> length (bv_body (view_bytes u' p v1))" using Cons.prems(3) b1 by simp
  have "round_trip_ready p u' h2 ?d ?rest" by (rule round_trip_ready_kept [OF edges(4) k nr(2) ep])
  from Cons.IH [OF hold long i(2) this nr(3)] obtain t2 h3 t3 h4 v2 u2 h5 where m:
    "zipc_send linux_platform (Some (el_sender f')) (Some v1) u' h2 = (ZIPC_OK, Some buffer_zero, t2, h3)"
    "ping_chain linux_platform clock (i + 1) (el_receiver f') (el_sender r') es t2 h3 = Some (Turn_Done, t3, h4)"
    "zipc_recv linux_platform (Some (el_receiver r')) (Some buffer_zero) t3 h4 = Some (ZIPC_OK, Some v2, u2, h5)"
    "carried p v1 u' ?d v2 u2 (2 * Suc (length es)) (stamps clock (i + 1) (Suc (length es)) ?b1)"
    "rings_kept (set (edge_rings ?rest)) h2 h5"
    unfolding b1 by blast
  note carry = carried_trans [OF st(2) m(4)]
  have k2: "rings_kept ({el_ring f} \<union> set (edge_rings ?rest)) h h5" by (rule rings_kept_trans [OF k m(5)]) simp
  have "edge_ready p u2 h5 ?d r" using carry by (intro edge_ready_kept [OF edges(2) k2 nr(1)]) (simp add: carried_def)
  from return_leg [OF carry assms(3) this] obtain t4 h6 v3 u3 h7 where b:
    "ping_return linux_platform (el_sender r) (Some v2) u2 h5 = (Turn_Done, t4, h6)"
    "zipc_recv linux_platform (Some (el_receiver r)) (Some buffer_zero) t4 h6 = Some (ZIPC_OK, Some v3, u3, h7)"
    "carried p v s (lk_local_component (el_receiver r)) v3 u3 (1 + 2 * Suc (length es) + 1) (stamps clock (i + 1) (Suc (length es)) ?b1)"
    "ring_frame (el_ring r) h5 h7"
    by blast
  have "ping_chain linux_platform clock i (el_receiver f) (el_sender r) (e # es) t h1 = Some (Turn_Done, t4, h6)"
    using a(2) st(1) m(1-3) b(1) by (simp add: ping_turn_def e)
  moreover have "rings_kept (set (edge_rings ((f, r) # e # es))) h h7"
    by (rule rings_kept_trans [OF k2 rings_kept_one [OF b(4), of "{el_ring r}"]]) (auto simp: e)
  moreover have "carried p v s c v3 u3 (2 * Suc (length (e # es))) (stamps clock i (Suc (length (e # es))) ?b)"
    using b(3) edges(3) by simp
  ultimately show ?case using a(1) b(2) by blast
qed

subsection \<open>A probe and its reply\<close>

lemma probe_payload_fields:
  "length (probe_payload q n d) = 272" "field 0 (probe_payload q n d) = q" "field (depart_offset 0) (probe_payload q n d) = d"
  by (simp_all add: probe_payload_def field_def depart_offset_def MAX_COMPONENTS_def)

text \<open>What the statistics line of a probe is made of: the clock readings that the components took.\<close>

definition reply_of :: "(u32 \<Rightarrow> u64 \<times> u64) \<Rightarrow> nat \<Rightarrow> u32 \<Rightarrow> u64 \<Rightarrow> u64 \<Rightarrow> ping_reply" where
  "reply_of clock n it depart finished =
     \<lparr>pr_sequence = ucast it, pr_rtt = finished - depart, pr_one_way = fst (clock (of_nat n)) - depart,
      pr_hops = map (\<lambda>k. fst (clock (of_nat k)) - (if k = 1 then depart else snd (clock (of_nat (k - 1))))) [1..<n + 1],
      pr_hop_count = 1 + 2 * of_nat n\<rparr>"

lemma read_reply_exact:
  assumes hold: "holds_buffer p u v c" and ok: "payload_ok u p" and n: "0 < n" "n \<le> 15"
    and body: "bv_body (view_bytes u p v) = stamps clock 1 n (probe_payload (ucast it) (of_nat (n + 1)) depart)"
    and hop: "zipc_buffer_hop_count (Some v) u = 1 + 2 * of_nat n"
  shows "read_reply (of_nat (n + 1)) finished (buf_data v) (Some v) u = reply_of clock n it depart finished"
proof -
  let ?b = "bv_body (view_bytes u p v)" and ?p = "probe_payload (ucast it) (of_nat (n + 1)) depart"
  have pool: "buf_pool v = Some p" using hold current_view_fields(1) [of u p v] by (simp add: holds_buffer_def)
  have len: "length ?b = 272" using body probe_payload_fields(1) by simp
  have st: "field (arrival_offset j) ?b = (if 1 \<le> unat j \<and> unat j < 1 + n then fst (clock j) else field (arrival_offset j) ?p)"
    "field (depart_offset j) ?b = (if 1 \<le> unat j \<and> unat j < 1 + n then snd (clock j) else field (depart_offset j) ?p)"
    "field 0 ?b = ucast it" if "unat j < 16" for j
    unfolding body using stamps_fields [of 1 n ?p j clock] that n probe_payload_fields by simp_all
  have load: "load_u64 p (buf_data v + of_nat off) u = field off ?b" if "off + 8 \<le> 272" for off
    using load_field [OF hold ok] that len by simp
  have small: "unat (of_nat k :: u32) = k" if "k \<le> 15" for k using that by (simp add: unat_of_nat)
  have dep: "load_u64 p (buf_data v + of_nat (depart_offset (of_nat k))) u = (if k = 0 then depart else snd (clock (of_nat k)))" if "k \<le> n" for k
    using load [of "depart_offset (of_nat k)"] payload_offsets [of "of_nat k"] st(2) [of "of_nat k"] small [of k] that n(2) probe_payload_fields(3) by simp
  have arr: "load_u64 p (buf_data v + of_nat (arrival_offset (of_nat k))) u = fst (clock (of_nat k))" if "0 < k" "k \<le> n" for k
    using load [of "arrival_offset (of_nat k)"] payload_offsets [of "of_nat k"] st(1) [of "of_nat k"] small [of k] that n(2) by simp
  have before: "load_u64 p (buf_data v + of_nat (depart_offset (of_nat k - 1))) u = (if k = 1 then depart else snd (clock (of_nat k - 1)))"
    if "0 < k" "k \<le> n" for k
    using dep [of "k - 1"] that by (cases k) auto
  have "unat (of_nat (n + 1) :: u32) = n + 1" using n(2) by (simp only: unat_of_nat) simp
  then show ?thesis
    using dep [of 0] arr [of n] n(1) load [of 0] st(3) [of 0] hop
    by (auto simp: read_reply_def reply_of_def pool Let_def before arr)
qed

text \<open>C6: A probe of \<^verbatim>\<open>zipc-ping\<close> returns. Let a slot of at least the payload's size be free in a pool of
  at most \<open>2^31\<close> slots without strict ownership; let the identity generator of the first component
  have a session, or draw one at once as in its first probe; and let forward and reverse links of the
  current epochs join the components of the chain over distinct empty rings whose depths divide
  \<open>2^32\<close>. Then the turn of the first component ends in a reply when \<open>poll\<close> reports one: every
  relay stamps the probe and passes it on, the last one turns it round, and what the first
  component reports is exactly what the clocks said: the round-trip time between its own two
  readings, the one-way time to the last component and the time of each hop, with one hop counted
  per edge in each direction. The buffer is released, and the pool keeps its invariant.\<close>

theorem ping_probe_replies:
  assumes "pool_inv s p" "payload_ok s p" "pool_flags p AND ZIPC_POOL_F_STRICT_OWNERSHIP = 0"
    and "j < ph_slot_count (hdr s p)" "slot_available (slot_of s (slot_ptr p j))" "unat (ph_slot_count (hdr s p)) \<le> 2 ^ 31"
    and "identity_ready s c" "zipc_component_id_valid c" "round_trip_ready p s h c ((f, r) # es)"
    and "distinct (edge_rings ((f, r) # es))" "Suc (length es) < unat MAX_COMPONENTS"
    and "lk_hop_limit (el_sender f) = ZIPC_HOP_LIMIT_UNLIMITED" "lk_default_deadline_ns (el_sender f) = 0"
    and "sizeof_ping_payload \<le> ph_slot_capacity (hdr s p)" "0 < ready"
  shows "\<exists>u h'. ping_probe linux_platform (el_sender f) (el_receiver r) (of_nat (length es + 2)) it depart finished ready
      (ping_chain linux_platform clock 1 (el_receiver f) (el_sender r) es) s h =
      Some (Probe_Reply (reply_of clock (Suc (length es)) it depart finished), u, h') \<and> pool_inv u p"
proof -
  let ?n = "Suc (length es)" and ?d = "probe_payload (ucast it) (of_nat (length es + 2)) depart"
  have n: "0 < ?n" "?n \<le> 15" "unat 1 + Suc (length es) \<le> 16" using assms(11) by (simp_all add: MAX_COMPONENTS_def)
  have lk: "lk_pool (el_sender f) = p" "lk_local_component (el_sender f) = c" "lk_local_epoch (el_sender f) = registered_epoch s (Some p) c"
    using assms(9) by (simp_all add: edge_ready_def Let_def)
  obtain b s1 where alloc: "zipc_buffer_alloc_ex (Some (el_sender f)) 0 0 0 (Some buffer_zero) None False s = Some (ZIPC_OK, b, s1)"
    using allocation_succeeds [OF assms(1,3,7,8,4,5,6) lk] by blast
  have d: "length ?d = unat sizeof_ping_payload" by (simp add: probe_payload_fields sizeof_ping_payload_def MAX_COMPONENTS_def)
  obtain v s2 where v: "zipc_buffer_append b (Some ?d) sizeof_ping_payload s1 = (ZIPC_OK, Some v, s2)" "holds_buffer p s2 v c" "payload_ok s2 p"
    "bv_body (view_bytes s2 p v) = ?d" "\<forall>x. registered_epoch s2 (Some p) x = registered_epoch s (Some p) x"
    "sc_hop_count (slot_of s2 (slot_ptr p (buf_slot_id v))) = 1"
    by (rule packet_filled [OF alloc assms(1,2) lk assms(12,13) d assms(14)])
  have long: "272 \<le> length (bv_body (view_bytes s2 p v))" by (simp add: v(4) probe_payload_fields)
  have "rings_kept {} h h" by (simp add: rings_kept_def)
  from round_trip_ready_kept [OF assms(9) this _ v(5)] have ready: "round_trip_ready p s2 h c ((f, r) # es)" by simp
  from probe_trip [OF v(2,3) assms(3) long n(3) ready assms(10), of clock] obtain t h1 t2 h2 v2 u h3 where trip:
    "zipc_send linux_platform (Some (el_sender f)) (Some v) s2 h = (ZIPC_OK, Some buffer_zero, t, h1)"
    "ping_chain linux_platform clock 1 (el_receiver f) (el_sender r) es t h1 = Some (Turn_Done, t2, h2)"
    "zipc_recv linux_platform (Some (el_receiver r)) (Some buffer_zero) t2 h2 = Some (ZIPC_OK, Some v2, u, h3)"
    and carry: "carried p v s2 c v2 u (2 * ?n) (stamps clock 1 ?n ?d)"
    unfolding v(4) by blast
  have hold: "holds_buffer p u v2 c" "payload_ok u p" and body: "bv_body (view_bytes u p v2) = stamps clock 1 ?n ?d"
    using carry by (simp_all add: carried_def)
  have cur: "current_view u p v2" "current_view s2 p v" using hold v(2) by (simp_all add: holds_buffer_def)
  note f2 = current_view_fields [OF cur(1)]
  have hop: "zipc_buffer_hop_count (Some v2) u = 1 + 2 * of_nat ?n"
    using carry v(6) f2(7,9,12) current_view_fields(12) [OF cur(2)]
    by (simp add: carried_def zipc_buffer_hop_count_def buffer_owned_def Let_def)
  have reply: "read_reply (of_nat (length es + 2)) finished (buf_data v2) (Some v2) u = reply_of clock ?n it depart finished"
    using read_reply_exact [OF hold n(1,2) _ hop, of clock it depart finished] body by (simp add: add.commute)
  obtain u' where rel: "zipc_buffer_release (Some v2) u = (ZIPC_OK, Some buffer_zero, u')" "pool_inv u' p"
    by (rule holder_releases [OF hold(1) assms(3)])
  show ?thesis
    using alloc v(1) trip reply rel f2(7) assms(15) by (simp add: ping_probe_def zipc_buffer_data_def Let_def)
qed

text \<open>Components 3, 5 and 7: the rings 2 and 6 lead forward, 4 and 8 back. No component has a session
  yet: this is the first probe of its process.\<close>

definition sample_probe_sys :: sys where
  "sample_probe_sys = sample_sys\<lparr>sys_shm := (\<lambda>_.
     \<lparr>shm_header = sample_header\<lparr>ph_slot_capacity := 512, ph_slot_stride := 512\<rparr>, shm_controls = [sample_slot, sample_slot],
      shm_payload = replicate 1024 0\<rparr>)\<rparr>"

definition sample_clock :: "u32 \<Rightarrow> u64 \<times> u64" where
  "sample_clock i = (1000 + 100 * ucast i, 1020 + 100 * ucast i)"

lemma sample_probe_reads [simp]:
  "hdr sample_probe_sys p = sample_header\<lparr>ph_slot_capacity := 512, ph_slot_stride := 512\<rparr>"
  "slot_of sample_probe_sys (slot_ptr p i) = [sample_slot, sample_slot] ! unat i"
  "registered_epoch sample_probe_sys (Some p) c = 0" "payload_ok sample_probe_sys sample_pool" "pool_inv sample_probe_sys sample_pool"
proof -
  show h: "hdr sample_probe_sys p = sample_header\<lparr>ph_slot_capacity := 512, ph_slot_stride := 512\<rparr>" for p
    by (simp add: sample_probe_sys_def hdr_def upd_gen_def)
  show sl: "slot_of sample_probe_sys (slot_ptr p i) = [sample_slot, sample_slot] ! unat i" for p i
    by (simp add: sample_probe_sys_def slot_of_def upd_gen_def slot_ptr_def)
  show "registered_epoch sample_probe_sys (Some p) c = 0"
    by (simp add: registered_epoch_def component_of_def h sample_header_def zipc_component_id_valid_iff component_lifecycle_state_def
        component_lifecycle_epoch_def zipc_component_state_defs Let_def)
  show "payload_ok sample_probe_sys sample_pool"
    by (simp add: payload_ok_def h) (simp add: sample_probe_sys_def payload_of_def upd_gen_def)
  have "slot_wf 512 sample_slot" by code_simp
  then show "pool_inv sample_probe_sys sample_pool"
    by (simp add: pool_inv_def pool_shape_def gens_ready_def list_all_iff gen_ready_def h)
      (simp add: sample_probe_sys_def sample_sys_def sample_header_def upd_gen_def gen_ready_def ZIPC_SESSION_ROTATING_def)
qed

theorem ping_probe_replies_witness:
  "\<exists>u h'. ping_probe linux_platform (el_sender (sample_edge 2 3 5)) (el_receiver (sample_edge 4 5 3)) 3 0 1000 1300 1
      (ping_chain linux_platform sample_clock 1 (el_receiver (sample_edge 2 3 5)) (el_sender (sample_edge 4 5 3))
        [(sample_edge 6 5 7, sample_edge 8 7 5)]) sample_probe_sys sample_chain_host =
    Some (Probe_Reply \<lparr>pr_sequence = 0, pr_rtt = 300, pr_one_way = 200, pr_hops = [100, 80], pr_hop_count = 5\<rparr>, u, h')"
proof -
  let ?es = "[(sample_edge 2 3 5, sample_edge 4 5 3), (sample_edge 6 5 7, sample_edge 8 7 5)]"
  have trip: "round_trip_ready sample_pool sample_probe_sys sample_chain_host 3 ?es"
    by (simp add: edge_ready_def sample_edge_def zipc_component_id_valid_def ZIPC_COMPONENT_ID_MIN_def ZIPC_COMPONENT_ID_MAX_def Let_def)
  have gen: "identity_ready sample_probe_sys 3"
    by (simp add: identity_ready_def sample_probe_sys_def issue_ready_def gen_ready_def sample_sys_def upd_gen_def ZIPC_SESSION_MASK_def
        ZIPC_SESSION_ROTATING_def UINT32_MAX_def)
  have "reply_of sample_clock (Suc (Suc 0)) 0 1000 1300 = \<lparr>pr_sequence = 0, pr_rtt = 300, pr_one_way = 200, pr_hops = [100, 80], pr_hop_count = 5\<rparr>"
    by (simp add: reply_of_def sample_clock_def upt_rec)
  then show ?thesis
    using ping_probe_replies [OF _ _ _ _ _ _ gen _ trip, where j = 1 and ready = 1 and it = 0 and depart = 1000 and finished = 1300
        and clock = sample_clock]
    by (auto simp: sample_edge_def sample_slots_simps sample_link_def zipc_component_id_valid_def ZIPC_COMPONENT_ID_MIN_def
        ZIPC_COMPONENT_ID_MAX_def MAX_COMPONENTS_def sizeof_ping_payload_def)
qed

subsection \<open>The statistics of a run\<close>

text \<open>The round-trip times that a run sees, in order.\<close>

fun ping_rtts ::
  "(u32 \<Rightarrow> sys \<Rightarrow> 'w \<Rightarrow> (probe_end \<times> sys \<times> 'w) option) \<Rightarrow> (u32 \<Rightarrow> bool) \<Rightarrow> nat \<Rightarrow> u32 \<Rightarrow> sys \<Rightarrow> 'w \<Rightarrow> u64 list" where
  "ping_rtts probe nap 0 it s w = []"
| "ping_rtts probe nap (Suc n) it s w =
     (case probe it s w of
        Some (Probe_Reply r, s, w) \<Rightarrow>
          pr_rtt r # (if n \<noteq> 0 \<and> \<not> nap it then [] else ping_rtts probe nap n (it + 1) s w)
      | _ \<Rightarrow> [])"

lemma length_ping_rtts: "length (ping_rtts probe nap n it s w) \<le> n"
  by (induction n arbitrary: it s w) (auto split: option.split probe_end.split)

text \<open>A run that prints its statistics has counted every reply, and one probe more when the last one
  was not answered.\<close>

lemma ping_loop_counts:
  assumes "ping_loop probe nap n it st s w = Some (Ping_Statistics failed st', t, w')"
  shows "\<exists>k \<le> (1 :: u32). st' = (fold count_reply (ping_rtts probe nap n it s w) st)
      \<lparr>ps_transmitted := ps_transmitted (fold count_reply (ping_rtts probe nap n it s w) st) + k\<rparr> \<and>
    (\<not> failed \<longrightarrow> k = 0 \<and> length (ping_rtts probe nap n it s w) = n)"
  using assms
proof (induction n arbitrary: it st s w)
  case 0
  then show ?case by (auto intro: exI [of _ 0])
next
  case (Suc n)
  obtain e s1 w1 where p: "probe it s w = Some (e, s1, w1)" using Suc.prems by (cases "probe it s w") auto
  show ?case
  proof (cases "\<exists>r. e = Probe_Reply r")
    case True
    then obtain r where e: "e = Probe_Reply r" by blast
    show ?thesis
    proof (cases "n \<noteq> 0 \<and> \<not> nap it")
      case True
      then show ?thesis using Suc.prems p e by (auto simp: Let_def intro: exI [of _ 0])
    next
      case False
      then have "ping_loop probe nap n (it + 1) (count_reply (pr_rtt r) st) s1 w1 = Some (Ping_Statistics failed st', t, w')"
        using Suc.prems p e by (auto simp: Let_def split: if_splits)
      from Suc.IH [OF this] show ?thesis using p e False by auto
    qed
  next
    case False
    then have "st' = st\<lparr>ps_transmitted := ps_transmitted st + 1\<rparr>" "failed" "ping_rtts probe nap (Suc n) it s w = []"
      using Suc.prems p by (cases e; simp)+
    then show ?thesis by (auto intro: exI [of _ 1])
  qed
qed

lemma count_reply_fields [simp]:
  "ps_received (count_reply x st) = ps_received st + 1" "ps_transmitted (count_reply x st) = ps_transmitted st + 1"
  "ps_sum_ns (count_reply x st) = ps_sum_ns st + x" "ps_min_ns (count_reply x st) = min x (ps_min_ns st)"
  "ps_max_ns (count_reply x st) = max x (ps_max_ns st)"
  by (auto simp: count_reply_def min_def max_def)

lemma fold_count_reply:
  "ps_received (fold count_reply xs st) = ps_received st + of_nat (length xs)"
  "ps_transmitted (fold count_reply xs st) = ps_transmitted st + of_nat (length xs)"
  "ps_sum_ns (fold count_reply xs st) = ps_sum_ns st + sum_list xs"
  "ps_min_ns (fold count_reply xs st) = fold min xs (ps_min_ns st)"
  "ps_max_ns (fold count_reply xs st) = fold max xs (ps_max_ns st)"
  by (induction xs arbitrary: st) simp_all

lemma unat_sum_list: "sum_list (map unat xs) < 2 ^ 64 \<Longrightarrow> unat (sum_list xs :: u64) = sum_list (map unat xs)"
  by (induction xs) (simp_all add: unat_word_ariths)

lemma sum_list_between:
  assumes "\<And>x. x \<in> set xs \<Longrightarrow> (lo :: nat) \<le> x \<and> x \<le> hi"
  shows "length xs * lo \<le> sum_list xs \<and> sum_list xs \<le> length xs * hi"
  using assms by (induction xs) (auto simp: add_mono)

lemma ping_statistics:
  assumes "ping_loop probe nap (unat iterations) 0 ping_stats_start s w = Some (Ping_Statistics failed st, t, w')"
  defines "rtts \<equiv> ping_rtts probe nap (unat iterations) 0 s w"
  shows "unat (ps_received st) = length rtts" "ps_transmitted st - ps_received st \<le> 1"
    "\<not> failed \<Longrightarrow> ps_received st = iterations \<and> ps_transmitted st = iterations"
    "rtts \<noteq> [] \<Longrightarrow> ps_min_ns st = Min (set rtts) \<and> ps_max_ns st = Max (set rtts)"
    "rtts \<noteq> [] \<Longrightarrow> sum_list (map unat rtts) < 2 ^ 64 \<Longrightarrow>
       unat (average_ns st) = sum_list (map unat rtts) div length rtts \<and>
       ps_min_ns st \<le> average_ns st \<and> average_ns st \<le> ps_max_ns st"
proof -
  let ?f = "fold count_reply rtts ping_stats_start"
  obtain k :: u32 where k: "k \<le> 1" "st = ?f\<lparr>ps_transmitted := ps_transmitted ?f + k\<rparr>"
      "\<not> failed \<Longrightarrow> k = 0 \<and> length rtts = unat iterations"
    using ping_loop_counts [OF assms(1)] by (auto simp: rtts_def)
  note st = k(2) fold_count_reply [of rtts ping_stats_start, unfolded ping_stats_start_def ping_stats.simps] ping_stats_start_def
  have len: "length rtts < 2 ^ 32" using length_ping_rtts [of probe nap "unat iterations" 0 s w] unat_u32_lt [of iterations]
    by (simp add: rtts_def)
  then show rec: "unat (ps_received st) = length rtts" by (simp add: st unat_of_nat)
  show "ps_transmitted st - ps_received st \<le> 1" using k(1) by (simp add: st)
  show "ps_received st = iterations \<and> ps_transmitted st = iterations" if "\<not> failed" using k(3) [OF that] by (simp add: st)
  assume ne: "rtts \<noteq> []"
  show mm: "ps_min_ns st = Min (set rtts) \<and> ps_max_ns st = Max (set rtts)"
  proof -
    have "Min (set rtts) \<le> UINT64_MAX" using unat_u64_lt [of "Min (set rtts)"] by (simp add: UINT64_MAX_def word_le_nat_alt)
    then have "fold min rtts UINT64_MAX = Min (set rtts)" "fold max rtts (0 :: u64) = Max (set rtts)"
      using ne by (simp_all add: Min.set_eq_fold [symmetric] Max.set_eq_fold [symmetric] Min_insert Max_insert min_absorb2 max_absorb2 del: Min_ge_iff Max_le_iff)
    then show ?thesis by (simp add: st)
  qed
  assume sum: "sum_list (map unat rtts) < 2 ^ 64"
  have avg: "unat (average_ns st) = sum_list (map unat rtts) div length rtts"
    using unat_sum_list [OF sum] len by (simp add: average_ns_def unat_div rec) (simp add: st)
  have each: "x \<in> set (map unat rtts) \<Longrightarrow> unat (ps_min_ns st) \<le> x \<and> x \<le> unat (ps_max_ns st)" for x
    using mm ne by (auto simp flip: word_le_nat_alt)
  have b: "length rtts * unat (ps_min_ns st) \<le> sum_list (map unat rtts)"
    "sum_list (map unat rtts) \<le> length rtts * unat (ps_max_ns st)"
    using sum_list_between [of "map unat rtts", OF each] by simp_all
  have "unat (ps_min_ns st) \<le> unat (average_ns st)"
    unfolding avg using div_le_mono [OF b(1), of "length rtts"] ne by simp
  moreover have "unat (average_ns st) \<le> unat (ps_max_ns st)"
    unfolding avg using div_le_mono [OF b(2), of "length rtts"] ne by simp
  ultimately show "unat (average_ns st) = sum_list (map unat rtts) div length rtts \<and>
      ps_min_ns st \<le> average_ns st \<and> average_ns st \<le> ps_max_ns st"
    using avg by (simp add: word_le_nat_alt)
qed

text \<open>The statistics of \<^verbatim>\<open>zipc-ping\<close> are those of its replies. When the loop of the first component
  ends with a summary, it has counted exactly the round-trip times it saw, and all probes are
  answered unless the run is reported as failed; then at most one probe is missing. The minimum and
  maximum are those of the samples. When the sum of the samples stays below \<open>2 ^ 64\<close>, the average is
  the quotient of sum and number and lies between the two.\<close>

theorem ping_statistics_exact:
  assumes "ping_loop probe nap (unat iterations) 0 ping_stats_start s w = Some (Ping_Statistics failed st, t, w')"
  shows "let rtts = ping_rtts probe nap (unat iterations) 0 s w in
    unat (ps_received st) = length rtts \<and> ps_transmitted st - ps_received st \<le> 1 \<and>
    (\<not> failed \<longrightarrow> ps_received st = iterations \<and> ps_transmitted st = iterations) \<and>
    (rtts \<noteq> [] \<longrightarrow> ps_min_ns st = Min (set rtts) \<and> ps_max_ns st = Max (set rtts)) \<and>
    (rtts \<noteq> [] \<and> sum_list (map unat rtts) < 2 ^ 64 \<longrightarrow>
       unat (average_ns st) = sum_list (map unat rtts) div length rtts \<and>
       ps_min_ns st \<le> average_ns st \<and> average_ns st \<le> ps_max_ns st)"
  using ping_statistics [OF assms] by (simp add: Let_def)

text \<open>Three probes that take 10, 11 and 12 nanoseconds.\<close>

definition sample_probe :: "u32 \<Rightarrow> sys \<Rightarrow> unit \<Rightarrow> (probe_end \<times> sys \<times> unit) option" where
  "sample_probe it s w = Some (Probe_Reply (reply_of sample_clock 1 it 0 (10 + ucast it)), s, w)"

theorem ping_statistics_exact_witness:
  "\<exists>st. ping_loop sample_probe (\<lambda>_. True) 3 0 ping_stats_start sample_sys () = Some (Ping_Statistics False st, sample_sys, ()) \<and>
    ps_received st = 3 \<and> ps_transmitted st = 3 \<and> ps_min_ns st = 10 \<and> ps_max_ns st = 12 \<and> unat (average_ns st) = 11"
proof -
  have three: "unat (3 :: u32) = Suc (Suc (Suc 0))" by simp
  have run: "ping_loop sample_probe (\<lambda>_. True) (unat (3 :: u32)) 0 ping_stats_start sample_sys () =
      Some (Ping_Statistics False (count_reply 12 (count_reply 11 (count_reply 10 ping_stats_start))), sample_sys, ())"
    unfolding three by (simp add: sample_probe_def reply_of_def Let_def)
  have rtts: "ping_rtts sample_probe (\<lambda>_. True) (unat (3 :: u32)) 0 sample_sys () = [10, 11, 12]"
    unfolding three by (simp add: sample_probe_def reply_of_def)
  from ping_statistics_exact [OF run] run show ?thesis unfolding rtts by (auto simp: Let_def)
qed

end
