(* ===== verification/Pool_Report.thy ===== *)
theory Pool_Report
  imports Utilities Pool_Properties
begin

text \<open>
  The report of \<^verbatim>\<open>utilities/zipc-stat.c\<close> on an attached pool: a line per slot with its trace, and a line
  per component that has ever been used. The report is the list of the values that are printed. For
  a pool without an operation under way it agrees with the ownership contract.
\<close>

subsection \<open>The lines\<close>

fun state_name :: "zipc_slot_state \<Rightarrow> string" where
  "state_name ZIPC_SLOT_FREE = ''FREE''"
| "state_name ZIPC_SLOT_CLAIMING = ''CLAIMING''"
| "state_name ZIPC_SLOT_OWNED = ''OWNED''"
| "state_name ZIPC_SLOT_TRANSFER = ''TRANSFER''"
| "state_name ZIPC_SLOT_ERROR = ''ERROR''"

definition event_name :: "zipc_trace_event option \<Rightarrow> string" where
  "event_name event =
     (case event of
        Some ZIPC_TRACE_ALLOCATE \<Rightarrow> ''ALLOC''
      | Some ZIPC_TRACE_SEND \<Rightarrow> ''SEND''
      | Some ZIPC_TRACE_RECEIVE \<Rightarrow> ''RECV''
      | Some ZIPC_TRACE_RELEASE \<Rightarrow> ''FREE''
      | Some ZIPC_TRACE_RECOVER \<Rightarrow> ''RECOVER''
      | Some ZIPC_TRACE_ERROR \<Rightarrow> ''ERROR''
      | None \<Rightarrow> ''?'')"

definition component_state_name :: "u32 \<Rightarrow> string" where
  "component_state_name state =
     (if state = ZIPC_COMPONENT_INACTIVE then ''INACTIVE''
      else if state = ZIPC_COMPONENT_RECOVERING then ''RECOVERING''
      else if state = ZIPC_COMPONENT_ACTIVE then ''ACTIVE''
      else ''UNKNOWN'')"

record slot_line =
  sn_slot :: u32
  sn_state :: string
  sn_owner :: zipc_component_id
  sn_epoch :: u32
  sn_generation :: u32
  sn_hops :: "u32 \<times> u32"
  sn_length :: u32
  sn_age_ns :: u64
  sn_recoveries :: u32
  sn_trace :: "(u64 \<times> u32 \<times> zipc_component_id \<times> string) list"

definition report_slot :: "u64 \<Rightarrow> zipc_pool \<Rightarrow> sys \<Rightarrow> u32 \<Rightarrow> slot_line" where
  "report_slot now p s i =
     (let slot = slot_of s (slot_ptr p i)
      in \<lparr>sn_slot = i, sn_state = state_name (sc_state slot), sn_owner = sc_owner_id slot, sn_epoch = sc_owner_epoch slot,
          sn_generation = sc_generation slot, sn_hops = (sc_hop_count slot, sc_hop_limit slot),
          sn_length = rg_length (sc_region slot),
          sn_age_ns = (if now \<ge> sc_acquired_ns slot then now - sc_acquired_ns slot else 0),
          sn_recoveries = sc_recovery_count slot,
          sn_trace = map (\<lambda>t. (te_timestamp_ns t, te_sequence t, te_component_id t, event_name (te_event t)))
            (zipc_slot_trace_copy (Some slot) True ZIPC_TRACE_DEPTH)\<rparr>)"

definition stat_slots :: "bool \<Rightarrow> u32 \<Rightarrow> u64 \<Rightarrow> zipc_pool \<Rightarrow> sys \<Rightarrow> slot_line list" where
  "stat_slots show_free slots now p s =
     map (report_slot now p s)
       (filter (\<lambda>i. \<not> (\<not> show_free \<and> sc_state (slot_of s (slot_ptr p i)) = ZIPC_SLOT_FREE))
         (map of_nat [0..<unat slots]))"

record component_line =
  cl_id :: zipc_component_id
  cl_epoch :: u32
  cl_state :: string
  cl_active :: bool
  cl_heartbeat_ns :: u64
  cl_recovered :: u64

definition report_component :: "zipc_pool \<Rightarrow> sys \<Rightarrow> zipc_component_id \<Rightarrow> component_line option" where
  "report_component p s i =
     (let snapshot = the (snd (zipc_component_snapshot (Some p) i True s))
      in if snap_epoch snapshot = 0 \<and> \<not> snap_active snapshot \<and> snap_recovered_slots snapshot = 0 then None
         else Some \<lparr>cl_id = i, cl_epoch = snap_epoch snapshot, cl_state = component_state_name (snap_state snapshot),
                    cl_active = snap_active snapshot, cl_heartbeat_ns = snap_last_heartbeat_ns snapshot,
                    cl_recovered = snap_recovered_slots snapshot\<rparr>)"

definition stat_components :: "zipc_pool \<Rightarrow> sys \<Rightarrow> component_line list" where
  "stat_components p s =
     List.map_filter (report_component p s)
       (map of_nat [unat ZIPC_COMPONENT_ID_MIN..<Suc (unat ZIPC_COMPONENT_ID_MAX)])"

subsection \<open>The report and the ownership contract\<close>

text \<open>What a line says of a slot, read as a state of the contract.\<close>

definition line_agrees :: "slot_line \<Rightarrow> own_state \<Rightarrow> bool" where
  "line_agrees l a \<longleftrightarrow>
     (case a of
        Own_Free g \<Rightarrow> sn_state l = ''FREE'' \<and> sn_generation l = g
      | Own_Owned c e g \<Rightarrow> sn_state l = ''OWNED'' \<and> sn_owner l = c \<and> sn_epoch l = e \<and> sn_generation l = g
      | Own_Transfer c e d g \<Rightarrow> sn_state l = ''TRANSFER'' \<and> sn_owner l = c \<and> sn_epoch l = e \<and> sn_generation l = g
      | Own_Error g \<Rightarrow> sn_state l = ''ERROR'' \<and> sn_generation l = g)"

lemma report_slot_agrees: "slot_quiet (slot_of s (slot_ptr p i)) \<Longrightarrow> line_agrees (report_slot now p s i) (abs_slot (slot_of s (slot_ptr p i)))"
  by (simp add: line_agrees_def report_slot_def slot_quiet_def abs_slot_def Let_def split: zipc_slot_state.split)

lemma abs_free_iff: "slot_quiet sl \<Longrightarrow> (\<exists>g. abs_slot sl = Own_Free g) \<longleftrightarrow> sc_state sl = ZIPC_SLOT_FREE"
  by (simp add: slot_quiet_def abs_slot_def split: zipc_slot_state.split)

lemma age_exact: "unat (sn_age_ns (report_slot now p s i)) = unat now - unat (sc_acquired_ns (slot_of s (slot_ptr p i)))"
  by (simp add: report_slot_def unat_sub word_le_nat_alt Let_def)

text \<open>C40: The slot lines of \<^verbatim>\<open>zipc-stat\<close> show who holds what. On a pool that satisfies the invariant and
  has no operation under way, the report has a line for exactly the slots that the ownership
  contract does not count as free, or for all of them with \<open>--all\<close>, in the order of the slots;
  each line gives the state, owner, epoch and generation of the contract, and an age that is the
  time since the acquisition and never wraps around.\<close>

theorem stat_report_shows_ownership:
  assumes "pool_inv s p" "pool_quiet s p"
  shows "let lines = stat_slots show_free (ph_slot_count (hdr s p)) now p s in
    map sn_slot lines = filter (\<lambda>i. show_free \<or> (\<forall>g. pool_abs s p i \<noteq> Some (Own_Free g))) (map of_nat [0..<unat (ph_slot_count (hdr s p))]) \<and>
    (\<forall>l \<in> set lines. \<exists>a. pool_abs s p (sn_slot l) = Some a \<and> line_agrees l a \<and>
       unat (sn_age_ns l) = unat now - unat (sc_acquired_ns (slot_of s (slot_ptr p (sn_slot l)))))"
proof -
  let ?is = "map of_nat [0..<unat (ph_slot_count (hdr s p))] :: u32 list"
  have lt: "i < ph_slot_count (hdr s p)" if "i \<in> set ?is" for i
    using that unat_u32_lt [of "ph_slot_count (hdr s p)"] by (auto simp: word_less_nat_alt unat_of_nat)
  then have q: "slot_quiet (slot_of s (slot_ptr p i))" if "i \<in> set ?is" for i
    using pool_quiet_slot [OF pool_inv_shape [OF assms(1)] assms(2)] that by blast
  have free: "(\<forall>g. pool_abs s p i \<noteq> Some (Own_Free g)) \<longleftrightarrow> sc_state (slot_of s (slot_ptr p i)) \<noteq> ZIPC_SLOT_FREE" if "i \<in> set ?is" for i
    using abs_free_iff [OF q [OF that]] lt [OF that] by (auto simp: pool_abs_def)
  have slot: "sn_slot (report_slot now p s i) = i" for i by (simp add: report_slot_def Let_def)
  have "filter (\<lambda>i. show_free \<or> (\<forall>g. pool_abs s p i \<noteq> Some (Own_Free g))) ?is =
      filter (\<lambda>i. \<not> (\<not> show_free \<and> sc_state (slot_of s (slot_ptr p i)) = ZIPC_SLOT_FREE)) ?is"
    by (rule filter_cong [OF refl]) (use free in auto)
  moreover have "pool_abs s p i = Some (abs_slot (slot_of s (slot_ptr p i)))" if "i \<in> set ?is" for i
    using lt [OF that] by (simp add: pool_abs_def)
  ultimately show ?thesis
    using report_slot_agrees [OF q] by (auto simp: stat_slots_def Let_def slot age_exact comp_def)
qed

theorem stat_report_shows_ownership_witness:
  "let lines = stat_slots False 2 9 sample_pool (sample_state [sample_owned_slot, sample_slot]) in
     map sn_slot lines = [0] \<and> (\<forall>l \<in> set lines. sn_state l = ''OWNED'' \<and> sn_owner l = 3)"
proof -
  let ?s = "sample_state [sample_owned_slot, sample_slot]"
  have abs: "pool_abs ?s sample_pool 0 = Some (Own_Owned 3 0 1)" "pool_abs ?s sample_pool 1 = Some (Own_Free 0)"
    by (simp_all add: pool_abs_def abs_slot_def sample_slots_simps) (simp add: sample_slot_def)
  have quiet: "pool_quiet ?s sample_pool"
    by (simp add: pool_quiet_def slot_quiet_def sample_state_def sample_slots_simps) (simp add: sample_slot_def)
  have two: "map of_nat [0..<unat (2 :: u32)] = [0, 1 :: u32]" by (simp add: upt_rec)
  from stat_report_shows_ownership [OF _ quiet, of False 9] two have
    slots: "map sn_slot (stat_slots False 2 9 sample_pool ?s) = [0]"
    and agree: "\<forall>l \<in> set (stat_slots False 2 9 sample_pool ?s). \<exists>a. pool_abs ?s sample_pool (sn_slot l) = Some a \<and> line_agrees l a"
    by (auto simp: Let_def abs)
  have "sn_slot l = 0" if "l \<in> set (stat_slots False 2 9 sample_pool ?s)" for l
    using that slots by (metis empty_iff empty_set image_eqI list.set_map set_ConsD)
  then show ?thesis using slots agree abs(1) by (auto simp: Let_def line_agrees_def)
qed

end
