(* ===== verification/Spec2Isabelle.thy ===== *)
theory Spec2Isabelle
  imports Spsc_Ring Recovery_Properties Pool_Config Link_Recovery Xen_Properties Memory_Properties Rtos_Properties
    Kernel_Transport Backends Topology_Text Utilities_Properties Chain_Probe Pool_Report
begin

text \<open>
  \<^bold>\<open>Verification of zIPC\<close>, a zero-copy inter-process communication library in C.

  \<^bold>\<open>The program.\<close> Components exchange buffers that live in slots of a shared pool. A buffer has one owner;
  ownership moves by a small descriptor (\<open>zipc_message_t\<close>) that travels through a transport while the bytes
  stay where they are. The core (\<^verbatim>\<open>src/core/zipc.c\<close>, \<^verbatim>\<open>include/zipc/zipc.h\<close>) formats and attaches pools,
  runs the slot protocol (allocate, send, claim, release) on two atomic words per slot, keeps the life
  cycle of components and repairs the pool after one of them died, and offers links that join a pool, a
  direction and a transport. Platform ports under \<^verbatim>\<open>platform/\<close> supply memory objects and transports for
  Linux, Xen, FreeRTOS, bare metal and the Linux kernel. A registry maps names to links, from static data
  or from a configuration text.

  \<^bold>\<open>Theories and sources.\<close>
  \<^item> \<open>Zipc_Prelude\<close>, \<open>Zipc_Types\<close>: shared lemmas on words and lists; the public types, status codes, handles
    and buffer identities of \<^verbatim>\<open>zipc.h\<close> as words, records and datatypes.
  \<^item> \<open>Visited_Set\<close>: the 256-bit set of visited components, against sets.
  \<^item> \<open>Spsc_Ring\<close>: the single-producer ring of \<^verbatim>\<open>platform-linux-common.c\<close> and the ring set-up of \<^verbatim>\<open>zipc.c\<close>, against a
    bounded list of descriptors; \<open>descriptor_queue\<close> is its interface as a locale.
  \<^item> \<open>Pool_State\<close>, \<open>Slot_Helpers\<close>, \<open>Buffer_Identity\<close>, \<open>Slot_Ops\<close>: the shared memory as a store (\<open>sys\<close>), the static
    helpers, the identity generator and the slot operations, with every check in the order of the code.
  \<^item> \<open>Slot_Invariant\<close>, \<open>Slot_Protocol\<close>, \<open>Slot_Release\<close>: the pool invariant, frame rules and the outcome of each
    operation on each branch.
  \<^item> \<open>Component_Lifecycle\<close>, \<open>Recovery\<close>: registration, heartbeat, restart and the two quiescent recoveries.
  \<^item> \<open>Ownership\<close>: the abstract machine of who holds which slot; \<open>Pool_Machine\<close>: the step relation of completed and
    interrupted operations. \<open>Pool_Properties\<close>, \<open>Recovery_Properties\<close>: the operations refine the abstract machine.
  \<^item> \<open>Pool_Config\<close>: configuration, formatting and attachment of a pool. \<open>Buffer_View\<close>: accessors and editing of a
    buffer view against byte lists.
  \<^item> \<open>Linux_Transport\<close>, \<open>Transport_Properties\<close>, \<open>Ring_Transport\<close>: the transports of \<^verbatim>\<open>platform-linux-user.c\<close>.
  \<^item> \<open>Link\<close>: links over a record \<open>platform_ops\<close> of the transport operations of a port. \<open>Link_Channel\<close>: the locales
    \<open>descriptor_channel\<close> and \<open>prompt_channel\<close>, what a link needs of a transport, and the link lemmas proved from them
    once. \<open>Link_Properties\<close>: interpretation on the Linux shared ring. \<open>Link_Recovery\<close>: reconciliation of a link.
  \<^item> \<open>Port_Host\<close>: the environment of the other ports, the ring and receive tokens they share. \<open>Xen_Platform\<close>,
    \<open>Freertos_Platform\<close>, \<open>Baremetal_Platform\<close>, with \<open>Xen_Properties\<close> and \<open>Rtos_Properties\<close>: the ports and the
    interpretations of the channel locales on them. \<open>Kernel_Transport\<close>: \<^verbatim>\<open>platform-linux-kernel.c\<close>.
  \<^item> \<open>Platform_Memory\<close>, \<open>Memory_Properties\<close>: memory objects of Linux and Xen. \<open>Backends\<close>: \<^verbatim>\<open>zipc-backends.c\<close>.
  \<^item> \<open>Topology\<close>, \<open>Topology_Properties\<close>, \<open>Topology_Text\<close>: the registry, its parser and the file loader.
  \<^item> \<open>Relay_Chain\<close>: the loop bodies of the components of \<^verbatim>\<open>utilities/zipc-packetrate.c\<close> over the link layer.
    \<open>Utilities\<close>, \<open>Utilities_Properties\<close>: the command lines of the tools under \<^verbatim>\<open>utilities/\<close> and the pools, links
    and memories they configure. \<open>Chain_Probe\<close>: the components of \<^verbatim>\<open>utilities/zipc-ping.c\<close>. \<open>Pool_Report\<close>: the
    report of \<^verbatim>\<open>utilities/zipc-stat.c\<close>.

  \<^bold>\<open>State.\<close> A pool pointer is the record \<open>zipc_pool\<close>, with a reference into the shared memories of \<open>sys\<close>; a slot
  pointer is a pair of such a reference and an index. Machine integers are words of their width, so counters
  wrap as in C. A pointer that may be null is an option; an output pointer is a flag or an optional result.
  The operating system, the kernel services, the callbacks and the peer answer from a stream of replies that
  is part of the host state, and every call is recorded in a log: a theorem for all hosts holds for every
  behaviour of the environment. Clock and entropy are such streams too.

  \<^bold>\<open>Loops.\<close> Scans over slots recurse over the number of slots. The loops that wait for the environment (interrupted
  calls, polling, the identity generator, the receive loop of a link, the wait of a tool for a free buffer) are \<open>partial_function (option)\<close>: \<open>None\<close> is
  not returning, and where the code promises to return this is proved. \<open>restart_drain\<close> takes the number of calls
  of \<open>zipc_component_restart_next\<close>; one more than the slots is shown to be enough. \<open>reconcile_ring\<close> and
  \<open>strtok_lines\<close> have a measure.

  \<^bold>\<open>What is shown.\<close>
  \<^item> Ownership: each slot operation implements exactly one event of the abstract machine when it succeeds and none
    when it is refused; allocation reports that no buffer is left exactly when no slot is available, and with one
    available it fails only for want of an identity or, under strict ownership, of page protection; send and claim
    succeed exactly under stated conditions; a descriptor can be claimed once; a released handle is dead. All states
    reachable by operations that completed, or died between two of their atomic steps, satisfy the invariant; this
    covers allocation, send, claim, release and the rollback of a send. A process that dies inside a restart, a
    quiescent recovery or a reconciliation is not covered (\<open>error_slot_is_lost\<close> shows what can remain then).
  \<^item> Recovery: a restart ends within a bounded number of steps; afterwards the dead epoch owns no slot and holds no
    claim, except that a slot in transfer may keep the token of a send, which does not stop the receiver, or of a
    rollback, which the reconciliation of the link clears. A reconciled producer link announces exactly the transfers in flight; a consumer link drops from
    the head of its ring exactly the descriptors whose handle is not that of a slot in transfer.
  \<^item> Transport and links: the rings are bounded queues, a two-phase receive hands out the oldest descriptor, a
    send through a link hands the buffer over or leaves it with the sender, or, on a strict pool whose page
    protection fails in the rollback, keeps it claimed by the sender; a receive yields a pending buffer or leaves
    ownership as it was, passing only over outdated descriptors; and a buffer sent over a Linux or Xen ring arrives
    with its bytes. Opening and closing a transport or a memory object leaks nothing. FreeRTOS and bare metal
    agree on every transport that both implement except RPMsg, whose differences are stated.
  \<^item> Layout: formatting establishes the invariant, attaching accepts what was formatted, no payload or control
    block leaves its memory object; an opened memory object lies inside its mapping.
  \<^item> Registry: in every reachable registry each link resolves and opens with its own fields, and an accepted
    configuration registers each of its links with every field as declared; a printed topology loads back.
  \<^item> Composition: a packet allocated, filled and sent by the first component of a chain of relays is delivered to
    the last one with exactly its payload, over any number of rings. The pool and the links that
    \<^verbatim>\<open>zipc-packetrate\<close> configures from any accepted options meet the conditions of that theorem on pool, components,
    epochs, hop limit and deadline; its condition that the depth of each ring divides \<open>2^32\<close> is one on the options
    (an automatic slot count may violate it, \<open>automatic_depth_not_aligned\<close>). A probe of \<^verbatim>\<open>zipc-ping\<close> goes to
    the end of its chain and back and returns with the clock readings of every component; its statistics are
    those of the replies. The report of \<^verbatim>\<open>zipc-stat\<close> agrees with the abstract machine of ownership.

  \<^bold>\<open>Ring depth.\<close> The code accepts every depth of at least two. The theorems on rings need that the depth divides
  \<open>2^32\<close>, as every power of two does (\<open>ring_invar\<close>): with another depth the free-running counters lose descriptors when
  they wrap, which \<open>ring_depth_three_loses_descriptor\<close> shows.

  \<^bold>\<open>Granularity.\<close> An operation runs alone between its first and last atomic access, except that an allocation, a send,
  a claim, a release or a rollback may be cut short after any of them (\<open>cut_short\<close>) and that the peer may push descriptors while the caller waits. Interleavings of two
  operations inside one slot, and weak memory orders, are not modelled.

  \<^bold>\<open>Not modelled.\<close> Of the tools under \<^verbatim>\<open>utilities/\<close>: creating and awaiting processes, the clocks (their readings are
  arguments), the options of \<^verbatim>\<open>zipc-ping\<close> and the rates that are floating-point numbers, the layout of the printed
  text, the memory copies that \<^verbatim>\<open>zipc-membench\<close> times, and the clean-up at exit. The examples and the tests, which only
  call the library, and the hooks that \<^verbatim>\<open>ZIPC_TESTING\<close> adds to \<^verbatim>\<open>zipc.c\<close>. The kernel FIFO, message queues, sockets, RPMsg, secure calls and Xen hypercalls are calls
  answered by the environment. Layouts of C unions are not: each member is a field of its own, and the type
  field selects the one that is read. Build configuration macros of the ports are arguments.
\<close>

end
